(* ===== verification/Go_Base.thy ===== *)
theory Go_Base
  imports Main "HOL-Library.Word" "HOL-Library.Char_ord"
begin

text \<open>
  The prelude of the development: Go's error values, the bundle of case distinctions for
  results, and generic lemmas on lists that the component theories share.

  A Go \<open>error\<close> is an interface value. The program distinguishes errors only by
  \<open>errors.Is\<close> against package-level variables and by comparison with \<open>nil\<close>, so an error is
  modelled by the tree that \<open>Unwrap\<close> spans: \<open>Atom\<close> is one package-level variable (or one error
  value made outside the repository, \<open>ErrExternal\<close>), \<open>Wrap\<close> is \<open>fmt.Errorf\<close> with \<open>%w\<close> verbs or
  \<open>errors.Join\<close>, with its message prefix and its wrapped errors. A \<open>nil\<close> error is \<open>None\<close>.
\<close>

section \<open>Error values\<close>

text \<open>
  The packages \<^verbatim>\<open>http_client\<close>, \<^verbatim>\<open>kafka\<close> and \<^verbatim>\<open>circuit_breaker\<close> have collections of their own;
  \<open>InPackage p v\<close> is the variable \<open>v\<close> of package \<open>p\<close>.
\<close>

datatype http_sentinel =
    ErrNotFound | ErrBadRequest | ErrNon200HttpCode | ErrInvalidFormDataType | ErrTLSConfig | ErrBothFormDataAndBody

datatype kafka_sentinel =
    ErrKafkaTLSConfig | ErrSASLConfig | ErrNotConnected | ErrNoBrokers | ErrNoTopic | ErrNoGroupID
  | SaslAuthenticationFailed | TopicAuthorizationFailed | GroupAuthorizationFailed | ClusterAuthorizationFailed

datatype breaker_sentinel = ErrBreakerUnexpectedType

datatype sentinel =
    ErrNotEnoughItems | ErrNegativeCount | ErrNilIterator
  | ErrUnknownToken
  | EOF | ErrUnexpectedEOF
  | ContextCanceled | ContextDeadlineExceeded
  | ErrAlreadyResolved | ErrNotResolved | ErrChannelClosed | ErrNilError | ErrPromiseResolved | ErrNoValue
  | ErrNotStarted | ErrAlreadyStarted | ErrAlreadyStopped
  | ErrNotExist | ErrNotDir | ErrIsDir | ErrNotEmpty | ErrFileExists | ErrInvalid
  | ErrStorageFailed | ErrNoChunksProvided | ErrChunkProcess
  | ErrExec | ErrExitCode
  | ErrActionNoName | ErrActionDuplicateName | ErrTriggerNotFound | ErrTriggerFailed | ErrNoScriptDriver
  | ErrActionNoOptions | ErrActionTooManyOptions | ErrActionTriggerTooManyOptions | ErrActionArgsTooManyOptions
  | ErrActionEnvTooManyOptions | ErrCommandFailed | ErrAsMapStringString | ErrUnmarshalResultObject
  | ErrParseInput | ErrOpenSource | ErrParseFile | ErrProcessFile | ErrUnknownProtobufElement | ErrUnknownProtobufField
  | ErrUnknownProtobufEnumField | ErrProcessMessage | ErrProcessEnum | ErrProcessField | ErrOneOfFieldNotInsideOneOf
  | ErrProviderNoSuchKey | ErrProviderGet | ErrProviderSet | ErrProviderDelete | ErrMarshal | ErrUnmarshal | RedisNil
  | ErrInvalidBufferSize | ErrUnexpectedType
  | InPackage string string
  | InHttpClient http_sentinel | InKafka kafka_sentinel | InBreaker breaker_sentinel
  | ErrExternal nat

datatype go_error = Atom sentinel | Wrap string "go_error list"

text \<open>\<open>errors.Is\<close>: the target occurs in the tree of wrapped errors.\<close>

fun err_is :: "go_error \<Rightarrow> sentinel \<Rightarrow> bool" where
  "err_is (Atom a) t = (a = t)"
| "err_is (Wrap m es) t = list_ex (\<lambda>e. err_is e t) es"

text \<open>\<open>errors.Is\<close> on a possibly nil error.\<close>

definition is_err :: "go_error option \<Rightarrow> sentinel \<Rightarrow> bool" where
  "is_err e t = (case e of None \<Rightarrow> False | Some x \<Rightarrow> err_is x t)"

lemma is_err_simps [simp]:
  "is_err None t = False"
  "is_err (Some x) t = err_is x t"
  by (simp_all add: is_err_def)

lemma err_is_wrap_one [simp]: "err_is (Wrap m [e]) t = err_is e t"
  by simp

text \<open>A result with its new state: what the error says about the pair.\<close>

lemma fst_SomeD: "fst x \<noteq> None \<Longrightarrow> \<exists>e s. x = (Some e, s)"
  by (cases x) auto

lemma fst_NoneD: "fst x = None \<Longrightarrow> \<exists>s. x = (None, s)"
  by (cases x) auto

type_synonym byte = char

text \<open>The case distinctions of a proof by symbolic execution.\<close>

lemmas result_splits = prod.splits sum.splits option.splits if_splits

section \<open>Lists\<close>

lemma take_append_le: "n \<le> length xs \<Longrightarrow> take n (xs @ ys) = take n xs"
  by simp

lemma drop_append_le: "n \<le> length xs \<Longrightarrow> drop n (xs @ ys) = drop n xs @ ys"
  by simp

lemma takeWhile_hd_stop: "dropWhile P xs = y # ys \<Longrightarrow> \<not> P y"
  by (metis hd_dropWhile list.distinct(1) list.sel(1))

lemma takeWhile_append_drop: "takeWhile P xs @ drop (length (takeWhile P xs)) xs = xs"
  by (metis dropWhile_eq_drop takeWhile_dropWhile_id)

lemma set_butlast_last: "xs \<noteq> [] \<Longrightarrow> set xs = insert (last xs) (set (butlast xs))"
  by (induction xs) auto

text \<open>A separator that does not occur behind it splits a list in one way.\<close>

lemma split_at_last:
  assumes "a @ x # d = a' @ x # d'" "x \<notin> set d" "x \<notin> set d'"
  shows "a = a' \<and> d = d'"
proof -
  have "takeWhile (\<lambda>c. c \<noteq> x) (rev d @ x # rev a) = takeWhile (\<lambda>c. c \<noteq> x) (rev d' @ x # rev a')"
    using arg_cong [OF assms(1), of rev] by simp
  moreover have "takeWhile (\<lambda>c. c \<noteq> x) (rev d @ x # rev a) = rev d" if "x \<notin> set d" for d a
    using that by (subst takeWhile_append2) auto
  ultimately have "d = d'" using assms(2,3) by simp
  with assms(1) show ?thesis by simp
qed

end
