(* ===== verification/Iterators.thy ===== *)
theory Iterators
  imports Go_Base
begin

text \<open>
  The package \<^verbatim>\<open>iterator\<close>: the interface \<open>Iterator\<close> and \<open>Materialize\<close> (\<^verbatim>\<open>iterator.go\<close>), the
  iterator over an \<open>io.Reader\<close> (\<^verbatim>\<open>reader.go\<close>) and the buffered look-ahead
  \<open>PeekableConsumableImpl\<close> (\<^verbatim>\<open>consumable.go\<close>).

  A Go interface value is modelled by a record of its methods over a state: a method that may
  change the receiver returns the new state. The contract that clients rely on is the locale
  \<open>finite_iterator\<close>; the reader iterator interprets it at the end of the theory.
\<close>

section \<open>The interface Iterator and Materialize\<close>

record ('s, 't) iterator =
  iHasNext :: "'s \<Rightarrow> bool \<times> 's"
  iNext :: "'s \<Rightarrow> 't \<times> 's"
  iErr :: "'s \<Rightarrow> go_error option"

text \<open>
  The loop of \<open>Materialize\<close> may run forever on an endless iterator, so it is a partial
  function: \<open>None\<close> is "does not return". The accumulator is \<open>result\<close>.
\<close>

partial_function (option) materialize_loop ::
  "('s, 't) iterator \<Rightarrow> 't list \<Rightarrow> 's \<Rightarrow> ('t list \<times> 's) option" where
  "materialize_loop ops result s =
     (case iHasNext ops s of (has, s1) \<Rightarrow>
        if has \<and> iErr ops s1 = None
        then (case iNext ops s1 of (x, s2) \<Rightarrow> materialize_loop ops (result @ [x]) s2)
        else Some (result, s1))"

definition Materialize ::
  "('s, 't) iterator \<Rightarrow> 's \<Rightarrow> (('t list \<times> go_error option) \<times> 's) option" where
  "Materialize ops s =
     map_option (\<lambda>(result, s'). ((result, iErr ops s'), s')) (materialize_loop ops [] s)"

section \<open>ReaderIterator\<close>

text \<open>
  An \<open>io.Reader\<close> hands out its bytes and then either reports \<open>io.EOF\<close> (no fault) or fails
  with some error. \<open>io.ReadFull\<close> into a one-byte buffer returns the next byte if there is one,
  and otherwise the error.
\<close>

record reader =
  rd_bytes :: "byte list"
  rd_fault :: "go_error option"

definition ReadFull1 :: "reader \<Rightarrow> (go_error + byte) \<times> reader" where
  "ReadFull1 r =
     (case rd_bytes r of
        b # bs \<Rightarrow> (Inr b, r\<lparr>rd_bytes := bs\<rparr>)
      | [] \<Rightarrow> (case rd_fault r of None \<Rightarrow> (Inl (Atom EOF), r) | Some e \<Rightarrow> (Inl e, r)))"

record reader_iterator =
  ri_buffer :: byte
  ri_reader :: reader
  ri_hasBuffer :: bool
  ri_done :: bool
  ri_err :: "go_error option"

definition NewReaderIterator :: "reader \<Rightarrow> reader_iterator" where
  "NewReaderIterator r =
     \<lparr>ri_buffer = CHR 0x00, ri_reader = r, ri_hasBuffer = False, ri_done = False, ri_err = None\<rparr>"

definition ri_readNext :: "reader_iterator \<Rightarrow> bool \<times> reader_iterator" where
  "ri_readNext i =
     (case ReadFull1 (ri_reader i) of
        (Inr b, r) \<Rightarrow> (True, i\<lparr>ri_reader := r, ri_buffer := b, ri_hasBuffer := True\<rparr>)
      | (Inl e, r) \<Rightarrow>
          (let i1 = i\<lparr>ri_reader := r, ri_done := True\<rparr>
           in if err_is e EOF \<or> err_is e ErrUnexpectedEOF
              then (False, i1)
              else (False, i1\<lparr>ri_err := Some e\<rparr>)))"

definition ri_HasNext :: "reader_iterator \<Rightarrow> bool \<times> reader_iterator" where
  "ri_HasNext i =
     (if ri_hasBuffer i then (True, i)
      else if ri_done i then (False, i)
      else ri_readNext i)"

definition ri_Next :: "reader_iterator \<Rightarrow> byte \<times> reader_iterator" where
  "ri_Next i =
     (case ri_HasNext i of (has, i1) \<Rightarrow>
        if \<not> has then (CHR 0x00, i1)
        else (ri_buffer i1, i1\<lparr>ri_hasBuffer := False\<rparr>))"

definition ri_Err :: "reader_iterator \<Rightarrow> go_error option" where
  "ri_Err i = ri_err i"

definition reader_iter :: "(reader_iterator, byte) iterator" where
  "reader_iter = \<lparr>iHasNext = ri_HasNext, iNext = ri_Next, iErr = ri_Err\<rparr>"

section \<open>PeekableConsumableImpl\<close>

text \<open>
  The look-ahead buffer over an arbitrary iterator; \<open>pc_iterator = None\<close> is the nil iterator.
  Counts are Go ints. \<open>ConsumeN\<close> also zeroes the dropped cells of the backing array, which no
  later read can see.
\<close>

record ('s, 't) peekable =
  pc_iterator :: "'s option"
  pc_buffer :: "'t list"
  pc_err :: "go_error option"

definition NewPeekableConsumable :: "'s option \<Rightarrow> ('s, 't) peekable" where
  "NewPeekableConsumable it = \<lparr>pc_iterator = it, pc_buffer = [], pc_err = None\<rparr>"

definition not_enough :: go_error where
  "not_enough = Wrap ''requested, available'' [Atom ErrNotEnoughItems]"

function fill_loop ::
  "('s, 't) iterator \<Rightarrow> nat \<Rightarrow> 's \<Rightarrow> ('s, 't) peekable \<Rightarrow> go_error option \<times> ('s, 't) peekable" where
  "fill_loop ops num it p =
     (if length (pc_buffer p) < num then
        (case iHasNext ops it of (has, it1) \<Rightarrow>
           if \<not> has then
             (case iErr ops it1 of
                Some e \<Rightarrow> (Some e, p\<lparr>pc_iterator := Some it1, pc_err := Some e\<rparr>)
              | None \<Rightarrow> (Some not_enough, p\<lparr>pc_iterator := Some it1\<rparr>))
           else
             (case iNext ops it1 of (x, it2) \<Rightarrow>
                let p1 = p\<lparr>pc_iterator := Some it2, pc_buffer := pc_buffer p @ [x]\<rparr> in
                (case iErr ops it2 of
                   Some e \<Rightarrow> (Some e, p1\<lparr>pc_err := Some e\<rparr>)
                 | None \<Rightarrow> fill_loop ops num it2 p1)))
      else (None, p))"
  by pat_completeness auto
termination
  by (relation "measure (\<lambda>(ops, num, it, p). num - length (pc_buffer p))") auto

declare fill_loop.simps [simp del]

definition fillBuffer ::
  "('s, 't) iterator \<Rightarrow> int \<Rightarrow> ('s, 't) peekable \<Rightarrow> go_error option \<times> ('s, 't) peekable" where
  "fillBuffer ops num p =
     (if num < 0 then (Some (Wrap ''negative count'' [Atom ErrNegativeCount]), p)
      else if num = 0 then (None, p)
      else case pc_err p of
             Some e \<Rightarrow> (Some e, p)
           | None \<Rightarrow> (case pc_iterator p of
                        None \<Rightarrow> (Some (Atom ErrNilIterator), p)
                      | Some it \<Rightarrow> fill_loop ops (nat num) it p))"

definition PeekN ::
  "('s, 't) iterator \<Rightarrow> int \<Rightarrow> ('s, 't) peekable \<Rightarrow> (go_error + 't list) \<times> ('s, 't) peekable" where
  "PeekN ops num p =
     (case fillBuffer ops num p of
        (Some e, p1) \<Rightarrow> (Inl e, p1)
      | (None, p1) \<Rightarrow> (Inr (take (nat num) (pc_buffer p1)), p1))"

definition Peek ::
  "('s, 't) iterator \<Rightarrow> ('s, 't) peekable \<Rightarrow> (go_error + 't) \<times> ('s, 't) peekable" where
  "Peek ops p =
     (case PeekN ops 1 p of
        (Inl e, p1) \<Rightarrow> (Inl e, p1)
      | (Inr values, p1) \<Rightarrow> (Inr (values ! 0), p1))"

definition Peek2 ::
  "('s, 't) iterator \<Rightarrow> ('s, 't) peekable \<Rightarrow> (go_error + 't \<times> 't) \<times> ('s, 't) peekable" where
  "Peek2 ops p =
     (case PeekN ops 2 p of
        (Inl e, p1) \<Rightarrow> (Inl e, p1)
      | (Inr values, p1) \<Rightarrow> (Inr (values ! 0, values ! 1), p1))"

definition Peek3 ::
  "('s, 't) iterator \<Rightarrow> ('s, 't) peekable \<Rightarrow> (go_error + 't \<times> 't \<times> 't) \<times> ('s, 't) peekable" where
  "Peek3 ops p =
     (case PeekN ops 3 p of
        (Inl e, p1) \<Rightarrow> (Inl e, p1)
      | (Inr values, p1) \<Rightarrow> (Inr (values ! 0, values ! 1, values ! 2), p1))"

definition ConsumeN ::
  "('s, 't) iterator \<Rightarrow> int \<Rightarrow> ('s, 't) peekable \<Rightarrow> go_error option \<times> ('s, 't) peekable" where
  "ConsumeN ops num p =
     (case fillBuffer ops num p of
        (Some e, p1) \<Rightarrow> (Some e, p1)
      | (None, p1) \<Rightarrow> (None, p1\<lparr>pc_buffer := drop (nat num) (pc_buffer p1)\<rparr>))"

definition Consume ::
  "('s, 't) iterator \<Rightarrow> ('s, 't) peekable \<Rightarrow> go_error option \<times> ('s, 't) peekable" where
  "Consume ops p = ConsumeN ops 1 p"

definition pc_Err :: "('s, 't) peekable \<Rightarrow> go_error option" where
  "pc_Err p = pc_err p"

text \<open>
  \<open>HasNext\<close> and \<open>Next\<close> are forwarded to the wrapped iterator and do not look at the buffer
  (a nil iterator makes the Go code panic: \<open>None\<close>).
\<close>

definition pc_HasNext :: "('s, 't) iterator \<Rightarrow> ('s, 't) peekable \<Rightarrow> (bool \<times> ('s, 't) peekable) option" where
  "pc_HasNext ops p =
     (case pc_iterator p of
        None \<Rightarrow> None
      | Some it \<Rightarrow> (case iHasNext ops it of (has, it1) \<Rightarrow> Some (has, p\<lparr>pc_iterator := Some it1\<rparr>)))"

definition pc_Next :: "('s, 't) iterator \<Rightarrow> ('s, 't) peekable \<Rightarrow> ('t \<times> ('s, 't) peekable) option" where
  "pc_Next ops p =
     (case pc_iterator p of
        None \<Rightarrow> None
      | Some it \<Rightarrow> (case iNext ops it of (x, it1) \<Rightarrow> Some (x, p\<lparr>pc_iterator := Some it1\<rparr>)))"

definition Consume2 ::
  "('s, 't) iterator \<Rightarrow> ('s, 't) peekable \<Rightarrow> go_error option \<times> ('s, 't) peekable" where
  "Consume2 ops p = ConsumeN ops 2 p"

definition Consume3 ::
  "('s, 't) iterator \<Rightarrow> ('s, 't) peekable \<Rightarrow> go_error option \<times> ('s, 't) peekable" where
  "Consume3 ops p = ConsumeN ops 3 p"

section \<open>The contract of an iterator over finitely many items\<close>

text \<open>
  \<open>items\<close> are the items still to come and \<open>fault\<close> the error that the iterator reports once they
  are used up. \<open>HasNext\<close> may prefetch, but changes neither; \<open>Next\<close> takes the first item.
\<close>

definition pc_view :: "('s \<Rightarrow> 't list) \<Rightarrow> ('s, 't) peekable \<Rightarrow> 't list" where
  "pc_view items p =
     pc_buffer p @ (case pc_iterator p of None \<Rightarrow> [] | Some it \<Rightarrow> items it)"

text \<open>
  The weakest thing a client needs: no item is lost or invented, in any state, even after an
  error. Items requested from the look-ahead buffer are then a prefix of what was there.
\<close>

locale lossless_iterator =
  fixes ops :: "('s, 't) iterator"
    and items :: "'s \<Rightarrow> 't list"
  assumes hasNext_items: "iHasNext ops s = (b, s') \<Longrightarrow> items s' = items s"
    and next_items: "iHasNext ops s = (True, s1) \<Longrightarrow> iNext ops s1 = (x, s2) \<Longrightarrow> items s1 = x # items s2"
begin

lemma fill_loop_view:
  assumes "pc_iterator p = Some it" "fill_loop ops n it p = (r, p')"
  shows "pc_view items p' = pc_view items p \<and> (r = None \<longrightarrow> n \<le> length (pc_buffer p'))"
  using assms
proof (induction "n - length (pc_buffer p)" arbitrary: it p rule: less_induct)
  case less
  obtain b it1 where h: "iHasNext ops it = (b, it1)" by fastforce
  obtain x it2 where nx: "iNext ops it1 = (x, it2)" by fastforce
  show ?case
  proof (cases "length (pc_buffer p) < n \<and> b \<and> iErr ops it2 = None")
    case True
    define q where "q = p\<lparr>pc_iterator := Some it2, pc_buffer := pc_buffer p @ [x]\<rparr>"
    have run: "fill_loop ops n it2 q = (r, p')"
      using less.prems(2) h nx True by (simp add: fill_loop.simps [of ops n it p] q_def)
    have "n - length (pc_buffer q) < n - length (pc_buffer p)" and "pc_iterator q = Some it2"
      using True by (auto simp: q_def)
    from less.hyps [OF this run] hasNext_items [OF h] next_items [OF _ nx, of it] h True less.prems(1)
    show ?thesis by (simp add: q_def pc_view_def)
  next
    case False
    with less.prems h nx hasNext_items [OF h] next_items [OF _ nx, of it] show ?thesis
      by (cases b) (auto simp: fill_loop.simps [of ops n it p] pc_view_def split: option.splits if_splits)
  qed
qed

lemma fillBuffer_view:
  "fillBuffer ops num p = (r, p') \<Longrightarrow>
     pc_view items p' = pc_view items p \<and> (r = None \<longrightarrow> nat num \<le> length (pc_buffer p'))"
  using fill_loop_view by (auto simp: fillBuffer_def split: if_splits option.splits)

lemma peekN_view:
  "PeekN ops num p = (r, p') \<Longrightarrow>
     pc_view items p' = pc_view items p
     \<and> (\<forall>xs. r = Inr xs \<longrightarrow> xs = take (nat num) (pc_view items p) \<and> length xs = nat num)"
proof -
  assume peek: "PeekN ops num p = (r, p')"
  obtain f p1 where f: "fillBuffer ops num p = (f, p1)" by fastforce
  note V = fillBuffer_view [OF f]
  have T: "take (nat num) (pc_view items p) = take (nat num) (pc_buffer p1)
           \<and> nat num \<le> length (pc_buffer p1)" if "f = None"
    using V that by (metis pc_view_def take_append_le)
  show ?thesis
  proof (cases f)
    case None
    with T peek f V show ?thesis by (auto simp: PeekN_def)
  next
    case (Some e)
    with peek f V show ?thesis by (auto simp: PeekN_def)
  qed
qed

lemma peek_view:
  assumes "Peek ops p = (r, p')"
  shows "pc_view items p' = pc_view items p \<and> (\<forall>x. r = Inr x \<longrightarrow> (\<exists>xs. pc_view items p = x # xs))"
proof -
  obtain q p1 where q: "PeekN ops 1 p = (q, p1)" by fastforce
  from peekN_view [OF q] assms q show ?thesis
    by (cases "pc_view items p") (auto simp: Peek_def split: sum.splits)
qed

lemma peek2_view:
  assumes "Peek2 ops p = (r, p')"
  shows "pc_view items p' = pc_view items p
         \<and> (\<forall>x y. r = Inr (x, y) \<longrightarrow> (\<exists>xs. pc_view items p = x # y # xs))"
proof -
  obtain q p1 where q: "PeekN ops 2 p = (q, p1)" by fastforce
  show ?thesis
  proof (cases "pc_view items p")
    case Nil
    with peekN_view [OF q] assms q show ?thesis by (auto simp: Peek2_def split: sum.splits)
  next
    case (Cons a as)
    with peekN_view [OF q] assms q show ?thesis
      by (cases as) (auto simp: Peek2_def numeral_2_eq_2 split: sum.splits)
  qed
qed

lemma consume_view:
  assumes "Consume ops p = (r, p')"
  shows "if r = None then (\<exists>x. pc_view items p = x # pc_view items p') else pc_view items p' = pc_view items p"
proof -
  obtain q p1 where q: "fillBuffer ops 1 p = (q, p1)" by fastforce
  note V = fillBuffer_view [OF q]
  show ?thesis
  proof (cases q)
    case (Some e)
    with V assms q show ?thesis by (auto simp: Consume_def ConsumeN_def)
  next
    case None
    with V have "Suc 0 \<le> length (pc_buffer p1)" by simp
    then obtain x xs where x: "pc_buffer p1 = x # xs" by (cases "pc_buffer p1") auto
    have "r = None" "p' = p1\<lparr>pc_buffer := xs\<rparr>"
      using assms q None x by (auto simp: Consume_def ConsumeN_def)
    moreover have "pc_view items p1 = x # pc_view items (p1\<lparr>pc_buffer := xs\<rparr>)"
      using x by (simp add: pc_view_def)
    ultimately show ?thesis using V by auto
  qed
qed

end

definition pc_fault :: "('s \<Rightarrow> go_error option) \<Rightarrow> ('s, 't) peekable \<Rightarrow> go_error option" where
  "pc_fault fault p = (case pc_iterator p of None \<Rightarrow> None | Some it \<Rightarrow> fault it)"

locale finite_iterator =
  fixes ops :: "('s, 't) iterator"
    and items :: "'s \<Rightarrow> 't list"
    and fault :: "'s \<Rightarrow> go_error option"
    and invar :: "'s \<Rightarrow> bool"
  assumes hasNext:
    "invar s \<Longrightarrow> iHasNext ops s = (b, s') \<Longrightarrow>
       invar s' \<and> (b \<longleftrightarrow> items s \<noteq> []) \<and> items s' = items s \<and> fault s' = fault s
       \<and> iErr ops s' = (if items s = [] then fault s else None)"
  and nextItem:
    "invar s \<Longrightarrow> items s = x # xs \<Longrightarrow> iNext ops s = (y, s') \<Longrightarrow>
       y = x \<and> invar s' \<and> items s' = xs \<and> fault s' = fault s \<and> iErr ops s' = None"
begin

lemma materialize_loop_items:
  "invar s \<Longrightarrow> \<exists>s'. materialize_loop ops acc s = Some (acc @ items s, s')
                   \<and> invar s' \<and> items s' = [] \<and> iErr ops s' = fault s"
proof (induction "items s" arbitrary: s acc)
  case Nil
  obtain b s1 where s1: "iHasNext ops s = (b, s1)" by fastforce
  with Nil show ?case
    using hasNext [OF Nil.prems s1] by (subst materialize_loop.simps) auto
next
  case (Cons x xs)
  obtain b s1 where s1: "iHasNext ops s = (b, s1)" by fastforce
  from hasNext [OF Cons.prems s1] Cons.hyps(2)
  have b: "b" and inv1: "invar s1" and it1: "items s1 = x # xs" and f1: "fault s1 = fault s"
    and e1: "iErr ops s1 = None" by (auto split: if_splits)
  obtain y s2 where s2: "iNext ops s1 = (y, s2)" by fastforce
  from nextItem [OF inv1 it1 s2]
  have y: "y = x" and inv2: "invar s2" and it2: "xs = items s2" and f2: "fault s2 = fault s1"
    by auto
  have step: "materialize_loop ops acc s = materialize_loop ops (acc @ [x]) s2"
    using s1 s2 b e1 y by (subst materialize_loop.simps) simp
  show ?case
    using Cons.hyps(1) [OF it2 inv2, of "acc @ [x]"] f1 f2 it2 Cons.hyps(2) step by auto
qed

lemma materialize_items:
  "invar s \<Longrightarrow> \<exists>s'. Materialize ops s = Some ((items s, fault s), s')"
  using materialize_loop_items [of s "[]"] by (auto simp: Materialize_def)

lemma fill_loop_spec:
  assumes "invar it" "pc_iterator p = Some it" "fill_loop ops n it p = (r, p')"
  shows "\<exists>it'. pc_iterator p' = Some it' \<and> invar it' \<and> fault it' = fault it
           \<and> pc_buffer p' @ items it' = pc_buffer p @ items it
           \<and> (if n \<le> length (pc_buffer p @ items it)
              then r = None \<and> n \<le> length (pc_buffer p') \<and> pc_err p' = pc_err p
              else (fault it = None \<longrightarrow> r = Some not_enough \<and> pc_err p' = pc_err p)
                   \<and> (\<forall>e. fault it = Some e \<longrightarrow> r = Some e \<and> pc_err p' = Some e))"
  using assms
proof (induction "n - length (pc_buffer p)" arbitrary: it p rule: less_induct)
  case less
  obtain b it1 where h: "iHasNext ops it = (b, it1)" by fastforce
  note H = hasNext [OF less.prems(1) h]
  show ?case
  proof (cases "length (pc_buffer p) < n")
    case False
    with less.prems show ?thesis by (auto simp: fill_loop.simps)
  next
    case short: True
    show ?thesis
    proof (cases "items it")
      case Nil
      with H have nb: "\<not> b" and "iErr ops it1 = fault it" by auto
      then have "fill_loop ops n it p =
          (case fault it of
             Some e \<Rightarrow> (Some e, p\<lparr>pc_iterator := Some it1, pc_err := Some e\<rparr>)
           | None \<Rightarrow> (Some not_enough, p\<lparr>pc_iterator := Some it1\<rparr>))"
        using short h by (simp add: fill_loop.simps)
      note run = this
      have rp: "(r, p') = (case fault it of
             Some e \<Rightarrow> (Some e, p\<lparr>pc_iterator := Some it1, pc_err := Some e\<rparr>)
           | None \<Rightarrow> (Some not_enough, p\<lparr>pc_iterator := Some it1\<rparr>))"
        using run less.prems(3) by simp
      show ?thesis
        using rp less.prems(1,2) short Nil H nb by (simp split: option.splits)
    next
      case (Cons x xs)
      with H have b: "b" and inv1: "invar it1" and items1: "items it1 = x # xs"
        and f1: "fault it1 = fault it" by auto
      obtain y it2 where nx: "iNext ops it1 = (y, it2)" by fastforce
      note N = nextItem [OF inv1 items1 nx]
      define q where "q = p\<lparr>pc_iterator := Some it2, pc_buffer := pc_buffer p @ [x]\<rparr>"
      have run: "fill_loop ops n it2 q = (r, p')"
        using less.prems(3) short h b nx N by (simp add: fill_loop.simps [of ops n it p] q_def)
      have "n - length (pc_buffer q) < n - length (pc_buffer p)"
        using short by (simp add: q_def)
      have "pc_err q = pc_err p" by (simp add: q_def)
      with less.hyps [OF \<open>n - length (pc_buffer q) < n - length (pc_buffer p)\<close> _ _ run] N f1 Cons
      show ?thesis by (auto simp: q_def)
    qed
  qed
qed

text \<open>
  \<open>pc_ok\<close>: a look-ahead buffer in working order; \<open>pc_stuck e\<close>: one whose source has failed with
  \<open>e\<close>. A request for \<open>n\<close> items either finds \<open>n\<close> in the view, which it leaves unchanged, or fails
  with the fault of the source, which sticks, or with \<open>ErrNotEnoughItems\<close>, which does not.
\<close>

definition pc_ok :: "('s, 't) peekable \<Rightarrow> bool" where
  "pc_ok p \<longleftrightarrow> (\<exists>it. pc_iterator p = Some it \<and> invar it) \<and> pc_err p = None"

definition same_source :: "('s, 't) peekable \<Rightarrow> ('s, 't) peekable \<Rightarrow> bool" where
  "same_source p p' \<longleftrightarrow>
     pc_view items p' = pc_view items p \<and> pc_fault fault p' = pc_fault fault p"

definition short_error :: "('s, 't) peekable \<Rightarrow> go_error" where
  "short_error p = (case pc_fault fault p of None \<Rightarrow> not_enough | Some e \<Rightarrow> e)"

lemma fillBuffer_enough:
  assumes "pc_ok p" "n \<le> length (pc_view items p)"
  shows "\<exists>p'. fillBuffer ops (int n) p = (None, p') \<and> pc_ok p' \<and> same_source p p'
              \<and> n \<le> length (pc_buffer p')"
proof -
  from assms(1) obtain it where it: "pc_iterator p = Some it" "invar it" "pc_err p = None"
    by (auto simp: pc_ok_def)
  obtain r p' where run: "fill_loop ops n it p = (r, p')" by fastforce
  have "fillBuffer ops (int n) p = (if n = 0 then (None, p) else (r, p'))"
    using it run by (simp add: fillBuffer_def)
  with fill_loop_spec [OF it(2,1) run] assms it show ?thesis
    by (auto simp: pc_ok_def same_source_def pc_view_def pc_fault_def split: if_splits)
qed

lemma fillBuffer_short:
  assumes "pc_ok p" "length (pc_view items p) < n"
  shows "\<exists>p'. fillBuffer ops (int n) p = (Some (short_error p), p') \<and> same_source p p'
              \<and> pc_err p' = pc_fault fault p \<and> (pc_fault fault p = None \<longrightarrow> pc_ok p')"
proof -
  from assms(1) obtain it where it: "pc_iterator p = Some it" "invar it" "pc_err p = None"
    by (auto simp: pc_ok_def)
  obtain r p' where run: "fill_loop ops n it p = (r, p')" by fastforce
  have "fillBuffer ops (int n) p = (r, p')"
    using it run assms by (simp add: fillBuffer_def)
  with fill_loop_spec [OF it(2,1) run] assms it show ?thesis
    by (auto simp: pc_ok_def same_source_def pc_view_def pc_fault_def short_error_def
        split: if_splits option.splits)
qed

text \<open>
  \<open>pc_live\<close> also covers a buffer whose source has failed. Every operation keeps it; an error is
  either the fault of the source, which is then recorded, or a shortage of items at its end.
\<close>

definition pc_live :: "('s, 't) peekable \<Rightarrow> bool" where
  "pc_live p \<longleftrightarrow> (\<exists>it. pc_iterator p = Some it \<and> invar it \<and> (pc_err p = None \<or> pc_err p = fault it))"

definition explained :: "nat \<Rightarrow> ('s, 't) peekable \<Rightarrow> go_error \<Rightarrow> ('s, 't) peekable \<Rightarrow> bool" where
  "explained n p e p' \<longleftrightarrow>
     (pc_fault fault p = Some e \<and> pc_err p' = Some e)
     \<or> (pc_fault fault p = None \<and> e = not_enough \<and> length (pc_view items p) < n)"

lemma pc_live_cases: "pc_live p \<Longrightarrow> pc_ok p \<or> (\<exists>e. pc_err p = Some e \<and> pc_fault fault p = Some e)"
  by (cases "pc_err p") (auto simp: pc_live_def pc_ok_def pc_fault_def)

lemma pc_ok_live: "pc_ok p \<Longrightarrow> pc_live p"
  by (auto simp: pc_ok_def pc_live_def)

lemma pc_live_ok: "pc_live p \<Longrightarrow> pc_fault fault p = None \<Longrightarrow> pc_ok p"
  using pc_live_cases by fastforce

lemma fillBuffer_live:
  assumes "pc_live p" "fillBuffer ops (int n) p = (r, p')" "0 < n"
  shows "pc_live p' \<and> pc_fault fault p' = pc_fault fault p \<and> (\<forall>e. r = Some e \<longrightarrow> explained n p e p')"
proof (cases "pc_ok p")
  case True
  show ?thesis
  proof (cases "n \<le> length (pc_view items p)")
    case enough: True
    from fillBuffer_enough [OF True enough] assms(2) show ?thesis
      by (auto simp: same_source_def pc_ok_live)
  next
    case False
    then have short: "length (pc_view items p) < n" by simp
    obtain it where it: "pc_iterator p = Some it" "invar it" "pc_err p = None"
      using True by (auto simp: pc_ok_def)
    have run: "fill_loop ops n it p = (r, p')"
      using assms(2,3) it by (simp add: fillBuffer_def)
    from fill_loop_spec [OF it(2,1) run] short it show ?thesis
      by (cases "fault it") (auto simp: pc_live_def pc_fault_def explained_def pc_view_def)
  qed
next
  case False
  with pc_live_cases [OF assms(1)] obtain e where "pc_err p = Some e" "pc_fault fault p = Some e" by blast
  with assms show ?thesis by (auto simp: fillBuffer_def explained_def)
qed

lemma peek_live:
  assumes "pc_live p" "Peek ops p = (r, p')"
  shows "pc_live p' \<and> pc_fault fault p' = pc_fault fault p \<and> (\<forall>e. r = Inl e \<longrightarrow> explained 1 p e p')"
proof -
  obtain f p1 where f: "fillBuffer ops (int 1) p = (f, p1)" by fastforce
  from fillBuffer_live [OF assms(1) f] assms(2) f show ?thesis
    by (cases f) (auto simp: Peek_def PeekN_def)
qed

lemma peek2_live:
  assumes "pc_live p" "Peek2 ops p = (r, p')"
  shows "pc_live p' \<and> pc_fault fault p' = pc_fault fault p"
proof -
  obtain f p1 where f: "fillBuffer ops (int 2) p = (f, p1)" by fastforce
  from fillBuffer_live [OF assms(1) f] assms(2) f show ?thesis
    by (cases f) (auto simp: Peek2_def PeekN_def)
qed

lemma consume_live:
  assumes "pc_live p" "Consume ops p = (r, p')"
  shows "pc_live p' \<and> pc_fault fault p' = pc_fault fault p"
proof -
  obtain f p1 where f: "fillBuffer ops (int 1) p = (f, p1)" by fastforce
  have "pc_live p1 \<and> pc_fault fault p1 = pc_fault fault p"
    using fillBuffer_live [OF assms(1) f] by simp
  then show ?thesis
    using assms(2) f by (cases f) (auto simp: Consume_def ConsumeN_def pc_live_def pc_fault_def)
qed

lemma peekN_enough:
  assumes "pc_ok p" "n \<le> length (pc_view items p)"
  shows "\<exists>p'. PeekN ops (int n) p = (Inr (take n (pc_view items p)), p') \<and> pc_ok p' \<and> same_source p p'"
proof -
  from fillBuffer_enough [OF assms] obtain p' where
    p': "fillBuffer ops (int n) p = (None, p')" "pc_ok p'" "same_source p p'" "n \<le> length (pc_buffer p')"
    by blast
  then have "take n (pc_buffer p') = take n (pc_view items p)"
    unfolding same_source_def by (metis pc_view_def take_append_le)
  with p' show ?thesis by (simp add: PeekN_def)
qed

lemma peekN_short:
  assumes "pc_ok p" "length (pc_view items p) < n"
  shows "\<exists>p'. PeekN ops (int n) p = (Inl (short_error p), p') \<and> same_source p p'
              \<and> pc_err p' = pc_fault fault p \<and> (pc_fault fault p = None \<longrightarrow> pc_ok p')"
  using fillBuffer_short [OF assms] by (auto simp: PeekN_def)

lemma consumeN_enough:
  assumes "pc_ok p" "n \<le> length (pc_view items p)"
  shows "\<exists>p'. ConsumeN ops (int n) p = (None, p') \<and> pc_ok p'
              \<and> pc_view items p' = drop n (pc_view items p) \<and> pc_fault fault p' = pc_fault fault p"
proof -
  from fillBuffer_enough [OF assms] obtain p' where
    p': "fillBuffer ops (int n) p = (None, p')" "pc_ok p'" "same_source p p'" "n \<le> length (pc_buffer p')"
    by blast
  define q where "q = p'\<lparr>pc_buffer := drop n (pc_buffer p')\<rparr>"
  have "pc_view items q = drop n (pc_view items p')"
    using p'(4) by (simp add: q_def pc_view_def)
  with p' show ?thesis
    by (auto simp: ConsumeN_def q_def pc_ok_def same_source_def pc_fault_def)
qed

lemma consumeN_short:
  assumes "pc_ok p" "length (pc_view items p) < n"
  shows "\<exists>p'. ConsumeN ops (int n) p = (Some (short_error p), p') \<and> same_source p p'
              \<and> pc_err p' = pc_fault fault p \<and> (pc_fault fault p = None \<longrightarrow> pc_ok p')"
  using fillBuffer_short [OF assms] by (auto simp: ConsumeN_def)

lemma peek_cons:
  assumes "pc_ok p" "pc_view items p = x # xs"
  shows "\<exists>p'. Peek ops p = (Inr x, p') \<and> pc_ok p' \<and> same_source p p'"
  using peekN_enough [OF assms(1), of 1] assms(2) by (auto simp: Peek_def)

lemma peek2_cons:
  assumes "pc_ok p" "pc_view items p = x # y # xs"
  shows "\<exists>p'. Peek2 ops p = (Inr (x, y), p') \<and> pc_ok p' \<and> same_source p p'"
  using peekN_enough [OF assms(1), of 2] assms(2)
  by (auto simp: Peek2_def numeral_2_eq_2)

lemma consume_cons:
  assumes "pc_ok p" "pc_view items p = x # xs"
  shows "\<exists>p'. Consume ops p = (None, p') \<and> pc_ok p' \<and> pc_view items p' = xs
              \<and> pc_fault fault p' = pc_fault fault p"
  using consumeN_enough [OF assms(1), of 1] assms(2) by (auto simp: Consume_def)

end

text \<open>Once the source has failed, every request of at least one item repeats its error.\<close>

lemma fillBuffer_stuck:
  "pc_err p = Some e \<Longrightarrow> 0 < num \<Longrightarrow> fillBuffer ops num p = (Some e, p)"
  by (simp add: fillBuffer_def)

section \<open>The reader iterator keeps the contract\<close>

definition real_fault :: "go_error option \<Rightarrow> go_error option" where
  "real_fault f = (case f of None \<Rightarrow> None
     | Some e \<Rightarrow> if err_is e EOF \<or> err_is e ErrUnexpectedEOF then None else Some e)"

definition ri_items :: "reader_iterator \<Rightarrow> byte list" where
  "ri_items i = (if ri_hasBuffer i then [ri_buffer i] else [])
                @ (if ri_done i then [] else rd_bytes (ri_reader i))"

definition ri_fault :: "reader_iterator \<Rightarrow> go_error option" where
  "ri_fault i = (if ri_done i then ri_err i else real_fault (rd_fault (ri_reader i)))"

definition ri_invar :: "reader_iterator \<Rightarrow> bool" where
  "ri_invar i \<longleftrightarrow> (ri_hasBuffer i \<longrightarrow> \<not> ri_done i) \<and> (\<not> ri_done i \<longrightarrow> ri_err i = None)"

interpretation reader: finite_iterator reader_iter ri_items ri_fault ri_invar
proof
  fix s b s' assume "ri_invar s" "iHasNext reader_iter s = (b, s')"
  then show "ri_invar s' \<and> (b \<longleftrightarrow> ri_items s \<noteq> []) \<and> ri_items s' = ri_items s \<and> ri_fault s' = ri_fault s
       \<and> iErr reader_iter s' = (if ri_items s = [] then ri_fault s else None)"
    by (auto simp: reader_iter_def ri_HasNext_def ri_readNext_def ReadFull1_def ri_invar_def
        ri_items_def ri_fault_def real_fault_def ri_Err_def Let_def
        split: if_splits list.splits option.splits)
next
  fix s x xs y s'
  assume "ri_invar s" "ri_items s = x # xs" "iNext reader_iter s = (y, s')"
  then show "y = x \<and> ri_invar s' \<and> ri_items s' = xs \<and> ri_fault s' = ri_fault s \<and> iErr reader_iter s' = None"
    by (auto simp: reader_iter_def ri_Next_def ri_HasNext_def ri_readNext_def ReadFull1_def ri_invar_def
        ri_items_def ri_fault_def real_fault_def ri_Err_def Let_def
        split: if_splits list.splits option.splits)
qed

interpretation reader_items: lossless_iterator reader_iter ri_items
proof
  fix s b s' assume "iHasNext reader_iter s = (b, s')"
  then show "ri_items s' = ri_items s"
    by (auto simp: reader_iter_def ri_HasNext_def ri_readNext_def ReadFull1_def ri_items_def Let_def
        split: if_splits list.splits option.splits)
next
  fix s s1 x s2 assume "iHasNext reader_iter s = (True, s1)" "iNext reader_iter s1 = (x, s2)"
  then show "ri_items s1 = x # ri_items s2"
    by (auto simp: reader_iter_def ri_Next_def ri_HasNext_def ri_readNext_def ReadFull1_def ri_items_def Let_def
        split: if_splits list.splits option.splits)
qed

lemma NewReaderIterator_fresh:
  "ri_invar (NewReaderIterator r)" "ri_items (NewReaderIterator r) = rd_bytes r"
  "ri_fault (NewReaderIterator r) = real_fault (rd_fault r)"
  by (simp_all add: NewReaderIterator_def ri_invar_def ri_items_def ri_fault_def)

section \<open>Properties of the look-ahead buffer\<close>

text \<open>C5: the look-ahead buffer refines the list of bytes still to come. Asked for \<open>n\<close> bytes, \<open>PeekN\<close>
  shows the first \<open>n\<close> and takes none, \<open>ConsumeN\<close> takes exactly these; asked for more than there are,
  both fail and take none, with the fault of the reader if it has one and otherwise with
  \<open>ErrNotEnoughItems\<close>.\<close>

theorem lookahead_refines_list:
  assumes "pc_iterator p = Some it" "ri_invar it" "pc_err p = None"
  shows "let v = pc_view ri_items p in
         if n \<le> length v
         then (\<exists>p1. PeekN reader_iter (int n) p = (Inr (take n v), p1) \<and> pc_view ri_items p1 = v)
              \<and> (\<exists>p2. ConsumeN reader_iter (int n) p = (None, p2) \<and> pc_view ri_items p2 = drop n v)
         else (\<exists>e p1 p2. PeekN reader_iter (int n) p = (Inl e, p1) \<and> ConsumeN reader_iter (int n) p = (Some e, p2)
                \<and> pc_view ri_items p1 = v \<and> pc_view ri_items p2 = v
                \<and> (case ri_fault it of Some f \<Rightarrow> e = f | None \<Rightarrow> err_is e ErrNotEnoughItems))"
proof -
  have ok: "reader.pc_ok p" using assms by (simp add: reader.pc_ok_def)
  have fault: "pc_fault ri_fault p = ri_fault it" using assms(1) by (simp add: pc_fault_def)
  show ?thesis
  proof (cases "n \<le> length (pc_view ri_items p)")
    case True
    with reader.peekN_enough [OF ok True] reader.consumeN_enough [OF ok True] show ?thesis
      by (auto simp: Let_def reader.same_source_def)
  next
    case False
    then have short: "length (pc_view ri_items p) < n" by simp
    have "case ri_fault it of Some f \<Rightarrow> reader.short_error p = f
        | None \<Rightarrow> err_is (reader.short_error p) ErrNotEnoughItems"
      by (simp add: reader.short_error_def fault not_enough_def split: option.split)
    with False reader.peekN_short [OF ok short] reader.consumeN_short [OF ok short] show ?thesis
      by (auto simp: Let_def reader.same_source_def)
  qed
qed

lemma lookahead_refines_list_witness:
  "let p = NewPeekableConsumable (Some (NewReaderIterator \<lparr>rd_bytes = ''abc'', rd_fault = None\<rparr>))
       :: (reader_iterator, byte) peekable in
   (\<exists>p2. ConsumeN reader_iter 2 p = (None, p2) \<and> pc_view ri_items p2 = ''c'')
   \<and> (\<exists>e p1. PeekN reader_iter 4 p = (Inl e, p1) \<and> err_is e ErrNotEnoughItems \<and> pc_view ri_items p1 = ''abc'')"
proof -
  let ?r = "\<lparr>rd_bytes = ''abc'', rd_fault = None\<rparr>"
  let ?p = "NewPeekableConsumable (Some (NewReaderIterator ?r)) :: (reader_iterator, byte) peekable"
  have h: "pc_iterator ?p = Some (NewReaderIterator ?r)" "ri_invar (NewReaderIterator ?r)" "pc_err ?p = None"
    by (simp_all add: NewPeekableConsumable_def NewReaderIterator_fresh)
  have v: "pc_view ri_items ?p = ''abc''" "ri_fault (NewReaderIterator ?r) = None"
    by (simp_all add: pc_view_def NewPeekableConsumable_def NewReaderIterator_fresh real_fault_def)
  from lookahead_refines_list [OF h, of 2] lookahead_refines_list [OF h, of 4] v
  show ?thesis by (auto simp: Let_def)
qed

text \<open>\<open>HasNext\<close> and \<open>Next\<close> of the look-ahead buffer bypass the bytes that it holds. After a
  \<open>Peek\<close> of \<open>x\<close>, \<open>Next\<close> returns the byte after \<open>x\<close>, and \<open>x\<close> is still the next byte to peek; when
  \<open>x\<close> is the last byte, \<open>HasNext\<close> denies that there is one.\<close>

lemma peekable_next_bypasses_buffer:
  "(\<exists>p1 p2 p3. Peek reader_iter (NewPeekableConsumable (Some (NewReaderIterator
                  \<lparr>rd_bytes = x # y # bs, rd_fault = f\<rparr>))) = (Inr x, p1)
     \<and> pc_Next reader_iter p1 = Some (y, p2) \<and> Peek reader_iter p2 = (Inr x, p3))
   \<and> (\<exists>p1 p2. Peek reader_iter (NewPeekableConsumable (Some (NewReaderIterator
                  \<lparr>rd_bytes = [x], rd_fault = None\<rparr>))) = (Inr x, p1)
     \<and> pc_HasNext reader_iter p1 = Some (False, p2) \<and> pc_buffer p2 = [x])"
  by (simp add: Peek_def PeekN_def fillBuffer_def NewPeekableConsumable_def NewReaderIterator_def
      fill_loop.simps reader_iter_def ri_HasNext_def ri_readNext_def ReadFull1_def ri_Next_def ri_Err_def
      pc_Next_def pc_HasNext_def Let_def)

end
