(* ===== verification/Tokenizer.thy ===== *)
theory Tokenizer
  imports Iterators
begin

text \<open>
  The package \<^verbatim>\<open>tokenizer\<close>: tokens and positions (\<^verbatim>\<open>token.go\<close>, \<^verbatim>\<open>position.go\<close>), and the scanner
  \<open>State\<close> (\<^verbatim>\<open>state.go\<close>), which is itself an iterator of tokens over the look-ahead buffer of
  \<open>Iterators\<close> on a reader. A Go call that returns a value and an error returns a sum here, next to
  the new state; offsets, columns and lines are the code's \<open>uint64\<close>.
\<close>

section \<open>Tokens and positions\<close>

datatype token_type =
    TokenTypeSpace | TokenTypeTab | TokenTypeCarriageReturn | TokenTypeNewLine
  | TokenTypeNumber | TokenTypeFloat | TokenTypeHexDecimal | TokenTypeBinary
  | TokenTypeSingleQuoteString | TokenTypeDoubleQuoteString | TokenTypeDiagonalQuoteString
  | TokenTypeWord | TokenTypeSymbol

record position =
  pos_offset :: "64 word"
  pos_column :: "64 word"
  pos_line :: "64 word"

record token =
  tok_type :: token_type
  tok_position :: position
  tok_content :: "byte list"

definition NewToken :: "token_type \<Rightarrow> position \<Rightarrow> byte list \<Rightarrow> token" where
  "NewToken t p c = \<lparr>tok_type = t, tok_position = p, tok_content = c\<rparr>"

definition tok_Length :: "token \<Rightarrow> 64 word" where
  "tok_Length t = of_nat (length (tok_content t))"

section \<open>Character classes\<close>

definition isWhitespace :: "byte \<Rightarrow> bool" where
  "isWhitespace c = (c = CHR '' '' \<or> c = CHR 0x09 \<or> c = CHR 0x0D \<or> c = CHR 0x0A)"

definition isDigit :: "byte \<Rightarrow> bool" where
  "isDigit c = (CHR ''0'' \<le> c \<and> c \<le> CHR ''9'')"

definition isAlpha :: "byte \<Rightarrow> bool" where
  "isAlpha c = ((CHR ''a'' \<le> c \<and> c \<le> CHR ''z'') \<or> (CHR ''A'' \<le> c \<and> c \<le> CHR ''Z''))"

definition isWordChar :: "byte \<Rightarrow> bool" where
  "isWordChar c = (isAlpha c \<or> isDigit c \<or> c = CHR ''_'')"

definition isHexDigit :: "byte \<Rightarrow> bool" where
  "isHexDigit c = (isDigit c \<or> (CHR ''a'' \<le> c \<and> c \<le> CHR ''f'') \<or> (CHR ''A'' \<le> c \<and> c \<le> CHR ''F''))"

definition isBinaryDigit :: "byte \<Rightarrow> bool" where
  "isBinaryDigit c = (c = CHR ''0'' \<or> c = CHR ''1'')"

section \<open>The scanner state\<close>

text \<open>The field \<open>source\<close> of the Go struct is only kept, never read again; it is left out.\<close>

record tok_state =
  ts_iterator :: "(reader_iterator, byte) peekable"
  ts_err :: "go_error option"
  ts_offset :: "64 word"
  ts_column :: "64 word"
  ts_line :: "64 word"

definition NewState :: "reader \<Rightarrow> tok_state" where
  "NewState source =
     \<lparr>ts_iterator = NewPeekableConsumable (Some (NewReaderIterator source)),
      ts_err = None, ts_offset = 0, ts_column = 0, ts_line = 1\<rparr>"

definition ts_peek :: "tok_state \<Rightarrow> (go_error + byte) \<times> tok_state" where
  "ts_peek s = (case Peek reader_iter (ts_iterator s) of (r, it) \<Rightarrow> (r, s\<lparr>ts_iterator := it\<rparr>))"

definition ts_peek2 :: "tok_state \<Rightarrow> (go_error + byte \<times> byte) \<times> tok_state" where
  "ts_peek2 s = (case Peek2 reader_iter (ts_iterator s) of (r, it) \<Rightarrow> (r, s\<lparr>ts_iterator := it\<rparr>))"

definition ts_advance :: "byte \<Rightarrow> tok_state \<Rightarrow> tok_state" where
  "ts_advance c s =
     (let s1 = s\<lparr>ts_offset := ts_offset s + 1\<rparr>
      in if c = CHR 0x0A then s1\<lparr>ts_line := ts_line s + 1, ts_column := 0\<rparr>
         else s1\<lparr>ts_column := ts_column s + 1\<rparr>)"

text \<open>On an error the Go code returns a position too, which every caller ignores.\<close>

definition ts_read :: "tok_state \<Rightarrow> (go_error + position \<times> byte) \<times> tok_state" where
  "ts_read s =
     (let position = \<lparr>pos_offset = ts_offset s, pos_column = ts_column s, pos_line = ts_line s\<rparr>
      in case ts_peek s of
           (Inl e, s1) \<Rightarrow> (Inl e, s1)
         | (Inr c, s1) \<Rightarrow>
             (case Consume reader_iter (ts_iterator s1) of
                (Some e, it) \<Rightarrow> (Inl e, s1\<lparr>ts_iterator := it\<rparr>)
              | (None, it) \<Rightarrow> (Inr (position, c), ts_advance c (s1\<lparr>ts_iterator := it\<rparr>))))"

definition ts_view :: "tok_state \<Rightarrow> byte list" where
  "ts_view s = pc_view ri_items (ts_iterator s)"

text \<open>
  What an operation may do to the scanner: take some bytes off the front of the view and move
  the position over exactly these bytes.
\<close>

definition ts_position :: "tok_state \<Rightarrow> position" where
  "ts_position s = \<lparr>pos_offset = ts_offset s, pos_column = ts_column s, pos_line = ts_line s\<rparr>"

definition move :: "byte \<Rightarrow> position \<Rightarrow> position" where
  "move c p = \<lparr>pos_offset = pos_offset p + 1,
               pos_column = (if c = CHR 0x0A then 0 else pos_column p + 1),
               pos_line = (if c = CHR 0x0A then pos_line p + 1 else pos_line p)\<rparr>"

definition ts_fault :: "tok_state \<Rightarrow> go_error option" where
  "ts_fault s = pc_fault ri_fault (ts_iterator s)"

definition ts_live :: "tok_state \<Rightarrow> bool" where
  "ts_live s \<longleftrightarrow> reader.pc_live (ts_iterator s)"

definition consumed :: "tok_state \<Rightarrow> byte list \<Rightarrow> tok_state \<Rightarrow> bool" where
  "consumed s bs s' \<longleftrightarrow> ts_view s = bs @ ts_view s' \<and> ts_position s' = fold move bs (ts_position s)
                     \<and> ts_err s' = ts_err s
                     \<and> (ts_live s \<longrightarrow> ts_live s' \<and> ts_fault s' = ts_fault s)"

lemma consumed_refl [simp, intro]: "consumed s [] s"
  by (simp add: consumed_def)

lemma consumed_trans: "consumed s xs t \<Longrightarrow> consumed t ys u \<Longrightarrow> consumed s (xs @ ys) u"
  by (simp add: consumed_def)

lemma consumed_length: "consumed s bs s' \<Longrightarrow> length (ts_view s) = length bs + length (ts_view s')"
  by (simp add: consumed_def)

lemma ts_peek_consumed:
  assumes "ts_peek s = (r, s')"
  shows "consumed s [] s'"
proof -
  from assms obtain it where "Peek reader_iter (ts_iterator s) = (r, it)" "s' = s\<lparr>ts_iterator := it\<rparr>"
    by (auto simp: ts_peek_def split: prod.splits)
  then show ?thesis
    using reader_items.peek_view [of "ts_iterator s" r it] reader.peek_live [of "ts_iterator s" r it]
    by (simp add: consumed_def ts_view_def ts_position_def ts_live_def ts_fault_def)
qed

lemma ts_peek2_consumed:
  assumes "ts_peek2 s = (r, s')"
  shows "consumed s [] s'"
proof -
  from assms obtain it where "Peek2 reader_iter (ts_iterator s) = (r, it)" "s' = s\<lparr>ts_iterator := it\<rparr>"
    by (auto simp: ts_peek2_def split: prod.splits)
  then show ?thesis
    using reader_items.peek2_view [of "ts_iterator s" r it] reader.peek2_live [of "ts_iterator s" r it]
    by (simp add: consumed_def ts_view_def ts_position_def ts_live_def ts_fault_def)
qed

lemma ts_read_Inr: 
  assumes "ts_read s = (Inr (p, c), s')"
  shows "consumed s [c] s' \<and> p = ts_position s"
proof -
  obtain r it where pk: "Peek reader_iter (ts_iterator s) = (r, it)" by fastforce
  obtain e it' where cs: "Consume reader_iter it = (e, it')" by fastforce
  from assms pk cs have "r = Inr c" "e = None" "p = ts_position s"
      "s' = ts_advance c (s\<lparr>ts_iterator := it'\<rparr>)"
    by (auto simp: ts_read_def ts_peek_def ts_position_def Let_def split: sum.splits option.splits)
  with reader_items.peek_view [OF pk] reader_items.consume_view [OF cs]
    reader.peek_live [OF _ pk] reader.consume_live [OF _ cs]
  show ?thesis
    by (auto simp: consumed_def ts_view_def ts_position_def ts_advance_def move_def Let_def
        ts_live_def ts_fault_def)
qed

lemma ts_read_shrinks: "(Inr x, s') = ts_read s \<Longrightarrow> length (ts_view s') < length (ts_view s)"
  using ts_read_Inr [of s "fst x" "snd x" s'] by (auto dest!: consumed_length)

lemma ts_read_Inl:
  assumes "ts_read s = (Inl e, s')"
  shows "consumed s [] s'"
proof -
  obtain r it where pk: "Peek reader_iter (ts_iterator s) = (r, it)" by fastforce
  obtain f it' where cs: "Consume reader_iter it = (f, it')" by fastforce
  from reader_items.peek_view [OF pk] reader_items.consume_view [OF cs]
    reader.peek_live [OF _ pk] reader.consume_live [OF _ cs] assms pk cs
  show ?thesis
    by (auto simp: ts_read_def ts_peek_def consumed_def ts_view_def ts_position_def
        ts_live_def ts_fault_def Let_def split: sum.splits option.splits)
qed

section \<open>The scanner\<close>

text \<open>
  The loop that \<open>parseNumber\<close> (twice), \<open>parseWord\<close> and \<open>parseBasePrefix\<close> spell out: take bytes while
  they satisfy \<open>p\<close>; the end of input ends the loop, any other error ends the token.
\<close>

function scan_while ::
  "(byte \<Rightarrow> bool) \<Rightarrow> byte list \<Rightarrow> tok_state \<Rightarrow> (go_error + byte list) \<times> tok_state" where
  "scan_while p content s =
     (case ts_peek s of
        (Inl e, s1) \<Rightarrow> if err_is e ErrNotEnoughItems then (Inr content, s1) else (Inl e, s1)
      | (Inr nxt, s1) \<Rightarrow>
          if \<not> p nxt then (Inr content, s1)
          else (case ts_read s1 of
                  (Inl e, s2) \<Rightarrow> (Inl e, s2)
                | (Inr (_, nxt'), s2) \<Rightarrow> scan_while p (content @ [nxt']) s2))"
  by pat_completeness auto
termination
proof (relation "measure (\<lambda>(p, content, s). length (ts_view s))", goal_cases)
  case (2 p content s r s1 nxt q s2 x pos nxt')
  then have "consumed s [] s1" "consumed s1 [nxt'] s2"
    using ts_peek_consumed [of s "Inr nxt" s1] ts_read_Inr [of s1 pos nxt' s2] by auto
  then show ?case by (auto dest!: consumed_length)
qed simp

declare scan_while.simps [simp del]

definition parseWhitespace :: "position \<Rightarrow> byte \<Rightarrow> tok_state \<Rightarrow> (go_error + token) \<times> tok_state" where
  "parseWhitespace position c s =
     (if c = CHR '' '' then (Inr (NewToken TokenTypeSpace position [c]), s)
      else if c = CHR 0x09 then (Inr (NewToken TokenTypeTab position [c]), s)
      else if c = CHR 0x0D then (Inr (NewToken TokenTypeCarriageReturn position [c]), s)
      else if c = CHR 0x0A then (Inr (NewToken TokenTypeNewLine position [c]), s)
      else (Inl (Atom ErrUnknownToken), s))"

definition parseSymbol :: "position \<Rightarrow> byte list \<Rightarrow> tok_state \<Rightarrow> (go_error + token) \<times> tok_state" where
  "parseSymbol position chars s = (Inr (NewToken TokenTypeSymbol position chars), s)"

definition parseWord :: "position \<Rightarrow> byte \<Rightarrow> tok_state \<Rightarrow> (go_error + token) \<times> tok_state" where
  "parseWord position c s =
     (case scan_while isWordChar [c] s of
        (Inl e, s1) \<Rightarrow> (Inl e, s1)
      | (Inr content, s1) \<Rightarrow> (Inr (NewToken TokenTypeWord position content), s1))"

text \<open>\<open>parseBasePrefix\<close>: \<open>None\<close> is the code's \<open>matched = false\<close>, where nothing has been read.\<close>

definition parseBaseDigits ::
  "byte list \<Rightarrow> token_type \<Rightarrow> (byte \<Rightarrow> bool) \<Rightarrow> tok_state
   \<Rightarrow> (go_error + (token_type \<times> byte list) option) \<times> tok_state" where
  "parseBaseDigits content tokenType digitCheck s =
     (case ts_read s of
        (Inl e, s1) \<Rightarrow> (Inl e, s1)
      | (Inr (_, pre), s1) \<Rightarrow>
          (case scan_while digitCheck (content @ [pre]) s1 of
             (Inl e, s2) \<Rightarrow> (Inl e, s2)
           | (Inr content', s2) \<Rightarrow> (Inr (Some (tokenType, content')), s2)))"

definition parseBasePrefix ::
  "byte list \<Rightarrow> tok_state \<Rightarrow> (go_error + (token_type \<times> byte list) option) \<times> tok_state" where
  "parseBasePrefix content s =
     (case ts_peek2 s of
        (Inl e, s1) \<Rightarrow> if err_is e ErrNotEnoughItems then (Inr None, s1) else (Inl e, s1)
      | (Inr (pre, digit), s1) \<Rightarrow>
          if (pre = CHR ''x'' \<or> pre = CHR ''X'') \<and> isHexDigit digit
          then parseBaseDigits content TokenTypeHexDecimal isHexDigit s1
          else if (pre = CHR ''b'' \<or> pre = CHR ''B'') \<and> isBinaryDigit digit
          then parseBaseDigits content TokenTypeBinary isBinaryDigit s1
          else (Inr None, s1))"

definition hasFloatFraction :: "tok_state \<Rightarrow> bool \<times> tok_state" where
  "hasFloatFraction s =
     (case ts_peek2 s of
        (Inl e, s1) \<Rightarrow> (False, s1)
      | (Inr (first, second), s1) \<Rightarrow> (first = CHR ''.'' \<and> isDigit second, s1))"

text \<open>\<open>parseNumber\<close> after the optional sign: base prefix, digits, fraction.\<close>

definition parseDecimal :: "position \<Rightarrow> byte list \<Rightarrow> tok_state \<Rightarrow> (go_error + token) \<times> tok_state" where
  "parseDecimal position content s =
     (case scan_while isDigit content s of
        (Inl e, s1) \<Rightarrow> (Inl e, s1)
      | (Inr content1, s1) \<Rightarrow>
          (case hasFloatFraction s1 of
             (False, s2) \<Rightarrow> (Inr (NewToken TokenTypeNumber position content1), s2)
           | (True, s2) \<Rightarrow>
               (case ts_read s2 of
                  (Inl e, s3) \<Rightarrow> (Inl e, s3)
                | (Inr (_, dot), s3) \<Rightarrow>
                    (case scan_while isDigit (content1 @ [dot]) s3 of
                       (Inl e, s4) \<Rightarrow> (Inl e, s4)
                     | (Inr content2, s4) \<Rightarrow> (Inr (NewToken TokenTypeFloat position content2), s4)))))"

definition parseNumberBody :: "position \<Rightarrow> byte list \<Rightarrow> tok_state \<Rightarrow> (go_error + token) \<times> tok_state" where
  "parseNumberBody position content s =
     (if content = ''0'' \<or> content = ''-0''
      then (case parseBasePrefix content s of
              (Inl e, s1) \<Rightarrow> (Inl e, s1)
            | (Inr (Some (tokenType, content')), s1) \<Rightarrow> (Inr (NewToken tokenType position content'), s1)
            | (Inr None, s1) \<Rightarrow> parseDecimal position content s1)
      else parseDecimal position content s)"

definition parseNumber :: "position \<Rightarrow> byte \<Rightarrow> tok_state \<Rightarrow> (go_error + token) \<times> tok_state" where
  "parseNumber position c s =
     (if c = CHR ''-''
      then (case ts_peek s of
              (Inl e, s1) \<Rightarrow>
                if err_is e ErrNotEnoughItems then parseSymbol position [c] s1 else (Inl e, s1)
            | (Inr nxt, s1) \<Rightarrow>
                if \<not> isDigit nxt then parseSymbol position [c] s1
                else (case ts_read s1 of
                        (Inl e, s2) \<Rightarrow> (Inl e, s2)
                      | (Inr (_, nxt'), s2) \<Rightarrow> parseNumberBody position [c, nxt'] s2))
      else parseNumberBody position [c] s)"

function parseQuoted_loop ::
  "token_type \<Rightarrow> position \<Rightarrow> byte \<Rightarrow> bool \<Rightarrow> bool \<Rightarrow> byte list \<Rightarrow> tok_state
   \<Rightarrow> (go_error + token) \<times> tok_state" where
  "parseQuoted_loop tokenType position quote allowEscapes escaped content s =
     (case ts_read s of
        (Inl e, s1) \<Rightarrow>
          if err_is e ErrNotEnoughItems then (Inl (Atom ErrUnknownToken), s1) else (Inl e, s1)
      | (Inr (_, nxt), s1) \<Rightarrow>
          if allowEscapes \<and> escaped
          then parseQuoted_loop tokenType position quote allowEscapes False (content @ [nxt]) s1
          else if allowEscapes \<and> nxt = CHR 0x5C
          then parseQuoted_loop tokenType position quote allowEscapes True (content @ [nxt]) s1
          else if nxt = quote
          then (Inr (NewToken tokenType position (content @ [nxt])), s1)
          else parseQuoted_loop tokenType position quote allowEscapes escaped (content @ [nxt]) s1)"
  by pat_completeness auto
termination
  by (relation "measure (\<lambda>(t, p, q, a, e, c, s). length (ts_view s))")
    (auto intro: ts_read_shrinks)

declare parseQuoted_loop.simps [simp del]

definition parseQuotedString ::
  "token_type \<Rightarrow> position \<Rightarrow> byte \<Rightarrow> bool \<Rightarrow> tok_state \<Rightarrow> (go_error + token) \<times> tok_state" where
  "parseQuotedString tokenType position quote allowEscapes s =
     parseQuoted_loop tokenType position quote allowEscapes False [quote] s"

definition parseSingleQuoteString :: "position \<Rightarrow> byte \<Rightarrow> tok_state \<Rightarrow> (go_error + token) \<times> tok_state" where
  "parseSingleQuoteString position c = parseQuotedString TokenTypeSingleQuoteString position c True"

definition parseDoubleQuoteString :: "position \<Rightarrow> byte \<Rightarrow> tok_state \<Rightarrow> (go_error + token) \<times> tok_state" where
  "parseDoubleQuoteString position c = parseQuotedString TokenTypeDoubleQuoteString position c True"

definition parseDiagonalQuoteString :: "position \<Rightarrow> byte \<Rightarrow> tok_state \<Rightarrow> (go_error + token) \<times> tok_state" where
  "parseDiagonalQuoteString position c = parseQuotedString TokenTypeDiagonalQuoteString position c False"

definition parseToken :: "tok_state \<Rightarrow> (go_error + token) \<times> tok_state" where
  "parseToken s =
     (case ts_read s of
        (Inl e, s1) \<Rightarrow> (Inl e, s1)
      | (Inr (position, c), s1) \<Rightarrow>
          if isWhitespace c then parseWhitespace position c s1
          else if c = CHR ''-'' \<or> isDigit c then parseNumber position c s1
          else if isAlpha c then parseWord position c s1
          else if c = CHR 0x27 then parseSingleQuoteString position c s1
          else if c = CHR 0x22 then parseDoubleQuoteString position c s1
          else if c = CHR 0x60 then parseDiagonalQuoteString position c s1
          else parseSymbol position [c] s1)"

section \<open>The scanner as an iterator of tokens\<close>

definition ts_HasNext :: "tok_state \<Rightarrow> bool \<times> tok_state" where
  "ts_HasNext s =
     (if ts_err s \<noteq> None then (False, s)
      else case ts_peek s of
             (Inl e, s1) \<Rightarrow>
               if err_is e ErrNotEnoughItems then (False, s1) else (False, s1\<lparr>ts_err := Some e\<rparr>)
           | (Inr _, s1) \<Rightarrow> (True, s1))"

text \<open>\<open>Next\<close> returns a nil token on an error, which it records.\<close>

definition ts_Next :: "tok_state \<Rightarrow> token option \<times> tok_state" where
  "ts_Next s =
     (case parseToken s of
        (Inl e, s1) \<Rightarrow> (None, s1\<lparr>ts_err := Some e\<rparr>)
      | (Inr t, s1) \<Rightarrow> (Some t, s1))"

definition ts_Err :: "tok_state \<Rightarrow> go_error option" where
  "ts_Err s = (case ts_err s of Some e \<Rightarrow> Some e | None \<Rightarrow> pc_Err (ts_iterator s))"

definition token_iter :: "(tok_state, token option) iterator" where
  "token_iter = \<lparr>iHasNext = ts_HasNext, iNext = ts_Next, iErr = ts_Err\<rparr>"

definition Tokenize :: "reader \<Rightarrow> tok_state" where
  "Tokenize source = NewState source"

section \<open>Every operation takes a prefix of the remaining bytes\<close>

text \<open>
  \<open>takes s content r s'\<close>: the step from \<open>s\<close> to \<open>s'\<close> took some bytes, and a result \<open>r\<close> whose
  content was started by \<open>content\<close> has exactly these bytes appended.
\<close>

definition takes :: "tok_state \<Rightarrow> byte list \<Rightarrow> go_error + byte list \<Rightarrow> tok_state \<Rightarrow> bool" where
  "takes s content r s' \<longleftrightarrow>
     (\<exists>bs. consumed s bs s' \<and> (\<forall>c. r = Inr c \<longrightarrow> c = content @ bs))"

lemma takes_refl [intro]: "consumed s [] s' \<Longrightarrow> takes s content (Inr content) s'"
  by (auto simp: takes_def)

lemma takes_error [intro]: "consumed s bs s' \<Longrightarrow> takes s content (Inl e) s'"
  by (auto simp: takes_def)

lemma takes_here [simp]: "takes s content (Inr content) s" "takes s content (Inl e) s"
  by (auto simp: takes_def intro: exI [of _ "[]"])

lemma takes_step: "consumed s bs t \<Longrightarrow> takes t (content @ bs) r s' \<Longrightarrow> takes s content r s'"
  unfolding takes_def by (metis append.assoc consumed_trans)

lemma scan_while_takes: "scan_while p content s = (r, s') \<Longrightarrow> takes s content r s'"
proof (induction p content s arbitrary: r s' rule: scan_while.induct)
  case (1 p content s)
  obtain q s1 where pk: "ts_peek s = (q, s1)" by fastforce
  note C1 = ts_peek_consumed [OF pk]
  show ?case
  proof (cases "\<exists>c. q = Inr c \<and> p c")
    case False
    with 1(2) pk C1 show ?thesis
      by (subst (asm) scan_while.simps) (auto split: sum.splits if_splits)
  next
    case True
    then obtain c where c: "q = Inr c" "p c" by blast
    obtain x s2 where rd: "ts_read s1 = (x, s2)" by fastforce
    show ?thesis
    proof (cases x)
      case (Inl e)
      with 1(2) pk c rd C1 ts_read_Inl [of s1 e s2] show ?thesis
        by (subst (asm) scan_while.simps) (auto intro: consumed_trans takes_error)
    next
      case (Inr y)
      then obtain pos c' where y: "x = Inr (pos, c')" by (cases y) auto
      from 1(2) pk c rd y have run: "scan_while p (content @ [c']) s2 = (r, s')"
        by (subst (asm) scan_while.simps) simp
      have "takes s2 (content @ [c']) r s'"
        using "1.IH" [OF pk [symmetric] c(1) _ rd [symmetric] y] c(2) run by simp
      moreover have "consumed s [c'] s2"
        using consumed_trans [OF C1, of "[c']" s2] ts_read_Inr [of s1 pos c' s2] rd y by simp
      ultimately show ?thesis by (rule takes_step [rotated])
    qed
  qed
qed

definition takes_token ::
  "tok_state \<Rightarrow> position \<Rightarrow> byte list \<Rightarrow> go_error + token \<Rightarrow> tok_state \<Rightarrow> bool" where
  "takes_token s position content r s' \<longleftrightarrow>
     takes s content (map_sum id tok_content r) s' \<and> (\<forall>t. r = Inr t \<longrightarrow> tok_position t = position)"

lemma takes_token_Inl [simp]: "takes_token s position content (Inl e) s' \<longleftrightarrow> takes s content (Inl e) s'"
  by (simp add: takes_token_def)

lemma takes_token_Inr [simp]:
  "takes_token s position content (Inr (NewToken ty position' c)) s'
     \<longleftrightarrow> takes s content (Inr c) s' \<and> position' = position"
  by (auto simp: takes_token_def NewToken_def)

lemma takes_token_step:
  assumes "consumed s bs t" "takes_token t position (content @ bs) r s'"
  shows "takes_token s position content r s'"
  using assms takes_step [OF assms(1)] by (simp add: takes_token_def)

lemma takes_InrD: "takes s content (Inr c) t \<Longrightarrow> \<exists>bs. consumed s bs t \<and> c = content @ bs"
  by (simp add: takes_def)

lemma takes_then:
  assumes "takes s content (Inr c) t" "takes_token t position c r s'"
  shows "takes_token s position content r s'"
  using takes_InrD [OF assms(1)] assms(2) takes_token_step by blast

lemma takes_trans:
  assumes "takes s content (Inr c) t" "takes t c r s'"
  shows "takes s content r s'"
  using takes_InrD [OF assms(1)] assms(2) takes_step by blast

lemma parseWord_takes: "parseWord position c s = (r, s') \<Longrightarrow> takes_token s position [c] r s'"
  by (auto simp: parseWord_def dest!: scan_while_takes split: prod.splits sum.splits)

lemma parseWhitespace_takes: "parseWhitespace position c s = (r, s') \<Longrightarrow> takes_token s position [c] r s'"
  by (auto simp: parseWhitespace_def split: if_splits)

lemma parseSymbol_takes: "parseSymbol position cs s = (r, s') \<Longrightarrow> takes_token s position cs r s'"
  by (auto simp: parseSymbol_def)

lemma parseQuoted_loop_takes:
  "parseQuoted_loop ty position quote allow escaped content s = (r, s') \<Longrightarrow>
     takes_token s position content r s'"
proof (induction ty position quote allow escaped content s arbitrary: r s'
    rule: parseQuoted_loop.induct)
  case (1 ty position quote allow escaped content s)
  obtain x s1 where rd: "ts_read s = (x, s1)" by fastforce
  show ?case
  proof (cases x)
    case (Inl e)
    with 1(4) rd ts_read_Inl [of s e s1] show ?thesis
      by (subst (asm) parseQuoted_loop.simps) (auto split: if_splits)
  next
    case (Inr y)
    then obtain pos c where y: "x = Inr (pos, c)" by (cases y) auto
    then have C: "consumed s [c] s1" using ts_read_Inr rd by blast
    have "takes_token s1 position (content @ [c]) r s'"
      using 1(4) rd y "1.IH" [OF rd [symmetric] y]
      by (subst (asm) parseQuoted_loop.simps) (auto split: if_splits)
    with C show ?thesis by (rule takes_token_step)
  qed
qed

lemma hasFloatFraction_consumed: "hasFloatFraction s = (b, s') \<Longrightarrow> consumed s [] s'"
  by (auto simp: hasFloatFraction_def dest!: ts_peek2_consumed split: prod.splits sum.splits)

lemma takes_token_after:
  "consumed s [] t \<Longrightarrow> takes_token t position content r s' \<Longrightarrow> takes_token s position content r s'"
  using takes_token_step [of s "[]"] by simp

lemma takes_after: "consumed s [] t \<Longrightarrow> takes t content r s' \<Longrightarrow> takes s content r s'"
  using takes_step [of s "[]"] by simp

lemma parseBaseDigits_takes:
  "parseBaseDigits content ty digitCheck s = (r, s') \<Longrightarrow>
     r \<noteq> Inr None \<and> takes s content (map_sum id (snd \<circ> the) r) s'"
  by (auto simp: parseBaseDigits_def dest!: ts_read_Inr ts_read_Inl scan_while_takes
      intro: takes_step split: prod.splits sum.splits)

lemma parseBasePrefix_takes:
  "parseBasePrefix content s = (r, s') \<Longrightarrow>
     (r = Inr None \<longrightarrow> consumed s [] s') \<and> (r \<noteq> Inr None \<longrightarrow> takes s content (map_sum id (snd \<circ> the) r) s')"
  by (auto simp: parseBasePrefix_def dest!: ts_peek2_consumed parseBaseDigits_takes
      intro: takes_after split: prod.splits sum.splits if_splits)

lemma parseDecimal_takes:
  assumes "parseDecimal position content s = (r, s')"
  shows "takes_token s position content r s'"
proof -
  obtain q s1 where sc: "scan_while isDigit content s = (q, s1)" by fastforce
  note T = scan_while_takes [OF sc]
  show ?thesis
  proof (cases q)
    case (Inl e)
    with assms sc T show ?thesis by (auto simp: parseDecimal_def)
  next
    case (Inr c1)
    obtain b s2 where fl: "hasFloatFraction s1 = (b, s2)" by fastforce
    note C = hasFloatFraction_consumed [OF fl]
    have "takes_token s1 position c1 r s'"
    proof (cases b)
      case False
      with assms sc Inr fl C show ?thesis by (auto simp: parseDecimal_def)
    next
      case True
      have "takes_token s2 position c1 r s'"
        using assms sc Inr fl True
        by (auto simp: parseDecimal_def dest!: ts_read_Inr ts_read_Inl scan_while_takes
            intro: takes_step split: prod.splits sum.splits)
      with C show ?thesis by (rule takes_token_after)
    qed
    with T Inr show ?thesis by (blast intro: takes_then)
  qed
qed

lemma parseNumberBody_takes:
  "parseNumberBody position content s = (r, s') \<Longrightarrow> takes_token s position content r s'"
  by (auto simp: parseNumberBody_def dest!: parseBasePrefix_takes parseDecimal_takes
      intro: takes_token_after split: prod.splits sum.splits option.splits if_splits)

lemma parseNumber_takes:
  assumes "parseNumber position c s = (r, s')"
  shows "takes_token s position [c] r s'"
proof (cases "c = CHR ''-''")
  case False
  with assms show ?thesis by (simp add: parseNumber_def parseNumberBody_takes)
next
  case True
  obtain q s1 where pk: "ts_peek s = (q, s1)" by fastforce
  have "takes_token s1 position [c] r s'"
    using assms True pk
    by (auto simp: parseNumber_def
        dest!: ts_read_Inr ts_read_Inl parseSymbol_takes parseNumberBody_takes
        intro: takes_token_step split: prod.splits sum.splits if_splits)
  with ts_peek_consumed [OF pk] show ?thesis by (rule takes_token_after)
qed

lemma parseQuotedString_takes:
  "parseQuotedString ty position c allow s = (r, s') \<Longrightarrow> takes_token s position [c] r s'"
  by (simp add: parseQuotedString_def parseQuoted_loop_takes)

lemmas token_takes =
  parseWhitespace_takes parseNumber_takes parseWord_takes parseSymbol_takes parseQuotedString_takes

lemma parseToken_takes:
  assumes "parseToken s = (r, s')"
  shows "takes_token s (ts_position s) [] r s' \<and> (\<forall>t. r = Inr t \<longrightarrow> tok_content t \<noteq> [])"
proof -
  obtain q s1 where rd: "ts_read s = (q, s1)" by fastforce
  show ?thesis
  proof (cases q)
    case (Inl e)
    with assms rd ts_read_Inl [of s e s1] show ?thesis by (auto simp: parseToken_def)
  next
    case (Inr y)
    then obtain c where c: "q = Inr (ts_position s, c)" and C: "consumed s [c] s1"
      using ts_read_Inr [of s _ _ s1] rd by (cases y) auto
    have T: "takes_token s1 (ts_position s) [c] r s'"
      using assms rd c
      by (auto simp: parseToken_def parseSingleQuoteString_def parseDoubleQuoteString_def
          parseDiagonalQuoteString_def dest!: token_takes split: if_splits)
    then have "\<forall>t. r = Inr t \<longrightarrow> tok_content t \<noteq> []"
      by (auto simp: takes_token_def takes_def)
    with T C takes_token_step [of s "[c]" s1 "ts_position s" "[]" r s'] show ?thesis by simp
  qed
qed

lemma parseToken_consumed:
  "parseToken s = (Inr t, s') \<Longrightarrow>
     consumed s (tok_content t) s' \<and> tok_content t \<noteq> [] \<and> tok_position t = ts_position s"
  using parseToken_takes [of s "Inr t" s'] by (auto simp: takes_token_def takes_def)

lemma parseToken_error: "parseToken s = (Inl e, s') \<Longrightarrow> \<exists>bs. consumed s bs s'"
  using parseToken_takes [of s "Inl e" s'] by (auto simp: takes_def)

section \<open>Whole runs\<close>

text \<open>\<open>positioned p ts\<close>: the tokens \<open>ts\<close> follow each other without a gap from position \<open>p\<close> on.\<close>

fun positioned :: "position \<Rightarrow> token list \<Rightarrow> bool" where
  "positioned p [] = True"
| "positioned p (t # ts) = (tok_content t \<noteq> [] \<and> tok_position t = p
                           \<and> positioned (fold move (tok_content t) p) ts)"

abbreviation contents :: "token list \<Rightarrow> byte list" where
  "contents ts \<equiv> concat (map tok_content ts)"

lemma ts_HasNext_consumed:
  assumes "ts_HasNext s = (b, s')"
  shows "b \<longrightarrow> consumed s [] s'" "b \<longrightarrow> ts_view s \<noteq> []" "b \<longrightarrow> ts_err s = None"
proof -
  obtain r s1 where pk: "ts_peek s = (r, s1)" by fastforce
  have "\<forall>c. r = Inr c \<longrightarrow> ts_view s \<noteq> []"
    using pk reader_items.peek_view by (fastforce simp: ts_peek_def ts_view_def split: prod.splits)
  with assms pk ts_peek_consumed [OF pk]
  show "b \<longrightarrow> consumed s [] s'" "b \<longrightarrow> ts_view s \<noteq> []" "b \<longrightarrow> ts_err s = None"
    by (auto simp: ts_HasNext_def split: sum.splits if_splits)
qed

lemma ts_HasNext_end:
  assumes "ts_live s" "ts_HasNext s = (False, s')" "ts_Err s' = None"
  shows "ts_view s = [] \<and> ts_fault s = None \<and> consumed s [] s'"
proof -
  obtain r it where pk: "Peek reader_iter (ts_iterator s) = (r, it)" by fastforce
  have none: "ts_err s = None" using assms(2,3)
    by (auto simp: ts_HasNext_def ts_Err_def split: if_splits option.splits)
  have P: "ts_peek s = (r, s\<lparr>ts_iterator := it\<rparr>)" using pk by (simp add: ts_peek_def)
  from assms(2,3) none P obtain e where e: "r = Inl e" "s' = s\<lparr>ts_iterator := it\<rparr>"
    by (auto simp: ts_HasNext_def ts_Err_def split: sum.splits if_splits)
  have "pc_err it = None" using assms(3) e none by (simp add: ts_Err_def pc_Err_def)
  with reader.peek_live [OF _ pk] assms(1) e have "ts_fault s = None" "length (ts_view s) < 1"
    by (auto simp: ts_live_def reader.explained_def ts_fault_def ts_view_def)
  with ts_peek_consumed [OF P] e show ?thesis by simp
qed

text \<open>
  A run of \<open>Materialize\<close> over the scanner always returns. If it reports no error, every token is
  there, the tokens follow each other without a gap and spell the whole view, and the reader has
  not failed.
\<close>

definition run_ok :: "tok_state \<Rightarrow> token option list \<Rightarrow> tok_state \<Rightarrow> bool" where
  "run_ok s toks s' \<longleftrightarrow>
     (ts_Err s' = None \<longrightarrow>
        ts_fault s = None \<and> (\<exists>ts. toks = map Some ts \<and> contents ts = ts_view s \<and> positioned (ts_position s) ts))"

lemma run_ok_Cons:
  assumes "ts_live s" "consumed s [] s1" "consumed s1 (tok_content t) s2" "tok_content t \<noteq> []"
    "tok_position t = ts_position s1" "run_ok s2 toks s'"
  shows "run_ok s (Some t # toks) s'"
  unfolding run_ok_def
proof
  assume "ts_Err s' = None"
  with assms(6) obtain ts where ts: "ts_fault s2 = None" "toks = map Some ts" "contents ts = ts_view s2"
      "positioned (ts_position s2) ts" by (auto simp: run_ok_def)
  with assms have "ts_fault s = None \<and> Some t # toks = map Some (t # ts) \<and> contents (t # ts) = ts_view s
      \<and> positioned (ts_position s) (t # ts)" by (simp add: consumed_def)
  then show "ts_fault s = None \<and> (\<exists>ts. Some t # toks = map Some ts \<and> contents ts = ts_view s
      \<and> positioned (ts_position s) ts)" by (elim conjE, intro conjI exI [of _ "t # ts"])
qed

lemma materialize_err_stops:
  "ts_err s \<noteq> None \<Longrightarrow> materialize_loop token_iter acc s = Some (acc, s)"
  by (subst materialize_loop.simps) (simp add: token_iter_def ts_HasNext_def)

lemma materialize_run:
  "ts_live s \<Longrightarrow> \<exists>toks s'. materialize_loop token_iter acc s = Some (acc @ toks, s') \<and> run_ok s toks s'"
proof (induction "length (ts_view s)" arbitrary: s acc rule: less_induct)
  case less
  obtain b s1 where h: "ts_HasNext s = (b, s1)" by fastforce
  show ?case
  proof (cases "b \<and> ts_Err s1 = None")
    case False
    then have "materialize_loop token_iter acc s = Some (acc @ [], s1)"
      using h by (subst materialize_loop.simps) (auto simp: token_iter_def)
    moreover have "run_ok s [] s1"
      using False h ts_HasNext_end [OF less.prems] by (cases b) (auto simp: run_ok_def)
    ultimately show ?thesis by blast
  next
    case True
    then have C1: "consumed s [] s1" using ts_HasNext_consumed [OF h] by simp
    obtain r s2 where pt: "parseToken s1 = (r, s2)" by fastforce
    show ?thesis
    proof (cases r)
      case (Inl e)
      then have "materialize_loop token_iter acc s =
          materialize_loop token_iter (acc @ [None]) (s2\<lparr>ts_err := Some e\<rparr>)"
        using True h pt by (subst materialize_loop.simps) (simp add: token_iter_def ts_Next_def)
      then have "materialize_loop token_iter acc s = Some (acc @ [None], s2\<lparr>ts_err := Some e\<rparr>)"
        by (simp add: materialize_err_stops)
      then show ?thesis by (auto simp: run_ok_def ts_Err_def)
    next
      case (Inr t)
      with parseToken_consumed [of s1 t s2] pt
      have T: "consumed s1 (tok_content t) s2" "tok_content t \<noteq> []" "tok_position t = ts_position s1"
        by auto
      have step: "materialize_loop token_iter acc s = materialize_loop token_iter (acc @ [Some t]) s2"
        using True h pt Inr by (subst materialize_loop.simps) (simp add: token_iter_def ts_Next_def)
      have "length (ts_view s2) < length (ts_view s)" and live: "ts_live s2"
        using C1 T less.prems by (auto simp: consumed_def)
      from less.hyps [OF this, of "acc @ [Some t]"] obtain toks s' where
        R: "materialize_loop token_iter (acc @ [Some t]) s2 = Some ((acc @ [Some t]) @ toks, s')"
           "run_ok s2 toks s'" by blast
      have "run_ok s (Some t # toks) s'"
        using run_ok_Cons [OF less.prems C1 T R(2)] .
      with R(1) step show ?thesis by auto
    qed
  qed
qed

lemma NewState_fresh:
  "ts_live (NewState r)" "ts_view (NewState r) = rd_bytes r" "ts_fault (NewState r) = real_fault (rd_fault r)"
  "ts_position (NewState r) = \<lparr>pos_offset = 0, pos_column = 0, pos_line = 1\<rparr>"
  by (simp_all add: NewState_def ts_live_def reader.pc_live_def NewPeekableConsumable_def
      NewReaderIterator_fresh ts_view_def pc_view_def ts_fault_def pc_fault_def ts_position_def)

abbreviation start_position :: position where
  "start_position \<equiv> \<lparr>pos_offset = 0, pos_column = 0, pos_line = 1\<rparr>"

lemma Tokenize_run:
  "\<exists>toks s'. Materialize token_iter (Tokenize r) = Some ((toks, ts_Err s'), s') \<and> run_ok (Tokenize r) toks s'"
proof -
  obtain toks s' where "materialize_loop token_iter [] (NewState r) = Some ([] @ toks, s')"
      "run_ok (NewState r) toks s'"
    using materialize_run [OF NewState_fresh(1), of "[]"] by blast
  then show ?thesis by (auto simp: Materialize_def Tokenize_def token_iter_def)
qed

section \<open>A reference lexer on byte lists\<close>

text \<open>
  The specification of the scanner: each token is described by maximal prefixes of the remaining
  bytes, with no buffer, no peeking and no errors from below. \<open>None\<close> is an unterminated string.
\<close>

definition ref_decimal :: "byte list \<Rightarrow> byte list \<Rightarrow> token_type \<times> byte list" where
  "ref_decimal pre cs =
     (let ds = takeWhile isDigit cs in
      case dropWhile isDigit cs of
        dot # d # r \<Rightarrow>
          if dot = CHR ''.'' \<and> isDigit d
          then (TokenTypeFloat, pre @ ds @ [dot] @ takeWhile isDigit (d # r))
          else (TokenTypeNumber, pre @ ds)
      | _ \<Rightarrow> (TokenTypeNumber, pre @ ds))"

definition ref_number :: "byte list \<Rightarrow> byte list \<Rightarrow> token_type \<times> byte list" where
  "ref_number pre cs =
     (if pre = ''0'' \<or> pre = ''-0''
      then (case cs of
              p # d # r \<Rightarrow>
                if (p = CHR ''x'' \<or> p = CHR ''X'') \<and> isHexDigit d
                then (TokenTypeHexDecimal, pre @ [p] @ takeWhile isHexDigit (d # r))
                else if (p = CHR ''b'' \<or> p = CHR ''B'') \<and> isBinaryDigit d
                then (TokenTypeBinary, pre @ [p] @ takeWhile isBinaryDigit (d # r))
                else ref_decimal pre cs
            | _ \<Rightarrow> ref_decimal pre cs)
      else ref_decimal pre cs)"

fun ref_quoted :: "bool \<Rightarrow> byte \<Rightarrow> bool \<Rightarrow> byte list \<Rightarrow> byte list option" where
  "ref_quoted allow quote escaped [] = None"
| "ref_quoted allow quote escaped (c # cs) =
     (if allow \<and> escaped then map_option ((#) c) (ref_quoted allow quote False cs)
      else if allow \<and> c = CHR 0x5C then map_option ((#) c) (ref_quoted allow quote True cs)
      else if c = quote then Some [c]
      else map_option ((#) c) (ref_quoted allow quote escaped cs))"

definition ref_string :: "token_type \<Rightarrow> bool \<Rightarrow> byte \<Rightarrow> byte list \<Rightarrow> (token_type \<times> byte list) option" where
  "ref_string ty allow quote cs = map_option (\<lambda>body. (ty, quote # body)) (ref_quoted allow quote False cs)"

definition ref_whitespace :: "byte \<Rightarrow> token_type" where
  "ref_whitespace c =
     (if c = CHR '' '' then TokenTypeSpace else if c = CHR 0x09 then TokenTypeTab
      else if c = CHR 0x0D then TokenTypeCarriageReturn else TokenTypeNewLine)"

definition ref_token :: "byte \<Rightarrow> byte list \<Rightarrow> (token_type \<times> byte list) option" where
  "ref_token c cs =
     (if isWhitespace c then Some (ref_whitespace c, [c])
      else if c = CHR ''-'' then
        (case cs of
           [] \<Rightarrow> Some (TokenTypeSymbol, [c])
         | d # r \<Rightarrow> if isDigit d then Some (ref_number [c, d] r) else Some (TokenTypeSymbol, [c]))
      else if isDigit c then Some (ref_number [c] cs)
      else if isAlpha c then Some (TokenTypeWord, c # takeWhile isWordChar cs)
      else if c = CHR 0x27 then ref_string TokenTypeSingleQuoteString True c cs
      else if c = CHR 0x22 then ref_string TokenTypeDoubleQuoteString True c cs
      else if c = CHR 0x60 then ref_string TokenTypeDiagonalQuoteString False c cs
      else Some (TokenTypeSymbol, [c]))"

text \<open>A scanner whose reader will not fail behaves as the reference lexer says.\<close>

definition ts_clean :: "tok_state \<Rightarrow> bool" where
  "ts_clean s \<longleftrightarrow> ts_live s \<and> ts_fault s = None"

lemma consumed_clean: "consumed s bs s' \<Longrightarrow> ts_clean s \<Longrightarrow> ts_clean s'"
  by (simp add: consumed_def ts_clean_def)

lemma consumed_view: "consumed s bs s' \<Longrightarrow> ts_view s' = drop (length bs) (ts_view s)"
  by (simp add: consumed_def)

lemma not_enough_is [simp]: "err_is not_enough ErrNotEnoughItems"
  by (simp add: not_enough_def)

lemma clean_ok: "ts_clean s \<Longrightarrow> reader.pc_ok (ts_iterator s)"
  by (simp add: ts_clean_def ts_live_def ts_fault_def reader.pc_live_ok)

lemma clean_peek:
  assumes "ts_clean s" "ts_peek s = (r, s')"
  shows "r = (case ts_view s of [] \<Rightarrow> Inl not_enough | c # cs \<Rightarrow> Inr c)"
proof (cases "ts_view s")
  case Nil
  then have "length (pc_view ri_items (ts_iterator s)) < 1" by (simp add: ts_view_def)
  from reader.peekN_short [OF clean_ok [OF assms(1)] this] assms Nil show ?thesis
    by (auto simp: ts_peek_def Peek_def reader.short_error_def ts_clean_def ts_fault_def)
next
  case (Cons c cs)
  then have "pc_view ri_items (ts_iterator s) = c # cs" by (simp add: ts_view_def)
  from reader.peek_cons [OF clean_ok [OF assms(1)] this] assms Cons show ?thesis
    by (auto simp: ts_peek_def)
qed

lemma clean_peek2:
  assumes "ts_clean s" "ts_peek2 s = (r, s')"
  shows "r = (case ts_view s of c # d # cs \<Rightarrow> Inr (c, d) | _ \<Rightarrow> Inl not_enough)"
proof (cases "length (ts_view s) < 2")
  case True
  then have "length (pc_view ri_items (ts_iterator s)) < 2" by (simp add: ts_view_def)
  from reader.peekN_short [OF clean_ok [OF assms(1)] this] assms have "r = Inl not_enough"
    by (auto simp: ts_peek2_def Peek2_def reader.short_error_def ts_clean_def ts_fault_def)
  with True show ?thesis by (auto split: list.split)
next
  case False
  then obtain c d cs where v: "ts_view s = c # d # cs"
    by (metis One_nat_def Suc_1 length_Cons less_Suc_eq list.size(3) neq_Nil_conv zero_less_Suc)
  then have "pc_view ri_items (ts_iterator s) = c # d # cs" by (simp add: ts_view_def)
  from reader.peek2_cons [OF clean_ok [OF assms(1)] this] assms v show ?thesis
    by (auto simp: ts_peek2_def)
qed

lemma clean_read_Cons:
  assumes "ts_clean s" "ts_view s = c # cs" "ts_read s = (r, s')"
  shows "r = Inr (ts_position s, c)"
proof -
  obtain s1 where pk: "ts_peek s = (Inr c, s1)"
    using clean_peek [OF assms(1)] assms(2) by (cases "ts_peek s") auto
  have C1: "consumed s [] s1" by (rule ts_peek_consumed [OF pk])
  then have "reader.pc_ok (ts_iterator s1)" "pc_view ri_items (ts_iterator s1) = c # cs"
    using consumed_clean [OF C1 assms(1)] assms(2) consumed_view [OF C1]
    by (auto simp: clean_ok ts_view_def)
  from reader.consume_cons [OF this] obtain it where
    "Consume reader_iter (ts_iterator s1) = (None, it)" by blast
  with assms(3) pk show ?thesis by (simp add: ts_read_def ts_position_def Let_def)
qed

lemma clean_read_Nil:
  assumes "ts_clean s" "ts_view s = []" "ts_read s = (r, s')"
  shows "r = Inl not_enough"
  using clean_peek [OF assms(1)] assms(2,3)
  by (cases "ts_peek s") (auto simp: ts_read_def Let_def)

lemma clean_scan_while:
  "ts_clean s \<Longrightarrow> fst (scan_while p content s) = Inr (content @ takeWhile p (ts_view s))"
proof (induction p content s rule: scan_while.induct)
  case (1 p content s)
  obtain q s1 where pk: "ts_peek s = (q, s1)" by fastforce
  note C1 = ts_peek_consumed [OF pk] and q = clean_peek [OF 1(2) pk]
  show ?case
  proof (cases "ts_view s")
    case Nil
    with pk q show ?thesis by (simp add: scan_while.simps [of p content s])
  next
    case (Cons c cs)
    show ?thesis
    proof (cases "p c")
      case False
      with Cons pk q show ?thesis by (simp add: scan_while.simps [of p content s])
    next
      case True
      obtain x s2 where rd: "ts_read s1 = (x, s2)" by fastforce
      have v1: "ts_view s1 = c # cs" using Cons consumed_view [OF C1] by simp
      have x: "x = Inr (ts_position s1, c)"
        by (rule clean_read_Cons [OF consumed_clean [OF C1 1(2)] v1 rd])
      then have C2: "consumed s1 [c] s2" using ts_read_Inr rd by blast
      have run: "scan_while p content s = scan_while p (content @ [c]) s2"
        using pk q Cons True rd x by (simp add: scan_while.simps [of p content s])
      have "fst (scan_while p (content @ [c]) s2) = Inr ((content @ [c]) @ takeWhile p (ts_view s2))"
        using "1.IH" [OF pk [symmetric] _ _ rd [symmetric] x refl] q Cons True
          consumed_clean [OF C2 consumed_clean [OF C1 1(2)]] by simp
      with run True Cons v1 consumed_view [OF C2] show ?thesis by simp
    qed
  qed
qed

lemma clean_scan:
  assumes "ts_clean s" "scan_while p content s = (r, s')"
  shows "r = Inr (content @ takeWhile p (ts_view s))" "ts_view s' = dropWhile p (ts_view s)" "ts_clean s'"
proof -
  show r: "r = Inr (content @ takeWhile p (ts_view s))"
    using clean_scan_while [OF assms(1), of p content] assms(2) by simp
  with scan_while_takes [OF assms(2)] have C: "consumed s (takeWhile p (ts_view s)) s'"
    by (auto simp: takes_def)
  then show "ts_clean s'" using assms(1) consumed_clean by blast
  show "ts_view s' = dropWhile p (ts_view s)"
    using consumed_view [OF C] by (simp add: dropWhile_eq_drop)
qed

lemma clean_float:
  assumes "ts_clean s" "hasFloatFraction s = (b, s')"
  shows "b = (case ts_view s of dot # d # _ \<Rightarrow> dot = CHR ''.'' \<and> isDigit d | _ \<Rightarrow> False)"
    "ts_view s' = ts_view s" "ts_clean s'"
proof -
  obtain q s1 where pk: "ts_peek2 s = (q, s1)" by fastforce
  from assms pk clean_peek2 [OF assms(1) pk]
  show "b = (case ts_view s of dot # d # _ \<Rightarrow> dot = CHR ''.'' \<and> isDigit d | _ \<Rightarrow> False)"
    by (auto simp: hasFloatFraction_def split: list.splits)
  from hasFloatFraction_consumed [OF assms(2)] assms(1)
  show "ts_view s' = ts_view s" "ts_clean s'" by (auto simp: consumed_def ts_clean_def)
qed

definition mk_token :: "position \<Rightarrow> token_type \<times> byte list \<Rightarrow> token" where
  "mk_token p tc = NewToken (fst tc) p (snd tc)"

lemma clean_decimal:
  assumes "ts_clean s" "parseDecimal position content s = (r, s')"
  shows "r = Inr (mk_token position (ref_decimal content (ts_view s)))"
proof -
  obtain q s1 where sc: "scan_while isDigit content s = (q, s1)" by fastforce
  note S = clean_scan [OF assms(1) sc]
  obtain b s2 where fl: "hasFloatFraction s1 = (b, s2)" by fastforce
  note F = clean_float [OF S(3) fl]
  show ?thesis
  proof (cases b)
    case False
    with F(1) S(2) have "\<not> (case dropWhile isDigit (ts_view s) of
        dot # d # _ \<Rightarrow> dot = CHR ''.'' \<and> isDigit d | _ \<Rightarrow> False)" by simp
    then have "ref_decimal content (ts_view s) = (TokenTypeNumber, content @ takeWhile isDigit (ts_view s))"
      by (auto simp: ref_decimal_def Let_def simp del: dropWhile_eq_Nil_conv split: list.splits)
    with assms(2) sc S(1) fl False show ?thesis
      by (simp add: parseDecimal_def mk_token_def)
  next
    case True
    then obtain dot d rest where v: "ts_view s1 = dot # d # rest" "dot = CHR ''.''" "isDigit d"
      using F(1) by (auto split: list.splits)
    obtain x s3 where rd: "ts_read s2 = (x, s3)" by fastforce
    have x: "x = Inr (ts_position s2, dot)"
      by (rule clean_read_Cons [OF F(3) _ rd]) (use F(2) v in simp)
    then have C3: "consumed s2 [dot] s3" using ts_read_Inr rd by blast
    obtain y s4 where sc2: "scan_while isDigit ((content @ takeWhile isDigit (ts_view s)) @ [dot]) s3 = (y, s4)"
      by fastforce
    note S2 = clean_scan [OF consumed_clean [OF C3 F(3)] sc2]
    have v3: "ts_view s3 = d # rest" using consumed_view [OF C3] F(2) v by simp
    have "dropWhile isDigit (ts_view s) = dot # d # rest" using S(2) v(1) by simp
    then have "ref_decimal content (ts_view s) =
        (TokenTypeFloat, content @ takeWhile isDigit (ts_view s) @ [dot] @ takeWhile isDigit (d # rest))"
      using v(2,3) by (simp add: ref_decimal_def Let_def del: takeWhile.simps)
    with assms(2) sc S(1) fl True rd x sc2 S2(1) v3 show ?thesis
      by (simp add: parseDecimal_def mk_token_def del: takeWhile.simps)
  qed
qed

lemma clean_base_digits:
  assumes "ts_clean s" "ts_view s = p # cs" "parseBaseDigits content ty chk s = (r, s')"
  shows "r = Inr (Some (ty, content @ [p] @ takeWhile chk cs))"
proof -
  obtain x s1 where rd: "ts_read s = (x, s1)" by fastforce
  have x: "x = Inr (ts_position s, p)" by (rule clean_read_Cons [OF assms(1,2) rd])
  then have C: "consumed s [p] s1" using ts_read_Inr rd by blast
  obtain y s2 where sc: "scan_while chk (content @ [p]) s1 = (y, s2)" by fastforce
  from clean_scan(1) [OF consumed_clean [OF C assms(1)] sc] consumed_view [OF C] assms rd x sc
  show ?thesis by (simp add: parseBaseDigits_def)
qed

lemma clean_number_body:
  assumes "ts_clean s" "parseNumberBody position content s = (r, s')"
  shows "r = Inr (mk_token position (ref_number content (ts_view s)))"
proof (cases "content = ''0'' \<or> content = ''-0''")
  case False
  with assms show ?thesis by (auto simp: parseNumberBody_def ref_number_def clean_decimal)
next
  case True
  obtain q s1 where pk: "ts_peek2 s = (q, s1)" by fastforce
  have C1: "consumed s [] s1" by (rule ts_peek2_consumed [OF pk])
  note K1 = consumed_clean [OF C1 assms(1)] and q = clean_peek2 [OF assms(1) pk]
  have v1: "ts_view s1 = ts_view s" using consumed_view [OF C1] by simp
  obtain b s2 where bp: "parseBasePrefix content s = (b, s2)" by fastforce
  show ?thesis
  proof (cases "\<exists>p d cs. ts_view s = p # d # cs \<and>
      ((p = CHR ''x'' \<or> p = CHR ''X'') \<and> isHexDigit d \<or> (p = CHR ''b'' \<or> p = CHR ''B'') \<and> isBinaryDigit d)")
    case base: True
    then obtain p d cs where v: "ts_view s = p # d # cs" by blast
    obtain ty chk where run: "parseBasePrefix content s = parseBaseDigits content ty chk s1"
      and ref: "ref_number content (ts_view s) = (ty, content @ [p] @ takeWhile chk (d # cs))"
    proof (cases "(p = CHR ''x'' \<or> p = CHR ''X'') \<and> isHexDigit d")
      case hex: True
      show ?thesis
        by (rule that [of TokenTypeHexDecimal isHexDigit])
          (use hex True v q pk in \<open>simp_all add: parseBasePrefix_def ref_number_def\<close>)
    next
      case no: False
      with base v have bin: "(p = CHR ''b'' \<or> p = CHR ''B'') \<and> isBinaryDigit d" by auto
      show ?thesis
        by (rule that [of TokenTypeBinary isBinaryDigit])
          (use no bin True v q pk in \<open>auto simp: parseBasePrefix_def ref_number_def\<close>)
    qed
    have "b = Inr (Some (ty, content @ [p] @ takeWhile chk (d # cs)))"
      by (rule clean_base_digits [OF K1 _ trans [OF run [symmetric] bp]]) (simp add: v1 v)
    with assms(2) True bp ref show ?thesis by (auto simp: parseNumberBody_def mk_token_def)
  next
    case False
    then have b: "b = Inr None" using bp pk q
      by (auto simp: parseBasePrefix_def split: list.splits if_splits)
    with bp have C2: "consumed s [] s2" using parseBasePrefix_takes by blast
    have "ref_number content (ts_view s) = ref_decimal content (ts_view s)"
      using False by (auto simp: ref_number_def split: list.splits)
    moreover have "parseDecimal position content s2 = (r, s')"
      using assms(2) True bp b by (auto simp: parseNumberBody_def)
    ultimately show ?thesis
      using clean_decimal [OF consumed_clean [OF C2 assms(1)]] consumed_view [OF C2] by simp
  qed
qed

lemma clean_quoted:
  "ts_clean s \<Longrightarrow>
     fst (parseQuoted_loop ty position quote allow escaped content s) =
     (case ref_quoted allow quote escaped (ts_view s) of
        None \<Rightarrow> Inl (Atom ErrUnknownToken)
      | Some body \<Rightarrow> Inr (NewToken ty position (content @ body)))"
proof (induction ty position quote allow escaped content s rule: parseQuoted_loop.induct)
  case (1 ty position quote allow escaped content s)
  obtain x s1 where rd: "ts_read s = (x, s1)" by fastforce
  show ?case
  proof (cases "ts_view s")
    case Nil
    with clean_read_Nil [OF 1(4) Nil rd] rd show ?thesis
      by (simp add: parseQuoted_loop.simps [of ty position quote allow escaped content s])
  next
    case (Cons c cs)
    have x: "x = Inr (ts_position s, c)" by (rule clean_read_Cons [OF 1(4) Cons rd])
    then have C: "consumed s [c] s1" using ts_read_Inr rd by blast
    have v1: "ts_view s1 = cs" using consumed_view [OF C] Cons by simp
    show ?thesis
      using "1.IH" [OF rd [symmetric] x refl] consumed_clean [OF C 1(4)] rd x v1 Cons
      by (auto simp: parseQuoted_loop.simps [of ty position quote allow escaped content s]
          option.map_sel split: option.splits)
  qed
qed

lemma clean_number:
  assumes "ts_clean s" "c = CHR ''-'' \<or> isDigit c" "\<not> isWhitespace c" "parseNumber position c s = (r, s')"
  shows "r = Inr (mk_token position (the (ref_token c (ts_view s))))"
proof (cases "c = CHR ''-''")
  case False
  with assms clean_number_body show ?thesis
    by (auto simp: parseNumber_def ref_token_def)
next
  case True
  obtain q s1 where pk: "ts_peek s = (q, s1)" by fastforce
  have C1: "consumed s [] s1" by (rule ts_peek_consumed [OF pk])
  note K1 = consumed_clean [OF C1 assms(1)] and q = clean_peek [OF assms(1) pk]
  have v1: "ts_view s1 = ts_view s" using consumed_view [OF C1] by simp
  show ?thesis
  proof (cases "\<exists>d cs. ts_view s = d # cs \<and> isDigit d")
    case False
    with assms(3,4) True pk q show ?thesis
      by (auto simp: parseNumber_def parseSymbol_def ref_token_def mk_token_def split: list.splits)
  next
    case digit: True
    then obtain d cs where v: "ts_view s = d # cs" "isDigit d" by blast
    obtain x s2 where rd: "ts_read s1 = (x, s2)" by fastforce
    have x: "x = Inr (ts_position s1, d)"
      by (rule clean_read_Cons [OF K1 _ rd]) (simp add: v1 v)
    then have C2: "consumed s1 [d] s2" using ts_read_Inr rd by blast
    have "parseNumberBody position [c, d] s2 = (r, s')"
      using assms(4) True pk q v rd x by (simp add: parseNumber_def)
    from clean_number_body [OF consumed_clean [OF C2 K1] this] consumed_view [OF C2] v1 v True assms(3)
    show ?thesis by (simp add: ref_token_def)
  qed
qed

lemma clean_string:
  assumes "ts_clean s" "parseQuotedString ty position quote allow s = (r, s')"
  shows "r = (case ref_string ty allow quote (ts_view s) of
                None \<Rightarrow> Inl (Atom ErrUnknownToken) | Some tc \<Rightarrow> Inr (mk_token position tc))"
proof -
  have "r = fst (parseQuoted_loop ty position quote allow False [quote] s)"
    using assms(2) by (simp add: parseQuotedString_def)
  then show ?thesis
    using clean_quoted [OF assms(1), of ty position quote allow False "[quote]"]
    by (simp add: ref_string_def mk_token_def split: option.split)
qed

lemma clean_word:
  assumes "ts_clean s" "parseWord position c s = (r, s')"
  shows "r = Inr (NewToken TokenTypeWord position (c # takeWhile isWordChar (ts_view s)))"
proof -
  obtain q s1 where sc: "scan_while isWordChar [c] s = (q, s1)" by fastforce
  from clean_scan(1) [OF assms(1) sc] assms(2) sc show ?thesis by (simp add: parseWord_def)
qed

lemma clean_whitespace:
  "isWhitespace c \<Longrightarrow> fst (parseWhitespace position c s) = Inr (NewToken (ref_whitespace c) position [c])"
  by (auto simp: isWhitespace_def parseWhitespace_def ref_whitespace_def)

text \<open>One token: the scanner, with its buffer and its errors, computes the reference lexer.\<close>

lemma clean_token:
  assumes "ts_clean s" "ts_view s = c # cs"
  shows "fst (parseToken s) = (case ref_token c cs of
           None \<Rightarrow> Inl (Atom ErrUnknownToken) | Some tc \<Rightarrow> Inr (mk_token (ts_position s) tc))"
proof -
  obtain x s1 where rd: "ts_read s = (x, s1)" by fastforce
  have x: "x = Inr (ts_position s, c)" by (rule clean_read_Cons [OF assms rd])
  then have C: "consumed s [c] s1" using ts_read_Inr rd by blast
  have v1: "ts_view s1 = cs" using consumed_view [OF C] assms(2) by simp
  note K1 = consumed_clean [OF C assms(1)]
  have run: "parseToken s =
     (if isWhitespace c then parseWhitespace (ts_position s) c s1
      else if c = CHR ''-'' \<or> isDigit c then parseNumber (ts_position s) c s1
      else if isAlpha c then parseWord (ts_position s) c s1
      else if c = CHR 0x27 then parseQuotedString TokenTypeSingleQuoteString (ts_position s) c True s1
      else if c = CHR 0x22 then parseQuotedString TokenTypeDoubleQuoteString (ts_position s) c True s1
      else if c = CHR 0x60 then parseQuotedString TokenTypeDiagonalQuoteString (ts_position s) c False s1
      else parseSymbol (ts_position s) [c] s1)"
    using rd x by (simp add: parseToken_def parseSingleQuoteString_def parseDoubleQuoteString_def
        parseDiagonalQuoteString_def)
  consider (ws) "isWhitespace c" | (num) "\<not> isWhitespace c" "c = CHR ''-'' \<or> isDigit c"
    | (word) "\<not> isWhitespace c" "\<not> (c = CHR ''-'' \<or> isDigit c)" "isAlpha c"
    | (other) "\<not> isWhitespace c" "\<not> (c = CHR ''-'' \<or> isDigit c)" "\<not> isAlpha c"
    by blast
  then show ?thesis
  proof cases
    case ws
    with run clean_whitespace [OF ws] show ?thesis by (simp add: ref_token_def mk_token_def)
  next
    case num
    obtain r s' where pn: "parseNumber (ts_position s) c s1 = (r, s')" by fastforce
    have "ref_token c cs \<noteq> None"
      using num by (auto simp: ref_token_def split: list.split)
    with clean_number [OF K1 num(2,1) pn] run num pn v1 show ?thesis by auto
  next
    case word
    obtain r s' where pw: "parseWord (ts_position s) c s1 = (r, s')" by fastforce
    from clean_word [OF K1 pw] run word pw v1 show ?thesis
      by (simp add: ref_token_def mk_token_def)
  next
    case other
    have S: "fst (parseQuotedString ty (ts_position s) q allow s1) = (case ref_string ty allow q cs of
        None \<Rightarrow> Inl (Atom ErrUnknownToken) | Some tc \<Rightarrow> Inr (mk_token (ts_position s) tc))" for ty allow q
      using clean_string [OF K1, of ty "ts_position s" q allow] v1
      by (cases "parseQuotedString ty (ts_position s) q allow s1") auto
    from run other show ?thesis
      by (simp add: ref_token_def S parseSymbol_def mk_token_def)
  qed
qed

section \<open>The reference lexer on a whole input\<close>

lemma ref_decimal_ne: "pre \<noteq> [] \<Longrightarrow> snd (ref_decimal pre cs) \<noteq> []"
  by (auto simp: ref_decimal_def Let_def split: list.split)

lemma ref_number_ne: "pre \<noteq> [] \<Longrightarrow> snd (ref_number pre cs) \<noteq> []"
  by (auto simp: ref_number_def ref_decimal_ne split: list.split)

lemma ref_token_ne: "ref_token c cs = Some tc \<Longrightarrow> snd tc \<noteq> []"
  by (auto simp: ref_token_def ref_number_ne ref_string_def split: if_splits list.splits)

function ref_lex :: "position \<Rightarrow> byte list \<Rightarrow> token option list \<times> go_error option" where
  "ref_lex p [] = ([], None)"
| "ref_lex p (c # cs) =
     (case ref_token c cs of
        None \<Rightarrow> ([None], Some (Atom ErrUnknownToken))
      | Some tc \<Rightarrow>
          (case ref_lex (fold move (snd tc) p) (drop (length (snd tc)) (c # cs)) of
             (ts, e) \<Rightarrow> (Some (mk_token p tc) # ts, e)))"
  by pat_completeness auto
termination
  by (relation "measure (\<lambda>(p, bs). length bs)") (auto dest: ref_token_ne)

lemma clean_HasNext:
  assumes "ts_clean s" "ts_err s = None" "ts_HasNext s = (b, s')"
  shows "b \<longleftrightarrow> ts_view s \<noteq> []" "consumed s [] s'"
proof -
  obtain r s1 where pk: "ts_peek s = (r, s1)" by fastforce
  from assms pk clean_peek [OF assms(1) pk] ts_peek_consumed [OF pk]
  show "b \<longleftrightarrow> ts_view s \<noteq> []" "consumed s [] s'"
    by (auto simp: ts_HasNext_def split: list.splits)
qed

lemma clean_Err: "ts_clean s \<Longrightarrow> ts_err s = None \<Longrightarrow> ts_Err s = None"
  using clean_ok [of s] by (simp add: ts_Err_def pc_Err_def reader.pc_ok_def)

lemma materialize_ref:
  "ts_clean s \<Longrightarrow> ts_err s = None \<Longrightarrow>
     \<exists>s'. materialize_loop token_iter acc s = Some (acc @ fst (ref_lex (ts_position s) (ts_view s)), s')
          \<and> ts_Err s' = snd (ref_lex (ts_position s) (ts_view s))"
proof (induction "length (ts_view s)" arbitrary: s acc rule: less_induct)
  case less
  obtain b s1 where h: "ts_HasNext s = (b, s1)" by fastforce
  note B = clean_HasNext [OF less.prems h]
  note K1 = consumed_clean [OF B(2) less.prems(1)]
  have e1: "ts_err s1 = None" and v1: "ts_view s1 = ts_view s" and p1: "ts_position s1 = ts_position s"
    using B(2) less.prems(2) by (auto simp: consumed_def)
  show ?case
  proof (cases "ts_view s")
    case Nil
    then have "materialize_loop token_iter acc s = Some (acc, s1)"
      using h B(1) by (subst materialize_loop.simps) (auto simp: token_iter_def)
    with Nil clean_Err [OF K1 e1] show ?thesis by simp
  next
    case (Cons c cs)
    obtain r s2 where pt: "parseToken s1 = (r, s2)" by fastforce
    have R: "r = (case ref_token c cs of
        None \<Rightarrow> Inl (Atom ErrUnknownToken) | Some tc \<Rightarrow> Inr (mk_token (ts_position s) tc))"
      using clean_token [OF K1, of c cs] pt Cons v1 unfolding p1 by simp
    have go: "materialize_loop token_iter acc s =
        (case ts_Next s1 of (x, s2) \<Rightarrow> materialize_loop token_iter (acc @ [x]) s2)"
      using h B(1) Cons clean_Err [OF K1 e1]
      by (subst materialize_loop.simps) (simp add: token_iter_def)
    show ?thesis
    proof (cases "ref_token c cs")
      case None
      with go pt R Cons show ?thesis
        by (simp add: ts_Next_def materialize_err_stops ts_Err_def)
    next
      case (Some tc)
      with pt R have pt': "parseToken s1 = (Inr (mk_token (ts_position s) tc), s2)" by simp
      then have C2: "consumed s1 (snd tc) s2" and "snd tc \<noteq> []"
        using parseToken_consumed [of s1 _ s2] by (auto simp: mk_token_def NewToken_def)
      then have "length (ts_view s2) < length (ts_view s)" "ts_clean s2" "ts_err s2 = None"
        using v1 e1 consumed_clean [OF C2 K1] by (auto simp: consumed_def)
      note IH = less.hyps [OF this, of "acc @ [Some (mk_token (ts_position s) tc)]"]
      have "drop (length (snd tc)) (c # cs) = ts_view s2"
        using consumed_view [OF C2] v1 Cons by simp
      then have "ref_lex (ts_position s) (ts_view s) =
          (case ref_lex (ts_position s2) (ts_view s2) of (ts, e) \<Rightarrow> (Some (mk_token (ts_position s) tc) # ts, e))"
        using Some Cons C2 p1 by (simp add: consumed_def)
      with IH go pt' show ?thesis
        by (auto simp: ts_Next_def split: prod.splits)
    qed
  qed
qed

lemma Tokenize_ref:
  assumes "real_fault (rd_fault r) = None"
  shows "\<exists>s'. Materialize token_iter (Tokenize r) = Some (ref_lex start_position (rd_bytes r), s')"
proof -
  have "ts_clean (NewState r)" "ts_err (NewState r) = None"
    using assms by (simp_all add: ts_clean_def NewState_fresh) (simp add: NewState_def)
  from materialize_ref [OF this, of "[]"] show ?thesis
    by (auto simp: Materialize_def Tokenize_def token_iter_def NewState_fresh)
qed

section \<open>The languages of the token types\<close>

definition unsign :: "byte list \<Rightarrow> byte list" where
  "unsign w = (case w of c # r \<Rightarrow> if c = CHR ''-'' then r else w | [] \<Rightarrow> [])"

definition all_digits :: "byte list \<Rightarrow> bool" where
  "all_digits w \<longleftrightarrow> w \<noteq> [] \<and> list_all isDigit w"

definition based :: "byte list \<Rightarrow> (byte \<Rightarrow> bool) \<Rightarrow> byte list \<Rightarrow> bool" where
  "based marks p w \<longleftrightarrow>
     (case unsign w of z # x # r \<Rightarrow> z = CHR ''0'' \<and> x \<in> set marks \<and> r \<noteq> [] \<and> list_all p r | _ \<Rightarrow> False)"

text \<open>A quoted body: no closing quote before the end, a backslash takes the next byte with it.\<close>

fun quoted_body :: "bool \<Rightarrow> byte \<Rightarrow> byte list \<Rightarrow> bool" where
  "quoted_body allow q [] = False"
| "quoted_body allow q [c] = (c = q \<and> \<not> (allow \<and> c = CHR 0x5C))"
| "quoted_body allow q (c # d # r) =
     (if allow \<and> c = CHR 0x5C then quoted_body allow q r else c \<noteq> q \<and> quoted_body allow q (d # r))"

definition quoted :: "bool \<Rightarrow> byte \<Rightarrow> byte list \<Rightarrow> bool" where
  "quoted allow q w \<longleftrightarrow> (case w of c # body \<Rightarrow> c = q \<and> quoted_body allow q body | [] \<Rightarrow> False)"

fun token_lang :: "token_type \<Rightarrow> byte list \<Rightarrow> bool" where
  "token_lang TokenTypeSpace w = (w = '' '')"
| "token_lang TokenTypeTab w = (w = [CHR 0x09])"
| "token_lang TokenTypeCarriageReturn w = (w = [CHR 0x0D])"
| "token_lang TokenTypeNewLine w = (w = [CHR 0x0A])"
| "token_lang TokenTypeNumber w = all_digits (unsign w)"
| "token_lang TokenTypeFloat w =
     (let u = unsign w in all_digits (takeWhile isDigit u)
      \<and> (case dropWhile isDigit u of c # r \<Rightarrow> c = CHR ''.'' \<and> all_digits r | [] \<Rightarrow> False))"
| "token_lang TokenTypeHexDecimal w = based ''xX'' isHexDigit w"
| "token_lang TokenTypeBinary w = based ''bB'' isBinaryDigit w"
| "token_lang TokenTypeSingleQuoteString w = quoted True (CHR 0x27) w"
| "token_lang TokenTypeDoubleQuoteString w = quoted True (CHR 0x22) w"
| "token_lang TokenTypeDiagonalQuoteString w = quoted False (CHR 0x60) w"
| "token_lang TokenTypeWord w = (case w of c # r \<Rightarrow> isAlpha c \<and> list_all isWordChar r | [] \<Rightarrow> False)"
| "token_lang TokenTypeSymbol w =
     (case w of [c] \<Rightarrow> \<not> isWhitespace c \<and> \<not> isDigit c \<and> \<not> isAlpha c
                       \<and> c \<notin> {CHR 0x27, CHR 0x22, CHR 0x60} | _ \<Rightarrow> False)"

text \<open>A number starts with a digit or with a sign and a digit.\<close>

definition number_start :: "byte list \<Rightarrow> bool" where
  "number_start pre \<longleftrightarrow> (\<exists>d. isDigit d \<and> (pre = [d] \<or> pre = [CHR ''-'', d]))"

lemma isDigit_minus [simp]: "\<not> isDigit (CHR ''-'')"
  by (simp add: isDigit_def less_eq_char_simp)

lemma isDigit_dot [simp]: "\<not> isDigit (CHR ''.'')"
  by (simp add: isDigit_def less_eq_char_simp)

lemma list_all_takeWhile [simp]: "list_all p (takeWhile p xs)"
  by (induction xs) auto

lemma unsign_start: "number_start pre \<Longrightarrow> \<exists>d. isDigit d \<and> unsign (pre @ w) = d # w"
  by (auto simp: number_start_def unsign_def)

lemma ref_decimal_lang:
  assumes "number_start pre" "ref_decimal pre cs = (ty, w)"
  shows "token_lang ty w"
proof -
  let ?ds = "takeWhile isDigit cs"
  from unsign_start [OF assms(1)] have U: "\<exists>d. isDigit d \<and> unsign (pre @ v) = d # v" for v by blast
  have N: "token_lang TokenTypeNumber (pre @ ?ds)"
    using U [of ?ds] by (auto simp: all_digits_def)
  have F: "token_lang TokenTypeFloat (pre @ ?ds @ CHR ''.'' # takeWhile isDigit (d # r))" if "isDigit d" for d r
    using U [of "?ds @ CHR ''.'' # takeWhile isDigit (d # r)"] that
    by (auto simp: all_digits_def Let_def takeWhile_append dropWhile_append dest: set_takeWhileD)
  show ?thesis
    using assms(2) N F
    by (auto simp: ref_decimal_def Let_def simp del: token_lang.simps split: list.splits if_splits)
qed

lemma ref_number_lang:
  assumes "number_start pre" "ref_number pre cs = (ty, w)"
  shows "token_lang ty w"
proof -
  have dec: "token_lang ty w" if "ref_decimal pre cs = (ty, w)"
    using ref_decimal_lang [OF assms(1) that] .
  show ?thesis
  proof (cases "ref_number pre cs = ref_decimal pre cs")
    case True
    with assms(2) dec show ?thesis by simp
  next
    case False
    then obtain p d r where cs: "cs = p # d # r" and pre: "pre = ''0'' \<or> pre = ''-0''"
      by (cases cs; cases "tl cs") (auto simp: ref_number_def split: if_splits)
    have B: "based marks q (pre @ p # d # takeWhile q r)" if "p \<in> set marks" "q d" for marks q
      using that pre by (auto simp: based_def unsign_def)
    have "(ty, w) = (TokenTypeHexDecimal, pre @ p # d # takeWhile isHexDigit r) \<and> p \<in> set ''xX'' \<and> isHexDigit d
        \<or> (ty, w) = (TokenTypeBinary, pre @ p # d # takeWhile isBinaryDigit r) \<and> p \<in> set ''bB'' \<and> isBinaryDigit d"
      using assms(2) False pre unfolding ref_number_def cs by (simp split: if_splits)
    then show ?thesis using B by auto
  qed
qed

lemma ref_quoted_body:
  "ref_quoted allow q esc cs = Some w \<Longrightarrow> q \<noteq> CHR 0x5C \<Longrightarrow> (esc \<longrightarrow> allow) \<Longrightarrow>
     (if esc then w \<noteq> [] \<and> quoted_body allow q (tl w) else quoted_body allow q w)"
proof (induction allow q esc cs arbitrary: w rule: ref_quoted.induct)
  case (2 allow q esc c cs)
  then show ?case
    by (cases "allow \<and> esc"; cases "allow \<and> c = CHR 0x5C"; cases "c = q")
      (auto split: if_splits elim: quoted_body.elims simp: neq_Nil_conv)
qed simp

lemma ref_string_lang:
  assumes "ref_string ty allow q cs = Some (ty', w)" "q \<noteq> CHR 0x5C"
  shows "ty' = ty \<and> quoted allow q w"
  using assms ref_quoted_body [of allow q False cs] by (auto simp: ref_string_def quoted_def)

lemma ref_token_lang:
  assumes "ref_token c cs = Some (ty, w)"
  shows "token_lang ty w"
proof -
  have num: "ref_number pre r = (ty, w) \<Longrightarrow> number_start pre \<Longrightarrow> token_lang ty w" for pre r
    using ref_number_lang by blast
  consider (ws) "isWhitespace c" | (minus) "\<not> isWhitespace c" "c = CHR ''-''"
    | (digit) "\<not> isWhitespace c" "c \<noteq> CHR ''-''" "isDigit c"
    | (rest) "\<not> isWhitespace c" "c \<noteq> CHR ''-''" "\<not> isDigit c" by blast
  then show ?thesis
  proof cases
    case ws
    with assms show ?thesis by (auto simp: ref_token_def ref_whitespace_def isWhitespace_def)
  next
    case minus
    with assms num [of "[c, hd cs]" "tl cs"] show ?thesis
      by (auto simp: ref_token_def number_start_def isAlpha_def less_eq_char_simp split: list.splits if_splits)
  next
    case digit
    with assms num [of "[c]" cs] show ?thesis by (auto simp: ref_token_def number_start_def)
  next
    case rest
    with assms show ?thesis
      by (auto simp: ref_token_def dest!: ref_string_lang split: if_splits)
  qed
qed

lemma ref_lex_lang:
  "Some t \<in> set (fst (ref_lex p bs)) \<Longrightarrow> token_lang (tok_type t) (tok_content t)"
proof (induction p bs rule: ref_lex.induct)
  case (2 p c cs)
  then show ?case
    by (auto simp: mk_token_def NewToken_def ref_token_lang split: option.splits prod.splits)
qed simp

section \<open>Positions of a run\<close>

lemma fold_move:
  "fold move bs p =
     \<lparr>pos_offset = pos_offset p + of_nat (length bs),
      pos_column = (if CHR 0x0A \<in> set bs then of_nat (length (takeWhile (\<lambda>c. c \<noteq> CHR 0x0A) (rev bs)))
                    else pos_column p + of_nat (length bs)),
      pos_line = pos_line p + of_nat (count_list bs (CHR 0x0A))\<rparr>"
proof (induction bs arbitrary: p)
  case (Cons c bs)
  have "takeWhile (\<lambda>c. c \<noteq> CHR 0x0A) (rev bs @ [c]) =
      (if CHR 0x0A \<in> set bs then takeWhile (\<lambda>c. c \<noteq> CHR 0x0A) (rev bs)
       else rev bs @ (if c = CHR 0x0A then [] else [c]))"
    by (auto simp: takeWhile_append)
  with Cons show ?case by (simp add: move_def)
qed simp

lemma positioned_nth:
  "positioned p ts \<Longrightarrow> i < length ts \<Longrightarrow> tok_position (ts ! i) = fold move (contents (take i ts)) p"
proof (induction p ts arbitrary: i rule: positioned.induct)
  case (2 p t ts)
  then show ?case by (cases i) auto
qed simp

lemma contents_slice:
  "i < length ts \<Longrightarrow>
     take (length (tok_content (ts ! i))) (drop (length (contents (take i ts))) (contents ts)) = tok_content (ts ! i)"
proof (induction ts arbitrary: i)
  case (Cons t ts)
  then show ?case by (cases i) auto
qed simp

lemma contents_nth_le:
  "i < length ts \<Longrightarrow> length (contents (take i ts)) + length (tok_content (ts ! i)) \<le> length (contents ts)"
proof (induction ts arbitrary: i)
  case (Cons t ts)
  then show ?case by (cases i) fastforce+
qed simp

section \<open>Properties of the tokenizer\<close>

text \<open>C1: no byte is lost and no failure is hidden. If \<open>Materialize\<close> over \<open>Tokenize\<close> reports no
  error, then the reader did not fail, no nil token was produced, and the contents of the tokens,
  one after the other, are exactly the bytes of the source.\<close>

theorem tokenize_success_complete:
  assumes "Materialize token_iter (Tokenize r) = Some ((toks, None), s')"
  shows "real_fault (rd_fault r) = None \<and> None \<notin> set toks
         \<and> concat (map (\<lambda>t. tok_content (the t)) toks) = rd_bytes r"
proof -
  obtain toks' s'' where "Materialize token_iter (Tokenize r) = Some ((toks', ts_Err s''), s'')"
      "run_ok (Tokenize r) toks' s''" using Tokenize_run by blast
  with assms obtain ts where "ts_fault (NewState r) = None" "toks = map Some ts"
      "contents ts = ts_view (NewState r)" by (auto simp: run_ok_def Tokenize_def)
  then show ?thesis by (auto simp: NewState_fresh comp_def)
qed

definition example_reader :: reader where
  "example_reader = \<lparr>rd_bytes = ''n_1 = -0x2F\<newline>`a`'', rd_fault = None\<rparr>"

definition example_tokens :: "token list" where
  "example_tokens =
     [NewToken TokenTypeWord \<lparr>pos_offset = 0, pos_column = 0, pos_line = 1\<rparr> ''n_1'',
      NewToken TokenTypeSpace \<lparr>pos_offset = 3, pos_column = 3, pos_line = 1\<rparr> '' '',
      NewToken TokenTypeSymbol \<lparr>pos_offset = 4, pos_column = 4, pos_line = 1\<rparr> ''='',
      NewToken TokenTypeSpace \<lparr>pos_offset = 5, pos_column = 5, pos_line = 1\<rparr> '' '',
      NewToken TokenTypeHexDecimal \<lparr>pos_offset = 6, pos_column = 6, pos_line = 1\<rparr> ''-0x2F'',
      NewToken TokenTypeNewLine \<lparr>pos_offset = 11, pos_column = 11, pos_line = 1\<rparr> [CHR 0x0A],
      NewToken TokenTypeDiagonalQuoteString \<lparr>pos_offset = 12, pos_column = 0, pos_line = 2\<rparr> ''`a`'']"

lemma example_lex:
  "ref_lex start_position (rd_bytes example_reader) = (map Some example_tokens, None)"
  by code_simp

lemma example_no_fault: "real_fault (rd_fault example_reader) = None"
  by (simp add: example_reader_def real_fault_def)

lemma example_run:
  "\<exists>s'. Materialize token_iter (Tokenize example_reader) = Some ((map Some example_tokens, None), s')"
  using Tokenize_ref [OF example_no_fault] by (simp add: example_lex)

lemma tokenize_success_complete_witness:
  "\<exists>toks s'. Materialize token_iter (Tokenize example_reader) = Some ((toks, None), s')
     \<and> concat (map (\<lambda>t. tok_content (the t)) toks) = ''n_1 = -0x2F'' @ [CHR 0x0A] @ ''`a`''"
proof -
  obtain s' where run: "Materialize token_iter (Tokenize example_reader) = Some ((map Some example_tokens, None), s')"
    using example_run by blast
  from tokenize_success_complete [OF run] run show ?thesis
    by (auto simp: example_reader_def)
qed

text \<open>C2: the scanner refines the reference lexer. On a reader that does not fail, \<open>Materialize\<close>
  over \<open>Tokenize\<close> returns exactly the tokens, the positions and the error that the reference
  lexer computes from the bytes by maximal prefixes.\<close>

theorem tokenize_refines_reference:
  assumes "real_fault (rd_fault r) = None"
  shows "\<exists>s'. Materialize token_iter (Tokenize r) = Some (ref_lex start_position (rd_bytes r), s')"
  by (rule Tokenize_ref [OF assms])

lemma tokenize_refines_reference_witness:
  "\<exists>s'. Materialize token_iter (Tokenize \<lparr>rd_bytes = ''\"a'', rd_fault = Some (Atom EOF)\<rparr>)
        = Some (([None], Some (Atom ErrUnknownToken)), s')"
proof -
  have "real_fault (rd_fault \<lparr>rd_bytes = ''\"a'', rd_fault = Some (Atom EOF)\<rparr>) = None"
    by (simp add: real_fault_def)
  moreover have "ref_lex start_position ''\"a'' = ([None], Some (Atom ErrUnknownToken))" by code_simp
  ultimately show ?thesis
    using tokenize_refines_reference [of "\<lparr>rd_bytes = ''\"a'', rd_fault = Some (Atom EOF)\<rparr>"] by simp
qed

text \<open>C3: tokenizing always ends, whatever bytes the reader delivers and however it fails.\<close>

theorem tokenize_terminates:
  "\<exists>toks e s'. Materialize token_iter (Tokenize r) = Some ((toks, e), s')"
  using Tokenize_run [of r] by blast

text \<open>Every token of a run that reports no error belongs to the language of its type: numbers are
  an optional sign and digits, floats have digits on both sides of one dot, base-prefixed numbers
  have at least one digit of their base, words start with a letter, strings are closed by their own
  quote and by no earlier one, symbols are one byte of no other class.\<close>

lemma tokenize_token_languages:
  assumes "Materialize token_iter (Tokenize r) = Some ((toks, None), s')"
  shows "list_all (\<lambda>t. token_lang (tok_type (the t)) (tok_content (the t))) toks"
proof -
  obtain toks' s'' where run: "Materialize token_iter (Tokenize r) = Some ((toks', ts_Err s''), s'')"
      "run_ok (Tokenize r) toks' s''" using Tokenize_run by blast
  with assms have "real_fault (rd_fault r) = None" and some: "\<exists>ts. toks = map Some ts"
    by (auto simp: run_ok_def Tokenize_def NewState_fresh)
  from Tokenize_ref [OF this(1)] assms have "toks = fst (ref_lex start_position (rd_bytes r))"
    by (metis fst_conv option.inject)
  then have "token_lang (tok_type t) (tok_content t)" if "Some t \<in> set toks" for t
    using that ref_lex_lang by blast
  with some show ?thesis by (auto simp: list_all_iff)
qed

lemma tokenize_token_languages_witness:
  "\<exists>toks s'. Materialize token_iter (Tokenize example_reader) = Some ((toks, None), s')
     \<and> toks \<noteq> [] \<and> list_all (\<lambda>t. token_lang (tok_type (the t)) (tok_content (the t))) toks"
proof -
  obtain s' where run: "Materialize token_iter (Tokenize example_reader) = Some ((map Some example_tokens, None), s')"
    using example_run by blast
  from tokenize_token_languages [OF run] run show ?thesis by (auto simp: example_tokens_def)
qed

text \<open>C4: positions are right. In a run without error, the bytes of the source from a token's offset,
  as many as its \<open>Length\<close>, are its content; its line is one plus the number of newlines before it
  and its column the number of bytes since the last newline.\<close>

theorem tokenize_positions:
  assumes "Materialize token_iter (Tokenize r) = Some ((toks, None), s')"
    and "i < length toks" and "length (rd_bytes r) < 2 ^ 64"
  shows "let t = the (toks ! i); src = rd_bytes r; before = take (unat (pos_offset (tok_position t))) src in
         take (unat (tok_Length t)) (drop (unat (pos_offset (tok_position t))) src) = tok_content t
         \<and> pos_line (tok_position t) = 1 + of_nat (count_list before (CHR 0x0A))
         \<and> pos_column (tok_position t) = of_nat (length (takeWhile (\<lambda>c. c \<noteq> CHR 0x0A) (rev before)))"
proof -
  obtain toks' s'' where "Materialize token_iter (Tokenize r) = Some ((toks', ts_Err s''), s'')"
      "run_ok (Tokenize r) toks' s''" using Tokenize_run by blast
  with assms(1) obtain ts where ts: "toks = map Some ts" "contents ts = rd_bytes r" "positioned start_position ts"
    by (auto simp: run_ok_def Tokenize_def NewState_fresh)
  with assms(2) have i: "i < length ts" by simp
  let ?b = "contents (take i ts)"
  let ?t = "ts ! i"
  have pos: "tok_position ?t = fold move ?b start_position" by (rule positioned_nth [OF ts(3) i])
  have le: "length ?b + length (tok_content ?t) \<le> length (rd_bytes r)"
    using contents_nth_le [OF i] ts(2) by simp
  have off: "unat (pos_offset (tok_position ?t)) = length ?b"
    using le assms(3) by (simp add: pos fold_move unat_of_nat take_bit_nat_eq_self)
  have len: "unat (tok_Length ?t) = length (tok_content ?t)"
    using le assms(3) by (simp add: tok_Length_def unat_of_nat take_bit_nat_eq_self)
  have "contents ts = ?b @ contents (drop i ts)"
    by (metis append_take_drop_id concat_append map_append)
  then have before: "take (length ?b) (rd_bytes r) = ?b" using ts(2) by (metis append_eq_conv_conj)
  have slice: "take (length (tok_content ?t)) (drop (length ?b) (rd_bytes r)) = tok_content ?t"
    using contents_slice [OF i] ts(2) by simp
  have "pos_line (fold move b start_position) = 1 + of_nat (count_list b (CHR 0x0A))
      \<and> pos_column (fold move b start_position) = of_nat (length (takeWhile (\<lambda>c. c \<noteq> CHR 0x0A) (rev b)))"
    for b
  proof (cases "CHR 0x0A \<in> set b")
    case False
    then have "takeWhile (\<lambda>c. c \<noteq> CHR 0x0A) (rev b) = rev b" by (auto simp: takeWhile_eq_all_conv)
    with False show ?thesis by (simp only: fold_move) simp
  qed (simp add: fold_move)
  then have "pos_line (tok_position ?t) = 1 + of_nat (count_list ?b (CHR 0x0A))
      \<and> pos_column (tok_position ?t) = of_nat (length (takeWhile (\<lambda>c. c \<noteq> CHR 0x0A) (rev ?b)))"
    unfolding pos .
  moreover have "the (toks ! i) = ?t" using ts(1) i by simp
  ultimately show ?thesis
    unfolding Let_def using slice before by (simp only: off len)
qed

lemma tokenize_positions_witness:
  "\<exists>toks s'. Materialize token_iter (Tokenize example_reader) = Some ((toks, None), s')
     \<and> pos_line (tok_position (the (toks ! 6))) = 2 \<and> pos_column (tok_position (the (toks ! 6))) = 0
     \<and> take 3 (drop 12 (rd_bytes example_reader)) = ''`a`''"
proof -
  obtain s' where run: "Materialize token_iter (Tokenize example_reader) = Some ((map Some example_tokens, None), s')"
    using example_run by blast
  from tokenize_positions [OF run, of 6] run show ?thesis
    by (auto simp: example_tokens_def example_reader_def NewToken_def Let_def)
qed

end
