(* ===== verification/Retries.thy ===== *)
theory Retries
  imports Complex_Main Go_Base
begin

text \<open>
  The package \<^verbatim>\<open>retry\<close>: policies with their options (\<^verbatim>\<open>policy.go\<close>), the predicates that decide
  whether a request is repeated, the backoff, and the two retry loops (\<^verbatim>\<open>retry.go\<close>).

  The loops run an arbitrary operation under a context. Both are part of the environment
  \<open>retry_env\<close>, whose functions act on a state \<open>'w\<close>: the operation, a look at the context, and a
  wait that the context may interrupt. Log lines are left out. For the properties the environment
  is instrumented with the list of what happened (\<open>traced\<close>), which does not change what the loops
  compute (\<open>Do_erase\<close>).

  Durations are int64 nanoseconds, modelled as integers; \<open>float64\<close> is the record \<open>go_float\<close> of what
  Go leaves to the platform: rounding, \<open>math.Pow\<close>, and the value of a conversion out of range.
\<close>

section \<open>Policies\<close>

record policy =
  EnabledValue :: bool
  MaxAttemptsValue :: int
  InitialIntervalValue :: int
  BackoffCoefficientValue :: real
  MaxIntervalValue :: int
  RetryNonIdempotentValue :: bool

type_synonym policy_option = "policy \<Rightarrow> policy"

definition WithEnabled :: "bool \<Rightarrow> policy_option" where
  "WithEnabled b p = p\<lparr>EnabledValue := b\<rparr>"

definition WithMaxAttempts :: "int \<Rightarrow> policy_option" where
  "WithMaxAttempts n p = p\<lparr>MaxAttemptsValue := n\<rparr>"

definition WithInitialInterval :: "int \<Rightarrow> policy_option" where
  "WithInitialInterval d p = p\<lparr>InitialIntervalValue := d\<rparr>"

definition WithBackoffCoefficient :: "real \<Rightarrow> policy_option" where
  "WithBackoffCoefficient c p = p\<lparr>BackoffCoefficientValue := c\<rparr>"

definition WithMaxInterval :: "int \<Rightarrow> policy_option" where
  "WithMaxInterval d p = p\<lparr>MaxIntervalValue := d\<rparr>"

definition WithRetryNonIdempotent :: "bool \<Rightarrow> policy_option" where
  "WithRetryNonIdempotent b p = p\<lparr>RetryNonIdempotentValue := b\<rparr>"

abbreviation millisecond :: int where "millisecond \<equiv> 1000000"
abbreviation second :: int where "second \<equiv> 1000000000"

definition NewPolicy :: "policy_option list \<Rightarrow> policy" where
  "NewPolicy opts =
     fold (\<lambda>opt p. opt p) opts
       \<lparr>EnabledValue = False, MaxAttemptsValue = 3, InitialIntervalValue = 100 * millisecond,
        BackoffCoefficientValue = 2, MaxIntervalValue = 5 * second, RetryNonIdempotentValue = False\<rparr>"

section \<open>What is retried\<close>

definition upper_char :: "char \<Rightarrow> char" where
  "upper_char c = (if CHR ''a'' \<le> c \<and> c \<le> CHR ''z'' then char_of (of_char c - 32 :: nat) else c)"

text \<open>Methods are ASCII, as HTTP has them; \<open>strings.ToUpper\<close> is then \<open>upper_char\<close> on every byte.\<close>

definition ToUpper :: "string \<Rightarrow> string" where
  "ToUpper s = map upper_char s"

definition idempotentMethods :: "string set" where
  "idempotentMethods = {''GET'', ''HEAD'', ''PUT'', ''DELETE'', ''OPTIONS'', ''TRACE''}"

definition IsIdempotentMethod :: "string \<Rightarrow> bool" where
  "IsIdempotentMethod m = (let m' = (if m = [] then ''GET'' else m) in ToUpper m' \<in> idempotentMethods)"

definition ShouldRetryMethod :: "string \<Rightarrow> policy option \<Rightarrow> bool" where
  "ShouldRetryMethod m p =
     (if (case p of Some pol \<Rightarrow> RetryNonIdempotentValue pol | None \<Rightarrow> False) then True
      else IsIdempotentMethod m)"

text \<open>\<open>timeout\<close> and \<open>op_error\<close> are the two \<open>errors.As\<close> tests on errors of the package \<^verbatim>\<open>net\<close>.\<close>

definition ShouldRetry ::
  "(go_error \<Rightarrow> bool) \<Rightarrow> (go_error \<Rightarrow> bool) \<Rightarrow> int \<Rightarrow> go_error option \<Rightarrow> bool" where
  "ShouldRetry timeout op_error statusCode err =
     (if err \<noteq> None \<and> (is_err err ContextDeadlineExceeded \<or> is_err err ContextCanceled) then False
      else if 500 \<le> statusCode \<and> statusCode < 600 then True
      else if statusCode = 429 then True
      else if statusCode > 0 then False
      else (case err of
              Some e \<Rightarrow> if timeout e then True else if op_error e then True else True
            | None \<Rightarrow> False))"

section \<open>Backoff\<close>

record go_float =
  f_round :: "real \<Rightarrow> real"
  f_pow :: "real \<Rightarrow> nat \<Rightarrow> real"
  f_wild :: "real \<Rightarrow> int"

abbreviation trunc :: "real \<Rightarrow> int" where
  "trunc x \<equiv> (if 0 \<le> x then \<lfloor>x\<rfloor> else \<lceil>x\<rceil>)"

text \<open>\<open>time.Duration(x)\<close> of a float: truncation, when the result fits into an int64.\<close>

definition to_duration :: "go_float \<Rightarrow> real \<Rightarrow> int" where
  "to_duration fl x = (if - (2 ^ 63) \<le> trunc x \<and> trunc x < 2 ^ 63 then trunc x else f_wild fl x)"

definition CalculateBackoff :: "go_float \<Rightarrow> nat \<Rightarrow> policy option \<Rightarrow> int" where
  "CalculateBackoff fl attempt p =
     (case p of
        None \<Rightarrow> 0
      | Some pol \<Rightarrow>
          (let backoff = f_round fl (f_round fl (real_of_int (InitialIntervalValue pol)) *
                                     f_pow fl (BackoffCoefficientValue pol) attempt)
           in if MaxIntervalValue pol > 0 \<and> to_duration fl backoff > MaxIntervalValue pol
              then MaxIntervalValue pol
              else to_duration fl backoff))"

section \<open>The retry loops\<close>

text \<open>
  \<open>re_ctx\<close> is the non-blocking look at \<open>ctx.Done()\<close>, with \<open>ctx.Err()\<close> when it is closed; \<open>re_wait d\<close>
  is the select between \<open>ctx.Done()\<close> and \<open>time.After(d)\<close>, true when the context won.
\<close>

record ('w, 'v) retry_env =
  re_op :: "'w \<Rightarrow> ('v \<times> go_error option) \<times> 'w"
  re_ctx :: "'w \<Rightarrow> go_error option \<times> 'w"
  re_wait :: "int \<Rightarrow> 'w \<Rightarrow> bool \<times> 'w"

fun do_loop ::
  "go_float \<Rightarrow> ('w, 'v) retry_env \<Rightarrow> 'v \<Rightarrow> policy \<Rightarrow> nat \<Rightarrow> nat \<Rightarrow> 'v \<times> go_error option \<Rightarrow> 'w
   \<Rightarrow> ('v \<times> go_error option) \<times> 'w" where
  "do_loop fl env zero pol 0 attempt prev w = (prev, w)"
| "do_loop fl env zero pol (Suc left) attempt prev w =
     (case re_ctx env w of
        (Some e, w1) \<Rightarrow> if snd prev \<noteq> None then (prev, w1) else ((zero, Some e), w1)
      | (None, w1) \<Rightarrow>
          (case re_op env w1 of
             ((result, None), w2) \<Rightarrow> ((result, None), w2)
           | ((result, Some e), w2) \<Rightarrow>
               if int attempt \<ge> MaxAttemptsValue pol - 1 then ((result, Some e), w2)
               else (case re_wait env (CalculateBackoff fl attempt (Some pol)) w2 of
                       (True, w3) \<Rightarrow> ((result, Some e), w3)
                     | (False, w3) \<Rightarrow> do_loop fl env zero pol left (Suc attempt) (result, Some e) w3)))"

definition Do ::
  "go_float \<Rightarrow> ('w, 'v) retry_env \<Rightarrow> 'v \<Rightarrow> policy option \<Rightarrow> 'w \<Rightarrow> ('v \<times> go_error option) \<times> 'w" where
  "Do fl env zero p w =
     (case p of
        None \<Rightarrow> re_op env w
      | Some pol \<Rightarrow>
          if \<not> EnabledValue pol \<or> MaxAttemptsValue pol \<le> 1 then re_op env w
          else do_loop fl env zero pol (nat (MaxAttemptsValue pol)) 0 (zero, None) w)"

fun do_cond_loop ::
  "go_float \<Rightarrow> ('w, 'v) retry_env \<Rightarrow> 'v \<Rightarrow> policy \<Rightarrow> ('v \<Rightarrow> go_error option \<Rightarrow> bool) \<Rightarrow> nat \<Rightarrow> nat
   \<Rightarrow> 'v \<times> go_error option \<Rightarrow> 'w \<Rightarrow> ('v \<times> go_error option) \<times> 'w" where
  "do_cond_loop fl env zero pol shouldRetry 0 attempt prev w = (prev, w)"
| "do_cond_loop fl env zero pol shouldRetry (Suc left) attempt prev w =
     (case re_ctx env w of
        (Some e, w1) \<Rightarrow> if snd prev \<noteq> None then (prev, w1) else ((zero, Some e), w1)
      | (None, w1) \<Rightarrow>
          (case re_op env w1 of
             ((result, err), w2) \<Rightarrow>
               if \<not> shouldRetry result err then ((result, err), w2)
               else if int attempt \<ge> MaxAttemptsValue pol - 1 then ((result, err), w2)
               else (case re_wait env (CalculateBackoff fl attempt (Some pol)) w2 of
                       (True, w3) \<Rightarrow> ((result, err), w3)
                     | (False, w3) \<Rightarrow>
                         do_cond_loop fl env zero pol shouldRetry left (Suc attempt) (result, err) w3)))"

definition DoWithCondition ::
  "go_float \<Rightarrow> ('w, 'v) retry_env \<Rightarrow> 'v \<Rightarrow> policy option \<Rightarrow> ('v \<Rightarrow> go_error option \<Rightarrow> bool) \<Rightarrow> 'w
   \<Rightarrow> ('v \<times> go_error option) \<times> 'w" where
  "DoWithCondition fl env zero p shouldRetry w =
     (case p of
        None \<Rightarrow> re_op env w
      | Some pol \<Rightarrow>
          if \<not> EnabledValue pol \<or> MaxAttemptsValue pol \<le> 1 then re_op env w
          else do_cond_loop fl env zero pol shouldRetry (nat (MaxAttemptsValue pol)) 0 (zero, None) w)"

section \<open>What the loops may do\<close>

datatype 'v retry_event =
    EvCheck "go_error option"
  | EvCall 'v "go_error option"
  | EvWait int bool

definition traced :: "('w, 'v) retry_env \<Rightarrow> ('w \<times> 'v retry_event list, 'v) retry_env" where
  "traced env =
     \<lparr>re_op = (\<lambda>(w, tr). case re_op env w of (r, w') \<Rightarrow> (r, w', tr @ [EvCall (fst r) (snd r)])),
      re_ctx = (\<lambda>(w, tr). case re_ctx env w of (e, w') \<Rightarrow> (e, w', tr @ [EvCheck e])),
      re_wait = (\<lambda>d (w, tr). case re_wait env d w of (b, w') \<Rightarrow> (b, w', tr @ [EvWait d b]))\<rparr>"

text \<open>
  The contract of a retry loop as a language of runs: \<open>retry_run\<close> with the backoff of each attempt,
  the number of attempts, the condition, and the number and outcome of the attempt before.
\<close>

inductive retry_run ::
  "(nat \<Rightarrow> int) \<Rightarrow> int \<Rightarrow> ('v \<Rightarrow> go_error option \<Rightarrow> bool) \<Rightarrow> 'v \<Rightarrow> nat \<Rightarrow> 'v \<times> go_error option
   \<Rightarrow> 'v retry_event list \<Rightarrow> 'v \<times> go_error option \<Rightarrow> bool"
  for backoff :: "nat \<Rightarrow> int" and limit :: int and cond and zero :: 'v where
  cancelled: "res = (if snd prev \<noteq> None then prev else (zero, Some e)) \<Longrightarrow>
     retry_run backoff limit cond zero n prev [EvCheck (Some e)] res"
| accepted: "\<not> cond v err \<Longrightarrow>
     retry_run backoff limit cond zero n prev [EvCheck None, EvCall v err] (v, err)"
| exhausted: "cond v err \<Longrightarrow> limit - 1 \<le> int n \<Longrightarrow>
     retry_run backoff limit cond zero n prev [EvCheck None, EvCall v err] (v, err)"
| interrupted: "cond v err \<Longrightarrow> int n < limit - 1 \<Longrightarrow>
     retry_run backoff limit cond zero n prev [EvCheck None, EvCall v err, EvWait (backoff n) True] (v, err)"
| again: "cond v err \<Longrightarrow> int n < limit - 1 \<Longrightarrow>
     retry_run backoff limit cond zero (Suc n) (v, err) tr res \<Longrightarrow>
     retry_run backoff limit cond zero n prev
       (EvCheck None # EvCall v err # EvWait (backoff n) False # tr) res"

lemma traced_simps [simp]:
  "re_op (traced env) (w, tr) = (case re_op env w of (r, w') \<Rightarrow> (r, w', tr @ [EvCall (fst r) (snd r)]))"
  "re_ctx (traced env) (w, tr) = (case re_ctx env w of (e, w') \<Rightarrow> (e, w', tr @ [EvCheck e]))"
  "re_wait (traced env) d (w, tr) = (case re_wait env d w of (b, w') \<Rightarrow> (b, w', tr @ [EvWait d b]))"
  by (simp_all add: traced_def)

lemma do_loop_is_cond_loop:
  "do_loop fl env zero pol left n prev w
   = do_cond_loop fl env zero pol (\<lambda>v e. e \<noteq> None) left n prev w"
  by (induction left arbitrary: n prev w) (auto split: prod.splits option.splits bool.splits)

lemma do_cond_loop_erase:
  "\<exists>tr'. do_cond_loop fl (traced env) zero pol c left n prev (w, tr)
     = (fst (do_cond_loop fl env zero pol c left n prev w), snd (do_cond_loop fl env zero pol c left n prev w), tr')"
  by (induction left arbitrary: n prev w tr) (simp_all split: prod.split option.split bool.split)

lemma do_cond_loop_run:
  assumes "left > 0" "int n + int left = MaxAttemptsValue pol"
  shows "\<exists>w' tr' res. do_cond_loop fl (traced env) zero pol c left n prev (w, tr) = (res, w', tr @ tr')
         \<and> retry_run (\<lambda>k. CalculateBackoff fl k (Some pol)) (MaxAttemptsValue pol) c zero n prev tr' res"
  using assms
proof (induction left arbitrary: n prev w tr)
  case 0
  then show ?case by simp
next
  case (Suc left)
  obtain e w1 where ctx: "re_ctx env w = (e, w1)" by fastforce
  obtain v err w2 where op: "re_op env w1 = ((v, err), w2)" by (metis surj_pair)
  obtain b w3 where wait: "re_wait env (CalculateBackoff fl n (Some pol)) w2 = (b, w3)" by fastforce
  show ?case
  proof (cases "e = None \<and> c v err \<and> int n < MaxAttemptsValue pol - 1 \<and> \<not> b")
    case True
    then have "left > 0" "int (Suc n) + int left = MaxAttemptsValue pol" using Suc.prems by auto
    from Suc.IH [OF this, of "(v, err)" w3 "tr @ [EvCheck None, EvCall v err, EvWait (CalculateBackoff fl n (Some pol)) False]"]
    obtain w' tr' res where
      "do_cond_loop fl (traced env) zero pol c left (Suc n) (v, err)
          (w3, tr @ [EvCheck None, EvCall v err, EvWait (CalculateBackoff fl n (Some pol)) False])
       = (res, w', tr @ EvCheck None # EvCall v err # EvWait (CalculateBackoff fl n (Some pol)) False # tr')"
      and "retry_run (\<lambda>k. CalculateBackoff fl k (Some pol)) (MaxAttemptsValue pol) c zero (Suc n) (v, err) tr' res"
      by auto
    with True ctx op wait show ?thesis by (auto intro!: retry_run.again)
  next
    case False
    with ctx op wait show ?thesis
      by (cases e; cases prev; cases b) (auto intro: retry_run.intros)
  qed
qed

section \<open>Consequences for a run\<close>

fun calls :: "'v retry_event list \<Rightarrow> ('v \<times> go_error option) list" where
  "calls [] = []"
| "calls (EvCall v e # tr) = (v, e) # calls tr"
| "calls (ev # tr) = calls tr"

fun waits :: "'v retry_event list \<Rightarrow> int list" where
  "waits [] = []"
| "waits (EvWait d b # tr) = d # waits tr"
| "waits (ev # tr) = waits tr"

text \<open>The run ended because the context was done.\<close>

fun stopped_by :: "'v retry_event list \<Rightarrow> bool" where
  "stopped_by [] = False"
| "stopped_by [EvCheck e] = (e \<noteq> None)"
| "stopped_by [EvWait d b] = b"
| "stopped_by (ev # tr) = stopped_by tr"

inductive_cases retry_run_nilE: "retry_run backoff limit c zero n prev [] res"

lemma retry_run_calls:
  assumes "retry_run backoff limit c zero n prev tr res" "int n < limit"
  shows "int n + int (length (calls tr)) \<le> limit \<and> list_all (\<lambda>(v, e). c v e) (butlast (calls tr))
         \<and> waits tr = map backoff [n..<n + length (waits tr)]"
  using assms
  by (induction) (auto simp: upt_conv_Cons simp del: upt_Suc)

lemma stopped_by_step [simp]: "tr \<noteq> [] \<Longrightarrow> stopped_by (ev # tr) = stopped_by tr"
  by (cases ev; cases tr) simp_all

text \<open>The outcome of a loop that retries exactly on errors, as \<open>Do\<close> does.\<close>

lemma retry_run_outcome:
  assumes "retry_run backoff limit (\<lambda>v e. e \<noteq> None) zero n prev tr res" "int n < limit"
  shows "list_all (\<lambda>(v, e). e \<noteq> None) (butlast (calls tr))
    \<and> (if calls tr = [] then (if snd prev = None then fst res = zero \<and> snd res \<noteq> None else res = prev)
                             \<and> stopped_by tr
       else res = last (calls tr))
    \<and> (snd res = None \<or> stopped_by tr \<or> int n + int (length (calls tr)) = limit)"
  using assms
proof (induction)
  case (again v err n tr res prev)
  from again have ne: "tr \<noteq> []" by (auto elim: retry_run_nilE)
  from again have "err \<noteq> None" by simp
  with again show ?case by (auto simp: ne)
qed auto

definition retries :: "policy option \<Rightarrow> bool" where
  "retries p = (case p of None \<Rightarrow> False | Some pol \<Rightarrow> EnabledValue pol \<and> 1 < MaxAttemptsValue pol)"

lemma DoWithCondition_run:
  assumes "retries p"
  shows "\<exists>w' tr res. DoWithCondition fl (traced env) zero p c (w, []) = (res, w', tr)
         \<and> retry_run (\<lambda>k. CalculateBackoff fl k p) (MaxAttemptsValue (the p)) c zero 0 (zero, None) tr res"
proof -
  from assms obtain pol where p: "p = Some pol" "EnabledValue pol" "1 < MaxAttemptsValue pol"
    by (auto simp: retries_def split: option.splits)
  then have "\<exists>w' tr' res. do_cond_loop fl (traced env) zero pol c (nat (MaxAttemptsValue pol)) 0 (zero, None) (w, [])
      = (res, w', [] @ tr') \<and> retry_run (\<lambda>k. CalculateBackoff fl k (Some pol)) (MaxAttemptsValue pol) c zero 0 (zero, None) tr' res"
    by (intro do_cond_loop_run) auto
  with p show ?thesis by (auto simp: DoWithCondition_def)
qed

lemma DoWithCondition_once:
  assumes "\<not> retries p"
  shows "DoWithCondition fl env zero p c w = re_op env w"
  using assms by (auto simp: DoWithCondition_def retries_def split: option.splits)

lemma Do_is_DoWithCondition:
  "Do fl env zero p w = DoWithCondition fl env zero p (\<lambda>v e. e \<noteq> None) w"
  by (simp add: Do_def DoWithCondition_def do_loop_is_cond_loop split: option.split)

lemma Do_erase:
  "\<exists>tr. DoWithCondition fl (traced env) zero p c (w, [])
     = (fst (DoWithCondition fl env zero p c w), snd (DoWithCondition fl env zero p c w), tr)"
  using do_cond_loop_erase [where tr="[]"]
  by (auto simp: DoWithCondition_def split: option.split prod.split)

text \<open>
  What a run of \<open>DoWithCondition\<close> establishes, from what one call of the operation establishes: \<open>I n\<close> holds
  before a call, with \<open>n\<close> calls made so far, \<open>Q n r\<close> holds for the outcome \<open>r\<close> after \<open>n\<close> calls.
\<close>

lemma cond_loop_rule:
  assumes op: "\<And>n w r w'. I n w \<Longrightarrow> re_op env w = (r, w') \<Longrightarrow> Q (Suc n) r w'"
    and ctx: "\<And>n w x w'. I n w \<Longrightarrow> re_ctx env w = (Some x, w') \<Longrightarrow> Q n (zero, Some x) w'"
    and ctx_none: "\<And>n w w'. I n w \<Longrightarrow> re_ctx env w = (None, w') \<Longrightarrow> I n w'"
    and ctx_Q: "\<And>n w r x w'. Q n r w \<Longrightarrow> snd r \<noteq> None \<Longrightarrow> re_ctx env w = (Some x, w') \<Longrightarrow> Q n r w'"
    and wait: "\<And>n w v e d b w'. Q n (v, e) w \<Longrightarrow> c v e \<Longrightarrow> re_wait env d w = (b, w') \<Longrightarrow> Q n (v, e) w'"
    and again: "\<And>n w v e. Q n (v, e) w \<Longrightarrow> c v e \<Longrightarrow> I n w"
    and run: "do_cond_loop fl env zero pol c left n prev w = (res, w')" "0 < left"
    and start: "I n w" "snd prev \<noteq> None \<longrightarrow> Q n prev w"
  shows "\<exists>k \<le> n + left. Q k res w'"
  using run start
proof (induction left arbitrary: n prev w)
  case (Suc left)
  obtain x w1 where ctx_run: "re_ctx env w = (x, w1)" by fastforce
  show ?case
  proof (cases x)
    case (Some e)
    with Suc.prems ctx_run ctx [OF Suc.prems(3)] ctx_Q [of n prev w e w1] show ?thesis
      by (auto split: if_splits intro!: exI [of _ n])
  next
    case None
    obtain v err w2 where op_run: "re_op env w1 = ((v, err), w2)" by (metis surj_pair)
    have Q: "Q (Suc n) (v, err) w2" using op [OF ctx_none [OF Suc.prems(3)] op_run] ctx_run None by simp
    obtain b w3 where wait_run: "re_wait env (CalculateBackoff fl n (Some pol)) w2 = (b, w3)" by fastforce
    have Q3: "Q (Suc n) (v, err) w3" if "c v err" using wait [OF Q that wait_run] .
    show ?thesis
    proof (cases "c v err \<and> int n < MaxAttemptsValue pol - 1 \<and> \<not> b \<and> 0 < left")
      case True
      with Suc.prems(1) None ctx_run op_run wait_run
      have "do_cond_loop fl env zero pol c left (Suc n) (v, err) w3 = (res, w')" by simp
      with Suc.IH [OF this] again [OF Q3] Q3 True show ?thesis by fastforce
    next
      case False
      with Suc.prems(1) None ctx_run op_run wait_run Q Q3 show ?thesis
        by (cases left) (auto split: if_splits bool.splits intro!: exI [of _ "Suc n"])
    qed
  qed
qed simp

lemma DoWithCondition_rule:
  assumes op: "\<And>n w r w'. I n w \<Longrightarrow> re_op env w = (r, w') \<Longrightarrow> Q (Suc n) r w'"
    and ctx: "\<And>n w x w'. I n w \<Longrightarrow> re_ctx env w = (Some x, w') \<Longrightarrow> Q n (zero, Some x) w'"
    and ctx_none: "\<And>n w w'. I n w \<Longrightarrow> re_ctx env w = (None, w') \<Longrightarrow> I n w'"
    and ctx_Q: "\<And>n w r x w'. Q n r w \<Longrightarrow> snd r \<noteq> None \<Longrightarrow> re_ctx env w = (Some x, w') \<Longrightarrow> Q n r w'"
    and wait: "\<And>n w v e d b w'. Q n (v, e) w \<Longrightarrow> c v e \<Longrightarrow> re_wait env d w = (b, w') \<Longrightarrow> Q n (v, e) w'"
    and again: "\<And>n w v e. Q n (v, e) w \<Longrightarrow> c v e \<Longrightarrow> I n w"
    and run: "DoWithCondition fl env zero p c w = (res, w')" and start: "I 0 w"
  shows "\<exists>k. int k \<le> (if retries p then MaxAttemptsValue (the p) else 1) \<and> Q k res w'"
proof (cases "retries p")
  case True
  then obtain pol where p: "p = Some pol" "EnabledValue pol" "1 < MaxAttemptsValue pol"
    by (auto simp: retries_def split: option.splits)
  with run have "do_cond_loop fl env zero pol c (nat (MaxAttemptsValue pol)) 0 (zero, None) w = (res, w')"
    by (simp add: DoWithCondition_def)
  with start p have "\<exists>k \<le> 0 + nat (MaxAttemptsValue pol). Q k res w'"
    by (intro cond_loop_rule [where I = I and Q = Q, OF op ctx ctx_none ctx_Q wait again]) auto
  with p True show ?thesis by (auto simp: le_nat_iff)
next
  case False
  with DoWithCondition_once [OF False, of fl env zero c w] run have "re_op env w = (res, w')" by simp
  from op [OF start this] False show ?thesis by (auto intro!: exI [of _ 1])
qed

section \<open>Properties\<close>

text \<open>\<open>DoWithCondition\<close> never calls the operation more often than the policy allows, calls it
  again only after an outcome that the condition wants retried, and waits between calls exactly for
  the backoffs of the attempts so far.\<close>

lemma retry_call_bound:
  "let (res, w', tr) = DoWithCondition fl (traced env) zero p c (w, []) in
     int (length (calls tr)) \<le> max 1 (if retries p then MaxAttemptsValue (the p) else 1)
     \<and> list_all (\<lambda>(v, e). c v e) (butlast (calls tr))
     \<and> waits tr = map (\<lambda>k. CalculateBackoff fl k p) [0..<length (waits tr)]"
proof (cases "retries p")
  case True
  then have "0 < MaxAttemptsValue (the p)" by (auto simp: retries_def split: option.splits)
  with True show ?thesis
    using DoWithCondition_run [OF True, of fl env zero c w] retry_run_calls by (fastforce simp: max_def)
next
  case False
  then show ?thesis by (simp add: DoWithCondition_once split: prod.split)
qed

text \<open>C6: \<open>Do\<close> under an enabled policy ends in one of three ways. Either the last call succeeded and
  its result is returned; or the context stopped the loop and the last failure (or, before the first
  call, the error of the context) is returned; or as many calls as the policy allows all failed and
  the last failure is returned.\<close>

theorem retry_do_outcome:
  assumes "EnabledValue pol" "1 < MaxAttemptsValue pol"
  shows "let (res, w', tr) = Do fl (traced env) zero (Some pol) (w, []) in
     list_all (\<lambda>(v, e). e \<noteq> None) (butlast (calls tr))
     \<and> (calls tr \<noteq> [] \<longrightarrow> res = last (calls tr))
     \<and> (calls tr = [] \<longrightarrow> stopped_by tr \<and> fst res = zero \<and> snd res \<noteq> None)
     \<and> (snd res = None \<or> stopped_by tr \<or> int (length (calls tr)) = MaxAttemptsValue pol)"
proof -
  from assms have p: "retries (Some pol)" by (simp add: retries_def)
  obtain w' tr res where run: "DoWithCondition fl (traced env) zero (Some pol) (\<lambda>v e. e \<noteq> None) (w, []) = (res, w', tr)"
    and "retry_run (\<lambda>k. CalculateBackoff fl k (Some pol)) (MaxAttemptsValue pol) (\<lambda>v e. e \<noteq> None) zero 0 (zero, None) tr res"
    using DoWithCondition_run [OF p, of fl env zero "\<lambda>v e. e \<noteq> None" w] by auto
  from retry_run_outcome [OF this(2)] assms run show ?thesis
    by (auto simp: Do_is_DoWithCondition split: if_splits)
qed

definition plain_float :: go_float where
  "plain_float = \<lparr>f_round = (\<lambda>x. x), f_pow = (\<lambda>x n. x ^ n), f_wild = (\<lambda>x. - (2 ^ 63))\<rparr>"

text \<open>An operation that fails twice and then returns its call number.\<close>

definition flaky_env :: "(nat, nat) retry_env" where
  "flaky_env = \<lparr>re_op = (\<lambda>n. ((n, if n < 2 then Some (Atom (ErrExternal n)) else None), n + 1)),
                re_ctx = (\<lambda>n. (None, n)), re_wait = (\<lambda>d n. (False, n))\<rparr>"

lemma flaky_run:
  "Do plain_float (traced flaky_env) 0 (Some (NewPolicy [WithEnabled True])) (0, [])
   = ((2, None), 3,
      [EvCheck None, EvCall 0 (Some (Atom (ErrExternal 0))), EvWait 100000000 False,
       EvCheck None, EvCall 1 (Some (Atom (ErrExternal 1))), EvWait 200000000 False,
       EvCheck None, EvCall 2 None])"
  by (simp add: Do_def NewPolicy_def WithEnabled_def flaky_env_def plain_float_def CalculateBackoff_def
      to_duration_def Let_def eval_nat_numeral)

lemma retry_do_outcome_witness:
  "let (res, w', tr) = Do plain_float (traced flaky_env) 0 (Some (NewPolicy [WithEnabled True])) (0, []) in
     list_all (\<lambda>(v, e). e \<noteq> None) (butlast (calls tr)) \<and> res = last (calls tr) \<and> length (calls tr) = 3"
  using retry_do_outcome [of "NewPolicy [WithEnabled True]" plain_float flaky_env 0 0]
  unfolding flaky_run by (simp add: NewPolicy_def WithEnabled_def)

text \<open>
  What is documented of float64: integers below \<open>2 ^ 53\<close> times a moderate power of two are exact,
  and so are the powers of two that \<open>math.Pow\<close> returns.
\<close>

definition exact_powers :: "go_float \<Rightarrow> bool" where
  "exact_powers fl = ((\<forall>m n. n \<le> 900 \<longrightarrow> \<bar>m\<bar> < 2 ^ 53 \<longrightarrow> f_round fl (real_of_int m * 2 ^ n) = real_of_int m * 2 ^ n)
                      \<and> (\<forall>n \<le> 900. f_pow fl 2 n = 2 ^ n))"

lemma to_duration_of_int:
  "to_duration fl (real_of_int i) = (if - (2 ^ 63) \<le> i \<and> i < 2 ^ 63 then i else f_wild fl (real_of_int i))"
  by (simp add: to_duration_def)

lemma default_backoff:
  assumes "exact_powers fl" "n \<le> 900"
  shows "CalculateBackoff fl n (Some (NewPolicy [])) = min (to_duration fl (real_of_int (100000000 * 2 ^ n))) 5000000000"
proof -
  have "f_round fl (real_of_int 100000000 * 2 ^ k) = real_of_int 100000000 * 2 ^ k" if "k \<le> 900" for k
  proof -
    have "\<bar>100000000 :: int\<bar> < 2 ^ 53" by simp
    with assms(1) that show ?thesis unfolding exact_powers_def by blast
  qed
  from this [of 0] this [of n] assms have
    "f_round fl (f_round fl 100000000 * f_pow fl 2 n) = real_of_int (100000000 * 2 ^ n)"
    by (simp add: exact_powers_def)
  then show ?thesis by (simp add: CalculateBackoff_def NewPolicy_def min_def Let_def)
qed

lemma plain_float_exact: "exact_powers plain_float"
  by (simp add: exact_powers_def plain_float_def)

text \<open>Under the default policy attempt \<open>n\<close> is followed by a wait of 100 ms doubled \<open>n\<close> times, capped at 5 s,
  as long as the doubled value fits into an int64 number of nanoseconds.\<close>

lemma backoff_default_policy:
  assumes "exact_powers fl" "n \<le> 36"
  shows "CalculateBackoff fl n (Some (NewPolicy [])) = min (100 * millisecond * 2 ^ n) (5 * second)"
proof -
  have "(2::int) ^ n \<le> 2 ^ 36" by (rule power_increasing) (use assms in simp_all)
  then have "100000000 * (2::int) ^ n < 2 ^ 63" by simp
  moreover have "- (2 ^ 63) \<le> (0::int)" "0 \<le> 100000000 * (2::int) ^ n" by simp_all
  then have "- (2 ^ 63) \<le> 100000000 * (2::int) ^ n" by (rule order.trans)
  ultimately show ?thesis using assms by (simp only: default_backoff to_duration_of_int) simp
qed

lemma backoff_default_policy_witness:
  "CalculateBackoff plain_float 5 (Some (NewPolicy [])) = 3200 * millisecond
   \<and> CalculateBackoff plain_float 6 (Some (NewPolicy [])) = 5 * second"
  using backoff_default_policy [OF plain_float_exact, of 5] backoff_default_policy [OF plain_float_exact, of 6]
  by simp

text \<open>From attempt 37 on the default backoff leaves the range of int64 before it is capped, and the
  wait is whatever the conversion yields. On amd64, where it yields the least int64, the cap does not
  apply: the wait is negative, so the loop does not wait at all.\<close>

lemma backoff_overflow_not_capped:
  assumes "exact_powers fl" "37 \<le> n" "n \<le> 900"
  shows "CalculateBackoff fl n (Some (NewPolicy [])) = min (f_wild fl (100000000 * 2 ^ n)) (5 * second)"
proof -
  have "(2::int) ^ 37 \<le> 2 ^ n" by (rule power_increasing) (use assms in simp_all)
  then have "\<not> 100000000 * (2::int) ^ n < 2 ^ 63" by simp
  then show ?thesis using assms by (simp only: default_backoff to_duration_of_int) simp
qed

lemma backoff_overflow_not_capped_witness:
  "CalculateBackoff plain_float 40 (Some (NewPolicy [])) = - (2 ^ 63)"
  using backoff_overflow_not_capped [OF plain_float_exact, of 40] by (simp add: plain_float_def)

text \<open>\<open>ShouldRetry\<close> repeats exactly the requests that failed with a 5xx or 429 status, or without
  any status but with an error, unless the error is that of a cancelled or expired context.\<close>

lemma should_retry_iff:
  "ShouldRetry timeout op_error status err
   = (\<not> is_err err ContextDeadlineExceeded \<and> \<not> is_err err ContextCanceled
      \<and> (status \<in> {500..<600} \<or> status = 429 \<or> (status \<le> 0 \<and> err \<noteq> None)))"
  by (cases err) (auto simp: ShouldRetry_def)

end
