(* ===== verification/Go_Channels.thy ===== *)
theory Go_Channels
  imports Go_Base
begin

text \<open>
  Go channels with a buffer, as the packages \<^verbatim>\<open>promise\<close> and \<^verbatim>\<open>poll\<close> use them. A channel lives in a
  heap; an operation on it may return, block, or panic (a send on a closed channel, a second close).
\<close>

datatype 'a run = Ran 'a | Blocked | Panicked

fun run_bind :: "'a run \<Rightarrow> ('a \<Rightarrow> 'b run) \<Rightarrow> 'b run" where
  "run_bind (Ran x) f = f x"
| "run_bind Blocked f = Blocked"
| "run_bind Panicked f = Panicked"

record 'v channel =
  ch_cap :: nat
  ch_buffer :: "'v list"
  ch_closed :: bool

type_synonym 'v chan_heap = "nat \<Rightarrow> 'v channel option"

definition make_chan :: "nat \<Rightarrow> 'v channel" where
  "make_chan cap = \<lparr>ch_cap = cap, ch_buffer = [], ch_closed = False\<rparr>"

definition chan_send :: "nat \<Rightarrow> 'v \<Rightarrow> 'v chan_heap \<Rightarrow> 'v chan_heap run" where
  "chan_send ch v h =
     (case h ch of
        None \<Rightarrow> Blocked
      | Some c \<Rightarrow>
          if ch_closed c then Panicked
          else if length (ch_buffer c) < ch_cap c then Ran (h(ch \<mapsto> c\<lparr>ch_buffer := ch_buffer c @ [v]\<rparr>))
          else Blocked)"

definition chan_close :: "nat \<Rightarrow> 'v chan_heap \<Rightarrow> 'v chan_heap run" where
  "chan_close ch h =
     (case h ch of
        None \<Rightarrow> Panicked
      | Some c \<Rightarrow> if ch_closed c then Panicked else Ran (h(ch \<mapsto> c\<lparr>ch_closed := True\<rparr>)))"

text \<open>A receive yields \<open>None\<close> for Go's zero value with \<open>ok = false\<close>.\<close>

definition chan_recv :: "nat \<Rightarrow> 'v chan_heap \<Rightarrow> ('v option \<times> 'v chan_heap) run" where
  "chan_recv ch h =
     (case h ch of
        None \<Rightarrow> Blocked
      | Some c \<Rightarrow>
          (case ch_buffer c of
             v # vs \<Rightarrow> Ran (Some v, h(ch \<mapsto> c\<lparr>ch_buffer := vs\<rparr>))
           | [] \<Rightarrow> if ch_closed c then Ran (None, h) else Blocked))"

text \<open>A channel that holds its one value and will hold no other.\<close>

definition full_chan :: "'v \<Rightarrow> 'v channel" where
  "full_chan v = \<lparr>ch_cap = 1, ch_buffer = [v], ch_closed = True\<rparr>"

lemma send_close_fresh:
  assumes "h ch = Some (make_chan 1)"
  shows "run_bind (chan_send ch v h) (chan_close ch) = Ran (h(ch \<mapsto> full_chan v))"
  using assms by (simp add: chan_send_def chan_close_def make_chan_def full_chan_def)

lemma recv_full [simp]:
  "h ch = Some (full_chan v) \<Longrightarrow> chan_recv ch h = Ran (Some v, h(ch \<mapsto> (full_chan v)\<lparr>ch_buffer := []\<rparr>))"
  by (simp add: chan_recv_def full_chan_def)

lemma recv_fresh [simp]: "h ch = Some (make_chan n) \<Longrightarrow> chan_recv ch h = Blocked"
  by (simp add: chan_recv_def make_chan_def)

lemma close_fresh [simp]:
  "h ch = Some (make_chan n) \<Longrightarrow> chan_close ch h = Ran (h(ch \<mapsto> (make_chan n)\<lparr>ch_closed := True\<rparr>))"
  by (simp add: chan_close_def make_chan_def)

lemma recv_elsewhere: "chan_recv ch h = Ran (x, h') \<Longrightarrow> c \<noteq> ch \<Longrightarrow> h' c = h c"
  by (auto simp: chan_recv_def split: option.splits list.splits if_splits)

lemma recv_dom: "chan_recv ch h = Ran (x, h') \<Longrightarrow> (h' c = None) = (h c = None)"
  by (auto simp: chan_recv_def split: option.splits list.splits if_splits)

end
