(* ===== verification/Promises.thy ===== *)
theory Promises
  imports Go_Channels
begin

text \<open>
  The packages \<^verbatim>\<open>either\<close>, \<^verbatim>\<open>promise\<close> and \<^verbatim>\<open>future\<close>. The methods of a promise that take its mutex are
  atomic and are functions on the record \<open>promise\<close>, which holds the channels the promise made; \<open>Get\<close>
  takes the mutex twice and blocks in between, so it is a sequence of steps (\<open>get_step\<close>) that
  interleaves with the other callers (\<open>promise_step\<close>).

  A pointer that may be nil is an option. \<open>Reject\<close> refuses a nil error, so the field \<open>error\<close> of a
  promise points to a proper error.
\<close>

section \<open>Either\<close>

record ('l, 'r) either =
  ei_left :: "'l option"
  ei_right :: "'r option"

definition ei_Left :: "'l \<Rightarrow> ('l, 'r) either" where
  "ei_Left l = \<lparr>ei_left = Some l, ei_right = None\<rparr>"

definition ei_Right :: "'r \<Rightarrow> ('l, 'r) either" where
  "ei_Right r = \<lparr>ei_left = None, ei_right = Some r\<rparr>"

text \<open>The methods \<open>Left\<close> and \<open>Right\<close> dereference the pointer and panic when it is nil.\<close>

definition getLeft :: "('l, 'r) either \<Rightarrow> 'l run" where
  "getLeft e = (case ei_left e of Some l \<Rightarrow> Ran l | None \<Rightarrow> Panicked)"

definition getRight :: "('l, 'r) either \<Rightarrow> 'r run" where
  "getRight e = (case ei_right e of Some r \<Rightarrow> Ran r | None \<Rightarrow> Panicked)"

definition IsLeft :: "('l, 'r) either \<Rightarrow> bool" where
  "IsLeft e = (ei_left e \<noteq> None)"

definition IsRight :: "('l, 'r) either \<Rightarrow> bool" where
  "IsRight e = (ei_right e \<noteq> None)"

text \<open>\<open>Value\<close> with the zero values of the two types; its dereferences are guarded.\<close>

definition ei_Value :: "'r \<Rightarrow> 'l \<Rightarrow> ('l, 'r) either \<Rightarrow> ('r \<times> 'l) run" where
  "ei_Value rightDefault leftDefault e =
     (if IsLeft e then run_bind (getLeft e) (\<lambda>l. Ran (rightDefault, l))
      else if IsRight e then run_bind (getRight e) (\<lambda>r. Ran (r, leftDefault))
      else Ran (rightDefault, leftDefault))"

type_synonym 'v either_error = "(go_error option, 'v) either"

definition ei_Error :: "go_error option \<Rightarrow> 'v either_error" where
  "ei_Error e = ei_Left e"

definition RightError :: "'v \<Rightarrow> 'v either_error" where
  "RightError v = ei_Right v"

lemma ei_Value_simps [simp]:
  "ei_Value d d' (ei_Left l) = Ran (d, l)"
  "ei_Value d d' (ei_Right r) = Ran (r, d')"
  by (simp_all add: ei_Value_def IsLeft_def IsRight_def getLeft_def getRight_def ei_Left_def ei_Right_def)

lemma ei_distinct [simp]: "ei_Left l \<noteq> ei_Right r" "ei_Right r \<noteq> ei_Left l"
  by (simp_all add: ei_Left_def ei_Right_def)

section \<open>The promise and its mutexed operations\<close>

record 'v promise =
  pr_value :: "'v option"
  pr_error :: "go_error option"
  pr_channels :: "nat list"
  pr_resolved :: bool
  pr_heap :: "'v either_error chan_heap"
  pr_next :: nat

text \<open>\<open>pr_heap\<close> holds the channels made so far, \<open>pr_next\<close> the address of the next one.\<close>

definition new_promise :: "'v promise" where
  "new_promise = \<lparr>pr_value = None, pr_error = None, pr_channels = [], pr_resolved = False,
                  pr_heap = (\<lambda>_. None), pr_next = 0\<rparr>"

definition IsResolved :: "'v promise \<Rightarrow> bool" where
  "IsResolved p = pr_resolved p"

definition getResolvedValue :: "bool \<Rightarrow> 'v promise \<Rightarrow> 'v either_error" where
  "getResolvedValue checkForResolved p =
     (if checkForResolved \<and> \<not> IsResolved p then ei_Error (Some (Atom ErrNotResolved))
      else (case pr_value p of
              Some v \<Rightarrow> RightError v
            | None \<Rightarrow> (case pr_error p of
                        Some e \<Rightarrow> ei_Error (Some e)
                      | None \<Rightarrow> ei_Error (Some (Atom ErrPromiseResolved)))))"

fun complete_loop ::
  "nat list \<Rightarrow> 'v either_error \<Rightarrow> 'v either_error chan_heap \<Rightarrow> 'v either_error chan_heap run" where
  "complete_loop [] result h = Ran h"
| "complete_loop (ch # chs) result h =
     run_bind (run_bind (chan_send ch result h) (chan_close ch)) (complete_loop chs result)"

definition complete :: "'v promise \<Rightarrow> 'v promise run" where
  "complete p =
     (let p1 = p\<lparr>pr_resolved := True\<rparr>;
          result = getResolvedValue False p1
      in run_bind (complete_loop (pr_channels p1) result (pr_heap p1))
           (\<lambda>h. Ran (p1\<lparr>pr_heap := h, pr_channels := []\<rparr>)))"

definition Resolve :: "'v \<Rightarrow> 'v promise \<Rightarrow> (go_error option \<times> 'v promise) run" where
  "Resolve v p =
     (if pr_resolved p then Ran (Some (Atom ErrAlreadyResolved), p)
      else run_bind (complete (p\<lparr>pr_value := Some v\<rparr>)) (\<lambda>p'. Ran (None, p')))"

definition Reject :: "go_error option \<Rightarrow> 'v promise \<Rightarrow> (go_error option \<times> 'v promise) run" where
  "Reject err p =
     (case err of
        None \<Rightarrow> Ran (Some (Atom ErrNilError), p)
      | Some e \<Rightarrow>
          if pr_resolved p then Ran (Some (Atom ErrAlreadyResolved), p)
          else run_bind (complete (p\<lparr>pr_error := Some e\<rparr>)) (\<lambda>p'. Ran (None, p')))"

definition addChannel :: "'v promise \<Rightarrow> (nat \<times> 'v promise) run" where
  "addChannel p =
     (let ch = pr_next p;
          h = (pr_heap p)(ch \<mapsto> make_chan 1);
          p1 = p\<lparr>pr_next := ch + 1\<rparr>
      in if pr_resolved p
         then run_bind (run_bind (chan_send ch (getResolvedValue True p) h) (chan_close ch))
                (\<lambda>h'. Ran (ch, p1\<lparr>pr_heap := h'\<rparr>))
         else Ran (ch, p1\<lparr>pr_heap := h, pr_channels := pr_channels p @ [ch]\<rparr>))"

definition removeChannel :: "nat \<Rightarrow> 'v promise \<Rightarrow> (bool \<times> 'v promise) run" where
  "removeChannel ch p =
     (if pr_resolved p then Ran (False, p)
      else if ch \<in> set (pr_channels p)
      then run_bind (chan_close ch (pr_heap p))
             (\<lambda>h. Ran (True, p\<lparr>pr_channels := remove1 ch (pr_channels p), pr_heap := h\<rparr>))
      else Ran (True, p))"

definition readResult :: "'v \<Rightarrow> 'v either_error option \<Rightarrow> ('v \<times> go_error option) run" where
  "readResult zero eith =
     (case eith of
        None \<Rightarrow> Ran (zero, Some (Atom ErrChannelClosed))
      | Some x \<Rightarrow> run_bind (ei_Value zero None x)
                    (\<lambda>(value, err). Ran (if err \<noteq> None then (zero, err) else (value, None))))"

text \<open>\<open>tryReadResult\<close> is a receive with a default branch: \<open>Ran None\<close> when nothing was there.\<close>

definition tryReadResult :: "'v \<Rightarrow> nat \<Rightarrow> 'v promise \<Rightarrow> (('v \<times> go_error option) option \<times> 'v promise) run" where
  "tryReadResult zero ch p =
     (case chan_recv ch (pr_heap p) of
        Ran (x, h) \<Rightarrow> run_bind (readResult zero x) (\<lambda>r. Ran (Some r, p\<lparr>pr_heap := h\<rparr>))
      | Blocked \<Rightarrow> Ran (None, p)
      | Panicked \<Rightarrow> Panicked)"

section \<open>Get as steps\<close>

text \<open>
  Where a caller of \<open>Get\<close> stands: before \<open>addChannel\<close>, before the first \<open>tryReadResult\<close>, in the select,
  after the context won (second \<open>tryReadResult\<close>), before \<open>removeChannel\<close>, in the last receive, returned.
\<close>

datatype 'v get_pc =
    GetAdd | GetTry nat | GetSelect nat | GetRetry nat | GetRemove nat | GetRecv nat
  | GetDone "'v \<times> go_error option"

text \<open>\<open>ctx\<close> is the error of the caller's context once it is done.\<close>

inductive get_step ::
  "'v \<Rightarrow> go_error option \<Rightarrow> 'v get_pc \<Rightarrow> 'v promise \<Rightarrow> 'v get_pc \<Rightarrow> 'v promise \<Rightarrow> bool"
  for zero :: 'v and ctx :: "go_error option" where
  add: "addChannel p = Ran (ch, p') \<Longrightarrow> get_step zero ctx GetAdd p (GetTry ch) p'"
| try_ok: "tryReadResult zero ch p = Ran (Some r, p') \<Longrightarrow> get_step zero ctx (GetTry ch) p (GetDone r) p'"
| try_none: "tryReadResult zero ch p = Ran (None, p') \<Longrightarrow> get_step zero ctx (GetTry ch) p (GetSelect ch) p'"
| select_recv: "chan_recv ch (pr_heap p) = Ran (x, h) \<Longrightarrow> readResult zero x = Ran r \<Longrightarrow>
     get_step zero ctx (GetSelect ch) p (GetDone r) (p\<lparr>pr_heap := h\<rparr>)"
| select_ctx: "ctx = Some e \<Longrightarrow> get_step zero ctx (GetSelect ch) p (GetRetry ch) p"
| retry_ok: "tryReadResult zero ch p = Ran (Some r, p') \<Longrightarrow> get_step zero ctx (GetRetry ch) p (GetDone r) p'"
| retry_none: "tryReadResult zero ch p = Ran (None, p') \<Longrightarrow> get_step zero ctx (GetRetry ch) p (GetRemove ch) p'"
| removed: "removeChannel ch p = Ran (True, p') \<Longrightarrow> get_step zero ctx (GetRemove ch) p (GetDone (zero, ctx)) p'"
| not_removed: "removeChannel ch p = Ran (False, p') \<Longrightarrow> get_step zero ctx (GetRemove ch) p (GetRecv ch) p'"
| recv: "chan_recv ch (pr_heap p) = Ran (x, h) \<Longrightarrow> readResult zero x = Ran r \<Longrightarrow>
     get_step zero ctx (GetRecv ch) p (GetDone r) (p\<lparr>pr_heap := h\<rparr>)"

text \<open>
  All users of one promise: the callers \<open>'t\<close> of \<open>Get\<close> with their contexts, the channels handed out by
  \<open>Chan\<close>, and, for the properties, the outcomes that a call of \<open>Resolve\<close> or \<open>Reject\<close> set (returning nil).
\<close>

record ('v, 't) promise_sys =
  ps_promise :: "'v promise"
  ps_pc :: "'t \<Rightarrow> 'v get_pc option"
  ps_ctx :: "'t \<Rightarrow> go_error option"
  ps_outs :: "nat set"
  ps_won :: "('v \<times> go_error option) list"

definition ps_start :: "('v, 't) promise_sys" where
  "ps_start = \<lparr>ps_promise = new_promise, ps_pc = (\<lambda>_. None), ps_ctx = (\<lambda>_. None), ps_outs = {}, ps_won = []\<rparr>"

inductive promise_step :: "'v \<Rightarrow> ('v, 't) promise_sys \<Rightarrow> ('v, 't) promise_sys \<Rightarrow> bool" for zero :: 'v where
  resolve: "Resolve v (ps_promise S) = Ran (r, p') \<Longrightarrow>
     promise_step zero S (S\<lparr>ps_promise := p', ps_won := ps_won S @ (if r = None then [(v, None)] else [])\<rparr>)"
| reject: "Reject err (ps_promise S) = Ran (r, p') \<Longrightarrow>
     promise_step zero S (S\<lparr>ps_promise := p', ps_won := ps_won S @ (if r = None then [(zero, err)] else [])\<rparr>)"
| chan: "addChannel (ps_promise S) = Ran (ch, p') \<Longrightarrow>
     promise_step zero S (S\<lparr>ps_promise := p', ps_outs := insert ch (ps_outs S)\<rparr>)"
| recv_out: "ch \<in> ps_outs S \<Longrightarrow> chan_recv ch (pr_heap (ps_promise S)) = Ran (x, h) \<Longrightarrow>
     promise_step zero S (S\<lparr>ps_promise := (ps_promise S)\<lparr>pr_heap := h\<rparr>\<rparr>)"
| call: "ps_pc S t = None \<Longrightarrow> promise_step zero S (S\<lparr>ps_pc := (ps_pc S)(t \<mapsto> GetAdd)\<rparr>)"
| get: "ps_pc S t = Some pc \<Longrightarrow> get_step zero (ps_ctx S t) pc (ps_promise S) pc' p' \<Longrightarrow>
     promise_step zero S (S\<lparr>ps_promise := p', ps_pc := (ps_pc S)(t \<mapsto> pc')\<rparr>)"
| expire: "ps_ctx S t = None \<Longrightarrow> promise_step zero S (S\<lparr>ps_ctx := (ps_ctx S)(t \<mapsto> e)\<rparr>)"

section \<open>The operations on a well-formed promise\<close>

text \<open>What every caller gets from a resolved promise.\<close>

definition outcome :: "'v \<Rightarrow> 'v promise \<Rightarrow> 'v \<times> go_error option" where
  "outcome zero p = (case pr_value p of Some v \<Rightarrow> (v, None) | None \<Rightarrow> (zero, pr_error p))"

definition promise_ok :: "'v promise \<Rightarrow> bool" where
  "promise_ok p =
     ((if pr_resolved p then pr_channels p = [] \<and> (pr_value p = None) \<noteq> (pr_error p = None)
       else pr_value p = None \<and> pr_error p = None)
      \<and> distinct (pr_channels p)
      \<and> (\<forall>ch \<in> set (pr_channels p). pr_heap p ch = Some (make_chan 1))
      \<and> (\<forall>ch. (pr_heap p ch = None) = (pr_next p \<le> ch)))"

lemma complete_loop_fresh:
  "distinct chs \<Longrightarrow> \<forall>ch \<in> set chs. h ch = Some (make_chan 1) \<Longrightarrow>
   complete_loop chs r h = Ran (\<lambda>c. if c \<in> set chs then Some (full_chan r) else h c)"
proof (induction chs arbitrary: h)
  case Nil
  then show ?case by simp
next
  case (Cons ch chs)
  let ?h = "h(ch \<mapsto> full_chan r)"
  have "complete_loop (ch # chs) r h = complete_loop chs r ?h"
    using Cons.prems by (simp add: send_close_fresh)
  also have "\<dots> = Ran (\<lambda>c. if c \<in> set chs then Some (full_chan r) else ?h c)"
    using Cons.prems by (intro Cons.IH) auto
  finally show ?case using Cons.prems by (auto simp: fun_eq_iff)
qed

definition completed :: "'v promise \<Rightarrow> 'v promise" where
  "completed p = p\<lparr>pr_resolved := True, pr_channels := [],
     pr_heap := (\<lambda>c. if c \<in> set (pr_channels p) then Some (full_chan (getResolvedValue False p)) else pr_heap p c)\<rparr>"

lemma complete_ok:
  assumes "distinct (pr_channels p)" "\<forall>ch \<in> set (pr_channels p). pr_heap p ch = Some (make_chan 1)"
  shows "complete p = Ran (completed p)"
proof -
  have "getResolvedValue False (p\<lparr>pr_resolved := True\<rparr>) = getResolvedValue False p"
    by (simp add: getResolvedValue_def IsResolved_def split: option.split)
  with assms show ?thesis by (simp add: complete_def completed_def complete_loop_fresh Let_def)
qed

lemma Resolve_fresh:
  assumes "promise_ok p" "\<not> pr_resolved p"
  shows "Resolve v p = Ran (None, completed (p\<lparr>pr_value := Some v\<rparr>))"
  using assms by (simp add: Resolve_def complete_ok promise_ok_def)

lemma Reject_fresh:
  assumes "promise_ok p" "\<not> pr_resolved p"
  shows "Reject (Some e) p = Ran (None, completed (p\<lparr>pr_error := Some e\<rparr>))"
  using assms by (simp add: Reject_def complete_ok promise_ok_def)

lemma addChannel_ok:
  assumes "promise_ok p"
  shows "addChannel p = Ran (pr_next p,
     if pr_resolved p
     then p\<lparr>pr_next := pr_next p + 1, pr_heap := (pr_heap p)(pr_next p \<mapsto> full_chan (getResolvedValue False p))\<rparr>
     else p\<lparr>pr_next := pr_next p + 1, pr_heap := (pr_heap p)(pr_next p \<mapsto> make_chan 1),
            pr_channels := pr_channels p @ [pr_next p]\<rparr>)"
proof -
  have "run_bind (chan_send (pr_next p) r ((pr_heap p)(pr_next p \<mapsto> make_chan 1))) (chan_close (pr_next p))
      = Ran ((pr_heap p)(pr_next p \<mapsto> full_chan r))" for r
    by (subst send_close_fresh) simp_all
  then show ?thesis by (simp add: addChannel_def Let_def getResolvedValue_def IsResolved_def)
qed

lemma removeChannel_ok:
  assumes "promise_ok p" "ch \<in> set (pr_channels p)"
  shows "removeChannel ch p = Ran (True, p\<lparr>pr_channels := remove1 ch (pr_channels p),
           pr_heap := (pr_heap p)(ch \<mapsto> (make_chan 1)\<lparr>ch_closed := True\<rparr>)\<rparr>)"
  using assms by (auto simp: removeChannel_def promise_ok_def)

lemma readResult_outcome:
  assumes "promise_ok p" "pr_resolved p"
  shows "readResult zero (Some (getResolvedValue b p)) = Ran (outcome zero p)"
  using assms
  by (auto simp: promise_ok_def getResolvedValue_def IsResolved_def readResult_def outcome_def RightError_def
      ei_Error_def split: option.splits)

lemma tryReadResult_open:
  "pr_heap p ch = Some (make_chan 1) \<Longrightarrow> tryReadResult zero ch p = Ran (None, p)"
  by (simp add: tryReadResult_def)

lemma tryReadResult_full:
  assumes "promise_ok p" "pr_resolved p" "pr_heap p ch = Some (full_chan (getResolvedValue False p))"
  shows "tryReadResult zero ch p = Ran (Some (outcome zero p),
     p\<lparr>pr_heap := (pr_heap p)(ch \<mapsto> (full_chan (getResolvedValue False p))\<lparr>ch_buffer := []\<rparr>)\<rparr>)"
  using assms by (simp add: tryReadResult_def readResult_outcome)

section \<open>The invariant\<close>

text \<open>The promise still owes the channel a result, or has put it there.\<close>

definition served :: "'v promise \<Rightarrow> nat \<Rightarrow> bool" where
  "served p ch = (if pr_resolved p then pr_heap p ch = Some (full_chan (getResolvedValue False p))
                  else ch \<in> set (pr_channels p))"

fun pc_chan :: "'v get_pc \<Rightarrow> nat option" where
  "pc_chan GetAdd = None"
| "pc_chan (GetTry ch) = Some ch"
| "pc_chan (GetSelect ch) = Some ch"
| "pc_chan (GetRetry ch) = Some ch"
| "pc_chan (GetRemove ch) = Some ch"
| "pc_chan (GetRecv ch) = Some ch"
| "pc_chan (GetDone r) = None"

fun pc_ok :: "'v \<Rightarrow> 'v promise \<Rightarrow> go_error option \<Rightarrow> 'v get_pc \<Rightarrow> bool" where
  "pc_ok zero p ctx GetAdd = True"
| "pc_ok zero p ctx (GetTry ch) = served p ch"
| "pc_ok zero p ctx (GetSelect ch) = served p ch"
| "pc_ok zero p ctx (GetRetry ch) = (served p ch \<and> ctx \<noteq> None)"
| "pc_ok zero p ctx (GetRemove ch) = (served p ch \<and> ctx \<noteq> None)"
| "pc_ok zero p ctx (GetRecv ch) = (served p ch \<and> pr_resolved p)"
| "pc_ok zero p ctx (GetDone r) = ((pr_resolved p \<and> r = outcome zero p) \<or> (ctx \<noteq> None \<and> r = (zero, ctx)))"

text \<open>How a promise may change when the channels in \<open>T\<close> are used up.\<close>

definition evolves :: "'v \<Rightarrow> nat set \<Rightarrow> 'v promise \<Rightarrow> 'v promise \<Rightarrow> bool" where
  "evolves zero T p p' =
     (promise_ok p' \<and> pr_next p \<le> pr_next p'
      \<and> (pr_resolved p \<longrightarrow> pr_resolved p' \<and> outcome zero p' = outcome zero p)
      \<and> (\<forall>ch. ch \<notin> T \<longrightarrow> served p ch \<longrightarrow> served p' ch))"

lemma grv_cong:
  "pr_value p' = pr_value p \<Longrightarrow> pr_error p' = pr_error p \<Longrightarrow> getResolvedValue False p' = getResolvedValue False p"
  by (simp add: getResolvedValue_def split: option.split)

lemma outcome_cong:
  "pr_value p' = pr_value p \<Longrightarrow> pr_error p' = pr_error p \<Longrightarrow> outcome zero p' = outcome zero p"
  by (simp add: outcome_def split: option.split)

lemma served_alloc: "promise_ok p \<Longrightarrow> served p ch \<Longrightarrow> ch < pr_next p"
  by (auto simp: served_def promise_ok_def split: if_splits) (metis leI option.distinct(1))+

lemma evolves_refl: "promise_ok p \<Longrightarrow> evolves zero T p p"
  by (simp add: evolves_def)

lemma completed_evolves:
  assumes "promise_ok p" "\<not> pr_resolved p" "(pr_value q = None) \<noteq> (pr_error q = None)"
    "pr_channels q = pr_channels p" "pr_heap q = pr_heap p" "pr_next q = pr_next p"
  shows "evolves zero T p (completed q)"
proof -
  have low: "ch < pr_next p" if "ch \<in> set (pr_channels p)" for ch
    using assms(1) that by (auto simp: promise_ok_def) (metis leI option.distinct(1))
  have "getResolvedValue False (completed q) = getResolvedValue False q"
    by (rule grv_cong) (simp_all add: completed_def)
  moreover have "promise_ok (completed q)"
    using assms low unfolding completed_def promise_ok_def by (auto dest: low leD)
  ultimately show ?thesis using assms by (auto simp: evolves_def served_def) (simp_all add: completed_def)
qed

lemma outcome_simps [simp]:
  "outcome zero (p\<lparr>pr_value := Some v\<rparr>) = (v, None)"
  "pr_value p = None \<Longrightarrow> outcome zero (p\<lparr>pr_error := e\<rparr>) = (zero, e)"
  by (simp_all add: outcome_def)

lemma completed_simps [simp]:
  "pr_resolved (completed q)" "outcome zero (completed q) = outcome zero q"
  by (simp_all add: completed_def outcome_def split: option.split)

lemma Resolve_evolves:
  assumes "promise_ok p" "Resolve v p = Ran (r, p')"
  shows "evolves zero T p p' \<and> pr_resolved p' \<and> (r = None) = (\<not> pr_resolved p)
         \<and> (r = None \<longrightarrow> outcome zero p' = (v, None))"
proof (cases "pr_resolved p")
  case True
  with assms show ?thesis by (auto simp: Resolve_def evolves_refl)
next
  case False
  then have "pr_error p = None" using assms(1) by (simp add: promise_ok_def)
  with False assms show ?thesis
    by (auto simp: Resolve_fresh intro!: completed_evolves)
qed

lemma Reject_evolves:
  assumes "promise_ok p" "Reject err p = Ran (r, p')"
  shows "evolves zero T p p' \<and> (pr_resolved p \<longrightarrow> r \<noteq> None) \<and> (r = None \<longrightarrow> pr_resolved p' \<and> outcome zero p' = (zero, err))
         \<and> (r \<noteq> None \<longrightarrow> p' = p)"
proof (cases "pr_resolved p \<or> err = None")
  case True
  with assms show ?thesis by (auto simp: Reject_def evolves_refl split: option.splits)
next
  case False
  then obtain e where e: "err = Some e" and unres: "\<not> pr_resolved p" by auto
  then have "pr_value p = None" using assms(1) by (simp add: promise_ok_def)
  with e unres assms show ?thesis
    by (auto simp: Reject_fresh intro!: completed_evolves)
qed

lemma addChannel_evolves:
  assumes "promise_ok p" "addChannel p = Ran (ch, p')"
  shows "evolves zero T p p' \<and> ch = pr_next p \<and> pr_next p' = pr_next p + 1 \<and> served p' ch
         \<and> pr_resolved p' = pr_resolved p"
proof -
  have fresh: "pr_heap p (pr_next p) = None" using assms(1) by (simp add: promise_ok_def)
  then have new: "pr_next p \<notin> set (pr_channels p)"
    using assms(1) unfolding promise_ok_def by (metis option.distinct(1))
  from assms have p': "p' = (if pr_resolved p
     then p\<lparr>pr_next := pr_next p + 1, pr_heap := (pr_heap p)(pr_next p \<mapsto> full_chan (getResolvedValue False p))\<rparr>
     else p\<lparr>pr_next := pr_next p + 1, pr_heap := (pr_heap p)(pr_next p \<mapsto> make_chan 1),
            pr_channels := pr_channels p @ [pr_next p]\<rparr>)" and ch: "ch = pr_next p"
    by (simp_all add: addChannel_ok)
  have "getResolvedValue False p' = getResolvedValue False p" by (rule grv_cong) (simp_all add: p')
  moreover have "outcome zero p' = outcome zero p" by (rule outcome_cong) (simp_all add: p')
  ultimately show ?thesis using assms(1) fresh new ch unfolding p'
    by (auto simp: evolves_def promise_ok_def served_def not_le less_Suc_eq_le)
qed

lemma recv_evolves:
  assumes "promise_ok p" "chan_recv ch (pr_heap p) = Ran (x, h)"
  shows "evolves zero {ch} p (p\<lparr>pr_heap := h\<rparr>)"
proof -
  have "ch \<notin> set (pr_channels p)" using assms by (auto simp: promise_ok_def)
  then have "h c = pr_heap p c" if "c \<in> set (pr_channels p)" for c
    using that recv_elsewhere [OF assms(2), of c] by auto
  moreover have "getResolvedValue False (p\<lparr>pr_heap := h\<rparr>) = getResolvedValue False p"
    "outcome zero (p\<lparr>pr_heap := h\<rparr>) = outcome zero p"
    by (auto intro!: grv_cong outcome_cong)
  ultimately show ?thesis using assms(1) recv_elsewhere [OF assms(2)] recv_dom [OF assms(2)]
    unfolding evolves_def promise_ok_def served_def by auto
qed

lemma recv_served:
  assumes "promise_ok p" "served p ch" "chan_recv ch (pr_heap p) = Ran (x, h)" "readResult zero x = Ran r"
  shows "pr_resolved p \<and> r = outcome zero p"
proof (cases "pr_resolved p")
  case True
  with assms(2,3) have "x = Some (getResolvedValue False p)" by (auto simp: served_def)
  with assms True show ?thesis by (simp add: readResult_outcome)
next
  case False
  with assms show ?thesis by (auto simp: served_def promise_ok_def)
qed

lemma try_served:
  assumes "promise_ok p" "served p ch" "tryReadResult zero ch p = Ran (res, p')"
  shows "evolves zero {ch} p p' \<and> pr_resolved p' = pr_resolved p \<and> pr_next p' = pr_next p
         \<and> (res = None \<longrightarrow> p' = p) \<and> (\<forall>r. res = Some r \<longrightarrow> pr_resolved p \<and> r = outcome zero p)"
proof (cases "chan_recv ch (pr_heap p)")
  case (Ran y)
  obtain x h where y: "y = (x, h)" by fastforce
  with Ran assms(3) obtain r where "readResult zero x = Ran r" "res = Some r" "p' = p\<lparr>pr_heap := h\<rparr>"
    by (cases "readResult zero x") (auto simp: tryReadResult_def)
  with Ran y assms show ?thesis using recv_served recv_evolves by fastforce
qed (use assms in \<open>auto simp: tryReadResult_def evolves_refl\<close>)

lemma remove_served:
  assumes "promise_ok p" "served p ch" "removeChannel ch p = Ran (b, p')"
  shows "evolves zero {ch} p p' \<and> pr_resolved p' = pr_resolved p \<and> pr_next p' = pr_next p \<and> b = (\<not> pr_resolved p)
         \<and> (pr_resolved p \<longrightarrow> p' = p)"
proof (cases "pr_resolved p")
  case True
  with assms show ?thesis by (auto simp: removeChannel_def evolves_refl)
next
  case False
  with assms(2) have ch: "ch \<in> set (pr_channels p)" by (simp add: served_def)
  then have low: "\<not> pr_next p \<le> ch" using assms(1) unfolding promise_ok_def by (metis option.distinct(1))
  have "promise_ok (p\<lparr>pr_channels := remove1 ch (pr_channels p),
           pr_heap := (pr_heap p)(ch \<mapsto> (make_chan 1)\<lparr>ch_closed := True\<rparr>)\<rparr>)"
    using assms(1) False low unfolding promise_ok_def by auto
  with ch False assms show ?thesis
    by (auto simp: removeChannel_ok evolves_def served_def)
qed

lemma get_step_ok:
  assumes "get_step zero ctx pc p pc' p'" "promise_ok p" "pc_ok zero p ctx pc"
  shows "evolves zero (set_option (pc_chan pc)) p p' \<and> pc_ok zero p' ctx pc' \<and> pr_resolved p' = pr_resolved p
         \<and> (pc_chan pc' = None \<or> pc_chan pc' = pc_chan pc \<or> pc = GetAdd \<and> pc_chan pc' = Some (pr_next p))"
  using assms
proof cases
  case (add ch)
  with addChannel_evolves [OF assms(2) add(3)] show ?thesis by auto
next
  case (try_ok ch r)
  with try_served [OF assms(2) _ try_ok(3)] assms(3) show ?thesis by (auto simp: evolves_def)
next
  case (try_none ch)
  with try_served [OF assms(2) _ try_none(3)] assms(3) show ?thesis by auto
next
  case (select_recv ch x h r)
  with recv_served [OF assms(2) _ select_recv(4,5)] recv_evolves [OF assms(2) select_recv(4)] assms(3)
  show ?thesis by (auto simp: evolves_def)
next
  case (select_ctx e ch)
  with assms show ?thesis by (auto simp: evolves_refl)
next
  case (retry_ok ch r)
  with try_served [OF assms(2) _ retry_ok(3)] assms(3) show ?thesis by (auto simp: evolves_def)
next
  case (retry_none ch)
  with try_served [OF assms(2) _ retry_none(3)] assms(3) show ?thesis by auto
next
  case (removed ch)
  with remove_served [OF assms(2) _ removed(3)] assms(3) show ?thesis by auto
next
  case (not_removed ch)
  with remove_served [OF assms(2) _ not_removed(3)] assms(3) show ?thesis by auto
next
  case (recv ch x h r)
  with recv_served [OF assms(2) _ recv(4,5)] recv_evolves [OF assms(2) recv(4)] assms(3)
  show ?thesis by (auto simp: evolves_def)
qed

lemma pc_ok_evolves:
  assumes "evolves zero T p p'" "pc_ok zero p ctx pc" "\<forall>ch. pc_chan pc = Some ch \<longrightarrow> ch \<notin> T"
  shows "pc_ok zero p' ctx pc"
  using assms by (cases pc) (auto simp: evolves_def)

definition sys_ok :: "'v \<Rightarrow> ('v, 't) promise_sys \<Rightarrow> bool" where
  "sys_ok zero S =
     (promise_ok (ps_promise S)
      \<and> ps_won S = (if pr_resolved (ps_promise S) then [outcome zero (ps_promise S)] else [])
      \<and> (\<forall>t pc. ps_pc S t = Some pc \<longrightarrow> pc_ok zero (ps_promise S) (ps_ctx S t) pc)
      \<and> (\<forall>t pc ch. ps_pc S t = Some pc \<longrightarrow> pc_chan pc = Some ch \<longrightarrow>
           ch < pr_next (ps_promise S) \<and> ch \<notin> ps_outs S
           \<and> (\<forall>t' pc'. ps_pc S t' = Some pc' \<longrightarrow> pc_chan pc' = Some ch \<longrightarrow> t' = t))
      \<and> (\<forall>ch \<in> ps_outs S. ch < pr_next (ps_promise S)))"

lemma sys_okD:
  assumes "sys_ok zero S"
  shows "promise_ok (ps_promise S)"
    and "ps_won S = (if pr_resolved (ps_promise S) then [outcome zero (ps_promise S)] else [])"
    and "ps_pc S t = Some pc \<Longrightarrow> pc_ok zero (ps_promise S) (ps_ctx S t) pc"
    and "ps_pc S t = Some pc \<Longrightarrow> pc_chan pc = Some ch \<Longrightarrow> ch < pr_next (ps_promise S) \<and> ch \<notin> ps_outs S"
    and "ps_pc S t = Some pc \<Longrightarrow> pc_chan pc = Some ch \<Longrightarrow> ps_pc S u = Some q \<Longrightarrow> pc_chan q = Some ch \<Longrightarrow> u = t"
    and "ch \<in> ps_outs S \<Longrightarrow> ch < pr_next (ps_promise S)"
  using assms unfolding sys_ok_def by blast+

lemma sys_ok_start: "sys_ok zero ps_start"
  by (simp add: sys_ok_def ps_start_def promise_ok_def new_promise_def)

text \<open>A change of the promise that uses up no channel of a \<open>Get\<close>.\<close>

lemma sys_ok_evolves:
  assumes "sys_ok zero S" "evolves zero T (ps_promise S) p'" "T \<subseteq> ps_outs S"
    and "won = (if pr_resolved p' then [outcome zero p'] else [])"
    and "\<forall>ch \<in> outs. ch \<in> ps_outs S \<or> pr_next (ps_promise S) \<le> ch \<and> ch < pr_next p'"
  shows "sys_ok zero (S\<lparr>ps_promise := p', ps_won := won, ps_outs := outs\<rparr>)"
proof -
  have next_le: "pr_next (ps_promise S) \<le> pr_next p'" using assms(2) by (simp add: evolves_def)
  have "pc_ok zero p' (ps_ctx S t) pc" if "ps_pc S t = Some pc" for t pc
    by (rule pc_ok_evolves [OF assms(2)]) (use assms(1,3) that in \<open>auto simp: sys_ok_def\<close>)
  then show ?thesis using assms next_le unfolding sys_ok_def evolves_def
    by simp (meson leD less_le_trans)
qed

lemma sys_ok_get:
  assumes "sys_ok zero S" "ps_pc S t = Some pc" "get_step zero (ps_ctx S t) pc (ps_promise S) pc' p'"
  shows "sys_ok zero (S\<lparr>ps_promise := p', ps_pc := (ps_pc S)(t \<mapsto> pc')\<rparr>)"
proof -
  note inv = sys_okD [OF assms(1)]
  note g = get_step_ok [OF assms(3) inv(1) inv(3) [OF assms(2)]]
  then have ev: "evolves zero (set_option (pc_chan pc)) (ps_promise S) p'" by simp
  then have next_le: "pr_next (ps_promise S) \<le> pr_next p'" and pok: "promise_ok p'"
    by (simp_all add: evolves_def)
  have other: "pc_ok zero p' (ps_ctx S u) q" if "u \<noteq> t" "ps_pc S u = Some q" for u q
    by (rule pc_ok_evolves [OF ev inv(3) [OF that(2)]]) (use inv(5) [OF that(2) _ assms(2)] that(1) in force)
  have new: "ch < pr_next p' \<and> ch \<notin> ps_outs S \<and> (\<forall>u q. ps_pc S u = Some q \<longrightarrow> pc_chan q = Some ch \<longrightarrow> u = t)"
    if "pc_chan pc' = Some ch" for ch
  proof (cases "pc_chan pc' = pc_chan pc")
    case True
    with that inv(4,5) [OF assms(2)] next_le show ?thesis by force
  next
    case False
    with that g have ch: "pc = GetAdd" "ch = pr_next (ps_promise S)" by auto
    with assms(3) inv(1) have "pr_next p' = Suc ch"
      by (auto elim!: get_step.cases dest: addChannel_evolves)
    with ch show ?thesis using inv(4,6) by fastforce
  qed
  have "outcome zero p' = outcome zero (ps_promise S)" if "pr_resolved (ps_promise S)"
    using ev that by (simp add: evolves_def)
  then have won: "ps_won S = (if pr_resolved p' then [outcome zero p'] else [])" using g inv(2) by auto
  let ?pcs = "(ps_pc S)(t \<mapsto> pc')"
  have old: "ch < pr_next p' \<and> ch \<notin> ps_outs S \<and> (\<forall>u' q'. ps_pc S u' = Some q' \<longrightarrow> pc_chan q' = Some ch \<longrightarrow> u' = u)"
    if "ps_pc S u = Some q" "pc_chan q = Some ch" for u q ch
    using inv(4,5) [OF that] next_le by force
  have own: "ch < pr_next p' \<and> ch \<notin> ps_outs S \<and> (\<forall>u' q'. ?pcs u' = Some q' \<longrightarrow> pc_chan q' = Some ch \<longrightarrow> u' = u)"
    if "?pcs u = Some q" "pc_chan q = Some ch" for u q ch
  proof (cases "u = t")
    case True
    then show ?thesis using that new [of ch] by (auto split: if_splits)
  next
    case False
    with that have q: "ps_pc S u = Some q" by simp
    have "u' = u" if *: "?pcs u' = Some q'" "pc_chan q' = Some ch" for u' q'
    proof (cases "u' = t")
      case True
      with * new [of ch] q \<open>pc_chan q = Some ch\<close> \<open>u \<noteq> t\<close> show ?thesis by fastforce
    next
      case False
      with * old [OF q \<open>pc_chan q = Some ch\<close>] show ?thesis by simp
    qed
    with old [OF q that(2)] show ?thesis by blast
  qed
  have pcs: "pc_ok zero p' (ps_ctx S u) q" if "?pcs u = Some q" for u q
    using that g other [of u q] by (auto split: if_splits)
  define S' where "S' = S\<lparr>ps_promise := p', ps_pc := ?pcs\<rparr>"
  have "ps_promise S' = p'" "ps_pc S' = ?pcs" "ps_ctx S' = ps_ctx S" "ps_outs S' = ps_outs S" "ps_won S' = ps_won S"
    by (simp_all add: S'_def)
  moreover have "\<forall>ch \<in> ps_outs S. ch < pr_next p'" using inv(6) next_le less_le_trans by blast
  ultimately have "sys_ok zero S'" unfolding sys_ok_def using pok won pcs own by (simp only:) blast
  then show ?thesis by (simp only: S'_def)
qed

lemma promise_step_ok:
  assumes "promise_step zero S S'" "sys_ok zero S"
  shows "sys_ok zero S'"
  using assms
proof cases
  case (resolve v r p')
  have pok: "promise_ok (ps_promise S)" using assms(2) by (simp add: sys_ok_def)
  note ev = Resolve_evolves [OF pok resolve(2), where zero=zero and T="{}"]
  have "sys_ok zero (S\<lparr>ps_promise := p', ps_won := ps_won S @ (if r = None then [(v, None)] else []), ps_outs := ps_outs S\<rparr>)"
    by (rule sys_ok_evolves [OF assms(2), of "{}"]) (use ev assms(2) in \<open>auto simp: sys_ok_def evolves_def\<close>)
  with resolve show ?thesis by simp
next
  case (reject err r p')
  have pok: "promise_ok (ps_promise S)" using assms(2) by (simp add: sys_ok_def)
  note ev = Reject_evolves [OF pok reject(2), where zero=zero and T="{}"]
  have "sys_ok zero (S\<lparr>ps_promise := p', ps_won := ps_won S @ (if r = None then [(zero, err)] else []), ps_outs := ps_outs S\<rparr>)"
    by (rule sys_ok_evolves [OF assms(2), of "{}"]) (use ev assms(2) in \<open>auto simp: sys_ok_def evolves_def\<close>)
  with reject show ?thesis by simp
next
  case (chan ch p')
  have pok: "promise_ok (ps_promise S)" using assms(2) by (simp add: sys_ok_def)
  note ev = addChannel_evolves [OF pok chan(2), where zero=zero and T="{}"]
  have "sys_ok zero (S\<lparr>ps_promise := p', ps_won := ps_won S, ps_outs := insert ch (ps_outs S)\<rparr>)"
    by (rule sys_ok_evolves [OF assms(2), of "{}"]) (use ev assms(2) in \<open>auto simp: sys_ok_def evolves_def\<close>)
  with chan show ?thesis by simp
next
  case (recv_out ch x h)
  have pok: "promise_ok (ps_promise S)" using assms(2) by (simp add: sys_ok_def)
  note ev = recv_evolves [OF pok recv_out(3), where zero=zero]
  have "sys_ok zero (S\<lparr>ps_promise := (ps_promise S)\<lparr>pr_heap := h\<rparr>, ps_won := ps_won S, ps_outs := ps_outs S\<rparr>)"
    by (rule sys_ok_evolves [OF assms(2) ev]) (use ev recv_out assms(2) in \<open>auto simp: sys_ok_def evolves_def\<close>)
  with recv_out show ?thesis by simp
next
  case (call t)
  with assms(2) show ?thesis by (auto simp: sys_ok_def)
next
  case (get t pc pc' p')
  with assms(2) show ?thesis by (simp add: sys_ok_get)
next
  case (expire t e)
  have "pc_ok zero (ps_promise S) (Some e) pc" if "pc_ok zero (ps_promise S) None pc" for pc
    using that by (cases pc) auto
  with expire sys_okD(3) [OF assms(2)]
  have "pc_ok zero (ps_promise S) (((ps_ctx S)(t \<mapsto> e)) u) pc" if "ps_pc S u = Some pc" for u pc
    using that by (cases "u = t") fastforce+
  with expire assms(2) show ?thesis by (simp add: sys_ok_def del: fun_upd_apply)
qed

lemma promise_reachable_ok:
  "(promise_step zero)\<^sup>*\<^sup>* ps_start S \<Longrightarrow> sys_ok zero S"
  by (induction rule: rtranclp_induct) (auto simp: sys_ok_start promise_step_ok)

section \<open>Futures\<close>

text \<open>
  The body of a future has returned \<open>(value, err)\<close>; \<open>run\<close> settles the promise and returns the error
  that the pool logs. \<open>Get\<close>, \<open>Chan\<close> and \<open>IsResolved\<close> of a future are those of its promise.
\<close>

definition future_run :: "'v \<times> go_error option \<Rightarrow> 'v promise \<Rightarrow> (go_error option \<times> 'v promise) run" where
  "future_run res p =
     (case res of
        (value, Some err) \<Rightarrow>
          run_bind (Reject (Some err) p)
            (\<lambda>(rErr, p'). Ran (case rErr of
                                Some re \<Rightarrow> Some (Wrap ''future reject'' [Wrap [] [re, err]])
                              | None \<Rightarrow> Some err, p'))
      | (value, None) \<Rightarrow>
          run_bind (Resolve value p)
            (\<lambda>(rErr, p'). Ran (map_option (\<lambda>re. Wrap ''future resolve'' [re]) rErr, p')))"

section \<open>Properties\<close>

text \<open>C7: under any interleaving of the users of a promise, a call of \<open>Get\<close> that returned has either the
  one outcome that \<open>Resolve\<close> or \<open>Reject\<close> set, or the error of its own context, which is done. All
  callers whose context lives get the same.\<close>

theorem promise_get_outcome:
  assumes "(promise_step zero)\<^sup>*\<^sup>* ps_start S" "ps_pc S t = Some (GetDone r)"
  shows "ps_won S = [r] \<or> (ps_ctx S t \<noteq> None \<and> r = (zero, ps_ctx S t))"
proof -
  have ok: "sys_ok zero S" by (rule promise_reachable_ok [OF assms(1)])
  show ?thesis using sys_okD(2) [OF ok] sys_okD(3) [OF ok assms(2)] by auto
qed

text \<open>A run in which one caller waits, the promise is resolved with 7, and the caller gets it.\<close>

definition settled_promise :: "nat promise" where
  "settled_promise = \<lparr>pr_value = Some 7, pr_error = None, pr_channels = [], pr_resolved = True,
     pr_heap = [0 \<mapsto> full_chan (RightError 7)], pr_next = 1\<rparr>"

definition waiting_sys :: "(nat, nat) promise_sys" where
  "waiting_sys = \<lparr>ps_promise = settled_promise, ps_pc = [0 \<mapsto> GetSelect 0], ps_ctx = (\<lambda>_. None),
                  ps_outs = {}, ps_won = [(7, None)]\<rparr>"

lemma waiting_reachable: "(promise_step 0)\<^sup>*\<^sup>* ps_start waiting_sys"
proof -
  let ?p1 = "\<lparr>pr_value = None, pr_error = None, pr_channels = [0], pr_resolved = False,
              pr_heap = [0 \<mapsto> make_chan 1], pr_next = 1\<rparr> :: nat promise"
  let ?S = "\<lambda>pc. \<lparr>ps_promise = ?p1, ps_pc = [0 \<mapsto> pc], ps_ctx = (\<lambda>_. None), ps_outs = {}, ps_won = []\<rparr>
              :: (nat, nat) promise_sys"
  have "promise_step (0::nat) ps_start (ps_start\<lparr>ps_pc := [0::nat \<mapsto> GetAdd]\<rparr>)"
    using promise_step.call [of ps_start 0 0] by (simp add: ps_start_def)
  moreover have "promise_step 0 (ps_start\<lparr>ps_pc := [0::nat \<mapsto> GetAdd]\<rparr>) (?S (GetTry 0))"
    using promise_step.get [of "ps_start\<lparr>ps_pc := [0::nat \<mapsto> GetAdd]\<rparr>" 0 GetAdd 0 "GetTry 0" ?p1]
    by (simp add: ps_start_def new_promise_def get_step.add addChannel_def)
  moreover have "promise_step 0 (?S (GetTry 0)) (?S (GetSelect 0))"
    using promise_step.get [of "?S (GetTry 0)" 0 "GetTry 0" 0 "GetSelect 0" ?p1]
    by (simp add: get_step.try_none tryReadResult_def)
  moreover have "complete_loop [0] (RightError 7) [0 \<mapsto> make_chan 1] = Ran [0 \<mapsto> full_chan (RightError (7::nat))]"
    by (simp add: send_close_fresh)
  then have "Resolve 7 ?p1 = Ran (None, settled_promise)"
    by (simp add: Resolve_def complete_def getResolvedValue_def settled_promise_def Let_def del: complete_loop.simps)
  then have "promise_step 0 (?S (GetSelect 0)) waiting_sys"
    using promise_step.resolve [of 7 "?S (GetSelect 0)" None settled_promise 0] by (simp add: waiting_sys_def)
  ultimately show ?thesis by (meson rtranclp.intros)
qed

lemma waiting_wakes:
  "promise_step 0 waiting_sys (waiting_sys\<lparr>ps_promise := settled_promise\<lparr>pr_heap :=
     [0 \<mapsto> (full_chan (RightError 7))\<lparr>ch_buffer := []\<rparr>]\<rparr>, ps_pc := [0 \<mapsto> GetDone (7, None)]\<rparr>)"
  using promise_step.get [of waiting_sys 0 "GetSelect 0" 0 "GetDone (7, None)"
      "settled_promise\<lparr>pr_heap := [0 \<mapsto> (full_chan (RightError 7))\<lparr>ch_buffer := []\<rparr>]\<rparr>"]
    get_step.select_recv [of 0 settled_promise "Some (RightError 7)" _ 0 "(7, None)" None]
  by (simp add: waiting_sys_def settled_promise_def readResult_def RightError_def)

lemma promise_get_outcome_witness:
  "\<exists>S. (promise_step 0)\<^sup>*\<^sup>* ps_start S \<and> ps_pc S (0::nat) = Some (GetDone (7::nat, None))
       \<and> (ps_won S = [(7, None)] \<or> (ps_ctx S 0 \<noteq> None \<and> (7::nat, None) = (0, ps_ctx S 0)))"
proof -
  let ?S = "waiting_sys\<lparr>ps_promise := settled_promise\<lparr>pr_heap :=
     [0 \<mapsto> (full_chan (RightError 7))\<lparr>ch_buffer := []\<rparr>]\<rparr>, ps_pc := [0 \<mapsto> GetDone (7, None)]\<rparr>"
  have reach: "(promise_step 0)\<^sup>*\<^sup>* ps_start ?S"
    using waiting_reachable waiting_wakes by (rule rtranclp.rtrancl_into_rtrancl)
  have pc: "ps_pc ?S 0 = Some (GetDone (7, None))" by simp
  show ?thesis
    by (rule exI [of _ ?S], intro conjI, rule reach, rule pc, rule promise_get_outcome [OF reach pc])
qed

text \<open>C8: the operations of a promise never panic and never block while they hold the mutex, whatever
  its users did before: no send on a closed or full channel, no channel closed twice. At most one
  \<open>Resolve\<close> or \<open>Reject\<close> succeeds.\<close>

theorem promise_never_panics:
  assumes "(promise_step zero)\<^sup>*\<^sup>* ps_start S"
  shows "(\<exists>r p'. Resolve v (ps_promise S) = Ran (r, p')) \<and> (\<exists>r p'. Reject err (ps_promise S) = Ran (r, p'))
         \<and> (\<exists>ch p'. addChannel (ps_promise S) = Ran (ch, p'))
         \<and> (\<exists>b p'. removeChannel ch (ps_promise S) = Ran (b, p')) \<and> length (ps_won S) \<le> 1"
proof -
  have ok: "sys_ok zero S" by (rule promise_reachable_ok [OF assms])
  note p = sys_okD(1) [OF ok]
  have "\<exists>r p'. Resolve v (ps_promise S) = Ran (r, p')"
    using p by (cases "pr_resolved (ps_promise S)") (simp_all add: Resolve_fresh, simp add: Resolve_def)
  moreover have "\<exists>r p'. Reject err (ps_promise S) = Ran (r, p')"
    using p by (cases err; cases "pr_resolved (ps_promise S)") (simp_all add: Reject_fresh, simp_all add: Reject_def)
  moreover have "\<exists>b p'. removeChannel ch (ps_promise S) = Ran (b, p')"
    using removeChannel_ok [OF p, of ch] by (cases "ch \<in> set (pr_channels (ps_promise S))") (auto simp: removeChannel_def)
  ultimately show ?thesis using addChannel_ok [OF p] sys_okD(2) [OF ok] by simp
qed

lemma promise_never_panics_witness:
  "(\<exists>r p'. Resolve 1 settled_promise = Ran (r, p')) \<and> (\<exists>ch p'. addChannel settled_promise = Ran (ch, p'))"
  using promise_never_panics [OF waiting_reachable, of 1 None 0] by (simp add: waiting_sys_def)

text \<open>C9: no waiter is lost. Once the promise is resolved, a caller that waits in the select of \<open>Get\<close>, or
  in the receive after its context ended, can take its next step to return the outcome.\<close>

theorem promise_waiter_wakes:
  assumes "(promise_step zero)\<^sup>*\<^sup>* ps_start S" "pr_resolved (ps_promise S)"
    and "ps_pc S t = Some pc" "pc \<in> {GetSelect ch, GetRecv ch}"
  shows "\<exists>r p'. ps_won S = [r] \<and> get_step zero (ps_ctx S t) pc (ps_promise S) (GetDone r) p'"
proof -
  have ok: "sys_ok zero S" by (rule promise_reachable_ok [OF assms(1)])
  have "served (ps_promise S) ch" using sys_okD(3) [OF ok assms(3)] assms(4) by auto
  with assms(2) have "chan_recv ch (pr_heap (ps_promise S)) = Ran (Some (getResolvedValue False (ps_promise S)),
      (pr_heap (ps_promise S))(ch \<mapsto> (full_chan (getResolvedValue False (ps_promise S)))\<lparr>ch_buffer := []\<rparr>))"
    by (simp add: served_def)
  note steps = get_step.select_recv [OF this readResult_outcome] get_step.recv [OF this readResult_outcome]
  have "\<exists>p'. get_step zero (ps_ctx S t) pc (ps_promise S) (GetDone (outcome zero (ps_promise S))) p'"
  proof (cases "pc = GetSelect ch")
    case True
    show ?thesis unfolding True by (rule exI, rule steps(1) [OF sys_okD(1) [OF ok] assms(2)])
  next
    case False
    with assms(4) have "pc = GetRecv ch" by simp
    then show ?thesis by (simp only:) (rule exI, rule steps(2) [OF sys_okD(1) [OF ok] assms(2)])
  qed
  then show ?thesis using sys_okD(2) [OF ok] assms(2) by auto
qed

lemma promise_waiter_wakes_witness:
  "\<exists>r p'. ps_won waiting_sys = [r] \<and> get_step 0 (ps_ctx waiting_sys 0) (GetSelect 0) settled_promise (GetDone r) p'"
  using promise_waiter_wakes [OF waiting_reachable, of 0 "GetSelect 0" 0]
  by (simp add: waiting_sys_def settled_promise_def)

text \<open>A future settles its fresh promise with exactly what its body returned, value or error, and
  reports the body's error to the pool.\<close>

lemma future_settles:
  assumes "promise_ok p" "\<not> pr_resolved p"
  shows "\<exists>p'. future_run (value, err) p = Ran (err, p') \<and> pr_resolved p'
         \<and> outcome zero p' = (if err = None then (value, None) else (zero, err))"
  using assms by (cases err) (auto simp: future_run_def Resolve_fresh Reject_fresh promise_ok_def)

lemma future_settles_witness:
  "\<exists>p'. future_run (7, None) new_promise = Ran (None, p') \<and> pr_resolved p' \<and> outcome 0 p' = (7::nat, None)"
  using future_settles [of new_promise 7 None 0] by (simp add: promise_ok_def new_promise_def)

end
