(* ===== verification/Lazy_Poll.thy ===== *)
theory Lazy_Poll
  imports Go_Channels
begin

text \<open>
  The packages \<^verbatim>\<open>lazy\<close> (\<open>Lazy\<close>, a value computed once) and \<^verbatim>\<open>poll\<close> (\<open>Poll\<close>, a check repeated until
  it yields a value). The function of a lazy value and the check of a poll act on an outer state \<open>'w\<close>.
\<close>

section \<open>Lazy values\<close>

text \<open>\<open>lz_done\<close> is the flag of the \<open>sync.Once\<close>, whose \<open>Do\<close> runs its function for the first caller only.\<close>

record ('w, 'v) lazy =
  lz_function :: "'w \<Rightarrow> ('v \<times> go_error option) \<times> 'w"
  lz_value :: 'v
  lz_err :: "go_error option"
  lz_done :: bool

definition NewLazy :: "'v \<Rightarrow> ('w \<Rightarrow> ('v \<times> go_error option) \<times> 'w) \<Rightarrow> ('w, 'v) lazy" where
  "NewLazy zero function = \<lparr>lz_function = function, lz_value = zero, lz_err = None, lz_done = False\<rparr>"

definition lazy_Get :: "('w, 'v) lazy \<times> 'w \<Rightarrow> ('v \<times> go_error option) \<times> ('w, 'v) lazy \<times> 'w" where
  "lazy_Get = (\<lambda>(l, w).
     case (if lz_done l then (l, w)
           else (case lz_function l w of
                   ((v, err), w') \<Rightarrow> (l\<lparr>lz_value := v, lz_err := err, lz_done := True\<rparr>, w'))) of
       (l', w') \<Rightarrow> ((lz_value l', lz_err l'), l', w'))"

fun lazy_Gets :: "nat \<Rightarrow> ('w, 'v) lazy \<times> 'w \<Rightarrow> ('v \<times> go_error option) list \<times> ('w, 'v) lazy \<times> 'w" where
  "lazy_Gets 0 s = ([], s)"
| "lazy_Gets (Suc n) s = (case lazy_Get s of (r, s1) \<Rightarrow> case lazy_Gets n s1 of (rs, s2) \<Rightarrow> (r # rs, s2))"

lemma lazy_Gets_done:
  "lz_done l \<Longrightarrow> lazy_Gets n (l, w) = (replicate n (lz_value l, lz_err l), l, w)"
  by (induction n) (simp_all add: lazy_Get_def)

text \<open>However often a lazy value is read, its function runs exactly once, in the state of the first
  read, and every read returns what that run returned, an error included.\<close>

lemma lazy_computes_once:
  "\<exists>l'. lazy_Gets (Suc n) (NewLazy zero f, w) = (replicate (Suc n) (fst (f w)), l', snd (f w))"
  by (simp add: lazy_Get_def NewLazy_def lazy_Gets_done split: prod.split)

section \<open>Polling\<close>

text \<open>
  \<open>pe_wait\<close> is the select between \<open>ctx.Done()\<close> and the clock, true when the context won; \<open>pe_ctx\<close> is
  \<open>ctx.Err()\<close>; \<open>pe_check\<close> is the check.
\<close>

record ('w, 'v) poll_env =
  pe_wait :: "int \<Rightarrow> 'w \<Rightarrow> bool \<times> 'w"
  pe_ctx :: "'w \<Rightarrow> go_error option \<times> 'w"
  pe_check :: "'w \<Rightarrow> ('v \<times> go_error option) \<times> 'w"

text \<open>\<open>NewUntyped\<close> wraps a check without a value.\<close>

definition untyped_check :: "('w \<Rightarrow> go_error option \<times> 'w) \<Rightarrow> 'w \<Rightarrow> (unit \<times> go_error option) \<times> 'w" where
  "untyped_check check w = (case check w of (Some e, w') \<Rightarrow> (((), Some e), w') | (None, w') \<Rightarrow> (((), None), w'))"

text \<open>
  The goroutine's loop; it may run forever. The result is the value to send, or \<open>None\<close> when it
  returns without one.
\<close>

partial_function (option) poll_loop ::
  "('w, 'v) poll_env \<Rightarrow> int \<Rightarrow> 'w \<Rightarrow> ('v option \<times> 'w) option" where
  "poll_loop env interval w =
     (case pe_wait env interval w of
        (stopped, w1) \<Rightarrow>
          if stopped then Some (None, w1)
          else (case pe_ctx env w1 of
             (err, w2) \<Rightarrow>
               if err \<noteq> None then Some (None, w2)
               else (case pe_check env w2 of
                  ((result, err), w3) \<Rightarrow>
                    (case pe_ctx env w3 of
                       (ctxErr, w4) \<Rightarrow>
                         if ctxErr \<noteq> None then Some (None, w4)
                         else if is_err err ErrNoValue then poll_loop env interval w4
                         else if err \<noteq> None then Some (None, w4)
                         else Some (Some result, w4)))))"

text \<open>\<open>Poll\<close> makes the channel; the goroutine sends the value, if any, and closes it on its way out.\<close>

definition Poll :: "('w, 'v) poll_env \<Rightarrow> int \<Rightarrow> 'w \<Rightarrow> ('v chan_heap run \<times> 'w) option" where
  "Poll env interval w =
     (let h = [0 \<mapsto> make_chan 1] in
      map_option (\<lambda>(r, w').
        (run_bind (case r of Some v \<Rightarrow> chan_send 0 v h | None \<Rightarrow> Ran h) (chan_close 0), w'))
        (poll_loop env interval w))"

text \<open>One round: the wait passed and both looks at the context found it alive; what the check said.\<close>

definition poll_round :: "('w, 'v) poll_env \<Rightarrow> int \<Rightarrow> 'w \<Rightarrow> 'v \<times> go_error option \<Rightarrow> 'w \<Rightarrow> bool" where
  "poll_round env interval w res w' =
     (\<exists>w1 w2 w3. pe_wait env interval w = (False, w1) \<and> pe_ctx env w1 = (None, w2)
        \<and> pe_check env w2 = (res, w3) \<and> pe_ctx env w3 = (None, w'))"

inductive idle_rounds :: "('w, 'v) poll_env \<Rightarrow> int \<Rightarrow> 'w \<Rightarrow> 'w \<Rightarrow> bool" for env interval where
  none: "idle_rounds env interval w w"
| more: "poll_round env interval w (v, err) w1 \<Longrightarrow> is_err err ErrNoValue \<Longrightarrow> idle_rounds env interval w1 w'
         \<Longrightarrow> idle_rounds env interval w w'"

lemma poll_loop_unroll:
  assumes "poll_round env interval w (v, err) w1" "is_err err ErrNoValue"
  shows "poll_loop env interval w = poll_loop env interval w1"
  using assms by (subst poll_loop.simps) (auto simp: poll_round_def)

lemma poll_loop_rounds:
  "idle_rounds env interval w w' \<Longrightarrow> poll_loop env interval w = poll_loop env interval w'"
  by (induction rule: idle_rounds.induct) (auto simp: poll_loop_unroll)

lemma poll_loop_value:
  fixes env :: "('w, 'v) poll_env"
  assumes "poll_loop env interval w = Some y" "fst y = Some v"
  shows "\<exists>w0. idle_rounds env interval w w0 \<and> poll_round env interval w0 (v, None) (snd y)"
proof -
  have "fst y = Some v \<longrightarrow> (\<exists>w0. idle_rounds env interval w w0 \<and> poll_round env interval w0 (v, None) (snd y))"
  proof (rule poll_loop.raw_induct [of "\<lambda>env interval w y. fst y = Some v \<longrightarrow>
      (\<exists>w0. idle_rounds env interval w w0 \<and> poll_round env interval w0 (v, None) (snd y))", OF _ assms(1)])
    fix loop :: "('w, 'v) poll_env \<Rightarrow> int \<Rightarrow> 'w \<Rightarrow> ('v option \<times> 'w) option" and env :: "('w, 'v) poll_env" and interval w z
    assume IH: "\<And>(env :: ('w, 'v) poll_env) interval w y. loop env interval w = Some y \<Longrightarrow> fst y = Some v \<longrightarrow>
        (\<exists>w0. idle_rounds env interval w w0 \<and> poll_round env interval w0 (v, None) (snd y))"
    obtain b w1 where wait: "pe_wait env interval w = (b, w1)" by fastforce
    obtain e w2 where ctx: "pe_ctx env w1 = (e, w2)" by fastforce
    obtain x err w3 where check: "pe_check env w2 = ((x, err), w3)" by (metis surj_pair)
    obtain e' w4 where ctx': "pe_ctx env w3 = (e', w4)" by fastforce
    assume "(case pe_wait env interval w of
        (stopped, w1) \<Rightarrow>
          if stopped then Some (None, w1)
          else (case pe_ctx env w1 of
             (err, w2) \<Rightarrow>
               if err \<noteq> None then Some (None, w2)
               else (case pe_check env w2 of
                  ((result, err), w3) \<Rightarrow>
                    (case pe_ctx env w3 of
                       (ctxErr, w4) \<Rightarrow>
                         if ctxErr \<noteq> None then Some (None, w4)
                         else if is_err err ErrNoValue then loop env interval w4
                         else if err \<noteq> None then Some (None, w4)
                         else Some (Some result, w4))))) = Some z"
    note body = this [unfolded wait ctx check ctx' prod.case]
    have round: "poll_round env interval w (x, err) w4" if "\<not> b" "e = None" "e' = None"
      using that wait ctx check ctx' by (auto simp: poll_round_def)
    show "fst z = Some v \<longrightarrow> (\<exists>w0. idle_rounds env interval w w0 \<and> poll_round env interval w0 (v, None) (snd z))"
    proof (cases "\<not> b \<and> e = None \<and> e' = None \<and> is_err err ErrNoValue")
      case True
      with body IH [of env interval w4 z] round idle_rounds.more show ?thesis by fastforce
    next
      case False
      show ?thesis
      proof
        assume "fst z = Some v"
        with body False have "\<not> b \<and> e = None \<and> e' = None \<and> err = None \<and> z = (Some x, w4) \<and> x = v"
          by (cases z) (auto split: if_splits)
        with round show "\<exists>w0. idle_rounds env interval w w0 \<and> poll_round env interval w0 (v, None) (snd z)"
          by (auto intro: idle_rounds.none)
      qed
    qed
  qed
  with assms(2) show ?thesis by simp
qed

lemma Poll_result:
  "Poll env interval w = map_option (\<lambda>(r, w').
     (Ran [0 \<mapsto> (case r of Some v \<Rightarrow> full_chan v | None \<Rightarrow> (make_chan 1)\<lparr>ch_closed := True\<rparr>)], w'))
     (poll_loop env interval w)"
  unfolding Poll_def Let_def
  by (intro arg_cong2 [of _ _ _ _ map_option] ext) (auto simp: send_close_fresh split: option.split)

lemma full_chan_eq [simp]: "(full_chan x = full_chan v) = (x = v)"
  by (simp add: full_chan_def)

lemma full_not_empty [simp]: "(make_chan n)\<lparr>ch_closed := True\<rparr> \<noteq> full_chan v"
  by (simp add: full_chan_def make_chan_def)

lemma one_chan_eq: "([0 \<mapsto> c] = [0 \<mapsto> d]) = (c = d)" for c d :: "'v channel"
  by (metis fun_upd_same option.inject)

text \<open>\<open>Poll\<close> delivers a value exactly when, after finitely many rounds in which the check had no value
  yet, a round comes in which it succeeds with the context alive; the channel then holds that value
  and is closed.\<close>

lemma poll_delivers_iff:
  "Poll env interval w = Some (Ran [0 \<mapsto> full_chan v], w')
   \<longleftrightarrow> (\<exists>w0. idle_rounds env interval w w0 \<and> poll_round env interval w0 (v, None) w')"
proof -
  have "poll_loop env interval w = Some (Some v, w')"
    if "idle_rounds env interval w w0" "poll_round env interval w0 (v, None) w'" for w0
    using poll_loop_rounds [OF that(1)] that(2) by (subst (asm) (2) poll_loop.simps) (auto simp: poll_round_def)
  moreover have "Poll env interval w = Some (Ran [0 \<mapsto> full_chan v], w') \<longleftrightarrow> poll_loop env interval w = Some (Some v, w')"
    by (auto simp: Poll_result one_chan_eq split: option.splits)
  ultimately show ?thesis using poll_loop_value by fastforce
qed

text \<open>Polling ends: if the context ends, or the check fails or succeeds, after finitely many rounds
  without a value, then \<open>Poll\<close> returns, and it closes its channel without a panic.\<close>

lemma poll_terminates:
  assumes "idle_rounds env interval w w0"
    and "\<nexists>v err w1. poll_round env interval w0 (v, err) w1 \<and> is_err err ErrNoValue"
  shows "\<exists>h w'. Poll env interval w = Some (Ran h, w') \<and> (\<exists>c. h 0 = Some c \<and> ch_closed c)"
proof -
  have "poll_loop env interval w0 \<noteq> None"
    using assms(2) by (subst poll_loop.simps) (auto simp: poll_round_def split: prod.splits)
  with poll_loop_rounds [OF assms(1)] obtain r w' where loop: "poll_loop env interval w = Some (r, w')" by fastforce
  then show ?thesis by (auto simp: Poll_result full_chan_def split: option.split)
qed

text \<open>A check that has no value twice and then yields the number of its call.\<close>

definition third_time :: "(nat, nat) poll_env" where
  "third_time = \<lparr>pe_wait = (\<lambda>d n. (False, n)), pe_ctx = (\<lambda>n. (None, n)),
                 pe_check = (\<lambda>n. ((n, if n < 2 then Some (Atom ErrNoValue) else None), n + 1))\<rparr>"

lemma poll_terminates_witness:
  "\<exists>h w'. Poll third_time 5 0 = Some (Ran h, w') \<and> (\<exists>c. h 0 = Some c \<and> ch_closed c)"
proof -
  have "idle_rounds third_time 5 0 2"
    by (rule idle_rounds.more [where v=0 and err="Some (Atom ErrNoValue)" and ?w1.0=1],
        simp add: poll_round_def third_time_def, simp,
        rule idle_rounds.more [where v=1 and err="Some (Atom ErrNoValue)" and ?w1.0=2],
        simp add: poll_round_def third_time_def, simp, rule idle_rounds.none)
  moreover have "\<nexists>v err w1. poll_round third_time 5 2 (v, err) w1 \<and> is_err err ErrNoValue"
    by (auto simp: poll_round_def third_time_def)
  ultimately show ?thesis by (rule poll_terminates)
qed

end
