(* ===== verification/Pools.thy ===== *)
theory Pools
  imports Go_Channels
begin

text \<open>
  The package \<^verbatim>\<open>pool\<close>: the worker pool \<open>Impl\<close> (\<^verbatim>\<open>pool.go\<close>) as a state machine. \<open>Start\<close>, \<open>Stop\<close> and the
  entry of \<open>ExecuteTask\<close> happen under the pool's mutex; \<open>ExecuteTask\<close> keeps the mutex while it sends
  its tasks over the unbuffered channel, so the caller inside its loop is the field \<open>pl_holder\<close>. The
  workers, the goroutines they start for the tasks, and the contexts interleave freely.

  Contexts and channels are numbered. A goroutine remembers the worker that started it
  (\<open>go_worker\<close>), and \<open>pl_entered\<close> lists the tasks of all calls that \<open>ExecuteTask\<close> accepted; both serve
  the properties only. Log lines are left out.
\<close>

section \<open>State\<close>

datatype worker_state = WIdle | WRunning nat nat | WExited

text \<open>\<open>WRunning g c\<close>: the worker waits for goroutine \<open>g\<close>, whose task has the context \<open>c\<close>.\<close>

record worker =
  wk_chan :: nat
  wk_ctx :: nat
  wk_state :: worker_state

record 'task goroutine =
  go_task :: 'task
  go_ctx :: nat
  go_worker :: nat
  go_done :: bool

record ('task, 't) pool =
  pl_size :: nat
  pl_started :: bool
  pl_channel :: "nat option"
  pl_holder :: "('t \<times> 'task list \<times> nat) option"
  pl_execs :: "'t \<Rightarrow> ('task list \<times> nat) option"
  pl_next :: nat
  pl_closed :: "nat set"
  pl_workers :: "worker list"
  pl_tasks :: "'task goroutine list"
  pl_done :: "nat set"
  pl_entered :: "'task list"

definition NewPool :: "nat \<Rightarrow> ('task, 't) pool" where
  "NewPool n = \<lparr>pl_size = n, pl_started = False, pl_channel = None, pl_holder = None, pl_execs = (\<lambda>_. None),
     pl_next = 0, pl_closed = {}, pl_workers = [], pl_tasks = [], pl_done = {}, pl_entered = []\<rparr>"

section \<open>The operations under the mutex\<close>

definition pool_Start :: "nat \<Rightarrow> ('task, 't) pool \<Rightarrow> go_error option \<times> ('task, 't) pool" where
  "pool_Start ctx p =
     (if pl_started p then (Some (Atom ErrAlreadyStarted), p)
      else (None, p\<lparr>pl_channel := Some (pl_next p), pl_next := pl_next p + 1,
                    pl_workers := pl_workers p @
                      replicate (pl_size p) \<lparr>wk_chan = pl_next p, wk_ctx = ctx, wk_state = WIdle\<rparr>,
                    pl_started := True\<rparr>))"

definition pool_Stop :: "('task, 't) pool \<Rightarrow> (go_error option \<times> ('task, 't) pool) run" where
  "pool_Stop p =
     (if \<not> pl_started p then Ran (Some (Atom ErrAlreadyStopped), p)
      else (case pl_channel p of
              None \<Rightarrow> Panicked
            | Some ch \<Rightarrow>
                if ch \<in> pl_closed p then Panicked
                else Ran (None, p\<lparr>pl_closed := insert ch (pl_closed p), pl_started := False\<rparr>)))"

text \<open>\<open>ExecuteTask\<close> up to its loop; the caller then holds the mutex with its tasks to send.\<close>

definition pool_enter ::
  "'t \<Rightarrow> nat \<Rightarrow> 'task list \<Rightarrow> ('task, 't) pool \<Rightarrow> go_error option \<times> ('task, 't) pool" where
  "pool_enter t ctx tasks p =
     (if \<not> pl_started p then (Some (Atom ErrNotStarted), p)
      else (None, p\<lparr>pl_holder := Some (t, tasks, ctx), pl_entered := pl_entered p @ tasks\<rparr>))"

text \<open>
  The send of one task: it meets the receive of an idle worker of that channel, which starts a
  goroutine for the task and waits for it. On a closed channel the send panics.
\<close>

definition pool_send :: "nat \<Rightarrow> ('task, 't) pool \<Rightarrow> ('task, 't) pool run" where
  "pool_send w p =
     (case (pl_holder p, pl_channel p) of
        (Some (t, task # rest, ctx), Some ch) \<Rightarrow>
          if ch \<in> pl_closed p then Panicked
          else if w < length (pl_workers p) \<and> wk_chan (pl_workers p ! w) = ch \<and> wk_state (pl_workers p ! w) = WIdle
          then Ran (p\<lparr>pl_holder := Some (t, rest, ctx),
                      pl_workers := (pl_workers p)[w := (pl_workers p ! w)\<lparr>wk_state := WRunning (length (pl_tasks p)) ctx\<rparr>],
                      pl_tasks := pl_tasks p @ [\<lparr>go_task = task, go_ctx = ctx, go_worker = w, go_done = False\<rparr>]\<rparr>)
          else Blocked
      | _ \<Rightarrow> Blocked)"

text \<open>What a worker may do on its own: the next states of \<open>startWorker\<close>, one for each ready case.\<close>

definition worker_next :: "('task, 't) pool \<Rightarrow> worker \<Rightarrow> worker_state list" where
  "worker_next p wk =
     (case wk_state wk of
        WIdle \<Rightarrow> (if wk_ctx wk \<in> pl_done p then [WExited] else [])
                @ (if wk_chan wk \<in> pl_closed p then [WExited] else [])
      | WRunning g c \<Rightarrow> (if wk_ctx wk \<in> pl_done p then [WExited] else [])
                @ (if c \<in> pl_done p then [WIdle] else [])
                @ (if go_done (pl_tasks p ! g) then [WIdle] else [])
      | WExited \<Rightarrow> [])"

inductive pool_step :: "('task, 't) pool \<Rightarrow> ('task, 't) pool \<Rightarrow> bool" where
  start: "pl_holder p = None \<Longrightarrow> pool_Start ctx p = (r, p') \<Longrightarrow> pool_step p p'"
| stop: "pl_holder p = None \<Longrightarrow> pool_Stop p = Ran (r, p') \<Longrightarrow> pool_step p p'"
| enter: "pl_holder p = None \<Longrightarrow> pool_enter t ctx tasks p = (r, p') \<Longrightarrow> pool_step p p'"
| send: "pool_send w p = Ran p' \<Longrightarrow> pool_step p p'"
| leave: "pl_holder p = Some (t, [], ctx) \<Longrightarrow> pool_step p (p\<lparr>pl_holder := None\<rparr>)"
| execute: "pl_execs p t = None \<Longrightarrow> pool_step p (p\<lparr>pl_execs := (pl_execs p)(t \<mapsto> (functions, ctx))\<rparr>)"
| execute_one: "pl_execs p t = Some (f # fs, ctx) \<Longrightarrow> pl_holder p = None \<Longrightarrow> pool_enter t ctx [f] p = (r, p') \<Longrightarrow>
     pool_step p (p'\<lparr>pl_execs := (pl_execs p)(t := if r = None then Some (fs, ctx) else None)\<rparr>)"
| execute_end: "pl_execs p t = Some ([], ctx) \<Longrightarrow> pool_step p (p\<lparr>pl_execs := (pl_execs p)(t := None)\<rparr>)"
| worker: "w < length (pl_workers p) \<Longrightarrow> st \<in> set (worker_next p (pl_workers p ! w)) \<Longrightarrow>
     pool_step p (p\<lparr>pl_workers := (pl_workers p)[w := (pl_workers p ! w)\<lparr>wk_state := st\<rparr>]\<rparr>)"
| finish: "g < length (pl_tasks p) \<Longrightarrow>
     pool_step p (p\<lparr>pl_tasks := (pl_tasks p)[g := (pl_tasks p ! g)\<lparr>go_done := True\<rparr>]\<rparr>)"
| cancel: "pool_step p (p\<lparr>pl_done := insert ctx (pl_done p)\<rparr>)"

section \<open>Invariant\<close>

definition workers_of :: "nat \<Rightarrow> worker list \<Rightarrow> nat set" where
  "workers_of ch ws = {w. w < length ws \<and> wk_chan (ws ! w) = ch}"

text \<open>The goroutine still runs, and neither its task's context nor its worker's is done.\<close>

definition live_task :: "('task, 't) pool \<Rightarrow> nat \<Rightarrow> bool" where
  "live_task p g = (g < length (pl_tasks p) \<and> \<not> go_done (pl_tasks p ! g) \<and> go_ctx (pl_tasks p ! g) \<notin> pl_done p
                    \<and> wk_ctx (pl_workers p ! go_worker (pl_tasks p ! g)) \<notin> pl_done p)"

definition chans_ok :: "('task, 't) pool \<Rightarrow> bool" where
  "chans_ok p =
     ((pl_started p \<longrightarrow> (\<exists>ch. pl_channel p = Some ch \<and> ch \<notin> pl_closed p))
      \<and> (pl_holder p \<noteq> None \<longrightarrow> pl_started p)
      \<and> (\<forall>ch. pl_channel p = Some ch \<longrightarrow> ch < pl_next p) \<and> (\<forall>ch \<in> pl_closed p. ch < pl_next p)
      \<and> pl_entered p = map go_task (pl_tasks p) @ (case pl_holder p of None \<Rightarrow> [] | Some (t, rest, ctx) \<Rightarrow> rest))"

definition workers_ok :: "('task, 't) pool \<Rightarrow> bool" where
  "workers_ok p =
     ((\<forall>w < length (pl_workers p). wk_chan (pl_workers p ! w) < pl_next p
         \<and> (\<forall>g c. wk_state (pl_workers p ! w) = WRunning g c \<longrightarrow> g < length (pl_tasks p)))
      \<and> (\<forall>ch < pl_next p. card (workers_of ch (pl_workers p)) = pl_size p)
      \<and> (\<forall>g < length (pl_tasks p). go_worker (pl_tasks p ! g) < length (pl_workers p)))"

definition tasks_ok :: "('task, 't) pool \<Rightarrow> bool" where
  "tasks_ok p = (\<forall>g. live_task p g \<longrightarrow>
     wk_state (pl_workers p ! go_worker (pl_tasks p ! g)) = WRunning g (go_ctx (pl_tasks p ! g)))"

lemmas pool_ok_defs = chans_ok_def workers_ok_def tasks_ok_def

lemma pool_enter_eq:
  "pool_enter t ctx tasks p = (r, p') \<Longrightarrow>
   p' = (if r = None then p\<lparr>pl_holder := Some (t, tasks, ctx), pl_entered := pl_entered p @ tasks\<rparr> else p)
   \<and> (r = None) = pl_started p"
  by (auto simp: pool_enter_def split: if_splits)

lemma pool_send_eq:
  assumes "pool_send w p = Ran p'"
  obtains t task rest ctx ch where
    "pl_holder p = Some (t, task # rest, ctx)" "pl_channel p = Some ch" "ch \<notin> pl_closed p"
    "w < length (pl_workers p)" "wk_chan (pl_workers p ! w) = ch" "wk_state (pl_workers p ! w) = WIdle"
    "p' = p\<lparr>pl_holder := Some (t, rest, ctx),
            pl_workers := (pl_workers p)[w := (pl_workers p ! w)\<lparr>wk_state := WRunning (length (pl_tasks p)) ctx\<rparr>],
            pl_tasks := pl_tasks p @ [\<lparr>go_task = task, go_ctx = ctx, go_worker = w, go_done = False\<rparr>]\<rparr>"
  using assms by (auto simp: pool_send_def split: option.splits prod.splits list.splits if_splits)

lemma worker_update [simp]:
  "wk_chan (ws[w := (ws ! w)\<lparr>wk_state := st\<rparr>] ! x) = wk_chan (ws ! x)
   \<and> wk_ctx (ws[w := (ws ! w)\<lparr>wk_state := st\<rparr>] ! x) = wk_ctx (ws ! x)"
  by (cases "w = x"; cases "w < length ws") (simp_all add: list_update_beyond)

lemma goroutine_update [simp]:
  "go_task (gs[g := (gs ! g)\<lparr>go_done := b\<rparr>] ! x) = go_task (gs ! x)
   \<and> go_ctx (gs[g := (gs ! g)\<lparr>go_done := b\<rparr>] ! x) = go_ctx (gs ! x)
   \<and> go_worker (gs[g := (gs ! g)\<lparr>go_done := b\<rparr>] ! x) = go_worker (gs ! x)"
  by (cases "g = x"; cases "g < length gs") (simp_all add: list_update_beyond)

lemma map_task_update [simp]: "map go_task (gs[g := (gs ! g)\<lparr>go_done := b\<rparr>]) = map go_task gs"
  by (rule nth_equalityI) simp_all

lemma workers_of_update [simp]:
  "workers_of ch (ws[w := (ws ! w)\<lparr>wk_state := st\<rparr>]) = workers_of ch ws"
  by (simp add: workers_of_def)

lemma chans_ok_step:
  assumes "pool_step p p'" "chans_ok p"
  shows "chans_ok p'"
  using assms
proof cases
  case (start ctx r)
  with assms(2) show ?thesis by (fastforce simp: chans_ok_def pool_Start_def split: if_splits)
next
  case (stop r)
  with assms(2) show ?thesis by (auto simp: chans_ok_def pool_Stop_def split: if_splits option.splits)
next
  case (enter t ctx tasks r)
  with assms(2) show ?thesis by (auto simp: chans_ok_def dest!: pool_enter_eq split: if_splits)
next
  case (send w)
  from pool_send_eq [OF this] obtain t task rest ctx ch w gr where
    "pl_holder p = Some (t, task # rest, ctx)" "go_task gr = task"
    "p' = p\<lparr>pl_holder := Some (t, rest, ctx), pl_workers := w, pl_tasks := pl_tasks p @ [gr]\<rparr>"
    by (metis goroutine.select_convs(1))
  with assms(2) show ?thesis by (simp add: chans_ok_def)
next
  case (execute_one t f fs ctx r p1)
  with assms(2) show ?thesis by (auto simp: chans_ok_def dest!: pool_enter_eq split: if_splits)
next
  case (finish g)
  with finish assms(2) show ?thesis by (simp add: chans_ok_def)
qed (auto simp: chans_ok_def)

lemma workers_of_start:
  assumes "workers_ok p" "pool_Start ctx p = (r, p')"
  shows "workers_ok p'"
proof (cases "pl_started p")
  case True
  with assms show ?thesis by (simp add: pool_Start_def)
next
  case False
  let ?new = "\<lparr>wk_chan = pl_next p, wk_ctx = ctx, wk_state = WIdle\<rparr>"
  have p': "pl_workers p' = pl_workers p @ replicate (pl_size p) ?new" "pl_next p' = pl_next p + 1"
    "pl_size p' = pl_size p" "pl_tasks p' = pl_tasks p"
    using assms(2) False by (auto simp: pool_Start_def)
  have nth: "pl_workers p' ! w = (if w < length (pl_workers p) then pl_workers p ! w else ?new)"
    if "w < length (pl_workers p')" for w
    using that by (auto simp: p' nth_append)
  have low: "wk_chan (pl_workers p ! w) \<noteq> pl_next p" if "w < length (pl_workers p)" for w
    using assms(1) that by (metis nat_neq_iff workers_ok_def)
  have old: "workers_of ch (pl_workers p') = workers_of ch (pl_workers p)" if "ch < pl_next p" for ch
    using that nth by (auto simp: workers_of_def p'(1) split: if_splits)
  have "workers_of (pl_next p) (pl_workers p') = {length (pl_workers p) ..< length (pl_workers p) + pl_size p}"
  proof (rule set_eqI)
    fix w
    show "(w \<in> workers_of (pl_next p) (pl_workers p'))
        = (w \<in> {length (pl_workers p) ..< length (pl_workers p) + pl_size p})"
      by (cases "w < length (pl_workers p)") (use low [of w] nth [of w] in \<open>auto simp: workers_of_def p'(1)\<close>)
  qed
  then have "card (workers_of ch (pl_workers p')) = pl_size p" if "ch < pl_next p'" for ch
    using that assms(1) old by (cases "ch = pl_next p") (auto simp: workers_ok_def p')
  moreover have "wk_chan (pl_workers p' ! w) < pl_next p'
      \<and> (\<forall>g c. wk_state (pl_workers p' ! w) = WRunning g c \<longrightarrow> g < length (pl_tasks p'))"
    if "w < length (pl_workers p')" for w
    using assms(1) nth [OF that] by (auto simp: workers_ok_def p'(2-4) less_Suc_eq)
  moreover have "length (pl_workers p) \<le> length (pl_workers p')" by (simp add: p')
  ultimately show ?thesis using assms(1) unfolding workers_ok_def p'(3,4) by (meson less_le_trans)
qed

lemma workers_ok_step:
  assumes "pool_step p p'" "workers_ok p"
  shows "workers_ok p'"
  using assms
proof cases
  case (start ctx r)
  with assms(2) show ?thesis by (simp add: workers_of_start)
next
  case (stop r)
  with assms(2) show ?thesis
    by (auto simp: workers_ok_def pool_Stop_def split: if_splits option.splits)
next
  case (enter t ctx tasks r)
  with assms(2) show ?thesis by (auto simp: workers_ok_def dest!: pool_enter_eq split: if_splits)
next
  case (send w)
  from pool_send_eq [OF this] obtain t task rest ctx ch where
    w: "w < length (pl_workers p)" and p': "p' = p\<lparr>pl_holder := Some (t, rest, ctx),
            pl_workers := (pl_workers p)[w := (pl_workers p ! w)\<lparr>wk_state := WRunning (length (pl_tasks p)) ctx\<rparr>],
            pl_tasks := pl_tasks p @ [\<lparr>go_task = task, go_ctx = ctx, go_worker = w, go_done = False\<rparr>]\<rparr>" .
  with w assms(2) show ?thesis
    by (auto simp: workers_ok_def p' less_Suc_eq nth_list_update nth_append)
next
  case (execute_one t f fs ctx r p1)
  with assms(2) show ?thesis by (auto simp: workers_ok_def dest!: pool_enter_eq split: if_splits)
next
  case (worker w st)
  have "g < length (pl_tasks p)" if "st = WRunning g c" for g c
    using worker(3) that by (auto simp: worker_next_def split: worker_state.splits if_splits)
  with worker assms(2) show ?thesis
    by (auto simp: workers_ok_def nth_list_update)
next
  case (finish g)
  with assms(2) show ?thesis by (auto simp: workers_ok_def)
qed (auto simp: workers_ok_def)

text \<open>A step of a worker other than the one of a live task, or towards exit or idleness.\<close>

lemma tasks_ok_worker:
  assumes "tasks_ok p" "workers_ok p" "w < length (pl_workers p)" "st \<in> set (worker_next p (pl_workers p ! w))"
  shows "tasks_ok (p\<lparr>pl_workers := (pl_workers p)[w := (pl_workers p ! w)\<lparr>wk_state := st\<rparr>]\<rparr>)"
proof -
  let ?p' = "p\<lparr>pl_workers := (pl_workers p)[w := (pl_workers p ! w)\<lparr>wk_state := st\<rparr>]\<rparr>"
  have "wk_state (pl_workers ?p' ! go_worker (pl_tasks p ! g)) = WRunning g (go_ctx (pl_tasks p ! g))"
    if "live_task ?p' g" for g
  proof -
    from that have live: "live_task p g" by (simp add: live_task_def)
    then have run: "wk_state (pl_workers p ! go_worker (pl_tasks p ! g)) = WRunning g (go_ctx (pl_tasks p ! g))"
      using assms(1) by (simp add: tasks_ok_def)
    have "go_worker (pl_tasks p ! g) \<noteq> w"
    proof
      assume w: "go_worker (pl_tasks p ! g) = w"
      with run live assms(4) show False by (auto simp: worker_next_def live_task_def split: if_splits)
    qed
    with run show ?thesis by simp
  qed
  then show ?thesis by (simp add: tasks_ok_def)
qed

lemma tasks_ok_step:
  assumes "pool_step p p'" "tasks_ok p" "workers_ok p"
  shows "tasks_ok p'"
  using assms(1)
proof cases
  case (start ctx r)
  have le: "go_worker (pl_tasks p ! g) < length (pl_workers p)" if "g < length (pl_tasks p)" for g
    using assms(3) that by (simp add: workers_ok_def)
  with start assms(2) show ?thesis
    by (auto simp: tasks_ok_def live_task_def pool_Start_def nth_append split: if_splits)
next
  case (stop r)
  with assms(2) show ?thesis
    by (auto simp: tasks_ok_def live_task_def pool_Stop_def split: if_splits option.splits)
next
  case (enter t ctx tasks r)
  with assms(2) show ?thesis by (auto simp: tasks_ok_def live_task_def dest!: pool_enter_eq split: if_splits)
next
  case (send w)
  from pool_send_eq [OF this] obtain t task rest ctx ch where
    w: "w < length (pl_workers p)" "wk_state (pl_workers p ! w) = WIdle" and p': "p' = p\<lparr>pl_holder := Some (t, rest, ctx),
            pl_workers := (pl_workers p)[w := (pl_workers p ! w)\<lparr>wk_state := WRunning (length (pl_tasks p)) ctx\<rparr>],
            pl_tasks := pl_tasks p @ [\<lparr>go_task = task, go_ctx = ctx, go_worker = w, go_done = False\<rparr>]\<rparr>" .
  have "wk_state (pl_workers p' ! go_worker (pl_tasks p' ! g)) = WRunning g (go_ctx (pl_tasks p' ! g))"
    if live: "live_task p' g" for g
  proof (cases "g < length (pl_tasks p)")
    case True
    with live have "live_task p g" by (simp add: live_task_def p' nth_append)
    then have "wk_state (pl_workers p ! go_worker (pl_tasks p ! g)) = WRunning g (go_ctx (pl_tasks p ! g))"
      using assms(2) by (simp add: tasks_ok_def)
    with True w show ?thesis by (cases "go_worker (pl_tasks p ! g) = w") (simp_all add: p' nth_append)
  next
    case False
    with live have "g = length (pl_tasks p)" by (simp add: live_task_def p')
    with w show ?thesis by (simp add: p')
  qed
  then show ?thesis by (simp add: tasks_ok_def)
next
  case (execute_one t f fs ctx r p1)
  with assms(2) show ?thesis by (auto simp: tasks_ok_def live_task_def dest!: pool_enter_eq split: if_splits)
next
  case (worker w st)
  with tasks_ok_worker [OF assms(2,3)] show ?thesis by simp
next
  case (finish g)
  have "live_task p x" if "live_task p' x" for x
    using that finish by (cases "x = g") (simp_all add: live_task_def)
  with finish assms(2) show ?thesis by (simp add: tasks_ok_def)
next
  case (cancel ctx)
  with assms(2) show ?thesis by (auto simp: tasks_ok_def live_task_def)
qed (use assms(2) in \<open>auto simp: tasks_ok_def live_task_def\<close>)

definition pool_ok :: "('task, 't) pool \<Rightarrow> bool" where
  "pool_ok p = (chans_ok p \<and> workers_ok p \<and> tasks_ok p)"

lemma pool_size_step: "pool_step p p' \<Longrightarrow> pl_size p' = pl_size p"
  by (induction rule: pool_step.induct)
     (auto simp: pool_Start_def pool_Stop_def pool_enter_def pool_send_def
           split: if_splits option.splits prod.splits list.splits)

lemma pool_reachable_ok:
  "pool_step\<^sup>*\<^sup>* (NewPool n) p \<Longrightarrow> pool_ok p \<and> pl_size p = n"
proof (induction rule: rtranclp_induct)
  case base
  show ?case by (simp add: pool_ok_def pool_ok_defs NewPool_def live_task_def)
next
  case (step p p')
  then show ?case by (auto simp: pool_ok_def chans_ok_step workers_ok_step tasks_ok_step pool_size_step)
qed

section \<open>Properties\<close>

text \<open>C10: the pool bounds concurrency. On one channel, that is between a \<open>Start\<close> and the next, never
  more goroutines than the pool's size run tasks whose context and whose pool's context are alive.\<close>

theorem pool_bounds_concurrency:
  assumes "pool_step\<^sup>*\<^sup>* (NewPool n) p"
  shows "card {g. live_task p g \<and> wk_chan (pl_workers p ! go_worker (pl_tasks p ! g)) = ch} \<le> n"
proof -
  let ?L = "{g. live_task p g \<and> wk_chan (pl_workers p ! go_worker (pl_tasks p ! g)) = ch}"
  let ?f = "\<lambda>g. go_worker (pl_tasks p ! g)"
  from pool_reachable_ok [OF assms] have ok: "workers_ok p" "tasks_ok p" "pl_size p = n"
    by (auto simp: pool_ok_def)
  have "inj_on ?f ?L"
  proof (rule inj_onI)
    fix g h assume "g \<in> ?L" "h \<in> ?L" and eq: "?f g = ?f h"
    then have "wk_state (pl_workers p ! ?f g) = WRunning g (go_ctx (pl_tasks p ! g))"
      "wk_state (pl_workers p ! ?f h) = WRunning h (go_ctx (pl_tasks p ! h))"
      using ok(2) unfolding tasks_ok_def by blast+
    with eq show "g = h" by (metis worker_state.inject)
  qed
  moreover have sub: "?f ` ?L \<subseteq> workers_of ch (pl_workers p)"
    using ok(1) by (auto simp: workers_of_def live_task_def workers_ok_def)
  moreover have fin: "finite (workers_of ch (pl_workers p))" by (simp add: workers_of_def)
  ultimately have "card ?L \<le> card (workers_of ch (pl_workers p))" by (rule card_inj_on_le)
  also have "\<dots> \<le> n"
  proof (cases "ch < pl_next p")
    case True
    then show ?thesis using ok by (simp add: workers_ok_def)
  next
    case False
    then have "workers_of ch (pl_workers p) = {}" using ok(1) by (auto simp: workers_of_def workers_ok_def)
    then show ?thesis by simp
  qed
  finally show ?thesis .
qed

text \<open>A pool of one worker whose caller has sent one of its two tasks.\<close>

definition busy_pool :: "(string, nat) pool" where
  "busy_pool = \<lparr>pl_size = 1, pl_started = True, pl_channel = Some 0, pl_holder = Some (0, [''b''], 5),
     pl_execs = (\<lambda>_. None), pl_next = 1, pl_closed = {},
     pl_workers = [\<lparr>wk_chan = 0, wk_ctx = 4, wk_state = WRunning 0 5\<rparr>],
     pl_tasks = [\<lparr>go_task = ''a'', go_ctx = 5, go_worker = 0, go_done = False\<rparr>],
     pl_done = {}, pl_entered = [''a'', ''b'']\<rparr>"

lemma busy_reachable: "pool_step\<^sup>*\<^sup>* (NewPool 1) busy_pool"
proof -
  let ?p1 = "snd (pool_Start 4 (NewPool 1 :: (string, nat) pool))"
  let ?p2 = "snd (pool_enter 0 5 [''a'', ''b''] ?p1)"
  have "pool_step (NewPool 1) ?p1"
    by (rule pool_step.start [of _ 4 None]) (simp_all add: NewPool_def pool_Start_def)
  moreover have "pool_step ?p1 ?p2"
    by (rule pool_step.enter [of _ 0 5 "[''a'', ''b'']" None]) (simp_all add: NewPool_def pool_Start_def pool_enter_def)
  moreover have "pool_step ?p2 busy_pool"
    by (rule pool_step.send [of 0]) (simp add: NewPool_def pool_Start_def pool_enter_def pool_send_def busy_pool_def)
  ultimately show ?thesis by (meson rtranclp.intros)
qed

lemma pool_bounds_concurrency_witness:
  "card {g. live_task busy_pool g \<and> wk_chan (pl_workers busy_pool ! go_worker (pl_tasks busy_pool ! g)) = 0} \<le> 1
   \<and> live_task busy_pool 0"
  using pool_bounds_concurrency [OF busy_reachable, of 0] by (simp add: live_task_def busy_pool_def)

text \<open>The pool never panics: \<open>Stop\<close> never closes a nil or closed channel, and a send never meets a
  closed channel, because \<open>ExecuteTask\<close> keeps the mutex.\<close>

lemma pool_never_panics:
  assumes "pool_step\<^sup>*\<^sup>* (NewPool n) p"
  shows "pool_Stop p \<noteq> Panicked \<and> pool_send w p \<noteq> Panicked"
  using pool_reachable_ok [OF assms]
  by (auto simp: pool_ok_def chans_ok_def pool_Stop_def pool_send_def
      split: option.splits prod.splits list.splits if_splits)

lemma pool_never_panics_witness: "pool_Stop busy_pool \<noteq> Panicked \<and> pool_send 0 busy_pool \<noteq> Panicked"
  by (rule pool_never_panics [OF busy_reachable])

text \<open>A pool can deadlock for good. Once all workers of the current channel have returned (their
  context ended, or the size is 0), a caller with a task to send keeps the mutex forever, whatever
  happens to its own context; no call of \<open>Start\<close>, \<open>Stop\<close> or \<open>ExecuteTask\<close> gets in again.\<close>

lemma pool_deadlocks_without_workers:
  assumes "pl_holder p = Some (t, task # rest, ctx)" "pl_channel p = Some ch"
    and "\<forall>w \<in> workers_of ch (pl_workers p). wk_state (pl_workers p ! w) = WExited"
    and "pool_step\<^sup>*\<^sup>* p p'"
  shows "pl_holder p' = Some (t, task # rest, ctx)"
proof -
  have "pl_holder p' = Some (t, task # rest, ctx) \<and> pl_channel p' = Some ch
      \<and> (\<forall>w \<in> workers_of ch (pl_workers p'). wk_state (pl_workers p' ! w) = WExited)"
    using assms(4)
  proof (induction rule: rtranclp_induct)
    case base
    show ?case using assms(1-3) by simp
  next
    case (step q q')
    from step.hyps(2) show ?case
    proof cases
      case (send w)
      from pool_send_eq [OF this] step.IH show ?thesis by (auto simp: workers_of_def)
    next
      case (worker w st)
      with step.IH have "w \<notin> workers_of ch (pl_workers q)" by (auto simp: worker_next_def)
      then have "(pl_workers q)[w := x] ! v = pl_workers q ! v" if "v \<in> workers_of ch (pl_workers q)" for v x
        using that by (metis nth_list_update_neq)
      with worker step.IH show ?thesis by simp
    qed (use step.IH in auto)
  qed
  then show ?thesis by simp
qed

text \<open>The pool of size 1 whose context 4 ended before a caller entered.\<close>

definition stuck_pool :: "(string, nat) pool" where
  "stuck_pool = \<lparr>pl_size = 1, pl_started = True, pl_channel = Some 0, pl_holder = Some (0, [''a''], 5),
     pl_execs = (\<lambda>_. None), pl_next = 1, pl_closed = {},
     pl_workers = [\<lparr>wk_chan = 0, wk_ctx = 4, wk_state = WExited\<rparr>],
     pl_tasks = [], pl_done = {4}, pl_entered = [''a'']\<rparr>"

lemma stuck_reachable: "pool_step\<^sup>*\<^sup>* (NewPool 1) stuck_pool"
proof -
  let ?p1 = "snd (pool_Start 4 (NewPool 1 :: (string, nat) pool))"
  let ?p2 = "?p1\<lparr>pl_done := insert 4 (pl_done ?p1)\<rparr>"
  let ?p3 = "?p2\<lparr>pl_workers := [\<lparr>wk_chan = 0, wk_ctx = 4, wk_state = WExited\<rparr>]\<rparr>"
  have "pool_step (NewPool 1) ?p1"
    by (rule pool_step.start [of _ 4 None]) (simp_all add: NewPool_def pool_Start_def)
  moreover have "pool_step ?p1 ?p2" by (rule pool_step.cancel)
  moreover have "pool_step ?p2 ?p3"
    using pool_step.worker [of 0 ?p2 WExited] by (simp add: NewPool_def pool_Start_def worker_next_def)
  moreover have "pool_step ?p3 stuck_pool"
    by (rule pool_step.enter [of _ 0 5 "[''a'']" None])
      (simp_all add: NewPool_def pool_Start_def pool_enter_def stuck_pool_def)
  ultimately show ?thesis by (meson rtranclp.intros)
qed

lemma pool_deadlocks_without_workers_witness:
  "pool_step\<^sup>*\<^sup>* (NewPool 1) stuck_pool
   \<and> pool_step\<^sup>*\<^sup>* stuck_pool (stuck_pool\<lparr>pl_done := {5, 4}\<rparr>)
   \<and> pl_holder (stuck_pool\<lparr>pl_done := {5, 4}\<rparr>) = Some (0, [''a''], 5)"
proof -
  have "pool_step stuck_pool (stuck_pool\<lparr>pl_done := {5, 4}\<rparr>)"
    using pool_step.cancel [of stuck_pool 5] by (simp add: stuck_pool_def)
  then have reach: "pool_step\<^sup>*\<^sup>* stuck_pool (stuck_pool\<lparr>pl_done := {5, 4}\<rparr>)" by simp
  have "\<forall>w \<in> workers_of 0 (pl_workers stuck_pool). wk_state (pl_workers stuck_pool ! w) = WExited"
    by (auto simp: workers_of_def stuck_pool_def)
  from pool_deadlocks_without_workers [OF _ _ this reach, of 0 "''a''" "[]" 5] reach stuck_reachable
  show ?thesis by (simp add: stuck_pool_def)
qed

text \<open>As long as a worker of the current channel is left, the next task of a caller can still be started: the worker's
  own task ends, the worker returns to the channel and takes the next one.\<close>

lemma waiting_worker_frees:
  assumes "workers_ok p" "w < length (pl_workers p)" "wk_state (pl_workers p ! w) \<noteq> WExited"
  shows "\<exists>q. pool_step\<^sup>*\<^sup>* p q \<and> pl_holder q = pl_holder p \<and> pl_channel q = pl_channel p \<and> pl_closed q = pl_closed p
    \<and> map go_task (pl_tasks q) = map go_task (pl_tasks p) \<and> length (pl_workers q) = length (pl_workers p)
    \<and> wk_chan (pl_workers q ! w) = wk_chan (pl_workers p ! w) \<and> wk_state (pl_workers q ! w) = WIdle"
proof (cases "wk_state (pl_workers p ! w)")
  case (WRunning g c)
  with assms have g: "g < length (pl_tasks p)" by (simp add: workers_ok_def)
  let ?q1 = "p\<lparr>pl_tasks := (pl_tasks p)[g := (pl_tasks p ! g)\<lparr>go_done := True\<rparr>]\<rparr>"
  let ?q2 = "?q1\<lparr>pl_workers := (pl_workers ?q1)[w := (pl_workers ?q1 ! w)\<lparr>wk_state := WIdle\<rparr>]\<rparr>"
  have "pool_step p ?q1" using g by (rule pool_step.finish)
  moreover have "pool_step ?q1 ?q2"
    using assms(2) WRunning g by (intro pool_step.worker) (simp_all add: worker_next_def)
  ultimately have "pool_step\<^sup>*\<^sup>* p ?q2" by (meson rtranclp.intros)
  moreover have "wk_state (pl_workers ?q2 ! w) = WIdle" using assms(2) by simp
  ultimately show ?thesis by (intro exI [of _ ?q2]) simp
qed (use assms(3) in \<open>auto intro: exI [of _ p]\<close>)

lemma next_task_startable:
  assumes "pool_ok p" "pl_holder p = Some (t, task # rest, ctx)" "pl_channel p = Some ch"
    and "w \<in> workers_of ch (pl_workers p)" "wk_state (pl_workers p ! w) \<noteq> WExited"
  shows "\<exists>p'. pool_step\<^sup>*\<^sup>* p p' \<and> pl_holder p' = Some (t, rest, ctx) \<and> map go_task (pl_tasks p') = map go_task (pl_tasks p) @ [task]"
proof -
  have w: "w < length (pl_workers p)" "wk_chan (pl_workers p ! w) = ch" using assms(4) by (simp_all add: workers_of_def)
  have "workers_ok p" "ch \<notin> pl_closed p" using assms(1,2,3) by (auto simp: pool_ok_def chans_ok_def)
  with waiting_worker_frees [OF _ w(1) assms(5)] obtain q where q: "pool_step\<^sup>*\<^sup>* p q" "pl_holder q = pl_holder p"
    "pl_channel q = pl_channel p" "ch \<notin> pl_closed q" "map go_task (pl_tasks q) = map go_task (pl_tasks p)"
    "w < length (pl_workers q)" "wk_chan (pl_workers q ! w) = ch" "wk_state (pl_workers q ! w) = WIdle"
    using w by metis
  then obtain p' where "pool_send w q = Ran p'" "pl_holder p' = Some (t, rest, ctx)"
    "map go_task (pl_tasks p') = map go_task (pl_tasks q) @ [task]"
    using assms(2,3) by (simp add: pool_send_def)
  with q show ?thesis using pool_step.send by (metis rtranclp.rtrancl_into_rtrancl)
qed

text \<open>C11: \<open>ExecuteTask\<close> loses, repeats and reorders no task. The tasks of all the calls it accepted are the started ones
  followed by those that the caller inside it has still to send; so all of them have been started, each exactly once,
  whenever no caller is inside. The next task of such a caller can still be started exactly as long as a worker of the
  current channel has not returned. A call whose workers have all returned keeps its tasks unstarted for ever.\<close>

theorem pool_runs_each_task_once:
  assumes "pool_step\<^sup>*\<^sup>* (NewPool n) p"
  shows "map go_task (pl_tasks p) @ (case pl_holder p of None \<Rightarrow> [] | Some (t, rest, ctx) \<Rightarrow> rest) = pl_entered p
    \<and> (\<forall>t task rest ctx. pl_holder p = Some (t, task # rest, ctx) \<longrightarrow>
         (\<exists>p'. pool_step\<^sup>*\<^sup>* p p' \<and> pl_holder p' = Some (t, rest, ctx)
            \<and> map go_task (pl_tasks p') = map go_task (pl_tasks p) @ [task])
         = (\<exists>ch. pl_channel p = Some ch \<and> (\<exists>w \<in> workers_of ch (pl_workers p). wk_state (pl_workers p ! w) \<noteq> WExited)))"
proof (intro conjI allI impI iffI)
  have ok: "pool_ok p" using pool_reachable_ok [OF assms] by simp
  then show "map go_task (pl_tasks p) @ (case pl_holder p of None \<Rightarrow> [] | Some (t, rest, ctx) \<Rightarrow> rest) = pl_entered p"
    by (auto simp: pool_ok_def chans_ok_def)
  fix t task rest ctx
  assume holder: "pl_holder p = Some (t, task # rest, ctx)"
  then obtain ch where ch: "pl_channel p = Some ch" using ok by (auto simp: pool_ok_def chans_ok_def)
  show "\<exists>p'. pool_step\<^sup>*\<^sup>* p p' \<and> pl_holder p' = Some (t, rest, ctx) \<and> map go_task (pl_tasks p') = map go_task (pl_tasks p) @ [task]"
    if "\<exists>ch. pl_channel p = Some ch \<and> (\<exists>w \<in> workers_of ch (pl_workers p). wk_state (pl_workers p ! w) \<noteq> WExited)"
    using that next_task_startable [OF ok holder] by blast
  show "\<exists>ch. pl_channel p = Some ch \<and> (\<exists>w \<in> workers_of ch (pl_workers p). wk_state (pl_workers p ! w) \<noteq> WExited)"
    if "\<exists>p'. pool_step\<^sup>*\<^sup>* p p' \<and> pl_holder p' = Some (t, rest, ctx) \<and> map go_task (pl_tasks p') = map go_task (pl_tasks p) @ [task]"
    using that ch pool_deadlocks_without_workers [OF holder ch] by fastforce
qed

theorem pool_runs_each_task_once_witness:
  "map go_task (pl_tasks busy_pool) @ [''b''] = pl_entered busy_pool
   \<and> (\<exists>p'. pool_step\<^sup>*\<^sup>* busy_pool p' \<and> pl_holder p' = Some (0, [], 5))
   \<and> \<not> (\<exists>p'. pool_step\<^sup>*\<^sup>* stuck_pool p' \<and> pl_holder p' = Some (0, [], 5) \<and> map go_task (pl_tasks p') = [''a''])"
proof (intro conjI)
  note busy = pool_runs_each_task_once [OF busy_reachable] and stuck = pool_runs_each_task_once [OF stuck_reachable]
  show "map go_task (pl_tasks busy_pool) @ [''b''] = pl_entered busy_pool"
    using busy by (simp add: busy_pool_def)
  have "0 \<in> workers_of 0 (pl_workers busy_pool) \<and> wk_state (pl_workers busy_pool ! 0) \<noteq> WExited"
    by (simp add: busy_pool_def workers_of_def)
  moreover have "pl_holder busy_pool = Some (0, ''b'' # [], 5)" "pl_channel busy_pool = Some 0" by (simp_all add: busy_pool_def)
  ultimately show "\<exists>p'. pool_step\<^sup>*\<^sup>* busy_pool p' \<and> pl_holder p' = Some (0, [], 5)" using busy by blast
  have "\<not> (\<exists>ch. pl_channel stuck_pool = Some ch
      \<and> (\<exists>w \<in> workers_of ch (pl_workers stuck_pool). wk_state (pl_workers stuck_pool ! w) \<noteq> WExited))"
    by (auto simp: stuck_pool_def workers_of_def)
  moreover have "pl_holder stuck_pool = Some (0, ''a'' # [], 5)" "map go_task (pl_tasks stuck_pool) = []"
    by (simp_all add: stuck_pool_def)
  ultimately show "\<not> (\<exists>p'. pool_step\<^sup>*\<^sup>* stuck_pool p' \<and> pl_holder p' = Some (0, [], 5) \<and> map go_task (pl_tasks p') = [''a''])"
    using stuck by (metis (no_types, lifting) append_Nil)
qed

end
