(* ===== verification/Go_Text.thy ===== *)
theory Go_Text
  imports Go_Base
begin

text \<open>
  What the program uses of Go's packages \<^verbatim>\<open>strings\<close>, \<^verbatim>\<open>strconv\<close>, \<^verbatim>\<open>fmt\<close> and \<^verbatim>\<open>path\<close> on texts. A Go string is
  the list of its bytes.
\<close>

section \<open>Numbers\<close>

text \<open>The verb \<open>%d\<close> of \<open>fmt.Sprintf\<close>.\<close>

fun show_nat :: "nat \<Rightarrow> string" where
  "show_nat n = (if n < 10 then [char_of (48 + n)] else show_nat (n div 10) @ [char_of (48 + n mod 10)])"

declare show_nat.simps [simp del]

definition show_int :: "int \<Rightarrow> string" where
  "show_int i = (if i < 0 then CHR ''-'' # show_nat (nat (- i)) else show_nat (nat i))"

lemma show_nat_digits: "c \<in> set (show_nat n) \<Longrightarrow> c \<in> set ''0123456789''"
proof (induction n rule: show_nat.induct)
  case (1 n)
  have digit: "char_of (48 + k) \<in> set ''0123456789''" if "k < 10" for k :: nat
  proof -
    have "\<forall>k \<in> set [0..<10]. char_of (48 + k :: nat) \<in> set ''0123456789''" by code_simp
    with that show ?thesis by simp
  qed
  show ?case
  proof (cases "n < 10")
    case True
    with 1 digit [of n] show ?thesis by (simp add: show_nat.simps [of n])
  next
    case False
    with 1 digit [of "n mod 10"] show ?thesis by (auto simp: show_nat.simps [of n])
  qed
qed

definition read_nat :: "string \<Rightarrow> nat" where
  "read_nat = foldl (\<lambda>n c. 10 * n + (of_char c - 48)) 0"

lemma read_show_nat: "read_nat (show_nat n) = n"
proof (induction n rule: show_nat.induct)
  case (1 n)
  then show ?case by (auto simp: read_nat_def show_nat.simps [of n] of_char_of)
qed

lemma show_nat_inject: "show_nat m = show_nat n \<longleftrightarrow> m = n"
  by (metis read_show_nat)

section \<open>Splitting and joining\<close>

fun split_on :: "char \<Rightarrow> string \<Rightarrow> string list" where
  "split_on c [] = [[]]"
| "split_on c (x # xs) = (if x = c then [] # split_on c xs
                          else (case split_on c xs of y # ys \<Rightarrow> (x # y) # ys | [] \<Rightarrow> [[x]]))"

lemma split_on_ne [simp]: "split_on c s \<noteq> []"
  by (induction s) (auto split: list.split)

lemma last_split_no: "c \<notin> set (last (split_on c s))"
  by (induction s) (auto split: list.split)

lemma split_on_append_text:
  "split_on c (xs @ ys) = butlast (split_on c xs) @ split_on c (last (split_on c xs) @ ys)"
proof (induction xs)
  case (Cons x xs)
  obtain p ps where p: "split_on c xs = p # ps" by (cases "split_on c xs") auto
  show ?case
  proof (cases "x = c")
    case True
    with Cons p show ?thesis by simp
  next
    case False
    obtain q qs where q: "split_on c (xs @ ys) = q # qs" by (cases "split_on c (xs @ ys)") auto
    show ?thesis
    proof (cases "ps = []")
      case True
      with Cons p q False show ?thesis by simp
    next
      case ps: False
      with Cons p q False show ?thesis by auto
    qed
  qed
qed simp

lemma split_on_first: "c \<in> set s \<Longrightarrow>
  split_on c s = takeWhile (\<lambda>b. b \<noteq> c) s # split_on c (tl (dropWhile (\<lambda>b. b \<noteq> c) s))"
  by (induction s) (auto split: list.split)

fun join_with :: "string \<Rightarrow> string list \<Rightarrow> string" where
  "join_with sep [] = []"
| "join_with sep [x] = x"
| "join_with sep (x # y # zs) = x @ sep @ join_with sep (y # zs)"

lemma split_on_no [simp]: "c \<notin> set s \<Longrightarrow> split_on c s = [s]"
  by (induction s) auto

lemma split_on_append: "c \<notin> set s \<Longrightarrow> split_on c (s @ c # t) = s # split_on c t"
  by (induction s) auto

lemma split_join:
  "xs \<noteq> [] \<Longrightarrow> \<forall>x \<in> set xs. c \<notin> set x \<Longrightarrow> split_on c (join_with [c] xs) = xs"
proof (induction xs)
  case (Cons x xs)
  then show ?case by (cases xs) (simp_all add: split_on_append)
qed simp

abbreviation has_prefix :: "string \<Rightarrow> string \<Rightarrow> bool" where
  "has_prefix s p \<equiv> take (length p) s = p"

section \<open>White space\<close>

text \<open>
  \<open>strings.TrimSpace\<close> removes the runes of \<open>unicode.IsSpace\<close> at both ends; these are their encodings.
\<close>

definition space_runes :: "string list" where
  "space_runes = map (map char_of)
     ([[9], [10], [11], [12], [13], [32], [0xC2, 0x85], [0xC2, 0xA0], [0xE1, 0x9A, 0x80], [0xE2, 0x80, 0xA8],
       [0xE2, 0x80, 0xA9], [0xE2, 0x80, 0xAF], [0xE2, 0x81, 0x9F], [0xE3, 0x80, 0x80]]
      @ map (\<lambda>n. [0xE2, 0x80, 0x80 + n]) [0..<11] :: nat list list)"

function trim_left :: "string list \<Rightarrow> string \<Rightarrow> string" where
  "trim_left rs s =
     (case find (\<lambda>r. r \<noteq> [] \<and> has_prefix s r) rs of None \<Rightarrow> s | Some r \<Rightarrow> trim_left rs (drop (length r) s))"
  by pat_completeness auto
termination
proof (relation "measure (\<lambda>(rs, s). length s)")
  fix rs s r
  assume "find (\<lambda>r. r \<noteq> [] \<and> has_prefix s r) rs = Some r"
  then have "r \<noteq> []" "has_prefix s r" by (auto simp: find_Some_iff)
  then have "0 < length r" "s \<noteq> []" by auto
  then show "((rs, drop (length r) s), (rs, s)) \<in> measure (\<lambda>(rs, s). length s)" by simp
qed simp

declare trim_left.simps [simp del]

definition TrimSpace :: "string \<Rightarrow> string" where
  "TrimSpace s = rev (trim_left (map rev space_runes) (rev (trim_left space_runes s)))"

section \<open>Slash-separated paths\<close>

text \<open>\<open>path.Clean\<close>, \<open>path.Join\<close> of two elements and \<open>filepath.Base\<close>.\<close>

definition clean_step :: "bool \<Rightarrow> string list \<Rightarrow> string \<Rightarrow> string list" where
  "clean_step rooted st c =
     (if c = [] \<or> c = ''.'' then st
      else if c = ''..'' then
        (if st \<noteq> [] \<and> last st \<noteq> ''..'' then butlast st else if rooted then st else st @ [c])
      else st @ [c])"

definition path_Clean :: "string \<Rightarrow> string" where
  "path_Clean p =
     (let rooted = has_prefix p ''/'';
          names = foldl (clean_step rooted) [] (split_on (CHR ''/'') p);
          s = join_with ''/'' names
      in if rooted then CHR ''/'' # s else if s = [] then ''.'' else s)"

definition path_Join :: "string \<Rightarrow> string \<Rightarrow> string" where
  "path_Join a b =
     (if a = [] then (if b = [] then [] else path_Clean b)
      else if b = [] then path_Clean a else path_Clean (a @ ''/'' @ b))"

definition path_Base :: "string \<Rightarrow> string" where
  "path_Base p =
     (if p = [] then ''.''
      else (let s = rev (dropWhile (\<lambda>c. c = CHR ''/'') (rev p))
            in if s = [] then ''/'' else last (split_on (CHR ''/'') s)))"

end
