(* ===== verification/Go_Files.thy ===== *)
theory Go_Files
  imports Go_Text Iterators "HOL-Library.AList" "HOL-Library.List_Lexorder"
begin

text \<open>
  What the program uses of Go's packages \<^verbatim>\<open>os\<close>, \<^verbatim>\<open>io\<close> and \<^verbatim>\<open>path/filepath\<close> on local files. A file system
  is an association list from cleaned absolute paths (lists of names) to files and directories. Every
  system call ticks a clock and may fail at that tick, as the table \<open>fs_fault\<close> says; a failing write may
  have written a prefix (\<open>fs_short\<close>). Temporary names come from \<open>fs_rand\<close>. An open file is named by its
  path: the program keeps no file open while it removes or renames it.
\<close>

section \<open>Paths\<close>

type_synonym fpath = "string list"

text \<open>\<open>filepath.Clean\<close> of a rooted path, as the list of its names.\<close>

definition clean_names :: "string list \<Rightarrow> fpath" where
  "clean_names names =
     foldl (\<lambda>st c. if c = [] \<or> c = ''.'' then st else if c = ''..'' then butlast st else st @ [c]) [] names"

definition Join :: "string \<Rightarrow> string \<Rightarrow> fpath" where
  "Join dir path = clean_names (split_on (CHR ''/'') (dir @ ''/'' @ path))"

text \<open>\<open>filepath.Dir\<close>\<close>

abbreviation Dir_of :: "fpath \<Rightarrow> fpath" where "Dir_of p \<equiv> butlast p"

section \<open>Reading to the end\<close>

text \<open>\<open>io.Copy\<close> and \<open>io.ReadAll\<close> take \<open>io.EOF\<close> for the end and every other fault for an error.\<close>

definition read_fault :: "go_error option \<Rightarrow> go_error option" where
  "read_fault f = (if f = Some (Atom EOF) then None else f)"

definition ReadAll :: "reader \<Rightarrow> go_error + byte list" where
  "ReadAll r = (case read_fault (rd_fault r) of Some e \<Rightarrow> Inl e | None \<Rightarrow> Inr (rd_bytes r))"

section \<open>The file system\<close>

datatype node = File "byte list" | Directory

record fs =
  fs_nodes :: "(fpath \<times> node) list"
  fs_tick :: nat
  fs_fault :: "nat \<Rightarrow> nat option"
  fs_short :: "nat \<Rightarrow> nat"
  fs_rand :: "nat \<Rightarrow> string"

definition node_of :: "fs \<Rightarrow> fpath \<Rightarrow> node option" where
  "node_of f p = (if p = [] then Some Directory else map_of (fs_nodes f) p)"

text \<open>A system call: its fault, if any, and the clock moved on.\<close>

definition sys :: "fs \<Rightarrow> go_error option \<times> fs" where
  "sys f = (map_option (\<lambda>n. Atom (ErrExternal n)) (fs_fault f (fs_tick f)), f\<lparr>fs_tick := Suc (fs_tick f)\<rparr>)"

definition set_node :: "fpath \<Rightarrow> node \<Rightarrow> fs \<Rightarrow> fs" where
  "set_node p x f = f\<lparr>fs_nodes := AList.update p x (fs_nodes f)\<rparr>"

definition drop_node :: "fpath \<Rightarrow> fs \<Rightarrow> fs" where
  "drop_node p f = f\<lparr>fs_nodes := AList.delete p (fs_nodes f)\<rparr>"

abbreviation is_prefix :: "fpath \<Rightarrow> fpath \<Rightarrow> bool" where
  "is_prefix p q \<equiv> take (length p) q = p"

definition os_Stat :: "fpath \<Rightarrow> fs \<Rightarrow> (go_error + node) \<times> fs" where
  "os_Stat p f =
     (case sys f of
        (Some e, f1) \<Rightarrow> (Inl e, f1)
      | (None, f1) \<Rightarrow> (case node_of f p of None \<Rightarrow> (Inl (Atom ErrNotExist), f1) | Some x \<Rightarrow> (Inr x, f1)))"

definition os_Remove :: "fpath \<Rightarrow> fs \<Rightarrow> go_error option \<times> fs" where
  "os_Remove p f =
     (case sys f of
        (Some e, f1) \<Rightarrow> (Some e, f1)
      | (None, f1) \<Rightarrow>
          (case node_of f p of
             None \<Rightarrow> (Some (Atom ErrNotExist), f1)
           | Some (File b) \<Rightarrow> (None, drop_node p f1)
           | Some Directory \<Rightarrow>
               if p = [] \<or> list_ex (\<lambda>(q, x). q \<noteq> p \<and> is_prefix p q) (fs_nodes f)
               then (Some (Atom ErrNotEmpty), f1)
               else (None, drop_node p f1)))"

definition os_RemoveAll :: "fpath \<Rightarrow> fs \<Rightarrow> go_error option \<times> fs" where
  "os_RemoveAll p f =
     (case sys f of
        (Some e, f1) \<Rightarrow> (Some e, f1)
      | (None, f1) \<Rightarrow> (None, f1\<lparr>fs_nodes := filter (\<lambda>(q, x). \<not> is_prefix p q) (fs_nodes f)\<rparr>))"

text \<open>\<open>os.MkdirAll\<close> makes every missing directory on the way; a file on the way is an error.\<close>

definition ancestors :: "fpath \<Rightarrow> fpath list" where
  "ancestors p = map (\<lambda>n. take n p) [1..<length p + 1]"

definition os_MkdirAll :: "fpath \<Rightarrow> fs \<Rightarrow> go_error option \<times> fs" where
  "os_MkdirAll p f =
     (case sys f of
        (Some e, f1) \<Rightarrow> (Some e, f1)
      | (None, f1) \<Rightarrow>
          if list_ex (\<lambda>q. node_of f q \<noteq> None \<and> node_of f q \<noteq> Some Directory) (ancestors p)
          then (Some (Atom ErrNotDir), f1)
          else (None, fold (\<lambda>q. if node_of f q = None then set_node q Directory else id) (ancestors p) f1))"

definition os_Create :: "fpath \<Rightarrow> fs \<Rightarrow> go_error option \<times> fs" where
  "os_Create p f =
     (case sys f of
        (Some e, f1) \<Rightarrow> (Some e, f1)
      | (None, f1) \<Rightarrow>
          if node_of f p = Some Directory then (Some (Atom ErrIsDir), f1)
          else if node_of f (Dir_of p) \<noteq> Some Directory then (Some (Atom ErrNotExist), f1)
          else (None, set_node p (File []) f1))"

text \<open>\<open>os.CreateTemp\<close>: the random name must be new.\<close>

definition os_CreateTemp :: "fpath \<Rightarrow> string \<Rightarrow> fs \<Rightarrow> (go_error + fpath) \<times> fs" where
  "os_CreateTemp dir prefix f =
     (let p = dir @ [prefix @ fs_rand f (fs_tick f)]
      in case sys f of
           (Some e, f1) \<Rightarrow> (Inl e, f1)
         | (None, f1) \<Rightarrow>
             if node_of f p \<noteq> None then (Inl (Atom ErrFileExists), f1)
             else if node_of f dir \<noteq> Some Directory then (Inl (Atom ErrNotExist), f1)
             else (Inr p, set_node p (File []) f1))"

text \<open>\<open>os.Open\<close> for reading: a directory can be opened, but not read.\<close>

definition os_Open :: "fpath \<Rightarrow> fs \<Rightarrow> (go_error + reader) \<times> fs" where
  "os_Open p f =
     (case sys f of
        (Some e, f1) \<Rightarrow> (Inl e, f1)
      | (None, f1) \<Rightarrow>
          (case node_of f p of
             None \<Rightarrow> (Inl (Atom ErrNotExist), f1)
           | Some (File b) \<Rightarrow> (Inr \<lparr>rd_bytes = b, rd_fault = None\<rparr>, f1)
           | Some Directory \<Rightarrow> (Inr \<lparr>rd_bytes = [], rd_fault = Some (Atom ErrIsDir)\<rparr>, f1)))"

definition append_file :: "fpath \<Rightarrow> byte list \<Rightarrow> fs \<Rightarrow> fs" where
  "append_file p bs f = (case node_of f p of Some (File b) \<Rightarrow> set_node p (File (b @ bs)) f | _ \<Rightarrow> f)"

text \<open>\<open>io.Copy\<close> into an open file, from a reader.\<close>

definition io_Copy :: "fpath \<Rightarrow> reader \<Rightarrow> fs \<Rightarrow> go_error option \<times> fs" where
  "io_Copy p r f =
     (case sys f of
        (Some e, f1) \<Rightarrow> (Some e, append_file p (take (fs_short f (fs_tick f)) (rd_bytes r)) f1)
      | (None, f1) \<Rightarrow> (read_fault (rd_fault r), append_file p (rd_bytes r) f1))"

text \<open>\<open>Sync\<close> and \<open>Close\<close> of an open file.\<close>

definition os_Sync :: "fs \<Rightarrow> go_error option \<times> fs" where "os_Sync f = sys f"

definition os_Close :: "fs \<Rightarrow> go_error option \<times> fs" where "os_Close f = sys f"

definition os_Rename :: "fpath \<Rightarrow> fpath \<Rightarrow> fs \<Rightarrow> go_error option \<times> fs" where
  "os_Rename p q f =
     (case sys f of
        (Some e, f1) \<Rightarrow> (Some e, f1)
      | (None, f1) \<Rightarrow>
          (case node_of f p of
             None \<Rightarrow> (Some (Atom ErrNotExist), f1)
           | Some (File b) \<Rightarrow>
               if node_of f q = Some Directory then (Some (Atom ErrFileExists), f1)
               else if node_of f (Dir_of q) \<noteq> Some Directory then (Some (Atom ErrNotExist), f1)
               else (None, set_node q (File b) (drop_node p f1))
           | Some Directory \<Rightarrow>
               if is_prefix p q \<or> node_of f q \<noteq> None then (Some (Atom ErrInvalid), f1)
               else if node_of f (Dir_of q) \<noteq> Some Directory then (Some (Atom ErrNotExist), f1)
               else (None, f1\<lparr>fs_nodes := map (\<lambda>(x, nd). (if is_prefix p x then q @ drop (length p) x else x, nd))
                                            (fs_nodes f)\<rparr>)))"

text \<open>\<open>os.OpenFile\<close> for appending, which creates a missing file, and \<open>os.WriteFile\<close>.\<close>

definition os_OpenAppend :: "fpath \<Rightarrow> fs \<Rightarrow> go_error option \<times> fs" where
  "os_OpenAppend p f =
     (case sys f of
        (Some e, f1) \<Rightarrow> (Some e, f1)
      | (None, f1) \<Rightarrow>
          (case node_of f p of
             Some Directory \<Rightarrow> (Some (Atom ErrIsDir), f1)
           | Some (File b) \<Rightarrow> (None, f1)
           | None \<Rightarrow>
               if node_of f (Dir_of p) \<noteq> Some Directory then (Some (Atom ErrNotExist), f1)
               else (None, set_node p (File []) f1)))"

definition os_WriteFile :: "fpath \<Rightarrow> byte list \<Rightarrow> fs \<Rightarrow> go_error option \<times> fs" where
  "os_WriteFile p bs f =
     (case os_Create p f of
        (Some e, f1) \<Rightarrow> (Some e, f1)
      | (None, f1) \<Rightarrow>
          (case io_Copy p \<lparr>rd_bytes = bs, rd_fault = None\<rparr> f1 of
             (we, f2) \<Rightarrow> (case os_Close f2 of (ce, f3) \<Rightarrow> (if we = None then ce else we, f3))))"

text \<open>\<open>os.ReadDir\<close>: the entries of a directory, sorted by name.\<close>

definition os_ReadDir :: "fpath \<Rightarrow> fs \<Rightarrow> (go_error + (string \<times> node) list) \<times> fs" where
  "os_ReadDir p f =
     (case sys f of
        (Some e, f1) \<Rightarrow> (Inl e, f1)
      | (None, f1) \<Rightarrow>
          (case node_of f p of
             None \<Rightarrow> (Inl (Atom ErrNotExist), f1)
           | Some (File b) \<Rightarrow> (Inl (Atom ErrNotDir), f1)
           | Some Directory \<Rightarrow>
               (Inr (sort_key fst (map (\<lambda>(q, x). (last q, x))
                      (filter (\<lambda>(q, x). q \<noteq> [] \<and> butlast q = p) (fs_nodes f)))), f1)))"

section \<open>Contents\<close>

text \<open>The regular files: what a caller can read back.\<close>

definition file_at :: "fs \<Rightarrow> fpath \<Rightarrow> byte list option" where
  "file_at f p = (case node_of f p of Some (File b) \<Rightarrow> Some b | _ \<Rightarrow> None)"

lemma node_of_set [simp]: "p \<noteq> [] \<Longrightarrow> node_of (set_node p x f) q = (if q = p then Some x else node_of f q)"
  by (simp add: node_of_def set_node_def update_conv)

lemma node_of_drop [simp]: "p \<noteq> [] \<Longrightarrow> node_of (drop_node p f) q = (if q = p then None else node_of f q)"
  by (simp add: node_of_def drop_node_def delete_conv)

lemma node_of_root [simp]: "node_of f [] = Some Directory"
  by (simp add: node_of_def)

lemma node_of_tick [simp]: "node_of (f\<lparr>fs_tick := n\<rparr>) p = node_of f p"
  by (simp add: node_of_def)

lemma sysD: "sys f = (e, f1) \<Longrightarrow> node_of f1 p = node_of f p \<and> fs_nodes f1 = fs_nodes f"
  by (auto simp: sys_def)

lemma sys_err: "sys f = (Some e, f1) \<Longrightarrow> \<not> err_is e ErrNotExist"
  by (auto simp: sys_def)

lemma file_at_cong: "node_of f' p = node_of f p \<Longrightarrow> file_at f' p = file_at f p"
  by (simp add: file_at_def)

lemma file_at_sys [simp]: "sys f = (e, f1) \<Longrightarrow> file_at f1 = file_at f"
  by (auto simp: sys_def file_at_def fun_eq_iff)

lemma node_of_sys [simp]: "sys f = (e, f1) \<Longrightarrow> node_of f1 = node_of f"
  by (auto simp: sys_def fun_eq_iff)

lemma file_at_set [simp]:
  "p \<noteq> [] \<Longrightarrow> file_at (set_node p x f) = (file_at f)(p := (case x of File b \<Rightarrow> Some b | Directory \<Rightarrow> None))"
  by (auto simp: file_at_def fun_eq_iff split: node.split)

lemma file_at_drop [simp]: "p \<noteq> [] \<Longrightarrow> file_at (drop_node p f) = (file_at f)(p := None)"
  by (auto simp: file_at_def fun_eq_iff)

lemma file_at_root: "file_at f p = Some b \<Longrightarrow> p \<noteq> []"
  by (auto simp: file_at_def)

lemma file_at_node: "file_at f p = Some b \<longleftrightarrow> node_of f p = Some (File b)"
  by (auto simp: file_at_def split: option.splits node.splits)

lemma os_Stat_files: "os_Stat p f = (r, f') \<Longrightarrow> file_at f' = file_at f"
  by (auto simp: os_Stat_def split: prod.splits option.splits)

lemma os_Open_files: "os_Open p f = (r, f') \<Longrightarrow> file_at f' = file_at f"
  by (auto simp: os_Open_def split: prod.splits option.splits node.splits)

lemma os_Open_reads:
  "os_Open p f = (Inr r, f') \<Longrightarrow>
   (case file_at f p of Some b \<Rightarrow> r = \<lparr>rd_bytes = b, rd_fault = None\<rparr> | None \<Rightarrow> read_fault (rd_fault r) \<noteq> None)"
  by (auto simp: os_Open_def file_at_def read_fault_def split: prod.splits option.splits node.splits)

lemma os_ReadDir_files: "os_ReadDir p f = (r, f') \<Longrightarrow> file_at f' = file_at f"
  by (auto simp: os_ReadDir_def split: prod.splits option.splits node.splits)

lemma os_Sync_files: "os_Sync f = (e, f') \<Longrightarrow> file_at f' = file_at f"
  by (simp add: os_Sync_def)

lemma os_Close_files: "os_Close f = (e, f') \<Longrightarrow> file_at f' = file_at f"
  by (simp add: os_Close_def)

lemma ancestors_nonempty: "q \<in> set (ancestors p) \<Longrightarrow> q \<noteq> []"
  by (auto simp: ancestors_def)

lemma mkdirs_files:
  "\<forall>q \<in> set qs. q \<noteq> [] \<Longrightarrow> file_at g = file_at f \<Longrightarrow>
   file_at (fold (\<lambda>q. if node_of f q = None then set_node q Directory else id) qs g) = file_at f"
  by (induction qs arbitrary: g) (auto simp: fun_eq_iff file_at_def)

lemma os_MkdirAll_files: "os_MkdirAll p f = (e, f') \<Longrightarrow> file_at f' = file_at f"
  by (auto simp: os_MkdirAll_def ancestors_nonempty mkdirs_files split: prod.splits option.splits if_splits)

lemma os_Create_files:
  "os_Create p f = (e, f') \<Longrightarrow> file_at f' = (if e = None then (file_at f)(p := Some []) else file_at f) \<and> (e = None \<longrightarrow> p \<noteq> [])"
  by (cases "p = []") (auto simp: os_Create_def split: prod.splits option.splits if_splits)

lemma os_CreateTemp_files:
  "os_CreateTemp dir x f = (Inr p, f') \<Longrightarrow> file_at f p = None \<and> file_at f' = (file_at f)(p := Some []) \<and> p \<noteq> []"
  by (auto simp: os_CreateTemp_def Let_def file_at_def split: prod.splits option.splits if_splits)

lemma os_CreateTemp_err: "os_CreateTemp dir x f = (Inl e, f') \<Longrightarrow> file_at f' = file_at f"
  by (auto simp: os_CreateTemp_def Let_def split: prod.splits option.splits if_splits)

lemma io_Copy_files:
  assumes "io_Copy p r f = (e, f')" "file_at f p = Some b"
  shows "\<exists>b'. file_at f' = (file_at f)(p := Some b') \<and> (e = None \<longrightarrow> b' = b @ rd_bytes r \<and> read_fault (rd_fault r) = None)"
proof -
  obtain e1 f1 where sys: "sys f = (e1, f1)" by fastforce
  with assms(2) have "append_file p bs f1 = set_node p (File (b @ bs)) f1" for bs
    by (simp add: append_file_def file_at_node)
  with assms sys file_at_root [OF assms(2)] show ?thesis
    by (cases e1) (auto simp: io_Copy_def)
qed

lemma os_Remove_files:
  "os_Remove p f = (e, f') \<Longrightarrow> file_at f' = (if e = None then (file_at f)(p := None) else file_at f)"
  by (cases "p = []") (auto simp: os_Remove_def split: prod.splits option.splits node.splits if_splits)

lemma os_Rename_files:
  assumes "os_Rename p q f = (e, f')" "file_at f p = Some b"
  shows "file_at f' = (if e = None then (file_at f)(p := None, q := Some b) else file_at f) \<and> (e = None \<longrightarrow> q \<noteq> [])"
  using assms file_at_root [OF assms(2)]
  by (cases "q = []") (auto simp: os_Rename_def file_at_node split: prod.splits option.splits if_splits)

lemma os_WriteFile_ok:
  assumes "os_WriteFile p bs f = (None, f')"
  shows "file_at f' = (file_at f)(p := Some bs)"
proof -
  obtain f1 f2 f3 where c: "os_Create p f = (None, f1)" "io_Copy p \<lparr>rd_bytes = bs, rd_fault = None\<rparr> f1 = (None, f2)"
    "os_Close f2 = (None, f3)" "f' = f3"
    using assms by (auto simp: os_WriteFile_def split: prod.splits option.splits if_splits)
  from os_Create_files [OF c(1)] have "file_at f1 = (file_at f)(p := Some [])" by simp
  with io_Copy_files [OF c(2), of "[]"] os_Close_files [OF c(3)] c(4) show ?thesis by auto
qed

end
