(* ===== verification/Storages.thy ===== *)
theory Storages
  imports Go_Files Retries
begin

text \<open>
  The package \<^verbatim>\<open>storage\<close>: the interface that providers and storages share (\<^verbatim>\<open>storage.go\<close>), directory
  entries (\<^verbatim>\<open>dir_entry.go\<close>), the storage \<open>Impl\<close> with its retries (\<^verbatim>\<open>impl.go\<close>, \<^verbatim>\<open>retry_option.go\<close>) and
  the copies between storages (\<^verbatim>\<open>util.go\<close>).

  An implementation of the interface is a record of methods over its state. The locale
  \<open>object_store\<close> is the contract that the documentation of the interface states: which objects a
  method may change, and what it promises when it returns no error. Its theorem \<open>impl_store\<close> says
  that retrying keeps the contract.
\<close>

section \<open>The interface\<close>

datatype upload = Upload string | SyncUpload "upload list"
datatype chunk = Chunk int string | SyncChunk int "chunk list"

fun upload_Id :: "(string list \<Rightarrow> string) \<Rightarrow> upload \<Rightarrow> string" where
  "upload_Id json (Upload i) = i"
| "upload_Id json (SyncUpload us) = json (map (upload_Id json) us)"

fun chunk_Number :: "chunk \<Rightarrow> int" where
  "chunk_Number (Chunk n e) = n"
| "chunk_Number (SyncChunk n cs) = n"

fun chunk_ETag :: "(string list \<Rightarrow> string) \<Rightarrow> chunk \<Rightarrow> string" where
  "chunk_ETag json (Chunk n e) = e"
| "chunk_ETag json (SyncChunk n cs) = json (map (chunk_ETag json) cs)"

record dir_entry =
  de_name :: string
  de_isDir :: bool
  de_type :: nat

text \<open>\<open>fs.ModeDir\<close>\<close>

abbreviation ModeDir :: nat where "ModeDir \<equiv> 2 ^ 31"

definition NewFileEntry :: "string \<Rightarrow> dir_entry" where
  "NewFileEntry name = \<lparr>de_name = name, de_isDir = False, de_type = 0\<rparr>"

definition NewDirEntry :: "string \<Rightarrow> dir_entry" where
  "NewDirEntry name = \<lparr>de_name = name, de_isDir = True, de_type = ModeDir\<rparr>"

record 's store_ops =
  sFileExists :: "string \<Rightarrow> 's \<Rightarrow> (go_error + bool) \<times> 's"
  sDeleteFile :: "string \<Rightarrow> 's \<Rightarrow> go_error option \<times> 's"
  sDeleteDir :: "string \<Rightarrow> 's \<Rightarrow> go_error option \<times> 's"
  sWrite :: "string \<Rightarrow> reader \<Rightarrow> 's \<Rightarrow> go_error option \<times> 's"
  sReadFile :: "string \<Rightarrow> 's \<Rightarrow> (go_error + reader) \<times> 's"
  sReadDir :: "string \<Rightarrow> 's \<Rightarrow> (go_error + dir_entry list) \<times> 's"
  sMkDir :: "string \<Rightarrow> 's \<Rightarrow> go_error option \<times> 's"
  sCopy :: "string \<Rightarrow> string \<Rightarrow> 's \<Rightarrow> go_error option \<times> 's"
  sMove :: "string \<Rightarrow> string \<Rightarrow> 's \<Rightarrow> go_error option \<times> 's"
  sCreateMultipartUpload :: "string \<Rightarrow> 's \<Rightarrow> (go_error + upload) \<times> 's"
  sUploadMultipartChunk :: "string \<Rightarrow> upload \<Rightarrow> int \<Rightarrow> reader \<Rightarrow> int \<Rightarrow> 's \<Rightarrow> (go_error + chunk) \<times> 's"
  sCompleteMultipartUpload :: "string \<Rightarrow> upload \<Rightarrow> chunk list \<Rightarrow> 's \<Rightarrow> go_error option \<times> 's"
  sAbortMultipartUpload :: "string \<Rightarrow> upload \<Rightarrow> 's \<Rightarrow> go_error option \<times> 's"
  sClose :: "'s \<Rightarrow> go_error option \<times> 's"

section \<open>The contract of an object store\<close>

text \<open>The objects outside \<open>ks\<close> stay as they are; new objects (temporary files) may appear.\<close>

definition keeps :: "('s \<Rightarrow> 'k \<Rightarrow> byte list option) \<Rightarrow> 'k set \<Rightarrow> 's \<Rightarrow> 's \<Rightarrow> bool" where
  "keeps obj ks s s' = (\<forall>k. k \<notin> ks \<longrightarrow> obj s k \<noteq> None \<longrightarrow> obj s' k = obj s k)"

lemma keeps_refl [simp]: "keeps obj ks s s"
  by (simp add: keeps_def)

lemma keeps_same: "obj s' = obj s \<Longrightarrow> keeps obj ks s s'"
  by (simp add: keeps_def)

lemma keeps_trans: "keeps obj ks s s1 \<Longrightarrow> keeps obj ks s1 s2 \<Longrightarrow> keeps obj ks s s2"
  by (simp add: keeps_def)

lemma keepsD: "keeps obj ks s s' \<Longrightarrow> k \<notin> ks \<Longrightarrow> obj s k = Some d \<Longrightarrow> obj s' k = Some d"
  by (simp add: keeps_def)

text \<open>
  \<open>key\<close> is what a path names: different paths may name the same object. \<open>ok\<close> are the paths that clients
  may use; a provider can reserve names for its temporary files.
\<close>

locale object_store =
  fixes ops :: "'s store_ops"
    and invar :: "'s \<Rightarrow> bool"
    and obj :: "'s \<Rightarrow> 'k \<Rightarrow> byte list option"
    and key :: "string \<Rightarrow> 'k"
    and ok :: "string \<Rightarrow> bool"
  assumes exists_law: "invar s \<Longrightarrow> ok p \<Longrightarrow> sFileExists ops p s = (be, s') \<Longrightarrow>
      invar s' \<and> obj s' = obj s \<and> (be = Inr False \<longrightarrow> obj s (key p) = None)"
    and delete_law: "invar s \<Longrightarrow> ok p \<Longrightarrow> sDeleteFile ops p s = (e, s') \<Longrightarrow>
      invar s' \<and> keeps obj {key p} s s' \<and> (e = None \<longrightarrow> obj s' (key p) = None)"
    and write_law: "invar s \<Longrightarrow> ok p \<Longrightarrow> sWrite ops p r s = (e, s') \<Longrightarrow>
      invar s' \<and> keeps obj {key p} s s'
      \<and> (e = None \<longrightarrow> obj s' (key p) = Some (rd_bytes r) \<and> read_fault (rd_fault r) = None)"
    and read_law: "invar s \<Longrightarrow> ok p \<Longrightarrow> sReadFile ops p s = (x, s') \<Longrightarrow>
      invar s' \<and> obj s' = obj s
      \<and> (\<forall>d r. obj s (key p) = Some d \<longrightarrow> x = Inr r \<longrightarrow> read_fault (rd_fault r) = None \<longrightarrow> rd_bytes r = d)"
    and copy_law: "invar s \<Longrightarrow> ok a \<Longrightarrow> ok b \<Longrightarrow> sCopy ops a b s = (e, s') \<Longrightarrow>
      invar s' \<and> keeps obj {key b} s s'
      \<and> (\<forall>d. e = None \<longrightarrow> key a \<noteq> key b \<longrightarrow> obj s (key a) = Some d \<longrightarrow> obj s' (key b) = Some d)"
begin

lemma write_then_read:
  assumes "invar s" "ok p" "sWrite ops p r s = (None, s1)" "sReadFile ops p s1 = (Inr x, s2)"
    and "read_fault (rd_fault x) = None"
  shows "rd_bytes x = rd_bytes r"
  using assms(5) write_law [OF assms(1,2,3)] read_law [OF _ assms(2,4)] by blast

end

text \<open>A store whose \<open>Move\<close> keeps the source until the destination is there.\<close>

locale movable_store = object_store ops invar obj key ok
  for ops :: "'s store_ops" and invar and obj :: "'s \<Rightarrow> 'k \<Rightarrow> byte list option" and key and ok +
  assumes move_law: "invar s \<Longrightarrow> ok a \<Longrightarrow> ok b \<Longrightarrow> key a \<noteq> key b \<Longrightarrow> obj s (key a) = Some d \<Longrightarrow>
      sMove ops a b s = (e, s') \<Longrightarrow>
      invar s' \<and> keeps obj {key a, key b} s s' \<and> (e \<noteq> None \<longrightarrow> keeps obj {key b} s s')
      \<and> (e = None \<longrightarrow> obj s' (key b) = Some d \<and> obj s' (key a) = None)"

section \<open>Retries of storage operations\<close>

text \<open>
  The state of a storage \<open>Impl\<close>: its provider's, the local files that \<open>WriteFile\<close> and
  \<open>DownloadFile\<close> touch, and the context and clock of the caller.
\<close>

record ('s, 'c) impl_state =
  im_provider :: 's
  im_local :: fs
  im_ctx :: 'c

record 'c retry_ctx =
  rc_look :: "'c \<Rightarrow> go_error option \<times> 'c"
  rc_wait :: "int \<Rightarrow> 'c \<Rightarrow> bool \<times> 'c"

record 'c impl_config =
  ic_policy :: "policy option"
  ic_retryable :: "(go_error \<Rightarrow> bool) option"
  ic_float :: go_float
  ic_ctx :: "'c retry_ctx"
  ic_net_error :: "go_error \<Rightarrow> bool"
  ic_stream_error :: "go_error \<Rightarrow> bool"

text \<open>\<open>ic_net_error\<close> and \<open>ic_stream_error\<close> are the \<open>errors.As\<close> tests of \<open>defaultRetryable\<close>.\<close>

definition WithRetry :: "policy option \<Rightarrow> 'c impl_config \<Rightarrow> 'c impl_config" where
  "WithRetry pol cfg = cfg\<lparr>ic_policy := pol\<rparr>"

definition WithRetryClassifier :: "(go_error \<Rightarrow> bool) option \<Rightarrow> 'c impl_config \<Rightarrow> 'c impl_config" where
  "WithRetryClassifier c cfg = cfg\<lparr>ic_retryable := c\<rparr>"

definition defaultRetryable :: "'c impl_config \<Rightarrow> go_error option \<Rightarrow> bool" where
  "defaultRetryable cfg err =
     (case err of
        None \<Rightarrow> False
      | Some e \<Rightarrow>
          if err_is e ContextCanceled \<or> err_is e ContextDeadlineExceeded then False
          else if ic_net_error cfg e then True
          else ic_stream_error cfg e)"

text \<open>
  The operation returns its value with the error; \<open>zero\<close> is the value of the captured variable
  before the first success.
\<close>

definition impl_env ::
  "'c retry_ctx \<Rightarrow> 'v \<Rightarrow> (('s, 'c) impl_state \<Rightarrow> (go_error + 'v) \<times> ('s, 'c) impl_state)
   \<Rightarrow> (('s, 'c) impl_state, 'v) retry_env" where
  "impl_env rc zero operation =
     \<lparr>re_op = (\<lambda>w. case operation w of (Inr v, w') \<Rightarrow> ((v, None), w') | (Inl e, w') \<Rightarrow> ((zero, Some e), w')),
      re_ctx = (\<lambda>w. case rc_look rc (im_ctx w) of (e, c) \<Rightarrow> (e, w\<lparr>im_ctx := c\<rparr>)),
      re_wait = (\<lambda>d w. case rc_wait rc d (im_ctx w) of (b, c) \<Rightarrow> (b, w\<lparr>im_ctx := c\<rparr>))\<rparr>"

text \<open>The condition that \<open>withRetry\<close> passes on: there is an error, and the classifier calls it transient.\<close>

definition retry_cond :: "'c impl_config \<Rightarrow> 'v \<Rightarrow> go_error option \<Rightarrow> bool" where
  "retry_cond cfg v err =
     (case err of
        None \<Rightarrow> False
      | Some e \<Rightarrow> (case ic_retryable cfg of Some c \<Rightarrow> c e | None \<Rightarrow> defaultRetryable cfg (Some e)))"

definition withRetry ::
  "'c impl_config \<Rightarrow> 'v \<Rightarrow> (('s, 'c) impl_state \<Rightarrow> (go_error + 'v) \<times> ('s, 'c) impl_state)
   \<Rightarrow> ('s, 'c) impl_state \<Rightarrow> (go_error + 'v) \<times> ('s, 'c) impl_state" where
  "withRetry cfg zero operation w =
     (case ic_policy cfg of
        None \<Rightarrow> operation w
      | Some pol \<Rightarrow>
          (case DoWithCondition (ic_float cfg) (impl_env (ic_ctx cfg) zero operation) zero (Some pol)
                  (retry_cond cfg) w of
             ((v, None), w') \<Rightarrow> (Inr v, w')
           | ((v, Some e), w') \<Rightarrow> (Inl e, w')))"

text \<open>Rule for a retried operation: \<open>I\<close> holds before each attempt, \<open>Q\<close> after a successful one.\<close>

lemma impl_loop_rule:
  assumes step: "\<And>w r w'. I w \<Longrightarrow> op w = (r, w') \<Longrightarrow> (\<forall>e. r = Inl e \<longrightarrow> I w') \<and> (\<forall>v. r = Inr v \<longrightarrow> Q v w')"
    and ctx: "\<And>w c. I w \<Longrightarrow> I (w\<lparr>im_ctx := c\<rparr>)"
    and cond: "\<And>v. \<not> cond v None"
    and "do_cond_loop fl (impl_env rc zero op) zero pol cond left n prev w = (res, w')"
    and "I w" "0 < left" "int n + int left = MaxAttemptsValue pol"
  shows "(snd res = None \<longrightarrow> Q (fst res) w') \<and> (snd res \<noteq> None \<longrightarrow> I w')"
proof -
  let ?env = "impl_env rc zero op"
  let ?Q = "\<lambda>_ r w. (snd r = None \<longrightarrow> Q (fst r) w) \<and> (snd r \<noteq> None \<longrightarrow> I w)"
  have "\<exists>k \<le> n + left. ?Q k res w'"
    by (rule cond_loop_rule [where I = "\<lambda>_. I" and Q = ?Q and c = cond and env = ?env, OF _ _ _ _ _ _ assms(4,6,5)])
      (use step ctx cond assms(5) in \<open>auto simp: impl_env_def split: prod.splits sum.splits\<close>)
  then show ?thesis by blast
qed

lemma withRetry_rule:
  assumes "\<And>w r w'. I w \<Longrightarrow> op w = (r, w') \<Longrightarrow> (\<forall>e. r = Inl e \<longrightarrow> I w') \<and> (\<forall>v. r = Inr v \<longrightarrow> Q v w')"
    and "\<And>w c. I w \<Longrightarrow> I (w\<lparr>im_ctx := c\<rparr>)"
    and "withRetry cfg zero op w = (r, w')" "I w"
  shows "(\<forall>e. r = Inl e \<longrightarrow> I w') \<and> (\<forall>v. r = Inr v \<longrightarrow> Q v w')"
proof (cases "ic_policy cfg")
  case None
  with assms show ?thesis by (simp add: withRetry_def)
next
  case (Some pol)
  obtain v err w1 where run: "DoWithCondition (ic_float cfg) (impl_env (ic_ctx cfg) zero op) zero (Some pol)
      (retry_cond cfg) w = ((v, err), w1)" by (metis surj_pair)
  have "(err = None \<longrightarrow> Q v w1) \<and> (err \<noteq> None \<longrightarrow> I w1)"
  proof (cases "retries (Some pol)")
    case True
    then have "do_cond_loop (ic_float cfg) (impl_env (ic_ctx cfg) zero op) zero pol (retry_cond cfg)
        (nat (MaxAttemptsValue pol)) 0 (zero, None) w = ((v, err), w1)"
      using run by (simp add: DoWithCondition_def retries_def)
    from impl_loop_rule [where I=I and Q=Q, OF assms(1,2) _ this assms(4)] True show ?thesis
      by (simp add: retries_def retry_cond_def)
  next
    case False
    with run assms(1) [OF assms(4)] show ?thesis
      by (auto simp: DoWithCondition_once impl_env_def split: sum.splits prod.splits)
  qed
  with assms(3) Some run show ?thesis
    by (cases err) (auto simp: withRetry_def)
qed

section \<open>The storage Impl\<close>

definition on_provider :: "('s \<Rightarrow> 'r \<times> 's) \<Rightarrow> ('s, 'c) impl_state \<Rightarrow> 'r \<times> ('s, 'c) impl_state" where
  "on_provider f w = (case f (im_provider w) of (r, s) \<Rightarrow> (r, w\<lparr>im_provider := s\<rparr>))"

text \<open>An error result as a sum and back, and the wrapping of an error with the operation's name.\<close>

definition as_sum :: "go_error option \<Rightarrow> go_error + unit" where
  "as_sum e = (case e of None \<Rightarrow> Inr () | Some x \<Rightarrow> Inl x)"

definition wrap_sum :: "string \<Rightarrow> (go_error + 'v) \<times> 'w \<Rightarrow> (go_error + 'v) \<times> 'w" where
  "wrap_sum msg x = (case x of (Inl e, w) \<Rightarrow> (Inl (Wrap msg [e]), w) | (Inr v, w) \<Rightarrow> (Inr v, w))"

definition wrap_err :: "string \<Rightarrow> (go_error + unit) \<times> 'w \<Rightarrow> go_error option \<times> 'w" where
  "wrap_err msg x = (case x of (Inl e, w) \<Rightarrow> (Some (Wrap msg [e]), w) | (Inr v, w) \<Rightarrow> (None, w))"

definition retried_err ::
  "string \<Rightarrow> 'c impl_config \<Rightarrow> ('s \<Rightarrow> go_error option \<times> 's) \<Rightarrow> ('s, 'c) impl_state \<Rightarrow> go_error option \<times> ('s, 'c) impl_state" where
  "retried_err msg cfg f w =
     wrap_err msg (withRetry cfg () (on_provider (\<lambda>s. case f s of (e, s') \<Rightarrow> (as_sum e, s'))) w)"

definition plain_err :: "string \<Rightarrow> ('s \<Rightarrow> go_error option \<times> 's) \<Rightarrow> ('s, 'c) impl_state \<Rightarrow> go_error option \<times> ('s, 'c) impl_state" where
  "plain_err msg f w = wrap_err msg (on_provider (\<lambda>s. case f s of (e, s') \<Rightarrow> (as_sum e, s')) w)"

definition impl_FileExists where
  "impl_FileExists cfg ops path w =
     wrap_sum (''storage.FileExists '' @ path) (withRetry cfg False (on_provider (sFileExists ops path)) w)"

definition impl_DeleteFile where
  "impl_DeleteFile cfg ops path = retried_err (''storage.DeleteFile '' @ path) cfg (sDeleteFile ops path)"

definition impl_DeleteDir where
  "impl_DeleteDir cfg ops path = retried_err (''storage.DeleteDir '' @ path) cfg (sDeleteDir ops path)"

text \<open>\<open>Write\<close> is not retried: its reader can be read only once.\<close>

definition impl_Write where
  "impl_Write ops path file = plain_err (''storage.Write '' @ path) (sWrite ops path file)"

definition writeFile_once ::
  "'s store_ops \<Rightarrow> string \<Rightarrow> string \<Rightarrow> ('s, 'c) impl_state \<Rightarrow> (go_error + unit) \<times> ('s, 'c) impl_state" where
  "writeFile_once ops path filename w =
     (case os_Open (Join [] filename) (im_local w) of
        (Inl e, f1) \<Rightarrow> (Inl (Wrap (''could not open file '' @ filename) [e]), w\<lparr>im_local := f1\<rparr>)
      | (Inr file, f1) \<Rightarrow>
          (case sWrite ops path file (im_provider w) of
             (e, s1) \<Rightarrow> (as_sum e, w\<lparr>im_provider := s1, im_local := snd (os_Close f1)\<rparr>)))"

definition impl_WriteFile where
  "impl_WriteFile cfg ops path filename w =
     wrap_err (''storage.WriteFile '' @ path) (withRetry cfg () (writeFile_once ops path filename) w)"

definition impl_ReadFile where
  "impl_ReadFile cfg ops path w =
     wrap_sum (''storage.ReadFile '' @ path)
       (withRetry cfg \<lparr>rd_bytes = [], rd_fault = None\<rparr> (on_provider (sReadFile ops path)) w)"

definition downloadFile_once ::
  "'s store_ops \<Rightarrow> string \<Rightarrow> string \<Rightarrow> ('s, 'c) impl_state \<Rightarrow> (go_error + unit) \<times> ('s, 'c) impl_state" where
  "downloadFile_once ops path filename w =
     (case sReadFile ops path (im_provider w) of
        (Inl e, s1) \<Rightarrow> (Inl e, w\<lparr>im_provider := s1\<rparr>)
      | (Inr file, s1) \<Rightarrow>
          (let dest = Join [] filename; w1 = w\<lparr>im_provider := s1\<rparr>
           in case os_Create dest (im_local w1) of
                (Some e, f1) \<Rightarrow> (Inl (Wrap (''failed to open file '' @ filename) [e]), w1\<lparr>im_local := f1\<rparr>)
              | (None, f1) \<Rightarrow>
                  (case io_Copy dest file f1 of
                     (Some e, f2) \<Rightarrow>
                       (Inl (Wrap (''failed to copy file '' @ path) [e]), w1\<lparr>im_local := snd (os_Close f2)\<rparr>)
                   | (None, f2) \<Rightarrow>
                       (case os_Close f2 of
                          (Some e, f3) \<Rightarrow> (Inl (Wrap (''failed to close file '' @ filename) [e]), w1\<lparr>im_local := f3\<rparr>)
                        | (None, f3) \<Rightarrow> (Inr (), w1\<lparr>im_local := f3\<rparr>)))))"

definition impl_DownloadFile where
  "impl_DownloadFile cfg ops path filename w =
     wrap_err (''storage.DownloadFile '' @ path) (withRetry cfg () (downloadFile_once ops path filename) w)"

definition impl_ReadDir where
  "impl_ReadDir cfg ops path w =
     wrap_sum (''storage.ReadDir '' @ path) (withRetry cfg [] (on_provider (sReadDir ops path)) w)"

definition impl_MkDir where
  "impl_MkDir cfg ops path = retried_err (''storage.MkDir '' @ path) cfg (sMkDir ops path)"

definition impl_Copy where
  "impl_Copy cfg ops src dst = retried_err (''storage.Copy '' @ src) cfg (sCopy ops src dst)"

definition impl_Move where
  "impl_Move cfg ops src dst = retried_err (''storage.Move '' @ src) cfg (sMove ops src dst)"

definition impl_CreateMultipartUpload where
  "impl_CreateMultipartUpload ops path w =
     wrap_sum (''storage.CreateMultipartUpload '' @ path) (on_provider (sCreateMultipartUpload ops path) w)"

definition impl_UploadMultipartChunk where
  "impl_UploadMultipartChunk ops path upload number body sz w =
     wrap_sum (''storage.UploadMultipartChunk '' @ path)
       (on_provider (sUploadMultipartChunk ops path upload number body sz) w)"

definition impl_CompleteMultipartUpload where
  "impl_CompleteMultipartUpload ops path upload chunks =
     plain_err (''storage.CompleteMultipartUpload '' @ path) (sCompleteMultipartUpload ops path upload chunks)"

definition impl_AbortMultipartUpload where
  "impl_AbortMultipartUpload ops path upload =
     plain_err (''storage.AbortMultipartUpload '' @ path) (sAbortMultipartUpload ops path upload)"

definition impl_Close where
  "impl_Close ops = plain_err ''storage.Close'' (sClose ops)"

text \<open>\<open>url\<close> is the method of the \<open>UrlProvider\<close>.\<close>

definition impl_GetPublicUrl where
  "impl_GetPublicUrl cfg url path w =
     wrap_sum (''storage.GetPublicUrl '' @ path) (withRetry cfg [] (on_provider (url path)) w)"

definition impl_ops :: "'c impl_config \<Rightarrow> 's store_ops \<Rightarrow> ('s, 'c) impl_state store_ops" where
  "impl_ops cfg ops =
     \<lparr>sFileExists = impl_FileExists cfg ops, sDeleteFile = impl_DeleteFile cfg ops,
      sDeleteDir = impl_DeleteDir cfg ops, sWrite = impl_Write ops, sReadFile = impl_ReadFile cfg ops,
      sReadDir = impl_ReadDir cfg ops, sMkDir = impl_MkDir cfg ops, sCopy = impl_Copy cfg ops,
      sMove = impl_Move cfg ops, sCreateMultipartUpload = impl_CreateMultipartUpload ops,
      sUploadMultipartChunk = impl_UploadMultipartChunk ops,
      sCompleteMultipartUpload = impl_CompleteMultipartUpload ops,
      sAbortMultipartUpload = impl_AbortMultipartUpload ops, sClose = impl_Close ops\<rparr>"

section \<open>Retrying keeps the contract\<close>

lemma wrap_err_result:
  "wrap_err msg (r, w) = (e, w') \<Longrightarrow> w' = w \<and> (e = None) = (r = Inr ())"
  by (auto simp: wrap_err_def split: sum.splits)

lemma wrap_sum_result:
  "wrap_sum msg (r, w) = (r', w') \<Longrightarrow> w' = w \<and> (\<forall>v. r' = Inr v \<longrightarrow> r = Inr v)"
  by (auto simp: wrap_sum_def split: sum.splits)

lemma retried_err_rule:
  assumes run: "retried_err msg cfg f w = (e, w')"
    and step: "\<And>s e s'. J s \<Longrightarrow> f s = (e, s') \<Longrightarrow> (e \<noteq> None \<longrightarrow> J s') \<and> (e = None \<longrightarrow> K s')"
    and "J (im_provider w)"
  shows "(e \<noteq> None \<longrightarrow> J (im_provider w')) \<and> (e = None \<longrightarrow> K (im_provider w'))"
proof -
  let ?op = "on_provider (\<lambda>s. case f s of (e, s') \<Rightarrow> (as_sum e, s'))"
  obtain r w1 where r: "withRetry cfg () ?op w = (r, w1)" by fastforce
  have "(\<forall>x. r = Inl x \<longrightarrow> J (im_provider w1)) \<and> (\<forall>v. r = Inr v \<longrightarrow> K (im_provider w1))"
    by (rule withRetry_rule [where I="\<lambda>w. J (im_provider w)" and Q="\<lambda>v w. K (im_provider w)", OF _ _ r assms(3)])
      (auto simp: on_provider_def as_sum_def dest: step split: prod.splits option.splits)
  with run r show ?thesis
    by (cases r) (auto simp: retried_err_def dest!: wrap_err_result)
qed

lemma withRetry_provider_rule:
  assumes run: "wrap_sum msg (withRetry cfg zero (on_provider f) w) = (x, w')"
    and step: "\<And>s x s'. J s \<Longrightarrow> f s = (x, s') \<Longrightarrow> J s' \<and> (\<forall>v. x = Inr v \<longrightarrow> K v)"
    and "J (im_provider w)"
  shows "J (im_provider w') \<and> (\<forall>v. x = Inr v \<longrightarrow> K v)"
proof -
  obtain r w1 where r: "withRetry cfg zero (on_provider f) w = (r, w1)" by fastforce
  have "(\<forall>e. r = Inl e \<longrightarrow> J (im_provider w1)) \<and> (\<forall>v. r = Inr v \<longrightarrow> J (im_provider w1) \<and> K v)"
    by (rule withRetry_rule [where I="\<lambda>w. J (im_provider w)" and Q="\<lambda>v w. J (im_provider w) \<and> K v", OF _ _ r assms(3)])
      (auto simp: on_provider_def dest: step split: prod.splits)
  with run r show ?thesis by (cases r) (auto dest!: wrap_sum_result)
qed

context object_store
begin

abbreviation impl_invar :: "('s, 'c) impl_state \<Rightarrow> bool" where
  "impl_invar w \<equiv> invar (im_provider w)"

abbreviation impl_obj :: "('s, 'c) impl_state \<Rightarrow> 'k \<Rightarrow> byte list option" where
  "impl_obj w \<equiv> obj (im_provider w)"

theorem impl_store:
  fixes cfg :: "'c impl_config"
  shows "object_store (impl_ops cfg ops) impl_invar impl_obj key ok"
proof
  fix w :: "('s, 'c) impl_state" and p be w'
  assume I: "impl_invar w" and ok: "ok p" and run: "sFileExists (impl_ops cfg ops) p w = (be, w')"
  then have r: "wrap_sum (''storage.FileExists '' @ p) (withRetry cfg False (on_provider (sFileExists ops p)) w) = (be, w')"
    by (simp add: impl_ops_def impl_FileExists_def)
  have "(invar (im_provider w') \<and> impl_obj w' = impl_obj w)
      \<and> (\<forall>b. be = Inr b \<longrightarrow> (\<not> b \<longrightarrow> impl_obj w (key p) = None))"
    by (rule withRetry_provider_rule [OF r]) (use I ok exists_law in \<open>simp_all, metis\<close>)
  then show "impl_invar w' \<and> impl_obj w' = impl_obj w \<and> (be = Inr False \<longrightarrow> impl_obj w (key p) = None)" by blast
next
  fix w :: "('s, 'c) impl_state" and p e w'
  assume I: "impl_invar w" and ok: "ok p" and run: "sDeleteFile (impl_ops cfg ops) p w = (e, w')"
  then have r: "retried_err (''storage.DeleteFile '' @ p) cfg (sDeleteFile ops p) w = (e, w')"
    by (simp add: impl_ops_def impl_DeleteFile_def)
  let ?J = "\<lambda>s. invar s \<and> keeps obj {key p} (im_provider w) s"
  have "(e \<noteq> None \<longrightarrow> ?J (im_provider w')) \<and> (e = None \<longrightarrow> ?J (im_provider w') \<and> impl_obj w' (key p) = None)"
  proof (rule retried_err_rule [OF r, where J="?J" and K="\<lambda>s. ?J s \<and> obj s (key p) = None"])
    fix s e s' assume J: "?J s" and del: "sDeleteFile ops p s = (e, s')"
    have "keeps obj {key p} (im_provider w) s'" using J delete_law [OF _ ok del] keeps_trans by metis
    with J delete_law [OF _ ok del] show "(e \<noteq> None \<longrightarrow> ?J s') \<and> (e = None \<longrightarrow> ?J s' \<and> obj s' (key p) = None)" by simp
  qed (simp add: I)
  then show "impl_invar w' \<and> keeps impl_obj {key p} w w' \<and> (e = None \<longrightarrow> impl_obj w' (key p) = None)"
    by (cases e) (auto simp: keeps_def)
next
  show "impl_invar w' \<and> keeps impl_obj {key p} w w'
      \<and> (e = None \<longrightarrow> impl_obj w' (key p) = Some (rd_bytes r) \<and> read_fault (rd_fault r) = None)"
    if I: "impl_invar w" and ok: "ok p" and run: "sWrite (impl_ops cfg ops) p r w = (e, w')" for w :: "('s, 'c) impl_state" and p r e w'
  proof -
    obtain e1 s1 where wr: "sWrite ops p r (im_provider w) = (e1, s1)" by fastforce
    with run have "im_provider w' = s1" "(e = None) = (e1 = None)"
      by (auto simp: impl_ops_def impl_Write_def plain_err_def on_provider_def wrap_err_def as_sum_def
          split: option.splits)
    with write_law [OF I ok wr] show ?thesis by (simp add: keeps_def)
  qed
next
  fix w :: "('s, 'c) impl_state" and p x w'
  assume I: "impl_invar w" and ok: "ok p" and run: "sReadFile (impl_ops cfg ops) p w = (x, w')"
  then have r: "wrap_sum (''storage.ReadFile '' @ p)
      (withRetry cfg \<lparr>rd_bytes = [], rd_fault = None\<rparr> (on_provider (sReadFile ops p)) w) = (x, w')"
    by (simp add: impl_ops_def impl_ReadFile_def)
  have "(invar (im_provider w') \<and> impl_obj w' = impl_obj w)
      \<and> (\<forall>r. x = Inr r \<longrightarrow> (\<forall>d. impl_obj w (key p) = Some d \<longrightarrow> read_fault (rd_fault r) = None \<longrightarrow> rd_bytes r = d))"
    by (rule withRetry_provider_rule [OF r]) (use I ok read_law in \<open>simp_all, metis\<close>)
  then show "impl_invar w' \<and> impl_obj w' = impl_obj w
      \<and> (\<forall>d r. impl_obj w (key p) = Some d \<longrightarrow> x = Inr r \<longrightarrow> read_fault (rd_fault r) = None \<longrightarrow> rd_bytes r = d)" by blast
next
  fix w :: "('s, 'c) impl_state" and a b e w'
  assume I: "impl_invar w" and ok: "ok a" "ok b" and run: "sCopy (impl_ops cfg ops) a b w = (e, w')"
  then have r: "retried_err (''storage.Copy '' @ a) cfg (sCopy ops a b) w = (e, w')"
    by (simp add: impl_ops_def impl_Copy_def)
  let ?J = "\<lambda>s. invar s \<and> keeps obj {key b} (im_provider w) s"
  let ?D = "\<lambda>s. \<forall>d. key a \<noteq> key b \<longrightarrow> impl_obj w (key a) = Some d \<longrightarrow> obj s (key b) = Some d"
  have step: "(e \<noteq> None \<longrightarrow> ?J s') \<and> (e = None \<longrightarrow> ?J s' \<and> ?D s')" if "?J s" "sCopy ops a b s = (e, s')" for s e s'
  proof -
    have law: "invar s'" "keeps obj {key b} s s'"
      "\<forall>d. e = None \<longrightarrow> key a \<noteq> key b \<longrightarrow> obj s (key a) = Some d \<longrightarrow> obj s' (key b) = Some d"
      using copy_law [OF _ ok that(2)] that(1) by blast+
    moreover have "obj s (key a) = Some d" if "key a \<noteq> key b" "impl_obj w (key a) = Some d" for d
      using \<open>?J s\<close> that keepsD [of obj "{key b}" "im_provider w" s "key a"] by simp
    moreover have "keeps obj {key b} (im_provider w) s'" using law(2) that(1) keeps_trans by metis
    ultimately show ?thesis by simp
  qed
  have "(e \<noteq> None \<longrightarrow> ?J (im_provider w')) \<and> (e = None \<longrightarrow> ?J (im_provider w') \<and> ?D (im_provider w'))"
    by (rule retried_err_rule [OF r, where J="?J" and K="\<lambda>s. ?J s \<and> ?D s"], erule (1) step) (simp add: I)
  then show "impl_invar w' \<and> keeps impl_obj {key b} w w'
      \<and> (\<forall>d. e = None \<longrightarrow> key a \<noteq> key b \<longrightarrow> impl_obj w (key a) = Some d \<longrightarrow> impl_obj w' (key b) = Some d)"
    by (cases e) (auto simp: keeps_def)
qed

end

context movable_store
begin

lemma impl_movable:
  fixes cfg :: "'c impl_config"
  shows "movable_store (impl_ops cfg ops) impl_invar impl_obj key ok"
proof (intro movable_store.intro movable_store_axioms.intro)
  fix w :: "('s, 'c) impl_state" and a b d e w'
  assume I: "impl_invar w" and ok: "ok a" "ok b" and ne: "key a \<noteq> key b" and d: "impl_obj w (key a) = Some d"
    and run: "sMove (impl_ops cfg ops) a b w = (e, w')"
  then have r: "retried_err (''storage.Move '' @ a) cfg (sMove ops a b) w = (e, w')"
    by (simp add: impl_ops_def impl_Move_def)
  let ?J = "\<lambda>s. invar s \<and> keeps obj {key b} (im_provider w) s"
  let ?K = "\<lambda>s. invar s \<and> keeps obj {key a, key b} (im_provider w) s \<and> obj s (key b) = Some d \<and> obj s (key a) = None"
  have step: "(e \<noteq> None \<longrightarrow> ?J s') \<and> (e = None \<longrightarrow> ?K s')" if J: "?J s" and mv: "sMove ops a b s = (e, s')" for s e s'
  proof -
    have "obj s (key a) = Some d" using J d ne keepsD [of obj "{key b}" "im_provider w" s "key a"] by simp
    from move_law [OF _ ok ne this mv] J
    have law: "invar s'" "keeps obj {key a, key b} s s'" "e \<noteq> None \<longrightarrow> keeps obj {key b} s s'"
      "e = None \<longrightarrow> obj s' (key b) = Some d \<and> obj s' (key a) = None" by simp_all
    have "keeps obj {key a, key b} (im_provider w) s" using J by (simp add: keeps_def)
    from keeps_trans [OF this law(2)] law J keeps_trans [of obj "{key b}" "im_provider w" s s'] show ?thesis by simp
  qed
  have "(e \<noteq> None \<longrightarrow> ?J (im_provider w')) \<and> (e = None \<longrightarrow> ?K (im_provider w'))"
    by (rule retried_err_rule [OF r, where J="?J" and K="?K"], erule (1) step) (simp add: I)
  then show "impl_invar w' \<and> keeps impl_obj {key a, key b} w w' \<and> (e \<noteq> None \<longrightarrow> keeps impl_obj {key b} w w')
      \<and> (e = None \<longrightarrow> impl_obj w' (key b) = Some d \<and> impl_obj w' (key a) = None)"
    by (cases e) (auto simp: keeps_def)
qed (rule impl_store)

end

section \<open>Copies between storages\<close>

text \<open>
  Storages are numbered and their states kept in a list, so that source and destination may be the
  same instance. \<open>comparable\<close> says that the concrete type of the storages can be compared with \<open>==\<close>.
  The reader of a source is a snapshot of its content.
\<close>

definition sameStorage :: "bool \<Rightarrow> nat \<Rightarrow> nat \<Rightarrow> bool" where
  "sameStorage comparable dst src = (comparable \<and> dst = src)"

definition copyStreaming ::
  "'s store_ops \<Rightarrow> nat \<Rightarrow> string \<Rightarrow> nat \<Rightarrow> string \<Rightarrow> 's list \<Rightarrow> go_error option \<times> 's list" where
  "copyStreaming ops dst dstFilename src srcFilename ss =
     (case sReadFile ops srcFilename (ss ! src) of
        (Inl e, s1) \<Rightarrow> (Some (Wrap (''read source file '' @ srcFilename) [e]), ss[src := s1])
      | (Inr srcFile, s1) \<Rightarrow>
          (let ss1 = ss[src := s1]
           in case sWrite ops dstFilename srcFile (ss1 ! dst) of (e, s2) \<Rightarrow> (e, ss1[dst := s2])))"

definition util_Copy ::
  "bool \<Rightarrow> 's store_ops \<Rightarrow> nat \<Rightarrow> string \<Rightarrow> nat \<Rightarrow> string \<Rightarrow> 's list \<Rightarrow> go_error option \<times> 's list" where
  "util_Copy comparable ops dst dstFilename src srcFilename ss =
     (if sameStorage comparable dst src
      then (case sCopy ops srcFilename dstFilename (ss ! dst) of
              (None, s1) \<Rightarrow> (None, ss[dst := s1])
            | (Some e, s1) \<Rightarrow> copyStreaming ops dst dstFilename src srcFilename (ss[dst := s1]))
      else copyStreaming ops dst dstFilename src srcFilename ss)"

definition util_Move ::
  "bool \<Rightarrow> 's store_ops \<Rightarrow> nat \<Rightarrow> string \<Rightarrow> nat \<Rightarrow> string \<Rightarrow> 's list \<Rightarrow> go_error option \<times> 's list" where
  "util_Move comparable ops dst dstFilename src srcFilename ss =
     (if sameStorage comparable dst src
      then (case sMove ops srcFilename dstFilename (ss ! dst) of (e, s1) \<Rightarrow> (e, ss[dst := s1]))
      else (case util_Copy comparable ops dst dstFilename src srcFilename ss of
              (Some e, ss1) \<Rightarrow> (Some (Wrap (''copy file '' @ srcFilename) [e]), ss1)
            | (None, ss1) \<Rightarrow>
                (case sDeleteFile ops srcFilename (ss1 ! src) of (e, s1) \<Rightarrow> (e, ss1[src := s1]))))"

context object_store
begin

lemma copyStreaming_result:
  assumes "\<forall>s \<in> set ss. invar s" "dst < length ss" "src < length ss" and ok: "ok sf" "ok df"
    and "obj (ss ! src) (key sf) = Some d" "copyStreaming ops dst df src sf ss = (e, ss')"
  shows "(\<forall>s \<in> set ss'. invar s) \<and> length ss' = length ss
         \<and> (\<forall>i < length ss. keeps obj (if i = dst then {key df} else {}) (ss ! i) (ss' ! i))
         \<and> (e = None \<longrightarrow> obj (ss' ! dst) (key df) = Some d)"
proof -
  obtain x s1 where rd: "sReadFile ops sf (ss ! src) = (x, s1)" by fastforce
  have inv: "invar (ss ! src)" "invar (ss ! dst)" using assms(1-3) by simp_all
  note r = read_law [OF inv(1) ok(1) rd]
  let ?ss1 = "ss[src := s1]"
  have inv1: "\<forall>s \<in> set ?ss1. invar s" using r assms(1) set_update_subset_insert [of ss src s1] by blast
  have same: "obj (?ss1 ! i) = obj (ss ! i)" for i using r assms(3) by (cases "i = src") simp_all
  show ?thesis
  proof (cases x)
    case (Inl e1)
    with rd assms(7) have "ss' = ?ss1" "e \<noteq> None" by (auto simp: copyStreaming_def)
    with inv1 same show ?thesis by (auto simp: keeps_same)
  next
    case (Inr fl)
    obtain e2 s2 where wr: "sWrite ops df fl (?ss1 ! dst) = (e2, s2)" by fastforce
    with Inr rd assms(7) have ss': "ss' = ?ss1[dst := s2]" "e = e2" by (auto simp: copyStreaming_def)
    have "invar (?ss1 ! dst)" using inv1 assms(2) by (metis length_list_update nth_mem)
    note w = write_law [OF this ok(2) wr]
    have "\<forall>s \<in> set ss'. invar s" using w inv1 ss'(1) set_update_subset_insert [of ?ss1 dst s2] by blast
    moreover have "keeps obj (if i = dst then {key df} else {}) (ss ! i) (ss' ! i)" if "i < length ss" for i
    proof (cases "i = dst")
      case True
      with w same [of dst] assms(2) ss'(1) show ?thesis by (simp add: keeps_def)
    next
      case False
      with ss'(1) have "ss' ! i = ?ss1 ! i" by simp
      with False same [of i] show ?thesis by (simp add: keeps_same)
    qed
    ultimately show ?thesis using w r Inr assms(2,6) ss' by auto
  qed
qed

end

section \<open>Properties\<close>

text \<open>C12: retrying is transparent for the contract. If a provider is an object store - an operation that
  reports success has its effect, and no operation, failed or not, changes an object it does not
  name - then so is the storage \<open>Impl\<close> over it, for every retry policy, every classifier and
  every behaviour of the context.\<close>

theorem retried_storage_keeps_contract:
  assumes "object_store ops invar obj key ok"
  shows "object_store (impl_ops cfg ops) (\<lambda>w. invar (im_provider w)) (\<lambda>w. obj (im_provider w)) key ok"
  by (rule object_store.impl_store [OF assms])

text \<open>C13: moving a file between two different storages never loses it: whatever fails, the content is
  still at the source or already at the destination, and after success it is at the destination only.\<close>

theorem move_between_storages_safe:
  assumes "object_store ops invar obj key ok" "\<forall>s \<in> set ss. invar s"
    and "dst < length ss" "src < length ss" "dst \<noteq> src" "ok sf" "ok df" "obj (ss ! src) (key sf) = Some d"
    and "util_Move comparable ops dst df src sf ss = (e, ss')"
  shows "(obj (ss' ! src) (key sf) = Some d \<or> obj (ss' ! dst) (key df) = Some d)
         \<and> (e = None \<longrightarrow> obj (ss' ! dst) (key df) = Some d \<and> obj (ss' ! src) (key sf) = None)"
proof -
  note laws = object_store.copyStreaming_result [OF assms(1)] object_store.delete_law [OF assms(1)]
  have copy_eq: "util_Copy comparable ops dst df src sf ss = copyStreaming ops dst df src sf ss"
    using assms(5) by (simp add: util_Copy_def sameStorage_def)
  obtain e1 ss1 where copy: "copyStreaming ops dst df src sf ss = (e1, ss1)" by fastforce
  note c = laws(1) [OF assms(2-4) assms(6-8) copy]
  have kept: "obj (ss1 ! src) (key sf) = Some d"
    using c assms(4,5,8) keepsD [of obj "{}" "ss ! src" "ss1 ! src" "key sf" d] by auto
  show ?thesis
  proof (cases e1)
    case (Some x)
    with assms(5,9) copy have "ss' = ss1" "e \<noteq> None" by (auto simp: util_Move_def sameStorage_def copy_eq)
    with kept show ?thesis by simp
  next
    case None
    obtain e2 s2 where del: "sDeleteFile ops sf (ss1 ! src) = (e2, s2)" by fastforce
    with None assms(5,9) copy have ss': "ss' = ss1[src := s2]" "e = e2"
      by (auto simp: util_Move_def sameStorage_def copy_eq)
    have "invar (ss1 ! src)" using c assms(4) by simp
    from laws(2) [OF this assms(6) del] ss' c assms(4,5) None show ?thesis by simp
  qed
qed

end
