(* ===== verification/Os_Provider.thy ===== *)
theory Os_Provider
  imports Storages
begin

text \<open>
  The storage provider on local files, \<^verbatim>\<open>storage/providers/os.go\<close>, over the system calls of
  \<open>Go_Files\<close>. A directory \<open>op_dir\<close> holds the objects; a path names the file that
  \<open>filepath.Join\<close> yields. The library \<^verbatim>\<open>uuid\<close>, which is not part of the repository, is the parameter
  \<open>op_uuid\<close>; \<open>op_json\<close> encodes the identifiers of a combined upload.

  The provider implements the contracts of \<open>Storages\<close> (\<open>interpretation os\<close>).
\<close>

section \<open>The provider\<close>

record os_config =
  op_dir :: string
  op_uuid :: "nat \<Rightarrow> string"
  op_json :: "string list \<Rightarrow> string"

definition NewOsProvider :: "string \<Rightarrow> (nat \<Rightarrow> string) \<Rightarrow> (string list \<Rightarrow> string) \<Rightarrow> os_config" where
  "NewOsProvider dir uuid json = \<lparr>op_dir = dir, op_uuid = uuid, op_json = json\<rparr>"

definition getFullPath :: "os_config \<Rightarrow> string \<Rightarrow> fpath" where
  "getFullPath p path = Join (op_dir p) path"

definition multipartUploadDir :: "string \<Rightarrow> string \<Rightarrow> string" where
  "multipartUploadDir path uploadId = path @ ''.parts'' @ ''/'' @ uploadId"

definition multipartChunkPath :: "string \<Rightarrow> string \<Rightarrow> int \<Rightarrow> string" where
  "multipartChunkPath path uploadId number = multipartUploadDir path uploadId @ ''/'' @ show_int number"

definition os_FileExists :: "os_config \<Rightarrow> string \<Rightarrow> fs \<Rightarrow> (go_error + bool) \<times> fs" where
  "os_FileExists p path f =
     (case os_Stat (getFullPath p path) f of
        (Inl e, f1) \<Rightarrow> if err_is e ErrNotExist then (Inr False, f1) else (Inl e, f1)
      | (Inr x, f1) \<Rightarrow> (Inr True, f1))"

definition os_DeleteFile :: "os_config \<Rightarrow> string \<Rightarrow> fs \<Rightarrow> go_error option \<times> fs" where
  "os_DeleteFile p path f = os_Remove (getFullPath p path) f"

definition os_DeleteDir :: "os_config \<Rightarrow> string \<Rightarrow> fs \<Rightarrow> go_error option \<times> fs" where
  "os_DeleteDir p path f = os_RemoveAll (getFullPath p path) f"

text \<open>Deferred closes and removals, whose errors are only logged.\<close>

definition closing :: "'r \<times> fs \<Rightarrow> 'r \<times> fs" where
  "closing x = (fst x, snd (os_Close (snd x)))"

definition removing :: "fpath \<Rightarrow> 'r \<times> fs \<Rightarrow> 'r \<times> fs" where
  "removing tmp x = (fst x, snd (os_Remove tmp (snd x)))"

definition os_Write :: "os_config \<Rightarrow> string \<Rightarrow> reader \<Rightarrow> fs \<Rightarrow> go_error option \<times> fs" where
  "os_Write p path file f =
     (let fullPath = getFullPath p path
      in case os_MkdirAll (Dir_of fullPath) f of
           (Some e, f1) \<Rightarrow> (Some (Wrap (''create dir for file '' @ path) [e]), f1)
         | (None, f1) \<Rightarrow>
             (case os_Create fullPath f1 of
                (Some e, f2) \<Rightarrow> (Some (Wrap (''create file '' @ path) [e]), f2)
              | (None, f2) \<Rightarrow>
                  closing (case io_Copy fullPath file f2 of
                     (Some e, f3) \<Rightarrow> (Some (Wrap ''copy file to'' [e]), f3)
                   | (None, f3) \<Rightarrow> (None, f3))))"

definition os_ReadFile :: "os_config \<Rightarrow> string \<Rightarrow> fs \<Rightarrow> (go_error + reader) \<times> fs" where
  "os_ReadFile p path f =
     (case os_Open (getFullPath p path) f of
        (Inl e, f1) \<Rightarrow> (Inl (Wrap ''open file'' [e]), f1)
      | (Inr r, f1) \<Rightarrow> (Inr r, f1))"

definition os_ReadDir_op :: "os_config \<Rightarrow> string \<Rightarrow> fs \<Rightarrow> (go_error + dir_entry list) \<times> fs" where
  "os_ReadDir_op p path f =
     (case os_ReadDir (getFullPath p path) f of
        (Inl e, f1) \<Rightarrow> (Inl (Wrap ''read dir'' [e]), f1)
      | (Inr es, f1) \<Rightarrow>
          (Inr (map (\<lambda>(name, x). case x of Directory \<Rightarrow> NewDirEntry name | File b \<Rightarrow> NewFileEntry name) es), f1))"

definition os_MkDir :: "os_config \<Rightarrow> string \<Rightarrow> fs \<Rightarrow> go_error option \<times> fs" where
  "os_MkDir p path f =
     (case os_MkdirAll (getFullPath p path) f of
        (Some e, f1) \<Rightarrow> (Some (Wrap ''mkdir'' [e]), f1)
      | (None, f1) \<Rightarrow> (None, f1))"

text \<open>From a temporary file to the destination: copy, sync, close, rename.\<close>

definition copyThroughTemp :: "string \<Rightarrow> fpath \<Rightarrow> fpath \<Rightarrow> reader \<Rightarrow> fs \<Rightarrow> go_error option \<times> fs" where
  "copyThroughTemp srcPath tmpName dstFull srcFile f =
     (case io_Copy tmpName srcFile f of
        (Some e, f1) \<Rightarrow> (Some (Wrap (''copy '' @ srcPath) [e]), snd (os_Close f1))
      | (None, f1) \<Rightarrow>
          (case os_Sync f1 of
             (Some e, f2) \<Rightarrow> (Some (Wrap ''sync temp file'' [e]), snd (os_Close f2))
           | (None, f2) \<Rightarrow>
               (case os_Close f2 of
                  (Some e, f3) \<Rightarrow> (Some (Wrap ''close temp file'' [e]), f3)
                | (None, f3) \<Rightarrow>
                    (case os_Rename tmpName dstFull f3 of
                       (Some e, f4) \<Rightarrow> (Some (Wrap ''rename temp file to destination'' [e]), f4)
                     | (None, f4) \<Rightarrow> (None, f4)))))"

definition os_Copy :: "os_config \<Rightarrow> string \<Rightarrow> string \<Rightarrow> fs \<Rightarrow> go_error option \<times> fs" where
  "os_Copy p srcPath dstPath f =
     (let srcFull = getFullPath p srcPath; dstFull = getFullPath p dstPath; dstDir = Dir_of dstFull
      in case os_Open srcFull f of
           (Inl e, f1) \<Rightarrow> (Some (Wrap (''open source '' @ srcPath) [e]), f1)
         | (Inr srcFile, f1) \<Rightarrow>
             closing (case os_MkdirAll dstDir f1 of
                (Some e, f2) \<Rightarrow> (Some (Wrap (''create dir for file '' @ dstPath) [e]), f2)
              | (None, f2) \<Rightarrow>
                  (case os_CreateTemp dstDir ''.copy-'' f2 of
                     (Inl e, f3) \<Rightarrow> (Some (Wrap ''create temp file'' [e]), f3)
                   | (Inr tmpName, f3) \<Rightarrow> removing tmpName (copyThroughTemp srcPath tmpName dstFull srcFile f3))))"

definition os_Move :: "os_config \<Rightarrow> string \<Rightarrow> string \<Rightarrow> fs \<Rightarrow> go_error option \<times> fs" where
  "os_Move p srcPath dstPath f =
     (if srcPath = dstPath then (None, f)
      else (let srcFull = getFullPath p srcPath; dstFull = getFullPath p dstPath
            in case os_MkdirAll (Dir_of dstFull) f of
                 (Some e, f1) \<Rightarrow> (Some (Wrap (''create dir for file '' @ dstPath) [e]), f1)
               | (None, f1) \<Rightarrow>
                   (case os_Rename srcFull dstFull f1 of
                      (None, f2) \<Rightarrow> (None, f2)
                    | (Some _, f2) \<Rightarrow>
                        (case os_Copy p srcPath dstPath f2 of
                           (Some e, f3) \<Rightarrow> (Some e, f3)
                         | (None, f3) \<Rightarrow>
                             (case os_Remove srcFull f3 of
                                (Some e, f4) \<Rightarrow> (Some (Wrap (''remove source '' @ srcPath) [e]), f4)
                              | (None, f4) \<Rightarrow> (None, f4))))))"

definition os_CreateMultipartUpload :: "os_config \<Rightarrow> string \<Rightarrow> fs \<Rightarrow> (go_error + upload) \<times> fs" where
  "os_CreateMultipartUpload p path f = (Inr (Upload (op_uuid p (fs_tick f))), f\<lparr>fs_tick := Suc (fs_tick f)\<rparr>)"

definition os_UploadMultipartChunk ::
  "os_config \<Rightarrow> string \<Rightarrow> upload \<Rightarrow> int \<Rightarrow> reader \<Rightarrow> int \<Rightarrow> fs \<Rightarrow> (go_error + chunk) \<times> fs" where
  "os_UploadMultipartChunk p path upload number body sz f =
     (let chunkPath = multipartChunkPath path (upload_Id (op_json p) upload) number
      in case os_Write p chunkPath body f of
           (Some e, f1) \<Rightarrow> (Inl (Wrap (''write chunk '' @ show_int number) [e]), f1)
         | (None, f1) \<Rightarrow> (Inr (Chunk number chunkPath), f1))"

definition cleanupMultipartDir :: "os_config \<Rightarrow> string \<Rightarrow> string \<Rightarrow> fs \<Rightarrow> go_error option \<times> fs" where
  "cleanupMultipartDir p path uploadId f =
     (case os_DeleteDir p (multipartUploadDir path uploadId) f of
        (Some e, f1) \<Rightarrow> (Some e, f1)
      | (None, f1) \<Rightarrow> (None, snd (os_Remove (getFullPath p (path @ ''.parts'')) f1)))"

definition copyChunkToTemp ::
  "os_config \<Rightarrow> string \<Rightarrow> string \<Rightarrow> fpath \<Rightarrow> int \<Rightarrow> fs \<Rightarrow> go_error option \<times> fs" where
  "copyChunkToTemp p path uploadId tmpName number f =
     (case os_Open (getFullPath p (multipartChunkPath path uploadId number)) f of
        (Inl e, f1) \<Rightarrow> (Some (Wrap ''open chunk'' [e]), f1)
      | (Inr chunkFile, f1) \<Rightarrow>
          closing (case io_Copy tmpName chunkFile f1 of
                     (Some e, f2) \<Rightarrow> (Some (Wrap ''copy chunk'' [e]), f2)
                   | (None, f2) \<Rightarrow> (None, f2)))"

fun copyChunks ::
  "os_config \<Rightarrow> string \<Rightarrow> string \<Rightarrow> fpath \<Rightarrow> chunk list \<Rightarrow> fs \<Rightarrow> go_error option \<times> fs" where
  "copyChunks p path uploadId tmpName [] f = (None, f)"
| "copyChunks p path uploadId tmpName (c # cs) f =
     (case copyChunkToTemp p path uploadId tmpName (chunk_Number c) f of
        (Some e, f1) \<Rightarrow> (Some (Wrap (''chunk '' @ show_int (chunk_Number c)) [Atom ErrChunkProcess, e]), f1)
      | (None, f1) \<Rightarrow> copyChunks p path uploadId tmpName cs f1)"

definition os_CompleteMultipartUpload ::
  "os_config \<Rightarrow> string \<Rightarrow> upload \<Rightarrow> chunk list \<Rightarrow> fs \<Rightarrow> go_error option \<times> fs" where
  "os_CompleteMultipartUpload p path upload chunks f =
     (if chunks = [] then (Some (Atom ErrNoChunksProvided), f)
      else (let destPath = getFullPath p path; destDir = Dir_of destPath; uploadId = upload_Id (op_json p) upload
            in case os_MkdirAll destDir f of
                 (Some e, f1) \<Rightarrow> (Some (Wrap (''create dir for file '' @ path) [e]), f1)
               | (None, f1) \<Rightarrow>
                   (case os_CreateTemp destDir ''.compose-'' f1 of
                      (Inl e, f2) \<Rightarrow> (Some (Wrap ''create temp file'' [e]), f2)
                    | (Inr tmpName, f2) \<Rightarrow>
                        removing tmpName
                          (case copyChunks p path uploadId tmpName chunks f2 of
                             (Some e, f3) \<Rightarrow> (Some e, f3)
                           | (None, f3) \<Rightarrow>
                               (case os_Sync f3 of
                                  (Some e, f4) \<Rightarrow> (Some (Wrap ''sync temp file'' [e]), f4)
                                | (None, f4) \<Rightarrow>
                                    (case os_Close f4 of
                                       (Some e, f5) \<Rightarrow> (Some (Wrap ''close temp file'' [e]), f5)
                                     | (None, f5) \<Rightarrow>
                                         (case os_Rename tmpName destPath f5 of
                                            (Some e, f6) \<Rightarrow> (Some (Wrap ''rename temp file to destination'' [e]), f6)
                                          | (None, f6) \<Rightarrow> (None, snd (cleanupMultipartDir p path uploadId f6)))))))))"

definition os_AbortMultipartUpload :: "os_config \<Rightarrow> string \<Rightarrow> upload \<Rightarrow> fs \<Rightarrow> go_error option \<times> fs" where
  "os_AbortMultipartUpload p path upload f =
     (case cleanupMultipartDir p path (upload_Id (op_json p) upload) f of
        (Some e, f1) \<Rightarrow> if err_is e ErrNotExist then (None, f1) else (Some (Wrap ''abort multipart'' [e]), f1)
      | (None, f1) \<Rightarrow> (None, f1))"

definition os_Close_op :: "fs \<Rightarrow> go_error option \<times> fs" where
  "os_Close_op f = (None, f)"

definition os_LocalPath :: "os_config \<Rightarrow> string \<Rightarrow> (go_error + fpath)" where
  "os_LocalPath p path = Inr (getFullPath p path)"

definition os_ops :: "os_config \<Rightarrow> fs store_ops" where
  "os_ops p =
     \<lparr>sFileExists = os_FileExists p, sDeleteFile = os_DeleteFile p, sDeleteDir = os_DeleteDir p,
      sWrite = os_Write p, sReadFile = os_ReadFile p, sReadDir = os_ReadDir_op p, sMkDir = os_MkDir p,
      sCopy = os_Copy p, sMove = os_Move p, sCreateMultipartUpload = os_CreateMultipartUpload p,
      sUploadMultipartChunk = os_UploadMultipartChunk p,
      sCompleteMultipartUpload = os_CompleteMultipartUpload p,
      sAbortMultipartUpload = os_AbortMultipartUpload p, sClose = os_Close_op\<rparr>"

section \<open>The provider keeps the contract\<close>

text \<open>Names that the provider makes for its temporary files are not for clients.\<close>

definition temp_name :: "fpath \<Rightarrow> bool" where
  "temp_name q = (q \<noteq> [] \<and> (take 6 (last q) = ''.copy-'' \<or> take 9 (last q) = ''.compose-''))"

definition os_path_ok :: "os_config \<Rightarrow> string \<Rightarrow> bool" where
  "os_path_ok p path = (\<not> temp_name (getFullPath p path))"

lemma closing_files [simp]: "fst (closing x) = fst x" "file_at (snd (closing x)) = file_at (snd x)"
  by (simp_all add: closing_def os_Close_def sys_def file_at_def fun_eq_iff)

lemma removing_files:
  "fst (removing tmp x) = fst x
   \<and> (file_at (snd (removing tmp x)) = file_at (snd x) \<or> file_at (snd (removing tmp x)) = (file_at (snd x))(tmp := None))"
proof -
  obtain e f where "os_Remove tmp (snd x) = (e, f)" by fastforce
  with os_Remove_files [OF this] show ?thesis by (auto simp: removing_def split: if_splits)
qed

lemma os_Close_snd [simp]: "file_at (snd (os_Close f)) = file_at f"
  by (simp add: os_Close_def sys_def file_at_def fun_eq_iff)

lemma temp_of_CreateTemp:
  "os_CreateTemp dir ''.copy-'' f = (Inr tmp, f') \<Longrightarrow> temp_name tmp"
  "os_CreateTemp dir ''.compose-'' f = (Inr tmp, f') \<Longrightarrow> temp_name tmp"
  by (auto simp: os_CreateTemp_def temp_name_def Let_def split: prod.splits option.splits if_splits)

lemma os_Write_law:
  assumes "os_Write p path r f = (e, f')"
  shows "keeps file_at {getFullPath p path} f f'
    \<and> (e = None \<longrightarrow> file_at f' = (file_at f)(getFullPath p path := Some (rd_bytes r)) \<and> read_fault (rd_fault r) = None)"
proof -
  let ?q = "getFullPath p path"
  obtain e1 f1 where mk: "os_MkdirAll (Dir_of ?q) f = (e1, f1)" by fastforce
  obtain e2 f2 where cr: "os_Create ?q f1 = (e2, f2)" by fastforce
  obtain e3 f3 where cp: "io_Copy ?q r f2 = (e3, f3)" by fastforce
  note files = os_MkdirAll_files [OF mk] os_Create_files [OF cr]
  show ?thesis
  proof (cases "e1 = None \<and> e2 = None")
    case True
    with files have "file_at f2 ?q = Some []" by simp
    from io_Copy_files [OF cp this] obtain b' where b': "file_at f3 = (file_at f2)(?q := Some b')"
      "e3 = None \<longrightarrow> b' = rd_bytes r \<and> read_fault (rd_fault r) = None" by auto
    have "f' = snd (closing (e3, f3))" "(e = None) = (e3 = None)"
      using assms True mk cr cp by (auto simp: os_Write_def Let_def closing_def split: option.splits)
    with b' files True show ?thesis by (auto simp: keeps_def)
  next
    case False
    with assms mk cr files show ?thesis
      by (cases e1; cases e2) (auto simp: os_Write_def Let_def keeps_same)
  qed
qed

text \<open>A copy replaces the destination in one step or leaves every existing file as it is.\<close>

lemma copyThroughTemp_files:
  assumes "copyThroughTemp n tmp dst r f = (e, f')" "file_at f tmp = Some []"
  shows "if e = None then file_at f' = (file_at f)(tmp := None, dst := Some (rd_bytes r)) \<and> read_fault (rd_fault r) = None
         else \<exists>b. file_at f' = (file_at f)(tmp := Some b)"
proof -
  obtain e1 f1 where cp: "io_Copy tmp r f = (e1, f1)" by fastforce
  obtain e2 f2 where sy: "os_Sync f1 = (e2, f2)" by fastforce
  obtain e3 f3 where cl: "os_Close f2 = (e3, f3)" by fastforce
  obtain e4 f4 where rn: "os_Rename tmp dst f3 = (e4, f4)" by fastforce
  from io_Copy_files [OF cp assms(2)] obtain b where b: "file_at f1 = (file_at f)(tmp := Some b)"
    "e1 = None \<longrightarrow> b = rd_bytes r \<and> read_fault (rd_fault r) = None" by auto
  with os_Sync_files [OF sy] os_Close_files [OF cl] have f3: "file_at f3 = (file_at f)(tmp := Some b)" by simp
  then have "file_at f3 tmp = Some b" by simp
  from os_Rename_files [OF rn this] assms(1) cp sy cl rn f3 b os_Sync_files [OF sy]
  show ?thesis
    by (cases e1; cases e2; cases e3; cases e4) (auto simp: copyThroughTemp_def split: if_splits)
qed

lemma os_Copy_law:
  assumes "os_Copy p a b f = (e, f')" "os_path_ok p b"
  shows "(e \<noteq> None \<longrightarrow> keeps file_at {} f f') \<and> keeps file_at {getFullPath p b} f f'
    \<and> (e = None \<longrightarrow> file_at f (getFullPath p a) \<noteq> None \<and> file_at f' (getFullPath p b) = file_at f (getFullPath p a))"
proof -
  let ?a = "getFullPath p a" and ?b = "getFullPath p b"
  obtain x f1 where op: "os_Open ?a f = (x, f1)" by fastforce
  obtain e2 f2 where mk: "os_MkdirAll (Dir_of ?b) f1 = (e2, f2)" by fastforce
  obtain y f3 where ct: "os_CreateTemp (Dir_of ?b) ''.copy-'' f2 = (y, f3)" by fastforce
  note same = os_Open_files [OF op] os_MkdirAll_files [OF mk]
  show ?thesis
  proof (cases "\<exists>r tmp. x = Inr r \<and> e2 = None \<and> y = Inr tmp")
    case False
    have "e \<noteq> None \<and> file_at f' = file_at f"
    proof (cases x)
      case (Inl e1)
      with assms(1) op same show ?thesis by (auto simp: os_Copy_def Let_def)
    next
      case (Inr r)
      with False assms(1) op mk ct same show ?thesis
        by (cases e2; cases y) (auto simp: os_Copy_def Let_def closing_def dest: os_CreateTemp_err)
    qed
    then show ?thesis by (auto simp: keeps_same)
  next
    case True
    then obtain r tmp where r: "x = Inr r" "e2 = None" "y = Inr tmp" by auto
    obtain e4 f4 where cp: "copyThroughTemp a tmp ?b r f3 = (e4, f4)" by fastforce
    have f': "f' = snd (closing (removing tmp (e4, f4)))" "e = e4"
      using assms(1) op mk ct cp r by (auto simp: os_Copy_def Let_def closing_def removing_def)
    have tmp: "file_at f tmp = None" "file_at f3 = (file_at f)(tmp := Some [])"
      using os_CreateTemp_files [OF ct [unfolded r]] same by auto
    have ne: "tmp \<noteq> ?b" using temp_of_CreateTemp(1) [OF ct [unfolded r]] assms(2) by (auto simp: os_path_ok_def)
    have rd: "file_at f ?a \<noteq> None \<and> rd_bytes r = the (file_at f ?a)" if "read_fault (rd_fault r) = None"
      using os_Open_reads [OF op [unfolded r]] that by (auto split: option.splits)
    have "file_at f3 tmp = Some []" using tmp by simp
    from copyThroughTemp_files [OF cp this] tmp
    have f4: "if e4 = None then file_at f4 = (file_at f)(tmp := None, ?b := Some (rd_bytes r)) \<and> read_fault (rd_fault r) = None
              else \<exists>b. file_at f4 = (file_at f)(tmp := Some b)"
      by (auto split: if_splits)
    have "file_at f' = file_at f4 \<or> file_at f' = (file_at f4)(tmp := None)"
      using removing_files [of tmp "(e4, f4)"] f' by simp
    with f4 f'(2) rd tmp(1) ne show ?thesis
      by (cases "e4 = None") (auto simp: keeps_def)
  qed
qed

lemma os_object_store: "object_store (os_ops p) (\<lambda>_. True) file_at (getFullPath p) (os_path_ok p)"
proof
  show "True \<and> file_at f' = file_at f \<and> (be = Inr False \<longrightarrow> file_at f (getFullPath p path) = None)"
    if "sFileExists (os_ops p) path f = (be, f')" for path f be f'
  proof -
    obtain x f1 where st: "os_Stat (getFullPath p path) f = (x, f1)" by fastforce
    with that have "f' = f1" by (auto simp: os_ops_def os_FileExists_def split: sum.splits if_splits)
    moreover have "file_at f (getFullPath p path) = None" if "x = Inl e" "err_is e ErrNotExist" for e
      using st that sys_err by (auto simp: os_Stat_def file_at_def split: prod.splits option.splits)
    ultimately show ?thesis using os_Stat_files [OF st] that st
      by (auto simp: os_ops_def os_FileExists_def split: sum.splits if_splits)
  qed
next
  show "True \<and> keeps file_at {getFullPath p path} f f' \<and> (e = None \<longrightarrow> file_at f' (getFullPath p path) = None)"
    if "sDeleteFile (os_ops p) path f = (e, f')" for path f e f'
    using that os_Remove_files [of "getFullPath p path" f e f'] by (auto simp: os_ops_def os_DeleteFile_def keeps_def)
next
  show "True \<and> keeps file_at {getFullPath p path} f f'
      \<and> (e = None \<longrightarrow> file_at f' (getFullPath p path) = Some (rd_bytes r) \<and> read_fault (rd_fault r) = None)"
    if "sWrite (os_ops p) path r f = (e, f')" for path r f e f'
    using that os_Write_law [of p path r f e f'] by (auto simp: os_ops_def)
next
  show "True \<and> file_at f' = file_at f \<and> (\<forall>d r. file_at f (getFullPath p path) = Some d \<longrightarrow> x = Inr r \<longrightarrow>
      read_fault (rd_fault r) = None \<longrightarrow> rd_bytes r = d)"
    if "sReadFile (os_ops p) path f = (x, f')" for path f x f'
  proof -
    obtain y f1 where op: "os_Open (getFullPath p path) f = (y, f1)" by fastforce
    with that have "f' = f1" "\<And>r. x = Inr r \<Longrightarrow> y = Inr r"
      by (auto simp: os_ops_def os_ReadFile_def split: sum.splits)
    with os_Open_files [OF op] os_Open_reads [of "getFullPath p path" f _ f1] op show ?thesis by fastforce
  qed
next
  show "True \<and> keeps file_at {getFullPath p b} f f' \<and> (\<forall>d. e = None \<longrightarrow> getFullPath p a \<noteq> getFullPath p b \<longrightarrow>
      file_at f (getFullPath p a) = Some d \<longrightarrow> file_at f' (getFullPath p b) = Some d)"
    if "os_path_ok p b" "sCopy (os_ops p) a b f = (e, f')" for a b f e f'
    using that os_Copy_law [of p a b f e f'] by (auto simp: os_ops_def)
qed

lemma os_Move_law:
  assumes "os_Move p a b f = (e, f')" "os_path_ok p b" "getFullPath p a \<noteq> getFullPath p b"
    and "file_at f (getFullPath p a) = Some d"
  shows "keeps file_at {getFullPath p a, getFullPath p b} f f'
    \<and> (e \<noteq> None \<longrightarrow> keeps file_at {getFullPath p b} f f')
    \<and> (e = None \<longrightarrow> file_at f' (getFullPath p b) = Some d \<and> file_at f' (getFullPath p a) = None)"
proof -
  let ?a = "getFullPath p a" and ?b = "getFullPath p b"
  obtain e1 f1 where mk: "os_MkdirAll (Dir_of ?b) f = (e1, f1)" by fastforce
  obtain e2 f2 where rn: "os_Rename ?a ?b f1 = (e2, f2)" by fastforce
  obtain e3 f3 where cp: "os_Copy p a b f2 = (e3, f3)" by fastforce
  obtain e4 f4 where rm: "os_Remove ?a f3 = (e4, f4)" by fastforce
  have f1: "file_at f1 = file_at f" using os_MkdirAll_files [OF mk] .
  with assms(4) have "file_at f1 ?a = Some d" by simp
  note f2 = os_Rename_files [OF rn this, unfolded f1]
  note f3 = os_Copy_law [OF cp assms(2)] and f4 = os_Remove_files [OF rm]
  have path: "a \<noteq> b" using assms(3) by auto
  consider (dir) x where "e1 = Some x" | (moved) "e1 = None" "e2 = None"
    | (copy) x y where "e1 = None" "e2 = Some x" "e3 = Some y" | (drop) x where "e1 = None" "e2 = Some x" "e3 = None"
    by (cases e1; cases e2; cases e3) auto
  then show ?thesis
  proof cases
    case dir
    with assms(1) path mk f1 show ?thesis by (auto simp: os_Move_def Let_def keeps_same)
  next
    case moved
    with assms(1) path mk rn have "e = None" "f' = f2" by (auto simp: os_Move_def Let_def)
    with moved f2 assms(3) show ?thesis by (simp add: keeps_def)
  next
    case copy
    with assms(1) path mk rn cp have "e \<noteq> None" "f' = f3" by (auto simp: os_Move_def Let_def)
    with copy f2 f3 show ?thesis by (auto simp: keeps_def)
  next
    case drop
    with assms(1) path mk rn cp rm have "(e = None) = (e4 = None)" "f' = f4"
      by (auto simp: os_Move_def Let_def split: option.splits)
    with drop f2 f3 f4 assms(3,4) show ?thesis by (cases "e4 = None") (auto simp: keeps_def)
  qed
qed

interpretation os: movable_store "os_ops p" "\<lambda>_. True" file_at "getFullPath p" "os_path_ok p" for p
proof (intro movable_store.intro movable_store_axioms.intro)
  show "True \<and> keeps file_at {getFullPath p a, getFullPath p b} f f'
      \<and> (e \<noteq> None \<longrightarrow> keeps file_at {getFullPath p b} f f')
      \<and> (e = None \<longrightarrow> file_at f' (getFullPath p b) = Some d \<and> file_at f' (getFullPath p a) = None)"
    if "os_path_ok p b" "getFullPath p a \<noteq> getFullPath p b" "file_at f (getFullPath p a) = Some d"
      "sMove (os_ops p) a b f = (e, f')" for a b f e f' d
    using that os_Move_law [of p a b f e f' d] by (simp add: os_ops_def)
qed (rule os_object_store)

text \<open>The storage \<open>Impl\<close> on a provider of local files.\<close>

interpretation os_storage: movable_store "impl_ops cfg (os_ops p)" "\<lambda>w. True" "\<lambda>w. file_at (im_provider w)"
    "getFullPath p" "os_path_ok p" for cfg p
  by (rule os.impl_movable)

section \<open>Multipart uploads\<close>

lemma map_of_drop_keys: "map_of (filter (\<lambda>(q, x). \<not> P q) xs) k = (if P k then None else map_of xs k)"
  by (induction xs) auto

lemma os_RemoveAll_files:
  "os_RemoveAll q f = (e, f') \<Longrightarrow> file_at f' = (if e = None then (\<lambda>k. if is_prefix q k then None else file_at f k) else file_at f)"
  by (auto simp: os_RemoveAll_def file_at_def node_of_def map_of_drop_keys fun_eq_iff sys_def
      split: option.splits if_splits)

lemma cleanup_files:
  assumes "\<not> is_prefix (getFullPath p (multipartUploadDir path uid)) k" "k \<noteq> getFullPath p (path @ ''.parts'')"
  shows "file_at (snd (cleanupMultipartDir p path uid f)) k = file_at f k"
proof -
  obtain e f1 where rm: "os_RemoveAll (getFullPath p (multipartUploadDir path uid)) f = (e, f1)" by fastforce
  obtain e2 f2 where rp: "os_Remove (getFullPath p (path @ ''.parts'')) f1 = (e2, f2)" by fastforce
  from rm rp os_RemoveAll_files [OF rm] os_Remove_files [OF rp] assms show ?thesis
    by (cases e) (auto simp: cleanupMultipartDir_def os_DeleteDir_def)
qed

lemma copyChunkToTemp_files:
  assumes "copyChunkToTemp p path uid tmp n f = (e, f')" "file_at f tmp = Some b"
    and "file_at f (getFullPath p (multipartChunkPath path uid n)) = Some d"
  shows "\<exists>b'. file_at f' = (file_at f)(tmp := Some b') \<and> (e = None \<longrightarrow> b' = b @ d)"
proof -
  let ?q = "getFullPath p (multipartChunkPath path uid n)"
  obtain x f1 where op: "os_Open ?q f = (x, f1)" by fastforce
  show ?thesis
  proof (cases x)
    case (Inl y)
    with assms(1) op os_Open_files [OF op] assms(2) show ?thesis
      by (intro exI [of _ b]) (auto simp: copyChunkToTemp_def fun_upd_idem)
  next
    case (Inr r)
    obtain e2 f2 where cp: "io_Copy tmp r f1 = (e2, f2)" by fastforce
    have same: "file_at f1 = file_at f" using os_Open_files [OF op] .
    with assms(2) have "file_at f1 tmp = Some b" by simp
    from io_Copy_files [OF cp this] obtain b' where "file_at f2 = (file_at f1)(tmp := Some b')"
      "e2 = None \<longrightarrow> b' = b @ rd_bytes r" by auto
    moreover have "r = \<lparr>rd_bytes = d, rd_fault = None\<rparr>" using os_Open_reads [OF op [unfolded Inr]] assms(3) by simp
    moreover have "(e = None) = (e2 = None)" "file_at f' = file_at f2"
      using assms(1) op cp Inr closing_files(2) [of "(e, f2)" for e]
      by (auto simp: copyChunkToTemp_def closing_def split: option.splits)
    ultimately show ?thesis using same by auto
  qed
qed

lemma copyChunks_files:
  assumes "copyChunks p path uid tmp cs f = (e, f')" "file_at f tmp = Some b"
    and "\<forall>c \<in> set cs. file_at f (getFullPath p (multipartChunkPath path uid (chunk_Number c))) = Some (d c)
          \<and> tmp \<noteq> getFullPath p (multipartChunkPath path uid (chunk_Number c))"
  shows "\<exists>b'. file_at f' = (file_at f)(tmp := Some b') \<and> (e = None \<longrightarrow> b' = b @ concat (map d cs))"
  using assms
proof (induction cs arbitrary: f b)
  case Nil
  then show ?case by (auto simp: fun_upd_idem)
next
  case (Cons c cs)
  obtain e1 f1 where one: "copyChunkToTemp p path uid tmp (chunk_Number c) f = (e1, f1)" by fastforce
  obtain b1 where b1: "file_at f1 = (file_at f)(tmp := Some b1)" "e1 = None \<longrightarrow> b1 = b @ d c"
    using copyChunkToTemp_files [OF one Cons.prems(2)] Cons.prems(3) by auto
  show ?case
  proof (cases e1)
    case (Some x)
    with Cons.prems(1) one b1 show ?thesis by auto
  next
    case None
    have "copyChunks p path uid tmp cs f1 = (e, f')" using Cons.prems(1) one None by simp
    moreover have "file_at f1 tmp = Some b1" using b1 by simp
    moreover have "\<forall>c \<in> set cs. file_at f1 (getFullPath p (multipartChunkPath path uid (chunk_Number c))) = Some (d c)
          \<and> tmp \<noteq> getFullPath p (multipartChunkPath path uid (chunk_Number c))"
      using Cons.prems(3) b1 by auto
    ultimately obtain b' where "file_at f' = (file_at f1)(tmp := Some b')" "e = None \<longrightarrow> b' = b1 @ concat (map d cs)"
      using Cons.IH by blast
    with b1 None show ?thesis by auto
  qed
qed

section \<open>Properties\<close>

text \<open>C14: \<open>Copy\<close> is atomic. Whatever system call fails, every existing file, the destination included,
  is as it was; and a \<open>Copy\<close> that succeeds gives the destination the content of the source and
  changes no other file.\<close>

theorem os_copy_atomic:
  assumes "os_Copy p a b f = (e, f')" "os_path_ok p b"
  shows "(e \<noteq> None \<longrightarrow> keeps file_at {} f f')
    \<and> (e = None \<longrightarrow> keeps file_at {getFullPath p b} f f' \<and> file_at f (getFullPath p a) \<noteq> None
                     \<and> file_at f' (getFullPath p b) = file_at f (getFullPath p a))"
  using os_Copy_law [OF assms] by blast

text \<open>Two files below \<^verbatim>\<open>/d\<close>, and a system whose third write-side call fails.\<close>

definition example_os :: os_config where
  "example_os = NewOsProvider ''/d'' (\<lambda>n. ''u'') concat"

definition example_fs :: "(nat \<Rightarrow> nat option) \<Rightarrow> fs" where
  "example_fs fault =
     \<lparr>fs_nodes = [([''d''], Directory), ([''d'', ''a''], File ''one''), ([''d'', ''b''], File ''two'')],
      fs_tick = 0, fs_fault = fault, fs_short = (\<lambda>_. 1), fs_rand = (\<lambda>n. ''7'')\<rparr>"

lemma example_copy_fails:
  "fst (os_Copy example_os ''a'' ''b'' (example_fs (\<lambda>n. if n = 3 then Some 5 else None))) \<noteq> None"
  by code_simp

lemma os_copy_atomic_witness:
  "\<exists>e f'. os_Copy example_os ''a'' ''b'' (example_fs (\<lambda>n. if n = 3 then Some 5 else None)) = (Some e, f')
     \<and> file_at f' [''d'', ''b''] = Some ''two''"
proof -
  let ?f = "example_fs (\<lambda>n. if n = 3 then Some 5 else None)"
  obtain e f' where run: "os_Copy example_os ''a'' ''b'' ?f = (Some e, f')"
    using fst_SomeD [OF example_copy_fails] by blast
  have "os_path_ok example_os ''b''" by code_simp
  moreover have "file_at ?f [''d'', ''b''] = Some ''two''" by code_simp
  ultimately show ?thesis using os_copy_atomic [OF run] run by (auto simp: keeps_def)
qed

text \<open>C15: \<open>Move\<close> on local files never loses the object: on an error the source is as it was, after success
  its content is at the destination and the source is gone; no other file changes. This takes two
  paths that name different files.\<close>

theorem os_move_safe:
  assumes "os_Move p a b f = (e, f')" "os_path_ok p b" "getFullPath p a \<noteq> getFullPath p b"
    and "file_at f (getFullPath p a) = Some d"
  shows "keeps file_at {getFullPath p a, getFullPath p b} f f'
    \<and> (e \<noteq> None \<longrightarrow> file_at f' (getFullPath p a) = Some d)
    \<and> (e = None \<longrightarrow> file_at f' (getFullPath p b) = Some d \<and> file_at f' (getFullPath p a) = None)"
  using os_Move_law [OF assms] assms(3,4) by (simp add: keeps_def)

lemma os_move_safe_witness:
  "\<exists>e f'. os_Move example_os ''a'' ''b'' (example_fs (\<lambda>n. if n = 1 \<or> n = 4 then Some 5 else None)) = (Some e, f')
     \<and> file_at f' [''d'', ''a''] = Some ''one''"
proof -
  let ?f = "example_fs (\<lambda>n. if n = 1 \<or> n = 4 then Some 5 else None)"
  have "fst (os_Move example_os ''a'' ''b'' ?f) \<noteq> None" by code_simp
  from fst_SomeD [OF this] obtain e f' where run: "os_Move example_os ''a'' ''b'' ?f = (Some e, f')" by blast
  have "os_path_ok example_os ''b''" "getFullPath example_os ''a'' \<noteq> getFullPath example_os ''b''"
    "file_at ?f (getFullPath example_os ''a'') = Some ''one''" "getFullPath example_os ''a'' = [''d'', ''a'']"
    by code_simp+
  with os_move_safe [OF run] run show ?thesis by auto
qed

text \<open>A completed multipart upload holds the chunks in the order of the list, one after the other.
  The upload's directory must not contain the destination.\<close>

lemma os_multipart_concatenates:
  fixes p path upload
  defines "uid \<equiv> upload_Id (op_json p) upload"
  assumes "os_CompleteMultipartUpload p path upload chunks f = (None, f')"
    and "\<forall>c \<in> set chunks. file_at f (getFullPath p (multipartChunkPath path uid (chunk_Number c))) = Some (d c)"
    and "os_path_ok p path" "\<not> is_prefix (getFullPath p (multipartUploadDir path uid)) (getFullPath p path)"
    and "getFullPath p path \<noteq> getFullPath p (path @ ''.parts'')"
  shows "file_at f' (getFullPath p path) = Some (concat (map d chunks))"
proof -
  let ?q = "getFullPath p path"
  have ne: "chunks \<noteq> []" using assms(2) by (auto simp: os_CompleteMultipartUpload_def)
  obtain e1 f1 where mk: "os_MkdirAll (Dir_of ?q) f = (e1, f1)" by fastforce
  obtain x f2 where ct: "os_CreateTemp (Dir_of ?q) ''.compose-'' f1 = (x, f2)" by fastforce
  from assms(2) ne mk ct have "e1 = None" and "\<exists>tmp. x = Inr tmp"
    by (auto simp: os_CompleteMultipartUpload_def Let_def split: option.splits sum.splits)
  then obtain tmp where x: "x = Inr tmp" by blast
  obtain e3 f3 where cc: "copyChunks p path uid tmp chunks f2 = (e3, f3)" by fastforce
  obtain e4 f4 where sy: "os_Sync f3 = (e4, f4)" by fastforce
  obtain e5 f5 where cl: "os_Close f4 = (e5, f5)" by fastforce
  obtain e6 f6 where rn: "os_Rename tmp ?q f5 = (e6, f6)" by fastforce
  let ?g = "snd (cleanupMultipartDir p path uid f6)"
  from assms(2) ne mk ct \<open>e1 = None\<close> x cc sy cl rn
  have all: "e3 = None" "e4 = None" "e5 = None" "e6 = None" and f': "f' = snd (removing tmp (None :: go_error option, ?g))"
    by (auto simp: os_CompleteMultipartUpload_def Let_def removing_def uid_def split: option.splits)
  have f2: "file_at f tmp = None" "file_at f2 = (file_at f)(tmp := Some [])"
    using os_CreateTemp_files [OF ct [unfolded x]] os_MkdirAll_files [OF mk] by auto
  have tmp: "tmp \<noteq> ?q" using temp_of_CreateTemp(2) [OF ct [unfolded x]] assms(4) by (auto simp: os_path_ok_def)
  have "file_at f2 tmp = Some []" using f2 by simp
  moreover have "\<forall>c \<in> set chunks. file_at f2 (getFullPath p (multipartChunkPath path uid (chunk_Number c))) = Some (d c)
      \<and> tmp \<noteq> getFullPath p (multipartChunkPath path uid (chunk_Number c))"
    using assms(3) f2 by auto
  ultimately have f3: "file_at f3 = (file_at f2)(tmp := Some (concat (map d chunks)))"
    using copyChunks_files [OF cc] all(1) by auto
  then have "file_at f5 tmp = Some (concat (map d chunks))"
    using os_Sync_files [OF sy] os_Close_files [OF cl] by simp
  from os_Rename_files [OF rn this] all(4) have "file_at f6 ?q = Some (concat (map d chunks))" by simp
  then have "file_at ?g ?q = Some (concat (map d chunks))" using cleanup_files assms(5,6) by simp
  with removing_files [of tmp "(None :: go_error option, ?g)"] f' tmp show ?thesis by auto
qed

definition chunk_fs :: fs where
  "chunk_fs = \<lparr>fs_nodes = [([''d''], Directory), ([''d'', ''a.parts''], Directory), ([''d'', ''a.parts'', ''u''], Directory),
      ([''d'', ''a.parts'', ''u'', ''1''], File ''one''), ([''d'', ''a.parts'', ''u'', ''2''], File ''two'')],
      fs_tick = 0, fs_fault = (\<lambda>_. None), fs_short = (\<lambda>_. 0), fs_rand = (\<lambda>n. ''7'')\<rparr>"

lemma os_multipart_concatenates_witness:
  "\<exists>f'. os_CompleteMultipartUpload example_os ''a'' (Upload ''u'') [Chunk 2 [], Chunk 1 []] chunk_fs = (None, f')
     \<and> file_at f' [''d'', ''a''] = Some ''twoone''"
proof -
  have "fst (os_CompleteMultipartUpload example_os ''a'' (Upload ''u'') [Chunk 2 [], Chunk 1 []] chunk_fs) = None"
    by code_simp
  from fst_NoneD [OF this] obtain f' where run: "os_CompleteMultipartUpload example_os ''a'' (Upload ''u'') [Chunk 2 [], Chunk 1 []] chunk_fs = (None, f')"
    by blast
  have facts: "file_at chunk_fs (getFullPath example_os (multipartChunkPath ''a'' ''u'' 2)) = Some ''two''"
    "file_at chunk_fs (getFullPath example_os (multipartChunkPath ''a'' ''u'' 1)) = Some ''one''"
    "os_path_ok example_os ''a''" "getFullPath example_os ''a'' = [''d'', ''a'']"
    "getFullPath example_os (multipartUploadDir ''a'' ''u'') = [''d'', ''a.parts'', ''u'']"
    "getFullPath example_os (''a'' @ ''.parts'') = [''d'', ''a.parts'']"
    by code_simp+
  show ?thesis
    using os_multipart_concatenates [OF run, of "\<lambda>c. if chunk_Number c = 2 then ''two'' else ''one''"] run facts by simp
qed

text \<open>Three attempts for every error, in a context that never ends.\<close>

definition eager_config :: "unit impl_config" where
  "eager_config = \<lparr>ic_policy = Some (NewPolicy [WithEnabled True]), ic_retryable = Some (\<lambda>e. True),
     ic_float = plain_float, ic_ctx = \<lparr>rc_look = (\<lambda>c. (None, c)), rc_wait = (\<lambda>d c. (False, c))\<rparr>,
     ic_net_error = (\<lambda>e. False), ic_stream_error = (\<lambda>e. False)\<rparr>"

lemma retried_storage_keeps_contract_witness:
  "object_store (impl_ops eager_config (os_ops example_os)) (\<lambda>w. True) (\<lambda>w. file_at (im_provider w))
     (getFullPath example_os) (os_path_ok example_os)"
  using retried_storage_keeps_contract [OF os_object_store, of eager_config example_os] by simp

lemma move_between_storages_safe_witness:
  "\<exists>e ss'. util_Move True (os_ops example_os) 1 ''c'' 0 ''a'' [example_fs (\<lambda>_. None), example_fs (\<lambda>n. Some 1)] = (e, ss')
     \<and> e \<noteq> None \<and> file_at (ss' ! 0) [''d'', ''a''] = Some ''one''"
proof -
  let ?ss = "[example_fs (\<lambda>_. None), example_fs (\<lambda>n. Some 1)]"
  obtain e ss' where run: "util_Move True (os_ops example_os) 1 ''c'' 0 ''a'' ?ss = (e, ss')" by fastforce
  have "fst (util_Move True (os_ops example_os) 1 ''c'' 0 ''a'' ?ss) \<noteq> None" by code_simp
  with run have err: "e \<noteq> None" by simp
  have "file_at (snd (util_Move True (os_ops example_os) 1 ''c'' 0 ''a'' ?ss) ! 1) [''d'', ''c''] = None" by code_simp
  with run have none: "file_at (ss' ! 1) [''d'', ''c''] = None" by simp
  have facts: "os_path_ok example_os ''a''" "os_path_ok example_os ''c''" "getFullPath example_os ''a'' = [''d'', ''a'']"
    "getFullPath example_os ''c'' = [''d'', ''c'']" "file_at (?ss ! 0) [''d'', ''a''] = Some ''one''"
    by code_simp+
  have "file_at (ss' ! 0) [''d'', ''a''] = Some ''one''"
    using move_between_storages_safe [OF os_object_store _ _ _ _ _ _ _ run, where d="''one''"] facts none by simp
  with run err show ?thesis by blast
qed

end
