(* ===== verification/Sync_Storage.thy ===== *)
theory Sync_Storage
  imports Os_Provider "HOL-Library.Multiset"
begin

text \<open>
  The provider that keeps several storages in step, \<^verbatim>\<open>storage/providers/sync.go\<close>. Its state is the list of
  the states of its storages and the local files, where \<open>Write\<close> and \<open>UploadMultipartChunk\<close> spool
  their source. The storages are instances of one implementation of the interface, independent of each
  other and of the spool; storages of several kinds are an implementation over a sum of states.

  The provider is again an object store, for the objects on which all storages agree
  (\<open>sync_store\<close>).
\<close>

section \<open>The provider\<close>

record 's sync_state =
  sy_storages :: "'s list"
  sy_local :: fs

definition NewSync :: "'s list \<Rightarrow> fs \<Rightarrow> 's sync_state" where
  "NewSync storages local_fs = \<lparr>sy_storages = storages, sy_local = local_fs\<rparr>"

text \<open>\<open>fmt.Errorf("%w: ...: %w", ErrStorageFailed, ...)\<close>\<close>

definition failed :: "string \<Rightarrow> string \<Rightarrow> go_error \<Rightarrow> go_error" where
  "failed msg path e = Wrap (msg @ '' '' @ path) [Atom ErrStorageFailed, e]"

definition failed_plain :: "string \<Rightarrow> go_error" where
  "failed_plain msg = Wrap msg [Atom ErrStorageFailed]"

abbreviation no_storages :: go_error where
  "no_storages \<equiv> failed_plain ''no storages configured''"

text \<open>A loop over the storages that stops at the first error.\<close>

fun each :: "('s \<Rightarrow> go_error option \<times> 's) \<Rightarrow> 's list \<Rightarrow> go_error option \<times> 's list" where
  "each f [] = (None, [])"
| "each f (s # ss) =
     (case f s of
        (Some e, s1) \<Rightarrow> (Some e, s1 # ss)
      | (None, s1) \<Rightarrow> (case each f ss of (r, ss1) \<Rightarrow> (r, s1 # ss1)))"

definition on_each :: "string \<Rightarrow> string \<Rightarrow> ('s \<Rightarrow> go_error option \<times> 's) \<Rightarrow> 's sync_state \<Rightarrow> go_error option \<times> 's sync_state" where
  "on_each msg path f y =
     (case each f (sy_storages y) of (r, ss) \<Rightarrow> (map_option (failed msg path) r, y\<lparr>sy_storages := ss\<rparr>))"

fun exists_loop :: "'s store_ops \<Rightarrow> string \<Rightarrow> 's list \<Rightarrow> (go_error + bool) \<times> 's list" where
  "exists_loop ops path [] = (Inr True, [])"
| "exists_loop ops path (s # ss) =
     (case sFileExists ops path s of
        (Inl e, s1) \<Rightarrow> (Inl (failed ''failed to check file'' path e), s1 # ss)
      | (Inr False, s1) \<Rightarrow> (Inr False, s1 # ss)
      | (Inr True, s1) \<Rightarrow> (case exists_loop ops path ss of (r, ss1) \<Rightarrow> (r, s1 # ss1)))"

definition sync_FileExists :: "'s store_ops \<Rightarrow> string \<Rightarrow> 's sync_state \<Rightarrow> (go_error + bool) \<times> 's sync_state" where
  "sync_FileExists ops path y =
     (if sy_storages y = [] then (Inl no_storages, y)
      else (case exists_loop ops path (sy_storages y) of (r, ss) \<Rightarrow> (r, y\<lparr>sy_storages := ss\<rparr>)))"

definition sync_DeleteFile :: "'s store_ops \<Rightarrow> string \<Rightarrow> 's sync_state \<Rightarrow> go_error option \<times> 's sync_state" where
  "sync_DeleteFile ops path = on_each ''failed to delete file'' path (sDeleteFile ops path)"

definition sync_DeleteDir :: "'s store_ops \<Rightarrow> string \<Rightarrow> 's sync_state \<Rightarrow> go_error option \<times> 's sync_state" where
  "sync_DeleteDir ops path = on_each ''failed to delete directory'' path (sDeleteDir ops path)"

definition sync_MkDir :: "'s store_ops \<Rightarrow> string \<Rightarrow> 's sync_state \<Rightarrow> go_error option \<times> 's sync_state" where
  "sync_MkDir ops path = on_each ''failed to create directory'' path (sMkDir ops path)"

text \<open>
  The spooling of a source into a temporary file: the name of the file once it exists, when a deferred
  removal is due, and the error.
\<close>

definition spool :: "string \<Rightarrow> string \<Rightarrow> reader \<Rightarrow> fs \<Rightarrow> (fpath option \<times> go_error option) \<times> fs" where
  "spool prefix path src f =
     (case os_CreateTemp [''tmp''] prefix f of
        (Inl e, f1) \<Rightarrow> ((None, Some (failed ''failed to create temp file for'' path e)), f1)
      | (Inr tmp, f1) \<Rightarrow>
          (case io_Copy tmp src f1 of
             (Some e, f2) \<Rightarrow> ((Some tmp, Some (failed ''failed to spool source for'' path e)), snd (os_Close f2))
           | (None, f2) \<Rightarrow>
               (case os_Sync f2 of
                  (Some e, f3) \<Rightarrow> ((Some tmp, Some (failed ''failed to sync spool for'' path e)), snd (os_Close f3))
                | (None, f3) \<Rightarrow>
                    (case os_Close f3 of
                       (Some e, f4) \<Rightarrow> ((Some tmp, Some (failed ''failed to close spool for'' path e)), f4)
                     | (None, f4) \<Rightarrow> ((Some tmp, None), f4)))))"

text \<open>The rollback deletes the object on the storages written so far; its errors are only logged.\<close>

definition rollback :: "'s store_ops \<Rightarrow> string \<Rightarrow> 's list \<Rightarrow> 's list" where
  "rollback ops path written = map (\<lambda>w. snd (sDeleteFile ops path w)) written"

fun write_loop ::
  "'s store_ops \<Rightarrow> string \<Rightarrow> fpath \<Rightarrow> 's list \<Rightarrow> 's list \<Rightarrow> fs \<Rightarrow> go_error option \<times> 's list \<times> fs" where
  "write_loop ops path tmp written [] f = (None, written, f)"
| "write_loop ops path tmp written (s # ss) f =
     (case os_Open tmp f of
        (Inl e, f1) \<Rightarrow> (Some (failed ''failed to open spool for'' path e), written @ s # ss, f1)
      | (Inr r, f1) \<Rightarrow>
          (case sWrite ops path r s of
             (writeErr, s1) \<Rightarrow>
               (case os_Close f1 of
                  (closeErr, f2) \<Rightarrow>
                    (case writeErr of
                       Some e \<Rightarrow> (Some (failed ''failed to write file'' path e), rollback ops path written @ s1 # ss, f2)
                     | None \<Rightarrow>
                         (case closeErr of
                            Some e \<Rightarrow> (Some (failed ''failed to close spool reader for'' path e),
                                       rollback ops path written @ snd (sDeleteFile ops path s1) # ss, f2)
                          | None \<Rightarrow> write_loop ops path tmp (written @ [s1]) ss f2)))))"

definition sync_Write :: "'s store_ops \<Rightarrow> string \<Rightarrow> reader \<Rightarrow> 's sync_state \<Rightarrow> go_error option \<times> 's sync_state" where
  "sync_Write ops path src y =
     (if sy_storages y = [] then (Some no_storages, y)
      else (case spool ''sync-write-'' path src (sy_local y) of
              ((None, e), f1) \<Rightarrow> (e, y\<lparr>sy_local := f1\<rparr>)
            | ((Some tmp, Some e), f1) \<Rightarrow> (Some e, y\<lparr>sy_local := snd (os_Remove tmp f1)\<rparr>)
            | ((Some tmp, None), f1) \<Rightarrow>
                (case write_loop ops path tmp [] (sy_storages y) f1 of
                   (e, ss, f2) \<Rightarrow> (e, y\<lparr>sy_storages := ss, sy_local := snd (os_Remove tmp f2)\<rparr>))))"

fun read_loop :: "'s store_ops \<Rightarrow> string \<Rightarrow> go_error list \<Rightarrow> 's list \<Rightarrow> (go_error + reader) \<times> 's list" where
  "read_loop ops path errs [] = (Inl (failed ''failed to read file'' path (Wrap [] errs)), [])"
| "read_loop ops path errs (s # ss) =
     (case sReadFile ops path s of
        (Inr r, s1) \<Rightarrow> (Inr r, s1 # ss)
      | (Inl e, s1) \<Rightarrow> (case read_loop ops path (errs @ [e]) ss of (r, ss1) \<Rightarrow> (r, s1 # ss1)))"

definition sync_ReadFile :: "'s store_ops \<Rightarrow> string \<Rightarrow> 's sync_state \<Rightarrow> (go_error + reader) \<times> 's sync_state" where
  "sync_ReadFile ops path y =
     (if sy_storages y = [] then (Inl no_storages, y)
      else (case read_loop ops path [] (sy_storages y) of (r, ss) \<Rightarrow> (r, y\<lparr>sy_storages := ss\<rparr>)))"

definition show_bool :: "bool \<Rightarrow> string" where
  "show_bool b = (if b then ''true'' else ''false'')"

text \<open>\<open>fmt.Sprintf("%s|%t|%d", ...)\<close>\<close>

definition signature_of :: "dir_entry \<Rightarrow> string" where
  "signature_of e = de_name e @ ''|'' @ show_bool (de_isDir e) @ ''|'' @ show_nat (de_type e)"

definition dirEntriesMatch :: "dir_entry list \<Rightarrow> dir_entry list \<Rightarrow> bool" where
  "dirEntriesMatch as bs =
     (if length as \<noteq> length bs then False
      else sort (map signature_of as) = sort (map signature_of bs))"

fun readdir_loop :: "'s store_ops \<Rightarrow> string \<Rightarrow> dir_entry list option \<Rightarrow> 's list \<Rightarrow> (go_error + dir_entry list) \<times> 's list" where
  "readdir_loop ops path first [] = (Inr (case first of Some es \<Rightarrow> es | None \<Rightarrow> []), [])"
| "readdir_loop ops path first (s # ss) =
     (case sReadDir ops path s of
        (Inl e, s1) \<Rightarrow> (Inl (failed ''failed to read directory'' path e), s1 # ss)
      | (Inr es, s1) \<Rightarrow>
          (case first of
             None \<Rightarrow> (case readdir_loop ops path (Some es) ss of (r, ss1) \<Rightarrow> (r, s1 # ss1))
           | Some fs \<Rightarrow>
               if \<not> dirEntriesMatch fs es
               then (Inl (failed_plain (''listing mismatch between storages '' @ path)), s1 # ss)
               else (case readdir_loop ops path first ss of (r, ss1) \<Rightarrow> (r, s1 # ss1))))"

definition sync_ReadDir :: "'s store_ops \<Rightarrow> string \<Rightarrow> 's sync_state \<Rightarrow> (go_error + dir_entry list) \<times> 's sync_state" where
  "sync_ReadDir ops path y =
     (if sy_storages y = [] then (Inl (failed_plain (''failed to read directory '' @ path)), y)
      else (case readdir_loop ops path None (sy_storages y) of (r, ss) \<Rightarrow> (r, y\<lparr>sy_storages := ss\<rparr>)))"

fun copy_loop :: "'s store_ops \<Rightarrow> string \<Rightarrow> string \<Rightarrow> 's list \<Rightarrow> 's list \<Rightarrow> go_error option \<times> 's list" where
  "copy_loop ops src dst copied [] = (None, copied)"
| "copy_loop ops src dst copied (s # ss) =
     (case sCopy ops src dst s of
        (Some e, s1) \<Rightarrow> (Some (failed (''failed to copy '' @ src @ '' to'') dst e), rollback ops dst copied @ s1 # ss)
      | (None, s1) \<Rightarrow> copy_loop ops src dst (copied @ [s1]) ss)"

definition sync_Copy :: "'s store_ops \<Rightarrow> string \<Rightarrow> string \<Rightarrow> 's sync_state \<Rightarrow> go_error option \<times> 's sync_state" where
  "sync_Copy ops src dst y =
     (if sy_storages y = [] then (Some no_storages, y)
      else (case copy_loop ops src dst [] (sy_storages y) of (e, ss) \<Rightarrow> (e, y\<lparr>sy_storages := ss\<rparr>)))"

definition sync_Move :: "'s store_ops \<Rightarrow> string \<Rightarrow> string \<Rightarrow> 's sync_state \<Rightarrow> go_error option \<times> 's sync_state" where
  "sync_Move ops src dst y =
     (if src = dst then (None, y)
      else (case sync_Copy ops src dst y of
              (Some e, y1) \<Rightarrow> (Some e, y1)
            | (None, y1) \<Rightarrow> on_each ''failed to delete source after move'' src (sDeleteFile ops src) y1))"

section \<open>Multipart uploads\<close>

text \<open>A type assertion to the combined upload, and the check that it fits the storages.\<close>

definition castUpload :: "'s sync_state \<Rightarrow> upload \<Rightarrow> go_error + upload list" where
  "castUpload y upload =
     (case upload of
        Upload i \<Rightarrow> Inl (failed_plain ''upload is not a sync upload'')
      | SyncUpload us \<Rightarrow>
          if length us \<noteq> length (sy_storages y)
          then Inl (failed_plain ''upload carries the wrong number of entries'')
          else Inr us)"

fun create_loop ::
  "'s store_ops \<Rightarrow> string \<Rightarrow> ('s \<times> upload) list \<Rightarrow> 's list \<Rightarrow> (go_error + upload) \<times> 's list" where
  "create_loop ops path created [] = (Inr (SyncUpload (map snd created)), map fst created)"
| "create_loop ops path created (s # ss) =
     (case sCreateMultipartUpload ops path s of
        (Inl e, s1) \<Rightarrow> (Inl (failed ''failed to create multipart for'' path e),
                        map (\<lambda>(t, u). snd (sAbortMultipartUpload ops path u t)) created @ s1 # ss)
      | (Inr u, s1) \<Rightarrow> create_loop ops path (created @ [(s1, u)]) ss)"

definition sync_CreateMultipartUpload :: "'s store_ops \<Rightarrow> string \<Rightarrow> 's sync_state \<Rightarrow> (go_error + upload) \<times> 's sync_state" where
  "sync_CreateMultipartUpload ops path y =
     (if sy_storages y = [] then (Inl no_storages, y)
      else (case create_loop ops path [] (sy_storages y) of (r, ss) \<Rightarrow> (r, y\<lparr>sy_storages := ss\<rparr>)))"

fun upload_loop ::
  "'s store_ops \<Rightarrow> string \<Rightarrow> int \<Rightarrow> int \<Rightarrow> fpath \<Rightarrow> chunk list \<Rightarrow> ('s \<times> upload) list \<Rightarrow> fs
   \<Rightarrow> (go_error + chunk list) \<times> 's list \<times> fs" where
  "upload_loop ops path number sz tmp chunks [] f = (Inr chunks, [], f)"
| "upload_loop ops path number sz tmp chunks ((s, u) # rest) f =
     (case os_Open tmp f of
        (Inl e, f1) \<Rightarrow> (Inl (failed ''failed to open spool for'' path e), s # map fst rest, f1)
      | (Inr r, f1) \<Rightarrow>
          (case sUploadMultipartChunk ops path u number r sz s of
             (part, s1) \<Rightarrow>
               (case os_Close f1 of
                  (closeErr, f2) \<Rightarrow>
                    (case part of
                       Inl e \<Rightarrow> (Inl (failed ''failed to upload chunk for'' path e), s1 # map fst rest, f2)
                     | Inr c \<Rightarrow>
                         (case closeErr of
                            Some e \<Rightarrow> (Inl (failed ''failed to close spool reader for'' path e), s1 # map fst rest, f2)
                          | None \<Rightarrow>
                              (case upload_loop ops path number sz tmp (chunks @ [c]) rest f2 of
                                 (x, ss, f3) \<Rightarrow> (x, s1 # ss, f3)))))))"

definition sync_UploadMultipartChunk ::
  "'s store_ops \<Rightarrow> string \<Rightarrow> upload \<Rightarrow> int \<Rightarrow> reader \<Rightarrow> int \<Rightarrow> 's sync_state \<Rightarrow> (go_error + chunk) \<times> 's sync_state" where
  "sync_UploadMultipartChunk ops path upload number body sz y =
     (if sy_storages y = [] then (Inl no_storages, y)
      else (case castUpload y upload of
              Inl e \<Rightarrow> (Inl e, y)
            | Inr us \<Rightarrow>
                (case spool ''sync-upload-part-'' path body (sy_local y) of
                   ((None, e), f1) \<Rightarrow> (Inl (the e), y\<lparr>sy_local := f1\<rparr>)
                 | ((Some tmp, Some e), f1) \<Rightarrow> (Inl e, y\<lparr>sy_local := snd (os_Remove tmp f1)\<rparr>)
                 | ((Some tmp, None), f1) \<Rightarrow>
                     (case upload_loop ops path number sz tmp [] (zip (sy_storages y) us) f1 of
                        (x, ss, f2) \<Rightarrow>
                          (map_sum id (SyncChunk number) x,
                           y\<lparr>sy_storages := ss, sy_local := snd (os_Remove tmp f2)\<rparr>)))))"

text \<open>The chunks of storage \<open>i\<close> out of the combined chunks.\<close>

fun child_chunks :: "nat \<Rightarrow> nat \<Rightarrow> chunk list \<Rightarrow> go_error + chunk list" where
  "child_chunks n i [] = Inr []"
| "child_chunks n i (Chunk num e # cs) = Inl (failed_plain ''chunk is not a sync chunk'')"
| "child_chunks n i (SyncChunk num parts # cs) =
     (if length parts \<noteq> n then Inl (failed_plain ''chunk carries the wrong number of entries'')
      else (case child_chunks n i cs of Inl e \<Rightarrow> Inl e | Inr ds \<Rightarrow> Inr (parts ! i # ds)))"

fun complete_uploads ::
  "'s store_ops \<Rightarrow> string \<Rightarrow> nat \<Rightarrow> nat \<Rightarrow> chunk list \<Rightarrow> ('s \<times> upload) list \<Rightarrow> go_error option \<times> 's list" where
  "complete_uploads ops path n i chunks [] = (None, [])"
| "complete_uploads ops path n i chunks ((s, u) # rest) =
     (case child_chunks n i chunks of
        Inl e \<Rightarrow> (Some e, s # map fst rest)
      | Inr ds \<Rightarrow>
          (case sCompleteMultipartUpload ops path u ds s of
             (Some e, s1) \<Rightarrow> (Some (failed ''failed to complete multipart for'' path e), s1 # map fst rest)
           | (None, s1) \<Rightarrow>
               (case complete_uploads ops path n (Suc i) chunks rest of (e, ss) \<Rightarrow> (e, s1 # ss))))"

definition sync_CompleteMultipartUpload ::
  "'s store_ops \<Rightarrow> string \<Rightarrow> upload \<Rightarrow> chunk list \<Rightarrow> 's sync_state \<Rightarrow> go_error option \<times> 's sync_state" where
  "sync_CompleteMultipartUpload ops path upload chunks y =
     (case castUpload y upload of
        Inl e \<Rightarrow> (Some e, y)
      | Inr us \<Rightarrow>
          (case complete_uploads ops path (length (sy_storages y)) 0 chunks (zip (sy_storages y) us) of
             (e, ss) \<Rightarrow> (e, y\<lparr>sy_storages := ss\<rparr>)))"

definition sync_AbortMultipartUpload ::
  "'s store_ops \<Rightarrow> string \<Rightarrow> upload \<Rightarrow> 's sync_state \<Rightarrow> go_error option \<times> 's sync_state" where
  "sync_AbortMultipartUpload ops path upload y =
     (case castUpload y upload of
        Inl e \<Rightarrow> (Some e, y)
      | Inr us \<Rightarrow>
          (let results = map (\<lambda>(s, u). sAbortMultipartUpload ops path u s) (zip (sy_storages y) us);
               errs = map the (filter (\<lambda>e. e \<noteq> None) (map fst results))
           in (if errs \<noteq> [] then Some (Wrap ''abort multipart'' [Atom ErrStorageFailed, Wrap [] errs]) else None,
               y\<lparr>sy_storages := map snd results\<rparr>)))"

definition sync_Close :: "'s store_ops \<Rightarrow> 's sync_state \<Rightarrow> go_error option \<times> 's sync_state" where
  "sync_Close ops = on_each ''failed to close storage'' [] (sClose ops)"

definition sync_ops :: "'s store_ops \<Rightarrow> 's sync_state store_ops" where
  "sync_ops ops =
     \<lparr>sFileExists = sync_FileExists ops, sDeleteFile = sync_DeleteFile ops, sDeleteDir = sync_DeleteDir ops,
      sWrite = sync_Write ops, sReadFile = sync_ReadFile ops, sReadDir = sync_ReadDir ops,
      sMkDir = sync_MkDir ops, sCopy = sync_Copy ops, sMove = sync_Move ops,
      sCreateMultipartUpload = sync_CreateMultipartUpload ops,
      sUploadMultipartChunk = sync_UploadMultipartChunk ops,
      sCompleteMultipartUpload = sync_CompleteMultipartUpload ops,
      sAbortMultipartUpload = sync_AbortMultipartUpload ops, sClose = sync_Close ops\<rparr>"

section \<open>The objects on which all storages agree\<close>

definition all_hold :: "('s \<Rightarrow> 'k \<Rightarrow> byte list option) \<Rightarrow> 's sync_state \<Rightarrow> 'k \<Rightarrow> byte list option" where
  "all_hold obj y k =
     (case sy_storages y of
        [] \<Rightarrow> None
      | s # ss \<Rightarrow> if \<forall>t \<in> set ss. obj t k = obj s k then obj s k else None)"

lemma all_hold_iff:
  "all_hold obj y k = Some d \<longleftrightarrow> sy_storages y \<noteq> [] \<and> (\<forall>s \<in> set (sy_storages y). obj s k = Some d)"
  by (auto simp: all_hold_def split: list.split)

lemma all_hold_None:
  "s \<in> set (sy_storages y) \<Longrightarrow> obj s k = None \<Longrightarrow> all_hold obj y k = None"
  by (metis all_hold_iff not_None_eq)

lemma all_hold_cong:
  assumes "list_all2 (\<lambda>s s'. obj s' = obj s) (sy_storages y) (sy_storages y')"
  shows "all_hold obj y' = all_hold obj y"
proof
  fix k
  have "all_hold obj y' k = Some d \<longleftrightarrow> all_hold obj y k = Some d" for d
    using assms by (auto simp: all_hold_iff list_all2_conv_all_nth all_set_conv_all_nth)
  then show "all_hold obj y' k = all_hold obj y k" by (metis not_None_eq)
qed

text \<open>Every storage keeps its objects outside \<open>ks\<close> and its invariant.\<close>

definition kept :: "('s \<Rightarrow> bool) \<Rightarrow> ('s \<Rightarrow> 'k \<Rightarrow> byte list option) \<Rightarrow> 'k set \<Rightarrow> 's list \<Rightarrow> 's list \<Rightarrow> bool" where
  "kept invar obj ks = list_all2 (\<lambda>s s'. invar s' \<and> keeps obj ks s s')"

lemma kept_refl: "\<forall>s \<in> set ss. invar s \<Longrightarrow> kept invar obj ks ss ss"
  by (auto simp: kept_def list_all2_conv_all_nth)

lemma kept_all_hold:
  assumes "kept invar obj ks (sy_storages y) (sy_storages y')"
  shows "keeps (all_hold obj) ks y y'"
proof -
  have "all_hold obj y' k = Some d" if "k \<notin> ks" "all_hold obj y k = Some d" for k d
    using that assms by (auto simp: all_hold_iff kept_def list_all2_conv_all_nth all_set_conv_all_nth keeps_def)
  then show ?thesis by (auto simp: keeps_def)
qed

lemma kept_invar: "kept invar obj ks ss ss' \<Longrightarrow> \<forall>s \<in> set ss'. invar s"
  by (auto simp: kept_def list_all2_conv_all_nth all_set_conv_all_nth)

lemma kept_length: "kept invar obj ks ss ss' \<Longrightarrow> length ss' = length ss"
  by (auto simp: kept_def dest: list_all2_lengthD)


lemma kept_trans: "kept invar obj ks ss ss1 \<Longrightarrow> kept invar obj ks ss1 ss2 \<Longrightarrow> kept invar obj ks ss ss2"
  unfolding kept_def by (rule list_all2_trans) (auto intro: keeps_trans)

lemma kept_Cons: "kept invar obj ks (s # ss) (s' # ss') \<longleftrightarrow> invar s' \<and> keeps obj ks s s' \<and> kept invar obj ks ss ss'"
  by (simp add: kept_def)

lemma kept_append:
  "kept invar obj ks ss ss' \<Longrightarrow> kept invar obj ks ts ts' \<Longrightarrow> kept invar obj ks (ss @ ts) (ss' @ ts')"
  by (simp add: kept_def list_all2_appendI)

text \<open>The spool file: after a successful spool it holds the source, and the source was read to its end.\<close>

lemma spool_ok:
  assumes "spool prefix path src f = ((Some tmp, None), f')"
  shows "file_at f' tmp = Some (rd_bytes src) \<and> read_fault (rd_fault src) = None"
proof -
  obtain f1 f2 f3 where c: "os_CreateTemp [''tmp''] prefix f = (Inr tmp, f1)" "io_Copy tmp src f1 = (None, f2)"
    "os_Sync f2 = (None, f3)" "os_Close f3 = (None, f')"
    using assms by (auto simp: spool_def split: prod.splits sum.splits option.splits)
  from os_CreateTemp_files [OF c(1)] have "file_at f1 tmp = Some []" by simp
  from io_Copy_files [OF c(2) this] os_Sync_files [OF c(3)] os_Close_files [OF c(4)] show ?thesis by auto
qed

section \<open>The provider is an object store\<close>

context object_store
begin

lemma each_delete:
  assumes "\<forall>s \<in> set ss. invar s" "ok p" "each (sDeleteFile ops p) ss = (e, ss')"
  shows "kept invar obj {key p} ss ss' \<and> (e = None \<longrightarrow> (\<forall>s \<in> set ss'. obj s (key p) = None))"
  using assms
proof (induction ss arbitrary: e ss')
  case (Cons s ss)
  obtain e1 s1 where del: "sDeleteFile ops p s = (e1, s1)" by fastforce
  have law: "invar s1" "keeps obj {key p} s s1" "e1 = None \<longrightarrow> obj s1 (key p) = None"
    using delete_law [OF _ \<open>ok p\<close> del] Cons.prems(1) by simp_all
  show ?case
  proof (cases e1)
    case None
    obtain r ss1 where rest: "each (sDeleteFile ops p) ss = (r, ss1)" by fastforce
    with Cons.IH [OF _ \<open>ok p\<close> rest] Cons.prems None del law show ?thesis by (auto simp: kept_Cons)
  next
    case (Some x)
    with Cons.prems del law show ?thesis by (auto simp: kept_Cons kept_refl)
  qed
qed (simp add: kept_def)

lemma rollback_kept:
  assumes "\<forall>s \<in> set ss. invar s" "ok p"
  shows "kept invar obj {key p} ss (rollback ops p ss)"
proof -
  have "invar (snd (sDeleteFile ops p s)) \<and> keeps obj {key p} s (snd (sDeleteFile ops p s))" if "s \<in> set ss" for s
    using delete_law [OF _ \<open>ok p\<close>, of s] assms(1) that by (metis prod.collapse)
  then show ?thesis by (auto simp: kept_def rollback_def list_all2_conv_all_nth)
qed

lemma write_loop_kept:
  assumes "write_loop ops p tmp written ss f = (e, ss', f')" "file_at f tmp = Some d"
    and "\<forall>s \<in> set written. invar s \<and> obj s (key p) = Some d" "\<forall>s \<in> set ss. invar s" "ok p"
  shows "kept invar obj {key p} (written @ ss) ss' \<and> (e = None \<longrightarrow> (\<forall>s \<in> set ss'. obj s (key p) = Some d))"
  using assms(1-4)
proof (induction ss arbitrary: written f)
  case Nil
  then show ?case by (auto simp: kept_refl)
next
  case (Cons s ss)
  have W: "kept invar obj {key p} written written" "kept invar obj {key p} ss ss"
    "kept invar obj {key p} written (rollback ops p written)"
    using Cons.prems(3,4) \<open>ok p\<close> by (simp_all add: kept_refl rollback_kept)
  obtain x f1 where op: "os_Open tmp f = (x, f1)" by fastforce
  show ?case
  proof (cases x)
    case (Inl y)
    have "kept invar obj {key p} (written @ s # ss) (written @ s # ss)"
      using Cons.prems(3,4) by (intro kept_refl) auto
    with Inl Cons.prems op show ?thesis by auto
  next
    case (Inr r)
    have r: "r = \<lparr>rd_bytes = d, rd_fault = None\<rparr>" using os_Open_reads [of tmp f r f1] op Inr Cons.prems(2) by simp
    obtain we s1 where wr: "sWrite ops p r s = (we, s1)" by fastforce
    have law: "invar s1" "keeps obj {key p} s s1" "we = None \<longrightarrow> obj s1 (key p) = Some d"
      using write_law [OF _ \<open>ok p\<close> wr] Cons.prems(4) r by simp_all
    obtain de s2 where del: "sDeleteFile ops p s1 = (de, s2)" by fastforce
    have law2: "invar s2" "keeps obj {key p} s s2"
      using delete_law [OF law(1) \<open>ok p\<close> del] keeps_trans [OF law(2), of s2] by simp_all
    obtain ce f2 where cl: "os_Close f1 = (ce, f2)" by fastforce
    show ?thesis
    proof (cases "we = None \<and> ce = None")
      case True
      with Cons.prems(1) op Inr wr cl have "write_loop ops p tmp (written @ [s1]) ss f2 = (e, ss', f')" by simp
      moreover have "file_at f2 tmp = Some d" using os_Open_files [OF op] os_Close_files [OF cl] Cons.prems(2) by simp
      ultimately have "kept invar obj {key p} (written @ s1 # ss) ss' \<and> (e = None \<longrightarrow> (\<forall>s \<in> set ss'. obj s (key p) = Some d))"
        using Cons.IH [of "written @ [s1]" f2] Cons.prems(3,4) law True by auto
      moreover have "kept invar obj {key p} (written @ s # ss) (written @ s1 # ss)"
        using W law by (intro kept_append) (simp_all add: kept_Cons)
      ultimately show ?thesis using kept_trans by blast
    next
      case False
      with Cons.prems(1) op Inr wr cl del
      have "e \<noteq> None \<and> (ss' = rollback ops p written @ s1 # ss \<or> ss' = rollback ops p written @ s2 # ss)"
        by (auto split: option.splits)
      moreover have "kept invar obj {key p} (written @ s # ss) (rollback ops p written @ t # ss)"
        if "invar t" "keeps obj {key p} s t" for t
        using W that by (intro kept_append) (simp_all add: kept_Cons)
      ultimately show ?thesis using law law2 by auto
    qed
  qed
qed

lemma read_loop_reads:
  assumes "\<forall>s \<in> set ss. invar s" "ok p" "read_loop ops p errs ss = (x, ss')"
  shows "list_all2 (\<lambda>s s'. invar s' \<and> obj s' = obj s) ss ss'
         \<and> (\<forall>d r. (\<forall>s \<in> set ss. obj s (key p) = Some d) \<longrightarrow> x = Inr r \<longrightarrow> read_fault (rd_fault r) = None \<longrightarrow> rd_bytes r = d)"
  using assms
proof (induction ss arbitrary: errs x ss')
  case (Cons s ss)
  obtain y s1 where rd: "sReadFile ops p s = (y, s1)" by fastforce
  note law = read_law [OF _ \<open>ok p\<close> rd]
  have refl: "list_all2 (\<lambda>s s'. invar s' \<and> obj s' = obj s) ss ss" using Cons.prems(1) by (simp add: list_all2_same)
  show ?case
  proof (cases y)
    case (Inl e)
    obtain r ss1 where rest: "read_loop ops p (errs @ [e]) ss = (r, ss1)" by fastforce
    with Cons.IH [OF _ \<open>ok p\<close> rest] Cons.prems Inl rd law show ?thesis by auto
  next
    case (Inr r)
    with Cons.prems rd law refl show ?thesis by auto
  qed
qed auto

lemma exists_loop_finds:
  assumes "\<forall>s \<in> set ss. invar s" "ok p" "exists_loop ops p ss = (be, ss')"
  shows "list_all2 (\<lambda>s s'. invar s' \<and> obj s' = obj s) ss ss' \<and> (be = Inr False \<longrightarrow> (\<exists>s \<in> set ss. obj s (key p) = None))"
  using assms
proof (induction ss arbitrary: be ss')
  case (Cons s ss)
  obtain y s1 where ex: "sFileExists ops p s = (y, s1)" by fastforce
  note law = exists_law [OF _ \<open>ok p\<close> ex]
  have refl: "list_all2 (\<lambda>s s'. invar s' \<and> obj s' = obj s) ss ss" using Cons.prems(1) by (simp add: list_all2_same)
  show ?case
  proof (cases "y = Inr True")
    case True
    obtain r ss1 where rest: "exists_loop ops p ss = (r, ss1)" by fastforce
    with Cons.IH [OF _ \<open>ok p\<close> rest] Cons.prems True ex law show ?thesis by auto
  next
    case False
    with Cons.prems ex law refl show ?thesis by (auto split: sum.splits bool.splits)
  qed
qed auto

lemma copy_loop_kept:
  assumes "copy_loop ops a b copied ss = (e, ss')" "ok a" "ok b"
    and "\<forall>s \<in> set copied. invar s" "\<forall>s \<in> set ss. invar s"
  shows "kept invar obj {key b} (copied @ ss) ss'
         \<and> (e = None \<longrightarrow> key a \<noteq> key b \<longrightarrow> (\<forall>s \<in> set copied. obj s (key b) = Some d) \<longrightarrow>
             (\<forall>s \<in> set ss. obj s (key a) = Some d) \<longrightarrow> (\<forall>s \<in> set ss'. obj s (key b) = Some d))"
  using assms
proof (induction ss arbitrary: copied)
  case Nil
  then show ?case by (auto simp: kept_refl)
next
  case (Cons s ss)
  have W: "kept invar obj {key b} copied copied" "kept invar obj {key b} ss ss"
    "kept invar obj {key b} copied (rollback ops b copied)"
    using Cons.prems by (simp_all add: kept_refl rollback_kept)
  obtain x s1 where cp: "sCopy ops a b s = (x, s1)" by fastforce
  have law: "invar s1" "keeps obj {key b} s s1"
    "x = None \<Longrightarrow> key a \<noteq> key b \<Longrightarrow> obj s (key a) = Some d \<Longrightarrow> obj s1 (key b) = Some d"
    using copy_law [OF _ Cons.prems(2,3) cp] Cons.prems(5) by simp_all
  show ?case
  proof (cases x)
    case None
    with Cons.prems(1) cp have "copy_loop ops a b (copied @ [s1]) ss = (e, ss')" by simp
    note IH = Cons.IH [OF this Cons.prems(2,3)]
    have "kept invar obj {key b} (copied @ s # ss) (copied @ s1 # ss)"
      using W law by (intro kept_append) (simp_all add: kept_Cons)
    moreover have "kept invar obj {key b} (copied @ s1 # ss) ss'" using IH Cons.prems(4,5) law(1) by simp
    ultimately have "kept invar obj {key b} (copied @ s # ss) ss'" by (rule kept_trans)
    moreover have "\<forall>s \<in> set ss'. obj s (key b) = Some d"
      if "e = None" "key a \<noteq> key b" "\<forall>s \<in> set copied. obj s (key b) = Some d" "\<forall>s \<in> set (s # ss). obj s (key a) = Some d"
    proof -
      have "\<forall>s \<in> set (copied @ [s1]). obj s (key b) = Some d" using that law(3) [OF None] by simp
      with IH that Cons.prems(4,5) law(1) show ?thesis by simp
    qed
    ultimately show ?thesis by blast
  next
    case (Some y)
    with Cons.prems(1) cp have "ss' = rollback ops b copied @ s1 # ss" "e \<noteq> None" by auto
    moreover have "kept invar obj {key b} (copied @ s # ss) (rollback ops b copied @ s1 # ss)"
      using W law by (intro kept_append) (simp_all add: kept_Cons)
    ultimately show ?thesis by auto
  qed
qed

lemma sync_Write_law:
  assumes "\<forall>s \<in> set (sy_storages y). invar s" "ok p" "sync_Write ops p r y = (e, y')"
  shows "kept invar obj {key p} (sy_storages y) (sy_storages y')
         \<and> (e = None \<longrightarrow> all_hold obj y' (key p) = Some (rd_bytes r) \<and> read_fault (rd_fault r) = None)"
proof -
  let ?ss = "sy_storages y"
  have refl: "kept invar obj {key p} ?ss ?ss" using assms(1) by (rule kept_refl)
  obtain t se f1 where sp: "spool ''sync-write-'' p r (sy_local y) = ((t, se), f1)" by (metis surj_pair)
  show ?thesis
  proof (cases "?ss = [] \<or> t = None \<or> se \<noteq> None")
    case True
    have "t = None \<longrightarrow> se \<noteq> None" using sp by (auto simp: spool_def split: prod.splits sum.splits option.splits)
    with True sp assms(3) refl show ?thesis by (cases t; cases se) (auto simp: sync_Write_def split: if_splits)
  next
    case False
    then obtain tmp where t: "t = Some tmp" "se = None" "?ss \<noteq> []" by auto
    note sp' = spool_ok [OF sp [unfolded t(1,2)]]
    obtain e1 ss1 f2 where wl: "write_loop ops p tmp [] ?ss f1 = (e1, ss1, f2)" by (metis surj_pair)
    with t sp assms(3) have y': "e1 = e" "ss1 = sy_storages y'" by (auto simp: sync_Write_def)
    have k: "kept invar obj {key p} ?ss (sy_storages y') \<and> (e = None \<longrightarrow> (\<forall>s \<in> set (sy_storages y'). obj s (key p) = Some (rd_bytes r)))"
      using write_loop_kept [OF wl conjunct1 [OF sp'] _ assms(1,2)] y' by simp
    then show ?thesis using sp' kept_length [of invar obj _ ?ss "sy_storages y'"] t(3) by (auto simp: all_hold_iff)
  qed
qed

lemma sync_Copy_law:
  assumes "\<forall>s \<in> set (sy_storages y). invar s" "ok a" "ok b" "sync_Copy ops a b y = (e, y')"
  shows "kept invar obj {key b} (sy_storages y) (sy_storages y')
         \<and> (e = None \<longrightarrow> key a \<noteq> key b \<longrightarrow> all_hold obj y (key a) = Some d \<longrightarrow> all_hold obj y' (key b) = Some d)"
proof (cases "sy_storages y = []")
  case True
  with assms(4) show ?thesis by (auto simp: sync_Copy_def kept_def)
next
  case False
  obtain e1 ss1 where cl: "copy_loop ops a b [] (sy_storages y) = (e1, ss1)" by fastforce
  with False assms(4) have "e1 = e" "ss1 = sy_storages y'" by (auto simp: sync_Copy_def)
  with copy_loop_kept [OF cl assms(2,3) _ assms(1), of d] False
    kept_length [of invar obj "{key b}" "sy_storages y" "sy_storages y'"]
  show ?thesis by (auto simp: all_hold_iff)
qed

lemma sync_each_delete:
  assumes "\<forall>s \<in> set (sy_storages y). invar s" "ok p" "on_each m p (sDeleteFile ops p) y = (e, y')"
  shows "kept invar obj {key p} (sy_storages y) (sy_storages y')
         \<and> (e = None \<longrightarrow> (\<forall>s \<in> set (sy_storages y'). obj s (key p) = None))"
proof -
  obtain r ss where ea: "each (sDeleteFile ops p) (sy_storages y) = (r, ss)" by fastforce
  with assms(3) have "sy_storages y' = ss" "e = None \<longleftrightarrow> r = None" by (auto simp: on_each_def)
  with each_delete [OF assms(1,2) ea] show ?thesis by simp
qed

theorem sync_store:
  "object_store (sync_ops ops) (\<lambda>y. \<forall>s \<in> set (sy_storages y). invar s) (all_hold obj) key ok"
proof
  fix y :: "'s sync_state" and p be y'
  assume I: "\<forall>s \<in> set (sy_storages y). invar s" and ok: "ok p" and run: "sFileExists (sync_ops ops) p y = (be, y')"
  obtain x ss where ex: "exists_loop ops p (sy_storages y) = (x, ss)" by fastforce
  note l = exists_loop_finds [OF I ok ex]
  have "sy_storages y' = ss \<and> (be = Inr False \<longrightarrow> x = Inr False)"
    using run ex by (cases "sy_storages y") (auto simp: sync_ops_def sync_FileExists_def)
  with l show "(\<forall>s \<in> set (sy_storages y'). invar s) \<and> all_hold obj y' = all_hold obj y
      \<and> (be = Inr False \<longrightarrow> all_hold obj y (key p) = None)"
    by (auto simp: list_all2_conv_all_nth all_set_conv_all_nth intro!: all_hold_cong dest: all_hold_None)
next
  fix y :: "'s sync_state" and p e y'
  assume I: "\<forall>s \<in> set (sy_storages y). invar s" and ok: "ok p" and run: "sDeleteFile (sync_ops ops) p y = (e, y')"
  note l = sync_each_delete [OF I ok run [unfolded sync_ops_def store_ops.simps sync_DeleteFile_def]]
  have "all_hold obj y' (key p) = None" if "\<forall>s \<in> set (sy_storages y'). obj s (key p) = None"
    using that by (cases "sy_storages y'") (auto simp: all_hold_def)
  with l show "(\<forall>s \<in> set (sy_storages y'). invar s) \<and> keeps (all_hold obj) {key p} y y'
      \<and> (e = None \<longrightarrow> all_hold obj y' (key p) = None)"
    using kept_invar kept_all_hold by blast
next
  fix y :: "'s sync_state" and p r e y'
  assume "\<forall>s \<in> set (sy_storages y). invar s" and "ok p" and "sWrite (sync_ops ops) p r y = (e, y')"
  with sync_Write_law [of y p r e y'] kept_invar [of invar obj "{key p}" "sy_storages y" "sy_storages y'"]
    kept_all_hold [of invar obj "{key p}" y y']
  show "(\<forall>s \<in> set (sy_storages y'). invar s) \<and> keeps (all_hold obj) {key p} y y'
      \<and> (e = None \<longrightarrow> all_hold obj y' (key p) = Some (rd_bytes r) \<and> read_fault (rd_fault r) = None)"
    by (simp add: sync_ops_def)
next
  fix y :: "'s sync_state" and p x y'
  assume I: "\<forall>s \<in> set (sy_storages y). invar s" and ok: "ok p" and run: "sReadFile (sync_ops ops) p y = (x, y')"
  obtain z ss where rd: "read_loop ops p [] (sy_storages y) = (z, ss)" by fastforce
  note l = read_loop_reads [OF I ok rd]
  have "sy_storages y' = ss \<and> (\<forall>r. x = Inr r \<longrightarrow> z = Inr r)"
    using run rd by (cases "sy_storages y") (auto simp: sync_ops_def sync_ReadFile_def)
  moreover from this l have "(\<forall>s \<in> set (sy_storages y'). invar s) \<and> all_hold obj y' = all_hold obj y"
    by (auto simp: list_all2_conv_all_nth all_set_conv_all_nth intro!: all_hold_cong)
  moreover have "\<forall>s \<in> set (sy_storages y). obj s (key p) = Some d" if "all_hold obj y (key p) = Some d" for d
    using that by (simp add: all_hold_iff)
  ultimately show "(\<forall>s \<in> set (sy_storages y'). invar s) \<and> all_hold obj y' = all_hold obj y
      \<and> (\<forall>d r. all_hold obj y (key p) = Some d \<longrightarrow> x = Inr r \<longrightarrow> read_fault (rd_fault r) = None \<longrightarrow> rd_bytes r = d)"
    using l by blast
next
  fix y :: "'s sync_state" and a b e y'
  assume "\<forall>s \<in> set (sy_storages y). invar s" and "ok a" "ok b" and "sCopy (sync_ops ops) a b y = (e, y')"
  with sync_Copy_law [of y a b e y'] kept_invar [of invar obj "{key b}" "sy_storages y" "sy_storages y'"]
    kept_all_hold [of invar obj "{key b}" y y']
  show "(\<forall>s \<in> set (sy_storages y'). invar s) \<and> keeps (all_hold obj) {key b} y y'
      \<and> (\<forall>d. e = None \<longrightarrow> key a \<noteq> key b \<longrightarrow> all_hold obj y (key a) = Some d \<longrightarrow> all_hold obj y' (key b) = Some d)"
    by (simp add: sync_ops_def)
qed

text \<open>
  A move deletes the source only after every storage has the copy: on each storage the content is at
  one of the two places, whatever fails.
\<close>

lemma sync_Move_keeps:
  assumes "\<forall>s \<in> set (sy_storages y). invar s" "ok a" "ok b" "key a \<noteq> key b" "sync_Move ops a b y = (e, y')"
    and "all_hold obj y (key a) = Some d"
  shows "all_hold obj y' (key a) = Some d \<or> all_hold obj y' (key b) = Some d"
proof -
  have "a \<noteq> b" using assms(4) by blast
  obtain e1 y1 where cp: "sync_Copy ops a b y = (e1, y1)" by fastforce
  note c = sync_Copy_law [OF assms(1-3) cp, of d]
  note k = kept_all_hold [OF conjunct1 [OF c]] kept_invar [OF conjunct1 [OF c]]
  show ?thesis
  proof (cases e1)
    case None
    then obtain m where "on_each m a (sDeleteFile ops a) y1 = (e, y')"
      using assms(5) cp \<open>a \<noteq> b\<close> by (auto simp: sync_Move_def)
    note kept_all_hold [OF conjunct1 [OF sync_each_delete [OF k(2) assms(2) this]]]
    with c None assms(4,6) keepsD [of "all_hold obj" "{key a}" y1 y' "key b" d] show ?thesis by auto
  next
    case (Some x)
    with assms(5) cp \<open>a \<noteq> b\<close> have "y' = y1" by (auto simp: sync_Move_def)
    with k assms(4,6) keepsD [of "all_hold obj" "{key b}" y y1 "key a" d] show ?thesis by auto
  qed
qed

end

text \<open>The provider over local files, an instance of the contract.\<close>

interpretation os_sync: object_store "sync_ops (os_ops p)" "\<lambda>y. \<forall>s \<in> set (sy_storages y). True" "all_hold file_at"
    "getFullPath p" "os_path_ok p" for p
  by (rule os.sync_store)

section \<open>Directory listings\<close>

lemma signature_inj: "inj signature_of"
proof
  fix a b
  assume eq: "signature_of a = signature_of b"
  have no_bar: "CHR ''|'' \<notin> set (show_nat n)" for n using show_nat_digits by fastforce
  have bool_bar: "CHR ''|'' \<notin> set (show_bool x)" for x by (simp add: show_bool_def)
  have "(de_name a @ ''|'' @ show_bool (de_isDir a)) @ CHR ''|'' # show_nat (de_type a)
      = (de_name b @ ''|'' @ show_bool (de_isDir b)) @ CHR ''|'' # show_nat (de_type b)"
    using eq by (simp add: signature_of_def)
  from split_at_last [OF this no_bar no_bar]
  have "de_name a @ CHR ''|'' # show_bool (de_isDir a) = de_name b @ CHR ''|'' # show_bool (de_isDir b)"
    "de_type a = de_type b" by (simp_all add: show_nat_inject)
  with split_at_last [OF this(1) bool_bar bool_bar] show "a = b"
    by (auto simp: show_bool_def split: if_splits)
qed

lemma sort_eq_iff: "sort xs = sort ys \<longleftrightarrow> mset xs = mset ys"
  by (metis mset_sort properties_for_sort sorted_sort)

section \<open>Properties\<close>

text \<open>C16: a synchronised storage over object stores is an object store again, for the objects on which
  its storages agree: a \<open>Write\<close>, \<open>Copy\<close> or \<open>DeleteFile\<close> that reports success took effect on every storage, no
  operation changes an agreed object that it does not name, and a read returns the agreed content,
  whatever fails in between, rollbacks and the spool file included.\<close>

theorem sync_keeps_contract:
  assumes "object_store ops invar obj key ok"
  shows "object_store (sync_ops ops) (\<lambda>y. \<forall>s \<in> set (sy_storages y). invar s) (all_hold obj) key ok"
  by (rule object_store.sync_store [OF assms])

lemma sync_keeps_contract_witness:
  "object_store (sync_ops (os_ops example_os)) (\<lambda>y. True) (all_hold file_at) (getFullPath example_os) (os_path_ok example_os)"
  using sync_keeps_contract [OF os_object_store, of example_os] by simp

text \<open>A synchronised move between two different objects never loses an object on which the storages
  agree: whatever fails, all storages agree on it at the source or at the destination.\<close>

lemma sync_move_safe:
  assumes "object_store ops invar obj key ok" "\<forall>s \<in> set (sy_storages y). invar s"
    and "ok a" "ok b" "key a \<noteq> key b" "all_hold obj y (key a) = Some d"
    and "sync_Move ops a b y = (e, y')"
  shows "all_hold obj y' (key a) = Some d \<or> all_hold obj y' (key b) = Some d"
  by (rule object_store.sync_Move_keeps [OF assms(1-5) assms(7,6)])

text \<open>Two storages, the second of which fails on its first write, and a sound spool directory.\<close>

definition example_sync :: "(nat \<Rightarrow> nat option) \<Rightarrow> fs sync_state" where
  "example_sync fault = NewSync [example_fs (\<lambda>_. None), example_fs fault]
     \<lparr>fs_nodes = [([''tmp''], Directory)], fs_tick = 0, fs_fault = (\<lambda>_. None), fs_short = (\<lambda>_. 0), fs_rand = (\<lambda>_. ''1'')\<rparr>"

lemma sync_move_safe_witness:
  "\<exists>e y'. sync_Move (os_ops example_os) ''a'' ''c'' (example_sync (\<lambda>n. if n = 3 then Some 5 else None)) = (Some e, y')
     \<and> (all_hold file_at y' [''d'', ''a''] = Some ''one'' \<or> all_hold file_at y' [''d'', ''c''] = Some ''one'')"
proof -
  let ?y = "example_sync (\<lambda>n. if n = 3 then Some 5 else None)"
  have "fst (sync_Move (os_ops example_os) ''a'' ''c'' ?y) \<noteq> None" by code_simp
  from fst_SomeD [OF this] obtain e y' where run: "sync_Move (os_ops example_os) ''a'' ''c'' ?y = (Some e, y')" by blast
  have facts: "os_path_ok example_os ''a''" "os_path_ok example_os ''c''" "getFullPath example_os ''a'' = [''d'', ''a'']"
    "getFullPath example_os ''c'' = [''d'', ''c'']" "all_hold file_at ?y [''d'', ''a''] = Some ''one''"
    by code_simp+
  show ?thesis using sync_move_safe [OF os_object_store _ _ _ _ _ run, of "''one''"] facts run by simp
qed

text \<open>Two directory listings match exactly when they have the same entries, in whatever order, repetitions
  counted. The signature strings confuse no two entries, whatever characters a name contains.\<close>

lemma dir_entries_match_iff: "dirEntriesMatch es fs \<longleftrightarrow> mset es = mset fs"
proof -
  have "mset (map signature_of es) = mset (map signature_of fs) \<longleftrightarrow> mset es = mset fs"
    using signature_inj by (auto simp: inj_eq [OF multiset.inj_map])
  moreover have "mset es = mset fs \<Longrightarrow> length es = length fs" by (metis size_mset)
  ultimately show ?thesis by (auto simp: dirEntriesMatch_def sort_eq_iff)
qed

text \<open>The rollback of a failed overwrite deletes the object. Both storages hold it; a \<open>Write\<close> of new
  content succeeds on the first and fails on the second, and the rollback leaves the first storage
  without the object, neither old nor new.\<close>

lemma sync_failed_overwrite_deletes:
  "\<exists>e y'. sync_Write (os_ops example_os) ''a'' \<lparr>rd_bytes = ''new'', rd_fault = None\<rparr> (example_sync (\<lambda>n. Some 5)) = (Some e, y')
     \<and> all_hold file_at (example_sync (\<lambda>n. Some 5)) [''d'', ''a''] = Some ''one''
     \<and> map (\<lambda>s. file_at s [''d'', ''a'']) (sy_storages y') = [None, Some ''one'']"
proof -
  let ?w = "sync_Write (os_ops example_os) ''a'' \<lparr>rd_bytes = ''new'', rd_fault = None\<rparr> (example_sync (\<lambda>n. Some 5))"
  have 1: "fst ?w \<noteq> None" by code_simp
  have 2: "map (\<lambda>s. file_at s [''d'', ''a'']) (sy_storages (snd ?w)) = [None, Some ''one'']" by code_simp
  have 3: "all_hold file_at (example_sync (\<lambda>n. Some 5)) [''d'', ''a''] = Some ''one''" by code_simp
  from fst_SomeD [OF 1] 2 3 show ?thesis by auto
qed

text \<open>A move between two spellings of one path reports success and destroys the object on every storage.\<close>

lemma sync_move_alias_destroys:
  "\<exists>y'. sync_Move (os_ops example_os) ''a'' ''./a'' (example_sync (\<lambda>_. None)) = (None, y')
     \<and> map (\<lambda>s. file_at s [''d'', ''a'']) (sy_storages y') = [None, None]"
proof -
  let ?w = "sync_Move (os_ops example_os) ''a'' ''./a'' (example_sync (\<lambda>_. None))"
  have 1: "fst ?w = None" by code_simp
  have 2: "map (\<lambda>s. file_at s [''d'', ''a'']) (sy_storages (snd ?w)) = [None, None]" by code_simp
  from fst_NoneD [OF 1] 2 show ?thesis by auto
qed

end
