(* ===== verification/Storage_Meta.thy ===== *)
theory Storage_Meta
  imports Os_Provider
begin

text \<open>
  The rest of package \<^verbatim>\<open>storage\<close>: the content headers that the object stores derive from a file's name
  (\<^verbatim>\<open>metadata.go\<close>), the local storage (\<^verbatim>\<open>local_storage.go\<close>) and the URL provider that puts a prefix
  before a path (\<^verbatim>\<open>providers/no_url.go\<close>). The table of \<^verbatim>\<open>mime.TypeByExtension\<close> comes from the operating
  system and is a parameter.
\<close>

section \<open>Names and extensions\<close>

text \<open>\<open>filepath.Ext\<close>: what follows the last dot of the last element, with the dot.\<close>

definition Ext :: "string \<Rightarrow> string" where
  "Ext p =
     (let e = takeWhile (\<lambda>c. c \<noteq> CHR ''.'' \<and> c \<noteq> CHR ''/'') (rev p)
      in case drop (length e) (rev p) of
           c # _ \<Rightarrow> if c = CHR ''.'' then CHR ''.'' # rev e else []
         | [] \<Rightarrow> [])"

definition has_suffix :: "string \<Rightarrow> string \<Rightarrow> bool" where
  "has_suffix s x = has_prefix (rev s) (rev x)"

definition TrimSuffix :: "string \<Rightarrow> string \<Rightarrow> string" where
  "TrimSuffix s x = (if has_suffix s x then take (length s - length x) s else s)"

definition TrimPrefix :: "string \<Rightarrow> string \<Rightarrow> string" where
  "TrimPrefix s x = (if has_prefix s x then drop (length x) s else s)"

lemma has_suffix_append [simp]: "has_suffix (s @ x) x"
  by (simp add: has_suffix_def)

lemma TrimSuffix_append [simp]: "TrimSuffix (s @ x) x = s"
  by (simp add: TrimSuffix_def)

lemma TrimPrefix_append [simp]: "TrimPrefix (x @ s) x = s"
  by (simp add: TrimPrefix_def)

lemma Ext_dot:
  assumes "CHR ''.'' \<notin> set e" "CHR ''/'' \<notin> set e"
  shows "Ext (s @ CHR ''.'' # e) = CHR ''.'' # e"
proof -
  have "takeWhile (\<lambda>c. c \<noteq> CHR ''.'' \<and> c \<noteq> CHR ''/'') (rev e @ CHR ''.'' # rev s) = rev e"
    using assms by (subst takeWhile_append2) auto
  then show ?thesis by (simp add: Ext_def)
qed

lemma Ext_no_dot: "CHR ''.'' \<notin> set s \<Longrightarrow> Ext s = []"
  by (auto simp: Ext_def Let_def split: list.split) (metis in_set_dropD list.set_intros(1) set_rev)

section \<open>Metadata\<close>

record metadata =
  md_contentType :: string
  md_contentEncoding :: string

definition NewMetadata :: "string \<Rightarrow> string \<Rightarrow> metadata" where
  "NewMetadata contentType contentEncoding =
     \<lparr>md_contentType = contentType, md_contentEncoding = contentEncoding\<rparr>"

abbreviation ContentEncodingGzip :: string where "ContentEncodingGzip \<equiv> ''gzip''"

text \<open>\<open>mime\<close> is \<open>mime.TypeByExtension\<close>.\<close>

definition GetFileMetadataByName :: "(string \<Rightarrow> string) \<Rightarrow> string \<Rightarrow> go_error + metadata" where
  "GetFileMetadataByName mime filename =
     (let basename = path_Base filename;
          last_ext = Ext basename;
          name = TrimSuffix basename last_ext;
          inner_ext = (if CHR ''.'' \<in> set name then Ext name else []);
          (ext1, ext2) = (if inner_ext \<noteq> [] then (inner_ext, last_ext) else (last_ext, inner_ext));
          contentType = mime ext1;
          contentType = (if CHR '';'' \<in> set contentType then TrimSpace (hd (split_on (CHR '';'') contentType))
                         else contentType);
          contentEncoding = (if ext2 = ''.gz'' then ContentEncodingGzip else [])
      in Inr (NewMetadata contentType contentEncoding))"

lemma GetFileMetadataByName_total:
  obtains m where "GetFileMetadataByName mime filename = Inr m"
proof -
  have "\<not> isl (GetFileMetadataByName mime filename)"
    by (simp add: GetFileMetadataByName_def Let_def split: prod.split)
  with that show ?thesis by (cases "GetFileMetadataByName mime filename") auto
qed

text \<open>A media type without its parameters.\<close>

definition media_type :: "string \<Rightarrow> string" where
  "media_type t = (if CHR '';'' \<in> set t then TrimSpace (takeWhile (\<lambda>c. c \<noteq> CHR '';'') t) else t)"

lemma split_on_hd: "hd (split_on c s) = takeWhile (\<lambda>b. b \<noteq> c) s"
  by (induction s) (auto split: list.split)

section \<open>Local storages and public URLs\<close>

definition ls_LocalPath :: "(string \<Rightarrow> go_error + 'p) \<Rightarrow> string \<Rightarrow> go_error + 'p" where
  "ls_LocalPath provider path =
     (case provider path of Inl e \<Rightarrow> Inl (Wrap (''local_storage.LocalPath('' @ path @ '')'') [e]) | Inr p \<Rightarrow> Inr p)"

text \<open>The local storage on a provider of local files finds every path.\<close>

lemma ls_LocalPath_os: "ls_LocalPath (os_LocalPath p) path = Inr (getFullPath p path)"
  by (simp add: ls_LocalPath_def os_LocalPath_def)

definition nourl_GetPublicUrl :: "string \<Rightarrow> string \<Rightarrow> go_error + string" where
  "nourl_GetPublicUrl prefix path = Inr (prefix @ path)"

definition NoUrlProviderImpl :: "string \<Rightarrow> go_error + string" where
  "NoUrlProviderImpl = nourl_GetPublicUrl []"

section \<open>Properties\<close>

lemma last_split_append:
  assumes "c \<notin> set s" "d = [] \<or> last d = c"
  shows "last (split_on c (d @ s)) = s"
proof (cases "d = []")
  case False
  moreover have "last (split_on c (xs @ [c])) = []" for xs
    using split_on_append [OF last_split_no, of c xs "[]"] by (subst split_on_append_text) simp
  ultimately have "last (split_on c d) = []" using assms(2) by (metis append_butlast_last_id)
  with assms(1) show ?thesis by (subst split_on_append_text) simp
qed (use assms in simp)

lemma path_Base_simple:
  assumes "CHR ''/'' \<notin> set s" "s \<noteq> []" "d = [] \<or> last d = CHR ''/''"
  shows "path_Base (d @ s) = s"
proof -
  have "last s \<noteq> CHR ''/''" using assms(1,2) by (metis last_in_set)
  then have "rev (dropWhile (\<lambda>c. c = CHR ''/'') (rev (d @ s))) = d @ s"
    using assms(2) by (cases s rule: rev_cases) auto
  then show ?thesis using assms(2) last_split_append [OF assms(1,3)] by (simp add: path_Base_def Let_def)
qed

text \<open>The content headers of an upload depend on the last two extensions of the file's name only: with
  one extension the type is that extension's and there is no encoding; with two the type is always
  that of the inner one, and the encoding is gzip exactly if the outer one is \<open>.gz\<close>. So the type of
  \<open>report.2024.csv\<close> is looked up for \<open>.2024\<close>, which has none.\<close>

lemma metadata_by_name:
  assumes "CHR ''/'' \<notin> set (stem @ inner @ e)" "CHR ''.'' \<notin> set stem" "CHR ''.'' \<notin> set inner" "CHR ''.'' \<notin> set e"
    and "dir = [] \<or> last dir = CHR ''/''"
  shows "GetFileMetadataByName mime (dir @ stem @ CHR ''.'' # e) = Inr (NewMetadata (media_type (mime (CHR ''.'' # e))) [])
    \<and> (\<forall>pre. CHR ''/'' \<notin> set pre \<longrightarrow>
         GetFileMetadataByName mime (dir @ pre @ CHR ''.'' # inner @ CHR ''.'' # e) =
         Inr (NewMetadata (media_type (mime (CHR ''.'' # inner))) (if e = ''gz'' then ContentEncodingGzip else [])))"
proof (intro conjI allI impI)
  have base: "path_Base (dir @ stem @ CHR ''.'' # e) = stem @ CHR ''.'' # e"
    using assms by (intro path_Base_simple) auto
  have "Ext (stem @ CHR ''.'' # e) = CHR ''.'' # e" using assms by (intro Ext_dot) auto
  with base assms show "GetFileMetadataByName mime (dir @ stem @ CHR ''.'' # e)
      = Inr (NewMetadata (media_type (mime (CHR ''.'' # e))) [])"
    by (simp add: GetFileMetadataByName_def media_type_def split_on_hd Let_def)
next
  fix pre :: string assume "CHR ''/'' \<notin> set pre"
  with assms have base: "path_Base (dir @ (pre @ CHR ''.'' # inner) @ CHR ''.'' # e) = (pre @ CHR ''.'' # inner) @ CHR ''.'' # e"
    by (intro path_Base_simple) auto
  have "Ext ((pre @ CHR ''.'' # inner) @ CHR ''.'' # e) = CHR ''.'' # e" "Ext (pre @ CHR ''.'' # inner) = CHR ''.'' # inner"
    using assms by (intro Ext_dot; auto)+
  with base TrimSuffix_append [of "pre @ CHR ''.'' # inner" "CHR ''.'' # e"]
  show "GetFileMetadataByName mime (dir @ pre @ CHR ''.'' # inner @ CHR ''.'' # e) =
      Inr (NewMetadata (media_type (mime (CHR ''.'' # inner))) (if e = ''gz'' then ContentEncodingGzip else []))"
    by (simp add: GetFileMetadataByName_def media_type_def split_on_hd Let_def)
qed

lemma metadata_by_name_witness:
  "GetFileMetadataByName (\<lambda>e. if e = ''.csv'' then ''text/csv; charset=utf-8'' else []) ''out/report.2024.csv'' = Inr (NewMetadata [] [])
   \<and> GetFileMetadataByName (\<lambda>e. if e = ''.csv'' then ''text/csv; charset=utf-8'' else []) ''out/report.csv''
     = Inr (NewMetadata ''text/csv'' [])"
proof -
  let ?mime = "\<lambda>e. if e = ''.csv'' then ''text/csv; charset=utf-8'' else []"
  have m: "GetFileMetadataByName ?mime (''out/'' @ ''report'' @ CHR ''.'' # ''csv'') = Inr (NewMetadata (media_type (?mime (CHR ''.'' # ''csv''))) [])
    \<and> (\<forall>pre. CHR ''/'' \<notin> set pre \<longrightarrow> GetFileMetadataByName ?mime (''out/'' @ pre @ CHR ''.'' # ''2024'' @ CHR ''.'' # ''csv'') =
         Inr (NewMetadata (media_type (?mime (CHR ''.'' # ''2024''))) (if ''csv'' = ''gz'' then ContentEncodingGzip else [])))"
    by (rule metadata_by_name) simp_all
  have t: "media_type ''text/csv; charset=utf-8'' = ''text/csv''" by code_simp
  show ?thesis using m [THEN conjunct1] m [THEN conjunct2, THEN spec [of _ "''report''"]]
    by (simp add: t media_type_def [of "[]"])
qed

end
