(* ===== verification/Buckets.thy ===== *)
theory Buckets
  imports Storage_Meta
begin

text \<open>
  What the object stores \<^verbatim>\<open>s3\<close> and \<^verbatim>\<open>gcs\<close> have in common. A bucket maps flat keys to contents; the contents
  of a service are a function from bucket and key. A listing with the delimiter \<open>/\<close> shows a
  directory: \<open>delimited\<close> is what the services return, \<open>children\<close> what a caller of \<open>ReadDir\<close> expects.
\<close>

type_synonym bucket_contents = "string \<times> string \<Rightarrow> byte list option"

definition keys_of :: "bucket_contents \<Rightarrow> string \<Rightarrow> string set" where
  "keys_of c bucket = {k. c (bucket, k) \<noteq> None}"

section \<open>Names\<close>

text \<open>\<open>getObjectFullName\<close> of both packages.\<close>

definition full_name :: "string \<Rightarrow> string \<Rightarrow> string" where
  "full_name baseDir objectName = (if baseDir \<noteq> [] then baseDir @ ''/'' @ objectName else objectName)"

lemma full_name_inject [simp]: "full_name d a = full_name d b \<longleftrightarrow> a = b"
  by (simp add: full_name_def)

text \<open>\<open>listPrefix\<close> of both packages.\<close>

definition listPrefix :: "string \<Rightarrow> string" where
  "listPrefix fullName =
     (if fullName = [] then [] else if has_suffix fullName ''/'' then fullName else fullName @ ''/'')"

section \<open>Listings\<close>

definition delimited :: "string set \<Rightarrow> string \<Rightarrow> string set" where
  "delimited K p = {p @ n |n. p @ n \<in> K \<and> CHR ''/'' \<notin> set n} \<union> {p @ d @ ''/'' |d r. CHR ''/'' \<notin> set d \<and> p @ d @ ''/'' @ r \<in> K}"

definition children :: "string set \<Rightarrow> string \<Rightarrow> (string \<times> bool) set" where
  "children K p =
     {(n, False) |n. p @ n \<in> K \<and> n \<noteq> [] \<and> CHR ''/'' \<notin> set n}
     \<union> {(d, True) |d r. d \<noteq> [] \<and> CHR ''/'' \<notin> set d \<and> p @ d @ ''/'' @ r \<in> K}"

abbreviation entry_key :: "dir_entry \<Rightarrow> string \<times> bool" where
  "entry_key e \<equiv> (de_name e, de_isDir e)"

lemma entry_key_simps [simp]:
  "entry_key (NewDirEntry n) = (n, True)"
  "entry_key (NewFileEntry n) = (n, False)"
  by (simp_all add: NewDirEntry_def NewFileEntry_def)

lemma has_suffix_slash: "has_suffix k ''/'' \<longleftrightarrow> (\<exists>k'. k = k' @ ''/'')"
  by (cases k rule: rev_cases) (auto simp: has_suffix_def)

text \<open>A key of a listing is the prefix itself, a file in it, or a directory in it.\<close>

lemma delimited_cases:
  assumes "k \<in> delimited K p"
  obtains (itself) "k = p"
  | (leaf) n where "k = p @ n" "n \<noteq> []" "CHR ''/'' \<notin> set n" "p @ n \<in> K"
  | (folder) d r where "k = p @ d @ ''/''" "CHR ''/'' \<notin> set d" "p @ d @ ''/'' @ r \<in> K"
  using assms by (auto simp: delimited_def)

lemma slash_free_suffix: "CHR ''/'' \<notin> set n \<Longrightarrow> n \<noteq> [] \<Longrightarrow> \<not> has_suffix (p @ n) ''/''"
  by (cases n rule: rev_cases) (auto simp: has_suffix_def)

text \<open>What one key of a listing stands for: itself nothing, a file, or a directory.\<close>

definition key_entry :: "string \<Rightarrow> string \<Rightarrow> (string \<times> bool) option" where
  "key_entry p key =
     (if key = p then None
      else if has_suffix key ''/''
      then (let n = TrimSuffix (TrimPrefix key p) ''/'' in if n = [] then None else Some (n, True))
      else (let n = TrimPrefix key p in if n = [] then None else Some (n, False)))"

lemma key_entry_leaf: "CHR ''/'' \<notin> set n \<Longrightarrow> n \<noteq> [] \<Longrightarrow> key_entry p (p @ n) = Some (n, False)"
  by (simp add: key_entry_def slash_free_suffix)

lemma key_entry_folder: "key_entry p (p @ d @ ''/'') = (if d = [] then None else Some (d, True))"
proof -
  have "has_suffix (p @ d @ ''/'') ''/''" by (simp add: has_suffix_slash)
  then show ?thesis by (simp add: key_entry_def Let_def)
qed

text \<open>The entries of a complete listing are the children of the directory.\<close>

lemma delimited_children: "{x. \<exists>k \<in> delimited K p. key_entry p k = Some x} = children K p"
proof (intro set_eqI iffI)
  fix x assume "x \<in> {x. \<exists>k \<in> delimited K p. key_entry p k = Some x}"
  then obtain k where k: "k \<in> delimited K p" and x: "key_entry p k = Some x" by blast
  from k show "x \<in> children K p"
  proof (cases rule: delimited_cases)
    case itself
    with x show ?thesis by (simp add: key_entry_def)
  next
    case (leaf n)
    with x show ?thesis by (auto simp: key_entry_leaf children_def)
  next
    case (folder d r)
    with x show ?thesis by (auto simp: key_entry_folder children_def split: if_splits)
  qed
next
  fix x assume "x \<in> children K p"
  then consider (leaf) n where "x = (n, False)" "p @ n \<in> K" "n \<noteq> []" "CHR ''/'' \<notin> set n"
    | (folder) d r where "x = (d, True)" "d \<noteq> []" "CHR ''/'' \<notin> set d" "p @ d @ ''/'' @ r \<in> K"
    by (auto simp: children_def)
  then show "x \<in> {x. \<exists>k \<in> delimited K p. key_entry p k = Some x}"
  proof cases
    case (leaf n)
    then have "p @ n \<in> delimited K p" by (auto simp: delimited_def)
    with leaf key_entry_leaf [of n p] show ?thesis by blast
  next
    case (folder d r)
    then have "p @ d @ ''/'' \<in> delimited K p" by (auto simp: delimited_def)
    with folder key_entry_folder [of p d] show ?thesis by force
  qed
qed

section \<open>Moves\<close>

text \<open>
  Both providers move an object by a copy and a deletion. In an object store that never loses it:
  after success it is at the destination only, after a failure at one of the two places.
\<close>

definition copy_then_delete :: "'s store_ops \<Rightarrow> string \<Rightarrow> string \<Rightarrow> 's \<Rightarrow> go_error option \<times> 's" where
  "copy_then_delete ops a b s =
     (if a = b then (None, s)
      else (case sCopy ops a b s of (Some e, s1) \<Rightarrow> (Some e, s1) | (None, s1) \<Rightarrow> sDeleteFile ops a s1))"

context object_store
begin

lemma copy_then_delete_safe:
  assumes "invar s" "ok a" "ok b" "key a \<noteq> key b" "obj s (key a) = Some d" "copy_then_delete ops a b s = (e, s')"
  shows "invar s' \<and> keeps obj {key a, key b} s s' \<and> (obj s' (key a) = Some d \<or> obj s' (key b) = Some d)
         \<and> (e = None \<longrightarrow> obj s' (key b) = Some d \<and> obj s' (key a) = None)"
proof -
  have "a \<noteq> b" using assms(4) by blast
  obtain e1 s1 where cp: "sCopy ops a b s = (e1, s1)" by fastforce
  note c = copy_law [OF assms(1-3) cp]
  show ?thesis
  proof (cases e1)
    case None
    with cp assms(6) \<open>a \<noteq> b\<close> have del: "sDeleteFile ops a s1 = (e, s')" by (simp add: copy_then_delete_def)
    have "invar s1" "obj s1 (key b) = Some d" using c None assms(4,5) by auto
    with delete_law [OF _ assms(2) del] c assms(4) show ?thesis by (auto simp: keeps_def)
  next
    case (Some x)
    with cp assms(6) \<open>a \<noteq> b\<close> have "e = Some x" "s' = s1" by (simp_all add: copy_then_delete_def)
    with c assms(4,5) show ?thesis by (auto simp: keeps_def)
  qed
qed

end

section \<open>A service in memory\<close>

text \<open>A service that never fails, for the examples: what a listing with a delimiter says of one key.\<close>

type_synonym bucket_files = "((string \<times> string) \<times> byte list) list"

definition folded :: "string \<Rightarrow> string \<Rightarrow> string" where
  "folded p k =
     (let n = drop (length p) k
      in if CHR ''/'' \<in> set n then p @ takeWhile (\<lambda>c. c \<noteq> CHR ''/'') n @ ''/'' else k)"

definition bucket_keys :: "string \<Rightarrow> string \<Rightarrow> bucket_files \<Rightarrow> string list" where
  "bucket_keys b p w = remdups (filter (\<lambda>k. has_prefix k p) (map snd (filter (\<lambda>k. fst k = b) (map fst w))))"

definition bucket_listing :: "string \<Rightarrow> string \<Rightarrow> bool \<Rightarrow> bucket_files \<Rightarrow> string list" where
  "bucket_listing b p recursive w =
     (if recursive then bucket_keys b p w else remdups (map (folded p) (bucket_keys b p w)))"

lemma set_bucket_keys: "set (bucket_keys b p w) = {k \<in> keys_of (map_of w) b. has_prefix k p}"
  by (auto simp: bucket_keys_def keys_of_def map_of_eq_None_iff image_iff)

lemma folded_delimited: "folded p ` {k \<in> K. has_prefix k p} = delimited K p"
proof (intro set_eqI iffI)
  fix x assume "x \<in> folded p ` {k \<in> K. has_prefix k p}"
  then obtain k where k: "k \<in> K" "x = folded p k" "has_prefix k p" by blast
  then obtain n where n: "k = p @ n" by (metis append_take_drop_id)
  show "x \<in> delimited K p"
  proof (cases "CHR ''/'' \<in> set n")
    case True
    then obtain d r where d: "n = d @ CHR ''/'' # r" "CHR ''/'' \<notin> set d" by (meson split_list_first)
    then have "takeWhile (\<lambda>c. c \<noteq> CHR ''/'') n = d" by (auto simp: takeWhile_append)
    with k n True d show ?thesis by (auto simp: folded_def delimited_def)
  qed (use k n in \<open>auto simp: folded_def delimited_def\<close>)
next
  fix x assume "x \<in> delimited K p"
  then consider (leaf) n where "x = p @ n" "p @ n \<in> K" "CHR ''/'' \<notin> set n"
    | (folder) d r where "x = p @ d @ ''/''" "CHR ''/'' \<notin> set d" "p @ d @ ''/'' @ r \<in> K"
    by (auto simp: delimited_def)
  then show "x \<in> folded p ` {k \<in> K. has_prefix k p}"
  proof cases
    case (leaf n)
    then have "x = folded p (p @ n)" by (simp add: folded_def)
    with leaf(2) show ?thesis by auto
  next
    case (folder d r)
    then have "takeWhile (\<lambda>c. c \<noteq> CHR ''/'') (d @ CHR ''/'' # r) = d" by (auto simp: takeWhile_append)
    with folder have "x = folded p (p @ d @ ''/'' @ r)" by (simp add: folded_def)
    with folder(3) show ?thesis by auto
  qed
qed

lemma set_bucket_listing:
  "set (bucket_listing b p True w) = {k \<in> keys_of (map_of w) b. has_prefix k p}"
  "set (bucket_listing b p False w) = delimited (keys_of (map_of w) b) p"
  "distinct (bucket_listing b p r w)"
proof -
  show "set (bucket_listing b p True w) = {k \<in> keys_of (map_of w) b. has_prefix k p}"
    by (simp only: bucket_listing_def if_True set_bucket_keys)
  show "set (bucket_listing b p False w) = delimited (keys_of (map_of w) b) p"
    by (simp only: bucket_listing_def if_False set_remdups set_map set_bucket_keys folded_delimited)
  show "distinct (bucket_listing b p r w)" by (simp add: bucket_listing_def bucket_keys_def)
qed

lemma map_of_update: "map_of (AList.update k v w) = (map_of w)(k \<mapsto> v)"
  by (simp add: update_conv')

lemma map_of_delete: "map_of (AList.delete k w) = (map_of w)(k := None)"
  by (simp add: delete_conv')

end
