(* ===== verification/Go_Url.thy ===== *)
theory Go_Url
  imports Go_Text
begin

text \<open>
  \<^verbatim>\<open>net/url.Parse\<close> of Go's standard library: the split of a reference into scheme, authority, path, query
  and fragment, with the checks that make it fail. Of a parsed URL the model keeps what the program
  reads: scheme, host, path, query and fragment.
\<close>

record parsed_url =
  u_Scheme :: string
  u_Host :: string
  u_Path :: string
  u_RawQuery :: string
  u_Fragment :: string

definition letters :: string where "letters = ''abcdefghijklmnopqrstuvwxyzABCDEFGHIJKLMNOPQRSTUVWXYZ''"

definition digits :: string where "digits = ''0123456789''"

definition ToLower :: "string \<Rightarrow> string" where
  "ToLower = map (\<lambda>c. if 65 \<le> (of_char c :: nat) \<and> (of_char c :: nat) \<le> 90 then char_of ((of_char c :: nat) + 32) else c)"

text \<open>\<open>strings.Cut\<close> at a character.\<close>

definition Cut :: "char \<Rightarrow> string \<Rightarrow> string \<times> string" where
  "Cut c s = (takeWhile (\<lambda>x. x \<noteq> c) s, tl (dropWhile (\<lambda>x. x \<noteq> c) s))"

text \<open>What stands before and behind the last occurrence of a character.\<close>

definition CutLast :: "char \<Rightarrow> string \<Rightarrow> (string \<times> string) option" where
  "CutLast c s =
     (if c \<in> set s
      then Some (rev (tl (dropWhile (\<lambda>x. x \<noteq> c) (rev s))), rev (takeWhile (\<lambda>x. x \<noteq> c) (rev s)))
      else None)"

definition url_error :: "string \<Rightarrow> go_error" where "url_error msg = Wrap (''parse: '' @ msg) []"

section \<open>Escapes\<close>

datatype url_mode = InHost | InZone | Elsewhere

definition hex_digits :: string where "hex_digits = digits @ ''abcdefABCDEF''"

definition unhex :: "char \<Rightarrow> nat" where
  "unhex c = (let n = of_char c in if c \<in> set digits then n - 48 else if 97 \<le> n then n - 87 else n - 55)"

definition host_ok :: "char \<Rightarrow> bool" where
  "host_ok c = (c \<in> set letters \<or> c \<in> set digits \<or> c \<in> set ''!$&'' \<or> of_char c = (39 :: nat)
     \<or> c \<in> set ''()*+,;=:[]<>'' \<or> of_char c = (34 :: nat) \<or> c \<in> set ''-_.~'')"

fun unescape :: "url_mode \<Rightarrow> string \<Rightarrow> go_error + string" where
  "unescape m [] = Inr []"
| "unescape m (c # s) =
     (if c = CHR ''%''
      then (case s of
              a # b # r \<Rightarrow>
                (let v = 16 * unhex a + unhex b
                 in if a \<notin> set hex_digits \<or> b \<notin> set hex_digits
                       \<or> m = InHost \<and> unhex a < 8 \<and> (a, b) \<noteq> (CHR ''2'', CHR ''5'')
                       \<or> m = InZone \<and> (a, b) \<noteq> (CHR ''2'', CHR ''5'') \<and> v \<noteq> 32 \<and> \<not> host_ok (char_of v)
                    then Inl (url_error ''invalid URL escape'')
                    else map_sum id (\<lambda>t. char_of v # t) (unescape m r))
            | _ \<Rightarrow> Inl (url_error ''invalid URL escape''))
      else if m \<noteq> Elsewhere \<and> of_char c < (128 :: nat) \<and> \<not> host_ok c then Inl (url_error ''invalid character in host name'')
      else map_sum id (\<lambda>t. c # t) (unescape m s))"

section \<open>The parts of a URL\<close>

fun scheme_loop :: "string \<Rightarrow> string \<Rightarrow> go_error + (string \<times> string) option" where
  "scheme_loop acc [] = Inr None"
| "scheme_loop acc (c # s) =
     (if c \<in> set letters then scheme_loop (acc @ [c]) s
      else if c \<in> set digits \<or> c \<in> set ''+-.'' then (if acc = [] then Inr None else scheme_loop (acc @ [c]) s)
      else if c = CHR '':'' then (if acc = [] then Inl (url_error ''missing protocol scheme'') else Inr (Some (acc, s)))
      else Inr None)"

definition getScheme :: "string \<Rightarrow> go_error + string \<times> string" where
  "getScheme s = map_sum id (\<lambda>x. case x of None \<Rightarrow> ([], s) | Some p \<Rightarrow> p) (scheme_loop [] s)"

definition validOptionalPort :: "string \<Rightarrow> bool" where
  "validOptionalPort p = (p = [] \<or> hd p = CHR '':'' \<and> list_all (\<lambda>c. c \<in> set digits) (tl p))"

text \<open>The zone of an IPv6 address: what follows the first \<open>%25\<close>.\<close>

fun cut_zone :: "string \<Rightarrow> (string \<times> string) option" where
  "cut_zone [] = None"
| "cut_zone (c # s) =
     (if has_prefix (c # s) ''%25'' then Some ([], c # s)
      else map_option (\<lambda>(a, b). (c # a, b)) (cut_zone s))"

definition parseHost :: "string \<Rightarrow> go_error + string" where
  "parseHost host =
     (if has_prefix host ''[''
      then (case CutLast (CHR '']'') host of
              None \<Rightarrow> Inl (url_error ''missing ']' in host'')
            | Some (addr, port) \<Rightarrow>
                if \<not> validOptionalPort port then Inl (url_error ''invalid port'')
                else (case cut_zone addr of
                        None \<Rightarrow> unescape InHost host
                      | Some (a, zone) \<Rightarrow>
                          (case unescape InHost a of
                             Inl e \<Rightarrow> Inl e
                           | Inr h1 \<Rightarrow>
                               (case unescape InZone zone of
                                  Inl e \<Rightarrow> Inl e
                                | Inr h2 \<Rightarrow> map_sum id (\<lambda>h3. h1 @ h2 @ h3) (unescape InHost (CHR '']'' # port))))))
      else (case CutLast (CHR '':'') host of
              Some (a, port) \<Rightarrow>
                if validOptionalPort (CHR '':'' # port) then unescape InHost host else Inl (url_error ''invalid port'')
            | None \<Rightarrow> unescape InHost host))"

definition validUserinfo :: "string \<Rightarrow> bool" where
  "validUserinfo s = list_all (\<lambda>c. c \<in> set letters \<or> c \<in> set digits \<or> c \<in> set ''-._:~!$&()*+,;=%@'' \<or> of_char c = (39 :: nat)) s"

definition parseAuthority :: "string \<Rightarrow> go_error + string" where
  "parseAuthority authority =
     (case CutLast (CHR ''@'') authority of
        None \<Rightarrow> parseHost authority
      | Some (userinfo, h) \<Rightarrow>
          (case parseHost h of
             Inl e \<Rightarrow> Inl e
           | Inr host \<Rightarrow>
               if \<not> validUserinfo userinfo then Inl (url_error ''invalid userinfo'')
               else (case (unescape Elsewhere (fst (Cut (CHR '':'') userinfo)), unescape Elsewhere (snd (Cut (CHR '':'') userinfo))) of
                       (Inr _, Inr _) \<Rightarrow> Inr host
                     | (Inl e, _) \<Rightarrow> Inl e
                     | (_, Inl e) \<Rightarrow> Inl e)))"

definition has_control_byte :: "string \<Rightarrow> bool" where
  "has_control_byte = list_ex (\<lambda>c. of_char c < (32 :: nat) \<or> of_char c = (127 :: nat))"

text \<open>A reference without its fragment. \<open>opaque\<close> URLs (a scheme and no slash) have neither host nor path.\<close>

definition parse_rest :: "string \<Rightarrow> string \<Rightarrow> string \<Rightarrow> go_error + parsed_url" where
  "parse_rest scheme query rest =
     (if \<not> has_prefix rest ''/'' \<and> scheme \<noteq> []
      then Inr \<lparr>u_Scheme = scheme, u_Host = [], u_Path = [], u_RawQuery = query, u_Fragment = []\<rparr>
      else if \<not> has_prefix rest ''/'' \<and> CHR '':'' \<in> set (fst (Cut (CHR ''/'') rest))
      then Inl (url_error ''first path segment in URL cannot contain colon'')
      else (let slashes = has_prefix rest ''//'' \<and> (scheme \<noteq> [] \<or> \<not> has_prefix rest ''///'');
                authority = (if slashes then takeWhile (\<lambda>c. c \<noteq> CHR ''/'') (drop 2 rest) else []);
                path = (if slashes then dropWhile (\<lambda>c. c \<noteq> CHR ''/'') (drop 2 rest) else rest)
            in case (if slashes then parseAuthority authority else Inr []) of
                 Inl e \<Rightarrow> Inl e
               | Inr host \<Rightarrow>
                   map_sum id (\<lambda>p. \<lparr>u_Scheme = scheme, u_Host = host, u_Path = p, u_RawQuery = query, u_Fragment = []\<rparr>)
                     (unescape Elsewhere path)))"

definition parse_reference :: "string \<Rightarrow> go_error + parsed_url" where
  "parse_reference s =
     (if has_control_byte s then Inl (url_error ''invalid control character in URL'')
      else if s = ''*'' then Inr \<lparr>u_Scheme = [], u_Host = [], u_Path = ''*'', u_RawQuery = [], u_Fragment = []\<rparr>
      else (case getScheme s of
              Inl e \<Rightarrow> Inl e
            | Inr (scheme, rest) \<Rightarrow>
                (case Cut (CHR ''?'') rest of (r, query) \<Rightarrow> parse_rest (ToLower scheme) query r)))"

definition url_Parse :: "string \<Rightarrow> go_error + parsed_url" where
  "url_Parse s =
     (case Cut (CHR ''#'') s of
        (u, frag) \<Rightarrow>
          (case parse_reference u of
             Inl e \<Rightarrow> Inl e
           | Inr url \<Rightarrow> map_sum id (\<lambda>f. url\<lparr>u_Fragment := f\<rparr>) (unescape Elsewhere frag)))"

section \<open>Plain hosts\<close>

text \<open>The characters of host names and IPv4 addresses.\<close>

definition host_char :: "char \<Rightarrow> bool" where
  "host_char c = (c \<in> set letters \<or> c \<in> set digits \<or> c \<in> set ''-.'')"

lemma host_char_not [simp]:
  "\<not> host_char (CHR ''/'')" "\<not> host_char (CHR ''?'')" "\<not> host_char (CHR ''#'')" "\<not> host_char (CHR '':'')"
  "\<not> host_char (CHR ''%'')" "\<not> host_char (CHR ''@'')" "\<not> host_char (CHR ''['')" "\<not> host_char (CHR ''*'')"
  by (simp_all add: host_char_def letters_def digits_def)

lemma host_char_ok: "host_char c \<Longrightarrow> host_ok c"
  by (auto simp: host_char_def host_ok_def)

lemma digit_host_char: "c \<in> set digits \<Longrightarrow> host_char c"
  by (simp add: host_char_def)

lemma host_char_printable: "host_char c \<Longrightarrow> 32 \<le> (of_char c :: nat) \<and> (of_char c :: nat) \<noteq> 127"
  by (auto simp: host_char_def letters_def digits_def)

lemma takeWhile_absent [simp]: "c \<notin> set s \<Longrightarrow> takeWhile (\<lambda>x. x \<noteq> c) s = s"
  by (subst takeWhile_eq_all_conv) auto

lemma dropWhile_absent [simp]: "c \<notin> set s \<Longrightarrow> dropWhile (\<lambda>x. x \<noteq> c) s = []"
  by (subst dropWhile_eq_Nil_conv) auto

lemma Cut_none [simp]: "c \<notin> set s \<Longrightarrow> Cut c s = (s, [])"
  by (simp add: Cut_def)

lemma CutLast_none [simp]: "c \<notin> set s \<Longrightarrow> CutLast c s = None"
  by (simp add: CutLast_def)

lemma CutLast_append: "c \<notin> set t \<Longrightarrow> CutLast c (s @ c # t) = Some (s, t)"
  using takeWhile_absent [of c "rev t"] dropWhile_absent [of c "rev t"]
  by (auto simp: CutLast_def takeWhile_append dropWhile_append)

lemma unescape_plain:
  "\<forall>c \<in> set s. c \<noteq> CHR ''%'' \<and> (m \<noteq> Elsewhere \<longrightarrow> host_ok c) \<Longrightarrow> unescape m s = Inr s"
  by (induction s) auto

lemma no_control: "\<forall>c \<in> set s. 32 \<le> (of_char c :: nat) \<and> (of_char c :: nat) \<noteq> 127 \<Longrightarrow> \<not> has_control_byte s"
  by (induction s) (auto simp: has_control_byte_def)

lemma scheme_loop_host: "\<forall>c \<in> set s. host_char c \<Longrightarrow> scheme_loop acc s = Inr None"
  by (induction s arbitrary: acc) (auto simp: host_char_def)

text \<open>A host with an optional port behind a scheme.\<close>

definition port_ok :: "string \<Rightarrow> bool" where
  "port_ok port = (port = [] \<or> (\<exists>ds. port = CHR '':'' # ds \<and> (\<forall>c \<in> set ds. c \<in> set digits)))"

lemma port_chars: "port_ok port \<Longrightarrow> c \<in> set port \<Longrightarrow> host_char c \<or> c = CHR '':''"
  by (auto simp: port_ok_def digit_host_char)

lemma parseHost_plain:
  assumes "\<forall>c \<in> set h. host_char c" "port_ok port"
  shows "parseHost (h @ port) = Inr (h @ port)"
proof -
  have chars: "host_char c \<or> c = CHR '':''" if "c \<in> set (h @ port)" for c
    using that assms(1) port_chars [OF assms(2)] by auto
  have "host_ok (CHR '':'')" by (simp add: host_ok_def letters_def digits_def)
  with chars have plain: "unescape InHost (h @ port) = Inr (h @ port)"
    by (intro unescape_plain) (use host_char_ok host_char_not in blast)
  have "CHR ''['' \<notin> set (h @ port)" using chars by fastforce
  then have "\<not> has_prefix (h @ port) ''[''" by (cases "h @ port") auto
  moreover have "CutLast (CHR '':'') (h @ port) = None \<or> (\<exists>ds. CutLast (CHR '':'') (h @ port) = Some (h, ds) \<and> validOptionalPort (CHR '':'' # ds))"
  proof -
    have h: "CHR '':'' \<notin> set h" using assms(1) by fastforce
    from assms(2) consider "port = []" | ds where "port = CHR '':'' # ds" "\<forall>c \<in> set ds. c \<in> set digits"
      by (auto simp: port_ok_def)
    then show ?thesis
    proof cases
      case 1
      with h show ?thesis by simp
    next
      case (2 ds)
      moreover have "CHR '':'' \<notin> set digits" by (simp add: digits_def)
      ultimately have "CHR '':'' \<notin> set ds" by blast
      with 2 show ?thesis by (auto simp: CutLast_append validOptionalPort_def list_all_iff)
    qed
  qed
  ultimately show ?thesis using plain by (auto simp: parseHost_def)
qed

lemma scheme_loop_letters: "\<forall>c \<in> set s. c \<in> set letters \<Longrightarrow> acc @ s \<noteq> [] \<Longrightarrow> scheme_loop acc (s @ CHR '':'' # r) = Inr (Some (acc @ s, r))"
  by (induction s arbitrary: acc) (auto simp: letters_def digits_def)

lemma parse_rest_authority:
  assumes "CHR ''/'' \<notin> set a" "CHR ''@'' \<notin> set a" "parseHost a = Inr host" "scheme \<noteq> []"
  shows "parse_rest scheme query (''//'' @ a)
    = Inr \<lparr>u_Scheme = scheme, u_Host = host, u_Path = [], u_RawQuery = query, u_Fragment = []\<rparr>"
proof -
  have "drop 2 (''//'' @ a) = a" by (simp add: numeral_2_eq_2)
  with assms show ?thesis by (simp add: parse_rest_def parseAuthority_def Let_def del: append_Cons)
qed

lemma url_Parse_host:
  assumes "\<forall>c \<in> set h. host_char c" "port_ok port" "scheme \<noteq> []" "\<forall>c \<in> set scheme. c \<in> set letters" "ToLower scheme = scheme"
  shows "url_Parse (scheme @ ''://'' @ h @ port)
    = Inr \<lparr>u_Scheme = scheme, u_Host = h @ port, u_Path = [], u_RawQuery = [], u_Fragment = []\<rparr>"
proof -
  let ?u = "scheme @ ''://'' @ h @ port"
  have letter: "host_char c" if "c \<in> set letters" for c using that by (simp add: host_char_def)
  have chars: "host_char c \<or> c = CHR '':'' \<or> c = CHR ''/''" if "c \<in> set ?u" for c
    using that assms(1,4) port_chars [OF assms(2)] letter by auto
  have auth: "host_char c \<or> c = CHR '':''" if "c \<in> set (h @ port)" for c
    using that assms(1) port_chars [OF assms(2)] by auto
  have "CHR ''#'' \<notin> set ?u" "CHR ''?'' \<notin> set ?u" using chars by fastforce+
  have "\<not> has_control_byte ?u" using chars host_char_printable by (intro no_control) fastforce
  have "CHR ''/'' \<notin> set (h @ port)" "CHR ''@'' \<notin> set (h @ port)" using auth by fastforce+
  have sch: "getScheme ?u = Inr (scheme, ''//'' @ h @ port)"
    using scheme_loop_letters [OF assms(4), of "[]" "''//'' @ h @ port"] assms(3) by (simp add: getScheme_def)
  have rest: "parse_rest scheme [] (''//'' @ h @ port)
      = Inr \<lparr>u_Scheme = scheme, u_Host = h @ port, u_Path = [], u_RawQuery = [], u_Fragment = []\<rparr>"
    by (rule parse_rest_authority) (fact | rule parseHost_plain [OF assms(1,2)])+
  have "CHR ''?'' \<notin> set (''//'' @ h @ port)" using \<open>CHR ''?'' \<notin> set ?u\<close> by simp
  then have "parse_reference ?u = Inr \<lparr>u_Scheme = scheme, u_Host = h @ port, u_Path = [], u_RawQuery = [], u_Fragment = []\<rparr>"
    using \<open>\<not> has_control_byte ?u\<close> sch rest assms(3,5) by (auto simp: parse_reference_def)
  then show ?thesis using \<open>CHR ''#'' \<notin> set ?u\<close> by (simp add: url_Parse_def)
qed

lemma url_Parse_bare:
  assumes "\<forall>c \<in> set h. host_char c" "h \<noteq> []"
  shows "url_Parse h = Inr \<lparr>u_Scheme = [], u_Host = [], u_Path = h, u_RawQuery = [], u_Fragment = []\<rparr>"
proof -
  have no: "CHR ''#'' \<notin> set h" "CHR ''?'' \<notin> set h" "CHR ''/'' \<notin> set h" "CHR '':'' \<notin> set h" "CHR ''%'' \<notin> set h" "CHR ''*'' \<notin> set h"
    using assms(1) by fastforce+
  have "\<not> has_control_byte h" using assms(1) host_char_printable by (intro no_control) blast
  moreover have "getScheme h = Inr ([], h)" using scheme_loop_host [OF assms(1)] by (simp add: getScheme_def)
  moreover have "\<not> has_prefix h ''/''" using no assms(2) by (cases h) auto
  moreover have "\<not> has_prefix h ''//''" using no assms(2) by (cases h) auto
  moreover have "unescape Elsewhere h = Inr h" using no by (intro unescape_plain) auto
  ultimately show ?thesis using no
    by (simp add: url_Parse_def parse_reference_def parse_rest_def Let_def ToLower_def)
qed

text \<open>An address that begins with a digit has no scheme, and its colon is not allowed in a path.\<close>

lemma url_Parse_address_port:
  assumes "\<forall>c \<in> set h. host_char c" "h \<noteq> []" "hd h \<in> set digits" "\<forall>c \<in> set ds. c \<in> set digits"
  shows "\<exists>e. url_Parse (h @ CHR '':'' # ds) = Inl e"
proof -
  let ?u = "h @ CHR '':'' # ds"
  have chars: "host_char c \<or> c = CHR '':''" if "c \<in> set ?u" for c
    using that assms(1,4) digit_host_char by auto
  have no: "CHR ''#'' \<notin> set ?u" "CHR ''?'' \<notin> set ?u" "CHR ''/'' \<notin> set ?u" using chars by fastforce+
  have "\<not> has_control_byte ?u" using chars host_char_printable by (intro no_control) fastforce
  moreover have "getScheme ?u = Inr ([], ?u)"
    using assms(2,3) by (cases h) (auto simp: getScheme_def digits_def letters_def)
  moreover have "\<not> has_prefix ?u ''/''" using no(3) by (cases ?u) auto
  moreover have "?u \<noteq> ''*''" by (cases h) auto
  moreover have "Cut (CHR ''#'') ?u = (?u, [])" "Cut (CHR ''?'') ?u = (?u, [])" "Cut (CHR ''/'') ?u = (?u, [])"
    by (rule Cut_none, rule no)+
  ultimately show ?thesis
    by (simp add: url_Parse_def parse_reference_def parse_rest_def ToLower_def)
qed

end
