(* ===== verification/S3_Store.thy ===== *)
theory S3_Store
  imports Buckets Go_Url
begin

text \<open>
  Package \<^verbatim>\<open>s3\<close>: the client on minio-go (\<^verbatim>\<open>s3.go\<close>, \<^verbatim>\<open>read_dir.go\<close>) and the storage provider on it
  (\<^verbatim>\<open>storage.go\<close>). minio-go and the service behind it are the record \<open>minio\<close> of calls on a world \<open>'b\<close>;
  \<open>minio_laws\<close> states what their documentation promises about the contents of buckets. Contexts are
  part of the world.
\<close>

section \<open>The third-party client\<close>

record http_transport =
  tr_ForceAttemptHTTP2 :: bool
  tr_MaxIdleConns :: int
  tr_MaxIdleConnsPerHost :: int
  tr_IdleConnTimeout :: int
  tr_TLSHandshakeTimeout :: int
  tr_ExpectContinueTimeout :: int
  tr_DisableCompression :: bool
  tr_ResponseHeaderTimeout :: int

record minio_options =
  mo_AccessKey :: string
  mo_SecretKey :: string
  mo_Secure :: bool
  mo_Region :: string
  mo_Transport :: http_transport
  mo_PathStyle :: bool

record put_options =
  po_ContentType :: string
  po_ContentEncoding :: string
  po_PartSize :: int
  po_NumThreads :: int

text \<open>\<open>oi_Expires\<close> is the time as \<open>http.TimeFormat\<close> prints it, \<open>None\<close> for the zero time.\<close>

record object_info =
  oi_Key :: string
  oi_Size :: int
  oi_ContentType :: string
  oi_Metadata :: "string \<Rightarrow> string"
  oi_UserMetadata :: "string \<rightharpoonup> string"
  oi_Expires :: "string option"

text \<open>
  The first argument of a call is the bucket. \<open>mn_GetObject\<close> is lazy: it answers with a handle, and
  \<open>mn_Reader\<close> is what reading the handle yields. The channels of listings and of bulk deletions are
  the lists of what they deliver.
\<close>

record ('b, 'h) minio =
  mn_New :: "string \<Rightarrow> minio_options \<Rightarrow> go_error option"
  mn_PutObject :: "string \<Rightarrow> string \<Rightarrow> reader \<Rightarrow> put_options \<Rightarrow> 'b \<Rightarrow> go_error option \<times> 'b"
  mn_RemoveObject :: "string \<Rightarrow> string \<Rightarrow> 'b \<Rightarrow> go_error option \<times> 'b"
  mn_CopyObject :: "string \<Rightarrow> string \<Rightarrow> string \<Rightarrow> 'b \<Rightarrow> go_error option \<times> 'b"
  mn_ComposeObject :: "string \<Rightarrow> string \<Rightarrow> (string \<rightharpoonup> string) \<Rightarrow> string \<Rightarrow> 'b \<Rightarrow> go_error option \<times> 'b"
  mn_ListObjects :: "string \<Rightarrow> string \<Rightarrow> bool \<Rightarrow> 'b \<Rightarrow> (go_error + object_info) list \<times> 'b"
  mn_RemoveObjects :: "string \<Rightarrow> string list \<Rightarrow> 'b \<Rightarrow> (string \<times> go_error) list \<times> 'b"
  mn_GetObject :: "string \<Rightarrow> string \<Rightarrow> (string \<rightharpoonup> string) \<Rightarrow> 'b \<Rightarrow> (go_error + 'h) \<times> 'b"
  mn_HandleStat :: "'h \<Rightarrow> 'b \<Rightarrow> go_error option \<times> 'b"
  mn_Reader :: "'h \<Rightarrow> 'b \<Rightarrow> reader"
  mn_StatObject :: "string \<Rightarrow> string \<Rightarrow> 'b \<Rightarrow> (go_error + object_info) \<times> 'b"
  mn_NewMultipartUpload :: "string \<Rightarrow> string \<Rightarrow> 'b \<Rightarrow> (go_error + string) \<times> 'b"
  mn_PutObjectPart :: "string \<Rightarrow> string \<Rightarrow> string \<Rightarrow> int \<Rightarrow> reader \<Rightarrow> int \<Rightarrow> 'b \<Rightarrow> (go_error + string) \<times> 'b"
  mn_CompleteMultipartUpload :: "string \<Rightarrow> string \<Rightarrow> string \<Rightarrow> (int \<times> string) list \<Rightarrow> 'b \<Rightarrow> go_error option \<times> 'b"
  mn_AbortMultipartUpload :: "string \<Rightarrow> string \<Rightarrow> string \<Rightarrow> 'b \<Rightarrow> go_error option \<times> 'b"
  mn_ErrorResponse :: "go_error \<Rightarrow> string \<times> int"

section \<open>Client and configuration\<close>

abbreviation ErrS3NoChunks :: sentinel where "ErrS3NoChunks \<equiv> InPackage ''s3'' ''ErrNoChunks''"
abbreviation ErrBulkDelete :: sentinel where "ErrBulkDelete \<equiv> InPackage ''s3'' ''ErrBulkDelete''"
abbreviation ErrEmptyDeletePrefix :: sentinel where "ErrEmptyDeletePrefix \<equiv> InPackage ''s3'' ''ErrEmptyDeletePrefix''"
abbreviation ErrEmptyEndpoint :: sentinel where "ErrEmptyEndpoint \<equiv> InPackage ''s3'' ''ErrEmptyEndpoint''"
abbreviation ErrInvalidEndpoint :: sentinel where "ErrInvalidEndpoint \<equiv> InPackage ''s3'' ''ErrInvalidEndpoint''"

definition DefaultUploadPartSize :: int where "DefaultUploadPartSize = 64 * 1024 * 1024"

definition DefaultUploadConcurrency :: int where "DefaultUploadConcurrency = 4"

definition MaxSingleCopySize :: int where "MaxSingleCopySize = 5 * 1024 * 1024 * 1024"

text \<open>
  \<open>s3_mime\<close> is \<open>mime.TypeByExtension\<close>, \<open>s3_json\<close> the JSON text of a list of identifiers, \<open>s3_done\<close> the
  error of the context when the n-th key is handed to a bulk deletion.
\<close>

record 'b s3_config =
  s3_bucketName :: string
  s3_baseDir :: string
  s3_basePublicUrl :: string
  s3_endpoint :: string
  s3_region :: string
  s3_accessKey :: string
  s3_secretKey :: string
  s3_usePathStyle :: bool
  s3_mime :: "string \<Rightarrow> string"
  s3_json :: "string list \<Rightarrow> string"
  s3_done :: "'b \<Rightarrow> nat \<Rightarrow> go_error option"

record 'b s3_state =
  s3_client :: "(string \<times> minio_options) option"
  s3_world :: 'b
  s3_local :: fs

definition s3_getObjectFullName :: "'b s3_config \<Rightarrow> string \<Rightarrow> string" where
  "s3_getObjectFullName c objectName = full_name (s3_baseDir c) objectName"

definition parseEndpoint :: "string \<Rightarrow> go_error + string \<times> bool" where
  "parseEndpoint endpoint =
     (if endpoint = [] then Inl (Atom ErrEmptyEndpoint)
      else case url_Parse endpoint of
             Inl e \<Rightarrow> Inl (Wrap (''s3: parse endpoint '' @ endpoint) [e])
           | Inr parsed \<Rightarrow>
               if u_Host parsed = []
               then (if list_ex (\<lambda>c. c \<in> set ''/?#'') endpoint
                     then Inl (Wrap (''bare host must not contain path/query/fragment: '' @ endpoint) [Atom ErrInvalidEndpoint])
                     else Inr (endpoint, True))
               else if u_Scheme parsed \<noteq> ''http'' \<and> u_Scheme parsed \<noteq> ''https''
               then Inl (Wrap (''scheme must be http or https: '' @ endpoint) [Atom ErrInvalidEndpoint])
               else if u_Path parsed \<noteq> [] \<or> u_RawQuery parsed \<noteq> [] \<or> u_Fragment parsed \<noteq> []
               then Inl (Wrap (''must not contain path/query/fragment: '' @ endpoint) [Atom ErrInvalidEndpoint])
               else Inr (u_Host parsed, u_Scheme parsed = ''https''))"

text \<open>Durations are in nanoseconds.\<close>

definition sourceResponseHeaderTimeout :: int where "sourceResponseHeaderTimeout = 60 * 10 ^ 9"

definition newS3Transport :: http_transport where
  "newS3Transport =
     \<lparr>tr_ForceAttemptHTTP2 = True, tr_MaxIdleConns = 256, tr_MaxIdleConnsPerHost = 16,
      tr_IdleConnTimeout = 90 * 10 ^ 9, tr_TLSHandshakeTimeout = 10 * 10 ^ 9,
      tr_ExpectContinueTimeout = 10 ^ 9, tr_DisableCompression = True,
      tr_ResponseHeaderTimeout = sourceResponseHeaderTimeout\<rparr>"

text \<open>\<open>init\<close> makes the client once; \<open>Close\<close> drops it, so that the next call makes a new one.\<close>

definition s3_init :: "('b, 'h) minio \<Rightarrow> 'b s3_config \<Rightarrow> 'b s3_state \<Rightarrow> go_error option \<times> 'b s3_state" where
  "s3_init mn c s =
     (case s3_client s of
        Some _ \<Rightarrow> (None, s)
      | None \<Rightarrow>
          (case parseEndpoint (s3_endpoint c) of
             Inl e \<Rightarrow> (Some e, s)
           | Inr (host, secure) \<Rightarrow>
               (let opts = \<lparr>mo_AccessKey = s3_accessKey c, mo_SecretKey = s3_secretKey c, mo_Secure = secure,
                            mo_Region = s3_region c, mo_Transport = newS3Transport, mo_PathStyle = s3_usePathStyle c\<rparr>
                in case mn_New mn host opts of
                     Some e \<Rightarrow> (Some (Wrap ''s3: init minio client'' [e]), s)
                   | None \<Rightarrow> (None, s\<lparr>s3_client := Some (host, opts)\<rparr>))))"

definition s3_Close :: "'b s3_state \<Rightarrow> 'b s3_state" where
  "s3_Close s = s\<lparr>s3_client := None\<rparr>"

text \<open>A method: \<open>init\<close>, then calls of the client.\<close>

definition s3_sum ::
  "('b, 'h) minio \<Rightarrow> 'b s3_config \<Rightarrow> ('b \<Rightarrow> (go_error + 'v) \<times> 'b) \<Rightarrow> 'b s3_state \<Rightarrow> (go_error + 'v) \<times> 'b s3_state" where
  "s3_sum mn c body s =
     (case s3_init mn c s of
        (Some e, s1) \<Rightarrow> (Inl e, s1)
      | (None, s1) \<Rightarrow> (case body (s3_world s1) of (r, w) \<Rightarrow> (r, s1\<lparr>s3_world := w\<rparr>)))"

definition s3_err ::
  "('b, 'h) minio \<Rightarrow> 'b s3_config \<Rightarrow> ('b \<Rightarrow> go_error option \<times> 'b) \<Rightarrow> 'b s3_state \<Rightarrow> go_error option \<times> 'b s3_state" where
  "s3_err mn c body s =
     (case s3_init mn c s of
        (Some e, s1) \<Rightarrow> (Some e, s1)
      | (None, s1) \<Rightarrow> (case body (s3_world s1) of (e, w) \<Rightarrow> (e, s1\<lparr>s3_world := w\<rparr>)))"

definition wrap_opt :: "string \<Rightarrow> go_error option \<times> 'w \<Rightarrow> go_error option \<times> 'w" where
  "wrap_opt msg x = (map_option (\<lambda>e. Wrap msg [e]) (fst x), snd x)"

section \<open>Objects\<close>

definition s3_Upload ::
  "('b, 'h) minio \<Rightarrow> 'b s3_config \<Rightarrow> string \<Rightarrow> reader \<Rightarrow> 'b s3_state \<Rightarrow> go_error option \<times> 'b s3_state" where
  "s3_Upload mn c objectName content =
     s3_err mn c (\<lambda>w.
       let full = s3_getObjectFullName c objectName
       in case GetFileMetadataByName (s3_mime c) full of
            Inl e \<Rightarrow> (Some (Wrap (''failed to get metadata for '' @ full) [e]), w)
          | Inr m \<Rightarrow>
              wrap_opt (''s3: upload '' @ full)
                (mn_PutObject mn (s3_bucketName c) full content
                   \<lparr>po_ContentType = md_contentType m, po_ContentEncoding = md_contentEncoding m,
                    po_PartSize = DefaultUploadPartSize, po_NumThreads = DefaultUploadConcurrency\<rparr> w))"

definition s3_UploadFile ::
  "('b, 'h) minio \<Rightarrow> 'b s3_config \<Rightarrow> string \<Rightarrow> string \<Rightarrow> 'b s3_state \<Rightarrow> go_error option \<times> 'b s3_state" where
  "s3_UploadFile mn c objectName filename s =
     (case s3_init mn c s of
        (Some e, s1) \<Rightarrow> (Some e, s1)
      | (None, s1) \<Rightarrow>
          (case os_Open (Join [] filename) (s3_local s1) of
             (Inl e, f) \<Rightarrow> (Some e, s1\<lparr>s3_local := f\<rparr>)
           | (Inr content, f) \<Rightarrow>
               (case s3_Upload mn c objectName content (s1\<lparr>s3_local := f\<rparr>) of
                  (e, s2) \<Rightarrow> (e, s2\<lparr>s3_local := snd (os_Close (s3_local s2))\<rparr>))))"

definition s3_Delete ::
  "('b, 'h) minio \<Rightarrow> 'b s3_config \<Rightarrow> string \<Rightarrow> 'b s3_state \<Rightarrow> go_error option \<times> 'b s3_state" where
  "s3_Delete mn c objectName =
     s3_err mn c (\<lambda>w.
       let full = s3_getObjectFullName c objectName
       in wrap_opt (''s3: delete '' @ full) (mn_RemoveObject mn (s3_bucketName c) full w))"

definition largeCopyMetadata :: "object_info \<Rightarrow> (string \<rightharpoonup> string)" where
  "largeCopyMetadata info =
     (let meta = oi_UserMetadata info;
          meta = (if oi_ContentType info \<noteq> [] then meta(''Content-Type'' \<mapsto> oi_ContentType info) else meta);
          meta = foldl (\<lambda>m h. if oi_Metadata info h \<noteq> [] then m(h \<mapsto> oi_Metadata info h) else m) meta
                   [''Content-Encoding'', ''Content-Disposition'', ''Content-Language'', ''Cache-Control'']
      in case oi_Expires info of Some t \<Rightarrow> meta(''Expires'' \<mapsto> t) | None \<Rightarrow> meta)"

definition copyLarge ::
  "('b, 'h) minio \<Rightarrow> 'b s3_config \<Rightarrow> string \<Rightarrow> string \<Rightarrow> go_error \<Rightarrow> 'b \<Rightarrow> go_error option \<times> 'b" where
  "copyLarge mn c src dst copyErr w =
     (case mn_StatObject mn (s3_bucketName c) src w of
        (Inl e, w1) \<Rightarrow> (Some (Wrap (''s3: copy '' @ src @ '' to '' @ dst) [copyErr]), w1)
      | (Inr info, w1) \<Rightarrow>
          if oi_Size info \<le> MaxSingleCopySize
          then (Some (Wrap (''s3: copy '' @ src @ '' to '' @ dst) [copyErr]), w1)
          else wrap_opt (''s3: multipart copy '' @ src @ '' to '' @ dst)
                 (mn_ComposeObject mn (s3_bucketName c) dst (largeCopyMetadata info) src w1))"

definition s3_Copy ::
  "('b, 'h) minio \<Rightarrow> 'b s3_config \<Rightarrow> string \<Rightarrow> string \<Rightarrow> 'b s3_state \<Rightarrow> go_error option \<times> 'b s3_state" where
  "s3_Copy mn c srcObjectName dstObjectName =
     s3_err mn c (\<lambda>w.
       let src = s3_getObjectFullName c srcObjectName; dst = s3_getObjectFullName c dstObjectName
       in case mn_CopyObject mn (s3_bucketName c) dst src w of
            (None, w1) \<Rightarrow> (None, w1)
          | (Some e, w1) \<Rightarrow> copyLarge mn c src dst e w1)"

text \<open>
  The goroutine of \<open>DeleteDir\<close> hands the keys of the listing to the bulk deletion until the listing
  fails or the context ends.
\<close>

fun hand_over :: "(nat \<Rightarrow> go_error option) \<Rightarrow> nat \<Rightarrow> (go_error + object_info) list \<Rightarrow> string list \<times> go_error option" where
  "hand_over ctx n [] = ([], None)"
| "hand_over ctx n (Inl e # l) = ([], Some e)"
| "hand_over ctx n (Inr info # l) =
     (case ctx n of
        Some e \<Rightarrow> ([], Some e)
      | None \<Rightarrow> (case hand_over ctx (Suc n) l of (ks, e) \<Rightarrow> (oi_Key info # ks, e)))"

definition s3_deletePrefix ::
  "('b, 'h) minio \<Rightarrow> 'b s3_config \<Rightarrow> string \<Rightarrow> 'b \<Rightarrow> go_error option \<times> 'b" where
  "s3_deletePrefix mn c full w =
     (case mn_ListObjects mn (s3_bucketName c) full True w of
        (listing, w1) \<Rightarrow>
          (case hand_over (s3_done c w1) 0 listing of
             (toDelete, listErr) \<Rightarrow>
               (case mn_RemoveObjects mn (s3_bucketName c) toDelete w1 of
                  (errs, w2) \<Rightarrow>
                    (case listErr of
                       Some e \<Rightarrow> (Some (Wrap (''s3: list '' @ full) [e]), w2)
                     | None \<Rightarrow>
                         (case errs of
                            (k, e) # _ \<Rightarrow>
                              (Some (Wrap (''under '' @ full @ '': '' @ show_nat (length errs) @ '' errors, first key='' @ k)
                                      [Atom ErrBulkDelete, e]), w2)
                          | [] \<Rightarrow> (None, w2))))))"

definition s3_DeleteDir ::
  "('b, 'h) minio \<Rightarrow> 'b s3_config \<Rightarrow> string \<Rightarrow> 'b s3_state \<Rightarrow> go_error option \<times> 'b s3_state" where
  "s3_DeleteDir mn c objectName s =
     (if s3_baseDir c = [] \<and> objectName = [] then (Some (Atom ErrEmptyDeletePrefix), s)
      else s3_err mn c (s3_deletePrefix mn c (s3_getObjectFullName c objectName)) s)"

definition s3_Download ::
  "('b, 'h) minio \<Rightarrow> 'b s3_config \<Rightarrow> string \<Rightarrow> 'b s3_state \<Rightarrow> (go_error + reader) \<times> 'b s3_state" where
  "s3_Download mn c objectName =
     s3_sum mn c (\<lambda>w.
       let full = s3_getObjectFullName c objectName
       in case mn_GetObject mn (s3_bucketName c) full [''Accept-Encoding'' \<mapsto> ''gzip''] w of
            (Inl e, w1) \<Rightarrow> (Inl (Wrap (''s3: download '' @ full) [e]), w1)
          | (Inr h, w1) \<Rightarrow>
              (case mn_HandleStat mn h w1 of
                 (Some e, w2) \<Rightarrow> (Inl (Wrap (''s3: download '' @ full) [e]), w2)
               | (None, w2) \<Rightarrow> (Inr (mn_Reader mn h w2), w2)))"

definition s3_DownloadFile ::
  "('b, 'h) minio \<Rightarrow> 'b s3_config \<Rightarrow> string \<Rightarrow> string \<Rightarrow> 'b s3_state \<Rightarrow> go_error option \<times> 'b s3_state" where
  "s3_DownloadFile mn c objectName filename s =
     (case s3_Download mn c objectName s of
        (Inl e, s1) \<Rightarrow> (Some e, s1)
      | (Inr content, s1) \<Rightarrow>
          (case os_Create (Join [] filename) (s3_local s1) of
             (Some e, f) \<Rightarrow> (Some e, s1\<lparr>s3_local := f\<rparr>)
           | (None, f) \<Rightarrow>
               (case io_Copy (Join [] filename) content f of
                  (e, f1) \<Rightarrow> (map_option (\<lambda>x. Wrap ''failed to copy data'' [x]) e, s1\<lparr>s3_local := snd (os_Close f1)\<rparr>))))"

definition isNotFoundErr :: "('b, 'h) minio \<Rightarrow> go_error option \<Rightarrow> bool" where
  "isNotFoundErr mn err =
     (case err of
        None \<Rightarrow> False
      | Some e \<Rightarrow> (case mn_ErrorResponse mn e of (code, status) \<Rightarrow> code = ''NoSuchKey'' \<or> code = ''NotFound'' \<or> status = 404))"

definition s3_FileExists ::
  "('b, 'h) minio \<Rightarrow> 'b s3_config \<Rightarrow> string \<Rightarrow> 'b s3_state \<Rightarrow> (go_error + bool) \<times> 'b s3_state" where
  "s3_FileExists mn c objectName =
     s3_sum mn c (\<lambda>w.
       let full = s3_getObjectFullName c objectName
       in case mn_StatObject mn (s3_bucketName c) full w of
            (Inl e, w1) \<Rightarrow>
              if isNotFoundErr mn (Some e) then (Inr False, w1) else (Inl (Wrap (''s3: head '' @ full) [e]), w1)
          | (Inr info, w1) \<Rightarrow> (Inr True, w1))"

definition s3_GetPublicUrl :: "'b s3_config \<Rightarrow> string \<Rightarrow> go_error + string" where
  "s3_GetPublicUrl c objectName = Inr (s3_basePublicUrl c @ ''/'' @ s3_getObjectFullName c objectName)"

section \<open>Multipart uploads\<close>

definition s3_CreateMultipartUpload ::
  "('b, 'h) minio \<Rightarrow> 'b s3_config \<Rightarrow> string \<Rightarrow> 'b s3_state \<Rightarrow> (go_error + upload) \<times> 'b s3_state" where
  "s3_CreateMultipartUpload mn c objectName =
     s3_sum mn c (\<lambda>w.
       let target = s3_getObjectFullName c objectName
       in case mn_NewMultipartUpload mn (s3_bucketName c) target w of
            (Inl e, w1) \<Rightarrow> (Inl (Wrap (''s3: create multipart for '' @ target) [e]), w1)
          | (Inr uploadID, w1) \<Rightarrow> (Inr (Upload uploadID), w1))"

definition s3_UploadMultipartChunk ::
  "('b, 'h) minio \<Rightarrow> 'b s3_config \<Rightarrow> string \<Rightarrow> upload \<Rightarrow> int \<Rightarrow> reader \<Rightarrow> int \<Rightarrow> 'b s3_state \<Rightarrow> (go_error + chunk) \<times> 'b s3_state" where
  "s3_UploadMultipartChunk mn c objectName up chunkNumber body sz =
     s3_sum mn c (\<lambda>w.
       let target = s3_getObjectFullName c objectName
       in case mn_PutObjectPart mn (s3_bucketName c) target (upload_Id (s3_json c) up) chunkNumber body sz w of
            (Inl e, w1) \<Rightarrow> (Inl (Wrap (''s3: upload-part '' @ show_int chunkNumber @ '' for '' @ target) [e]), w1)
          | (Inr etag, w1) \<Rightarrow> (Inr (Chunk chunkNumber etag), w1))"

definition s3_CompleteMultipartUpload ::
  "('b, 'h) minio \<Rightarrow> 'b s3_config \<Rightarrow> string \<Rightarrow> upload \<Rightarrow> chunk list \<Rightarrow> 'b s3_state \<Rightarrow> go_error option \<times> 'b s3_state" where
  "s3_CompleteMultipartUpload mn c objectName up chunks s =
     (if chunks = [] then (Some (Wrap objectName [Atom ErrS3NoChunks]), s)
      else s3_err mn c (\<lambda>w.
        let target = s3_getObjectFullName c objectName;
            parts = map (\<lambda>ch. (chunk_Number ch, chunk_ETag (s3_json c) ch)) chunks
        in wrap_opt (''s3: complete multipart for '' @ target)
             (mn_CompleteMultipartUpload mn (s3_bucketName c) target (upload_Id (s3_json c) up) parts w)) s)"

definition s3_AbortMultipartUpload ::
  "('b, 'h) minio \<Rightarrow> 'b s3_config \<Rightarrow> string \<Rightarrow> upload \<Rightarrow> 'b s3_state \<Rightarrow> go_error option \<times> 'b s3_state" where
  "s3_AbortMultipartUpload mn c objectName up =
     s3_err mn c (\<lambda>w.
       let target = s3_getObjectFullName c objectName
       in wrap_opt (''s3: abort multipart for '' @ target)
            (mn_AbortMultipartUpload mn (s3_bucketName c) target (upload_Id (s3_json c) up) w))"

section \<open>Directories\<close>

fun entries_from :: "string \<Rightarrow> string set \<Rightarrow> object_info list \<Rightarrow> dir_entry list" where
  "entries_from prefix seen [] = []"
| "entries_from prefix seen (info # infos) =
     (let key = oi_Key info in
      if key = prefix then entries_from prefix seen infos
      else if has_suffix key ''/''
      then (let name = TrimSuffix (TrimPrefix key prefix) ''/''
            in if name = [] \<or> name \<in> seen then entries_from prefix seen infos
               else NewDirEntry name # entries_from prefix (insert name seen) infos)
      else (let name = TrimPrefix key prefix
            in if name = [] then entries_from prefix seen infos
               else NewFileEntry name # entries_from prefix seen infos))"

definition dirEntriesFromObjects :: "object_info list \<Rightarrow> string \<Rightarrow> dir_entry list" where
  "dirEntriesFromObjects infos prefix = entries_from prefix {} infos"

text \<open>The loop over the channel of a listing stops at its first error.\<close>

fun collect_infos :: "string \<Rightarrow> (go_error + object_info) list \<Rightarrow> go_error + object_info list" where
  "collect_infos prefix [] = Inr []"
| "collect_infos prefix (Inl e # l) = Inl (Wrap (''s3: list '' @ prefix) [e])"
| "collect_infos prefix (Inr i # l) = map_sum id (\<lambda>is. i # is) (collect_infos prefix l)"

text \<open>Entries are sorted by name; a file and a directory of one name may come in any order.\<close>

definition s3_ReadDir ::
  "('b, 'h) minio \<Rightarrow> 'b s3_config \<Rightarrow> string \<Rightarrow> 'b s3_state \<Rightarrow> (go_error + dir_entry list) \<times> 'b s3_state" where
  "s3_ReadDir mn c objectName =
     s3_sum mn c (\<lambda>w.
       let prefix = listPrefix (s3_getObjectFullName c objectName)
       in case mn_ListObjects mn (s3_bucketName c) prefix False w of
            (listing, w1) \<Rightarrow>
              (map_sum id (\<lambda>infos. sort_key de_name (dirEntriesFromObjects infos prefix)) (collect_infos prefix listing), w1))"

section \<open>The transport\<close>

text \<open>A response's headers are a map from canonical names; an absent header reads as the empty text.\<close>

abbreviation lastModifiedHeader :: string where "lastModifiedHeader \<equiv> ''Last-Modified''"

definition placeholderLastModified :: string where
  "placeholderLastModified = ''Thu, 01 Jan 1970 00:00:00 GMT''"

definition RoundTrip ::
  "('q \<Rightarrow> 'w \<Rightarrow> (string \<Rightarrow> string) option \<times> go_error option \<times> 'w) \<Rightarrow> ('q \<Rightarrow> string) \<Rightarrow> 'q \<Rightarrow> 'w
   \<Rightarrow> (string \<Rightarrow> string) option \<times> go_error option \<times> 'w" where
  "RoundTrip base method req w =
     (case base req w of
        (resp, Some e, w1) \<Rightarrow> (resp, Some e, w1)
      | (resp, None, w1) \<Rightarrow>
          (map_option (\<lambda>h. if method req = ''GET'' \<and> h lastModifiedHeader = []
                           then h(lastModifiedHeader := placeholderLastModified) else h) resp, None, w1))"

text \<open>Only the missing header of a GET is filled in.\<close>

lemma RoundTrip_headers:
  assumes "RoundTrip base method req w = (Some h, None, w')"
  shows "\<exists>h0. base req w = (Some h0, None, w') \<and> (\<forall>k. k \<noteq> lastModifiedHeader \<longrightarrow> h k = h0 k)
    \<and> (method req = ''GET'' \<longrightarrow> h lastModifiedHeader \<noteq> [])
    \<and> (method req \<noteq> ''GET'' \<or> h0 lastModifiedHeader \<noteq> [] \<longrightarrow> h = h0)"
proof -
  obtain r e w1 where b: "base req w = (r, e, w1)" by (metis surj_pair)
  with assms obtain h0 where "r = Some h0" "e = None" "w1 = w'"
    "h = (if method req = ''GET'' \<and> h0 lastModifiedHeader = [] then h0(lastModifiedHeader := placeholderLastModified) else h0)"
    by (cases e; cases r) (auto simp: RoundTrip_def)
  with b show ?thesis by (auto simp: placeholderLastModified_def)
qed

section \<open>The storage provider\<close>

definition s3_MkDir :: "string \<Rightarrow> 'b s3_state \<Rightarrow> go_error option \<times> 'b s3_state" where
  "s3_MkDir path s = (None, s)"

definition s3_Move ::
  "('b, 'h) minio \<Rightarrow> 'b s3_config \<Rightarrow> string \<Rightarrow> string \<Rightarrow> 'b s3_state \<Rightarrow> go_error option \<times> 'b s3_state" where
  "s3_Move mn c srcPath dstPath s =
     (if srcPath = dstPath then (None, s)
      else case s3_Copy mn c srcPath dstPath s of
             (Some e, s1) \<Rightarrow> (Some e, s1)
           | (None, s1) \<Rightarrow> s3_Delete mn c srcPath s1)"

definition s3_ops :: "('b, 'h) minio \<Rightarrow> 'b s3_config \<Rightarrow> 'b s3_state store_ops" where
  "s3_ops mn c =
     \<lparr>sFileExists = s3_FileExists mn c, sDeleteFile = s3_Delete mn c, sDeleteDir = s3_DeleteDir mn c,
      sWrite = s3_Upload mn c, sReadFile = s3_Download mn c, sReadDir = s3_ReadDir mn c, sMkDir = s3_MkDir,
      sCopy = s3_Copy mn c, sMove = s3_Move mn c, sCreateMultipartUpload = s3_CreateMultipartUpload mn c,
      sUploadMultipartChunk = s3_UploadMultipartChunk mn c,
      sCompleteMultipartUpload = s3_CompleteMultipartUpload mn c,
      sAbortMultipartUpload = s3_AbortMultipartUpload mn c,
      sClose = (\<lambda>s. (None, s3_Close s))\<rparr>"

lemma s3_Move_copies: "sMove (s3_ops mn c) a b = copy_then_delete (s3_ops mn c) a b"
  by (simp add: s3_ops_def s3_Move_def copy_then_delete_def fun_eq_iff split: prod.split option.split)

section \<open>What minio-go promises\<close>

text \<open>
  \<open>contents w\<close> are the objects of the world \<open>w\<close>. No call changes an object it does not name, a call that
  returns no error has its effect, reads and listings change nothing, a status that means \<open>not found\<close>
  is only given for an object that is not there, and a listing without an error is complete.
\<close>

definition minio_objects :: "('b \<Rightarrow> bucket_contents) \<Rightarrow> ('b, 'h) minio \<Rightarrow> bool" where
  "minio_objects obj mn =
     ((\<forall>b k r po w e w'. mn_PutObject mn b k r po w = (e, w') \<longrightarrow>
         keeps obj {(b, k)} w w' \<and> (e = None \<longrightarrow> obj w' (b, k) = Some (rd_bytes r) \<and> read_fault (rd_fault r) = None))
      \<and> (\<forall>b k w e w'. mn_RemoveObject mn b k w = (e, w') \<longrightarrow>
         keeps obj {(b, k)} w w' \<and> (e = None \<longrightarrow> obj w' (b, k) = None))
      \<and> (\<forall>b d s w e w'. mn_CopyObject mn b d s w = (e, w') \<longrightarrow>
         keeps obj {(b, d)} w w' \<and> (e = None \<longrightarrow> obj w (b, s) \<noteq> None \<longrightarrow> obj w' (b, d) = obj w (b, s)))
      \<and> (\<forall>b d m s w e w'. mn_ComposeObject mn b d m s w = (e, w') \<longrightarrow>
         keeps obj {(b, d)} w w' \<and> (e = None \<longrightarrow> obj w (b, s) \<noteq> None \<longrightarrow> obj w' (b, d) = obj w (b, s))))"

definition minio_reads :: "('b \<Rightarrow> bucket_contents) \<Rightarrow> ('b, 'h) minio \<Rightarrow> bool" where
  "minio_reads obj mn =
     ((\<forall>b k w r w'. mn_StatObject mn b k w = (r, w') \<longrightarrow>
         obj w' = obj w \<and> (\<forall>e. r = Inl e \<longrightarrow> isNotFoundErr mn (Some e) \<longrightarrow> obj w (b, k) = None))
      \<and> (\<forall>b k h w r w'. mn_GetObject mn b k h w = (r, w') \<longrightarrow> obj w' = obj w
         \<and> (\<forall>x w2 d. r = Inr x \<longrightarrow> mn_HandleStat mn x w' = (None, w2) \<longrightarrow> obj w (b, k) = Some d \<longrightarrow>
              read_fault (rd_fault (mn_Reader mn x w2)) = None \<longrightarrow> rd_bytes (mn_Reader mn x w2) = d))
      \<and> (\<forall>h w e w'. mn_HandleStat mn h w = (e, w') \<longrightarrow> obj w' = obj w))"

definition listed :: "(go_error + object_info) list \<Rightarrow> string list" where
  "listed l = [oi_Key i. Inr i \<leftarrow> l]"

definition no_error :: "('e + 'v) list \<Rightarrow> bool" where
  "no_error l = list_all (\<lambda>x. case x of Inl _ \<Rightarrow> False | Inr _ \<Rightarrow> True) l"

definition minio_lists :: "('b \<Rightarrow> bucket_contents) \<Rightarrow> ('b, 'h) minio \<Rightarrow> bool" where
  "minio_lists obj mn =
     ((\<forall>b p w l w'. mn_ListObjects mn b p True w = (l, w') \<longrightarrow> obj w' = obj w
         \<and> (\<forall>k \<in> set (listed l). has_prefix k p)
         \<and> (no_error l \<longrightarrow> set (listed l) = {k \<in> keys_of (obj w) b. has_prefix k p}))
      \<and> (\<forall>b p w l w'. mn_ListObjects mn b p False w = (l, w') \<longrightarrow> obj w' = obj w
         \<and> (no_error l \<longrightarrow> distinct (listed l) \<and> set (listed l) = delimited (keys_of (obj w) b) p))
      \<and> (\<forall>b ks w es w'. mn_RemoveObjects mn b ks w = (es, w') \<longrightarrow> keeps obj ({b} \<times> set ks) w w'
         \<and> (es = [] \<longrightarrow> (\<forall>k \<in> set ks. obj w' (b, k) = None))))"

definition minio_laws :: "('b \<Rightarrow> bucket_contents) \<Rightarrow> ('b, 'h) minio \<Rightarrow> bool" where
  "minio_laws obj mn = (minio_objects obj mn \<and> minio_reads obj mn \<and> minio_lists obj mn)"

section \<open>The contract\<close>

lemma s3_sum_run:
  assumes "s3_sum mn c body s = (r, s')"
  shows "s3_world s' = s3_world s \<and> (\<exists>e. r = Inl e) \<or> (r, s3_world s') = body (s3_world s)"
  using assms by (auto simp: s3_sum_def s3_init_def Let_def split: result_splits)

lemma s3_err_run:
  assumes "s3_err mn c body s = (e, s')"
  shows "s3_world s' = s3_world s \<and> e \<noteq> None \<or> (e, s3_world s') = body (s3_world s)"
  using assms by (auto simp: s3_err_def s3_init_def Let_def split: result_splits)

text \<open>The object that a path names in the provider's bucket.\<close>

definition s3_key :: "'b s3_config \<Rightarrow> string \<Rightarrow> string \<times> string" where
  "s3_key c path = (s3_bucketName c, s3_getObjectFullName c path)"

lemma s3_key_inject [simp]: "s3_key c a = s3_key c b \<longleftrightarrow> a = b"
  by (simp add: s3_key_def s3_getObjectFullName_def)

lemma wrap_opt_result: "wrap_opt msg x = (e, w) \<Longrightarrow> \<exists>e0. x = (e0, w) \<and> (e = None) = (e0 = None)"
  by (cases x) (auto simp: wrap_opt_def)

lemma minio_objectsD:
  assumes "minio_laws obj mn"
  shows "mn_PutObject mn b k r po w = (e, w') \<Longrightarrow>
         keeps obj {(b, k)} w w' \<and> (e = None \<longrightarrow> obj w' (b, k) = Some (rd_bytes r) \<and> read_fault (rd_fault r) = None)"
    and "mn_RemoveObject mn b k w = (e, w') \<Longrightarrow> keeps obj {(b, k)} w w' \<and> (e = None \<longrightarrow> obj w' (b, k) = None)"
    and "mn_CopyObject mn b d k w = (e, w') \<Longrightarrow>
         keeps obj {(b, d)} w w' \<and> (e = None \<longrightarrow> obj w (b, k) \<noteq> None \<longrightarrow> obj w' (b, d) = obj w (b, k))"
    and "mn_ComposeObject mn b d m k w = (e, w') \<Longrightarrow>
         keeps obj {(b, d)} w w' \<and> (e = None \<longrightarrow> obj w (b, k) \<noteq> None \<longrightarrow> obj w' (b, d) = obj w (b, k))"
proof -
  note laws = assms [unfolded minio_laws_def, THEN conjunct1, unfolded minio_objects_def]
  show "keeps obj {(b, k)} w w' \<and> (e = None \<longrightarrow> obj w' (b, k) = Some (rd_bytes r) \<and> read_fault (rd_fault r) = None)"
    if "mn_PutObject mn b k r po w = (e, w')"
    by (rule laws [THEN conjunct1, rule_format, OF that])
  show "keeps obj {(b, k)} w w' \<and> (e = None \<longrightarrow> obj w' (b, k) = None)"
    if "mn_RemoveObject mn b k w = (e, w')"
    by (rule laws [THEN conjunct2, THEN conjunct1, rule_format, OF that])
  show "keeps obj {(b, d)} w w' \<and> (e = None \<longrightarrow> obj w (b, k) \<noteq> None \<longrightarrow> obj w' (b, d) = obj w (b, k))"
    if "mn_CopyObject mn b d k w = (e, w')"
    by (rule laws [THEN conjunct2, THEN conjunct2, THEN conjunct1, rule_format, OF that])
  show "keeps obj {(b, d)} w w' \<and> (e = None \<longrightarrow> obj w (b, k) \<noteq> None \<longrightarrow> obj w' (b, d) = obj w (b, k))"
    if "mn_ComposeObject mn b d m k w = (e, w')"
    by (rule laws [THEN conjunct2, THEN conjunct2, THEN conjunct2, rule_format, OF that])
qed

lemma minio_statD:
  assumes "minio_laws obj mn" "mn_StatObject mn b k w = (r, w')"
  shows "obj w' = obj w" "r = Inl e \<Longrightarrow> isNotFoundErr mn (Some e) \<Longrightarrow> obj w (b, k) = None"
proof -
  have "\<forall>b k w r w'. mn_StatObject mn b k w = (r, w') \<longrightarrow>
      obj w' = obj w \<and> (\<forall>e. r = Inl e \<longrightarrow> isNotFoundErr mn (Some e) \<longrightarrow> obj w (b, k) = None)"
    using assms(1) by (simp add: minio_laws_def minio_reads_def)
  with assms(2) show "obj w' = obj w" "r = Inl e \<Longrightarrow> isNotFoundErr mn (Some e) \<Longrightarrow> obj w (b, k) = None" by blast+
qed

lemma minio_getD:
  assumes "minio_laws obj mn" "mn_GetObject mn b k hs w = (r, w')"
  shows "obj w' = obj w"
    "r = Inr x \<Longrightarrow> mn_HandleStat mn x w' = (None, w2) \<Longrightarrow> obj w (b, k) = Some d \<Longrightarrow>
     read_fault (rd_fault (mn_Reader mn x w2)) = None \<Longrightarrow> rd_bytes (mn_Reader mn x w2) = d"
proof -
  have "\<forall>b k h w r w'. mn_GetObject mn b k h w = (r, w') \<longrightarrow> obj w' = obj w
         \<and> (\<forall>x w2 d. r = Inr x \<longrightarrow> mn_HandleStat mn x w' = (None, w2) \<longrightarrow> obj w (b, k) = Some d \<longrightarrow>
              read_fault (rd_fault (mn_Reader mn x w2)) = None \<longrightarrow> rd_bytes (mn_Reader mn x w2) = d)"
    using assms(1) by (simp add: minio_laws_def minio_reads_def)
  with assms(2) show "obj w' = obj w"
    "r = Inr x \<Longrightarrow> mn_HandleStat mn x w' = (None, w2) \<Longrightarrow> obj w (b, k) = Some d \<Longrightarrow>
     read_fault (rd_fault (mn_Reader mn x w2)) = None \<Longrightarrow> rd_bytes (mn_Reader mn x w2) = d" by blast+
qed

lemma minio_listD:
  assumes "minio_laws obj mn"
  shows "mn_ListObjects mn b p True w = (l, w') \<Longrightarrow> obj w' = obj w \<and> (\<forall>k \<in> set (listed l). has_prefix k p)
      \<and> (no_error l \<longrightarrow> set (listed l) = {k \<in> keys_of (obj w) b. has_prefix k p})"
    and "mn_ListObjects mn b p False w = (l, w') \<Longrightarrow> obj w' = obj w
      \<and> (no_error l \<longrightarrow> distinct (listed l) \<and> set (listed l) = delimited (keys_of (obj w) b) p)"
    and "mn_RemoveObjects mn b ks w = (es, w') \<Longrightarrow> keeps obj ({b} \<times> set ks) w w'
      \<and> (es = [] \<longrightarrow> (\<forall>k \<in> set ks. obj w' (b, k) = None))"
proof -
  note lists = conjunct2 [OF conjunct2 [OF assms [unfolded minio_laws_def]], unfolded minio_lists_def]
  show "obj w' = obj w \<and> (\<forall>k \<in> set (listed l). has_prefix k p)
      \<and> (no_error l \<longrightarrow> set (listed l) = {k \<in> keys_of (obj w) b. has_prefix k p})"
    if "mn_ListObjects mn b p True w = (l, w')"
    by (rule lists [THEN conjunct1, THEN spec, THEN spec, THEN spec, THEN spec, THEN spec, THEN mp, OF that])
  show "obj w' = obj w \<and> (no_error l \<longrightarrow> distinct (listed l) \<and> set (listed l) = delimited (keys_of (obj w) b) p)"
    if "mn_ListObjects mn b p False w = (l, w')"
    by (rule lists [THEN conjunct2, THEN conjunct1, THEN spec, THEN spec, THEN spec, THEN spec, THEN spec, THEN mp, OF that])
  show "keeps obj ({b} \<times> set ks) w w' \<and> (es = [] \<longrightarrow> (\<forall>k \<in> set ks. obj w' (b, k) = None))"
    if "mn_RemoveObjects mn b ks w = (es, w')"
    by (rule lists [THEN conjunct2, THEN conjunct2, THEN spec, THEN spec, THEN spec, THEN spec, THEN spec, THEN mp, OF that])
qed

lemma s3_Upload_law:
  assumes "minio_laws obj mn" "s3_Upload mn c p r s = (e, s')"
  shows "keeps obj {s3_key c p} (s3_world s) (s3_world s')
    \<and> (e = None \<longrightarrow> obj (s3_world s') (s3_key c p) = Some (rd_bytes r) \<and> read_fault (rd_fault r) = None)"
proof -
  let ?full = "s3_getObjectFullName c p"
  obtain m where "GetFileMetadataByName (s3_mime c) ?full = Inr m" by (rule GetFileMetadataByName_total)
  with s3_err_run [OF assms(2) [unfolded s3_Upload_def]] consider "s3_world s' = s3_world s" "e \<noteq> None"
    | e0 po where "mn_PutObject mn (s3_bucketName c) ?full r po (s3_world s) = (e0, s3_world s')" "(e = None) = (e0 = None)"
    by (auto simp: Let_def dest!: wrap_opt_result [OF sym])
  then show ?thesis
  proof cases
    case 2
    with minio_objectsD(1) [OF assms(1) 2(1)] show ?thesis by (simp add: s3_key_def)
  qed auto
qed

lemma s3_Delete_law:
  assumes "minio_laws obj mn" "s3_Delete mn c p s = (e, s')"
  shows "keeps obj {s3_key c p} (s3_world s) (s3_world s') \<and> (e = None \<longrightarrow> obj (s3_world s') (s3_key c p) = None)"
  using s3_err_run [OF assms(2) [unfolded s3_Delete_def]] minio_objectsD(2) [OF assms(1)]
  by (auto simp: Let_def s3_key_def dest!: wrap_opt_result [OF sym])

lemma copyLarge_law:
  assumes "minio_laws obj mn" "copyLarge mn c src dst x w = (e, w')"
  shows "keeps obj {(s3_bucketName c, dst)} w w'
    \<and> (e = None \<longrightarrow> obj w (s3_bucketName c, src) \<noteq> None \<longrightarrow> obj w' (s3_bucketName c, dst) = obj w (s3_bucketName c, src))"
proof -
  obtain r w1 where st: "mn_StatObject mn (s3_bucketName c) src w = (r, w1)" by fastforce
  then have "obj w1 = obj w" by (rule minio_statD(1) [OF assms(1)])
  then have same: "keeps obj ks w w' = keeps obj ks w1 w'" "obj w k = obj w1 k" for ks k
    by (simp_all add: keeps_def)
  show ?thesis unfolding same
    using assms(2) st minio_objectsD(4) [OF assms(1)]
    by (auto simp: copyLarge_def keeps_same split: sum.splits if_splits dest!: wrap_opt_result)
qed

lemma s3_Copy_law:
  assumes laws: "minio_laws obj mn" and "s3_Copy mn c a b s = (e, s')"
  shows "keeps obj {s3_key c b} (s3_world s) (s3_world s')
    \<and> (e = None \<longrightarrow> a \<noteq> b \<longrightarrow> obj (s3_world s) (s3_key c a) \<noteq> None \<longrightarrow>
         obj (s3_world s') (s3_key c b) = obj (s3_world s) (s3_key c a))"
proof -
  let ?src = "s3_getObjectFullName c a" and ?dst = "s3_getObjectFullName c b" and ?bk = "s3_bucketName c"
  obtain e1 w1 where cp: "mn_CopyObject mn ?bk ?dst ?src (s3_world s) = (e1, w1)" by fastforce
  have c1: "keeps obj {(?bk, ?dst)} (s3_world s) w1"
    "e1 = None \<longrightarrow> obj (s3_world s) (?bk, ?src) \<noteq> None \<longrightarrow> obj w1 (?bk, ?dst) = obj (s3_world s) (?bk, ?src)"
    using minio_objectsD(3) [OF laws cp] by simp_all
  from s3_err_run [OF assms(2) [unfolded s3_Copy_def]] cp
  consider (failed) "s3_world s' = s3_world s" "e \<noteq> None" | (copied) "e1 = None" "e = None" "s3_world s' = w1"
    | (large) x where "e1 = Some x" "copyLarge mn c ?src ?dst x w1 = (e, s3_world s')"
    by (cases e1) (auto simp: Let_def)
  then show ?thesis
  proof cases
    case (large x)
    note l = copyLarge_law [OF laws large(2)]
    have "obj w1 (?bk, ?src) = obj (s3_world s) (?bk, ?src)" if "a \<noteq> b" "obj (s3_world s) (?bk, ?src) \<noteq> None"
      using c1(1) that by (simp add: keeps_def s3_getObjectFullName_def)
    with l keeps_trans [OF c1(1), of "s3_world s'"] show ?thesis by (auto simp: s3_key_def)
  qed (use c1 in \<open>auto simp: s3_key_def\<close>)
qed

lemma s3_Download_law:
  assumes laws: "minio_laws obj mn" and "s3_Download mn c p s = (x, s')"
  shows "obj (s3_world s') = obj (s3_world s)
    \<and> (\<forall>d r. obj (s3_world s) (s3_key c p) = Some d \<longrightarrow> x = Inr r \<longrightarrow> read_fault (rd_fault r) = None \<longrightarrow> rd_bytes r = d)"
proof -
  obtain g w1 where get: "mn_GetObject mn (s3_bucketName c) (s3_getObjectFullName c p) [''Accept-Encoding'' \<mapsto> ''gzip''] (s3_world s) = (g, w1)"
    by fastforce
  have stat: "obj w2 = obj w1" if "mn_HandleStat mn h w1 = (e, w2)" for h e w2
    using laws that by (auto simp: minio_laws_def minio_reads_def)
  have g: "obj w1 = obj (s3_world s)"
    "\<And>h w2 d. g = Inr h \<Longrightarrow> mn_HandleStat mn h w1 = (None, w2) \<Longrightarrow> obj (s3_world s) (s3_key c p) = Some d \<Longrightarrow>
       read_fault (rd_fault (mn_Reader mn h w2)) = None \<Longrightarrow> rd_bytes (mn_Reader mn h w2) = d"
    using minio_getD [OF laws get] by (simp_all add: s3_key_def)
  from s3_sum_run [OF assms(2) [unfolded s3_Download_def]] get g stat show ?thesis
    by (auto simp: Let_def split: sum.splits prod.splits option.splits)
qed

lemma s3_FileExists_law:
  assumes laws: "minio_laws obj mn" and "s3_FileExists mn c p s = (be, s')"
  shows "obj (s3_world s') = obj (s3_world s) \<and> (be = Inr False \<longrightarrow> obj (s3_world s) (s3_key c p) = None)"
proof -
  obtain r w1 where st: "mn_StatObject mn (s3_bucketName c) (s3_getObjectFullName c p) (s3_world s) = (r, w1)" by fastforce
  have "obj w1 = obj (s3_world s)" "\<And>e. r = Inl e \<Longrightarrow> isNotFoundErr mn (Some e) \<Longrightarrow> obj (s3_world s) (s3_key c p) = None"
    using minio_statD [OF laws st] by (simp_all add: s3_key_def)
  with s3_sum_run [OF assms(2) [unfolded s3_FileExists_def]] st show ?thesis
    by (auto simp: Let_def split: sum.splits if_splits)
qed

lemma s3_object_store:
  assumes "minio_laws obj mn"
  shows "object_store (s3_ops mn c) (\<lambda>_. True) (\<lambda>s. obj (s3_world s)) (s3_key c) (\<lambda>_. True)"
proof
  fix p be s s' assume "sFileExists (s3_ops mn c) p s = (be, s')"
  with s3_FileExists_law [OF assms, of c p s be s']
  show "True \<and> obj (s3_world s') = obj (s3_world s) \<and> (be = Inr False \<longrightarrow> obj (s3_world s) (s3_key c p) = None)"
    by (simp add: s3_ops_def)
next
  fix p e s s' assume "sDeleteFile (s3_ops mn c) p s = (e, s')"
  with s3_Delete_law [OF assms, of c p s e s']
  show "True \<and> keeps (\<lambda>s. obj (s3_world s)) {s3_key c p} s s' \<and> (e = None \<longrightarrow> obj (s3_world s') (s3_key c p) = None)"
    by (simp add: s3_ops_def keeps_def)
next
  fix p r e s s' assume "sWrite (s3_ops mn c) p r s = (e, s')"
  with s3_Upload_law [OF assms, of c p r s e s']
  show "True \<and> keeps (\<lambda>s. obj (s3_world s)) {s3_key c p} s s'
      \<and> (e = None \<longrightarrow> obj (s3_world s') (s3_key c p) = Some (rd_bytes r) \<and> read_fault (rd_fault r) = None)"
    by (simp add: s3_ops_def keeps_def)
next
  fix p x s s' assume "sReadFile (s3_ops mn c) p s = (x, s')"
  with s3_Download_law [OF assms, of c p s x s']
  show "True \<and> obj (s3_world s') = obj (s3_world s)
      \<and> (\<forall>d r. obj (s3_world s) (s3_key c p) = Some d \<longrightarrow> x = Inr r \<longrightarrow> read_fault (rd_fault r) = None \<longrightarrow> rd_bytes r = d)"
    by (simp add: s3_ops_def)
next
  fix a b e s s' assume "sCopy (s3_ops mn c) a b s = (e, s')"
  with s3_Copy_law [OF assms, of c a b s e s']
  show "True \<and> keeps (\<lambda>s. obj (s3_world s)) {s3_key c b} s s'
      \<and> (\<forall>d. e = None \<longrightarrow> s3_key c a \<noteq> s3_key c b \<longrightarrow> obj (s3_world s) (s3_key c a) = Some d \<longrightarrow> obj (s3_world s') (s3_key c b) = Some d)"
    by (auto simp: s3_ops_def keeps_def)
qed

section \<open>Directories: what they list and delete\<close>

lemma entries_from_keys:
  "entry_key ` set (entries_from p seen infos) =
   {x. \<exists>i \<in> set infos. key_entry p (oi_Key i) = Some x \<and> (snd x \<longrightarrow> fst x \<notin> seen)}"
proof (induction infos arbitrary: seen)
  case (Cons i infos)
  consider (itself) "oi_Key i = p" | (folder) "oi_Key i \<noteq> p" "has_suffix (oi_Key i) ''/''"
    | (leaf) "oi_Key i \<noteq> p" "\<not> has_suffix (oi_Key i) ''/''" by blast
  then show ?case
  proof cases
    case folder
    with Cons.IH show ?thesis by (auto simp: key_entry_def Let_def split: if_splits)
  next
    case leaf
    with Cons.IH show ?thesis by (auto simp: key_entry_def Let_def split: if_splits)
  qed (auto simp: key_entry_def Cons.IH)
qed simp

text \<open>A directory that is listed twice is shown once.\<close>

lemma entries_from_dirs: "distinct (map de_name (filter de_isDir (entries_from p seen infos)))
  \<and> (\<forall>e \<in> set (entries_from p seen infos). de_isDir e \<longrightarrow> de_name e \<notin> seen)"
proof (induction infos arbitrary: seen)
  case (Cons i infos)
  let ?n = "TrimSuffix (TrimPrefix (oi_Key i) p) ''/''"
  consider (skip) "entries_from p seen (i # infos) = entries_from p seen infos"
    | (folder) "entries_from p seen (i # infos) = NewDirEntry ?n # entries_from p (insert ?n seen) infos" "?n \<notin> seen"
    | (leaf) n where "entries_from p seen (i # infos) = NewFileEntry n # entries_from p seen infos"
    by (cases "oi_Key i = p"; cases "has_suffix (oi_Key i) ''/''"; cases "?n = [] \<or> ?n \<in> seen";
        cases "TrimPrefix (oi_Key i) p = []") (simp_all add: Let_def del: disj_not1)
  then show ?case
  proof cases
    case folder
    with Cons.IH [of "insert ?n seen"] show ?thesis by (auto simp: NewDirEntry_def)
  qed (use Cons.IH [of seen] in \<open>auto simp: NewFileEntry_def\<close>)
qed simp

lemma listed_simps [simp]:
  "listed [] = []" "listed (Inl e # l) = listed l" "listed (Inr i # l) = oi_Key i # listed l"
  by (simp_all add: listed_def)

lemma no_error_simps [simp]:
  "no_error []" "\<not> no_error (Inl e # l)" "no_error (Inr i # l) = no_error l"
  by (simp_all add: no_error_def)

lemma collect_infos_ok:
  "collect_infos p l = Inr infos \<Longrightarrow> no_error l \<and> map oi_Key infos = listed l"
  by (induction p l arbitrary: infos rule: collect_infos.induct) (auto simp: map_sum_def split: sum.splits)

lemma s3_ReadDir_children:
  assumes laws: "minio_laws obj mn" and "s3_ReadDir mn c p s = (Inr es, s')"
  shows "entry_key ` set es = children (keys_of (obj (s3_world s)) (s3_bucketName c)) (listPrefix (s3_getObjectFullName c p))
         \<and> sorted (map de_name es) \<and> obj (s3_world s') = obj (s3_world s)"
proof -
  let ?p = "listPrefix (s3_getObjectFullName c p)" and ?K = "keys_of (obj (s3_world s)) (s3_bucketName c)"
  obtain l w1 where ls: "mn_ListObjects mn (s3_bucketName c) ?p False (s3_world s) = (l, w1)" by fastforce
  have l: "obj w1 = obj (s3_world s)" "no_error l \<Longrightarrow> set (listed l) = delimited ?K ?p"
    using minio_listD(2) [OF laws ls] by simp_all
  from s3_sum_run [OF assms(2) [unfolded s3_ReadDir_def]] ls obtain infos where
    i: "collect_infos ?p l = Inr infos" "es = sort_key de_name (dirEntriesFromObjects infos ?p)" "s3_world s' = w1"
    by (auto simp: Let_def map_sum_def split: sum.splits)
  note ok = collect_infos_ok [OF i(1)]
  have "oi_Key ` set infos = set (listed l)" using ok by (metis list.set_map)
  with l(2) ok have keys: "oi_Key ` set infos = delimited ?K ?p" by simp
  have "entry_key ` set es = {x. \<exists>k \<in> oi_Key ` set infos. key_entry ?p k = Some x}"
    by (simp add: i(2) dirEntriesFromObjects_def entries_from_keys)
  with keys i l(1) show ?thesis by (simp add: delimited_children)
qed



section \<open>An example service\<close>

definition example_minio :: "(bucket_files, string \<times> string) minio" where
  "example_minio =
     \<lparr>mn_New = (\<lambda>host opts. None),
      mn_PutObject = (\<lambda>b k r po w. case read_fault (rd_fault r) of
         Some e \<Rightarrow> (Some e, w) | None \<Rightarrow> (None, AList.update (b, k) (rd_bytes r) w)),
      mn_RemoveObject = (\<lambda>b k w. (None, AList.delete (b, k) w)),
      mn_CopyObject = (\<lambda>b d s w. case map_of w (b, s) of
         None \<Rightarrow> (Some (Atom (ErrExternal 404)), w) | Some x \<Rightarrow> (None, AList.update (b, d) x w)),
      mn_ComposeObject = (\<lambda>b d m s w. case map_of w (b, s) of
         None \<Rightarrow> (Some (Atom (ErrExternal 404)), w) | Some x \<Rightarrow> (None, AList.update (b, d) x w)),
      mn_ListObjects = (\<lambda>b p rec w. (map (\<lambda>k. Inr \<lparr>oi_Key = k, oi_Size = 0, oi_ContentType = [], oi_Metadata = (\<lambda>_. []),
         oi_UserMetadata = Map.empty, oi_Expires = None\<rparr>) (bucket_listing b p rec w), w)),
      mn_RemoveObjects = (\<lambda>b ks w. ([], fold (\<lambda>k. AList.delete (b, k)) ks w)),
      mn_GetObject = (\<lambda>b k h w. (Inr (b, k), w)),
      mn_HandleStat = (\<lambda>h w. (if map_of w h = None then Some (Atom (ErrExternal 404)) else None, w)),
      mn_Reader = (\<lambda>h w. \<lparr>rd_bytes = the (map_of w h), rd_fault = None\<rparr>),
      mn_StatObject = (\<lambda>b k w. case map_of w (b, k) of
         None \<Rightarrow> (Inl (Atom (ErrExternal 404)), w)
       | Some x \<Rightarrow> (Inr \<lparr>oi_Key = k, oi_Size = int (length x), oi_ContentType = [], oi_Metadata = (\<lambda>_. []),
                        oi_UserMetadata = Map.empty, oi_Expires = None\<rparr>, w)),
      mn_NewMultipartUpload = (\<lambda>b k w. (Inr ''1'', w)),
      mn_PutObjectPart = (\<lambda>b k i n r sz w. (Inr [], w)),
      mn_CompleteMultipartUpload = (\<lambda>b k i ps w. (Some (Atom (ErrExternal 501)), w)),
      mn_AbortMultipartUpload = (\<lambda>b k i w. (None, w)),
      mn_ErrorResponse = (\<lambda>e. if e = Atom (ErrExternal 404) then (''NoSuchKey'', 404) else ([], 0))\<rparr>"

definition example_s3 :: "bucket_files s3_config" where
  "example_s3 =
     \<lparr>s3_bucketName = ''b'', s3_baseDir = ''d'', s3_basePublicUrl = ''https://cdn'', s3_endpoint = ''s3.local'',
      s3_region = ''eu'', s3_accessKey = [], s3_secretKey = [], s3_usePathStyle = True, s3_mime = (\<lambda>_. []),
      s3_json = concat, s3_done = (\<lambda>w n. None)\<rparr>"

lemma fold_delete_objects: "map_of (fold (\<lambda>k. AList.delete (b, k)) ks w) = (\<lambda>k. if k \<in> {b} \<times> set ks then None else map_of w k)"
  by (induction ks arbitrary: w) (auto simp: map_of_delete fun_eq_iff)

lemma listed_map: "listed (map (\<lambda>k. Inr (f k)) ks) = map (\<lambda>k. oi_Key (f k)) ks"
  by (induction ks) auto


lemma example_minio_objects: "minio_objects map_of example_minio"
  by (auto simp: minio_objects_def example_minio_def keeps_def map_of_update map_of_delete split: option.splits)

lemma example_minio_reads: "minio_reads map_of example_minio"
  by (auto simp: minio_reads_def example_minio_def isNotFoundErr_def split: option.splits)

lemma example_minio_lists: "minio_lists map_of example_minio"
  unfolding minio_lists_def
proof (intro conjI allI impI)
qed (auto simp: example_minio_def listed_map set_bucket_listing keeps_def fold_delete_objects)

lemma example_minio_laws: "minio_laws map_of example_minio"
  by (simp add: minio_laws_def example_minio_objects example_minio_reads example_minio_lists)

section \<open>Properties\<close>

text \<open>C25: over a service that keeps the promises of minio-go, the provider on S3 is an object store: an
  operation that reports success has its effect on the one key that the path names, and no operation,
  failed or not, changes another object, in this bucket or another.\<close>

theorem s3_keeps_contract:
  assumes "minio_laws obj mn"
  shows "object_store (s3_ops mn c) (\<lambda>_. True) (\<lambda>s. obj (s3_world s)) (s3_key c) (\<lambda>_. True)"
  by (rule s3_object_store [OF assms])

theorem s3_keeps_contract_witness:
  "object_store (s3_ops example_minio example_s3) (\<lambda>_. True) (\<lambda>s. map_of (s3_world s)) (s3_key example_s3) (\<lambda>_. True)"
  by (rule s3_keeps_contract [OF example_minio_laws])

text \<open>Moving an object on S3 never loses it: whatever fails, its content is still at the source or
  already at the destination, every other object stays, and after success it is at the destination
  only; a move onto itself does nothing.\<close>

lemma s3_move_safe:
  assumes "minio_laws obj mn" "obj (s3_world s) (s3_key c a) = Some d" "s3_Move mn c a b s = (e, s')"
  shows "(obj (s3_world s') (s3_key c a) = Some d \<or> obj (s3_world s') (s3_key c b) = Some d)
    \<and> (\<forall>k x. k \<notin> {s3_key c a, s3_key c b} \<longrightarrow> obj (s3_world s) k = Some x \<longrightarrow> obj (s3_world s') k = Some x)
    \<and> (e = None \<longrightarrow> obj (s3_world s') (s3_key c b) = Some d \<and> (a \<noteq> b \<longrightarrow> obj (s3_world s') (s3_key c a) = None))"
proof (cases "a = b")
  case True
  with assms(2,3) show ?thesis by (simp add: s3_Move_def)
next
  case False
  have "copy_then_delete (s3_ops mn c) a b s = (e, s')"
    using assms(3) s3_Move_copies [of mn c a b] by (simp add: s3_ops_def)
  from object_store.copy_then_delete_safe [OF s3_object_store [OF assms(1)] _ _ _ _ assms(2) this] False
  show ?thesis by (auto simp: keeps_def)
qed

lemma s3_move_safe_witness:
  "\<exists>s'. s3_Move example_minio example_s3 ''x'' ''y'' \<lparr>s3_client = None, s3_world = [((''b'', ''d/x''), ''42'')], s3_local = undefined\<rparr>
        = (None, s') \<and> map_of (s3_world s') (''b'', ''d/y'') = Some ''42'' \<and> map_of (s3_world s') (''b'', ''d/x'') = None"
proof -
  let ?s = "\<lparr>s3_client = None, s3_world = [((''b'', ''d/x''), ''42'')], s3_local = undefined\<rparr>"
  obtain e s' where run: "s3_Move example_minio example_s3 ''x'' ''y'' ?s = (e, s')" by fastforce
  have bare: "parseEndpoint ''s3.local'' = Inr (''s3.local'', True)" by code_simp
  have key: "s3_key example_s3 ''x'' = (''b'', ''d/x'')" "s3_key example_s3 ''y'' = (''b'', ''d/y'')"
    by (simp_all add: s3_key_def s3_getObjectFullName_def full_name_def example_s3_def)
  have "e = None"
    using run by (simp add: s3_Move_def s3_Copy_def s3_Delete_def s3_err_def s3_init_def bare example_s3_def example_minio_def
        s3_getObjectFullName_def full_name_def Let_def wrap_opt_def split: prod.splits)
  with s3_move_safe [OF example_minio_laws _ run] run key show ?thesis by simp
qed

text \<open>Which endpoints the client accepts. A host name is taken as it is and means https; with a scheme
  the scheme decides, and an optional port stays in the host. But an address that begins with a digit
  and has a port, such as \<open>127.0.0.1:9000\<close>, is refused without a scheme.\<close>

lemma s3_endpoint_forms:
  assumes "h \<noteq> []" "\<forall>c \<in> set h. host_char c" "port_ok port"
  shows "parseEndpoint h = Inr (h, True)
    \<and> parseEndpoint (''https://'' @ h @ port) = Inr (h @ port, True)
    \<and> parseEndpoint (''http://'' @ h @ port) = Inr (h @ port, False)
    \<and> (hd h \<in> set digits \<and> port \<noteq> [] \<longrightarrow> (\<exists>e. parseEndpoint (h @ port) = Inl e))"
proof (intro conjI impI)
  have "\<not> list_ex (\<lambda>c. c \<in> set ''/?#'') h" using assms(2) by (auto simp: list_ex_iff)
  then show "parseEndpoint h = Inr (h, True)"
    using assms(1) url_Parse_bare [OF assms(2,1)] by (simp add: parseEndpoint_def)
  have "\<forall>c \<in> set ''https''. c \<in> set letters" "\<forall>c \<in> set ''http''. c \<in> set letters"
    "ToLower ''https'' = ''https''" "ToLower ''http'' = ''http''" by code_simp+
  then have "url_Parse (''https'' @ ''://'' @ h @ port) = Inr \<lparr>u_Scheme = ''https'', u_Host = h @ port, u_Path = [], u_RawQuery = [], u_Fragment = []\<rparr>"
    "url_Parse (''http'' @ ''://'' @ h @ port) = Inr \<lparr>u_Scheme = ''http'', u_Host = h @ port, u_Path = [], u_RawQuery = [], u_Fragment = []\<rparr>"
    by (intro url_Parse_host [OF assms(2,3)]; simp)+
  then show "parseEndpoint (''https://'' @ h @ port) = Inr (h @ port, True)"
    "parseEndpoint (''http://'' @ h @ port) = Inr (h @ port, False)"
    using assms(1) by (simp_all add: parseEndpoint_def)
next
  assume d: "hd h \<in> set digits \<and> port \<noteq> []"
  with assms(3) obtain ds where "port = CHR '':'' # ds" "\<forall>c \<in> set ds. c \<in> set digits" by (auto simp: port_ok_def)
  with url_Parse_address_port [OF assms(2,1)] d obtain e where "url_Parse (h @ port) = Inl e" by blast
  with assms(1) show "\<exists>e. parseEndpoint (h @ port) = Inl e" by (simp add: parseEndpoint_def)
qed

theorem s3_endpoint_forms_witness:
  "parseEndpoint ''http://127.0.0.1:9000'' = Inr (''127.0.0.1:9000'', False) \<and> (\<exists>e. parseEndpoint ''127.0.0.1:9000'' = Inl e)"
  using s3_endpoint_forms [of "''127.0.0.1''" "'':9000''"]
  by (simp add: host_char_def digits_def letters_def port_ok_def)



end
