(* ===== verification/Gcs_Store.thy ===== *)
theory Gcs_Store
  imports S3_Store
begin

text \<open>
  Package \<^verbatim>\<open>gcs\<close>: the client on Google's storage SDK (\<^verbatim>\<open>gcs.go\<close>, \<^verbatim>\<open>read_dir.go\<close>) and the storage provider on
  it (\<^verbatim>\<open>storage.go\<close>). The SDK and the service are the record \<open>gcs_sdk\<close> of calls on a world; \<open>gcs_laws\<close>
  states what their documentation promises. Multipart uploads are made of part objects that are
  composed, at most 32 at a time.
\<close>

section \<open>The third-party SDK\<close>

record gcs_retryer =
  gr_always :: bool
  gr_classify :: "go_error option \<Rightarrow> bool"
  gr_maxAttempts :: int

record gcs_writer =
  gw_bucket :: string
  gw_object :: string
  gw_retryer :: "gcs_retryer option"
  gw_ContentType :: string
  gw_ContentEncoding :: string

record object_attrs =
  ga_Name :: string
  ga_Prefix :: string
  ga_Size :: int

text \<open>
  \<open>gc_WriterCopy\<close> is \<open>io.Copy\<close> into a writer, \<open>gc_WriterClose\<close> its \<open>Close\<close>, told whether the writer's context
  was cancelled before. The iterator of a listing is the list of what its \<open>Next\<close> returns before
  \<open>iterator.Done\<close>.
\<close>

record 'b gcs_sdk =
  gc_NewClient :: "string \<Rightarrow> 'b \<Rightarrow> go_error option \<times> 'b"
  gc_ClientClose :: "'b \<Rightarrow> go_error option \<times> 'b"
  gc_WriterCopy :: "gcs_writer \<Rightarrow> reader \<Rightarrow> 'b \<Rightarrow> go_error option \<times> 'b"
  gc_WriterClose :: "gcs_writer \<Rightarrow> bool \<Rightarrow> 'b \<Rightarrow> go_error option \<times> 'b"
  gc_Delete :: "string \<Rightarrow> string \<Rightarrow> 'b \<Rightarrow> go_error option \<times> 'b"
  gc_CopyRun :: "string \<Rightarrow> string \<Rightarrow> string \<Rightarrow> 'b \<Rightarrow> go_error option \<times> 'b"
  gc_ComposeRun :: "string \<Rightarrow> string \<Rightarrow> string list \<Rightarrow> 'b \<Rightarrow> go_error option \<times> 'b"
  gc_NewReader :: "string \<Rightarrow> string \<Rightarrow> bool \<Rightarrow> 'b \<Rightarrow> (go_error + reader) \<times> 'b"
  gc_Attrs :: "string \<Rightarrow> string \<Rightarrow> 'b \<Rightarrow> (go_error + object_attrs) \<times> 'b"
  gc_Objects :: "string \<Rightarrow> string \<Rightarrow> string \<Rightarrow> 'b \<Rightarrow> (go_error + object_attrs) list \<times> 'b"
  gc_ShouldRetry :: "go_error \<Rightarrow> bool"
  gc_StreamError :: "go_error \<Rightarrow> bool"

abbreviation ErrObjectNotExist :: sentinel where "ErrObjectNotExist \<equiv> InPackage ''cloud.google.com/go/storage'' ''ErrObjectNotExist''"

section \<open>Client and configuration\<close>

abbreviation ErrGcsNoChunks :: sentinel where "ErrGcsNoChunks \<equiv> InPackage ''gcs'' ''ErrNoChunks''"

definition gcsMaxComposeSources :: nat where "gcsMaxComposeSources = 32"

definition multipartPartsSuffix :: string where "multipartPartsSuffix = ''.parts''"

definition uploadMaxRetryAttempts :: int where "uploadMaxRetryAttempts = 4"

text \<open>\<open>gs_uuid\<close> is \<open>uuid.New\<close>.\<close>

record 'b gcs_config =
  gs_credentialsFilename :: string
  gs_name :: string
  gs_bucketName :: string
  gs_baseDir :: string
  gs_basePublicUrl :: string
  gs_uploadRetry :: bool
  gs_mime :: "string \<Rightarrow> string"
  gs_json :: "string list \<Rightarrow> string"
  gs_uuid :: "'b \<Rightarrow> string \<times> 'b"

record 'b gcs_state =
  gs_client :: bool
  gs_world :: 'b
  gs_local :: fs

definition WithUploadRetry :: "'b gcs_config \<Rightarrow> 'b gcs_config" where
  "WithUploadRetry c = c\<lparr>gs_uploadRetry := True\<rparr>"

definition gcs_NewClient ::
  "(string \<Rightarrow> string) \<Rightarrow> (string list \<Rightarrow> string) \<Rightarrow> ('b \<Rightarrow> string \<times> 'b) \<Rightarrow> string \<Rightarrow> string \<Rightarrow> string \<Rightarrow> string \<Rightarrow> string
   \<Rightarrow> ('b gcs_config \<Rightarrow> 'b gcs_config) list \<Rightarrow> 'b gcs_config" where
  "gcs_NewClient mime json uuid credentialsFilename name bucketName baseDir basePublicUrl opts =
     foldl (\<lambda>c opt. opt c)
       \<lparr>gs_credentialsFilename = credentialsFilename, gs_name = name, gs_bucketName = bucketName,
        gs_baseDir = baseDir, gs_basePublicUrl = basePublicUrl, gs_uploadRetry = False, gs_mime = mime,
        gs_json = json, gs_uuid = uuid\<rparr> opts"

definition gcs_getObjectFullName :: "'b gcs_config \<Rightarrow> string \<Rightarrow> string" where
  "gcs_getObjectFullName c objectName = full_name (gs_baseDir c) objectName"

definition gcs_init :: "'b gcs_sdk \<Rightarrow> 'b gcs_config \<Rightarrow> 'b gcs_state \<Rightarrow> go_error option \<times> 'b gcs_state" where
  "gcs_init g c s =
     (if gs_client s then (None, s)
      else case gc_NewClient g (gs_credentialsFilename c) (gs_world s) of
             (Some e, w) \<Rightarrow> (Some e, s\<lparr>gs_world := w\<rparr>)
           | (None, w) \<Rightarrow> (None, s\<lparr>gs_world := w, gs_client := True\<rparr>))"

text \<open>\<open>Close\<close> closes the client but keeps it: calls that follow use a closed client.\<close>

definition gcs_Close :: "'b gcs_sdk \<Rightarrow> 'b gcs_state \<Rightarrow> 'b gcs_state" where
  "gcs_Close g s = (if gs_client s then s\<lparr>gs_world := snd (gc_ClientClose g (gs_world s))\<rparr> else s)"

lemma gcs_closed_client_stays: "gs_client s \<Longrightarrow> gcs_init g c (gcs_Close g s) = (None, gcs_Close g s) \<and> gs_client (gcs_Close g s)"
  by (simp add: gcs_init_def gcs_Close_def)

definition gcs_sum ::
  "'b gcs_sdk \<Rightarrow> 'b gcs_config \<Rightarrow> ('b \<Rightarrow> (go_error + 'v) \<times> 'b) \<Rightarrow> 'b gcs_state \<Rightarrow> (go_error + 'v) \<times> 'b gcs_state" where
  "gcs_sum g c body s =
     (case gcs_init g c s of
        (Some e, s1) \<Rightarrow> (Inl e, s1)
      | (None, s1) \<Rightarrow> (case body (gs_world s1) of (r, w) \<Rightarrow> (r, s1\<lparr>gs_world := w\<rparr>)))"

definition gcs_err ::
  "'b gcs_sdk \<Rightarrow> 'b gcs_config \<Rightarrow> ('b \<Rightarrow> go_error option \<times> 'b) \<Rightarrow> 'b gcs_state \<Rightarrow> go_error option \<times> 'b gcs_state" where
  "gcs_err g c body s =
     (case gcs_init g c s of
        (Some e, s1) \<Rightarrow> (Some e, s1)
      | (None, s1) \<Rightarrow> (case body (gs_world s1) of (e, w) \<Rightarrow> (e, s1\<lparr>gs_world := w\<rparr>)))"

section \<open>Objects\<close>

definition isRetryableGcsErr :: "'b gcs_sdk \<Rightarrow> go_error option \<Rightarrow> bool" where
  "isRetryableGcsErr g err =
     (case err of
        None \<Rightarrow> False
      | Some e \<Rightarrow>
          if err_is e ContextCanceled \<or> err_is e ContextDeadlineExceeded then False
          else if gc_ShouldRetry g e then True
          else gc_StreamError g e)"

text \<open>The writer of an upload: with the retryer if it was asked for, and with the headers that are known.\<close>

definition upload_writer :: "'b gcs_sdk \<Rightarrow> 'b gcs_config \<Rightarrow> string \<Rightarrow> metadata \<Rightarrow> gcs_writer" where
  "upload_writer g c full m =
     \<lparr>gw_bucket = gs_bucketName c, gw_object = full,
      gw_retryer =
        (if gs_uploadRetry c
         then Some \<lparr>gr_always = True, gr_classify = isRetryableGcsErr g, gr_maxAttempts = uploadMaxRetryAttempts\<rparr>
         else None),
      gw_ContentType = (if md_contentType m \<noteq> [] then md_contentType m else []),
      gw_ContentEncoding = (if md_contentEncoding m \<noteq> [] then md_contentEncoding m else [])\<rparr>"

definition gcs_Upload ::
  "'b gcs_sdk \<Rightarrow> 'b gcs_config \<Rightarrow> string \<Rightarrow> reader \<Rightarrow> 'b gcs_state \<Rightarrow> go_error option \<times> 'b gcs_state" where
  "gcs_Upload g c objectName content =
     gcs_err g c (\<lambda>w.
       let full = gcs_getObjectFullName c objectName
       in case GetFileMetadataByName (gs_mime c) full of
            Inl e \<Rightarrow> (Some (Wrap (''failed to get metadata for '' @ full) [e]), w)
          | Inr m \<Rightarrow>
              (let writer = upload_writer g c full m
               in case gc_WriterCopy g writer content w of
                    (Some e, w1) \<Rightarrow> (Some e, snd (gc_WriterClose g writer True w1))
                  | (None, w1) \<Rightarrow> wrap_opt (''failed to close writer for '' @ full) (gc_WriterClose g writer False w1)))"

definition gcs_UploadFile ::
  "'b gcs_sdk \<Rightarrow> 'b gcs_config \<Rightarrow> string \<Rightarrow> string \<Rightarrow> 'b gcs_state \<Rightarrow> go_error option \<times> 'b gcs_state" where
  "gcs_UploadFile g c objectName filename s =
     (case gcs_init g c s of
        (Some e, s1) \<Rightarrow> (Some e, s1)
      | (None, s1) \<Rightarrow>
          (case os_Open (Join [] filename) (gs_local s1) of
             (Inl e, f) \<Rightarrow> (Some e, s1\<lparr>gs_local := f\<rparr>)
           | (Inr content, f) \<Rightarrow>
               (case gcs_Upload g c objectName content (s1\<lparr>gs_local := f\<rparr>) of
                  (e, s2) \<Rightarrow> (e, s2\<lparr>gs_local := snd (os_Close (gs_local s2))\<rparr>))))"

text \<open>The loop of \<open>DeleteDir\<close> deletes one object after the other and stops at the first error.\<close>

fun delete_each :: "'b gcs_sdk \<Rightarrow> string \<Rightarrow> (go_error + object_attrs) list \<Rightarrow> 'b \<Rightarrow> go_error option \<times> 'b" where
  "delete_each g bucket [] w = (None, w)"
| "delete_each g bucket (Inl e # l) w = (Some e, w)"
| "delete_each g bucket (Inr a # l) w =
     (case gc_Delete g bucket (ga_Name a) w of
        (Some e, w1) \<Rightarrow> (Some e, w1)
      | (None, w1) \<Rightarrow> delete_each g bucket l w1)"

definition gcs_DeleteDir ::
  "'b gcs_sdk \<Rightarrow> 'b gcs_config \<Rightarrow> string \<Rightarrow> 'b gcs_state \<Rightarrow> go_error option \<times> 'b gcs_state" where
  "gcs_DeleteDir g c objectName =
     gcs_err g c (\<lambda>w.
       case gc_Objects g (gs_bucketName c) (gcs_getObjectFullName c objectName) [] w of
         (l, w1) \<Rightarrow> delete_each g (gs_bucketName c) l w1)"

definition gcs_Delete ::
  "'b gcs_sdk \<Rightarrow> 'b gcs_config \<Rightarrow> string \<Rightarrow> 'b gcs_state \<Rightarrow> go_error option \<times> 'b gcs_state" where
  "gcs_Delete g c objectName = gcs_err g c (gc_Delete g (gs_bucketName c) (gcs_getObjectFullName c objectName))"

definition gcs_Copy ::
  "'b gcs_sdk \<Rightarrow> 'b gcs_config \<Rightarrow> string \<Rightarrow> string \<Rightarrow> 'b gcs_state \<Rightarrow> go_error option \<times> 'b gcs_state" where
  "gcs_Copy g c src dst =
     gcs_err g c (\<lambda>w. wrap_opt (''gcs: copy '' @ src @ '' to '' @ dst)
       (gc_CopyRun g (gs_bucketName c) (gcs_getObjectFullName c dst) (gcs_getObjectFullName c src) w))"

definition gcs_Download ::
  "'b gcs_sdk \<Rightarrow> 'b gcs_config \<Rightarrow> string \<Rightarrow> 'b gcs_state \<Rightarrow> (go_error + reader) \<times> 'b gcs_state" where
  "gcs_Download g c objectName = gcs_sum g c (gc_NewReader g (gs_bucketName c) (gcs_getObjectFullName c objectName) True)"

definition gcs_DownloadFile ::
  "'b gcs_sdk \<Rightarrow> 'b gcs_config \<Rightarrow> string \<Rightarrow> string \<Rightarrow> 'b gcs_state \<Rightarrow> go_error option \<times> 'b gcs_state" where
  "gcs_DownloadFile g c objectName filename s =
     (case gcs_Download g c objectName s of
        (Inl e, s1) \<Rightarrow> (Some e, s1)
      | (Inr content, s1) \<Rightarrow>
          (case os_Create (Join [] filename) (gs_local s1) of
             (Some e, f) \<Rightarrow> (Some e, s1\<lparr>gs_local := f\<rparr>)
           | (None, f) \<Rightarrow>
               (case io_Copy (Join [] filename) content f of
                  (e, f1) \<Rightarrow> (map_option (\<lambda>x. Wrap ''failed to copy data'' [x]) e, s1\<lparr>gs_local := snd (os_Close f1)\<rparr>))))"

definition gcs_FileExists ::
  "'b gcs_sdk \<Rightarrow> 'b gcs_config \<Rightarrow> string \<Rightarrow> 'b gcs_state \<Rightarrow> (go_error + object_attrs option \<times> bool) \<times> 'b gcs_state" where
  "gcs_FileExists g c objectName =
     gcs_sum g c (\<lambda>w.
       case gc_Attrs g (gs_bucketName c) (gcs_getObjectFullName c objectName) w of
         (Inl e, w1) \<Rightarrow> if err_is e ErrObjectNotExist then (Inr (None, False), w1) else (Inl e, w1)
       | (Inr attrs, w1) \<Rightarrow> (Inr (Some attrs, True), w1))"

definition gcs_GetPublicUrl :: "'b gcs_sdk \<Rightarrow> 'b gcs_config \<Rightarrow> string \<Rightarrow> 'b gcs_state \<Rightarrow> (go_error + string) \<times> 'b gcs_state" where
  "gcs_GetPublicUrl g c objectName =
     gcs_sum g c (\<lambda>w. (Inr (gs_basePublicUrl c @ ''/'' @ gcs_getObjectFullName c objectName), w))"

section \<open>Multipart uploads\<close>

definition gcs_multipartUploadDir :: "string \<Rightarrow> string \<Rightarrow> string" where
  "gcs_multipartUploadDir objectName uploadId = objectName @ multipartPartsSuffix @ ''/'' @ uploadId"

definition gcs_multipartChunkPath :: "string \<Rightarrow> string \<Rightarrow> int \<Rightarrow> string" where
  "gcs_multipartChunkPath objectName uploadId chunkNumber =
     gcs_multipartUploadDir objectName uploadId @ ''/'' @ show_int chunkNumber"

definition gcs_CreateMultipartUpload ::
  "'b gcs_config \<Rightarrow> string \<Rightarrow> 'b gcs_state \<Rightarrow> (go_error + upload) \<times> 'b gcs_state" where
  "gcs_CreateMultipartUpload c objectName s =
     (case gs_uuid c (gs_world s) of (uuid, w) \<Rightarrow> (Inr (Upload uuid), s\<lparr>gs_world := w\<rparr>))"

definition gcs_UploadMultipartChunk ::
  "'b gcs_sdk \<Rightarrow> 'b gcs_config \<Rightarrow> string \<Rightarrow> upload \<Rightarrow> int \<Rightarrow> reader \<Rightarrow> int \<Rightarrow> 'b gcs_state \<Rightarrow> (go_error + chunk) \<times> 'b gcs_state" where
  "gcs_UploadMultipartChunk g c objectName up chunkNumber body sz s =
     (let chunkPath = gcs_multipartChunkPath objectName (upload_Id (gs_json c) up) chunkNumber
      in case gcs_Upload g c chunkPath body s of
           (Some e, s1) \<Rightarrow> (Inl (Wrap (''gcs: upload chunk '' @ show_int chunkNumber @ '' for '' @ objectName) [e]), s1)
         | (None, s1) \<Rightarrow> (Inr (Chunk chunkNumber chunkPath), s1))"

definition composeOnce ::
  "'b gcs_sdk \<Rightarrow> 'b gcs_config \<Rightarrow> string \<Rightarrow> string list \<Rightarrow> 'b \<Rightarrow> go_error option \<times> 'b" where
  "composeOnce g c targetName sourceNames w =
     (let target = gcs_getObjectFullName c targetName
      in wrap_opt (''gcs: compose '' @ target @ '' from '' @ show_nat (length sourceNames) @ '' sources'')
           (gc_ComposeRun g (gs_bucketName c) target (map (gcs_getObjectFullName c) sourceNames) w))"

definition groupPath :: "string \<Rightarrow> string \<Rightarrow> nat \<Rightarrow> string" where
  "groupPath objectName uploadId groupId = gcs_multipartUploadDir objectName uploadId @ ''/group_'' @ show_nat groupId"

text \<open>The loop over the groups: the chunks that are left are \<open>chunkPaths[groupId*32:]\<close>.\<close>

function composeGroups ::
  "'b gcs_sdk \<Rightarrow> 'b gcs_config \<Rightarrow> string \<Rightarrow> string \<Rightarrow> nat \<Rightarrow> string list \<Rightarrow> 'b \<Rightarrow> (go_error + string list) \<times> 'b" where
  "composeGroups g c objectName uploadId groupId chunkPaths w =
     (if chunkPaths = [] then (Inr [], w)
      else case composeOnce g c (groupPath objectName uploadId groupId) (take gcsMaxComposeSources chunkPaths) w of
             (Some e, w1) \<Rightarrow> (Inl (Wrap (''gcs: compose group '' @ show_nat groupId) [e]), w1)
           | (None, w1) \<Rightarrow>
               (case composeGroups g c objectName uploadId (Suc groupId) (drop gcsMaxComposeSources chunkPaths) w1 of
                  (r, w2) \<Rightarrow> (map_sum id (\<lambda>ps. groupPath objectName uploadId groupId # ps) r, w2)))"

  by pat_completeness auto

termination
  by (relation "measure (\<lambda>(g, c, objectName, uploadId, groupId, chunkPaths, w). length chunkPaths)")
    (auto simp: gcsMaxComposeSources_def)

declare composeGroups.simps [simp del]

definition composeAll ::
  "'b gcs_sdk \<Rightarrow> 'b gcs_config \<Rightarrow> string \<Rightarrow> string \<Rightarrow> string list \<Rightarrow> 'b \<Rightarrow> go_error option \<times> 'b" where
  "composeAll g c objectName uploadId chunkPaths w =
     (if length chunkPaths \<le> gcsMaxComposeSources then composeOnce g c objectName chunkPaths w
      else case composeGroups g c objectName uploadId 0 chunkPaths w of
             (Inl e, w1) \<Rightarrow> (Some e, w1)
           | (Inr groupPaths, w1) \<Rightarrow> composeOnce g c objectName groupPaths w1)"

definition gcs_CompleteMultipartUpload ::
  "'b gcs_sdk \<Rightarrow> 'b gcs_config \<Rightarrow> string \<Rightarrow> upload \<Rightarrow> chunk list \<Rightarrow> 'b gcs_state \<Rightarrow> go_error option \<times> 'b gcs_state" where
  "gcs_CompleteMultipartUpload g c objectName up chunks s =
     (if chunks = [] then (Some (Wrap objectName [Atom ErrGcsNoChunks]), s)
      else let uploadId = upload_Id (gs_json c) up;
               chunkPaths = map (\<lambda>ch. gcs_multipartChunkPath objectName uploadId (chunk_Number ch)) chunks
           in case gcs_err g c (composeAll g c objectName uploadId chunkPaths) s of
                (Some e, s1) \<Rightarrow> (Some e, s1)
              | (None, s1) \<Rightarrow> (None, snd (gcs_DeleteDir g c (gcs_multipartUploadDir objectName uploadId) s1)))"

definition gcs_AbortMultipartUpload ::
  "'b gcs_sdk \<Rightarrow> 'b gcs_config \<Rightarrow> string \<Rightarrow> upload \<Rightarrow> 'b gcs_state \<Rightarrow> go_error option \<times> 'b gcs_state" where
  "gcs_AbortMultipartUpload g c objectName up s =
     wrap_opt (''gcs: abort multipart for '' @ objectName)
       (gcs_DeleteDir g c (gcs_multipartUploadDir objectName (upload_Id (gs_json c) up)) s)"

section \<open>Directories\<close>

definition dirEntryFromAttrs :: "object_attrs \<Rightarrow> string \<Rightarrow> dir_entry option" where
  "dirEntryFromAttrs attrs prefix =
     (if ga_Prefix attrs \<noteq> []
      then (let name = TrimSuffix (TrimPrefix (ga_Prefix attrs) prefix) ''/''
            in if name = [] then None else Some (NewDirEntry name))
      else (let name = TrimPrefix (ga_Name attrs) prefix
            in if name = [] then None
               else if has_suffix (ga_Name attrs) ''/'' then None
               else Some (NewFileEntry name)))"

fun collect_entries :: "string \<Rightarrow> (go_error + object_attrs) list \<Rightarrow> go_error + dir_entry list" where
  "collect_entries prefix [] = Inr []"
| "collect_entries prefix (Inl e # l) = Inl (Wrap (''gcs: list '' @ prefix) [e])"
| "collect_entries prefix (Inr a # l) =
     map_sum id (\<lambda>es. case dirEntryFromAttrs a prefix of Some e \<Rightarrow> e # es | None \<Rightarrow> es) (collect_entries prefix l)"

definition gcs_ReadDir ::
  "'b gcs_sdk \<Rightarrow> 'b gcs_config \<Rightarrow> string \<Rightarrow> 'b gcs_state \<Rightarrow> (go_error + dir_entry list) \<times> 'b gcs_state" where
  "gcs_ReadDir g c objectName =
     gcs_sum g c (\<lambda>w.
       let prefix = listPrefix (gcs_getObjectFullName c objectName)
       in case gc_Objects g (gs_bucketName c) prefix ''/'' w of
            (l, w1) \<Rightarrow> (map_sum id (sort_key de_name) (collect_entries prefix l), w1))"

section \<open>The storage provider\<close>

definition gcsp_FileExists ::
  "'b gcs_sdk \<Rightarrow> 'b gcs_config \<Rightarrow> string \<Rightarrow> 'b gcs_state \<Rightarrow> (go_error + bool) \<times> 'b gcs_state" where
  "gcsp_FileExists g c path s = (case gcs_FileExists g c path s of (r, s1) \<Rightarrow> (map_sum id snd r, s1))"

definition gcs_MkDir :: "string \<Rightarrow> 'b gcs_state \<Rightarrow> go_error option \<times> 'b gcs_state" where
  "gcs_MkDir path s = (None, s)"

definition gcs_Move ::
  "'b gcs_sdk \<Rightarrow> 'b gcs_config \<Rightarrow> string \<Rightarrow> string \<Rightarrow> 'b gcs_state \<Rightarrow> go_error option \<times> 'b gcs_state" where
  "gcs_Move g c srcPath dstPath s =
     (if srcPath = dstPath then (None, s)
      else case gcs_Copy g c srcPath dstPath s of
             (Some e, s1) \<Rightarrow> (Some e, s1)
           | (None, s1) \<Rightarrow> gcs_Delete g c srcPath s1)"

definition gcs_ops :: "'b gcs_sdk \<Rightarrow> 'b gcs_config \<Rightarrow> 'b gcs_state store_ops" where
  "gcs_ops g c =
     \<lparr>sFileExists = gcsp_FileExists g c, sDeleteFile = gcs_Delete g c, sDeleteDir = gcs_DeleteDir g c,
      sWrite = gcs_Upload g c, sReadFile = gcs_Download g c, sReadDir = gcs_ReadDir g c, sMkDir = gcs_MkDir,
      sCopy = gcs_Copy g c, sMove = gcs_Move g c, sCreateMultipartUpload = gcs_CreateMultipartUpload c,
      sUploadMultipartChunk = gcs_UploadMultipartChunk g c,
      sCompleteMultipartUpload = gcs_CompleteMultipartUpload g c,
      sAbortMultipartUpload = gcs_AbortMultipartUpload g c,
      sClose = (\<lambda>s. (None, gcs_Close g s))\<rparr>"

lemma gcs_Move_copies: "sMove (gcs_ops g c) a b = copy_then_delete (gcs_ops g c) a b"
  by (simp add: gcs_ops_def gcs_Move_def copy_then_delete_def fun_eq_iff split: prod.split option.split)

section \<open>What the SDK promises\<close>

text \<open>
  As for S3: no call changes an object it does not name, and a call that returns no error has its
  effect. A writer's object appears when the writer is closed, unless its context was cancelled; a
  composition takes at most 32 sources and puts their contents one behind the other. A reader gives the
  stored bytes only if it was asked for them with \<open>ReadCompressed(true)\<close>, the flag of \<open>gc_NewReader\<close>: without it
  the service unpacks objects with the content encoding gzip, so nothing is said of what arrives.
\<close>

definition gcs_objects :: "('b \<Rightarrow> bucket_contents) \<Rightarrow> 'b gcs_sdk \<Rightarrow> bool" where
  "gcs_objects obj g =
     ((\<forall>wr r w e w'. gc_WriterCopy g wr r w = (e, w') \<longrightarrow> obj w' = obj w \<and> (e = None \<longrightarrow> read_fault (rd_fault r) = None))
      \<and> (\<forall>wr w e w'. gc_WriterClose g wr True w = (e, w') \<longrightarrow> obj w' = obj w)
      \<and> (\<forall>wr r w w1 e w'. gc_WriterCopy g wr r w = (None, w1) \<longrightarrow> gc_WriterClose g wr False w1 = (e, w') \<longrightarrow>
         keeps obj {(gw_bucket wr, gw_object wr)} w1 w'
         \<and> (e = None \<longrightarrow> obj w' (gw_bucket wr, gw_object wr) = Some (rd_bytes r)))
      \<and> (\<forall>b k w e w'. gc_Delete g b k w = (e, w') \<longrightarrow> keeps obj {(b, k)} w w' \<and> (e = None \<longrightarrow> obj w' (b, k) = None))
      \<and> (\<forall>b d k w e w'. gc_CopyRun g b d k w = (e, w') \<longrightarrow>
         keeps obj {(b, d)} w w' \<and> (e = None \<longrightarrow> obj w (b, k) \<noteq> None \<longrightarrow> obj w' (b, d) = obj w (b, k)))
      \<and> (\<forall>b d ks w e w'. gc_ComposeRun g b d ks w = (e, w') \<longrightarrow>
         keeps obj {(b, d)} w w'
         \<and> (e = None \<longrightarrow> length ks \<le> 32 \<and>
              (\<forall>xs. list_all2 (\<lambda>k x. obj w (b, k) = Some x) ks xs \<longrightarrow> obj w' (b, d) = Some (concat xs)))))"

definition gcs_reads :: "('b \<Rightarrow> bucket_contents) \<Rightarrow> 'b gcs_sdk \<Rightarrow> bool" where
  "gcs_reads obj g =
     ((\<forall>p w e w'. gc_NewClient g p w = (e, w') \<longrightarrow> obj w' = obj w)
      \<and> (\<forall>b k z w r w'. gc_NewReader g b k z w = (r, w') \<longrightarrow> obj w' = obj w
         \<and> (\<forall>x d. z \<longrightarrow> r = Inr x \<longrightarrow> obj w (b, k) = Some d \<longrightarrow> read_fault (rd_fault x) = None \<longrightarrow> rd_bytes x = d))
      \<and> (\<forall>b k w r w'. gc_Attrs g b k w = (r, w') \<longrightarrow> obj w' = obj w
         \<and> (\<forall>e. r = Inl e \<longrightarrow> err_is e ErrObjectNotExist \<longrightarrow> obj w (b, k) = None)))"

text \<open>A listing with a delimiter mixes objects, which have a name, and folded prefixes.\<close>

definition attrs_key :: "object_attrs \<Rightarrow> string" where
  "attrs_key a = (if ga_Prefix a \<noteq> [] then ga_Prefix a else ga_Name a)"

definition attrs_of :: "(go_error + object_attrs) list \<Rightarrow> object_attrs list" where
  "attrs_of l = [a. Inr a \<leftarrow> l]"

definition attrs_shape :: "string \<Rightarrow> object_attrs \<Rightarrow> bool" where
  "attrs_shape p a =
     (if ga_Prefix a \<noteq> [] then \<exists>d. ga_Prefix a = p @ d @ ''/'' \<and> CHR ''/'' \<notin> set d
      else \<exists>n. ga_Name a = p @ n \<and> CHR ''/'' \<notin> set n)"

definition gcs_lists :: "('b \<Rightarrow> bucket_contents) \<Rightarrow> 'b gcs_sdk \<Rightarrow> bool" where
  "gcs_lists obj g =
     ((\<forall>b p w l w'. gc_Objects g b p [] w = (l, w') \<longrightarrow> obj w' = obj w
         \<and> (\<forall>k \<in> set (map ga_Name (attrs_of l)). has_prefix k p)
         \<and> (no_error l \<longrightarrow> set (map ga_Name (attrs_of l)) = {k \<in> keys_of (obj w) b. has_prefix k p}))
      \<and> (\<forall>b p w l w'. gc_Objects g b p ''/'' w = (l, w') \<longrightarrow> obj w' = obj w
         \<and> (\<forall>a \<in> set (attrs_of l). attrs_shape p a)
         \<and> (no_error l \<longrightarrow> distinct (map attrs_key (attrs_of l)) \<and> set (map attrs_key (attrs_of l)) = delimited (keys_of (obj w) b) p)))"

definition gcs_laws :: "('b \<Rightarrow> bucket_contents) \<Rightarrow> 'b gcs_sdk \<Rightarrow> bool" where
  "gcs_laws obj g = (gcs_objects obj g \<and> gcs_reads obj g \<and> gcs_lists obj g)"

lemma gcs_objectsD:
  assumes "gcs_laws obj g"
  shows "gc_WriterCopy g wr r w = (e, w') \<Longrightarrow> obj w' = obj w \<and> (e = None \<longrightarrow> read_fault (rd_fault r) = None)"
    and "gc_WriterClose g wr True w = (e, w') \<Longrightarrow> obj w' = obj w"
    and "gc_WriterCopy g wr r w = (None, w1) \<Longrightarrow> gc_WriterClose g wr False w1 = (e, w') \<Longrightarrow>
         keeps obj {(gw_bucket wr, gw_object wr)} w1 w'
         \<and> (e = None \<longrightarrow> obj w' (gw_bucket wr, gw_object wr) = Some (rd_bytes r))"
    and "gc_Delete g b k w = (e, w') \<Longrightarrow> keeps obj {(b, k)} w w' \<and> (e = None \<longrightarrow> obj w' (b, k) = None)"
    and "gc_CopyRun g b d k w = (e, w') \<Longrightarrow>
         keeps obj {(b, d)} w w' \<and> (e = None \<longrightarrow> obj w (b, k) \<noteq> None \<longrightarrow> obj w' (b, d) = obj w (b, k))"
    and "gc_ComposeRun g b d ks w = (e, w') \<Longrightarrow>
         keeps obj {(b, d)} w w'
         \<and> (e = None \<longrightarrow> length ks \<le> 32 \<and>
              (\<forall>xs. list_all2 (\<lambda>k x. obj w (b, k) = Some x) ks xs \<longrightarrow> obj w' (b, d) = Some (concat xs)))"
proof -
  note laws = assms [unfolded gcs_laws_def, THEN conjunct1, unfolded gcs_objects_def]
  show "obj w' = obj w \<and> (e = None \<longrightarrow> read_fault (rd_fault r) = None)"
    if "gc_WriterCopy g wr r w = (e, w')"
    by (rule laws [THEN conjunct1, rule_format, OF that])
  show "obj w' = obj w"
    if "gc_WriterClose g wr True w = (e, w')"
    by (rule laws [THEN conjunct2, THEN conjunct1, rule_format, OF that])
  show "keeps obj {(gw_bucket wr, gw_object wr)} w1 w'
         \<and> (e = None \<longrightarrow> obj w' (gw_bucket wr, gw_object wr) = Some (rd_bytes r))"
    if "gc_WriterCopy g wr r w = (None, w1)" "gc_WriterClose g wr False w1 = (e, w')"
    by (rule laws [THEN conjunct2, THEN conjunct2, THEN conjunct1, rule_format, OF that])
  show "keeps obj {(b, k)} w w' \<and> (e = None \<longrightarrow> obj w' (b, k) = None)"
    if "gc_Delete g b k w = (e, w')"
    by (rule laws [THEN conjunct2, THEN conjunct2, THEN conjunct2, THEN conjunct1, rule_format, OF that])
  show "keeps obj {(b, d)} w w' \<and> (e = None \<longrightarrow> obj w (b, k) \<noteq> None \<longrightarrow> obj w' (b, d) = obj w (b, k))"
    if "gc_CopyRun g b d k w = (e, w')"
    by (rule laws [THEN conjunct2, THEN conjunct2, THEN conjunct2, THEN conjunct2, THEN conjunct1, rule_format, OF that])
  show "keeps obj {(b, d)} w w'
         \<and> (e = None \<longrightarrow> length ks \<le> 32 \<and>
              (\<forall>xs. list_all2 (\<lambda>k x. obj w (b, k) = Some x) ks xs \<longrightarrow> obj w' (b, d) = Some (concat xs)))"
    if "gc_ComposeRun g b d ks w = (e, w')"
    by (rule laws [THEN conjunct2, THEN conjunct2, THEN conjunct2, THEN conjunct2, THEN conjunct2, rule_format, OF that])
qed

lemma gcs_readsD:
  assumes "gcs_laws obj g"
  shows "gc_NewClient g p w = (e, w') \<Longrightarrow> obj w' = obj w"
    and "gc_NewReader g b k z w = (r, w') \<Longrightarrow> obj w' = obj w
         \<and> (\<forall>x d. z \<longrightarrow> r = Inr x \<longrightarrow> obj w (b, k) = Some d \<longrightarrow> read_fault (rd_fault x) = None \<longrightarrow> rd_bytes x = d)"
    and "gc_Attrs g b k w = (y, w') \<Longrightarrow> obj w' = obj w
         \<and> (\<forall>e. y = Inl e \<longrightarrow> err_is e ErrObjectNotExist \<longrightarrow> obj w (b, k) = None)"
proof -
  note laws = assms [unfolded gcs_laws_def, THEN conjunct2, THEN conjunct1, unfolded gcs_reads_def]
  show "obj w' = obj w"
    if "gc_NewClient g p w = (e, w')"
    by (rule laws [THEN conjunct1, rule_format, OF that])
  show "obj w' = obj w
         \<and> (\<forall>x d. z \<longrightarrow> r = Inr x \<longrightarrow> obj w (b, k) = Some d \<longrightarrow> read_fault (rd_fault x) = None \<longrightarrow> rd_bytes x = d)"
    if "gc_NewReader g b k z w = (r, w')"
    by (rule laws [THEN conjunct2, THEN conjunct1, rule_format, OF that])
  show "obj w' = obj w
         \<and> (\<forall>e. y = Inl e \<longrightarrow> err_is e ErrObjectNotExist \<longrightarrow> obj w (b, k) = None)"
    if "gc_Attrs g b k w = (y, w')"
    by (rule laws [THEN conjunct2, THEN conjunct2, rule_format, OF that])
qed

lemma gcs_listsD:
  assumes "gcs_laws obj g"
  shows "gc_Objects g b p [] w = (l, w') \<Longrightarrow> obj w' = obj w
         \<and> (\<forall>k \<in> set (map ga_Name (attrs_of l)). has_prefix k p)
         \<and> (no_error l \<longrightarrow> set (map ga_Name (attrs_of l)) = {k \<in> keys_of (obj w) b. has_prefix k p})"
    and "gc_Objects g b p ''/'' w = (l, w') \<Longrightarrow> obj w' = obj w
         \<and> (\<forall>a \<in> set (attrs_of l). attrs_shape p a)
         \<and> (no_error l \<longrightarrow> distinct (map attrs_key (attrs_of l)) \<and> set (map attrs_key (attrs_of l)) = delimited (keys_of (obj w) b) p)"
proof -
  note laws = assms [unfolded gcs_laws_def, THEN conjunct2, THEN conjunct2, unfolded gcs_lists_def]
  show "obj w' = obj w
         \<and> (\<forall>k \<in> set (map ga_Name (attrs_of l)). has_prefix k p)
         \<and> (no_error l \<longrightarrow> set (map ga_Name (attrs_of l)) = {k \<in> keys_of (obj w) b. has_prefix k p})"
    if "gc_Objects g b p [] w = (l, w')"
    by (rule laws [THEN conjunct1, rule_format, OF that])
  show "obj w' = obj w
         \<and> (\<forall>a \<in> set (attrs_of l). attrs_shape p a)
         \<and> (no_error l \<longrightarrow> distinct (map attrs_key (attrs_of l)) \<and> set (map attrs_key (attrs_of l)) = delimited (keys_of (obj w) b) p)"
    if "gc_Objects g b p ''/'' w = (l, w')"
    by (rule laws [THEN conjunct2, rule_format, OF that])
qed

section \<open>The contract\<close>

definition gcs_key :: "'b gcs_config \<Rightarrow> string \<Rightarrow> string \<times> string" where
  "gcs_key c path = (gs_bucketName c, gcs_getObjectFullName c path)"

lemma gcs_key_inject [simp]: "gcs_key c a = gcs_key c b \<longleftrightarrow> a = b"
  by (simp add: gcs_key_def gcs_getObjectFullName_def)

text \<open>A method either fails in \<open>init\<close>, which changes no object, or runs its body from the same contents.\<close>

lemma gcs_err_run:
  assumes "gcs_laws obj g" "gcs_err g c body s = (e, s')"
  obtains (failed) x where "e = Some x" "obj (gs_world s') = obj (gs_world s)"
  | (ran) w where "obj w = obj (gs_world s)" "body w = (e, gs_world s')"
proof (cases "gcs_init g c s")
  case (Pair x s1)
  then have "obj (gs_world s1) = obj (gs_world s)"
    using gcs_readsD(1) [OF assms(1)] by (auto simp: gcs_init_def split: if_splits prod.splits option.splits)
  with Pair assms(2) that show ?thesis by (cases x) (auto simp: gcs_err_def split: prod.splits)
qed

lemma gcs_sum_run:
  assumes "gcs_laws obj g" "gcs_sum g c body s = (r, s')"
  obtains (failed) x where "r = Inl x" "obj (gs_world s') = obj (gs_world s)"
  | (ran) w where "obj w = obj (gs_world s)" "body w = (r, gs_world s')"
proof (cases "gcs_init g c s")
  case (Pair x s1)
  then have "obj (gs_world s1) = obj (gs_world s)"
    using gcs_readsD(1) [OF assms(1)] by (auto simp: gcs_init_def split: if_splits prod.splits option.splits)
  with Pair assms(2) that show ?thesis by (cases x) (auto simp: gcs_sum_def split: prod.splits)
qed

lemma keeps_mono: "keeps obj A s t \<Longrightarrow> A \<subseteq> B \<Longrightarrow> keeps obj B s t"
  unfolding keeps_def by blast

lemma keeps_same_start: "obj w = obj s \<Longrightarrow> keeps obj ks w t = keeps obj ks s t"
  by (simp add: keeps_def)

lemma gcs_Upload_law:
  assumes laws: "gcs_laws obj g" and run: "gcs_Upload g c p r s = (e, s')"
  shows "keeps obj {gcs_key c p} (gs_world s) (gs_world s')
    \<and> (e = None \<longrightarrow> obj (gs_world s') (gcs_key c p) = Some (rd_bytes r) \<and> read_fault (rd_fault r) = None)"
proof (cases rule: gcs_err_run [OF laws run [unfolded gcs_Upload_def], case_names failed ran])
  case (failed x)
  then show ?thesis by (simp add: keeps_same)
next
  case (ran w)
  let ?full = "gcs_getObjectFullName c p"
  obtain m where "GetFileMetadataByName (gs_mime c) ?full = Inr m" by (rule GetFileMetadataByName_total)
  note meta = this
  define wr where "wr = upload_writer g c ?full m"
  have body: "(case gc_WriterCopy g wr r w of
        (Some e, w1) \<Rightarrow> (Some e, snd (gc_WriterClose g wr True w1))
      | (None, w1) \<Rightarrow> wrap_opt (''failed to close writer for '' @ ?full) (gc_WriterClose g wr False w1)) = (e, gs_world s')"
    unfolding wr_def using ran(2) meta by (simp add: Let_def)
  have wr: "gw_bucket wr = gs_bucketName c" "gw_object wr = ?full" by (simp_all add: wr_def upload_writer_def)
  obtain e1 w1 where cp: "gc_WriterCopy g wr r w = (e1, w1)" by fastforce
  note c1 = gcs_objectsD(1) [OF laws cp]
  show ?thesis
  proof (cases e1)
    case (Some x)
    obtain e2 w2 where cl: "gc_WriterClose g wr True w1 = (e2, w2)" by fastforce
    with Some cp body c1 gcs_objectsD(2) [OF laws cl] ran(1) show ?thesis by (auto simp: keeps_same)
  next
    case None
    obtain e2 w2 where cl: "gc_WriterClose g wr False w1 = (e2, w2)" by fastforce
    note c2 = gcs_objectsD(3) [OF laws cp [unfolded None] cl]
    have "obj w1 = obj (gs_world s)" using c1 ran(1) by simp
    with None cp cl body c1 c2 wr keeps_same_start [OF this] show ?thesis
      by (auto simp: gcs_key_def wrap_opt_def)
  qed
qed

lemma gcs_Delete_law:
  assumes laws: "gcs_laws obj g" and run: "gcs_Delete g c p s = (e, s')"
  shows "keeps obj {gcs_key c p} (gs_world s) (gs_world s') \<and> (e = None \<longrightarrow> obj (gs_world s') (gcs_key c p) = None)"
proof (cases rule: gcs_err_run [OF laws run [unfolded gcs_Delete_def], case_names failed ran])
  case (ran w)
  with gcs_objectsD(4) [OF laws ran(2)] keeps_same_start [OF ran(1)] show ?thesis by (simp add: gcs_key_def)
qed (simp add: keeps_same)

lemma gcs_Copy_law:
  assumes laws: "gcs_laws obj g" and run: "gcs_Copy g c a b s = (e, s')"
  shows "keeps obj {gcs_key c b} (gs_world s) (gs_world s')
    \<and> (e = None \<longrightarrow> obj (gs_world s) (gcs_key c a) \<noteq> None \<longrightarrow> obj (gs_world s') (gcs_key c b) = obj (gs_world s) (gcs_key c a))"
proof (cases rule: gcs_err_run [OF laws run [unfolded gcs_Copy_def], case_names failed ran])
  case (ran w)
  from wrap_opt_result [OF ran(2)] obtain e0 where
    cp: "gc_CopyRun g (gs_bucketName c) (gcs_getObjectFullName c b) (gcs_getObjectFullName c a) w = (e0, gs_world s')"
    "(e = None) = (e0 = None)" by blast
  from gcs_objectsD(5) [OF laws cp(1)] cp(2) keeps_same_start [OF ran(1)] ran(1) show ?thesis by (simp add: gcs_key_def)
qed (simp add: keeps_same)

lemma gcs_Download_law:
  assumes laws: "gcs_laws obj g" and run: "gcs_Download g c p s = (x, s')"
  shows "obj (gs_world s') = obj (gs_world s)
    \<and> (\<forall>d r. obj (gs_world s) (gcs_key c p) = Some d \<longrightarrow> x = Inr r \<longrightarrow> read_fault (rd_fault r) = None \<longrightarrow> rd_bytes r = d)"
proof (cases rule: gcs_sum_run [OF laws run [unfolded gcs_Download_def], case_names failed ran])
  case (ran w)
  from gcs_readsD(2) [OF laws ran(2)] ran(1) show ?thesis by (simp add: gcs_key_def)
qed simp

lemma gcsp_FileExists_law:
  assumes laws: "gcs_laws obj g" and run: "gcsp_FileExists g c p s = (be, s')"
  shows "obj (gs_world s') = obj (gs_world s) \<and> (be = Inr False \<longrightarrow> obj (gs_world s) (gcs_key c p) = None)"
proof -
  obtain r s1 where ex: "gcs_FileExists g c p s = (r, s1)" by fastforce
  with run have eq: "s' = s1" "be = map_sum id snd r" by (simp_all add: gcsp_FileExists_def)
  show ?thesis
  proof (cases rule: gcs_sum_run [OF laws ex [unfolded gcs_FileExists_def], case_names failed ran])
    case (ran w)
    obtain y w1 where at: "gc_Attrs g (gs_bucketName c) (gcs_getObjectFullName c p) w = (y, w1)" by fastforce
    from gcs_readsD(3) [OF laws at] ran at eq show ?thesis
      by (auto simp: gcs_key_def split: sum.splits if_splits)
  qed (simp add: eq)
qed

lemma gcs_object_store:
  assumes "gcs_laws obj g"
  shows "object_store (gcs_ops g c) (\<lambda>_. True) (\<lambda>s. obj (gs_world s)) (gcs_key c) (\<lambda>_. True)"
proof
  fix p be s s' assume "sFileExists (gcs_ops g c) p s = (be, s')"
  with gcsp_FileExists_law [OF assms, of c p s be s']
  show "True \<and> obj (gs_world s') = obj (gs_world s) \<and> (be = Inr False \<longrightarrow> obj (gs_world s) (gcs_key c p) = None)"
    by (simp add: gcs_ops_def)
next
  fix p e s s' assume "sDeleteFile (gcs_ops g c) p s = (e, s')"
  with gcs_Delete_law [OF assms, of c p s e s']
  show "True \<and> keeps (\<lambda>s. obj (gs_world s)) {gcs_key c p} s s' \<and> (e = None \<longrightarrow> obj (gs_world s') (gcs_key c p) = None)"
    by (simp add: gcs_ops_def keeps_def)
next
  fix p r e s s' assume "sWrite (gcs_ops g c) p r s = (e, s')"
  with gcs_Upload_law [OF assms, of c p r s e s']
  show "True \<and> keeps (\<lambda>s. obj (gs_world s)) {gcs_key c p} s s'
      \<and> (e = None \<longrightarrow> obj (gs_world s') (gcs_key c p) = Some (rd_bytes r) \<and> read_fault (rd_fault r) = None)"
    by (simp add: gcs_ops_def keeps_def)
next
  fix p x s s' assume "sReadFile (gcs_ops g c) p s = (x, s')"
  with gcs_Download_law [OF assms, of c p s x s']
  show "True \<and> obj (gs_world s') = obj (gs_world s)
      \<and> (\<forall>d r. obj (gs_world s) (gcs_key c p) = Some d \<longrightarrow> x = Inr r \<longrightarrow> read_fault (rd_fault r) = None \<longrightarrow> rd_bytes r = d)"
    by (simp add: gcs_ops_def)
next
  fix a b e s s' assume "sCopy (gcs_ops g c) a b s = (e, s')"
  with gcs_Copy_law [OF assms, of c a b s e s']
  show "True \<and> keeps (\<lambda>s. obj (gs_world s)) {gcs_key c b} s s'
      \<and> (\<forall>d. e = None \<longrightarrow> gcs_key c a \<noteq> gcs_key c b \<longrightarrow> obj (gs_world s) (gcs_key c a) = Some d \<longrightarrow> obj (gs_world s') (gcs_key c b) = Some d)"
    by (auto simp: gcs_ops_def keeps_def)
qed

lemma gcs_move_safe:
  assumes "gcs_laws obj g" "a \<noteq> b" "obj (gs_world s) (gcs_key c a) = Some d" "gcs_Move g c a b s = (e, s')"
  shows "(obj (gs_world s') (gcs_key c a) = Some d \<or> obj (gs_world s') (gcs_key c b) = Some d)
    \<and> (e = None \<longrightarrow> obj (gs_world s') (gcs_key c b) = Some d \<and> obj (gs_world s') (gcs_key c a) = None)"
proof -
  have "copy_then_delete (gcs_ops g c) a b s = (e, s')"
    using assms(4) gcs_Move_copies [of g c a b] by (simp add: gcs_ops_def)
  from object_store.copy_then_delete_safe [OF gcs_object_store [OF assms(1)] _ _ _ _ assms(3) this] assms(2)
  show ?thesis by simp
qed

section \<open>Compositions\<close>

abbreviation holds_at :: "('b \<Rightarrow> bucket_contents) \<Rightarrow> 'b gcs_config \<Rightarrow> 'b \<Rightarrow> string list \<Rightarrow> byte list list \<Rightarrow> bool" where
  "holds_at obj c w paths xs \<equiv> list_all2 (\<lambda>p x. obj w (gcs_key c p) = Some x) paths xs"

lemma holds_at_kept:
  assumes "holds_at obj c w paths xs" "keeps obj ks w w'" "\<forall>p \<in> set paths. gcs_key c p \<notin> ks"
  shows "holds_at obj c w' paths xs"
  using assms by (auto simp: list_all2_conv_all_nth intro: keepsD)

lemma composeOnce_law:
  assumes "gcs_laws obj g" "composeOnce g c t paths w = (e, w')"
  shows "keeps obj {gcs_key c t} w w'
    \<and> (e = None \<longrightarrow> length paths \<le> 32 \<and> (\<forall>xs. holds_at obj c w paths xs \<longrightarrow> obj w' (gcs_key c t) = Some (concat xs)))"
proof -
  from wrap_opt_result [OF assms(2) [unfolded composeOnce_def Let_def]] obtain e0 where
    "gc_ComposeRun g (gs_bucketName c) (gcs_getObjectFullName c t) (map (gcs_getObjectFullName c) paths) w = (e0, w')"
    "(e = None) = (e0 = None)" by blast
  with gcs_objectsD(6) [OF assms(1) this(1)] show ?thesis by (simp add: gcs_key_def list_all2_map1)
qed

lemma groupPath_inject [simp]: "groupPath p u m = groupPath p u n \<longleftrightarrow> m = n"
  by (simp add: groupPath_def show_nat_inject)

lemma show_int_no_letter: "CHR ''g'' \<notin> set (show_int n)"
  using show_nat_digits [of "CHR ''g''"] by (auto simp: show_int_def)

lemma chunk_not_group: "gcs_multipartChunkPath p u n \<noteq> groupPath p u k"
  using show_int_no_letter [of n] by (auto simp: gcs_multipartChunkPath_def groupPath_def)

lemma composeGroups_law:
  assumes laws: "gcs_laws obj g" and "composeGroups g c p u n paths w = (r, w')"
    and "holds_at obj c w paths xs" "\<forall>q \<in> set paths. \<forall>k. q \<noteq> groupPath p u k"
  shows "keeps obj {gcs_key c (groupPath p u k) |k. n \<le> k} w w'
    \<and> (\<forall>gs. r = Inr gs \<longrightarrow> gs = map (groupPath p u) [n..<n + (length paths + 31) div 32]
         \<and> (\<exists>ys. holds_at obj c w' gs ys \<and> concat ys = concat xs))"
  using assms(2-4)
proof (induction "length paths" arbitrary: n paths w r xs rule: less_induct)
  case less
  show ?case
  proof (cases "paths = []")
    case True
    with less.prems have "r = Inr []" "w' = w" "xs = []" by (simp_all add: composeGroups.simps)
    with True show ?thesis by (auto intro: exI [of _ "[]"])
  next
    case False
    let ?g = "groupPath p u n" and ?head = "take 32 paths" and ?rest = "drop 32 paths"
    obtain e w1 where one: "composeOnce g c ?g ?head w = (e, w1)" by fastforce
    note o = composeOnce_law [OF laws one]
    have keep1: "keeps obj {gcs_key c (groupPath p u k) |k. n \<le> k} w w1" using o by (auto simp: keeps_def)
    show ?thesis
    proof (cases e)
      case (Some x)
      with less.prems(1) one False have "w' = w1" "\<nexists>gs. r = Inr gs"
        by (auto simp: composeGroups.simps [of g c p u n paths] gcsMaxComposeSources_def)
      with keep1 show ?thesis by auto
    next
      case None
      have split: "holds_at obj c w ?head (take 32 xs)" "holds_at obj c w ?rest (drop 32 xs)"
        using less.prems(2) by (auto simp: list_all2_takeI list_all2_dropI)
      have content: "obj w1 (gcs_key c ?g) = Some (concat (take 32 xs))" using o None split(1) by blast
      obtain r2 where rest: "composeGroups g c p u (Suc n) ?rest w1 = (r2, w')" and r: "r = map_sum id (\<lambda>ps. ?g # ps) r2"
        using less.prems(1) one None False
        by (auto simp: composeGroups.simps [of g c p u n paths] gcsMaxComposeSources_def split: prod.splits)
      have shorter: "length ?rest < length paths" using False by simp
      have fresh: "\<forall>q \<in> set ?rest. \<forall>k. q \<noteq> groupPath p u k" using less.prems(3) by (meson in_set_dropD)
      have held: "holds_at obj c w1 ?rest (drop 32 xs)"
        by (rule holds_at_kept [where ks = "{gcs_key c ?g}" and w = w]) (use split(2) o fresh in auto)
      note ih = less.hyps [OF shorter rest held fresh]
      have "keeps obj {gcs_key c (groupPath p u k) |k. n \<le> k} w1 w'"
        by (rule keeps_mono [OF conjunct1 [OF ih]]) (use Suc_leD in blast)
      with keep1 have keep: "keeps obj {gcs_key c (groupPath p u k) |k. n \<le> k} w w'" by (rule keeps_trans)
      have kept: "obj w' (gcs_key c ?g) = Some (concat (take 32 xs))"
        using ih content by (intro keepsD [OF conjunct1 [OF ih]]) auto
      have count: "(length paths + 31) div 32 = Suc ((length ?rest + 31) div 32)" using False by (cases paths) auto
      show ?thesis
      proof (intro conjI allI impI)
        fix gs assume "r = Inr gs"
        with r obtain gs2 where gs: "r2 = Inr gs2" "gs = ?g # gs2" by (cases r2) auto
        with ih obtain ys where ys: "gs2 = map (groupPath p u) [Suc n..<Suc n + (length ?rest + 31) div 32]"
          "holds_at obj c w' gs2 ys" "concat ys = concat (drop 32 xs)" by blast
        show "gs = map (groupPath p u) [n..<n + (length paths + 31) div 32]"
          using ys(1) gs(2) by (simp add: count upt_conv_Cons)
        have "holds_at obj c w' gs (concat (take 32 xs) # ys)" using kept ys(2) gs(2) by simp
        moreover have "concat (concat (take 32 xs) # ys) = concat xs"
          using ys(3) by (simp flip: concat_append)
        ultimately show "\<exists>ys. holds_at obj c w' gs ys \<and> concat ys = concat xs" by blast
      qed (rule keep)
    qed
  qed
qed

text \<open>All chunks: at most 32 groups of at most 32.\<close>

lemma composeAll_law:
  assumes laws: "gcs_laws obj g" and "composeAll g c p u paths w = (e, w')"
    and "holds_at obj c w paths xs" "\<forall>q \<in> set paths. \<forall>k. q \<noteq> groupPath p u k"
  shows "keeps obj ({gcs_key c p} \<union> {gcs_key c (groupPath p u k) |k. True}) w w'
    \<and> (e = None \<longrightarrow> length paths \<le> 1024 \<and> obj w' (gcs_key c p) = Some (concat xs))"
proof (cases "length paths \<le> 32")
  case True
  with assms(2) have "composeOnce g c p paths w = (e, w')" by (simp add: composeAll_def gcsMaxComposeSources_def)
  from composeOnce_law [OF laws this] assms(3) show ?thesis by (auto simp: keeps_def)
next
  case False
  obtain r w1 where gr: "composeGroups g c p u 0 paths w = (r, w1)" by fastforce
  note groups = composeGroups_law [OF laws gr assms(3,4)]
  have keep1: "keeps obj ({gcs_key c p} \<union> {gcs_key c (groupPath p u k) |k. True}) w w1" using groups by (auto simp: keeps_def)
  show ?thesis
  proof (cases r)
    case (Inl x)
    with assms(2) gr False keep1 show ?thesis by (auto simp: composeAll_def gcsMaxComposeSources_def)
  next
    case (Inr gs)
    with assms(2) gr False have last: "composeOnce g c p gs w1 = (e, w')" by (simp add: composeAll_def gcsMaxComposeSources_def)
    note o = composeOnce_law [OF laws last]
    from groups Inr obtain ys where gs: "length gs = (length paths + 31) div 32" "holds_at obj c w1 gs ys" "concat ys = concat xs"
      by auto
    have "keeps obj ({gcs_key c p} \<union> {gcs_key c (groupPath p u k) |k. True}) w1 w'" using o by (auto simp: keeps_def)
    with keep1 have "keeps obj ({gcs_key c p} \<union> {gcs_key c (groupPath p u k) |k. True}) w w'" by (rule keeps_trans)
    moreover have "length paths \<le> 1024" if "length gs \<le> 32" using that gs(1) by simp
    ultimately show ?thesis using o gs(2,3) by auto
  qed
qed

lemma delete_each_keeps:
  "gcs_laws obj g \<Longrightarrow> delete_each g b l w = (e, w') \<Longrightarrow> keeps obj {(b, k) |k. k \<in> set (map ga_Name (attrs_of l))} w w'"
proof (induction g b l w arbitrary: e w' rule: delete_each.induct)
  case (3 g b a l w)
  let ?ks = "{(b, k) |k. k \<in> set (map ga_Name (attrs_of (Inr a # l)))}"
  obtain e1 w1 where del: "gc_Delete g b (ga_Name a) w = (e1, w1)" by fastforce
  have attrs: "attrs_of (Inr a # l) = a # attrs_of l" by (simp add: attrs_of_def)
  have first: "keeps obj ?ks w w1" using gcs_objectsD(4) [OF 3(2) del] by (auto simp: keeps_def attrs)
  show ?case
  proof (cases e1)
    case None
    with 3(3) del have "delete_each g b l w1 = (e, w')" by simp
    from 3(1) [OF del [symmetric] None 3(2) this] have "keeps obj ?ks w1 w'" by (auto simp: keeps_def attrs)
    with first show ?thesis by (rule keeps_trans)
  qed (use 3(3) del first in simp)
qed simp_all

lemma gcs_DeleteDir_keeps:
  assumes laws: "gcs_laws obj g" and run: "gcs_DeleteDir g c p s = (e, s')"
  shows "keeps obj {(gs_bucketName c, k) |k. has_prefix k (gcs_getObjectFullName c p)} (gs_world s) (gs_world s')"
proof (cases rule: gcs_err_run [OF laws run [unfolded gcs_DeleteDir_def], case_names failed ran])
  case (ran w)
  let ?f = "gcs_getObjectFullName c p"
  obtain l w1 where ls: "gc_Objects g (gs_bucketName c) ?f [] w = (l, w1)" by fastforce
  with ran(2) have del: "delete_each g (gs_bucketName c) l w1 = (e, gs_world s')" by simp
  note l = gcs_listsD(1) [OF laws ls]
  have same: "obj w1 = obj (gs_world s)" using l ran(1) by simp
  have "{(gs_bucketName c, k) |k. k \<in> set (map ga_Name (attrs_of l))} \<subseteq> {(gs_bucketName c, k) |k. has_prefix k ?f}"
    using l by blast
  with delete_each_keeps [OF laws del] show ?thesis unfolding keeps_def same by blast
qed (simp add: keeps_same)

text \<open>Part objects lie in the directory of their upload, and the target outside of it.\<close>

lemma part_names:
  "has_prefix (gcs_getObjectFullName c (groupPath p u k)) (gcs_getObjectFullName c (gcs_multipartUploadDir p u))"
  "\<not> has_prefix (gcs_getObjectFullName c p) (gcs_getObjectFullName c (gcs_multipartUploadDir p u))"
proof -
  show "has_prefix (gcs_getObjectFullName c (groupPath p u k)) (gcs_getObjectFullName c (gcs_multipartUploadDir p u))"
    by (simp add: gcs_getObjectFullName_def full_name_def groupPath_def)
  have "length (gcs_getObjectFullName c p) < length (gcs_getObjectFullName c (gcs_multipartUploadDir p u))"
    by (simp add: gcs_getObjectFullName_def full_name_def gcs_multipartUploadDir_def)
  then show "\<not> has_prefix (gcs_getObjectFullName c p) (gcs_getObjectFullName c (gcs_multipartUploadDir p u))"
    by (metis length_take min.absorb3 less_not_refl)
qed

section \<open>Listings\<close>

lemma dirEntryFromAttrs_key:
  assumes "attrs_shape p a"
  shows "map_option entry_key (dirEntryFromAttrs a p) = key_entry p (attrs_key a)"
proof (cases "ga_Prefix a = []")
  case True
  with assms obtain n where n: "ga_Name a = p @ n" "CHR ''/'' \<notin> set n" by (auto simp: attrs_shape_def)
  show ?thesis
  proof (cases "n = []")
    case True
    with n \<open>ga_Prefix a = []\<close> show ?thesis
      using TrimPrefix_append [of p "[]"] by (simp add: dirEntryFromAttrs_def attrs_key_def key_entry_def)
  next
    case False
    with n True slash_free_suffix [of n p] key_entry_leaf [of n p] show ?thesis
      by (simp add: dirEntryFromAttrs_def attrs_key_def)
  qed
next
  case False
  with assms obtain d where "ga_Prefix a = p @ d @ ''/''" by (auto simp: attrs_shape_def)
  with False key_entry_folder [of p d] show ?thesis by (simp add: dirEntryFromAttrs_def attrs_key_def Let_def)
qed

lemma collect_entries_keys:
  assumes "collect_entries p l = Inr es" "\<forall>a \<in> set (attrs_of l). attrs_shape p a"
  shows "no_error l \<and> entry_key ` set es = {x. \<exists>k \<in> set (map attrs_key (attrs_of l)). key_entry p k = Some x}"
  using assms
proof (induction p l arbitrary: es rule: collect_entries.induct)
  case (3 p a l)
  have attrs: "attrs_of (Inr a # l) = a # attrs_of l" by (simp add: attrs_of_def)
  from 3(2) obtain es2 where rest: "collect_entries p l = Inr es2"
    "es = (case dirEntryFromAttrs a p of Some e \<Rightarrow> e # es2 | None \<Rightarrow> es2)"
    by (cases "collect_entries p l") auto
  have "map_option entry_key (dirEntryFromAttrs a p) = key_entry p (attrs_key a)"
    using 3(3) by (intro dirEntryFromAttrs_key) (simp add: attrs)
  with 3(1) [OF rest(1)] 3(3) rest(2) show ?case
    by (cases "dirEntryFromAttrs a p") (auto simp: attrs)
qed (auto simp: attrs_of_def)

lemma gcs_ReadDir_children:
  assumes laws: "gcs_laws obj g" and run: "gcs_ReadDir g c p s = (Inr es, s')"
  shows "entry_key ` set es = children (keys_of (obj (gs_world s)) (gs_bucketName c)) (listPrefix (gcs_getObjectFullName c p))
         \<and> sorted (map de_name es) \<and> obj (gs_world s') = obj (gs_world s)"
proof (cases rule: gcs_sum_run [OF laws run [unfolded gcs_ReadDir_def], case_names failed ran])
  case (ran w)
  let ?p = "listPrefix (gcs_getObjectFullName c p)"
  obtain l w1 where ls: "gc_Objects g (gs_bucketName c) ?p ''/'' w = (l, w1)" by fastforce
  with ran(2) obtain es0 where es0: "collect_entries ?p l = Inr es0" "es = sort_key de_name es0" "gs_world s' = w1"
    by (cases "collect_entries ?p l") (auto simp: Let_def)
  note l = gcs_listsD(2) [OF laws ls]
  have "entry_key ` set es = {x. \<exists>k \<in> delimited (keys_of (obj w) (gs_bucketName c)) ?p. key_entry ?p k = Some x}"
  proof -
    have shape: "\<forall>a \<in> set (attrs_of l). attrs_shape ?p a" using l by blast
    note keys = collect_entries_keys [OF es0(1) shape]
    from keys l have "set (map attrs_key (attrs_of l)) = delimited (keys_of (obj w) (gs_bucketName c)) ?p" by blast
    with keys es0(2) show ?thesis by (simp only: set_sort)
  qed
  with l es0 ran(1) show ?thesis by (simp add: delimited_children)
qed simp

section \<open>An example service\<close>

text \<open>The world is the files and what the open writer has been given.\<close>

definition example_attrs :: "string \<Rightarrow> string \<Rightarrow> string \<Rightarrow> object_attrs" where
  "example_attrs d p k =
     (if d \<noteq> [] \<and> CHR ''/'' \<in> set (drop (length p) k) then \<lparr>ga_Name = [], ga_Prefix = k, ga_Size = 0\<rparr>
      else \<lparr>ga_Name = k, ga_Prefix = [], ga_Size = 0\<rparr>)"

lemma example_attrs_simps [simp]:
  "ga_Name (example_attrs [] p k) = k" "attrs_key (example_attrs d p k) = k"
  by (auto simp: example_attrs_def attrs_key_def)

lemma example_attrs_shape: "k \<in> delimited K p \<Longrightarrow> attrs_shape p (example_attrs ''/'' p k)"
  by (auto simp: example_attrs_def delimited_def attrs_shape_def)

text \<open>A service that unpacks: an object behind the two magic bytes of gzip arrives without them.\<close>

definition example_transcoded :: "byte list \<Rightarrow> byte list" where
  "example_transcoded y = (if take 2 y = [CHR 0x1F, CHR 0x8B] then drop 2 y else y)"

definition example_gcs :: "(bucket_files \<times> byte list) gcs_sdk" where
  "example_gcs =
     \<lparr>gc_NewClient = (\<lambda>p w. (None, w)),
      gc_ClientClose = (\<lambda>w. (None, w)),
      gc_WriterCopy = (\<lambda>wr r (m, x). case read_fault (rd_fault r) of Some e \<Rightarrow> (Some e, (m, x)) | None \<Rightarrow> (None, (m, rd_bytes r))),
      gc_WriterClose = (\<lambda>wr cancelled (m, x). if cancelled then (Some (Atom ContextCanceled), (m, []))
         else (None, (AList.update (gw_bucket wr, gw_object wr) x m, []))),
      gc_Delete = (\<lambda>b k (m, x). (None, (AList.delete (b, k) m, x))),
      gc_CopyRun = (\<lambda>b d k (m, x). case map_of m (b, k) of
         None \<Rightarrow> (Some (Atom ErrObjectNotExist), (m, x)) | Some y \<Rightarrow> (None, (AList.update (b, d) y m, x))),
      gc_ComposeRun = (\<lambda>b d ks (m, x).
         if length ks \<le> 32 \<and> list_all (\<lambda>k. map_of m (b, k) \<noteq> None) ks
         then (None, (AList.update (b, d) (concat (map (\<lambda>k. the (map_of m (b, k))) ks)) m, x))
         else (Some (Atom (ErrExternal 400)), (m, x))),
      gc_NewReader = (\<lambda>b k z (m, x). case map_of m (b, k) of
         None \<Rightarrow> (Inl (Atom ErrObjectNotExist), (m, x))
       | Some y \<Rightarrow> (Inr \<lparr>rd_bytes = (if z then y else example_transcoded y), rd_fault = None\<rparr>, (m, x))),
      gc_Attrs = (\<lambda>b k (m, x). case map_of m (b, k) of
         None \<Rightarrow> (Inl (Atom ErrObjectNotExist), (m, x))
       | Some y \<Rightarrow> (Inr \<lparr>ga_Name = k, ga_Prefix = [], ga_Size = int (length y)\<rparr>, (m, x))),
      gc_Objects = (\<lambda>b p d (m, x). (map (\<lambda>k. Inr (example_attrs d p k)) (bucket_listing b p (d = []) m), (m, x))),
      gc_ShouldRetry = (\<lambda>e. False),
      gc_StreamError = (\<lambda>e. False)\<rparr>"

definition example_gcs_config :: "(bucket_files \<times> byte list) gcs_config" where
  "example_gcs_config = gcs_NewClient (\<lambda>_. []) concat (\<lambda>w. (''u'', w)) [] ''n'' ''b'' ''d'' [] [WithUploadRetry]"

lemma example_gcs_objects: "gcs_objects (\<lambda>w. map_of (fst w)) example_gcs"
proof -
  have "concat (map (\<lambda>k. the (m k)) ks) = concat xs" if "list_all2 (\<lambda>k x. m k = Some x) ks xs" for m :: "string \<Rightarrow> byte list option" and ks xs
    using that by (induction rule: list_all2_induct) auto
  then show ?thesis
    by (auto simp: gcs_objects_def example_gcs_def keeps_def map_of_update map_of_delete split: option.splits if_splits)
qed

lemma example_gcs_reads: "gcs_reads (\<lambda>w. map_of (fst w)) example_gcs"
  by (auto simp: gcs_reads_def example_gcs_def split: option.splits)

lemma attrs_of_map: "attrs_of (map (\<lambda>k. Inr (f k)) ks) = map f ks"
  by (induction ks) (auto simp: attrs_of_def)

lemma example_gcs_lists: "gcs_lists (\<lambda>w. map_of (fst w)) example_gcs"
proof -
  have names: "set (map ga_Name (attrs_of (map (\<lambda>k. Inr (example_attrs [] p k)) ks))) = set ks" for p ks
    by (simp add: attrs_of_map comp_def)
  have keys: "map attrs_key (attrs_of (map (\<lambda>k. Inr (example_attrs d p k)) ks)) = ks" for d p ks
    by (simp add: attrs_of_map comp_def)
  have shape: "\<forall>a \<in> set (attrs_of (map (\<lambda>k. Inr (example_attrs ''/'' p k)) (bucket_listing b p False m))). attrs_shape p a" for b p m
    by (auto simp: attrs_of_map set_bucket_listing example_attrs_shape)
  show ?thesis
    unfolding gcs_lists_def
    by (auto simp: example_gcs_def names keys shape set_bucket_listing simp del: set_map)
qed

lemma example_gcs_laws: "gcs_laws (\<lambda>w. map_of (fst w)) example_gcs"
  by (simp add: gcs_laws_def example_gcs_objects example_gcs_reads example_gcs_lists)

lemma collect_infos_all: "collect_infos p (map (\<lambda>k. Inr (f k)) ks) = Inr (map f ks)"
  by (induction ks) auto

lemma collect_entries_all:
  "collect_entries p (map (\<lambda>k. Inr (f k)) ks) = Inr (List.map_filter (\<lambda>k. dirEntryFromAttrs (f k) p) ks)"
  by (induction ks) (auto simp: map_filter_simps split: option.split)

section \<open>Properties\<close>

text \<open>C27: over a service that keeps the promises of the storage SDK, the provider on Google Cloud Storage is an
  object store, with the same contract as S3, local files and the storages above them. What is read is what was written, byte for byte, because
  \<open>Download\<close> asks for the stored bytes.\<close>

theorem gcs_keeps_contract:
  assumes "gcs_laws obj g"
  shows "object_store (gcs_ops g c) (\<lambda>_. True) (\<lambda>s. obj (gs_world s)) (gcs_key c) (\<lambda>_. True)"
  by (rule gcs_object_store [OF assms])

text \<open>Read without the flag, the example would break the contract: an object that looks compressed comes back changed.\<close>

lemma example_gcs_transcodes:
  "fst (gc_NewReader example_gcs ''b'' ''k'' False ([((''b'', ''k''), [CHR 0x1F, CHR 0x8B, CHR ''x''])], []))
     = Inr \<lparr>rd_bytes = ''x'', rd_fault = None\<rparr>"
  by (simp add: example_gcs_def example_transcoded_def)

theorem gcs_keeps_contract_witness:
  "object_store (gcs_ops example_gcs example_gcs_config) (\<lambda>_. True) (\<lambda>s. map_of (fst (gs_world s))) (gcs_key example_gcs_config) (\<lambda>_. True)"
  by (rule gcs_keeps_contract [OF example_gcs_laws])

text \<open>C28: the two object stores show a directory in the same way: if a bucket on S3 and one on Google Cloud
  Storage hold the same keys, then \<open>ReadDir\<close> of both gives the same names with the same kinds, those
  of the directory's children, sorted by name.\<close>

theorem cloud_listings_agree:
  assumes "minio_laws obj mn" "gcs_laws obj' g"
    and "keys_of (obj (s3_world s)) (s3_bucketName c) = keys_of (obj' (gs_world t)) (gs_bucketName c')"
    and "s3_baseDir c = gs_baseDir c'"
    and "s3_ReadDir mn c p s = (Inr es, s')" "gcs_ReadDir g c' p t = (Inr es', t')"
  shows "entry_key ` set es = entry_key ` set es'
    \<and> entry_key ` set es = children (keys_of (obj (s3_world s)) (s3_bucketName c)) (listPrefix (s3_getObjectFullName c p))
    \<and> sorted (map de_name es) \<and> sorted (map de_name es')"
  using s3_ReadDir_children [OF assms(1,5)] gcs_ReadDir_children [OF assms(2,6)] assms(3,4)
  by (simp add: s3_getObjectFullName_def gcs_getObjectFullName_def)

theorem cloud_listings_agree_witness:
  "\<exists>es s' es' t'.
     s3_ReadDir example_minio example_s3 ''x'' \<lparr>s3_client = None, s3_world = [((''b'', ''d/x/f''), []), ((''b'', ''d/x/g/h''), [])], s3_local = undefined\<rparr> = (Inr es, s')
   \<and> gcs_ReadDir example_gcs example_gcs_config ''x'' \<lparr>gs_client = False, gs_world = ([((''b'', ''d/x/f''), []), ((''b'', ''d/x/g/h''), [])], []), gs_local = undefined\<rparr> = (Inr es', t')
   \<and> entry_key ` set es = entry_key ` set es'"
proof -
  let ?w = "[((''b'', ''d/x/f''), []), ((''b'', ''d/x/g/h''), [])]"
  let ?s = "\<lparr>s3_client = None, s3_world = ?w, s3_local = undefined\<rparr>"
  let ?t = "\<lparr>gs_client = False, gs_world = (?w, []), gs_local = undefined\<rparr>"
  have bare: "parseEndpoint ''s3.local'' = Inr (''s3.local'', True)" by code_simp
  obtain es s' where s3: "s3_ReadDir example_minio example_s3 ''x'' ?s = (Inr es, s')"
    by (simp add: s3_ReadDir_def s3_sum_def s3_init_def bare example_s3_def example_minio_def Let_def collect_infos_all)
  obtain es' t' where gcs: "gcs_ReadDir example_gcs example_gcs_config ''x'' ?t = (Inr es', t')"
    by (simp add: gcs_ReadDir_def gcs_sum_def gcs_init_def example_gcs_config_def gcs_NewClient_def WithUploadRetry_def
        example_gcs_def Let_def collect_entries_all)
  have "entry_key ` set es = entry_key ` set es'"
    using cloud_listings_agree [OF example_minio_laws example_gcs_laws _ _ s3 gcs]
    by (simp add: example_s3_def example_gcs_config_def gcs_NewClient_def WithUploadRetry_def)
  with s3 gcs show ?thesis by blast
qed

text \<open>C29: completing a multipart upload on Google Cloud Storage puts the chunks together in the order in which
  the caller lists them, through group objects when there are more than 32; it changes nothing outside
  of the upload's own parts, and it can only succeed for up to 1024 chunks.\<close>

theorem gcs_multipart_concatenates:
  assumes laws: "gcs_laws obj g"
    and run: "gcs_CompleteMultipartUpload g c path up chunks s = (None, s')"
    and parts: "\<forall>ch \<in> set chunks. obj (gs_world s)
        (gcs_key c (gcs_multipartChunkPath path (upload_Id (gs_json c) up) (chunk_Number ch))) = Some (d ch)"
  shows "length chunks \<le> 1024 \<and> obj (gs_world s') (gcs_key c path) = Some (concat (map d chunks))
    \<and> (\<forall>k x. k \<noteq> gcs_key c path \<longrightarrow>
         \<not> (fst k = gs_bucketName c \<and> has_prefix (snd k) (gcs_getObjectFullName c (gcs_multipartUploadDir path (upload_Id (gs_json c) up)))) \<longrightarrow>
         obj (gs_world s) k = Some x \<longrightarrow> obj (gs_world s') k = Some x)"
proof -
  let ?u = "upload_Id (gs_json c) up"
  let ?dir = "gcs_multipartUploadDir path ?u"
  let ?paths = "map (\<lambda>ch. gcs_multipartChunkPath path ?u (chunk_Number ch)) chunks"
  let ?inside = "{(gs_bucketName c, k) |k. has_prefix k (gcs_getObjectFullName c ?dir)}"
  obtain s1 where comp: "gcs_err g c (composeAll g c path ?u ?paths) s = (None, s1)"
    and s': "s' = snd (gcs_DeleteDir g c ?dir s1)"
    using run by (auto simp: gcs_CompleteMultipartUpload_def Let_def split: if_splits prod.splits option.splits)
  obtain w where w: "obj w = obj (gs_world s)" "composeAll g c path ?u ?paths w = (None, gs_world s1)"
    by (rule gcs_err_run [OF laws comp]) auto
  have "holds_at obj c w ?paths (map d chunks)" using parts w(1) by (auto simp: list_all2_conv_all_nth)
  moreover have "\<forall>q \<in> set ?paths. \<forall>k. q \<noteq> groupPath path ?u k" using chunk_not_group by auto
  ultimately have c: "keeps obj ({gcs_key c path} \<union> {gcs_key c (groupPath path ?u k) |k. True}) w (gs_world s1)"
    "length chunks \<le> 1024" "obj (gs_world s1) (gcs_key c path) = Some (concat (map d chunks))"
    using composeAll_law [OF laws w(2)] by auto
  obtain e where del: "gcs_DeleteDir g c ?dir s1 = (e, s')" using s' by (metis prod.collapse)
  note clean = gcs_DeleteDir_keeps [OF laws del]
  have "gcs_key c path \<notin> ?inside" using part_names(2) by (auto simp: gcs_key_def)
  from keepsD [OF clean this c(3)] have target: "obj (gs_world s') (gcs_key c path) = Some (concat (map d chunks))" .
  have sub: "{gcs_key c path} \<union> {gcs_key c (groupPath path ?u k) |k. True} \<subseteq> {gcs_key c path} \<union> ?inside"
    unfolding gcs_key_def using part_names(1) by blast
  have "keeps obj ({gcs_key c path} \<union> ?inside) (gs_world s) (gs_world s')"
    using keeps_trans [OF keeps_mono [OF c(1) sub] keeps_mono [OF clean]] keeps_same_start [of obj w "gs_world s"] w(1) by auto
  then show ?thesis using c(2) target by (auto dest: keepsD)
qed

theorem gcs_multipart_concatenates_witness:
  "\<exists>s'. gcs_CompleteMultipartUpload example_gcs example_gcs_config ''o'' (Upload ''u'') [Chunk 2 [], Chunk 1 []]
          \<lparr>gs_client = False, gs_world = ([((''b'', ''d/o.parts/u/1''), ''cd''), ((''b'', ''d/o.parts/u/2''), ''ab'')], []), gs_local = undefined\<rparr>
        = (None, s') \<and> map_of (fst (gs_world s')) (''b'', ''d/o'') = Some ''abcd''"
proof -
  let ?w = "[((''b'', ''d/o.parts/u/1''), ''cd''), ((''b'', ''d/o.parts/u/2''), ''ab'')]"
  let ?s = "\<lparr>gs_client = False, gs_world = (?w, []), gs_local = undefined\<rparr>"
  let ?chunks = "[Chunk 2 [], Chunk 1 []]" and ?d = "\<lambda>ch. if chunk_Number ch = 1 then ''cd'' else ''ab''"
  have paths: "gcs_multipartChunkPath ''o'' ''u'' 1 = ''o.parts/u/1''" "gcs_multipartChunkPath ''o'' ''u'' 2 = ''o.parts/u/2''"
    by code_simp+
  have full: "gcs_getObjectFullName example_gcs_config p = ''d/'' @ p" "gs_bucketName example_gcs_config = ''b''" for p
    by (simp_all add: gcs_getObjectFullName_def full_name_def example_gcs_config_def gcs_NewClient_def WithUploadRetry_def)
  have compose: "composeAll example_gcs example_gcs_config ''o'' ''u'' [''o.parts/u/2'', ''o.parts/u/1''] (?w, [])
      = (None, (AList.update (''b'', ''d/o'') ''abcd'' ?w, []))"
    by (simp add: composeAll_def composeOnce_def gcsMaxComposeSources_def full wrap_opt_def example_gcs_def)
  obtain s' where run: "gcs_CompleteMultipartUpload example_gcs example_gcs_config ''o'' (Upload ''u'') ?chunks ?s = (None, s')"
    by (simp add: gcs_CompleteMultipartUpload_def gcs_err_def gcs_init_def paths compose example_gcs_def [THEN arg_cong [where f = gc_NewClient]] Let_def)
  have "map_of (fst (gs_world s')) (gcs_key example_gcs_config ''o'') = Some (concat (map ?d ?chunks))"
    using gcs_multipart_concatenates [OF example_gcs_laws run, of ?d] by (simp add: paths gcs_key_def full)
  with run show ?thesis by (simp add: gcs_key_def full)
qed

end
