(* ===== verification/Utils.thy ===== *)
theory Utils
  imports Go_Text "HOL-Library.Signed_Division"
begin

text \<open>
  Small helpers of package \<^verbatim>\<open>util\<close> (\<^verbatim>\<open>slices.go\<close>, \<^verbatim>\<open>default.go\<close>, \<^verbatim>\<open>ternary.go\<close>, \<^verbatim>\<open>apply.go\<close>,
  \<^verbatim>\<open>identity.go\<close>, \<^verbatim>\<open>time.go\<close>). Durations are in nanoseconds; a
  Go \<open>time.Duration\<close> is an int64, and nothing here leaves the range of its arguments.
\<close>

section \<open>Slices and options\<close>

text \<open>\<open>Map\<close> stops at the first error; the mapping function may have effects.\<close>

fun map_loop :: "('a \<Rightarrow> 'w \<Rightarrow> (go_error + 'b) \<times> 'w) \<Rightarrow> 'b list \<Rightarrow> 'a list \<Rightarrow> 'w \<Rightarrow> (go_error + 'b list) \<times> 'w" where
  "map_loop f out [] w = (Inr out, w)"
| "map_loop f out (v # vs) w =
     (case f v w of
        (Inl e, w1) \<Rightarrow> (Inl e, w1)
      | (Inr r, w1) \<Rightarrow> map_loop f (out @ [r]) vs w1)"

definition util_Map :: "('a \<Rightarrow> 'w \<Rightarrow> (go_error + 'b) \<times> 'w) \<Rightarrow> 'a list \<Rightarrow> 'w \<Rightarrow> (go_error + 'b list) \<times> 'w" where
  "util_Map f xs w = (if xs = [] then (Inr [], w) else map_loop f [] xs w)"

definition MapSimple :: "('a \<Rightarrow> 'b) \<Rightarrow> 'a list \<Rightarrow> 'b list" where
  "MapSimple f xs = (if xs = [] then [] else foldl (\<lambda>out v. out @ [f v]) [] xs)"

text \<open>\<open>order\<close> is the order in which Go walks over the map that collects the elements.\<close>

definition SliceUnique :: "('a list \<Rightarrow> 'a list) \<Rightarrow> 'a list \<Rightarrow> 'a list" where
  "SliceUnique order xs = (if xs = [] then [] else order (remdups xs))"

definition SliceSum :: "'a list \<Rightarrow> 'r \<Rightarrow> ('r \<Rightarrow> 'a \<Rightarrow> 'r) \<Rightarrow> 'r" where
  "SliceSum xs start reducer = foldl reducer start xs"

definition OrDefault :: "'a option \<Rightarrow> 'a \<Rightarrow> 'a" where
  "OrDefault r d = (case r of None \<Rightarrow> d | Some x \<Rightarrow> x)"

definition Ternary :: "bool \<Rightarrow> 'a \<Rightarrow> 'a \<Rightarrow> 'a" where
  "Ternary b x y = (if b then x else y)"

definition TernaryFunc :: "bool \<Rightarrow> ('w \<Rightarrow> 'a \<times> 'w) \<Rightarrow> ('w \<Rightarrow> 'a \<times> 'w) \<Rightarrow> 'w \<Rightarrow> 'a \<times> 'w" where
  "TernaryFunc b f g = (if b then f else g)"

definition ApplyIfNotNil :: "'a option \<Rightarrow> ('a \<Rightarrow> 'b option) \<Rightarrow> 'b option" where
  "ApplyIfNotNil v f = (case v of None \<Rightarrow> None | Some x \<Rightarrow> f x)"

definition ApplyIfNotNilDefault :: "'a option \<Rightarrow> 'b \<Rightarrow> ('a \<Rightarrow> 'b) \<Rightarrow> 'b" where
  "ApplyIfNotNilDefault v d f = (case v of None \<Rightarrow> d | Some x \<Rightarrow> f x)"

lemma map_loop_spec:
  "(\<And>v w. f v w = (Inr (g v), w)) \<Longrightarrow> map_loop f out xs w = (Inr (out @ map g xs), w)"
  by (induction xs arbitrary: out) simp_all

lemma MapSimple_map: "MapSimple f xs = map f xs"
proof -
  have "foldl (\<lambda>out v. out @ [f v]) ys xs = ys @ map f xs" for ys
    by (induction xs arbitrary: ys) simp_all
  then show ?thesis by (simp add: MapSimple_def)
qed

section \<open>Durations\<close>

definition MaxDurationSlice :: "int list \<Rightarrow> int" where
  "MaxDurationSlice ds =
     (case ds of [] \<Rightarrow> 0 | d # rest \<Rightarrow> foldl (\<lambda>m x. if x > m then x else m) d rest)"

definition MaxDuration :: "int list \<Rightarrow> int" where
  "MaxDuration ds = MaxDurationSlice ds"

lemma MaxDurationSlice_Max: "ds \<noteq> [] \<Longrightarrow> MaxDurationSlice ds = Max (set ds)"
proof (cases ds)
  case (Cons d rest)
  have "foldl (\<lambda>m x. if x > m then x else m) d rest = Max (set (d # rest))"
  proof (induction rest arbitrary: d)
    case (Cons x xs)
    have "Max (set (d # x # xs)) = Max (set (max d x # xs))"
      by (cases "xs = []") (simp_all add: max.assoc)
    then show ?case using Cons [of "if x > d then x else d"] by (simp add: max_def split: if_splits)
  qed simp
  then show ?thesis using Cons by (simp add: MaxDurationSlice_def)
qed simp

abbreviation Millisecond :: int where "Millisecond \<equiv> 1000000"
abbreviation Second :: int where "Second \<equiv> 1000 * Millisecond"
abbreviation Minute :: int where "Minute \<equiv> 60 * Second"
abbreviation Hour :: int where "Hour \<equiv> 60 * Minute"

text \<open>Go's \<open>/\<close> and \<open>%\<close> truncate towards zero.\<close>

definition duration_parts :: "int \<Rightarrow> (int \<times> string) list" where
  "duration_parts duration =
     (let days = duration sdiv (24 * Hour); d1 = duration smod (24 * Hour);
          hours = d1 sdiv Hour; d2 = d1 smod Hour;
          minutes = d2 sdiv Minute; d3 = d2 smod Minute;
          seconds = d3 sdiv Second; d4 = d3 smod Second;
          millis = d4 sdiv Millisecond
      in filter (\<lambda>(n, u). n > 0) [(days, ''d''), (hours, ''h''), (minutes, ''m''), (seconds, ''s''), (millis, ''ms'')])"

definition FormatDuration :: "int \<Rightarrow> string" where
  "FormatDuration duration =
     (let parts = map (\<lambda>(n, u). show_int n @ u) (duration_parts duration)
      in if parts = [] then ''0ms'' else join_with '' '' parts)"

section \<open>Reading a formatted duration\<close>

text \<open>The reference reader: numbers with units, separated by blanks.\<close>

definition unit_length :: "string \<Rightarrow> int" where
  "unit_length u =
     (if u = ''d'' then 24 * Hour else if u = ''h'' then Hour else if u = ''m'' then Minute
      else if u = ''s'' then Second else Millisecond)"

definition read_part :: "string \<Rightarrow> int" where
  "read_part p =
     (let digit = (\<lambda>c. c \<in> set ''0123456789'')
      in int (read_nat (takeWhile digit p)) * unit_length (dropWhile digit p))"

definition read_duration :: "string \<Rightarrow> int" where
  "read_duration s = sum_list (map read_part (split_on (CHR '' '') s))"

lemma read_part_show:
  assumes "0 \<le> n" "u \<in> {''d'', ''h'', ''m'', ''s'', ''ms''}"
  shows "read_part (show_int n @ u) = n * unit_length u \<and> CHR '' '' \<notin> set (show_int n @ u)"
proof -
  let ?digit = "\<lambda>c. c \<in> set ''0123456789''"
  have digits: "\<forall>c \<in> set (show_nat (nat n)). ?digit c" using show_nat_digits by blast
  have u: "\<not> ?digit (hd u)" "u \<noteq> []" "CHR '' '' \<notin> set u" using assms(2) by auto
  then have "takeWhile ?digit u = []" "dropWhile ?digit u = u" by (cases u; simp)+
  then have "takeWhile ?digit (show_nat (nat n) @ u) = show_nat (nat n)" "dropWhile ?digit (show_nat (nat n) @ u) = u"
    using digits by (simp_all add: takeWhile_append2 dropWhile_append2)
  moreover have "CHR '' '' \<notin> set (show_nat (nat n))" using digits by fastforce
  ultimately show ?thesis using assms(1) u by (simp add: read_part_def show_int_def read_show_nat Let_def)
qed

lemma sum_list_filter_pos:
  "\<forall>(n, u) \<in> set xs. 0 \<le> (n :: int) \<Longrightarrow>
   sum_list (map (\<lambda>(n, u). n * f u) (filter (\<lambda>(n, u). n > 0) xs)) = sum_list (map (\<lambda>(n, u). n * f u) xs)"
  by (induction xs) (auto simp: order.order_iff_strict)

lemma sdiv_div_pos: "0 \<le> (a :: int) \<Longrightarrow> 0 < b \<Longrightarrow> a sdiv b = a div b"
  by (cases "a = 0") (simp_all add: signed_divide_int_def)

lemma smod_mod_pos: "0 \<le> (a :: int) \<Longrightarrow> 0 < b \<Longrightarrow> a smod b = a mod b"
  by (cases "a = 0") (simp_all add: signed_modulo_int_def sdiv_div_pos minus_div_mult_eq_mod)

lemma duration_parts_sum:
  assumes "0 \<le> d"
  shows "sum_list (map (\<lambda>(n, u). n * unit_length u) (duration_parts d)) = d - d mod Millisecond
         \<and> (\<forall>(n, u) \<in> set (duration_parts d). 0 < n \<and> u \<in> {''d'', ''h'', ''m'', ''s'', ''ms''})"
proof -
  have pos: "0 < 24 * Hour" "0 < Hour" "0 < Minute" "0 < Second" "0 < Millisecond" by simp_all
  define d1 where "d1 = d mod (24 * Hour)"
  define d2 where "d2 = d1 mod Hour"
  define d3 where "d3 = d2 mod Minute"
  define d4 where "d4 = d3 mod Second"
  note rest = d1_def [symmetric] d2_def [symmetric] d3_def [symmetric] d4_def [symmetric]
  have nonneg: "0 \<le> d1" "0 \<le> d2" "0 \<le> d3" "0 \<le> d4" by (simp_all add: d1_def d2_def d3_def d4_def)
  let ?xs = "[(d div (24 * Hour), ''d''), (d1 div Hour, ''h''), (d2 div Minute, ''m''),
     (d3 div Second, ''s''), (d4 div Millisecond, ''ms'')]"
  have parts: "duration_parts d = filter (\<lambda>(n, u). n > 0) ?xs"
    unfolding duration_parts_def Let_def
    by (simp only: sdiv_div_pos [OF assms pos(1)] smod_mod_pos [OF assms pos(1)] sdiv_div_pos [OF nonneg(1) pos(2)]
        smod_mod_pos [OF nonneg(1) pos(2)] sdiv_div_pos [OF nonneg(2) pos(3)] smod_mod_pos [OF nonneg(2) pos(3)]
        sdiv_div_pos [OF nonneg(3) pos(4)] smod_mod_pos [OF nonneg(3) pos(4)] sdiv_div_pos [OF nonneg(4) pos(5)] rest)
  have "\<forall>(n, u) \<in> set ?xs. 0 \<le> n"
    using assms nonneg pos by (simp only: list.set ball_simps prod.case pos_imp_zdiv_nonneg_iff simp_thms)
  then have "sum_list (map (\<lambda>(n, u). n * unit_length u) (duration_parts d)) = sum_list (map (\<lambda>(n, u). n * unit_length u) ?xs)"
    unfolding parts by (rule sum_list_filter_pos)
  also have "\<dots> = d div (24 * Hour) * (24 * Hour) + d1 div Hour * Hour + d2 div Minute * Minute
      + d3 div Second * Second + d4 div Millisecond * Millisecond"
    by (simp add: unit_length_def)
  also have "\<dots> = d - d4 mod Millisecond"
    using div_mult_mod_eq [of d "24 * Hour"] div_mult_mod_eq [of d1 Hour] div_mult_mod_eq [of d2 Minute]
      div_mult_mod_eq [of d3 Second] div_mult_mod_eq [of d4 Millisecond] unfolding rest by linarith
  also have "d4 mod Millisecond = d mod Millisecond"
    unfolding d4_def d3_def d2_def d1_def by (simp only: mod_mod_cancel dvd_triv_right dvd_mult)
  finally show ?thesis using parts by auto
qed

lemma sdiv_nonpos: "(a :: int) \<le> 0 \<Longrightarrow> 0 < b \<Longrightarrow> a sdiv b \<le> 0"
  by (cases "a = 0") (simp_all add: signed_divide_int_def mult_nonpos_nonneg pos_imp_zdiv_nonneg_iff)

lemma smod_nonpos: "(a :: int) \<le> 0 \<Longrightarrow> 0 < b \<Longrightarrow> a smod b \<le> 0"
  by (cases "a = 0") (simp_all add: signed_modulo_int_def)

lemma duration_parts_negative:
  assumes "d \<le> 0"
  shows "duration_parts d = []"
proof -
  have pos: "0 < 24 * Hour" "0 < Hour" "0 < Minute" "0 < Second" "0 < Millisecond" by simp_all
  define d1 where "d1 = d smod (24 * Hour)"
  define d2 where "d2 = d1 smod Hour"
  define d3 where "d3 = d2 smod Minute"
  define d4 where "d4 = d3 smod Second"
  note rest = d1_def [symmetric] d2_def [symmetric] d3_def [symmetric] d4_def [symmetric]
  have le: "d1 \<le> 0" using smod_nonpos [OF assms pos(1)] by (simp only: d1_def)
  have le2: "d2 \<le> 0" using smod_nonpos [OF le pos(2)] by (simp only: d2_def)
  have le3: "d3 \<le> 0" using smod_nonpos [OF le2 pos(3)] by (simp only: d3_def)
  have le4: "d4 \<le> 0" using smod_nonpos [OF le3 pos(4)] by (simp only: d4_def)
  show ?thesis
    unfolding duration_parts_def Let_def rest
    using sdiv_nonpos [OF assms pos(1)] sdiv_nonpos [OF le pos(2)] sdiv_nonpos [OF le2 pos(3)]
      sdiv_nonpos [OF le3 pos(4)] sdiv_nonpos [OF le4 pos(5)]
    by (simp only: filter.simps prod.case not_less [symmetric] if_False)
qed

section \<open>Properties\<close>

text \<open>A formatted duration reads back as the duration, rounded down to whole milliseconds; negative
  durations are all shown as zero.\<close>

lemma format_duration_reads_back:
  "read_duration (FormatDuration d) = (if d < 0 then 0 else d - d mod Millisecond)"
proof (cases "duration_parts d = []")
  case True
  then have "read_duration (FormatDuration d) = 0" by (simp add: FormatDuration_def) code_simp
  with True duration_parts_sum [of d] show ?thesis by (cases "d < 0") simp_all
next
  case False
  then have d: "0 \<le> d" using duration_parts_negative [of d] by linarith
  note parts = duration_parts_sum [OF d]
  let ?texts = "map (\<lambda>(n, u). show_int n @ u) (duration_parts d)"
  have part: "read_part (show_int n @ u) = n * unit_length u \<and> CHR '' '' \<notin> set (show_int n @ u)"
    if "(n, u) \<in> set (duration_parts d)" for n u
    using parts that by (intro read_part_show) auto
  then have "\<forall>x \<in> set ?texts. CHR '' '' \<notin> set x" by auto
  with False have "read_duration (FormatDuration d) = sum_list (map read_part ?texts)"
    by (simp add: read_duration_def FormatDuration_def split_join)
  also have "map read_part ?texts = map (\<lambda>(n, u). n * unit_length u) (duration_parts d)"
    using part by auto
  finally show ?thesis using parts d by simp
qed

end
