(* ===== verification/Cli.thy ===== *)
theory Cli
  imports Go_Files Utils
begin

text \<open>
  Package \<^verbatim>\<open>cli\<close>: requests and their options, the command that is built from one, and its execution with
  the mapping of exit codes to errors. How a process behaves is a parameter: it maps a command and the
  state of the world to what \<open>Run\<close> reports and to the output of the process.
\<close>

section \<open>Requests\<close>

text \<open>
  A Go map of strings is an association list with distinct keys; its order is the order in which a
  \<open>range\<close> over the map happens to go. Writers are open files.
\<close>

record request =
  rq_workDir :: string
  rq_stdout :: "fpath option"
  rq_stderr :: "fpath option"
  rq_envs :: "(string \<times> string) list"

type_synonym cli_option = "request \<Rightarrow> request"

definition NewRequest :: request where
  "NewRequest = \<lparr>rq_workDir = [], rq_stdout = None, rq_stderr = None, rq_envs = []\<rparr>"

definition maps_Copy :: "('k \<times> 'v) list \<Rightarrow> ('k \<times> 'v) list \<Rightarrow> ('k \<times> 'v) list" where
  "maps_Copy dst src = foldl (\<lambda>m (k, v). AList.update k v m) dst src"

definition cli_WithWorkDir :: "string \<Rightarrow> cli_option" where
  "cli_WithWorkDir dir r = r\<lparr>rq_workDir := dir\<rparr>"

definition cli_WithStdout :: "fpath \<Rightarrow> cli_option" where
  "cli_WithStdout f r = r\<lparr>rq_stdout := Some f\<rparr>"

definition cli_WithStderr :: "fpath \<Rightarrow> cli_option" where
  "cli_WithStderr f r = r\<lparr>rq_stderr := Some f\<rparr>"

definition cli_WithEnv :: "string \<Rightarrow> string \<Rightarrow> cli_option" where
  "cli_WithEnv name v r = r\<lparr>rq_envs := AList.update name v (rq_envs r)\<rparr>"

definition cli_WithEnvs :: "(string \<times> string) list \<Rightarrow> cli_option" where
  "cli_WithEnvs envs r = r\<lparr>rq_envs := maps_Copy (rq_envs r) envs\<rparr>"

section \<open>Commands\<close>

text \<open>\<open>exec.Cmd\<close>: without an environment of its own a command inherits the caller's.\<close>

record command =
  cm_path :: string
  cm_args :: "string list"
  cm_dir :: string
  cm_env :: "string list option"
  cm_stdout :: "fpath option"
  cm_stderr :: "fpath option"

definition buildCommand :: "string list \<Rightarrow> string \<Rightarrow> request \<Rightarrow> string list \<Rightarrow> command" where
  "buildCommand environ toolPath request args =
     \<lparr>cm_path = toolPath, cm_args = args, cm_dir = rq_workDir request,
      cm_env = (if rq_envs request \<noteq> []
                then Some (environ @ map (\<lambda>(k, v). k @ ''='' @ v) (rq_envs request)) else None),
      cm_stdout = rq_stdout request, cm_stderr = rq_stderr request\<rparr>"

text \<open>
  What \<open>Run\<close> finds: the process ended with a code, was killed by a signal (then \<open>ExitStatus\<close> is -1), or
  could not be run or waited for.
\<close>

datatype run_status = Exited nat | Signaled | NotRun go_error

record run_outcome =
  ro_status :: run_status
  ro_stdout :: "byte list"
  ro_stderr :: "byte list"

datatype exec_error = ExitError | RunError go_error

record exec_result =
  er_exitCode :: int
  er_stdout :: "byte list"
  er_stderr :: "byte list"

definition ExecCommand ::
  "(command \<Rightarrow> 'w \<Rightarrow> run_outcome \<times> 'w) \<Rightarrow> command \<Rightarrow> bool \<Rightarrow> 'w \<Rightarrow> (exec_result \<times> exec_error option) \<times> 'w" where
  "ExecCommand run cmd failIfExitCodeNotZero w =
     (case run cmd w of
        (ro, w1) \<Rightarrow>
          (let result = (\<lambda>code. \<lparr>er_exitCode = code, er_stdout = ro_stdout ro, er_stderr = ro_stderr ro\<rparr>)
           in ((case ro_status ro of
                  NotRun e \<Rightarrow> (result (-1), Some (RunError e))
                | Signaled \<Rightarrow> (result (-1), if failIfExitCodeNotZero then Some ExitError else None)
                | Exited n \<Rightarrow>
                    if failIfExitCodeNotZero \<and> n \<noteq> 0 then (result (int n), Some ExitError)
                    else (result (int n), None)), w1)))"

definition cli_Exec ::
  "string list \<Rightarrow> (command \<Rightarrow> 'w \<Rightarrow> run_outcome \<times> 'w) \<Rightarrow> string \<Rightarrow> string list \<Rightarrow> cli_option list \<Rightarrow> 'w
   \<Rightarrow> (exec_result \<times> go_error option) \<times> 'w" where
  "cli_Exec environ run toolPath args options w =
     (let request = foldl (\<lambda>r opt. opt r) NewRequest options;
          cmd = buildCommand environ toolPath request args
      in case ExecCommand run cmd True w of
           ((result, err), w1) \<Rightarrow>
             ((result,
               (case err of
                  Some (RunError e) \<Rightarrow> Some (Wrap [] [Atom ErrExec, e])
                | _ \<Rightarrow>
                    if er_exitCode result \<noteq> 0
                    then Some (Wrap (if er_stderr result \<noteq> []
                                     then show_int (er_exitCode result) @ '': '' @ er_stderr result
                                     else show_int (er_exitCode result)) [Atom ErrExitCode])
                    else None)), w1))"

section \<open>Lemmas\<close>

lemma map_of_maps_Copy:
  assumes "distinct (map fst src)"
  shows "map_of (maps_Copy dst src) k = (case map_of src k of Some v \<Rightarrow> Some v | None \<Rightarrow> map_of dst k)"
  using assms
proof (induction src arbitrary: dst)
  case (Cons x src)
  obtain k' v where x: "x = (k', v)" by fastforce
  have "map_of src k' = None" using Cons.prems x by (simp add: map_of_eq_None_iff)
  then show ?case using Cons x by (auto simp: maps_Copy_def update_conv split: option.split)
qed (simp add: maps_Copy_def)

lemma distinct_maps_Copy: "distinct (map fst dst) \<Longrightarrow> distinct (map fst (maps_Copy dst src))"
  by (induction src arbitrary: dst) (auto simp: maps_Copy_def distinct_update)

text \<open>An error of \<open>Exec\<close> and its exit code say what became of the process.\<close>

lemma cli_Exec_result:
  assumes "cli_Exec environ run toolPath args options w = ((result, err), w')"
  shows "\<exists>ro. run (buildCommand environ toolPath (foldl (\<lambda>r opt. opt r) NewRequest options) args) w = (ro, w')
     \<and> er_stdout result = ro_stdout ro \<and> er_stderr result = ro_stderr ro
     \<and> (err = None \<longleftrightarrow> ro_status ro = Exited 0)
     \<and> (err = None \<longrightarrow> er_exitCode result = 0)
     \<and> (er_exitCode result = 0 \<longleftrightarrow> ro_status ro = Exited 0)
     \<and> er_exitCode result = (case ro_status ro of Exited n \<Rightarrow> int n | _ \<Rightarrow> -1)"
  using assms
  by (auto simp: cli_Exec_def ExecCommand_def Let_def split: prod.splits run_status.splits if_splits)

end
