(* ===== verification/Flows.thy ===== *)
theory Flows
  imports Cli Storages
begin

text \<open>
  Package \<^verbatim>\<open>flow\<close>: a flow runs a list of actions - commands, scripts, triggers, results - one after the other
  and collects their responses (\<^verbatim>\<open>flow.go\<close>, with the values of \<^verbatim>\<open>action.go\<close>, \<^verbatim>\<open>action_response.go\<close>,
  \<^verbatim>\<open>action_trigger.go\<close>, \<^verbatim>\<open>action_result.go\<close>, \<^verbatim>\<open>entities.go\<close>, \<^verbatim>\<open>option.go\<close>, \<^verbatim>\<open>util.go\<close>).

  The state is a world of local files and a rest of any type. Template and script drivers, triggers, the
  processes that commands start and the clock are parameters; each maps the whole world to a new one,
  so that a script may well write files or a process change them. Values of type \<open>any\<close> are a type variable.
\<close>

section \<open>Actions and responses\<close>

type_synonym 'v object = "(string \<times> 'v) list"

record 'v action_trigger =
  tg_Name :: string
  tg_Data :: "'v object option"
  tg_DataScript :: string
  tg_Async :: bool

record action_result =
  rs_DataScript :: string

record 'v action =
  ac_Name :: string
  ac_Trigger :: "'v action_trigger option"
  ac_Result :: "action_result option"
  ac_Command :: string
  ac_WorkDir :: string
  ac_Env :: "(string \<times> string) list"
  ac_EnvTemplate :: string
  ac_EnvScript :: string
  ac_Args :: "string list"
  ac_ArgsTemplate :: string
  ac_ArgsScript :: string
  ac_FailIfNonZeroCode :: "bool option"
  ac_Stdout :: string
  ac_Stderr :: string
  ac_ScriptFile :: string
  ac_Script :: string
  ac_When :: string

definition NewActionTrigger :: "string \<Rightarrow> 'v action_trigger" where
  "NewActionTrigger name = \<lparr>tg_Name = name, tg_Data = None, tg_DataScript = [], tg_Async = False\<rparr>"

definition tg_WithData :: "'v object option \<Rightarrow> 'v action_trigger \<Rightarrow> 'v action_trigger" where
  "tg_WithData d t = t\<lparr>tg_Data := d\<rparr>"

definition tg_WithDataScript :: "string \<Rightarrow> 'v action_trigger \<Rightarrow> 'v action_trigger" where
  "tg_WithDataScript s t = t\<lparr>tg_DataScript := s\<rparr>"

definition tg_WithAsync :: "'v action_trigger \<Rightarrow> 'v action_trigger" where
  "tg_WithAsync t = t\<lparr>tg_Async := True\<rparr>"

definition NewActionResult :: action_result where
  "NewActionResult = \<lparr>rs_DataScript = []\<rparr>"

definition rs_WithDataScript :: "string \<Rightarrow> action_result \<Rightarrow> action_result" where
  "rs_WithDataScript s r = r\<lparr>rs_DataScript := s\<rparr>"

definition NewAction :: "string \<Rightarrow> 'v action" where
  "NewAction name =
     \<lparr>ac_Name = name, ac_Trigger = None, ac_Result = None, ac_Command = [], ac_WorkDir = [], ac_Env = [],
      ac_EnvTemplate = [], ac_EnvScript = [], ac_Args = [], ac_ArgsTemplate = [], ac_ArgsScript = [],
      ac_FailIfNonZeroCode = None, ac_Stdout = [], ac_Stderr = [], ac_ScriptFile = [], ac_Script = [], ac_When = []\<rparr>"

definition ac_WithTrigger :: "'v action_trigger \<Rightarrow> 'v action \<Rightarrow> 'v action" where
  "ac_WithTrigger t a = a\<lparr>ac_Trigger := Some t\<rparr>"

definition ac_WithResult :: "action_result \<Rightarrow> 'v action \<Rightarrow> 'v action" where
  "ac_WithResult r a = a\<lparr>ac_Result := Some r\<rparr>"

definition ac_WithCommand :: "string \<Rightarrow> string list \<Rightarrow> 'v action \<Rightarrow> 'v action" where
  "ac_WithCommand cmd args a = a\<lparr>ac_Command := cmd, ac_Args := args\<rparr>"

definition ac_WithWorkDir :: "string \<Rightarrow> 'v action \<Rightarrow> 'v action" where
  "ac_WithWorkDir d a = a\<lparr>ac_WorkDir := d\<rparr>"

definition ac_WithEnvs :: "(string \<times> string) list \<Rightarrow> 'v action \<Rightarrow> 'v action" where
  "ac_WithEnvs e a = a\<lparr>ac_Env := e\<rparr>"

definition ac_WithEnvTemplate :: "string \<Rightarrow> 'v action \<Rightarrow> 'v action" where
  "ac_WithEnvTemplate s a = a\<lparr>ac_EnvTemplate := s\<rparr>"

definition ac_WithEnvScript :: "string \<Rightarrow> 'v action \<Rightarrow> 'v action" where
  "ac_WithEnvScript s a = a\<lparr>ac_EnvScript := s\<rparr>"

definition ac_WithArgs :: "string list \<Rightarrow> 'v action \<Rightarrow> 'v action" where
  "ac_WithArgs xs a = a\<lparr>ac_Args := xs\<rparr>"

definition ac_WithArgsTemplate :: "string \<Rightarrow> 'v action \<Rightarrow> 'v action" where
  "ac_WithArgsTemplate s a = a\<lparr>ac_ArgsTemplate := s\<rparr>"

definition ac_WithArgsScript :: "string \<Rightarrow> 'v action \<Rightarrow> 'v action" where
  "ac_WithArgsScript s a = a\<lparr>ac_ArgsScript := s\<rparr>"

definition ac_WithFailIfNonZeroCode :: "bool \<Rightarrow> 'v action \<Rightarrow> 'v action" where
  "ac_WithFailIfNonZeroCode b a = a\<lparr>ac_FailIfNonZeroCode := Some b\<rparr>"

definition ac_WithStdout :: "string \<Rightarrow> 'v action \<Rightarrow> 'v action" where
  "ac_WithStdout s a = a\<lparr>ac_Stdout := s\<rparr>"

definition ac_WithStderr :: "string \<Rightarrow> 'v action \<Rightarrow> 'v action" where
  "ac_WithStderr s a = a\<lparr>ac_Stderr := s\<rparr>"

definition ac_WithScript :: "string \<Rightarrow> 'v action \<Rightarrow> 'v action" where
  "ac_WithScript s a = a\<lparr>ac_Script := s\<rparr>"

definition ac_WithScriptFile :: "string \<Rightarrow> 'v action \<Rightarrow> 'v action" where
  "ac_WithScriptFile s a = a\<lparr>ac_ScriptFile := s\<rparr>"

definition ac_WithWhen :: "string \<Rightarrow> 'v action \<Rightarrow> 'v action" where
  "ac_WithWhen s a = a\<lparr>ac_When := s\<rparr>"

text \<open>Times are readings of the clock in nanoseconds; a fresh response has the zero time.\<close>

record response =
  re_ErrorCode :: int
  re_Stdout :: string
  re_Stderr :: string
  re_Skipped :: bool
  re_StartedAt :: int
  re_FinishedAt :: int
  re_Duration :: int
  re_Result :: string

definition NewActionResponse :: response where
  "NewActionResponse =
     \<lparr>re_ErrorCode = 0, re_Stdout = [], re_Stderr = [], re_Skipped = False, re_StartedAt = 0,
      re_FinishedAt = 0, re_Duration = 0, re_Result = []\<rparr>"

definition re_WithExitCode :: "int \<Rightarrow> response \<Rightarrow> response" where
  "re_WithExitCode c r = r\<lparr>re_ErrorCode := c\<rparr>"

definition re_WithStdout :: "string \<Rightarrow> response \<Rightarrow> response" where
  "re_WithStdout s r = r\<lparr>re_Stdout := s\<rparr>"

definition re_WithStderr :: "string \<Rightarrow> response \<Rightarrow> response" where
  "re_WithStderr s r = r\<lparr>re_Stderr := s\<rparr>"

definition re_WithStartedAt :: "int \<Rightarrow> response \<Rightarrow> response" where
  "re_WithStartedAt t r = r\<lparr>re_StartedAt := t\<rparr>"

definition re_WithFinishedAt :: "int \<Rightarrow> response \<Rightarrow> response" where
  "re_WithFinishedAt t r = r\<lparr>re_FinishedAt := t\<rparr>"

definition re_WithDuration :: "int \<Rightarrow> response \<Rightarrow> response" where
  "re_WithDuration d r = r\<lparr>re_Duration := d\<rparr>"

definition re_WithSkipped :: "bool \<Rightarrow> response \<Rightarrow> response" where
  "re_WithSkipped b r = r\<lparr>re_Skipped := b\<rparr>"

definition re_WithResult :: "string \<Rightarrow> response \<Rightarrow> response" where
  "re_WithResult s r = r\<lparr>re_Result := s\<rparr>"

section \<open>Environments\<close>

text \<open>A nil map and an empty one behave the same here.\<close>

record 'v env =
  en_WorkDir :: string
  en_Context :: "'v object"
  en_Env :: "(string \<times> string) list"

type_synonym 'v env_option = "'v env \<Rightarrow> 'v env"

definition en_WithEnv :: "string \<Rightarrow> string \<Rightarrow> 'v env_option" where
  "en_WithEnv name v e = e\<lparr>en_Env := AList.update name v (en_Env e)\<rparr>"

definition en_WithEnvs :: "(string \<times> string) list \<Rightarrow> 'v env_option" where
  "en_WithEnvs envs e = e\<lparr>en_Env := maps_Copy (en_Env e) envs\<rparr>"

definition NewEnv :: "string \<Rightarrow> 'v object option \<Rightarrow> 'v env_option list \<Rightarrow> 'v env" where
  "NewEnv workDir ctx options =
     foldl (\<lambda>e opt. opt e)
       \<lparr>en_WorkDir = workDir, en_Context = (case ctx of None \<Rightarrow> [] | Some c \<Rightarrow> c), en_Env = []\<rparr> options"

record 'v flow_result =
  fr_responses :: "(string \<times> response) list"
  fr_Data :: "'v object option"

section \<open>The engine\<close>

record ('v, 'w) world =
  wo_files :: fs
  wo_spawned :: "(string \<times> 'v object) list"
  wo_rest :: 'w

text \<open>\<open>wo_spawned\<close> are the asynchronous triggers that were started, newest last.\<close>

type_synonym ('v, 'w, 'r) call = "('v, 'w) world \<Rightarrow> (go_error + 'r) \<times> ('v, 'w) world"

record ('v, 'w) script_driver =
  sd_Execute :: "'v env \<Rightarrow> string \<Rightarrow> string \<Rightarrow> ('v, 'w, 'v) call"
  sd_ValueToString :: "'v \<Rightarrow> ('v, 'w, string) call"
  sd_ValueToBool :: "'v \<Rightarrow> ('v, 'w, bool) call"
  sd_ValueToStringSlice :: "'v \<Rightarrow> ('v, 'w, string list) call"
  sd_ValueToMapStringString :: "'v \<Rightarrow> ('v, 'w, (string \<times> string) list) call"
  sd_ValueToMapStringAny :: "'v \<Rightarrow> ('v, 'w, 'v object) call"
  sd_AnyToValue :: "'v \<Rightarrow> ('v, 'w, 'v) call"
  sd_NewError :: "go_error \<Rightarrow> 'v"

text \<open>The processes, the clock and the encodings of JSON and YAML of the machine the engine runs on.\<close>

record ('v, 'w) host =
  ho_environ :: "string list"
  ho_run :: "command \<Rightarrow> ('v, 'w) world \<Rightarrow> run_outcome \<times> ('v, 'w) world"
  ho_now :: "('v, 'w) world \<Rightarrow> int \<times> ('v, 'w) world"
  ho_json :: "'v object \<Rightarrow> go_error + string"
  ho_yaml_slice :: "string \<Rightarrow> go_error + string list"
  ho_yaml_string :: "string \<Rightarrow> go_error + string"
  ho_yaml_object :: "string \<Rightarrow> go_error + 'v object"
  ho_as_string :: "'v \<Rightarrow> string option"

record ('v, 'w) flow =
  fl_actions :: "'v action list"
  fl_storage :: "('v, 'w) world store_ops"
  fl_template :: "('v env \<Rightarrow> string \<Rightarrow> string \<Rightarrow> ('v, 'w, string) call) option"
  fl_script :: "('v, 'w) script_driver option"
  fl_triggers :: "(string \<times> ('v object \<Rightarrow> ('v, 'w, 'v object) call)) list"
  fl_logsDir :: "string option"
  fl_logFilePrefix :: "string option"
  fl_host :: "('v, 'w) host"

type_synonym ('v, 'w) flow_option = "('v, 'w) flow \<Rightarrow> ('v, 'w) flow"

definition WithLogFiles :: "string \<Rightarrow> string \<Rightarrow> ('v, 'w) flow_option" where
  "WithLogFiles logsDir logFilePrefix fl = fl\<lparr>fl_logsDir := Some logsDir, fl_logFilePrefix := Some logFilePrefix\<rparr>"

definition NewFlow ::
  "'v action list \<Rightarrow> ('v, 'w) world store_ops \<Rightarrow> ('v env \<Rightarrow> string \<Rightarrow> string \<Rightarrow> ('v, 'w, string) call) option
   \<Rightarrow> ('v, 'w) script_driver option \<Rightarrow> (string \<times> ('v object \<Rightarrow> ('v, 'w, 'v object) call)) list option
   \<Rightarrow> ('v, 'w) host \<Rightarrow> ('v, 'w) flow_option list \<Rightarrow> ('v, 'w) flow" where
  "NewFlow actions storage template script triggers host options =
     foldl (\<lambda>fl opt. opt fl)
       \<lparr>fl_actions = actions, fl_storage = storage, fl_template = template, fl_script = script,
        fl_triggers = (case triggers of None \<Rightarrow> [] | Some t \<Rightarrow> t), fl_logsDir = None, fl_logFilePrefix = None,
        fl_host = host\<rparr> options"

text \<open>\<open>if x, err := m(); err != nil { return ... }\<close>, and the returns.\<close>

definition attempt ::
  "(go_error \<Rightarrow> 'e) \<Rightarrow> ('s \<Rightarrow> (go_error + 'a) \<times> 's) \<Rightarrow> ('a \<Rightarrow> 's \<Rightarrow> ('e + 'b) \<times> 's) \<Rightarrow> 's \<Rightarrow> ('e + 'b) \<times> 's" where
  "attempt err m k s = (case m s of (Inl e, s1) \<Rightarrow> (Inl (err e), s1) | (Inr x, s1) \<Rightarrow> k x s1)"

definition give :: "'a \<Rightarrow> 's \<Rightarrow> ('e + 'a) \<times> 's" where
  "give x s = (Inr x, s)"

definition fail :: "'e \<Rightarrow> 's \<Rightarrow> ('e + 'a) \<times> 's" where
  "fail e s = (Inl e, s)"

abbreviation wrapped :: "string \<Rightarrow> go_error \<Rightarrow> go_error" where
  "wrapped msg e \<equiv> Wrap msg [e]"

text \<open>The error of an action may come with a response.\<close>

abbreviation no_response :: "string \<Rightarrow> go_error \<Rightarrow> response option \<times> go_error" where
  "no_response msg e \<equiv> (None, Wrap msg [e])"

definition on_files :: "(fs \<Rightarrow> go_error option \<times> fs) \<Rightarrow> ('v, 'w, unit) call" where
  "on_files f w = (case f (wo_files w) of (e, f1) \<Rightarrow> (as_sum e, w\<lparr>wo_files := f1\<rparr>))"

text \<open>A deferred \<open>Close\<close> whose error is only logged.\<close>

definition closing_file :: "(('v, 'w) world \<Rightarrow> 'r \<times> ('v, 'w) world) \<Rightarrow> ('v, 'w) world \<Rightarrow> 'r \<times> ('v, 'w) world" where
  "closing_file m w = (case m w of (r, w1) \<Rightarrow> (r, w1\<lparr>wo_files := snd (os_Close (wo_files w1))\<rparr>))"

definition boolInc :: "int \<Rightarrow> bool \<Rightarrow> int" where
  "boolInc prev current = (if current then prev + 1 else prev)"

definition options_sum :: "bool list \<Rightarrow> int" where
  "options_sum bs = SliceSum bs 0 boolInc"

section \<open>Templates and scripts\<close>

definition evalTemplate :: "('v, 'w) flow \<Rightarrow> 'v env \<Rightarrow> string \<Rightarrow> string \<Rightarrow> ('v, 'w, string) call" where
  "evalTemplate fl env name source =
     (case fl_template fl of None \<Rightarrow> give source | Some t \<Rightarrow> t env name source)"

definition evalScript :: "('v, 'w) flow \<Rightarrow> 'v env \<Rightarrow> string \<Rightarrow> string \<Rightarrow> ('v, 'w, 'v) call" where
  "evalScript fl env name source =
     (case fl_script fl of None \<Rightarrow> fail (Atom ErrNoScriptDriver) | Some d \<Rightarrow> sd_Execute d env name source)"

text \<open>A method of the script driver, called only after a script has run, so that there is a driver.\<close>

definition driver_call ::
  "('v, 'w) flow \<Rightarrow> (('v, 'w) script_driver \<Rightarrow> 'v \<Rightarrow> ('v, 'w, 'r) call) \<Rightarrow> 'v \<Rightarrow> ('v, 'w, 'r) call" where
  "driver_call fl method v =
     (case fl_script fl of None \<Rightarrow> fail (Atom ErrNoScriptDriver) | Some d \<Rightarrow> method d v)"

text \<open>The exported methods pass on to a driver; without one they dereference a nil pointer (\<open>None\<close>).\<close>

definition fl_EvalTemplate :: "('v, 'w) flow \<Rightarrow> 'v env \<Rightarrow> string \<Rightarrow> string \<Rightarrow> ('v, 'w, string) call option" where
  "fl_EvalTemplate fl env name source = map_option (\<lambda>t. t env name source) (fl_template fl)"

definition fl_EvalScript :: "('v, 'w) flow \<Rightarrow> 'v env \<Rightarrow> string \<Rightarrow> string \<Rightarrow> ('v, 'w, 'v) call option" where
  "fl_EvalScript fl env name source = map_option (\<lambda>d. sd_Execute d env name source) (fl_script fl)"

definition fl_ValueToString :: "('v, 'w) flow \<Rightarrow> 'v \<Rightarrow> ('v, 'w, string) call option" where
  "fl_ValueToString fl v = map_option (\<lambda>d. sd_ValueToString d v) (fl_script fl)"

definition fl_ValueToBool :: "('v, 'w) flow \<Rightarrow> 'v \<Rightarrow> ('v, 'w, bool) call option" where
  "fl_ValueToBool fl v = map_option (\<lambda>d. sd_ValueToBool d v) (fl_script fl)"

definition fl_ValueToStringSlice :: "('v, 'w) flow \<Rightarrow> 'v \<Rightarrow> ('v, 'w, string list) call option" where
  "fl_ValueToStringSlice fl v = map_option (\<lambda>d. sd_ValueToStringSlice d v) (fl_script fl)"

definition fl_ValueToMapStringString :: "('v, 'w) flow \<Rightarrow> 'v \<Rightarrow> ('v, 'w, (string \<times> string) list) call option" where
  "fl_ValueToMapStringString fl v = map_option (\<lambda>d. sd_ValueToMapStringString d v) (fl_script fl)"

definition fl_AnyToValue :: "('v, 'w) flow \<Rightarrow> 'v \<Rightarrow> ('v, 'w, 'v) call option" where
  "fl_AnyToValue fl v = map_option (\<lambda>d. sd_AnyToValue d v) (fl_script fl)"

definition fl_NewError :: "('v, 'w) flow \<Rightarrow> go_error \<Rightarrow> 'v option" where
  "fl_NewError fl e = map_option (\<lambda>d. sd_NewError d e) (fl_script fl)"

definition actionWhen :: "('v, 'w) flow \<Rightarrow> 'v env \<Rightarrow> 'v action \<Rightarrow> ('v, 'w, bool) call" where
  "actionWhen fl env a =
     (if ac_When a = [] then give True
      else attempt (wrapped ''eval js when'') (evalScript fl env (''action.'' @ ac_Name a @ ''.when'') (ac_When a))
             (\<lambda>v. attempt (wrapped ''jsValue to bool'') (driver_call fl sd_ValueToBool v) give))"

text \<open>Results of templates: a YAML list, a YAML string or a plain word; a YAML object.\<close>

definition UnmarshalTemplateResultSlice :: "('v, 'w) host \<Rightarrow> string \<Rightarrow> go_error + string list" where
  "UnmarshalTemplateResultSlice ho s =
     (let result = TrimSpace s
      in if has_prefix result ''['' then
           (case ho_yaml_slice ho result of Inl e \<Rightarrow> Inl (wrapped ''unmarshalling result as slice of strings'' e) | Inr xs \<Rightarrow> Inr xs)
         else if has_prefix result [char_of (34 :: nat)] then
           (case ho_yaml_string ho result of Inl e \<Rightarrow> Inl (wrapped ''unmarshalling result as string'' e) | Inr x \<Rightarrow> Inr [x])
         else Inr [result])"

definition unmarshalTemplateResultObject :: "('v, 'w) host \<Rightarrow> string \<Rightarrow> go_error + 'v object" where
  "unmarshalTemplateResultObject ho s =
     (let result = TrimSpace s
      in if has_prefix result ''{'' then
           (case ho_yaml_object ho result of Inl e \<Rightarrow> Inl (wrapped ''unmarshalling result as object'' e) | Inr obj \<Rightarrow> Inr obj)
         else Inl (Atom ErrUnmarshalResultObject))"

fun asMapStringString :: "('v \<Rightarrow> string option) \<Rightarrow> (string \<times> string) list \<Rightarrow> 'v object \<Rightarrow> go_error + (string \<times> string) list" where
  "asMapStringString as_string result [] = Inr result"
| "asMapStringString as_string result ((key, v) # rest) =
     (case as_string v of
        None \<Rightarrow> Inl (Wrap (''json object key '' @ key @ '' is not a string'') [Atom ErrAsMapStringString])
      | Some s \<Rightarrow> asMapStringString as_string (AList.update key s result) rest)"

section \<open>Environment and arguments of a command\<close>

fun env_loop ::
  "('v, 'w) flow \<Rightarrow> 'v env \<Rightarrow> string \<Rightarrow> (string \<times> string) list \<Rightarrow> (string \<times> string) list \<Rightarrow> ('v, 'w, (string \<times> string) list) call" where
  "env_loop fl env name envs [] = give envs"
| "env_loop fl env name envs ((envName, envValue) # rest) =
     (let templateName = ''action.'' @ name @ ''.'' @ envName
      in attempt (wrapped (''eval env '' @ templateName @ '' key '' @ envName)) (evalTemplate fl env templateName envValue)
           (\<lambda>r. env_loop fl env name (AList.update envName r envs) rest))"

definition getActionEnv :: "('v, 'w) flow \<Rightarrow> 'v env \<Rightarrow> 'v action \<Rightarrow> ('v, 'w, (string \<times> string) list) call" where
  "getActionEnv fl env a =
     (let hasEnv = ac_Env a \<noteq> []; hasEnvTemplate = ac_EnvTemplate a \<noteq> []; hasEnvScript = ac_EnvScript a \<noteq> []
      in if options_sum [hasEnv, hasEnvTemplate, hasEnvScript] > 1 then fail (Atom ErrActionEnvTooManyOptions)
         else if hasEnv then env_loop fl env (ac_Name a) [] (ac_Env a)
         else if hasEnvTemplate then
           (let templateName = ''action.'' @ ac_Name a @ ''.env_template''
            in attempt (wrapped (''eval env template '' @ templateName)) (evalTemplate fl env templateName (ac_EnvTemplate a))
                 (\<lambda>r. attempt (wrapped (''unmarshal env template '' @ templateName))
                        (Pair (unmarshalTemplateResultObject (fl_host fl) r))
                        (\<lambda>obj. attempt (wrapped (''asMapStringString env for action '' @ ac_Name a))
                                 (Pair (asMapStringString (ho_as_string (fl_host fl)) [] obj)) give)))
         else if hasEnvScript then
           (let templateName = ''action.'' @ ac_Name a @ ''.env_script''
            in attempt (wrapped (''eval env script '' @ templateName)) (evalScript fl env templateName (ac_EnvScript a))
                 (\<lambda>v. attempt (wrapped (''eval env script '' @ templateName @ '' result to string''))
                        (driver_call fl sd_ValueToMapStringString v) give))
         else give [])"

fun args_loop ::
  "('v, 'w) flow \<Rightarrow> 'v env \<Rightarrow> string \<Rightarrow> nat \<Rightarrow> string list \<Rightarrow> string list \<Rightarrow> ('v, 'w, string list) call" where
  "args_loop fl env name argIndex args [] = give args"
| "args_loop fl env name argIndex args (arg # rest) =
     (let templateName = ''action.'' @ name @ ''.'' @ show_nat argIndex
      in attempt (wrapped (''eval arg '' @ templateName @ '' index '' @ show_nat argIndex)) (evalTemplate fl env templateName arg)
           (\<lambda>r. args_loop fl env name (Suc argIndex) (args @ [TrimSpace r]) rest))"

text \<open>Empty arguments are dropped in the end.\<close>

definition getActionArgs :: "('v, 'w) flow \<Rightarrow> 'v env \<Rightarrow> 'v action \<Rightarrow> ('v, 'w, string list) call" where
  "getActionArgs fl env a =
     (let hasArgs = ac_Args a \<noteq> []; hasArgsTemplate = ac_ArgsTemplate a \<noteq> []; hasArgsScript = ac_ArgsScript a \<noteq> [];
          filtered = (\<lambda>args. give (filter (\<lambda>arg. arg \<noteq> []) args))
      in if options_sum [hasArgs, hasArgsTemplate, hasArgsScript] > 1 then fail (Atom ErrActionArgsTooManyOptions)
         else if hasArgs then attempt id (args_loop fl env (ac_Name a) 0 [] (ac_Args a)) filtered
         else if hasArgsTemplate then
           (let templateName = ''action.'' @ ac_Name a @ ''.args_template''
            in attempt (wrapped (''eval arg template '' @ templateName)) (evalTemplate fl env templateName (ac_ArgsTemplate a))
                 (\<lambda>r. attempt (wrapped (''unmarshal arg template '' @ templateName))
                        (Pair (UnmarshalTemplateResultSlice (fl_host fl) r)) filtered))
         else if hasArgsScript then
           (let templateName = ''action.'' @ ac_Name a @ ''.args_script''
            in attempt (wrapped (''eval arg script '' @ templateName)) (evalScript fl env templateName (ac_ArgsScript a))
                 (\<lambda>v. attempt (wrapped (''eval arg script '' @ templateName @ '' result to string''))
                        (driver_call fl sd_ValueToStringSlice v) filtered))
         else give [])"

section \<open>Commands\<close>

type_synonym ('v, 'w) action_call =
  "('v, 'w) world \<Rightarrow> ((response option \<times> go_error) + response) \<times> ('v, 'w) world"

text \<open>The log files of a command, kept open while it runs.\<close>

definition with_logs ::
  "('v, 'w) flow \<Rightarrow> 'v action \<Rightarrow> (cli_option list \<Rightarrow> ('v, 'w) action_call) \<Rightarrow> ('v, 'w) action_call" where
  "with_logs fl a k =
     (case fl_logsDir fl of
        None \<Rightarrow> k []
      | Some logsDir \<Rightarrow>
          (let pre = (case fl_logFilePrefix fl of None \<Rightarrow> [] | Some p \<Rightarrow> p);
               stdoutLog = path_Join logsDir (pre @ ac_Name a @ ''.stdout.log'');
               stderrLog = path_Join logsDir (pre @ ac_Name a @ ''.stderr.log'')
           in attempt (no_response (''mkdir '' @ logsDir)) (on_files (os_MkdirAll (Join [] logsDir)))
                (\<lambda>_. attempt (no_response (''open stdout log file '' @ stdoutLog)) (on_files (os_OpenAppend (Join [] stdoutLog)))
                   (\<lambda>_. closing_file
                      (attempt (no_response (''open stderr log file '' @ stderrLog)) (on_files (os_OpenAppend (Join [] stderrLog)))
                         (\<lambda>_. closing_file (k [cli_WithStdout (Join [] stdoutLog), cli_WithStderr (Join [] stderrLog)])))))))"

text \<open>A stream of the command into a file, when one is named.\<close>

definition write_stream :: "string \<Rightarrow> byte list \<Rightarrow> ('v, 'w, unit) call" where
  "write_stream name out = (if name = [] then give () else on_files (os_WriteFile (Join [] name) out))"

definition finish_command ::
  "'v action \<Rightarrow> string \<Rightarrow> string \<Rightarrow> exec_result \<Rightarrow> go_error option \<Rightarrow> ('v, 'w) action_call" where
  "finish_command a commandStdout commandStderr result err =
     (let exitCode = er_exitCode result;
          response = re_WithStderr (er_stderr result)
                       (re_WithStdout (er_stdout result) (re_WithExitCode exitCode NewActionResponse));
          r1 = (if commandStdout \<noteq> [] then response\<lparr>re_Stdout := []\<rparr> else response);
          r2 = (if commandStderr \<noteq> [] then r1\<lparr>re_Stderr := []\<rparr> else r1)
      in case (if exitCode = -1 then err else None) of
           Some e \<Rightarrow> fail (Some response, Wrap (''command failed '' @ ac_Name a) [Atom ErrCommandFailed, e])
         | None \<Rightarrow>
             attempt (\<lambda>x. (Some r1, Wrap ''write command stdout'' [x])) (write_stream commandStdout (er_stdout result))
               (\<lambda>_. attempt (\<lambda>x. (Some r2, Wrap ''write command stderr'' [x])) (write_stream commandStderr (er_stderr result))
                  (\<lambda>_. if OrDefault (ac_FailIfNonZeroCode a) True \<and> exitCode \<noteq> 0
                       then fail (Some r2, Wrap (''command failed '' @ ac_Name a) [Atom ErrCommandFailed])
                       else give r2)))"

text \<open>A template field: empty means absent. A stream's file is relative to the working directory.\<close>

definition eval_field ::
  "('v, 'w) flow \<Rightarrow> 'v env \<Rightarrow> 'v action \<Rightarrow> string \<Rightarrow> string \<Rightarrow> (string \<Rightarrow> ('v, 'w) action_call) \<Rightarrow> ('v, 'w) action_call" where
  "eval_field fl env a field value k =
     (if value = [] then k []
      else attempt (no_response (''eval template for action '' @ ac_Name a @ '' '' @ field))
             (evalTemplate fl env (''action.'' @ ac_Name a @ ''.'' @ field) value) k)"

definition in_workDir :: "string \<Rightarrow> string \<Rightarrow> string" where
  "in_workDir workDir name = (if name \<noteq> [] \<and> \<not> has_prefix name ''/'' then path_Join workDir name else name)"

definition make_workDir :: "string \<Rightarrow> ('v, 'w, unit) call" where
  "make_workDir workDir = (if workDir = [] then give () else on_files (os_MkdirAll (Join [] workDir)))"

definition command_envs :: "'v env \<Rightarrow> (string \<times> string) list \<Rightarrow> cli_option list" where
  "command_envs env cmdEnvs =
     (if cmdEnvs \<noteq> [] \<or> en_Env env \<noteq> [] then [cli_WithEnvs (maps_Copy (maps_Copy [] (en_Env env)) cmdEnvs)] else [])"

definition runActionCommand :: "('v, 'w) flow \<Rightarrow> 'v env \<Rightarrow> 'v action \<Rightarrow> ('v, 'w) action_call" where
  "runActionCommand fl env a =
     eval_field fl env a ''command'' (ac_Command a) (\<lambda>command.
     eval_field fl env a ''work_dir'' (ac_WorkDir a) (\<lambda>evalDir.
     let workDir = (if evalDir = [] then en_WorkDir env else evalDir) in
     attempt (no_response (''mkdir '' @ workDir)) (make_workDir workDir) (\<lambda>_.
     eval_field fl env a ''stdout'' (ac_Stdout a) (\<lambda>evalOut.
     eval_field fl env a ''stderr'' (ac_Stderr a) (\<lambda>evalErr.
     attempt (no_response (''get action arguments '' @ ac_Name a)) (getActionArgs fl env a) (\<lambda>cmdArgs.
     attempt (no_response (''get action environment '' @ ac_Name a)) (getActionEnv fl env a) (\<lambda>cmdEnvs.
     with_logs fl a (\<lambda>logOptions w.
       case cli_Exec (ho_environ (fl_host fl)) (ho_run (fl_host fl)) command cmdArgs
              ((if workDir \<noteq> [] then [cli_WithWorkDir workDir] else []) @ command_envs env cmdEnvs @ logOptions) w of
         ((result, err), w1) \<Rightarrow>
           finish_command a (in_workDir workDir evalOut) (in_workDir workDir evalErr) result err w1))))))))"

section \<open>Scripts, triggers and results\<close>

definition runActionScriptCode :: "('v, 'w) flow \<Rightarrow> 'v env \<Rightarrow> string \<Rightarrow> string \<Rightarrow> ('v, 'w) action_call" where
  "runActionScriptCode fl env name code =
     (if fl_script fl = None then fail (None, Atom ErrNoScriptDriver)
      else attempt (no_response (''eval script '' @ name)) (evalScript fl env name code)
             (\<lambda>v. attempt (no_response (''eval script '' @ name @ '' result to string'')) (driver_call fl sd_ValueToString v)
                    (\<lambda>s. give (re_WithResult s NewActionResponse))))"

definition runActionScript :: "('v, 'w) flow \<Rightarrow> 'v env \<Rightarrow> 'v action \<Rightarrow> ('v, 'w) action_call" where
  "runActionScript fl env a = runActionScriptCode fl env (''action.'' @ ac_Name a @ ''.script'') (ac_Script a)"

definition open_local :: "string \<Rightarrow> ('v, 'w, reader) call" where
  "open_local name w = (case os_Open (Join [] name) (wo_files w) of (r, f1) \<Rightarrow> (r, w\<lparr>wo_files := f1\<rparr>))"

definition runActionScriptFile :: "('v, 'w) flow \<Rightarrow> 'v env \<Rightarrow> 'v action \<Rightarrow> ('v, 'w) action_call" where
  "runActionScriptFile fl env a =
     attempt (no_response (''eval action script filename '' @ ac_Name a))
       (evalTemplate fl env (''action.'' @ ac_Name a @ ''.script_filename'') (ac_ScriptFile a)) (\<lambda>filename.
     let run_code = (\<lambda>r. attempt (no_response (''read '' @ filename)) (Pair (ReadAll r))
                          (\<lambda>code. runActionScriptCode fl env (path_Base filename) code))
     in if has_prefix filename ''/''
        then attempt (no_response (''open '' @ filename)) (open_local filename) (\<lambda>r. closing_file (run_code r))
        else (let storageFilename = path_Join (en_WorkDir env) filename
              in attempt (no_response (''open storage file '' @ storageFilename))
                   (sReadFile (fl_storage fl) storageFilename) run_code))"

definition runActionTrigger :: "('v, 'w) flow \<Rightarrow> 'v env \<Rightarrow> 'v action \<Rightarrow> 'v action_trigger \<Rightarrow> ('v, 'w) action_call" where
  "runActionTrigger fl env a trigger =
     (let hasData = tg_Data trigger \<noteq> None; hasDataScript = tg_DataScript trigger \<noteq> [];
          fire = (\<lambda>f data.
            if tg_Async trigger
            then (\<lambda>w. give NewActionResponse (w\<lparr>wo_spawned := wo_spawned w @ [(tg_Name trigger, data)]\<rparr>))
            else attempt (\<lambda>e. (None, Wrap (tg_Name trigger) [Atom ErrTriggerFailed, e])) (f data)
                   (\<lambda>result. attempt (no_response ''marshal trigger result'') (Pair (ho_json (fl_host fl) result))
                      (\<lambda>buf. give (re_WithResult buf NewActionResponse))))
      in if options_sum [hasData, hasDataScript] > 1 then fail (None, Atom ErrActionTriggerTooManyOptions)
         else case map_of (fl_triggers fl) (tg_Name trigger) of
           None \<Rightarrow> fail (None, Wrap (tg_Name trigger) [Atom ErrTriggerNotFound])
         | Some f \<Rightarrow>
             (case tg_Data trigger of
                Some data \<Rightarrow> fire f data
              | None \<Rightarrow>
                  if hasDataScript then
                    attempt (no_response ''eval js trigger data script'')
                      (evalScript fl env (''action.'' @ ac_Name a @ ''.trigger.data_script'') (tg_DataScript trigger))
                      (\<lambda>v. attempt (no_response ''trigger data jsValue to map[string]any'')
                             (driver_call fl sd_ValueToMapStringAny v) (\<lambda>data. fire f data))
                  else fire f []))"

text \<open>One of the goroutines of asynchronous triggers runs; its error is only logged.\<close>

definition run_spawned :: "('v, 'w) flow \<Rightarrow> ('v, 'w) world \<Rightarrow> ('v, 'w) world" where
  "run_spawned fl w =
     (case wo_spawned w of
        [] \<Rightarrow> w
      | (name, data) # rest \<Rightarrow>
          (case map_of (fl_triggers fl) name of
             None \<Rightarrow> w\<lparr>wo_spawned := rest\<rparr>
           | Some f \<Rightarrow> snd (f data (w\<lparr>wo_spawned := rest\<rparr>))))"

definition runActionResult ::
  "('v, 'w) flow \<Rightarrow> 'v env \<Rightarrow> 'v flow_result \<Rightarrow> 'v action \<Rightarrow> action_result \<Rightarrow> ('v, 'w) world
   \<Rightarrow> (((response option \<times> go_error) + response) \<times> 'v flow_result) \<times> ('v, 'w) world" where
  "runActionResult fl env result a r w =
     (if rs_DataScript r = [] then ((Inr NewActionResponse, result), w)
      else case attempt (no_response ''eval js result data script'')
                  (evalScript fl env (''action.'' @ ac_Name a @ ''.result.data_script'') (rs_DataScript r))
                  (\<lambda>v. attempt (no_response ''result data jsValue to map[string]any'')
                         (driver_call fl sd_ValueToMapStringAny v) give) w of
             (Inl e, w1) \<Rightarrow> ((Inl e, result), w1)
           | (Inr data, w1) \<Rightarrow> ((Inr NewActionResponse, result\<lparr>fr_Data := Some data\<rparr>), w1))"

section \<open>Running a flow\<close>

definition runAction ::
  "('v, 'w) flow \<Rightarrow> 'v env \<Rightarrow> 'v flow_result \<Rightarrow> 'v action \<Rightarrow> ('v, 'w) world
   \<Rightarrow> (((response option \<times> go_error) + response) \<times> 'v flow_result) \<times> ('v, 'w) world" where
  "runAction fl env result a w =
     (let optionsSum = options_sum [ac_Trigger a \<noteq> None, ac_Result a \<noteq> None, ac_Command a \<noteq> [],
                                    ac_Script a \<noteq> [], ac_ScriptFile a \<noteq> []];
          same = (\<lambda>(r, w1). ((r, result), w1))
      in if optionsSum \<le> 0 then ((Inl (None, Atom ErrActionNoOptions), result), w)
         else if optionsSum > 1 then ((Inl (None, Atom ErrActionTooManyOptions), result), w)
         else case actionWhen fl env a w of
           (Inl e, w1) \<Rightarrow> ((Inl (None, Wrap ''when failed'' [e]), result), w1)
         | (Inr False, w1) \<Rightarrow> ((Inr (re_WithSkipped True NewActionResponse), result), w1)
         | (Inr True, w1) \<Rightarrow>
             (case ac_Trigger a of
                Some t \<Rightarrow> same (runActionTrigger fl env a t w1)
              | None \<Rightarrow>
                  (case ac_Result a of
                     Some r \<Rightarrow> runActionResult fl env result a r w1
                   | None \<Rightarrow>
                       if ac_Command a \<noteq> [] then same (runActionCommand fl env a w1)
                       else if ac_Script a \<noteq> [] then same (runActionScript fl env a w1)
                       else same (runActionScriptFile fl env a w1))))"

text \<open>The response with the times of a tracker that started at \<open>start\<close> and finished at \<open>fin\<close>.\<close>

definition timed :: "int \<Rightarrow> int \<Rightarrow> response \<Rightarrow> response" where
  "timed start fin r = re_WithDuration (fin - start) (re_WithFinishedAt fin (re_WithStartedAt start r))"

definition add_response :: "string \<Rightarrow> response \<Rightarrow> 'v flow_result \<Rightarrow> 'v flow_result" where
  "add_response name r result = result\<lparr>fr_responses := AList.update name r (fr_responses result)\<rparr>"

fun run_loop ::
  "('v, 'w) flow \<Rightarrow> 'v env \<Rightarrow> 'v flow_result \<Rightarrow> 'v action list \<Rightarrow> ('v, 'w) world
   \<Rightarrow> ('v flow_result \<times> go_error option) \<times> ('v, 'w) world" where
  "run_loop fl env result [] w = ((result, None), w)"
| "run_loop fl env result (a # rest) w =
     (case ho_now (fl_host fl) w of
        (start, w1) \<Rightarrow>
          (case runAction fl env result a w1 of
             ((Inl (resp, e), result1), w2) \<Rightarrow>
               (let (result2, w3) =
                      (case resp of
                         None \<Rightarrow> (result1, w2)
                       | Some r \<Rightarrow>
                           (case ho_now (fl_host fl) w2 of
                              (fin, w3) \<Rightarrow> (add_response (ac_Name a) (timed start fin r) result1, w3)))
                in case ho_now (fl_host fl) w3 of
                     (fin, w4) \<Rightarrow>
                       ((result2, Some (Wrap (''action failed '' @ ac_Name a @ '' in '' @ FormatDuration (fin - start)) [e])), w4))
           | ((Inr r, result1), w2) \<Rightarrow>
               (case ho_now (fl_host fl) w2 of
                  (fin, w3) \<Rightarrow> run_loop fl env (add_response (ac_Name a) (timed start fin r) result1) rest w3)))"

definition flow_Run ::
  "('v, 'w) flow \<Rightarrow> 'v env option \<Rightarrow> ('v, 'w) world \<Rightarrow> ('v flow_result \<times> go_error option) \<times> ('v, 'w) world" where
  "flow_Run fl env w =
     run_loop fl (case env of None \<Rightarrow> \<lparr>en_WorkDir = [], en_Context = [], en_Env = []\<rparr> | Some e \<Rightarrow> e)
       \<lparr>fr_responses = [], fr_Data = None\<rparr> (fl_actions fl) w"

fun validate_loop :: "nat \<Rightarrow> string list \<Rightarrow> 'v action list \<Rightarrow> go_error option" where
  "validate_loop i names [] = None"
| "validate_loop i names (a # rest) =
     (if ac_Name a = [] then Some (Wrap (''index '' @ show_nat i) [Atom ErrActionNoName])
      else if ac_Name a \<in> set names
      then Some (Wrap (ac_Name a @ '' at index '' @ show_nat i) [Atom ErrActionDuplicateName])
      else validate_loop (Suc i) (ac_Name a # names) rest)"

definition flow_Validate :: "('v, 'w) flow \<Rightarrow> go_error option" where
  "flow_Validate fl = validate_loop 0 [] (fl_actions fl)"

section \<open>Successful steps\<close>

lemma attempt_ok:
  assumes "attempt err m k s = (Inr x, s')"
  obtains y s1 where "m s = (Inr y, s1)" "k y s1 = (Inr x, s')"
  using assms by (auto simp: attempt_def split: prod.splits sum.splits)

lemma attempt_bad:
  assumes "attempt err m k s = (Inl e, s')"
  obtains (first) e1 where "m s = (Inl e1, s')" "e = err e1"
    | (rest) y s1 where "m s = (Inr y, s1)" "k y s1 = (Inl e, s')"
  using assms by (auto simp: attempt_def split: prod.splits sum.splits)

lemma eval_field_ok:
  assumes "eval_field fl env a field value k w = (Inr r, w')"
  obtains v w1 where "k v w1 = (Inr r, w')" "value = [] \<longrightarrow> v = []"
  using assms by (auto simp: eval_field_def elim: attempt_ok split: if_splits)

lemma closing_file_ok:
  assumes "closing_file m w = (r, w')"
  obtains w1 where "m w = (r, w1)" "file_at (wo_files w') = file_at (wo_files w1)"
  using assms os_Close_files by (auto simp: closing_file_def split: prod.splits) (metis prod.collapse)

lemma with_logs_ok:
  assumes "with_logs fl a k w = (Inr r, w')"
  obtains opts w1 w2 where "k opts w1 = (Inr r, w2)" "file_at (wo_files w') = file_at (wo_files w2)"
    "\<And>q. rq_envs (foldl (\<lambda>r opt. opt r) q opts) = rq_envs q \<and> rq_workDir (foldl (\<lambda>r opt. opt r) q opts) = rq_workDir q"
proof (cases "fl_logsDir fl")
  case None
  with assms that [of "[]" w w'] show thesis by (simp add: with_logs_def)
next
  case (Some dir)
  with assms show thesis
    by (auto simp: with_logs_def Let_def elim!: attempt_ok closing_file_ok
        intro!: that simp: cli_WithStdout_def cli_WithStderr_def)
qed

lemma write_stream_ok:
  assumes "write_stream name out w = (Inr u, w')"
  shows "file_at (wo_files w') = (if name = [] then file_at (wo_files w) else (file_at (wo_files w))(Join [] name := Some out))"
  using assms os_WriteFile_ok
  by (auto simp: write_stream_def give_def on_files_def as_sum_def split: prod.splits option.splits if_splits)

text \<open>What a command that succeeds leaves behind, for streams written to \<open>po\<close> and \<open>pe\<close>.\<close>

lemma finish_command_ok:
  assumes "finish_command a po pe result err w = (Inr r, w')"
  shows "re_ErrorCode r = er_exitCode result
    \<and> (OrDefault (ac_FailIfNonZeroCode a) True \<longrightarrow> er_exitCode result = 0)
    \<and> re_Stdout r = (if po = [] then er_stdout result else [])
    \<and> re_Stderr r = (if pe = [] then er_stderr result else [])
    \<and> (po \<noteq> [] \<longrightarrow> Join [] po \<noteq> Join [] pe \<longrightarrow> file_at (wo_files w') (Join [] po) = Some (er_stdout result))
    \<and> (pe \<noteq> [] \<longrightarrow> file_at (wo_files w') (Join [] pe) = Some (er_stderr result))"
proof -
  let ?response = "re_WithStderr (er_stderr result)
     (re_WithStdout (er_stdout result) (re_WithExitCode (er_exitCode result) NewActionResponse))"
  let ?r1 = "if po \<noteq> [] then ?response\<lparr>re_Stdout := []\<rparr> else ?response"
  let ?r2 = "if pe \<noteq> [] then ?r1\<lparr>re_Stderr := []\<rparr> else ?r1"
  have "(if er_exitCode result = -1 then err else None) = None"
    using assms by (auto simp: finish_command_def Let_def fail_def split: option.splits if_splits)
  with assms obtain u1 w1 u2 where w: "write_stream po (er_stdout result) w = (Inr u1, w1)"
    "write_stream pe (er_stderr result) w1 = (Inr u2, w')"
    "r = ?r2" "\<not> (OrDefault (ac_FailIfNonZeroCode a) True \<and> er_exitCode result \<noteq> 0)"
    by (auto simp: finish_command_def Let_def fail_def give_def elim!: attempt_ok split: if_splits)
  have r: "re_ErrorCode r = er_exitCode result" "re_Stdout r = (if po = [] then er_stdout result else [])"
    "re_Stderr r = (if pe = [] then er_stderr result else [])"
    using w(3) by (simp_all add: re_WithStderr_def re_WithStdout_def re_WithExitCode_def)
  then show ?thesis using write_stream_ok [OF w(1)] write_stream_ok [OF w(2)] w(4) by auto
qed

lemma getActionArgs_nonempty:
  assumes "getActionArgs fl env a w = (Inr args, w')"
  shows "[] \<notin> set args"
  using assms
  by (auto simp: getActionArgs_def Let_def fail_def give_def elim!: attempt_ok split: if_splits)

text \<open>The environment of a command: the action's variables win over the flow's.\<close>

lemma command_envs_lookup:
  assumes "distinct (map fst cmdEnvs)" "distinct (map fst (en_Env env))"
  shows "map_of (rq_envs (foldl (\<lambda>r opt. opt r) NewRequest (command_envs env cmdEnvs))) k
    = (case map_of cmdEnvs k of Some v \<Rightarrow> Some v | None \<Rightarrow> map_of (en_Env env) k)"
proof (cases "cmdEnvs \<noteq> [] \<or> en_Env env \<noteq> []")
  case True
  have d: "distinct (map fst (maps_Copy (maps_Copy [] (en_Env env)) cmdEnvs))"
    by (intro distinct_maps_Copy) simp
  from True have "rq_envs (foldl (\<lambda>r opt. opt r) NewRequest (command_envs env cmdEnvs))
      = maps_Copy [] (maps_Copy (maps_Copy [] (en_Env env)) cmdEnvs)"
    by (auto simp: command_envs_def cli_WithEnvs_def NewRequest_def)
  then show ?thesis
    by (simp only: map_of_maps_Copy [OF d] map_of_maps_Copy [OF assms(1)] map_of_maps_Copy [OF assms(2)])
      (simp split: option.split)
next
  case False
  then show ?thesis by (simp add: command_envs_def NewRequest_def)
qed

lemma options_foldl_append: "foldl (\<lambda>r opt. opt r) q (xs @ ys) = foldl (\<lambda>r opt. opt r) (foldl (\<lambda>r opt. opt r) q xs) ys"
  by simp

lemma command_request:
  assumes "\<And>q. rq_envs (foldl (\<lambda>r opt. opt r) q opts) = rq_envs q \<and> rq_workDir (foldl (\<lambda>r opt. opt r) q opts) = rq_workDir q"
  shows "rq_envs (foldl (\<lambda>r opt. opt r) NewRequest ((if d \<noteq> [] then [cli_WithWorkDir d] else []) @ command_envs env cmdEnvs @ opts))
    = rq_envs (foldl (\<lambda>r opt. opt r) NewRequest (command_envs env cmdEnvs))"
  using assms by (auto simp: command_envs_def cli_WithWorkDir_def cli_WithEnvs_def NewRequest_def)

lemma update_not_Nil: "AList.update k v xs \<noteq> []"
  by (cases xs) auto

lemma maps_Copy_not_Nil: "dst \<noteq> [] \<or> src \<noteq> [] \<Longrightarrow> maps_Copy dst src \<noteq> []"
proof (induction src arbitrary: dst)
  case (Cons x src)
  then show ?case using update_not_Nil by (cases x) (simp add: maps_Copy_def)
qed (simp add: maps_Copy_def)

lemma command_envs_empty:
  assumes "rq_envs (foldl (\<lambda>r opt. opt r) NewRequest (command_envs env cmdEnvs)) = []"
  shows "cmdEnvs = [] \<and> en_Env env = []"
proof (rule ccontr)
  assume "\<not> (cmdEnvs = [] \<and> en_Env env = [])"
  then have ne: "cmdEnvs \<noteq> [] \<or> en_Env env \<noteq> []" by simp
  then have "maps_Copy (maps_Copy [] (en_Env env)) cmdEnvs \<noteq> []" using maps_Copy_not_Nil by metis
  then have "maps_Copy [] (maps_Copy (maps_Copy [] (en_Env env)) cmdEnvs) \<noteq> []" using maps_Copy_not_Nil by metis
  with assms ne show False by (simp add: command_envs_def cli_WithEnvs_def NewRequest_def)
qed

text \<open>The kinds of an action.\<close>

definition action_kinds :: "'v action \<Rightarrow> bool list" where
  "action_kinds a = [ac_Trigger a \<noteq> None, ac_Result a \<noteq> None, ac_Command a \<noteq> [], ac_Script a \<noteq> [], ac_ScriptFile a \<noteq> []]"

lemma options_sum_count: "options_sum bs = int (length (filter id bs))"
proof -
  have "foldl boolInc n bs = n + int (length (filter id bs))" for n
    by (induction bs arbitrary: n) (auto simp: boolInc_def)
  then show ?thesis by (simp add: options_sum_def SliceSum_def)
qed

lemma validate_loop_ok:
  "validate_loop i names as = None \<longleftrightarrow>
   (\<forall>a \<in> set as. ac_Name a \<noteq> [] \<and> ac_Name a \<notin> set names) \<and> distinct (map ac_Name as)"
proof (induction as arbitrary: i names)
  case (Cons a as)
  show ?case by (simp add: Cons.IH image_iff) metis
qed simp

lemma update_new_key: "k \<notin> fst ` set xs \<Longrightarrow> map fst (AList.update k v xs) = map fst xs @ [k]"
  by (induction xs) auto

lemma add_response_names:
  "ac_Name a \<notin> set (map fst (fr_responses result)) \<Longrightarrow>
   map fst (fr_responses (add_response (ac_Name a) r result)) = map fst (fr_responses result) @ [ac_Name a]"
  by (simp add: add_response_def update_new_key)

lemma runAction_responses: "runAction fl env result a w = ((x, result1), w1) \<Longrightarrow> fr_responses result1 = fr_responses result"
  by (auto simp: runAction_def runActionResult_def Let_def split: if_splits prod.splits sum.splits bool.splits option.splits)

text \<open>A run reports the actions up to the one that failed, in order, and runs no later one.\<close>

lemma run_loop_reports:
  assumes "run_loop fl env result as w = ((res, e), w')"
    and "distinct (map ac_Name as)" "set (map ac_Name as) \<inter> set (map fst (fr_responses result)) = {}"
  shows "(e = None \<longrightarrow> map fst (fr_responses res) = map fst (fr_responses result) @ map ac_Name as)
    \<and> (e \<noteq> None \<longrightarrow> (\<exists>n < length as.
          (map fst (fr_responses res) = map fst (fr_responses result) @ map ac_Name (take n as)
           \<or> map fst (fr_responses res) = map fst (fr_responses result) @ map ac_Name (take (Suc n) as))
        \<and> (\<forall>later. run_loop fl env result (take (Suc n) as @ later) w = ((res, e), w'))))"
  using assms
proof (induction as arbitrary: result w)
  case (Cons a as)
  obtain start w1 where st: "ho_now (fl_host fl) w = (start, w1)" by fastforce
  obtain x result1 w2 where ra: "runAction fl env result a w1 = ((x, result1), w2)" by (metis surj_pair)
  have new: "ac_Name a \<notin> set (map fst (fr_responses result1))"
    using runAction_responses [OF ra] Cons.prems(3) by auto
  show ?case
  proof (cases x)
    case (Inl err)
    obtain resp e0 where err: "err = (resp, e0)" by fastforce
    have stop: "run_loop fl env result (a # later) w = ((res, e), w')" for later
      using Cons.prems(1) st ra Inl err by simp
    from Cons.prems(1) st ra Inl err runAction_responses [OF ra] new
    have "e \<noteq> None \<and> (map fst (fr_responses res) = map fst (fr_responses result)
        \<or> map fst (fr_responses res) = map fst (fr_responses result) @ [ac_Name a])"
      by (auto simp: add_response_names split: option.splits prod.splits)
    with stop show ?thesis by (auto intro!: exI [of _ 0])
  next
    case (Inr r)
    obtain fin w3 where fin: "ho_now (fl_host fl) w2 = (fin, w3)" by fastforce
    let ?result = "add_response (ac_Name a) (timed start fin r) result1"
    have step: "run_loop fl env result (a # rest) w = run_loop fl env ?result rest w3" for rest
      using st ra Inr fin by simp
    have names: "map fst (fr_responses ?result) = map fst (fr_responses result) @ [ac_Name a]"
      using add_response_names [OF new] runAction_responses [OF ra] by simp
    have "set (map ac_Name as) \<inter> set (map fst (fr_responses ?result)) = {}"
      unfolding names using Cons.prems(2,3) by auto
    from Cons.IH [OF Cons.prems(1) [unfolded step] _ this] Cons.prems(2)
    have IH: "(e = None \<longrightarrow> map fst (fr_responses res) = map fst (fr_responses result) @ ac_Name a # map ac_Name as)
      \<and> (e \<noteq> None \<longrightarrow> (\<exists>n < length as.
          (map fst (fr_responses res) = map fst (fr_responses result) @ ac_Name a # map ac_Name (take n as)
           \<or> map fst (fr_responses res) = map fst (fr_responses result) @ ac_Name a # map ac_Name (take (Suc n) as))
        \<and> (\<forall>later. run_loop fl env ?result (take (Suc n) as @ later) w3 = ((res, e), w'))))"
      unfolding names by simp
    show ?thesis
    proof (cases e)
      case None
      with IH show ?thesis by simp
    next
      case (Some e1)
      with IH obtain n where n: "n < length as"
        "map fst (fr_responses res) = map fst (fr_responses result) @ ac_Name a # map ac_Name (take n as)
         \<or> map fst (fr_responses res) = map fst (fr_responses result) @ ac_Name a # map ac_Name (take (Suc n) as)"
        "\<forall>later. run_loop fl env ?result (take (Suc n) as @ later) w3 = ((res, e), w')" by blast
      have "run_loop fl env result (take (Suc (Suc n)) (a # as) @ later) w = ((res, e), w')" for later
        using n(3) step [of "take (Suc n) as @ later"] by simp
      with n(1,2) Some show ?thesis by (intro conjI impI exI [of _ "Suc n"]) simp_all
    qed
  qed
qed simp

section \<open>Properties\<close>

text \<open>C17: in a validated flow a run gives every action its own response. Without an error the responses are
  those of all actions, in order. With an error they are those of the actions before the failing one, and
  perhaps of that one, and the actions behind it have no influence on the result or the world.\<close>

theorem validated_run_reports_actions:
  assumes "flow_Validate fl = None" "flow_Run fl env w = ((res, e), w')"
  defines "start \<equiv> run_loop fl (case env of None \<Rightarrow> \<lparr>en_WorkDir = [], en_Context = [], en_Env = []\<rparr> | Some e \<Rightarrow> e)
      \<lparr>fr_responses = [], fr_Data = None\<rparr>"
  shows "(e = None \<longrightarrow> map fst (fr_responses res) = map ac_Name (fl_actions fl))
    \<and> (e \<noteq> None \<longrightarrow> (\<exists>n < length (fl_actions fl).
          map fst (fr_responses res) \<in> {map ac_Name (take n (fl_actions fl)), map ac_Name (take (Suc n) (fl_actions fl))}
        \<and> (\<forall>later. start (take (Suc n) (fl_actions fl) @ later) w = ((res, e), w'))))"
proof -
  have "distinct (map ac_Name (fl_actions fl))"
    using assms(1) by (simp add: flow_Validate_def validate_loop_ok)
  from run_loop_reports [OF assms(2) [unfolded flow_Run_def] this] show ?thesis
    by (auto simp: start_def)
qed

text \<open>A machine on which the command \<^verbatim>\<open>ok\<close> says hello and every other command fails.\<close>

definition example_host :: "(nat, unit) host" where
  "example_host =
     \<lparr>ho_environ = [],
      ho_run = (\<lambda>c w. (\<lparr>ro_status = Exited (if cm_path c = ''ok'' then 0 else 1), ro_stdout = ''hello'', ro_stderr = ''''\<rparr>, w)),
      ho_now = (\<lambda>w. (5, w)), ho_json = (\<lambda>x. Inr ''{}''), ho_yaml_slice = (\<lambda>x. Inr []), ho_yaml_string = Inr,
      ho_yaml_object = (\<lambda>x. Inr []), ho_as_string = (\<lambda>x. None)\<rparr>"

definition example_world :: "(nat, unit) world" where
  "example_world = \<lparr>wo_files = \<lparr>fs_nodes = [], fs_tick = 0, fs_fault = (\<lambda>_. None), fs_short = (\<lambda>_. 0), fs_rand = (\<lambda>_. [])\<rparr>,
     wo_spawned = [], wo_rest = ()\<rparr>"

definition no_storage :: "'s store_ops" where
  "no_storage = \<lparr>sFileExists = (\<lambda>p s. (Inr False, s)), sDeleteFile = (\<lambda>p s. (None, s)), sDeleteDir = (\<lambda>p s. (None, s)),
     sWrite = (\<lambda>p r s. (Some (Atom ErrNotExist), s)), sReadFile = (\<lambda>p s. (Inl (Atom ErrNotExist), s)),
     sReadDir = (\<lambda>p s. (Inr [], s)), sMkDir = (\<lambda>p s. (None, s)), sCopy = (\<lambda>a b s. (None, s)), sMove = (\<lambda>a b s. (None, s)),
     sCreateMultipartUpload = (\<lambda>p s. (Inl (Atom ErrNotExist), s)),
     sUploadMultipartChunk = (\<lambda>p u n r z s. (Inl (Atom ErrNotExist), s)),
     sCompleteMultipartUpload = (\<lambda>p u c s. (None, s)), sAbortMultipartUpload = (\<lambda>p u s. (None, s)), sClose = (\<lambda>s. (None, s))\<rparr>"

text \<open>The second action has no kind.\<close>

definition example_flow :: "(nat, unit) flow" where
  "example_flow = NewFlow
     [ac_WithResult NewActionResult (NewAction ''a''), NewAction ''b'', ac_WithResult NewActionResult (NewAction ''c'')]
     no_storage None None None example_host []"

lemma validated_run_reports_actions_witness:
  "\<exists>res e w'. flow_Run example_flow None example_world = ((res, Some e), w')
     \<and> map fst (fr_responses res) \<in> {[], [''a''], [''a'', ''b''], [''a'', ''b'', ''c'']}"
proof -
  have v: "flow_Validate example_flow = None" by code_simp
  have f: "snd (fst (flow_Run example_flow None example_world)) \<noteq> None"
    by (simp add: flow_Run_def example_flow_def NewFlow_def runAction_def ac_WithResult_def NewAction_def NewActionResult_def
        options_sum_def SliceSum_def boolInc_def actionWhen_def give_def runActionResult_def example_host_def)
  obtain res e w' where run: "flow_Run example_flow None example_world = ((res, e), w')" by (metis surj_pair)
  with f obtain e1 where e: "e = Some e1" by auto
  have names: "map ac_Name (fl_actions example_flow) = [''a'', ''b'', ''c'']" by code_simp
  have "e \<noteq> None" using e by simp
  with conjunct2 [OF validated_run_reports_actions [OF v run]]
  obtain n where "n < length (fl_actions example_flow)"
    "map fst (fr_responses res) \<in> {map ac_Name (take n (fl_actions example_flow)), map ac_Name (take (Suc n) (fl_actions example_flow))}"
    by blast
  moreover have "map ac_Name (take m (fl_actions example_flow)) = take m [''a'', ''b'', ''c'']" for m
    by (simp only: take_map [symmetric] names)
  moreover have "length (fl_actions example_flow) = 3" by code_simp
  ultimately have "n < 3" "map fst (fr_responses res) \<in> {take n [''a'', ''b'', ''c''], take (Suc n) [''a'', ''b'', ''c'']}"
    by simp_all
  then have "map fst (fr_responses res) \<in> {[], [''a''], [''a'', ''b''], [''a'', ''b'', ''c'']}"
    by (auto simp: less_Suc_eq numeral_3_eq_3)
  with run [unfolded e] show ?thesis by (intro exI conjI)
qed

text \<open>The kind of an action is checked before anything happens: an action of no kind or of several kinds
  fails with the matching error, and neither the world nor the result of the flow has changed.\<close>

lemma action_kind_checked_first:
  assumes "length (filter id (action_kinds a)) \<noteq> 1"
  shows "runAction fl env result a w =
    ((Inl (None, Atom (if True \<in> set (action_kinds a) then ErrActionTooManyOptions else ErrActionNoOptions)), result), w)"
proof -
  let ?n = "length (filter id (action_kinds a))"
  have sum: "options_sum [ac_Trigger a \<noteq> None, ac_Result a \<noteq> None, ac_Command a \<noteq> [], ac_Script a \<noteq> [], ac_ScriptFile a \<noteq> []] = int ?n"
    by (simp only: options_sum_count action_kinds_def)
  have zero: "?n = 0 \<longleftrightarrow> True \<notin> set (action_kinds a)" by (auto simp: filter_empty_conv)
  show ?thesis
  proof (cases "?n = 0")
    case True
    with zero show ?thesis unfolding runAction_def sum by simp
  next
    case False
    with assms have "1 < ?n" by linarith
    with False zero show ?thesis unfolding runAction_def sum by simp
  qed
qed

lemma action_kind_checked_first_witness:
  "runAction example_flow \<lparr>en_WorkDir = [], en_Context = [], en_Env = []\<rparr> \<lparr>fr_responses = [], fr_Data = None\<rparr>
     (ac_WithScript ''1'' (ac_WithCommand ''ok'' [] (NewAction ''a''))) example_world =
   ((Inl (None, Atom ErrActionTooManyOptions), \<lparr>fr_responses = [], fr_Data = None\<rparr>), example_world)"
proof -
  let ?a = "ac_WithScript ''1'' (ac_WithCommand ''ok'' [] (NewAction ''a'')) :: nat action"
  have "length (filter id (action_kinds ?a)) \<noteq> 1" "True \<in> set (action_kinds ?a)" by code_simp+
  then show ?thesis using action_kind_checked_first [of ?a example_flow] by simp
qed

text \<open>A command action that succeeds really ran a process that ended with code 0 (unless the action accepts
  other codes). It got no empty argument; its environment is looked up in the action's variables before the
  flow's; and each stream is in the response or, when a file is named for it, in that file, unless
  both streams name the same file.\<close>

lemma command_success_contract:
  assumes "runActionCommand fl env a w = (Inr r, w')"
  shows "\<exists>cmd v ro v' cmdEnvs u u' po pe.
      ho_run (fl_host fl) cmd v = (ro, v')
    \<and> re_ErrorCode r = (case ro_status ro of Exited n \<Rightarrow> int n | _ \<Rightarrow> -1)
    \<and> (OrDefault (ac_FailIfNonZeroCode a) True \<longrightarrow> ro_status ro = Exited 0)
    \<and> [] \<notin> set (cm_args cmd)
    \<and> getActionEnv fl env a u = (Inr cmdEnvs, u')
    \<and> (case cm_env cmd of
         None \<Rightarrow> cmdEnvs = [] \<and> en_Env env = []
       | Some vars \<Rightarrow> vars = ho_environ (fl_host fl) @ map (\<lambda>(k, x). k @ ''='' @ x)
           (rq_envs (foldl (\<lambda>r opt. opt r) NewRequest (command_envs env cmdEnvs))))
    \<and> (ac_Stdout a = [] \<longrightarrow> po = []) \<and> (ac_Stderr a = [] \<longrightarrow> pe = [])
    \<and> re_Stdout r = (if po = [] then ro_stdout ro else []) \<and> re_Stderr r = (if pe = [] then ro_stderr ro else [])
    \<and> (po \<noteq> [] \<longrightarrow> Join [] po \<noteq> Join [] pe \<longrightarrow> file_at (wo_files w') (Join [] po) = Some (ro_stdout ro))
    \<and> (pe \<noteq> [] \<longrightarrow> file_at (wo_files w') (Join [] pe) = Some (ro_stderr ro))"
proof -
  from assms obtain command evalDir evalOut evalErr cmdArgs cmdEnvs u u' v v' where
    steps: "getActionArgs fl env a v = (Inr cmdArgs, v')" "getActionEnv fl env a u = (Inr cmdEnvs, u')"
      "ac_Stdout a = [] \<longrightarrow> evalOut = []" "ac_Stderr a = [] \<longrightarrow> evalErr = []"
    and logs: "with_logs fl a (\<lambda>logOptions w.
       case cli_Exec (ho_environ (fl_host fl)) (ho_run (fl_host fl)) command cmdArgs
              ((if evalDir \<noteq> [] then [cli_WithWorkDir evalDir] else []) @ command_envs env cmdEnvs @ logOptions) w of
         ((result, err), w1) \<Rightarrow>
           finish_command a (in_workDir evalDir evalOut) (in_workDir evalDir evalErr) result err w1) u' = (Inr r, w')"
    unfolding runActionCommand_def Let_def
    by (elim eval_field_ok attempt_ok) blast
  obtain opts w1 w2 where run: "(case cli_Exec (ho_environ (fl_host fl)) (ho_run (fl_host fl)) command cmdArgs
      ((if evalDir \<noteq> [] then [cli_WithWorkDir evalDir] else []) @ command_envs env cmdEnvs @ opts) w1 of
         ((result, err), w1) \<Rightarrow>
           finish_command a (in_workDir evalDir evalOut) (in_workDir evalDir evalErr) result err w1) = (Inr r, w2)"
    and files: "file_at (wo_files w') = file_at (wo_files w2)"
    and opts: "\<And>q. rq_envs (foldl (\<lambda>r opt. opt r) q opts) = rq_envs q \<and> rq_workDir (foldl (\<lambda>r opt. opt r) q opts) = rq_workDir q"
    using with_logs_ok [OF logs] by blast
  let ?opts = "(if evalDir \<noteq> [] then [cli_WithWorkDir evalDir] else []) @ command_envs env cmdEnvs @ opts"
  obtain result err w3 where ex: "cli_Exec (ho_environ (fl_host fl)) (ho_run (fl_host fl)) command cmdArgs ?opts w1 = ((result, err), w3)"
    by (metis surj_pair)
  with run have fin: "finish_command a (in_workDir evalDir evalOut) (in_workDir evalDir evalErr) result err w3 = (Inr r, w2)"
    by simp
  let ?cmd = "buildCommand (ho_environ (fl_host fl)) command (foldl (\<lambda>r opt. opt r) NewRequest ?opts) cmdArgs"
  obtain ro where ro: "ho_run (fl_host fl) ?cmd w1 = (ro, w3)" "er_stdout result = ro_stdout ro" "er_stderr result = ro_stderr ro"
    "er_exitCode result = (case ro_status ro of Exited n \<Rightarrow> int n | _ \<Rightarrow> -1)" "er_exitCode result = 0 \<longleftrightarrow> ro_status ro = Exited 0"
    using cli_Exec_result [OF ex] by blast
  note f = finish_command_ok [OF fin]
  have env: "rq_envs (foldl (\<lambda>r opt. opt r) NewRequest ?opts) = rq_envs (foldl (\<lambda>r opt. opt r) NewRequest (command_envs env cmdEnvs))"
    using opts by (rule command_request)
  have none: "rq_envs (foldl (\<lambda>r opt. opt r) NewRequest (command_envs env cmdEnvs)) = [] \<longrightarrow> cmdEnvs = [] \<and> en_Env env = []"
    using command_envs_empty by blast
  have paths: "ac_Stdout a = [] \<longrightarrow> in_workDir evalDir evalOut = []" "ac_Stderr a = [] \<longrightarrow> in_workDir evalDir evalErr = []"
    using steps(3,4) by (simp_all add: in_workDir_def)
  show ?thesis
    apply (rule exI [of _ ?cmd], rule exI [of _ w1], rule exI [of _ ro], rule exI [of _ w3], rule exI [of _ cmdEnvs],
        rule exI [of _ u], rule exI [of _ u'], rule exI [of _ "in_workDir evalDir evalOut"], rule exI [of _ "in_workDir evalDir evalErr"])
    using ro f getActionArgs_nonempty [OF steps(1)] steps(2) paths files env none
    by (simp add: buildCommand_def)
qed

lemma command_success_contract_witness:
  "\<exists>r w'. runActionCommand example_flow \<lparr>en_WorkDir = [], en_Context = [], en_Env = []\<rparr>
      (ac_WithStdout ''out'' (ac_WithCommand ''ok'' [] (NewAction ''a''))) example_world = (Inr r, w')
    \<and> re_ErrorCode r = 0"
proof -
  let ?a = "ac_WithStdout ''out'' (ac_WithCommand ''ok'' [] (NewAction ''a'')) :: nat action"
  let ?env = "\<lparr>en_WorkDir = [], en_Context = [], en_Env = []\<rparr> :: nat env"
  have ok: "isl (fst (runActionCommand example_flow ?env ?a example_world)) = False" by code_simp
  obtain x w' where run: "runActionCommand example_flow ?env ?a example_world = (x, w')" by fastforce
  with ok obtain r where x: "x = Inr r" by (cases x) auto
  have "OrDefault (ac_FailIfNonZeroCode ?a) True" by code_simp
  with command_success_contract [OF run [unfolded x]] have "re_ErrorCode r = 0" by auto
  with run x show ?thesis by blast
qed

end
