(* ===== verification/Proto_Parser.thy ===== *)
theory Proto_Parser
  imports Go_Files
begin

text \<open>
  Package \<^verbatim>\<open>proto_parser\<close>: from the syntax trees of the package \<^verbatim>\<open>emicklei/proto\<close>, whose parser is a
  parameter, to models and enums (\<^verbatim>\<open>parser.go\<close>, with the values of the other files).

  The path of an entity is a Go slice, and \<open>processMessage\<close> extends it with \<open>append\<close>. Slices of one array
  share what is written to it, so arrays are kept in a heap and a slice is an address with a length. The
  capacity that \<open>append\<close> gives a new array is a parameter.
\<close>

section \<open>Slices\<close>

record slice =
  sl_array :: nat
  sl_len :: nat

text \<open>An array is a list of cells; its length is the capacity. The nil slice has length 0 and no array.\<close>

type_synonym arrays = "string list list"

definition nil_slice :: slice where
  "nil_slice = \<lparr>sl_array = 0, sl_len = 0\<rparr>"

definition cells :: "arrays \<Rightarrow> slice \<Rightarrow> string list" where
  "cells h s = (if sl_len s = 0 then [] else take (sl_len s) (h ! sl_array s))"

text \<open>\<open>append(s, x)\<close>: in place when the array has room, otherwise into a new array of the capacity \<open>grow\<close> gives.\<close>

definition append_slice :: "(nat \<Rightarrow> nat) \<Rightarrow> slice \<Rightarrow> string \<Rightarrow> arrays \<Rightarrow> slice \<times> arrays" where
  "append_slice grow s x h =
     (if 0 < sl_len s \<and> sl_len s < length (h ! sl_array s)
      then (s\<lparr>sl_len := Suc (sl_len s)\<rparr>, h[sl_array s := (h ! sl_array s)[sl_len s := x]])
      else (\<lparr>sl_array = length h, sl_len = Suc (sl_len s)\<rparr>,
            h @ [cells h s @ x # replicate (grow (sl_len s) - Suc (sl_len s)) []]))"

text \<open>Go's growth of small slices of strings: the capacity doubles, beginning with one.\<close>

definition go_grow :: "nat \<Rightarrow> nat" where
  "go_grow n = (if n = 0 then 1 else 2 * n)"

section \<open>Syntax trees\<close>

text \<open>The nodes of the parsed file that the program looks at; \<open>OtherVisitee\<close> stands for all others.\<close>

record proto_option =
  po_name :: string
  po_source :: string

datatype enum_element =
    EnumComment | EnumOption | EnumReserved
  | EnumField string int "string option"
  | EnumOther

datatype visitee =
    MessageNode string bool "visitee list"
  | EnumNode string "enum_element list"
  | CommentNode | OptionNode | ReservedNode | ExtensionsNode | SyntaxNode | PackageNode | ImportNode
  | MapFieldNode string string string "proto_option list" "string option"
  | NormalFieldNode string string "proto_option list" "string option" bool bool
  | OneOfFieldNode string string "proto_option list" "string option"
  | OneofNode string "visitee list"
  | OtherVisitee

text \<open>
  \<open>MessageNode\<close> has the flag \<open>IsExtend\<close>, \<open>MapFieldNode\<close> the key type behind the type, \<open>NormalFieldNode\<close> the flags
  \<open>Optional\<close> and \<open>Repeated\<close>; the optional strings are the texts of inline comments.
\<close>

section \<open>Entities\<close>

datatype field = Field
  (fd_name: string) (fd_type: string) (fd_additionalType: string) (fd_isOneOf: bool) (fd_isMap: bool)
  (fd_isOptional: bool) (fd_isRepeated: bool) (fd_comment: string) (fd_attributes: "(string \<times> string) list")
  (fd_children: "field list")

datatype field_option =
    WithChildren "field list" | WithAdditionalType string | WithIsOneOf | WithIsMap | WithIsOptional
  | WithIsRepeated | WithComment string | WithAttribute string string

fun apply_option :: "field_option \<Rightarrow> field \<Rightarrow> field" where
  "apply_option (WithChildren fs) (Field n t at oo m opt rep c as ch) = Field n t at oo m opt rep c as fs"
| "apply_option (WithAdditionalType x) (Field n t at oo m opt rep c as ch) = Field n t x oo m opt rep c as ch"
| "apply_option WithIsOneOf (Field n t at oo m opt rep c as ch) = Field n t at True m opt rep c as ch"
| "apply_option WithIsMap (Field n t at oo m opt rep c as ch) = Field n t at oo True opt rep c as ch"
| "apply_option WithIsOptional (Field n t at oo m opt rep c as ch) = Field n t at oo m True rep c as ch"
| "apply_option WithIsRepeated (Field n t at oo m opt rep c as ch) = Field n t at oo m opt True c as ch"
| "apply_option (WithComment x) (Field n t at oo m opt rep c as ch) = Field n t at oo m opt rep x as ch"
| "apply_option (WithAttribute k v) (Field n t at oo m opt rep c as ch) =
     Field n t at oo m opt rep c (AList.update k v as) ch"

definition NewField :: "string \<Rightarrow> string \<Rightarrow> field_option list \<Rightarrow> field" where
  "NewField name typ options =
     foldl (\<lambda>f opt. apply_option opt f) (Field name typ [] False False False False [] [] []) options"

record enum_entry =
  ee_name :: string
  ee_value :: int
  ee_comment :: string

definition NewEnumEntry :: "string \<Rightarrow> int \<Rightarrow> string \<Rightarrow> enum_entry" where
  "NewEnumEntry name v comment = \<lparr>ee_name = name, ee_value = v, ee_comment = comment\<rparr>"

record enum_model =
  em_fileId :: nat
  em_pkg :: string
  em_path :: slice
  em_name :: string
  em_entries :: "enum_entry list"

record model =
  mo_fileId :: nat
  mo_pkg :: string
  mo_path :: slice
  mo_name :: string
  mo_fields :: "field list"

definition NewEnum :: "nat \<Rightarrow> string \<Rightarrow> slice \<Rightarrow> string \<Rightarrow> enum_entry list \<Rightarrow> enum_model" where
  "NewEnum fileId pkg path name entries =
     \<lparr>em_fileId = fileId, em_pkg = pkg, em_path = path, em_name = name, em_entries = entries\<rparr>"

definition NewModel :: "nat \<Rightarrow> string \<Rightarrow> slice \<Rightarrow> string \<Rightarrow> field list \<Rightarrow> model" where
  "NewModel fileId pkg path name fs =
     \<lparr>mo_fileId = fileId, mo_pkg = pkg, mo_path = path, mo_name = name, mo_fields = fs\<rparr>"

text \<open>The full name of an entity with the path \<open>path\<close>.\<close>

definition GetFullName :: "string list \<Rightarrow> string \<Rightarrow> string \<Rightarrow> string" where
  "GetFullName path name sep = (if path \<noteq> [] then join_with sep path @ sep @ name else name)"

text \<open>The parser's maps, and the arrays behind the paths.\<close>

record parser_state =
  ps_models :: "(string \<times> model) list"
  ps_enums :: "(string \<times> enum_model) list"
  ps_arrays :: arrays

definition NewParserState :: parser_state where
  "NewParserState = \<lparr>ps_models = [], ps_enums = [], ps_arrays = []\<rparr>"

record input_context =
  ic_FileId :: nat
  ic_Package :: string

definition NewInputContext :: "nat \<Rightarrow> string \<Rightarrow> input_context" where
  "NewInputContext fileId pkg = \<lparr>ic_FileId = fileId, ic_Package = pkg\<rparr>"

section \<open>Fields\<close>

definition attribute_options :: "proto_option list \<Rightarrow> field_option list" where
  "attribute_options = map (\<lambda>opt. WithAttribute (po_name opt) (po_source opt))"

definition comment_options :: "string option \<Rightarrow> field_option list" where
  "comment_options c = (case c of None \<Rightarrow> [] | Some text \<Rightarrow> [WithComment (TrimSpace text)])"

text \<open>The wrapping errors of fields drop their cause.\<close>

fun protoToField :: "visitee \<Rightarrow> bool \<Rightarrow> go_error + field"
  and oneof_fields :: "string \<Rightarrow> field list \<Rightarrow> visitee list \<Rightarrow> go_error + field list" where
  "protoToField (MapFieldNode name keyType typ opts comment) isInsideOneOf =
     Inr (NewField name typ ([WithIsMap, WithAdditionalType keyType] @ attribute_options opts @ comment_options comment))"
| "protoToField (NormalFieldNode name typ opts comment optional repeated) isInsideOneOf =
     Inr (NewField name typ (attribute_options opts @ comment_options comment
            @ (if optional then [WithIsOptional] else []) @ (if repeated then [WithIsRepeated] else [])))"
| "protoToField (OneOfFieldNode name typ opts comment) isInsideOneOf =
     (if \<not> isInsideOneOf then Inl (Wrap name [Atom ErrOneOfFieldNotInsideOneOf])
      else Inr (NewField name typ (attribute_options opts @ comment_options comment)))"
| "protoToField (OneofNode name elements) isInsideOneOf =
     (case oneof_fields name [] elements of
        Inl e \<Rightarrow> Inl e
      | Inr fs \<Rightarrow> Inr (NewField name ''oneOf'' [WithIsOneOf, WithChildren fs]))"
| "protoToField _ isInsideOneOf = Inl (Wrap [] [Atom ErrUnknownProtobufField])"
| "oneof_fields name fs [] = Inr fs"
| "oneof_fields name fs (CommentNode # rest) = oneof_fields name fs rest"
| "oneof_fields name fs (OptionNode # rest) = oneof_fields name fs rest"
| "oneof_fields name fs (node # rest) =
     (case protoToField node True of
        Inl e \<Rightarrow> Inl (Wrap (''oneof '' @ name) [Atom ErrProcessField])
      | Inr f \<Rightarrow> oneof_fields name (fs @ [f]) rest)"

section \<open>Enums and messages\<close>

fun enum_entries :: "enum_entry list \<Rightarrow> enum_element list \<Rightarrow> go_error + enum_entry list" where
  "enum_entries entries [] = Inr entries"
| "enum_entries entries (EnumField name v comment # rest) =
     enum_entries (entries @ [NewEnumEntry name v (case comment of None \<Rightarrow> [] | Some text \<Rightarrow> TrimSpace text)]) rest"
| "enum_entries entries (EnumOther # rest) = Inl (Wrap [] [Atom ErrUnknownProtobufEnumField])"
| "enum_entries entries (_ # rest) = enum_entries entries rest"

definition processEnum ::
  "string \<Rightarrow> input_context \<Rightarrow> slice \<Rightarrow> string \<Rightarrow> enum_element list \<Rightarrow> parser_state \<Rightarrow> go_error option \<times> parser_state" where
  "processEnum sep ctx path name elements st =
     (case enum_entries [] elements of
        Inl e \<Rightarrow> (Some e, st)
      | Inr entries \<Rightarrow>
          (let fullName = GetFullName (cells (ps_arrays st) path) name sep;
               enumModel = NewEnum (ic_FileId ctx) (ic_Package ctx) path name entries
           in (None, st\<lparr>ps_enums := AList.update fullName enumModel (ps_enums st)\<rparr>)))"

text \<open>The path of the elements of a message: \<open>append(path, message.Name)\<close>.\<close>

definition inner_path :: "(nat \<Rightarrow> nat) \<Rightarrow> slice \<Rightarrow> string \<Rightarrow> parser_state \<Rightarrow> slice \<times> parser_state" where
  "inner_path grow path name st =
     (case append_slice grow path name (ps_arrays st) of (s, h) \<Rightarrow> (s, st\<lparr>ps_arrays := h\<rparr>))"

definition store_model ::
  "string \<Rightarrow> input_context \<Rightarrow> slice \<Rightarrow> string \<Rightarrow> (go_error + field list) \<times> parser_state \<Rightarrow> go_error option \<times> parser_state" where
  "store_model sep ctx path name r =
     (case r of
        (Inl e, st) \<Rightarrow> (Some e, st)
      | (Inr fds, st) \<Rightarrow>
          (let fullName = GetFullName (cells (ps_arrays st) path) name sep;
               m = NewModel (ic_FileId ctx) (ic_Package ctx) path name fds
           in (None, st\<lparr>ps_models := AList.update fullName m (ps_models st)\<rparr>)))"

text \<open>
  The loop over the elements of the message \<open>name\<close>. A nested message is processed by the same loop, as
  \<open>processMessage\<close> below says for a whole message.
\<close>

fun process_elements ::
  "(nat \<Rightarrow> nat) \<Rightarrow> string \<Rightarrow> input_context \<Rightarrow> slice \<Rightarrow> string \<Rightarrow> field list \<Rightarrow> visitee list \<Rightarrow> parser_state
   \<Rightarrow> (go_error + field list) \<times> parser_state" where
  "process_elements grow sep ctx path name fds [] st = (Inr fds, st)"
| "process_elements grow sep ctx path name fds (MessageNode inner isExtend elements # rest) st =
     (case inner_path grow path name st of
        (path1, st1) \<Rightarrow>
          (case (if isExtend then (None, st1)
                 else store_model sep ctx path1 inner (process_elements grow sep ctx path1 inner [] elements st1)) of
             (Some e, st2) \<Rightarrow> (Inl (Wrap name [Atom ErrProcessMessage, e]), st2)
           | (None, st2) \<Rightarrow> process_elements grow sep ctx path name fds rest st2))"
| "process_elements grow sep ctx path name fds (EnumNode inner elements # rest) st =
     (case inner_path grow path name st of
        (path1, st1) \<Rightarrow>
          (case processEnum sep ctx path1 inner elements st1 of
             (Some e, st2) \<Rightarrow> (Inl (Wrap name [Atom ErrProcessEnum, e]), st2)
           | (None, st2) \<Rightarrow> process_elements grow sep ctx path name fds rest st2))"
| "process_elements grow sep ctx path name fds (CommentNode # rest) st =
     process_elements grow sep ctx path name fds rest st"
| "process_elements grow sep ctx path name fds (OptionNode # rest) st =
     process_elements grow sep ctx path name fds rest st"
| "process_elements grow sep ctx path name fds (ReservedNode # rest) st =
     process_elements grow sep ctx path name fds rest st"
| "process_elements grow sep ctx path name fds (ExtensionsNode # rest) st =
     process_elements grow sep ctx path name fds rest st"
| "process_elements grow sep ctx path name fds (node # rest) st =
     (case protoToField node False of
        Inl e \<Rightarrow> (Inl (Wrap [] [Atom ErrProcessField]), st)
      | Inr f \<Rightarrow> process_elements grow sep ctx path name (fds @ [f]) rest st)"

definition processMessage ::
  "(nat \<Rightarrow> nat) \<Rightarrow> string \<Rightarrow> input_context \<Rightarrow> slice \<Rightarrow> string \<Rightarrow> bool \<Rightarrow> visitee list \<Rightarrow> parser_state
   \<Rightarrow> go_error option \<times> parser_state" where
  "processMessage grow sep ctx path name isExtend elements st =
     (if isExtend then (None, st)
      else store_model sep ctx path name (process_elements grow sep ctx path name [] elements st))"

fun processProtobuf ::
  "(nat \<Rightarrow> nat) \<Rightarrow> string \<Rightarrow> input_context \<Rightarrow> visitee list \<Rightarrow> parser_state \<Rightarrow> go_error option \<times> parser_state" where
  "processProtobuf grow sep ctx [] st = (None, st)"
| "processProtobuf grow sep ctx (MessageNode name isExtend elements # rest) st =
     (case processMessage grow sep ctx nil_slice name isExtend elements st of
        (Some e, st1) \<Rightarrow> (Some (Wrap name [Atom ErrProcessMessage, e]), st1)
      | (None, st1) \<Rightarrow> processProtobuf grow sep ctx rest st1)"
| "processProtobuf grow sep ctx (EnumNode name elements # rest) st =
     (case processEnum sep ctx nil_slice name elements st of
        (Some e, st1) \<Rightarrow> (Some (Wrap name [Atom ErrProcessEnum, e]), st1)
      | (None, st1) \<Rightarrow> processProtobuf grow sep ctx rest st1)"
| "processProtobuf grow sep ctx (node # rest) st =
     (if node \<in> {SyntaxNode, PackageNode, OptionNode, ImportNode, CommentNode}
      then processProtobuf grow sep ctx rest st
      else (Some (Wrap [] [Atom ErrUnknownProtobufElement]), st))"

section \<open>Inputs\<close>

datatype proto_input = FileInput string string | BytesInput string "byte list" string

fun in_Name :: "proto_input \<Rightarrow> string" where
  "in_Name (FileInput filename pkg) = path_Base filename"
| "in_Name (BytesInput name source pkg) = name"

fun in_Package :: "proto_input \<Rightarrow> string" where
  "in_Package (FileInput filename pkg) = pkg"
| "in_Package (BytesInput name source pkg) = pkg"

fun in_Source :: "proto_input \<Rightarrow> fs \<Rightarrow> (go_error + reader) \<times> fs" where
  "in_Source (FileInput filename pkg) f = os_Open (Join [] filename) f"
| "in_Source (BytesInput name source pkg) f = (Inr \<lparr>rd_bytes = source, rd_fault = None\<rparr>, f)"

fun in_Close :: "proto_input \<Rightarrow> fs \<Rightarrow> fs" where
  "in_Close (FileInput filename pkg) f = snd (os_Close f)"
| "in_Close (BytesInput name source pkg) f = f"

text \<open>\<open>pp_parse\<close> is the parser of \<^verbatim>\<open>emicklei/proto\<close>.\<close>

record parser_config =
  pp_separator :: string
  pp_grow :: "nat \<Rightarrow> nat"
  pp_parse :: "reader \<Rightarrow> go_error + visitee list"

definition parseInput ::
  "parser_config \<Rightarrow> nat \<Rightarrow> proto_input \<Rightarrow> parser_state \<times> fs \<Rightarrow> go_error option \<times> parser_state \<times> fs" where
  "parseInput cfg inputIndex input w =
     (case w of
        (st, f) \<Rightarrow>
          (case in_Source input f of
             (Inl e, f1) \<Rightarrow> (Some (Wrap [] [Atom ErrOpenSource, e]), st, f1)
           | (Inr source, f1) \<Rightarrow>
               (case pp_parse cfg source of
                  Inl e \<Rightarrow> (Some (Wrap [] [Atom ErrParseFile, e]), st, in_Close input f1)
                | Inr elements \<Rightarrow>
                    (case processProtobuf (pp_grow cfg) (pp_separator cfg) (NewInputContext inputIndex (in_Package input))
                            elements st of
                       (Some e, st1) \<Rightarrow> (Some (Wrap [] [Atom ErrProcessFile, e]), st1, in_Close input f1)
                     | (None, st1) \<Rightarrow> (None, st1, in_Close input f1)))))"

fun parse_loop ::
  "parser_config \<Rightarrow> nat \<Rightarrow> proto_input list \<Rightarrow> parser_state \<times> fs \<Rightarrow> (go_error + parser_state) \<times> fs" where
  "parse_loop cfg i [] (st, f) = (Inr st, f)"
| "parse_loop cfg i (input # rest) (st, f) =
     (case parseInput cfg i input (st, f) of
        (Some e, st1, f1) \<Rightarrow> (Inl (Wrap (in_Name input) [Atom ErrParseInput, e]), f1)
      | (None, st1, f1) \<Rightarrow> parse_loop cfg (Suc i) rest (st1, f1))"

definition proto_Parse :: "parser_config \<Rightarrow> proto_input list \<Rightarrow> fs \<Rightarrow> (go_error + parser_state) \<times> fs" where
  "proto_Parse cfg inputs f = parse_loop cfg 0 inputs (NewParserState, f)"

section \<open>What append does to the arrays\<close>

definition wf_slice :: "arrays \<Rightarrow> slice \<Rightarrow> bool" where
  "wf_slice h s \<longleftrightarrow> sl_len s = 0 \<or> sl_array s < length h \<and> sl_len s \<le> length (h ! sl_array s)"

text \<open>The first \<open>n\<close> cells of every array stay as they are.\<close>

definition same_below :: "nat \<Rightarrow> arrays \<Rightarrow> arrays \<Rightarrow> bool" where
  "same_below n h h' \<longleftrightarrow> length h \<le> length h'
     \<and> (\<forall>i < length h. length (h' ! i) = length (h ! i) \<and> take n (h' ! i) = take n (h ! i))"

lemma same_below_refl [simp]: "same_below n h h"
  by (simp add: same_below_def)

lemma same_below_trans: "same_below n h h1 \<Longrightarrow> same_below n h1 h2 \<Longrightarrow> same_below n h h2"
  by (simp add: same_below_def)

lemma same_below_mono: "same_below n h h' \<Longrightarrow> m \<le> n \<Longrightarrow> same_below m h h'"
  unfolding same_below_def by (metis min.absorb1 take_take)

lemma same_below_cells:
  assumes "wf_slice h s" "sl_len s \<le> n" "same_below n h h'"
  shows "cells h' s = cells h s \<and> wf_slice h' s"
proof (cases "sl_len s = 0")
  case False
  with assms(1) have s: "sl_array s < length h" "sl_len s \<le> length (h ! sl_array s)" by (auto simp: wf_slice_def)
  with same_below_mono [OF assms(3,2)] show ?thesis by (auto simp: same_below_def wf_slice_def cells_def)
qed (simp add: cells_def wf_slice_def)

lemma length_cells: "wf_slice h s \<Longrightarrow> length (cells h s) = sl_len s"
  by (auto simp: wf_slice_def cells_def)

lemma append_slice_cells:
  assumes "wf_slice h s" "append_slice grow s x h = (s', h')"
  shows "wf_slice h' s'" "cells h' s' = cells h s @ [x]" "same_below (sl_len s) h h'" "sl_len s' = Suc (sl_len s)"
proof -
  have "wf_slice h' s' \<and> cells h' s' = cells h s @ [x] \<and> same_below (sl_len s) h h' \<and> sl_len s' = Suc (sl_len s)"
  proof (cases "0 < sl_len s \<and> sl_len s < length (h ! sl_array s)")
    case True
    with assms have s: "sl_array s < length h" "s' = s\<lparr>sl_len := Suc (sl_len s)\<rparr>"
      "h' = h[sl_array s := (h ! sl_array s)[sl_len s := x]]" by (auto simp: append_slice_def wf_slice_def)
    with True have "take (Suc (sl_len s)) (h' ! sl_array s) = take (sl_len s) (h ! sl_array s) @ [x]"
      by (simp add: take_Suc_conv_app_nth)
    moreover have "take (sl_len s) (h' ! i) = take (sl_len s) (h ! i) \<and> length (h' ! i) = length (h ! i)" if "i < length h" for i
      using s that by (cases "i = sl_array s") simp_all
    ultimately show ?thesis using True s by (simp add: wf_slice_def cells_def same_below_def)
  next
    case False
    let ?new = "cells h s @ x # replicate (grow (sl_len s) - Suc (sl_len s)) []"
    from False assms have s: "s' = \<lparr>sl_array = length h, sl_len = Suc (sl_len s)\<rparr>" "h' = h @ [?new]"
      by (auto simp: append_slice_def)
    have "take (Suc (sl_len s)) ?new = cells h s @ [x]" using length_cells [OF assms(1)] by simp
    then show ?thesis using s length_cells [OF assms(1)] by (simp add: wf_slice_def cells_def same_below_def nth_append)
  qed
  then show "wf_slice h' s'" "cells h' s' = cells h s @ [x]" "same_below (sl_len s) h h'" "sl_len s' = Suc (sl_len s)"
    by simp_all
qed

section \<open>A reference without slices\<close>

text \<open>Paths are lists, and an entity is kept without its path, which its full name contains.\<close>

type_synonym plain_maps =
  "(string \<times> nat \<times> string \<times> string \<times> field list) list \<times> (string \<times> nat \<times> string \<times> string \<times> enum_entry list) list"

definition plain :: "parser_state \<Rightarrow> plain_maps" where
  "plain st = (map (\<lambda>(k, m). (k, mo_fileId m, mo_pkg m, mo_name m, mo_fields m)) (ps_models st),
               map (\<lambda>(k, m). (k, em_fileId m, em_pkg m, em_name m, em_entries m)) (ps_enums st))"

definition ref_enum ::
  "string \<Rightarrow> input_context \<Rightarrow> string list \<Rightarrow> string \<Rightarrow> enum_element list \<Rightarrow> plain_maps \<Rightarrow> go_error option \<times> plain_maps" where
  "ref_enum sep ctx p name elements M =
     (case enum_entries [] elements of
        Inl e \<Rightarrow> (Some e, M)
      | Inr entries \<Rightarrow>
          (None, fst M, AList.update (GetFullName p name sep) (ic_FileId ctx, ic_Package ctx, name, entries) (snd M)))"

definition ref_store ::
  "string \<Rightarrow> input_context \<Rightarrow> string list \<Rightarrow> string \<Rightarrow> (go_error + field list) \<times> plain_maps \<Rightarrow> go_error option \<times> plain_maps" where
  "ref_store sep ctx p name r =
     (case r of
        (Inl e, M) \<Rightarrow> (Some e, M)
      | (Inr fds, M) \<Rightarrow>
          (None, AList.update (GetFullName p name sep) (ic_FileId ctx, ic_Package ctx, name, fds) (fst M), snd M))"

fun ref_elements ::
  "string \<Rightarrow> input_context \<Rightarrow> string list \<Rightarrow> string \<Rightarrow> field list \<Rightarrow> visitee list \<Rightarrow> plain_maps
   \<Rightarrow> (go_error + field list) \<times> plain_maps" where
  "ref_elements sep ctx p name fds [] M = (Inr fds, M)"
| "ref_elements sep ctx p name fds (MessageNode inner isExtend elements # rest) M =
     (case (if isExtend then (None, M)
            else ref_store sep ctx (p @ [name]) inner (ref_elements sep ctx (p @ [name]) inner [] elements M)) of
        (Some e, M1) \<Rightarrow> (Inl (Wrap name [Atom ErrProcessMessage, e]), M1)
      | (None, M1) \<Rightarrow> ref_elements sep ctx p name fds rest M1)"
| "ref_elements sep ctx p name fds (EnumNode inner elements # rest) M =
     (case ref_enum sep ctx (p @ [name]) inner elements M of
        (Some e, M1) \<Rightarrow> (Inl (Wrap name [Atom ErrProcessEnum, e]), M1)
      | (None, M1) \<Rightarrow> ref_elements sep ctx p name fds rest M1)"
| "ref_elements sep ctx p name fds (node # rest) M =
     (if node \<in> {CommentNode, OptionNode, ReservedNode, ExtensionsNode} then ref_elements sep ctx p name fds rest M
      else case protoToField node False of
        Inl e \<Rightarrow> (Inl (Wrap [] [Atom ErrProcessField]), M)
      | Inr f \<Rightarrow> ref_elements sep ctx p name (fds @ [f]) rest M)"

lemma map_update: "map (\<lambda>(k, m). (k, f m)) (AList.update k v xs) = AList.update k (f v) (map (\<lambda>(k, m). (k, f m)) xs)"
  by (induction xs) auto

lemma processEnum_ref:
  assumes "processEnum sep ctx path name elements st = (e, st')" "cells (ps_arrays st) path = p"
  shows "ref_enum sep ctx p name elements (plain st) = (e, plain st') \<and> ps_arrays st' = ps_arrays st"
  using assms
  by (auto simp: map_update [of "\<lambda>m. (em_fileId m, em_pkg m, em_name m, em_entries m)"] processEnum_def ref_enum_def plain_def NewEnum_def split: sum.splits)

lemma store_model_ref:
  assumes "store_model sep ctx path name (r, st) = (e, st')" "cells (ps_arrays st) path = p"
  shows "ref_store sep ctx p name (r, plain st) = (e, plain st') \<and> ps_arrays st' = ps_arrays st"
  using assms
  by (auto simp: map_update [of "\<lambda>m. (mo_fileId m, mo_pkg m, mo_name m, mo_fields m)"] store_model_def ref_store_def plain_def NewModel_def split: sum.splits)

lemma inner_path_ref:
  assumes "inner_path grow path name st = (path1, st1)" "wf_slice (ps_arrays st) path"
  shows "wf_slice (ps_arrays st1) path1" "cells (ps_arrays st1) path1 = cells (ps_arrays st) path @ [name]"
    "same_below (sl_len path) (ps_arrays st) (ps_arrays st1)" "sl_len path1 = Suc (sl_len path)" "plain st1 = plain st"
proof -
  obtain h where h: "append_slice grow path name (ps_arrays st) = (path1, h)" "st1 = st\<lparr>ps_arrays := h\<rparr>"
    using assms(1) by (auto simp: inner_path_def split: prod.splits)
  from append_slice_cells [OF assms(2) h(1)] h(2)
  show "wf_slice (ps_arrays st1) path1" "cells (ps_arrays st1) path1 = cells (ps_arrays st) path @ [name]"
    "same_below (sl_len path) (ps_arrays st) (ps_arrays st1)" "sl_len path1 = Suc (sl_len path)" "plain st1 = plain st"
    by (simp_all add: plain_def)
qed

lemma process_elements_ref:
  assumes "process_elements grow sep ctx path name fds els st = (r, st')" "wf_slice (ps_arrays st) path"
  shows "ref_elements sep ctx (cells (ps_arrays st) path) name fds els (plain st) = (r, plain st')
    \<and> same_below (sl_len path) (ps_arrays st) (ps_arrays st')"
  using assms
proof (induction grow sep ctx path name fds els st arbitrary: r st' rule: process_elements.induct)
  case (2 grow sep ctx path name fds inner isExtend elements rest st)
  let ?p = "cells (ps_arrays st) path"
  obtain path1 st1 where ip: "inner_path grow path name st = (path1, st1)" by fastforce
  note i = inner_path_ref [OF ip 2(4)]
  define x where "x = (if isExtend then (None, st1)
      else store_model sep ctx path1 inner (process_elements grow sep ctx path1 inner [] elements st1))"
  obtain e st2 where x: "x = (e, st2)" by fastforce
  have nested: "(if isExtend then (None, plain st)
        else ref_store sep ctx (?p @ [name]) inner (ref_elements sep ctx (?p @ [name]) inner [] elements (plain st))) = (e, plain st2)
      \<and> same_below (sl_len path) (ps_arrays st1) (ps_arrays st2)"
  proof (cases isExtend)
    case True
    with x i show ?thesis by (simp add: x_def)
  next
    case False
    obtain q st3 where q: "process_elements grow sep ctx path1 inner [] elements st1 = (q, st3)" by fastforce
    from 2(1) [OF ip [symmetric] False q i(1)] i(2,5)
    have IH: "ref_elements sep ctx (?p @ [name]) inner [] elements (plain st) = (q, plain st3)"
      "same_below (sl_len path1) (ps_arrays st1) (ps_arrays st3)" by simp_all
    have "cells (ps_arrays st3) path1 = ?p @ [name]" using same_below_cells [OF i(1) order.refl IH(2)] i(2) by simp
    with store_model_ref [of sep ctx path1 inner q st3 e st2] x False q
    have "ref_store sep ctx (?p @ [name]) inner (q, plain st3) = (e, plain st2)" "ps_arrays st2 = ps_arrays st3"
      by (simp_all add: x_def)
    with IH False same_below_mono [OF IH(2), of "sl_len path"] i(4) show ?thesis by simp
  qed
  have below: "same_below (sl_len path) (ps_arrays st) (ps_arrays st2)"
    using same_below_trans [OF i(3) conjunct2 [OF nested]] .
  note p2 = same_below_cells [OF 2(4) order.refl below]
  show ?case
  proof (cases e)
    case None
    with 2(3) ip x have "process_elements grow sep ctx path name fds rest st2 = (r, st')" by (simp add: x_def)
    from 2(2) [OF ip [symmetric] _ _ this conjunct2 [OF p2]] x None p2 nested below show ?thesis
      by (auto simp: x_def intro: same_below_trans)
  next
    case (Some e1)
    with 2(3) ip x nested below show ?thesis by (simp add: x_def)
  qed
next
  case (3 grow sep ctx path name fds inner elements rest st)
  let ?p = "cells (ps_arrays st) path"
  obtain path1 st1 where ip: "inner_path grow path name st = (path1, st1)" by fastforce
  note i = inner_path_ref [OF ip 3(3)]
  obtain e st2 where en: "processEnum sep ctx path1 inner elements st1 = (e, st2)" by fastforce
  note q = processEnum_ref [OF en i(2)]
  have below: "same_below (sl_len path) (ps_arrays st) (ps_arrays st2)" using i(3) q by simp
  note p2 = same_below_cells [OF 3(3) order.refl below]
  show ?case
  proof (cases e)
    case None
    with 3(2) ip en have "process_elements grow sep ctx path name fds rest st2 = (r, st')" by simp
    from 3(1) [OF ip [symmetric] en [symmetric] None this conjunct2 [OF p2]] None p2 q i(5) below show ?thesis
      by (auto intro: same_below_trans)
  next
    case (Some e1)
    with 3(2) ip en q i(5) below show ?thesis by simp
  qed
qed (auto split: sum.splits)

fun ref_protobuf :: "string \<Rightarrow> input_context \<Rightarrow> visitee list \<Rightarrow> plain_maps \<Rightarrow> go_error option \<times> plain_maps" where
  "ref_protobuf sep ctx [] M = (None, M)"
| "ref_protobuf sep ctx (MessageNode name isExtend elements # rest) M =
     (case (if isExtend then (None, M) else ref_store sep ctx [] name (ref_elements sep ctx [] name [] elements M)) of
        (Some e, M1) \<Rightarrow> (Some (Wrap name [Atom ErrProcessMessage, e]), M1)
      | (None, M1) \<Rightarrow> ref_protobuf sep ctx rest M1)"
| "ref_protobuf sep ctx (EnumNode name elements # rest) M =
     (case ref_enum sep ctx [] name elements M of
        (Some e, M1) \<Rightarrow> (Some (Wrap name [Atom ErrProcessEnum, e]), M1)
      | (None, M1) \<Rightarrow> ref_protobuf sep ctx rest M1)"
| "ref_protobuf sep ctx (node # rest) M =
     (if node \<in> {SyntaxNode, PackageNode, OptionNode, ImportNode, CommentNode} then ref_protobuf sep ctx rest M
      else (Some (Wrap [] [Atom ErrUnknownProtobufElement]), M))"

fun ref_inputs :: "parser_config \<Rightarrow> nat \<Rightarrow> proto_input list \<Rightarrow> plain_maps \<Rightarrow> fs \<Rightarrow> (go_error + plain_maps) \<times> fs" where
  "ref_inputs cfg i [] M f = (Inr M, f)"
| "ref_inputs cfg i (input # rest) M f =
     (let failed = (\<lambda>s e. Inl (Wrap (in_Name input) [Atom ErrParseInput, Wrap [] [Atom s, e]]))
      in case in_Source input f of
           (Inl e, f1) \<Rightarrow> (failed ErrOpenSource e, f1)
         | (Inr source, f1) \<Rightarrow>
             (case pp_parse cfg source of
                Inl e \<Rightarrow> (failed ErrParseFile e, in_Close input f1)
              | Inr elements \<Rightarrow>
                  (case ref_protobuf (pp_separator cfg) (NewInputContext i (in_Package input)) elements M of
                     (Some e, M1) \<Rightarrow> (failed ErrProcessFile e, in_Close input f1)
                   | (None, M1) \<Rightarrow> ref_inputs cfg (Suc i) rest M1 (in_Close input f1))))"

lemma nil_slice_cells [simp]: "wf_slice h nil_slice" "cells h nil_slice = []" "sl_len nil_slice = 0"
  by (simp_all add: wf_slice_def cells_def nil_slice_def)

lemma processMessage_ref:
  assumes "processMessage grow sep ctx nil_slice name isExtend els st = (e, st')"
  shows "(if isExtend then (None, plain st) else ref_store sep ctx [] name (ref_elements sep ctx [] name [] els (plain st)))
    = (e, plain st')"
proof (cases isExtend)
  case False
  obtain r st1 where r: "process_elements grow sep ctx nil_slice name [] els st = (r, st1)" by fastforce
  with False assms have "store_model sep ctx nil_slice name (r, st1) = (e, st')" by (simp add: processMessage_def)
  from store_model_ref [OF this] process_elements_ref [OF r] False show ?thesis by simp
qed (use assms in \<open>simp add: processMessage_def\<close>)

lemma processProtobuf_ref:
  "processProtobuf grow sep ctx els st = (e, st') \<Longrightarrow> ref_protobuf sep ctx els (plain st) = (e, plain st')"
proof (induction grow sep ctx els st arbitrary: e st' rule: processProtobuf.induct)
  case (2 grow sep ctx name isExtend elements rest st)
  obtain e1 st1 where m: "processMessage grow sep ctx nil_slice name isExtend elements st = (e1, st1)" by fastforce
  from processMessage_ref [OF m] 2(1) [OF m [symmetric]] 2(2) m show ?case by (cases e1) auto
next
  case (3 grow sep ctx name elements rest st)
  obtain e1 st1 where m: "processEnum sep ctx nil_slice name elements st = (e1, st1)" by fastforce
  from processEnum_ref [OF m] 3(1) [OF m [symmetric]] 3(2) m show ?case by (cases e1) auto
qed (auto split: if_splits)

lemma parse_loop_ref:
  "parse_loop cfg i inputs (st, f) = (r, f') \<Longrightarrow> ref_inputs cfg i inputs (plain st) f = (map_sum id plain r, f')"
proof (induction inputs arbitrary: i st f)
  case (Cons input rest)
  obtain x f1 where src: "in_Source input f = (x, f1)" by fastforce
  show ?case
  proof (cases x)
    case (Inl e)
    with Cons.prems src show ?thesis by (auto simp: parseInput_def)
  next
    case (Inr source)
    show ?thesis
    proof (cases "pp_parse cfg source")
      case (Inl e)
      with Cons.prems src Inr show ?thesis by (auto simp: parseInput_def)
    next
      case (Inr elements)
      obtain e st1 where pr: "processProtobuf (pp_grow cfg) (pp_separator cfg) (NewInputContext i (in_Package input)) elements st
          = (e, st1)" by fastforce
      from Cons.prems Cons.IH [of "Suc i" st1 "in_Close input f1"] processProtobuf_ref [OF pr] pr src \<open>x = Inr source\<close> Inr
      show ?thesis by (cases e) (auto simp: parseInput_def Let_def)
    qed
  qed
qed auto

section \<open>Properties\<close>

text \<open>C18: what the parser collects - which entities, under which full names, with which fields or entries, and
  which error - is that of a reference that keeps paths as plain lists. It does not depend on how the
  slices of paths share arrays, for every way in which \<open>append\<close> may grow them.\<close>

theorem parser_refines_reference:
  "map_prod (map_sum id plain) id (proto_Parse cfg inputs f) = ref_inputs cfg 0 inputs ([], []) f"
proof -
  obtain r f' where run: "proto_Parse cfg inputs f = (r, f')" by fastforce
  from parse_loop_ref [OF run [unfolded proto_Parse_def]] run show ?thesis
    by (simp add: plain_def NewParserState_def)
qed

text \<open>A chain of messages, one in the other.\<close>

definition nested_message :: "string list \<Rightarrow> visitee list \<Rightarrow> visitee" where
  "nested_message names inner = hd (foldr (\<lambda>n els. [MessageNode n False els]) names inner)"

text \<open>The stored path of a deeply nested entity can be that of another. Eight levels down, in a file with
  two messages side by side on the seventh level, the model with the full name
  \<^verbatim>\<open>A.B.C.D.E.F.G1.H1\<close> ends up with the path of its cousin, because the two slices share an array.\<close>

lemma parser_paths_overwritten:
  "\<exists>st m. processProtobuf go_grow ''.'' (NewInputContext 0 [])
       [nested_message [''A'', ''B'', ''C'', ''D'', ''E'', ''F'']
          [nested_message [''G1'', ''H1''] [], nested_message [''G2'', ''H2''] []]] NewParserState = (None, st)
     \<and> map_of (ps_models st) ''A.B.C.D.E.F.G1.H1'' = Some m
     \<and> mo_name m = ''H1'' \<and> cells (ps_arrays st) (mo_path m) = [''A'', ''B'', ''C'', ''D'', ''E'', ''F'', ''G2'']"
proof -
  let ?run = "processProtobuf go_grow ''.'' (NewInputContext 0 [])
       [nested_message [''A'', ''B'', ''C'', ''D'', ''E'', ''F'']
          [nested_message [''G1'', ''H1''] [], nested_message [''G2'', ''H2''] []]] NewParserState"
  have 1: "fst ?run = None" by code_simp
  have 2: "map_option (\<lambda>m. (mo_name m, cells (ps_arrays (snd ?run)) (mo_path m)))
      (map_of (ps_models (snd ?run)) ''A.B.C.D.E.F.G1.H1'')
      = Some (''H1'', [''A'', ''B'', ''C'', ''D'', ''E'', ''F'', ''G2''])" by code_simp
  from fst_NoneD [OF 1] 2 show ?thesis by auto
qed

end
