(* ===== verification/Caches.thy ===== *)
theory Caches
  imports Go_Base "HOL-Library.AList"
begin

text \<open>
  Package \<^verbatim>\<open>cache\<close>: the provider interface (\<^verbatim>\<open>provider.go\<close>), the providers \<open>Memory\<close> and \<open>Redis\<close>
  (\<^verbatim>\<open>provider/memory.go\<close>, \<^verbatim>\<open>provider/redis.go\<close>), the cache (\<^verbatim>\<open>impl.go\<close>) and its proxy (\<^verbatim>\<open>proxy.go\<close>).
  The context of a call carries a clock; its reading \<open>now\<close> is an argument of each operation. A method
  under the provider's mutex is one step.

  The locale \<open>cache_store\<close> is what a cache needs of a provider: values stay until they expire and keys
  of different groups do not meet. The memory provider implements it (\<open>interpretation memory\<close>).
\<close>

section \<open>Providers\<close>

record 's cache_provider =
  cp_Has :: "int \<Rightarrow> string \<Rightarrow> string \<Rightarrow> 's \<Rightarrow> (go_error + bool) \<times> 's"
  cp_Get :: "int \<Rightarrow> string \<Rightarrow> string \<Rightarrow> 's \<Rightarrow> (go_error + byte list) \<times> 's"
  cp_Set :: "int \<Rightarrow> string \<Rightarrow> string \<Rightarrow> byte list \<Rightarrow> int \<Rightarrow> 's \<Rightarrow> go_error option \<times> 's"
  cp_Delete :: "int \<Rightarrow> string \<Rightarrow> string \<Rightarrow> 's \<Rightarrow> go_error option \<times> 's"

text \<open>\<open>group + ":" + key\<close>, in both providers.\<close>

definition group_key :: "string \<Rightarrow> string \<Rightarrow> string" where
  "group_key grp key = grp @ '':'' @ key"

text \<open>The memory provider. Deleting from the map under the read lock is part of \<open>Get\<close>.\<close>

record mem_entry =
  me_Value :: "byte list"
  me_ExpiresAt :: int

definition NewEntry :: "byte list \<Rightarrow> int \<Rightarrow> mem_entry" where
  "NewEntry v expiresAt = \<lparr>me_Value = v, me_ExpiresAt = expiresAt\<rparr>"

type_synonym memory = "(string \<times> mem_entry) list"

definition NewMemory :: memory where
  "NewMemory = []"

definition mem_Has :: "int \<Rightarrow> string \<Rightarrow> string \<Rightarrow> memory \<Rightarrow> (go_error + bool) \<times> memory" where
  "mem_Has now grp key m = (Inr (map_of m (group_key grp key) \<noteq> None), m)"

definition mem_Get :: "int \<Rightarrow> string \<Rightarrow> string \<Rightarrow> memory \<Rightarrow> (go_error + byte list) \<times> memory" where
  "mem_Get now grp key m =
     (let groupKey = group_key grp key
      in case map_of m groupKey of
           Some e \<Rightarrow>
             if now > me_ExpiresAt e
             then (Inl (Wrap groupKey [Atom ErrProviderNoSuchKey]), AList.delete groupKey m)
             else (Inr (me_Value e), m)
         | None \<Rightarrow> (Inl (Wrap groupKey [Atom ErrProviderNoSuchKey]), m))"

definition mem_Set :: "int \<Rightarrow> string \<Rightarrow> string \<Rightarrow> byte list \<Rightarrow> int \<Rightarrow> memory \<Rightarrow> go_error option \<times> memory" where
  "mem_Set now grp key v ttl m = (None, AList.update (group_key grp key) (NewEntry v (now + ttl)) m)"

definition mem_Delete :: "int \<Rightarrow> string \<Rightarrow> string \<Rightarrow> memory \<Rightarrow> go_error option \<times> memory" where
  "mem_Delete now grp key m = (None, AList.delete (group_key grp key) m)"

definition mem_ops :: "memory cache_provider" where
  "mem_ops = \<lparr>cp_Has = mem_Has, cp_Get = mem_Get, cp_Set = mem_Set, cp_Delete = mem_Delete\<rparr>"

text \<open>The Redis provider over a client of package \<^verbatim>\<open>redis\<close>; the server keeps the time.\<close>

record 's redis_client =
  rc_GetString :: "string \<Rightarrow> 's \<Rightarrow> (go_error + string) \<times> 's"
  rc_SetKey :: "string \<Rightarrow> string \<Rightarrow> int \<Rightarrow> 's \<Rightarrow> go_error option \<times> 's"
  rc_Del :: "string list \<Rightarrow> 's \<Rightarrow> go_error option \<times> 's"

definition redis_Has :: "'s redis_client \<Rightarrow> string \<Rightarrow> string \<Rightarrow> 's \<Rightarrow> (go_error + bool) \<times> 's" where
  "redis_Has c grp key s =
     (case rc_GetString c (group_key grp key) s of
        (Inl e, s1) \<Rightarrow> if err_is e RedisNil then (Inr False, s1) else (Inl e, s1)
      | (Inr v, s1) \<Rightarrow> (Inr True, s1))"

definition redis_Get :: "'s redis_client \<Rightarrow> string \<Rightarrow> string \<Rightarrow> 's \<Rightarrow> (go_error + byte list) \<times> 's" where
  "redis_Get c grp key s =
     (let groupKey = group_key grp key
      in case rc_GetString c groupKey s of
           (Inl e, s1) \<Rightarrow>
             if err_is e RedisNil then (Inl (Wrap groupKey [Atom ErrProviderNoSuchKey]), s1) else (Inl e, s1)
         | (Inr v, s1) \<Rightarrow> (Inr v, s1))"

definition redis_Set :: "'s redis_client \<Rightarrow> string \<Rightarrow> string \<Rightarrow> byte list \<Rightarrow> int \<Rightarrow> 's \<Rightarrow> go_error option \<times> 's" where
  "redis_Set c grp key v ttl s = rc_SetKey c (group_key grp key) v ttl s"

definition redis_Delete :: "'s redis_client \<Rightarrow> string \<Rightarrow> string \<Rightarrow> 's \<Rightarrow> go_error option \<times> 's" where
  "redis_Delete c grp key s = rc_Del c [group_key grp key] s"

definition redis_ops :: "'s redis_client \<Rightarrow> 's cache_provider" where
  "redis_ops c = \<lparr>cp_Has = (\<lambda>_. redis_Has c), cp_Get = (\<lambda>_. redis_Get c), cp_Set = (\<lambda>_. redis_Set c),
                  cp_Delete = (\<lambda>_. redis_Delete c)\<rparr>"

section \<open>The cache\<close>

text \<open>The key type is given by its \<open>String\<close> method; a result is a value with an error.\<close>

record ('k, 'v) cache_config =
  cc_group :: string
  cc_string :: "'k \<Rightarrow> string"
  cc_marshal :: "'v \<Rightarrow> go_error + byte list"
  cc_unmarshal :: "byte list \<Rightarrow> go_error + 'v"
  cc_default :: 'v
  cc_ttl :: int

definition NewCache ::
  "string \<Rightarrow> ('k \<Rightarrow> string) \<Rightarrow> ('v \<Rightarrow> go_error + byte list) \<Rightarrow> (byte list \<Rightarrow> go_error + 'v) \<Rightarrow> 'v \<Rightarrow> int \<Rightarrow> ('k, 'v) cache_config" where
  "NewCache grp str marshal unmarshal d ttl =
     \<lparr>cc_group = grp, cc_string = str, cc_marshal = marshal, cc_unmarshal = unmarshal, cc_default = d, cc_ttl = ttl\<rparr>"

definition cache_Has :: "('k, 'v) cache_config \<Rightarrow> 's cache_provider \<Rightarrow> int \<Rightarrow> 'k \<Rightarrow> 's \<Rightarrow> (go_error + bool) \<times> 's" where
  "cache_Has c ops now key s = cp_Has ops now (cc_group c) (cc_string c key) s"

definition cache_Get ::
  "('k, 'v) cache_config \<Rightarrow> 's cache_provider \<Rightarrow> int \<Rightarrow> 'k \<Rightarrow> 's \<Rightarrow> ('v \<times> go_error option) \<times> 's" where
  "cache_Get c ops now key s =
     (case cp_Get ops now (cc_group c) (cc_string c key) s of
        (Inl e, s1) \<Rightarrow>
          if err_is e ErrProviderNoSuchKey then ((cc_default c, None), s1)
          else ((cc_default c, Some (Wrap [] [Atom ErrProviderGet, e])), s1)
      | (Inr bytes, s1) \<Rightarrow>
          (case cc_unmarshal c bytes of
             Inl e \<Rightarrow> ((cc_default c, Some (Wrap [] [Atom ErrUnmarshal, e])), s1)
           | Inr v \<Rightarrow> ((v, None), s1)))"

definition cache_Set ::
  "('k, 'v) cache_config \<Rightarrow> 's cache_provider \<Rightarrow> int \<Rightarrow> 'k \<Rightarrow> 'v \<Rightarrow> 's \<Rightarrow> go_error option \<times> 's" where
  "cache_Set c ops now key v s =
     (case cc_marshal c v of
        Inl e \<Rightarrow> (Some (Wrap [] [Atom ErrMarshal, e]), s)
      | Inr bytes \<Rightarrow>
          (case cp_Set ops now (cc_group c) (cc_string c key) bytes (cc_ttl c) s of
             (Some e, s1) \<Rightarrow> (Some (Wrap [] [Atom ErrProviderSet, e]), s1)
           | (None, s1) \<Rightarrow> (None, s1)))"

definition cache_Delete :: "('k, 'v) cache_config \<Rightarrow> 's cache_provider \<Rightarrow> int \<Rightarrow> 'k \<Rightarrow> 's \<Rightarrow> go_error option \<times> 's" where
  "cache_Delete c ops now key s =
     (case cp_Delete ops now (cc_group c) (cc_string c key) s of
        (Some e, s1) \<Rightarrow> (Some (Wrap [] [Atom ErrProviderDelete, e]), s1)
      | (None, s1) \<Rightarrow> (None, s1))"

section \<open>The proxy\<close>

text \<open>The getter has a state \<open>'w\<close> of its own. The clock is read again by each operation of the cache.\<close>

definition proxy_Get ::
  "('k, 'v) cache_config \<Rightarrow> 's cache_provider \<Rightarrow> ('k \<Rightarrow> 'w \<Rightarrow> (go_error + 'v) \<times> 'w) \<Rightarrow> int \<Rightarrow> int \<Rightarrow> 'k \<Rightarrow> 's \<times> 'w
   \<Rightarrow> ('v \<times> go_error option) \<times> 's \<times> 'w" where
  "proxy_Get c ops getter now now1 key x =
     (case x of
        (s, w) \<Rightarrow>
          (case cache_Has c ops now key s of
             (Inl e, s1) \<Rightarrow> ((cc_default c, Some e), s1, w)
           | (Inr True, s1) \<Rightarrow> (case cache_Get c ops now1 key s1 of (r, s2) \<Rightarrow> (r, s2, w))
           | (Inr False, s1) \<Rightarrow>
               (case getter key w of
                  (Inl e, w1) \<Rightarrow> ((cc_default c, Some e), s1, w1)
                | (Inr v, w1) \<Rightarrow>
                    (case cache_Set c ops now1 key v s1 of
                       (Some e, s2) \<Rightarrow> ((cc_default c, Some e), s2, w1)
                     | (None, s2) \<Rightarrow> ((v, None), s2, w1)))))"

section \<open>The contract of a provider\<close>

text \<open>
  \<open>live t s g k\<close> is the value that a read at the time \<open>t\<close> would find. The laws speak of the times from
  \<open>now\<close> on, and of positive lifetimes; groups are admissible (\<open>ok\<close>) when their keys do not collide.
\<close>

locale cache_store =
  fixes ops :: "'s cache_provider"
    and live :: "int \<Rightarrow> 's \<Rightarrow> string \<Rightarrow> string \<Rightarrow> byte list option"
    and ok :: "string \<Rightarrow> bool"
  assumes has_law: "cp_Has ops now g k s = (be, s') \<Longrightarrow> now \<le> t \<Longrightarrow> live t s' = live t s"
    and get_law: "cp_Get ops now g k s = (r, s') \<Longrightarrow> now \<le> t \<Longrightarrow> ok g \<Longrightarrow> ok g' \<Longrightarrow> live t s' g' k' = live t s g' k'"
    and get_value: "cp_Get ops now g k s = (r, s') \<Longrightarrow>
      (\<forall>b. r = Inr b \<longrightarrow> live now s g k = Some b) \<and> (\<forall>e. r = Inl e \<longrightarrow> err_is e ErrProviderNoSuchKey \<longrightarrow> live now s g k = None)"
    and set_law: "cp_Set ops now g k b ttl s = (e, s') \<Longrightarrow> now \<le> t \<Longrightarrow> ok g \<Longrightarrow> ok g' \<Longrightarrow>
      ((g', k') \<noteq> (g, k) \<longrightarrow> live t s' g' k' = live t s g' k')
      \<and> (e = None \<longrightarrow> 0 < ttl \<longrightarrow> live t s' g k = (if t \<le> now + ttl then Some b else None))"
    and delete_law: "cp_Delete ops now g k s = (e, s') \<Longrightarrow> now \<le> t \<Longrightarrow> ok g \<Longrightarrow> ok g' \<Longrightarrow>
      ((g', k') \<noteq> (g, k) \<longrightarrow> live t s' g' k' = live t s g' k') \<and> (e = None \<longrightarrow> live t s' g k = None)"

text \<open>Calls to caches that share a provider: the cache, the time and the call.\<close>

datatype ('k, 'v) cache_call = CallHas 'k | CallGet 'k | CallSet 'k 'v | CallDelete 'k

fun run_calls ::
  "'s cache_provider \<Rightarrow> (('k, 'v) cache_config \<times> int \<times> ('k, 'v) cache_call) list \<Rightarrow> 's \<Rightarrow> 's" where
  "run_calls ops [] s = s"
| "run_calls ops ((c, now, CallHas k) # cs) s = run_calls ops cs (snd (cache_Has c ops now k s))"
| "run_calls ops ((c, now, CallGet k) # cs) s = run_calls ops cs (snd (cache_Get c ops now k s))"
| "run_calls ops ((c, now, CallSet k v) # cs) s = run_calls ops cs (snd (cache_Set c ops now k v s))"
| "run_calls ops ((c, now, CallDelete k) # cs) s = run_calls ops cs (snd (cache_Delete c ops now k s))"

text \<open>The entry of the provider that a call may change.\<close>

fun changes :: "('k, 'v) cache_config \<times> int \<times> ('k, 'v) cache_call \<Rightarrow> (string \<times> string) set" where
  "changes (c, now, CallHas k) = {}"
| "changes (c, now, CallGet k) = {}"
| "changes (c, now, CallSet k v) = {(cc_group c, cc_string c k)}"
| "changes (c, now, CallDelete k) = {(cc_group c, cc_string c k)}"

context cache_store
begin

lemma call_keeps:
  assumes "now \<le> t" "ok (cc_group c)" "ok g" "(g, k) \<notin> changes (c, now, call)"
  shows "live t (run_calls ops [(c, now, call)] s) g k = live t s g k"
proof (cases call)
  case (CallHas x)
  obtain r s' where h: "cp_Has ops now (cc_group c) (cc_string c x) s = (r, s')" by fastforce
  from has_law [OF h assms(1)] h CallHas show ?thesis by (simp add: cache_Has_def)
next
  case (CallGet x)
  obtain r s' where h: "cp_Get ops now (cc_group c) (cc_string c x) s = (r, s')" by fastforce
  from get_law [OF h assms(1,2,3)] h CallGet show ?thesis by (simp add: cache_Get_def split: sum.split)
next
  case (CallSet x v)
  show ?thesis
  proof (cases "cc_marshal c v")
    case (Inr b)
    obtain e s' where h: "cp_Set ops now (cc_group c) (cc_string c x) b (cc_ttl c) s = (e, s')" by fastforce
    from set_law [OF h assms(1,2,3), of k] h CallSet Inr assms(4) show ?thesis
      by (simp add: cache_Set_def split: option.split)
  qed (simp add: CallSet cache_Set_def)
next
  case (CallDelete x)
  obtain e s' where h: "cp_Delete ops now (cc_group c) (cc_string c x) s = (e, s')" by fastforce
  from delete_law [OF h assms(1,2,3), of k] h CallDelete assms(4) show ?thesis
    by (simp add: cache_Delete_def split: option.split)
qed

lemma run_calls_Cons: "run_calls ops (x # cs) s = run_calls ops cs (run_calls ops [x] s)"
  by (cases x rule: changes.cases) simp_all

lemma calls_keep:
  assumes "\<forall>(c, now, call) \<in> set cs. now \<le> t \<and> ok (cc_group c)" "ok g" "\<forall>x \<in> set cs. (g, k) \<notin> changes x"
  shows "live t (run_calls ops cs s) g k = live t s g k"
  using assms(1,3)
proof (induction cs arbitrary: s)
  case (Cons x cs)
  obtain c now call where x: "x = (c, now, call)" by (cases x) auto
  from Cons have "live t (run_calls ops [x] s) g k = live t s g k"
    unfolding x using assms(2) by (intro call_keeps) auto
  with Cons show ?case by (subst run_calls_Cons) simp
qed simp

text \<open>A read after a write and calls that change other entries; the provider may fail only by not finding the key.\<close>

lemma read_after_write:
  assumes "cache_Set c ops now key v s = (None, s1)" "0 < cc_ttl c" "ok (cc_group c)" "now \<le> t"
    and "\<forall>(c', u, call) \<in> set cs. u \<le> t \<and> ok (cc_group c')"
    and "\<forall>x \<in> set cs. (cc_group c, cc_string c key) \<notin> changes x"
    and "\<And>b. cc_marshal c v = Inr b \<Longrightarrow> cc_unmarshal c b = Inr v"
    and "\<And>now g k s e s'. cp_Get ops now g k s = (Inl e, s') \<Longrightarrow> err_is e ErrProviderNoSuchKey"
  shows "fst (cache_Get c ops t key (run_calls ops cs s1)) = (if t \<le> now + cc_ttl c then v else cc_default c, None)"
proof -
  obtain b where b: "cc_marshal c v = Inr b" "cp_Set ops now (cc_group c) (cc_string c key) b (cc_ttl c) s = (None, s1)"
    using assms(1) by (auto simp: cache_Set_def split: sum.splits prod.splits option.splits)
  from set_law [OF b(2) assms(4,3,3), of "cc_string c key"] assms(2)
    calls_keep [OF assms(5,3,6), of s1]
  have live: "live t (run_calls ops cs s1) (cc_group c) (cc_string c key) = (if t \<le> now + cc_ttl c then Some b else None)"
    by simp
  obtain r s' where g: "cp_Get ops t (cc_group c) (cc_string c key) (run_calls ops cs s1) = (r, s')" by fastforce
  from get_value [OF g] live assms(7) [OF b(1)] assms(8) g show ?thesis
    by (auto simp: cache_Get_def split: sum.splits if_splits)
qed

end

section \<open>The memory provider keeps the contract\<close>

definition mem_live :: "int \<Rightarrow> memory \<Rightarrow> string \<Rightarrow> string \<Rightarrow> byte list option" where
  "mem_live t m g k =
     (case map_of m (group_key g k) of
        None \<Rightarrow> None
      | Some e \<Rightarrow> if t > me_ExpiresAt e then None else Some (me_Value e))"

text \<open>Groups without a colon do not share keys.\<close>

abbreviation plain_group :: "string \<Rightarrow> bool" where
  "plain_group g \<equiv> CHR '':'' \<notin> set g"

lemma group_key_inj:
  assumes "plain_group g" "plain_group g'" "group_key g k = group_key g' k'"
  shows "g = g' \<and> k = k'"
proof -
  have "takeWhile (\<lambda>c. c \<noteq> CHR '':'') (group_key h x) = h" if "plain_group h" for h x
    unfolding group_key_def using that by (subst takeWhile_append2) auto
  with assms have "g = g'" by metis
  with assms(3) show ?thesis by (simp add: group_key_def)
qed

interpretation memory: cache_store mem_ops mem_live plain_group
proof
  show "mem_live t s' = mem_live t s" if "cp_Has mem_ops now g k s = (r, s')" for now g k s r s' t
    using that by (simp add: mem_ops_def mem_Has_def)
next
  show "mem_live t s' g' k' = mem_live t s g' k'"
    if "cp_Get mem_ops now g k s = (r, s')" "now \<le> t" for now g k s r s' t g' k'
    using that by (auto simp: mem_ops_def mem_Get_def mem_live_def delete_conv Let_def split: option.splits if_splits)
next
  show "(\<forall>b. r = Inr b \<longrightarrow> mem_live now s g k = Some b)
      \<and> (\<forall>e. r = Inl e \<longrightarrow> err_is e ErrProviderNoSuchKey \<longrightarrow> mem_live now s g k = None)"
    if "cp_Get mem_ops now g k s = (r, s')" for now g k s r s'
    using that by (auto simp: mem_ops_def mem_Get_def mem_live_def Let_def split: option.splits if_splits)
next
  show "((g', k') \<noteq> (g, k) \<longrightarrow> mem_live t s' g' k' = mem_live t s g' k')
      \<and> (e = None \<longrightarrow> 0 < ttl \<longrightarrow> mem_live t s' g k = (if t \<le> now + ttl then Some b else None))"
    if "cp_Set mem_ops now g k b ttl s = (e, s')" "plain_group g" "plain_group g'" for now g k b ttl s e s' t g' k'
    using that group_key_inj [of g' g k' k]
    by (auto simp: mem_ops_def mem_Set_def mem_live_def update_conv NewEntry_def)
next
  show "((g', k') \<noteq> (g, k) \<longrightarrow> mem_live t s' g' k' = mem_live t s g' k') \<and> (e = None \<longrightarrow> mem_live t s' g k = None)"
    if "cp_Delete mem_ops now g k s = (e, s')" "plain_group g" "plain_group g'" for now g k s e s' t g' k'
    using that group_key_inj [of g' g k' k] by (auto simp: mem_ops_def mem_Delete_def mem_live_def delete_conv)
qed

section \<open>The memory provider under its lock\<close>

text \<open>
  The same methods in the steps that other goroutines can see: taking the lock, the look-up, the change of the
  map. \<open>Has\<close> and \<open>Get\<close> hold the read lock, which any number of readers may hold, \<open>Set\<close> and \<open>Delete\<close> the
  write lock. Go stops the program when a map is changed while another goroutine uses it.
\<close>

datatype mem_pc = Outside | HasLooks | GetLooks string | GetDeletes string | Changes "memory \<Rightarrow> memory"

definition holds_write :: "mem_pc \<Rightarrow> bool" where
  "holds_write pc = (case pc of Changes f \<Rightarrow> True | _ \<Rightarrow> False)"

inductive mem_step :: "memory \<times> mem_pc list \<Rightarrow> memory \<times> mem_pc list \<Rightarrow> bool" where
  read_lock: "i < length pcs \<Longrightarrow> pcs ! i = Outside \<Longrightarrow> \<not> list_ex holds_write pcs \<Longrightarrow> pc \<in> {HasLooks, GetLooks key} \<Longrightarrow>
     mem_step (m, pcs) (m, pcs[i := pc])"
| has_done: "i < length pcs \<Longrightarrow> pcs ! i = HasLooks \<Longrightarrow> mem_step (m, pcs) (m, pcs[i := Outside])"
| get_done: "i < length pcs \<Longrightarrow> pcs ! i = GetLooks key \<Longrightarrow>
     \<forall>e. map_of m key = Some e \<longrightarrow> \<not> now > me_ExpiresAt e \<Longrightarrow> mem_step (m, pcs) (m, pcs[i := Outside])"
| get_expired: "i < length pcs \<Longrightarrow> pcs ! i = GetLooks key \<Longrightarrow> map_of m key = Some e \<Longrightarrow> now > me_ExpiresAt e \<Longrightarrow>
     mem_step (m, pcs) (m, pcs[i := GetDeletes key])"
| get_delete: "i < length pcs \<Longrightarrow> pcs ! i = GetDeletes key \<Longrightarrow> mem_step (m, pcs) (AList.delete key m, pcs[i := Outside])"
| write_lock: "i < length pcs \<Longrightarrow> list_all (\<lambda>pc. pc = Outside) pcs \<Longrightarrow> mem_step (m, pcs) (m, pcs[i := Changes f])"
| write_done: "i < length pcs \<Longrightarrow> pcs ! i = Changes f \<Longrightarrow> mem_step (m, pcs) (f m, pcs[i := Outside])"

text \<open>Two goroutines use the map at the same time and one of them changes it.\<close>

definition uses_map :: "mem_pc \<Rightarrow> bool" where
  "uses_map pc = (pc \<noteq> Outside)"

definition changes_map :: "mem_pc \<Rightarrow> bool" where
  "changes_map pc = (case pc of GetDeletes key \<Rightarrow> True | Changes f \<Rightarrow> True | _ \<Rightarrow> False)"

definition map_race :: "mem_pc list \<Rightarrow> bool" where
  "map_race pcs \<longleftrightarrow> (\<exists>i < length pcs. \<exists>j < length pcs. i \<noteq> j \<and> changes_map (pcs ! i) \<and> uses_map (pcs ! j))"

lemma get_races:
  assumes "map_of m key = Some e" "me_ExpiresAt e < now"
  shows "mem_step\<^sup>*\<^sup>* (m, [Outside, Outside]) (m, [GetDeletes key, GetDeletes key])"
proof -
  have s1: "mem_step (m, [Outside, Outside]) (m, [GetLooks key, Outside])"
    using mem_step.read_lock [of 0 "[Outside, Outside]" "GetLooks key" key m] by (simp add: holds_write_def)
  have s2: "mem_step (m, [GetLooks key, Outside]) (m, [GetLooks key, GetLooks key])"
    using mem_step.read_lock [of 1 "[GetLooks key, Outside]" "GetLooks key" key m] by (simp add: holds_write_def)
  have s3: "mem_step (m, [GetLooks key, GetLooks key]) (m, [GetDeletes key, GetLooks key])"
    using mem_step.get_expired [of 0 "[GetLooks key, GetLooks key]" key m e now] assms by simp
  have s4: "mem_step (m, [GetDeletes key, GetLooks key]) (m, [GetDeletes key, GetDeletes key])"
    using mem_step.get_expired [of 1 "[GetDeletes key, GetLooks key]" key m e now] assms by simp
  from s1 s2 s3 s4 show ?thesis by (meson rtranclp.rtrancl_refl rtranclp.rtrancl_into_rtrancl)
qed

section \<open>Properties\<close>

text \<open>C19: a cache over memory reads its last write. After a successful \<open>Set\<close>, and after any calls of any caches on
  the same provider that do not set or delete this entry, \<open>Get\<close> returns the value up to the end
  of its lifetime, and from then on the default.\<close>

theorem cache_reads_last_write:
  assumes "cache_Set c mem_ops now key v m = (None, m1)" "0 < cc_ttl c" "plain_group (cc_group c)" "now \<le> t"
    and "\<forall>(c', u, call) \<in> set cs. u \<le> t \<and> plain_group (cc_group c')"
    and "\<forall>x \<in> set cs. (cc_group c, cc_string c key) \<notin> changes x"
    and "\<And>b. cc_marshal c v = Inr b \<Longrightarrow> cc_unmarshal c b = Inr v"
  shows "fst (cache_Get c mem_ops t key (run_calls mem_ops cs m1))
    = (if t \<le> now + cc_ttl c then v else cc_default c, None)"
  by (rule memory.read_after_write [OF assms])
    (auto simp: mem_ops_def mem_Get_def Let_def split: option.splits if_splits)

definition example_cache :: "(string, string) cache_config" where
  "example_cache = NewCache ''users'' id Inr Inr ''?'' 10"

lemma cache_reads_last_write_witness:
  "fst (cache_Get example_cache mem_ops 15 ''bob''
      (run_calls mem_ops [(example_cache, 7, CallSet ''eve'' ''y''), (example_cache, 9, CallGet ''bob'')]
        (snd (cache_Set example_cache mem_ops 5 ''bob'' ''x'' NewMemory)))) = (''x'', None)"
proof -
  let ?m = "cache_Set example_cache mem_ops 5 ''bob'' ''x'' NewMemory"
  let ?cs = "[(example_cache, 7, CallSet ''eve'' ''y''), (example_cache, 9, CallGet ''bob'')]"
  have "fst ?m = None" by code_simp
  from fst_NoneD [OF this] obtain m1 where m: "?m = (None, m1)" by blast
  have c: "cc_group example_cache = ''users''" "cc_string example_cache = id" "cc_ttl example_cache = 10"
    "cc_marshal example_cache = Inr" "cc_unmarshal example_cache = Inr"
    by (simp_all add: example_cache_def NewCache_def)
  have "fst (cache_Get example_cache mem_ops 15 ''bob'' (run_calls mem_ops ?cs m1))
      = (if 15 \<le> 5 + cc_ttl example_cache then ''x'' else cc_default example_cache, None)"
    by (rule cache_reads_last_write [OF m]) (simp_all add: c)
  then show ?thesis using m c by simp
qed

text \<open>On an expired entry the proxy over memory returns the default without an error and does not ask its
  getter: \<open>Has\<close> still finds the entry, \<open>Get\<close> then removes it and reports the default.\<close>

lemma proxy_expired_returns_default:
  assumes "map_of m (group_key (cc_group c) (cc_string c key)) = Some e" "me_ExpiresAt e < now1"
  shows "\<exists>m1. proxy_Get c mem_ops getter now now1 key (m, w) = ((cc_default c, None), m1, w)
    \<and> map_of m1 (group_key (cc_group c) (cc_string c key)) = None"
  using assms
  by (simp add: proxy_Get_def cache_Has_def cache_Get_def mem_ops_def mem_Has_def mem_Get_def Let_def delete_conv)

lemma proxy_expired_returns_default_witness:
  "\<exists>m1. proxy_Get example_cache mem_ops (\<lambda>k w. (Inr ''fresh'', Suc w)) 100 100 ''bob''
      ([(''users:bob'', NewEntry ''x'' 15)], 0) = ((''?'', None), m1, 0)"
proof -
  have facts: "map_of [(''users:bob'', NewEntry ''x'' 15)] (group_key (cc_group example_cache) (cc_string example_cache ''bob''))
      = Some (NewEntry ''x'' 15)" "me_ExpiresAt (NewEntry ''x'' 15) < 100" "cc_default example_cache = ''?''"
    by (simp_all add: example_cache_def NewCache_def group_key_def NewEntry_def)
  from proxy_expired_returns_default [OF facts(1,2), of "\<lambda>k w. (Inr ''fresh'', Suc w)" 100 0] facts(3)
  show ?thesis by auto
qed

text \<open>The memory provider races with itself: two goroutines that \<open>Get\<close> one expired entry can both be inside the
  deletion, which happens under the read lock.\<close>

lemma memory_get_races:
  assumes "map_of m key = Some e" "me_ExpiresAt e < now"
  shows "\<exists>pcs. mem_step\<^sup>*\<^sup>* (m, [Outside, Outside]) (m, pcs) \<and> map_race pcs"
proof -
  have "map_race [GetDeletes key, GetDeletes key]"
    unfolding map_race_def
    by (rule exI [of _ 0], simp, rule exI [of _ 1], simp add: changes_map_def uses_map_def)
  with get_races [OF assms] show ?thesis by blast
qed

lemma memory_get_races_witness:
  "\<exists>pcs. mem_step\<^sup>*\<^sup>* ([(''users:bob'', NewEntry ''x'' 15)], [Outside, Outside]) ([(''users:bob'', NewEntry ''x'' 15)], pcs)
     \<and> map_race pcs"
  by (rule memory_get_races [of _ "''users:bob''" "NewEntry ''x'' 15" 16]) (simp_all add: NewEntry_def)

end
