(* ===== verification/Protocols.thy ===== *)
theory Protocols
  imports Go_Text
begin

text \<open>
  Package \<^verbatim>\<open>net/protocol\<close>: framing of byte streams as raw chunks (\<^verbatim>\<open>binary.go\<close>) or lines (\<^verbatim>\<open>text.go\<close>), and the
  goroutine that reads the stream (\<^verbatim>\<open>common.go\<close>).

  A connection is the list of what its \<open>Read\<close> calls return. The context has a state \<open>'c\<close>: looking at it
  says whether it has ended, and waiting to send says whether the receiver or the end came first. A
  channel is the list of the values sent until it is closed; the two goroutines of a text reader
  are connected by one, and order is all that matters between them.
\<close>

section \<open>Reading chunks\<close>

record 'c net_ctx =
  nc_ended :: "'c \<Rightarrow> go_error option \<times> 'c"
  nc_send :: "'c \<Rightarrow> bool \<times> 'c"

abbreviation DefaultBufferSize :: nat where
  "DefaultBufferSize \<equiv> 32 * 1024"

text \<open>A call of \<open>Read\<close>: some bytes, at most as many as the buffer has, and perhaps an error.\<close>

type_synonym net_read = "byte list \<times> go_error option"

definition net_send :: "'c net_ctx \<Rightarrow> 'c \<Rightarrow> bool \<times> 'c" where
  "net_send nc c = (case nc_ended nc c of (Some e, c1) \<Rightarrow> (False, c1) | (None, c1) \<Rightarrow> nc_send nc c1)"

text \<open>The reading goroutine: the chunks it sends. When no more \<open>Read\<close> returns it hangs (\<open>False\<close>).\<close>

fun chunks_loop :: "'c net_ctx \<Rightarrow> nat \<Rightarrow> byte list list \<Rightarrow> net_read list \<Rightarrow> 'c \<Rightarrow> (byte list list \<times> bool) \<times> 'c" where
  "chunks_loop nc bufferSize sent [] c =
     (case nc_ended nc c of (Some e, c1) \<Rightarrow> ((sent, True), c1) | (None, c1) \<Rightarrow> ((sent, False), c1))"
| "chunks_loop nc bufferSize sent ((bytes, err) # reads) c =
     (case nc_ended nc c of
        (Some e, c1) \<Rightarrow> ((sent, True), c1)
      | (None, c1) \<Rightarrow>
          (let data = take bufferSize bytes
           in if data \<noteq> []
              then (case net_send nc c1 of
                      (False, c2) \<Rightarrow> ((sent, True), c2)
                    | (True, c2) \<Rightarrow>
                        if err \<noteq> None then ((sent @ [data], True), c2)
                        else chunks_loop nc bufferSize (sent @ [data]) reads c2)
              else if err \<noteq> None then ((sent, True), c1)
              else chunks_loop nc bufferSize sent reads c1))"

definition readChunks :: "'c net_ctx \<Rightarrow> nat \<Rightarrow> net_read list \<Rightarrow> 'c \<Rightarrow> (go_error + byte list list \<times> bool) \<times> 'c" where
  "readChunks nc bufferSize reads c =
     (if bufferSize = 0 then (Inl (Wrap (show_nat bufferSize) [Atom ErrInvalidBufferSize]), c)
      else (case nc_ended nc c of
              (Some e, c1) \<Rightarrow> (Inr ([], True), c1)
            | (None, c1) \<Rightarrow> (case chunks_loop nc bufferSize [] reads c1 of (r, c2) \<Rightarrow> (Inr r, c2))))"

section \<open>Binary frames\<close>

text \<open>Marshalling checks the context first and again before every entry.\<close>

fun marshal_loop :: "'c net_ctx \<Rightarrow> (byte list \<Rightarrow> byte list) \<Rightarrow> byte list \<Rightarrow> byte list list \<Rightarrow> 'c \<Rightarrow> (go_error + byte list) \<times> 'c" where
  "marshal_loop nc frame result [] c = (Inr result, c)"
| "marshal_loop nc frame result (entry # rest) c =
     (case nc_ended nc c of
        (Some e, c1) \<Rightarrow> (Inl e, c1)
      | (None, c1) \<Rightarrow> marshal_loop nc frame (result @ frame entry) rest c1)"

definition marshal_entries :: "'c net_ctx \<Rightarrow> (byte list \<Rightarrow> byte list) \<Rightarrow> byte list list \<Rightarrow> 'c \<Rightarrow> (go_error + byte list) \<times> 'c" where
  "marshal_entries nc frame entries c =
     (case nc_ended nc c of
        (Some e, c1) \<Rightarrow> (Inl e, c1)
      | (None, c1) \<Rightarrow> marshal_loop nc frame [] entries c1)"

definition binary_Marshal :: "'c net_ctx \<Rightarrow> byte list list \<Rightarrow> 'c \<Rightarrow> (go_error + byte list) \<times> 'c" where
  "binary_Marshal nc = marshal_entries nc (\<lambda>entry. entry)"

definition binary_Read :: "'c net_ctx \<Rightarrow> net_read list \<Rightarrow> 'c \<Rightarrow> (go_error + byte list list \<times> bool) \<times> 'c" where
  "binary_Read nc = readChunks nc DefaultBufferSize"

section \<open>Lines\<close>

abbreviation newline :: char where "newline \<equiv> CHR 0x0A"
abbreviation carriage_return :: char where "carriage_return \<equiv> CHR 0x0D"

definition text_frame :: "byte list \<Rightarrow> byte list" where
  "text_frame entry = (if entry \<noteq> [] \<and> last entry = newline then entry else entry @ [newline])"

definition text_Marshal :: "'c net_ctx \<Rightarrow> string list \<Rightarrow> 'c \<Rightarrow> (go_error + byte list) \<times> 'c" where
  "text_Marshal nc = marshal_entries nc text_frame"

definition trimCarriageReturn :: "byte list \<Rightarrow> byte list" where
  "trimCarriageReturn d = (if d \<noteq> [] \<and> last d = carriage_return then butlast d else d)"

text \<open>
  The inner loop sends the complete lines of \<open>pending\<close>; it returns what is left, or nothing when the receiver
  is gone. Each round removes a newline.
\<close>

function lines_loop :: "'c net_ctx \<Rightarrow> string list \<Rightarrow> byte list \<Rightarrow> 'c \<Rightarrow> (string list \<times> byte list option) \<times> 'c" where
  "lines_loop nc sent pending c =
     (if newline \<in> set pending
      then (case net_send nc c of
              (False, c1) \<Rightarrow> ((sent, None), c1)
            | (True, c1) \<Rightarrow>
                lines_loop nc (sent @ [trimCarriageReturn (takeWhile (\<lambda>b. b \<noteq> newline) pending)])
                  (tl (dropWhile (\<lambda>b. b \<noteq> newline) pending)) c1)
      else ((sent, Some pending), c))"
  by pat_completeness auto
termination
proof (relation "measure (\<lambda>(nc, sent, pending, c). length pending)")
  fix nc :: "'c net_ctx" and sent pending c
  assume "newline \<in> set pending"
  then have "dropWhile (\<lambda>b. b \<noteq> newline) pending \<noteq> []" by auto
  then have "length (tl (dropWhile (\<lambda>b. b \<noteq> newline) pending)) < length pending"
    using length_dropWhile_le [of "\<lambda>b. b \<noteq> newline" pending] by (cases "dropWhile (\<lambda>b. b \<noteq> newline) pending") auto
  then show "\<And>c1. ((nc, sent @ [trimCarriageReturn (takeWhile (\<lambda>b. b \<noteq> newline) pending)],
      tl (dropWhile (\<lambda>b. b \<noteq> newline) pending), c1), (nc, sent, pending, c))
      \<in> measure (\<lambda>(nc, sent, pending, c). length pending)" by simp
qed simp

declare lines_loop.simps [simp del]

text \<open>The goroutine of the text reader over the chunks it receives, and whether their channel is closed.\<close>

fun text_loop :: "'c net_ctx \<Rightarrow> string list \<Rightarrow> byte list \<Rightarrow> byte list list \<times> bool \<Rightarrow> 'c \<Rightarrow> (string list \<times> bool) \<times> 'c" where
  "text_loop nc sent pending ([], closed) c =
     (if \<not> closed then ((sent, False), c)
      else if pending = [] then ((sent, True), c)
      else (case net_send nc c of
              (True, c1) \<Rightarrow> ((sent @ [trimCarriageReturn pending], True), c1)
            | (False, c1) \<Rightarrow> ((sent, True), c1)))"
| "text_loop nc sent pending (chunk # chunks, closed) c =
     (case lines_loop nc sent (pending @ chunk) c of
        ((sent1, None), c1) \<Rightarrow> ((sent1, True), c1)
      | ((sent1, Some pending1), c1) \<Rightarrow> text_loop nc sent1 pending1 (chunks, closed) c1)"

definition text_Read :: "'c net_ctx \<Rightarrow> net_read list \<Rightarrow> 'c \<Rightarrow> (go_error + string list \<times> bool) \<times> 'c" where
  "text_Read nc reads c =
     (case readChunks nc DefaultBufferSize reads c of
        (Inl e, c1) \<Rightarrow> (Inl e, c1)
      | (Inr chunks, c1) \<Rightarrow>
          (case nc_ended nc c1 of
             (Some e, c2) \<Rightarrow> (Inr ([], True), c2)
           | (None, c2) \<Rightarrow> (case text_loop nc [] [] chunks c2 of (r, c3) \<Rightarrow> (Inr r, c3))))"

section \<open>Reading in a context that does not end\<close>

definition lasting :: "'c net_ctx \<Rightarrow> bool" where
  "lasting nc \<longleftrightarrow> (\<forall>c. fst (nc_ended nc c) = None \<and> fst (nc_send nc c))"

lemma lasting_ended:
  assumes "lasting nc"
  obtains c1 where "nc_ended nc c = (None, c1)"
  using assms unfolding lasting_def by (metis prod.collapse)

lemma lasting_send:
  assumes "lasting nc"
  obtains c1 where "net_send nc c = (True, c1)"
proof -
  obtain c1 where "nc_ended nc c = (None, c1)" using assms by (rule lasting_ended)
  moreover obtain c2 where "nc_send nc c1 = (True, c2)" using assms unfolding lasting_def by (metis prod.collapse)
  ultimately show thesis using that by (simp add: net_send_def)
qed

text \<open>The reference: split at newlines; what follows the last one is a line unless it is empty.\<close>

definition ref_lines :: "byte list \<Rightarrow> string list" where
  "ref_lines bs =
     (let parts = split_on newline bs
      in map trimCarriageReturn (butlast parts) @ (if last parts = [] then [] else [trimCarriageReturn (last parts)]))"

lemma lines_loop_lasting:
  assumes "lasting nc"
  shows "fst (lines_loop nc sent pending c) =
    (sent @ map trimCarriageReturn (butlast (split_on newline pending)), Some (last (split_on newline pending)))"
proof (induction pending arbitrary: sent c rule: length_induct)
  case (1 pending)
  show ?case
  proof (cases "newline \<in> set pending")
    case True
    let ?line = "takeWhile (\<lambda>b. b \<noteq> newline) pending" and ?rest = "tl (dropWhile (\<lambda>b. b \<noteq> newline) pending)"
    obtain c1 where snd_c: "net_send nc c = (True, c1)" using assms by (rule lasting_send)
    have "dropWhile (\<lambda>b. b \<noteq> newline) pending \<noteq> []" using True by auto
    then have "length ?rest < length pending"
      using length_dropWhile_le [of "\<lambda>b. b \<noteq> newline" pending] by (cases "dropWhile (\<lambda>b. b \<noteq> newline) pending") auto
    with 1 have "fst (lines_loop nc (sent @ [trimCarriageReturn ?line]) ?rest c1) =
      (sent @ [trimCarriageReturn ?line] @ map trimCarriageReturn (butlast (split_on newline ?rest)),
       Some (last (split_on newline ?rest)))" by simp
    with True snd_c split_on_first [OF True] show ?thesis
      by (subst lines_loop.simps) simp
  next
    case False
    then show ?thesis by (subst lines_loop.simps) simp
  qed
qed

lemma text_loop_lasting:
  assumes "lasting nc" "newline \<notin> set pending"
  shows "fst (text_loop nc sent pending (chunks, True) c) = (sent @ ref_lines (pending @ concat chunks), True)"
  using assms(2)
proof (induction chunks arbitrary: sent pending c)
  case Nil
  obtain c1 where "net_send nc c = (True, c1)" using assms(1) by (rule lasting_send)
  with Nil show ?case by (simp add: ref_lines_def)
next
  case (Cons chunk chunks)
  let ?parts = "split_on newline (pending @ chunk)"
  obtain l c1 where l: "lines_loop nc sent (pending @ chunk) c = (l, c1)" by fastforce
  with lines_loop_lasting [OF assms(1), of sent "pending @ chunk" c]
  have "l = (sent @ map trimCarriageReturn (butlast ?parts), Some (last ?parts))" by simp
  with l Cons.IH [OF last_split_no, of "sent @ map trimCarriageReturn (butlast ?parts)" "pending @ chunk" c1]
  have "fst (text_loop nc sent pending (chunk # chunks, True) c)
      = (sent @ map trimCarriageReturn (butlast ?parts) @ ref_lines (last ?parts @ concat chunks), True)" by simp
  moreover have "ref_lines (pending @ chunk @ concat chunks)
      = map trimCarriageReturn (butlast ?parts) @ ref_lines (last ?parts @ concat chunks)"
    using split_on_append_text [of newline "pending @ chunk" "concat chunks"]
    by (simp add: ref_lines_def Let_def butlast_append)
  ultimately show ?case by simp
qed

lemma chunks_loop_lasting:
  assumes "lasting nc" "\<forall>d \<in> set ds. length d \<le> n"
  shows "fst (chunks_loop nc n sent (map (\<lambda>d. (d, None)) ds @ [([], Some e)]) c) = (sent @ filter (\<lambda>d. d \<noteq> []) ds, True)"
  using assms(2)
proof (induction ds arbitrary: sent c)
  case Nil
  obtain c1 where "nc_ended nc c = (None, c1)" using assms(1) by (rule lasting_ended)
  then show ?case by simp
next
  case (Cons d ds)
  obtain c1 where c1: "nc_ended nc c = (None, c1)" using assms(1) by (rule lasting_ended)
  obtain c2 where "net_send nc c1 = (True, c2)" using assms(1) by (rule lasting_send)
  with c1 Cons show ?case by simp
qed

lemma text_Read_lasting:
  assumes "lasting nc" "\<forall>d \<in> set ds. length d \<le> DefaultBufferSize"
  shows "fst (text_Read nc (map (\<lambda>d. (d, None)) ds @ [([], Some e)]) c) = Inr (ref_lines (concat ds), True)"
proof -
  obtain c1 where c1: "nc_ended nc c = (None, c1)" using assms(1) by (rule lasting_ended)
  obtain r c2 where r: "chunks_loop nc DefaultBufferSize [] (map (\<lambda>d. (d, None)) ds @ [([], Some e)]) c1 = (r, c2)" by fastforce
  with chunks_loop_lasting [OF assms, of "[]" e c1] have "r = (filter (\<lambda>d. d \<noteq> []) ds, True)" by simp
  moreover obtain c3 where "nc_ended nc c2 = (None, c3)" using assms(1) by (rule lasting_ended)
  moreover have "concat (filter (\<lambda>d. d \<noteq> []) ds) = concat ds" by (induction ds) auto
  moreover obtain t c4 where "text_loop nc [] [] (filter (\<lambda>d. d \<noteq> []) ds, True) c3 = (t, c4)" by fastforce
  ultimately show ?thesis
    using c1 r text_loop_lasting [OF assms(1), of "[]" "[]" "filter (\<lambda>d. d \<noteq> []) ds" c3]
    by (simp add: text_Read_def readChunks_def)
qed

text \<open>Marshalled lines.\<close>

lemma marshal_lasting:
  assumes "lasting nc"
  shows "fst (marshal_entries nc frame es c) = Inr (concat (map frame es))"
proof -
  have loop: "fst (marshal_loop nc frame r es c) = Inr (r @ concat (map frame es))" for r c
  proof (induction es arbitrary: r c)
    case (Cons e es)
    obtain c1 where "nc_ended nc c = (None, c1)" using assms by (rule lasting_ended)
    with Cons show ?case by simp
  qed simp
  obtain c1 where "nc_ended nc c = (None, c1)" using assms by (rule lasting_ended)
  with loop show ?thesis by (simp add: marshal_entries_def)
qed

definition plain_line :: "string \<Rightarrow> bool" where
  "plain_line e \<longleftrightarrow> newline \<notin> set e \<and> (e = [] \<or> last e \<noteq> carriage_return)"

lemma ref_lines_frame: "plain_line e \<Longrightarrow> ref_lines (text_frame e @ rest) = e # ref_lines rest"
proof -
  assume e: "plain_line e"
  then have "text_frame e = e @ [newline]" unfolding plain_line_def text_frame_def by (metis last_in_set)
  moreover have "split_on newline (e @ newline # rest) = e # split_on newline rest"
    using e split_on_first [of newline "e @ newline # rest"]
    by (simp add: plain_line_def takeWhile_append2 dropWhile_append2 takeWhile_append)
  moreover have "trimCarriageReturn e = e" using e by (auto simp: plain_line_def trimCarriageReturn_def)
  ultimately show ?thesis by (simp add: ref_lines_def Let_def)
qed

lemma ref_lines_frames: "\<forall>e \<in> set es. plain_line e \<Longrightarrow> ref_lines (concat (map text_frame es)) = es"
  by (induction es) (simp_all add: ref_lines_frame, simp add: ref_lines_def)

section \<open>Properties\<close>

text \<open>C20: lines survive the wire. What \<open>Marshal\<close> makes of lines without a newline and without a carriage return
  at the end, cut into reads in any way, \<open>Read\<close> gives back as the same lines, and closes its channel,
  in a context that does not end.\<close>

theorem text_lines_roundtrip:
  assumes "lasting nc" "lasting nc'" "\<forall>e \<in> set es. plain_line e"
    and "\<forall>d \<in> set ds. length d \<le> DefaultBufferSize" "fst (text_Marshal nc es c) = Inr (concat ds)"
  shows "fst (text_Read nc' (map (\<lambda>d. (d, None)) ds @ [([], Some err)]) c') = Inr (es, True)"
proof -
  have "concat ds = concat (map text_frame es)"
    using marshal_lasting [OF assms(1), of text_frame es c] assms(5) by (simp add: text_Marshal_def)
  with text_Read_lasting [OF assms(2,4), of err c'] ref_lines_frames [OF assms(3)] show ?thesis by simp
qed

definition quiet_ctx :: "unit net_ctx" where
  "quiet_ctx = \<lparr>nc_ended = (\<lambda>c. (None, c)), nc_send = (\<lambda>c. (True, c))\<rparr>"

lemma text_lines_roundtrip_witness:
  "fst (text_Read quiet_ctx (map (\<lambda>d. (d, None)) [''a'', [], ''b'' @ [newline, newline] @ ''c'', [newline]] @ [([], Some (Atom EOF))]) ())
     = Inr ([''ab'', [], ''c''], True)"
  by (rule text_lines_roundtrip [of quiet_ctx _ _ _ "()"])
    (simp_all add: lasting_def quiet_ctx_def plain_line_def text_Marshal_def marshal_entries_def text_frame_def)

end
