(* ===== verification/Breakers.thy ===== *)
theory Breakers
  imports Retries
begin

text \<open>
  Package \<^verbatim>\<open>circuit_breaker\<close>: the configuration (\<^verbatim>\<open>yaml_config.go\<close>), the breaker that passes every call
  through (\<^verbatim>\<open>passthrough_impl.go\<close>), the one over the third-party \<^verbatim>\<open>gobreaker\<close> with the settings that the
  package gives it (\<^verbatim>\<open>gobreaker_impl.go\<close>), and the helpers through which clients use a breaker that may
  be nil (\<^verbatim>\<open>circuit_breaker.go\<close>).

  A breaker has a state \<open>'b\<close> of its own beside the state \<open>'w\<close> of the calls it guards. What is known of
  \<^verbatim>\<open>gobreaker\<close> is its documented frame: a call is rejected with an error, or it is run and its outcome is
  reported as a success or a failure. When it rejects is the parameter \<open>gb_allow\<close>, which may look at the
  clock in \<open>'w\<close>; what a report does is the parameter \<open>gb_done\<close>. Log lines are left out.
\<close>

section \<open>Configuration and settings\<close>

record breaker_config =
  bc_EnabledValue :: bool
  bc_NameValue :: string
  bc_MaxRequestsValue :: "32 word"
  bc_IntervalValue :: int
  bc_TimeoutValue :: int
  bc_ConsecutiveFailuresValue :: "32 word"
  bc_BucketPeriodValue :: int

definition DefaultConsecutiveFailures :: "32 word" where
  "DefaultConsecutiveFailures = 5"

record breaker_settings =
  bs_Name :: string
  bs_MaxRequests :: "32 word"
  bs_Interval :: int
  bs_Timeout :: int
  bs_BucketPeriod :: int
  bs_ReadyToTrip :: "32 word \<Rightarrow> bool"
  bs_IsSuccessful :: "go_error option \<Rightarrow> bool"

definition newSettings :: "breaker_config \<Rightarrow> (go_error \<Rightarrow> bool) option \<Rightarrow> breaker_settings" where
  "newSettings config shouldIgnoreError =
     \<lparr>bs_Name = bc_NameValue config, bs_MaxRequests = bc_MaxRequestsValue config,
      bs_Interval = bc_IntervalValue config, bs_Timeout = bc_TimeoutValue config,
      bs_BucketPeriod = bc_BucketPeriodValue config,
      bs_ReadyToTrip = (\<lambda>failures.
        let threshold = (if bc_ConsecutiveFailuresValue config = 0 then DefaultConsecutiveFailures
                         else bc_ConsecutiveFailuresValue config)
        in threshold \<le> failures),
      bs_IsSuccessful = (\<lambda>err. case err of
          None \<Rightarrow> True
        | Some e \<Rightarrow> (case shouldIgnoreError of Some ignore \<Rightarrow> ignore e | None \<Rightarrow> False))\<rparr>"

section \<open>Breakers\<close>

record ('b, 'w) gobreaker =
  gb_allow :: "'b \<Rightarrow> 'w \<Rightarrow> go_error option \<times> 'b"
  gb_done :: "bool \<Rightarrow> 'b \<Rightarrow> 'w \<Rightarrow> 'b"

datatype ('b, 'w) circuit_breaker =
    Passthrough
  | Gobreaker breaker_settings "('b, 'w) gobreaker"

text \<open>\<open>mk\<close> is \<open>gobreaker.NewCircuitBreaker\<close>.\<close>

definition NewBreaker ::
  "(breaker_settings \<Rightarrow> ('b, 'w) gobreaker) \<Rightarrow> breaker_config \<Rightarrow> (go_error \<Rightarrow> bool) option \<Rightarrow> ('b, 'w) circuit_breaker" where
  "NewBreaker mk config shouldIgnoreError =
     (if \<not> bc_EnabledValue config then Passthrough
      else Gobreaker (newSettings config shouldIgnoreError) (mk (newSettings config shouldIgnoreError)))"

text \<open>\<open>Execute\<close> of \<^verbatim>\<open>gobreaker\<close>; a rejected call has no result.\<close>

definition guarded ::
  "breaker_settings \<Rightarrow> ('b, 'w) gobreaker \<Rightarrow> ('w \<Rightarrow> ('v \<times> go_error option) \<times> 'w) \<Rightarrow> 'b \<times> 'w
   \<Rightarrow> ('v option \<times> go_error option) \<times> 'b \<times> 'w" where
  "guarded st gb fn = (\<lambda>(b, w).
     case gb_allow gb b w of
       (Some e, b1) \<Rightarrow> ((None, Some e), b1, w)
     | (None, b1) \<Rightarrow>
         (case fn w of ((v, err), w1) \<Rightarrow> ((Some v, err), gb_done gb (bs_IsSuccessful st err) b1 w1, w1)))"

fun breaker_Execute ::
  "('b, 'w) circuit_breaker \<Rightarrow> ('w \<Rightarrow> go_error option \<times> 'w) \<Rightarrow> 'b \<times> 'w \<Rightarrow> go_error option \<times> 'b \<times> 'w" where
  "breaker_Execute Passthrough fn (b, w) = (case fn w of (err, w1) \<Rightarrow> (err, b, w1))"
| "breaker_Execute (Gobreaker st gb) fn (b, w) =
     (case guarded st gb (\<lambda>w. case fn w of (err, w1) \<Rightarrow> (((), err), w1)) (b, w) of
        ((_, err), s) \<Rightarrow> (err, s))"

fun breaker_ExecuteWithResult ::
  "('b, 'w) circuit_breaker \<Rightarrow> ('w \<Rightarrow> ('v \<times> go_error option) \<times> 'w) \<Rightarrow> 'b \<times> 'w
   \<Rightarrow> ('v option \<times> go_error option) \<times> 'b \<times> 'w" where
  "breaker_ExecuteWithResult Passthrough fn (b, w) = (case fn w of ((v, err), w1) \<Rightarrow> ((Some v, err), b, w1))"
| "breaker_ExecuteWithResult (Gobreaker st gb) fn (b, w) = guarded st gb fn (b, w)"

text \<open>The helpers; a nil breaker is \<open>None\<close>.\<close>

definition cb_Execute ::
  "('b, 'w) circuit_breaker option \<Rightarrow> ('w \<Rightarrow> go_error option \<times> 'w) \<Rightarrow> 'b \<times> 'w \<Rightarrow> go_error option \<times> 'b \<times> 'w" where
  "cb_Execute cb fn s =
     (case cb of
        Some breaker \<Rightarrow> breaker_Execute breaker fn s
      | None \<Rightarrow> (case s of (b, w) \<Rightarrow> case fn w of (err, w1) \<Rightarrow> (err, b, w1)))"

text \<open>
  A result travels as a value of type \<open>any\<close>, here \<open>'a\<close>: \<open>boxed\<close> is the conversion of a \<open>T\<close>, \<open>assert\<close> the type
  assertion back to \<open>T\<close>, which fails on the nil interface that a \<open>T\<close> of interface type may be.
\<close>

definition cb_ExecuteWithResult ::
  "('v \<Rightarrow> 'a) \<Rightarrow> ('a \<Rightarrow> 'v option) \<Rightarrow> ('b, 'w) circuit_breaker option \<Rightarrow> ('w \<Rightarrow> ('v \<times> go_error option) \<times> 'w) \<Rightarrow> 'v
   \<Rightarrow> 'b \<times> 'w \<Rightarrow> ('v \<times> go_error option) \<times> 'b \<times> 'w" where
  "cb_ExecuteWithResult boxed assert cb fn fallbackValue s =
     (case cb of
        Some breaker \<Rightarrow>
          (case breaker_ExecuteWithResult breaker (\<lambda>w. case fn w of ((v, err), w1) \<Rightarrow> ((boxed v, err), w1)) s of
             ((result, Some e), s1) \<Rightarrow> ((fallbackValue, Some e), s1)
           | ((result, None), s1) \<Rightarrow>
               (case Option.bind result assert of
                  Some v \<Rightarrow> ((v, None), s1)
                | None \<Rightarrow> ((fallbackValue, Some (Wrap [] [Atom (InBreaker ErrBreakerUnexpectedType)])), s1)))
      | None \<Rightarrow> (case s of (b, w) \<Rightarrow> case fn w of (r, w1) \<Rightarrow> (r, b, w1)))"

section \<open>What clients rely on\<close>

text \<open>A breaker rejects a call with an error and leaves the world alone, or runs it once and returns its error.\<close>

locale call_guard =
  fixes exec :: "('w \<Rightarrow> go_error option \<times> 'w) \<Rightarrow> 'b \<times> 'w \<Rightarrow> go_error option \<times> 'b \<times> 'w"
  assumes exec_law: "exec fn (b, w) = (e, b', w') \<Longrightarrow> (e \<noteq> None \<and> w' = w) \<or> fn w = (e, w')"
begin

lemma exec_keeps:
  assumes "exec fn (b, w) = (e, b', w')" "P w" "\<And>e w'. fn w = (e, w') \<Longrightarrow> P w'"
  shows "P w'"
  using exec_law [OF assms(1)] assms(2,3) by auto

lemma exec_success:
  assumes "exec fn (b, w) = (None, b', w')"
  shows "fn w = (None, w')"
  using exec_law [OF assms] by auto

end

lemma breaker_Execute_law:
  "breaker_Execute c fn (b, w) = (e, b', w') \<Longrightarrow> (e \<noteq> None \<and> w' = w) \<or> fn w = (e, w')"
  by (cases c) (auto simp: guarded_def split: result_splits)

interpretation guarded_call: call_guard "cb_Execute cb" for cb
  by unfold_locales (auto simp: cb_Execute_def dest!: breaker_Execute_law split: result_splits)

text \<open>Failures count against the breaker unless the package that made it says that they are to be ignored.\<close>

lemma breaker_reports:
  assumes "gb_allow gb b w = (None, b1)" "fn w = (err, w1)"
  shows "breaker_Execute (Gobreaker st gb) fn (b, w) = (err, gb_done gb (bs_IsSuccessful st err) b1 w1, w1)"
  using assms by (simp add: guarded_def)

end
