(* ===== verification/Http_Config.thy ===== *)
theory Http_Config
  imports Go_Files Retries Breakers
begin

text \<open>
  Package \<^verbatim>\<open>http_client\<close>, first part: configuration (\<^verbatim>\<open>config.go\<close>), TLS and the constructor
  (\<^verbatim>\<open>http_client.go\<close>), and the filter that tells the circuit breaker which errors to ignore
  (\<^verbatim>\<open>errors_filter.go\<close>). Reading files and parsing certificates are parameters (\<open>tls_env\<close>); a
  certificate file that has been read stands for the pool made of it. A Go map is an association list
  with distinct keys whose order is the order of a \<open>range\<close> over it.
\<close>

section \<open>Configuration\<close>

type_synonym headers = "(string \<times> string list) list"

record http_config =
  hc_BaseUrlValue :: string
  hc_InsecureSkipVerifyValue :: bool
  hc_TimeoutValue :: int
  hc_BaseHeadersValue :: headers
  hc_UseRequestIdValue :: bool
  hc_NameValue :: string
  hc_MaxConnsPerHostValue :: int
  hc_MaxIdleConnDurationValue :: int
  hc_ReadTimeoutValue :: "int option"
  hc_WriteTimeoutValue :: "int option"
  hc_MaxConnWaitTimeoutValue :: int
  hc_RetryPolicyValue :: "policy option"
  hc_ReadBufferSizeValue :: int
  hc_WriteBufferSizeValue :: int
  hc_MaxResponseBodySizeValue :: int
  hc_MaxConnDurationValue :: int
  hc_StreamResponseBodyValue :: bool
  hc_FollowRedirectsValue :: bool
  hc_TLSMinVersionValue :: "16 word"
  hc_TLSMaxVersionValue :: "16 word"
  hc_TLSServerNameValue :: string
  hc_TLSRootCAFileValue :: string
  hc_TLSClientCertFileValue :: string
  hc_TLSClientKeyFileValue :: string
  hc_CircuitBreakerValue :: "breaker_config option"

definition hc_Name :: "http_config \<Rightarrow> string" where
  "hc_Name c = (if hc_NameValue c = [] then ''http_client'' else hc_NameValue c)"

definition hc_MaxConnsPerHost :: "http_config \<Rightarrow> int" where
  "hc_MaxConnsPerHost c = (if hc_MaxConnsPerHostValue c = 0 then 512 else hc_MaxConnsPerHostValue c)"

definition hc_MaxIdleConnDuration :: "http_config \<Rightarrow> int" where
  "hc_MaxIdleConnDuration c = (if hc_MaxIdleConnDurationValue c = 0 then 90 * second else hc_MaxIdleConnDurationValue c)"

definition hc_ReadTimeout :: "http_config \<Rightarrow> int" where
  "hc_ReadTimeout c = (case hc_ReadTimeoutValue c of None \<Rightarrow> 0 | Some d \<Rightarrow> d)"

definition hc_WriteTimeout :: "http_config \<Rightarrow> int" where
  "hc_WriteTimeout c = (case hc_WriteTimeoutValue c of None \<Rightarrow> 0 | Some d \<Rightarrow> d)"

definition hc_ReadBufferSize :: "http_config \<Rightarrow> int" where
  "hc_ReadBufferSize c = (if hc_ReadBufferSizeValue c = 0 then 4096 else hc_ReadBufferSizeValue c)"

definition hc_WriteBufferSize :: "http_config \<Rightarrow> int" where
  "hc_WriteBufferSize c = (if hc_WriteBufferSizeValue c = 0 then 4096 else hc_WriteBufferSizeValue c)"

definition hc_MaxConnDuration :: "http_config \<Rightarrow> int" where
  "hc_MaxConnDuration c = (if hc_MaxConnDurationValue c = 0 then 0 else hc_MaxConnDurationValue c)"

section \<open>TLS and the transport's settings\<close>

record 'cert tls_config =
  tc_InsecureSkipVerify :: bool
  tc_MinVersion :: "16 word"
  tc_MaxVersion :: "16 word"
  tc_ServerName :: string
  tc_RootCAs :: "byte list option"
  tc_Certificates :: "'cert list"

text \<open>Reading files and parsing certificates.\<close>

record 'cert tls_env =
  te_ReadFile :: "string \<Rightarrow> go_error + byte list"
  te_IsPEM :: "byte list \<Rightarrow> bool"
  te_LoadX509KeyPair :: "string \<Rightarrow> string \<Rightarrow> go_error + 'cert"

abbreviation tls_failed :: "string \<Rightarrow> go_error list \<Rightarrow> go_error" where
  "tls_failed msg es \<equiv> Wrap (''failed to configure tls: '' @ msg) (Atom (InHttpClient ErrTLSConfig) # es)"

definition hasTLSConfig :: "http_config \<Rightarrow> bool" where
  "hasTLSConfig c \<longleftrightarrow>
     hc_InsecureSkipVerifyValue c \<or> hc_TLSMinVersionValue c \<noteq> 0 \<or> hc_TLSMaxVersionValue c \<noteq> 0
     \<or> hc_TLSServerNameValue c \<noteq> [] \<or> hc_TLSRootCAFileValue c \<noteq> []
     \<or> hc_TLSClientCertFileValue c \<noteq> [] \<or> hc_TLSClientKeyFileValue c \<noteq> []"

definition loadRootCA :: "'cert tls_env \<Rightarrow> http_config \<Rightarrow> 'cert tls_config \<Rightarrow> go_error + 'cert tls_config" where
  "loadRootCA te c t =
     (if hc_TLSRootCAFileValue c = [] then Inr t
      else (case te_ReadFile te (hc_TLSRootCAFileValue c) of
              Inl e \<Rightarrow> Inl (tls_failed ''failed to read root ca file'' [e])
            | Inr caCert \<Rightarrow>
                if \<not> te_IsPEM te caCert then Inl (tls_failed ''failed to parse root ca certificate'' [])
                else Inr (t\<lparr>tc_RootCAs := Some caCert\<rparr>)))"

definition loadClientCertificate :: "'cert tls_env \<Rightarrow> http_config \<Rightarrow> 'cert tls_config \<Rightarrow> go_error + 'cert tls_config" where
  "loadClientCertificate te c t =
     (if hc_TLSClientCertFileValue c = [] \<or> hc_TLSClientKeyFileValue c = [] then Inr t
      else (case te_LoadX509KeyPair te (hc_TLSClientCertFileValue c) (hc_TLSClientKeyFileValue c) of
              Inl e \<Rightarrow> Inl (tls_failed ''failed to load client certificate'' [e])
            | Inr cert \<Rightarrow> Inr (t\<lparr>tc_Certificates := [cert]\<rparr>)))"

definition configureTLS :: "'cert tls_env \<Rightarrow> http_config \<Rightarrow> go_error + 'cert tls_config option" where
  "configureTLS te c =
     (if \<not> hasTLSConfig c then Inr None
      else (case loadRootCA te c
                   \<lparr>tc_InsecureSkipVerify = hc_InsecureSkipVerifyValue c, tc_MinVersion = hc_TLSMinVersionValue c,
                    tc_MaxVersion = hc_TLSMaxVersionValue c, tc_ServerName = hc_TLSServerNameValue c,
                    tc_RootCAs = None, tc_Certificates = []\<rparr> of
              Inl e \<Rightarrow> Inl e
            | Inr t \<Rightarrow> (case loadClientCertificate te c t of Inl e \<Rightarrow> Inl e | Inr t' \<Rightarrow> Inr (Some t'))))"

record 'cert fasthttp_client =
  fc_Name :: string
  fc_MaxConnsPerHost :: int
  fc_MaxIdleConnDuration :: int
  fc_MaxConnWaitTimeout :: int
  fc_MaxConnDuration :: int
  fc_ReadBufferSize :: int
  fc_WriteBufferSize :: int
  fc_MaxResponseBodySize :: int
  fc_StreamResponseBody :: bool
  fc_ReadTimeout :: int
  fc_WriteTimeout :: int
  fc_TLSConfig :: "'cert tls_config option"

record ('cert, 'b, 'w) http_client =
  cl_config :: http_config
  cl_client :: "'cert fasthttp_client"
  cl_circuitBreaker :: "('b, 'w) circuit_breaker option"

section \<open>The circuit breaker's error filter\<close>

text \<open>
  The text of an error: errors made in this package carry it whole, \<open>text\<close> is that of the others.
\<close>

definition error_text :: "(sentinel \<Rightarrow> string) \<Rightarrow> go_error \<Rightarrow> string" where
  "error_text text e = (case e of Atom a \<Rightarrow> text a | Wrap m es \<Rightarrow> m)"

fun strings_Contains :: "string \<Rightarrow> string \<Rightarrow> bool" where
  "strings_Contains s p = (has_prefix s p \<or> (case s of [] \<Rightarrow> False | c # cs \<Rightarrow> strings_Contains cs p))"

declare strings_Contains.simps [simp del]

definition non200 :: "int \<Rightarrow> string" where
  "non200 statusCode = ''non-200 http status code: '' @ show_int statusCode"

text \<open>The remaining cases of the Go function, network errors and texts of failed connections, all return false.\<close>

definition ShouldIgnoreErrorForCircuitBreaker :: "(sentinel \<Rightarrow> string) \<Rightarrow> go_error option \<Rightarrow> bool" where
  "ShouldIgnoreErrorForCircuitBreaker text err =
     (case err of
        None \<Rightarrow> False
      | Some e \<Rightarrow>
          if err_is e ContextCanceled then True
          else if err_is e (InHttpClient ErrNotFound) \<or> err_is e (InHttpClient ErrBadRequest) then True
          else (let errMsg = error_text text e
                in if list_ex (\<lambda>code. strings_Contains errMsg (non200 code)) [400..499] then True
                   else False))"

text \<open>\<open>None\<close> for the filter selects the one above.\<close>

definition NewHttpCircuitBreaker ::
  "(sentinel \<Rightarrow> string) \<Rightarrow> (breaker_settings \<Rightarrow> ('b, 'w) gobreaker) \<Rightarrow> breaker_config \<Rightarrow> (go_error \<Rightarrow> bool) option
   \<Rightarrow> ('b, 'w) circuit_breaker" where
  "NewHttpCircuitBreaker text mk config shouldIgnoreError =
     NewBreaker mk config
       (Some (case shouldIgnoreError of
                None \<Rightarrow> (\<lambda>e. ShouldIgnoreErrorForCircuitBreaker text (Some e)) | Some f \<Rightarrow> f))"

section \<open>The constructor\<close>

record ('b, 'w) client_config =
  cf_CircuitBreaker :: "('b, 'w) circuit_breaker option"

definition WithCircuitBreaker :: "('b, 'w) circuit_breaker option \<Rightarrow> ('b, 'w) client_config \<Rightarrow> ('b, 'w) client_config" where
  "WithCircuitBreaker cb cfg = cfg\<lparr>cf_CircuitBreaker := cb\<rparr>"

text \<open>A nil option is \<open>None\<close> and is skipped.\<close>

definition apply_each :: "('c \<Rightarrow> 'c) option list \<Rightarrow> 'c \<Rightarrow> 'c" where
  "apply_each opts cfg = fold (\<lambda>opt c. case opt of Some f \<Rightarrow> f c | None \<Rightarrow> c) opts cfg"

definition applyClientOptions :: "(('b, 'w) client_config \<Rightarrow> ('b, 'w) client_config) option list \<Rightarrow> ('b, 'w) client_config" where
  "applyClientOptions opts = apply_each opts \<lparr>cf_CircuitBreaker = None\<rparr>"

definition NewClientImpl ::
  "(sentinel \<Rightarrow> string) \<Rightarrow> (breaker_settings \<Rightarrow> ('b, 'w) gobreaker) \<Rightarrow> 'cert tls_env \<Rightarrow> http_config
   \<Rightarrow> (('b, 'w) client_config \<Rightarrow> ('b, 'w) client_config) option list \<Rightarrow> go_error + ('cert, 'b, 'w) http_client" where
  "NewClientImpl text mk te config opts =
     (let circuitBreaker =
            (case cf_CircuitBreaker (applyClientOptions opts) of
               Some cb \<Rightarrow> Some cb
             | None \<Rightarrow> map_option (\<lambda>bc. NewHttpCircuitBreaker text mk bc None) (hc_CircuitBreakerValue config))
      in case configureTLS te config of
           Inl e \<Rightarrow> Inl e
         | Inr tls \<Rightarrow>
             Inr \<lparr>cl_config = config,
                  cl_client =
                    \<lparr>fc_Name = hc_Name config, fc_MaxConnsPerHost = hc_MaxConnsPerHost config,
                     fc_MaxIdleConnDuration = hc_MaxIdleConnDuration config,
                     fc_MaxConnWaitTimeout = hc_MaxConnWaitTimeoutValue config,
                     fc_MaxConnDuration = hc_MaxConnDuration config, fc_ReadBufferSize = hc_ReadBufferSize config,
                     fc_WriteBufferSize = hc_WriteBufferSize config,
                     fc_MaxResponseBodySize = hc_MaxResponseBodySizeValue config,
                     fc_StreamResponseBody = hc_StreamResponseBodyValue config,
                     fc_ReadTimeout = (if hc_ReadTimeout config > 0 then hc_ReadTimeout config else 0),
                     fc_WriteTimeout = (if hc_WriteTimeout config > 0 then hc_WriteTimeout config else 0),
                     fc_TLSConfig = tls\<rparr>,
                  cl_circuitBreaker = circuitBreaker\<rparr>)"

section \<open>What the filter finds in a text\<close>

lemma ignored_iff:
  "ShouldIgnoreErrorForCircuitBreaker text (Some e) \<longleftrightarrow>
     err_is e ContextCanceled \<or> err_is e (InHttpClient ErrNotFound) \<or> err_is e (InHttpClient ErrBadRequest)
     \<or> (\<exists>code \<in> {400..499}. strings_Contains (error_text text e) (non200 code))"
  unfolding ShouldIgnoreErrorForCircuitBreaker_def list_ex_iff set_upto Let_def option.case by (simp only: if_bool_eq_disj) blast

lemma contains_Nil [simp]: "strings_Contains [] p \<longleftrightarrow> p = []"
  by (auto simp: strings_Contains.simps)

lemma contains_Cons:
  "strings_Contains (c # cs) (x # p) \<longleftrightarrow> c = x \<and> has_prefix cs p \<or> strings_Contains cs (x # p)"
  by (subst strings_Contains.simps) auto

text \<open>Numbers of three digits.\<close>

lemma show_int_three:
  assumes "100 \<le> n" "n \<le> 999"
  obtains a b c where "show_int n = [a, b, c]" "{a, b, c} \<subseteq> set ''0123456789''"
proof -
  define k where "k = nat n"
  with assms have k: "n = int k" "100 \<le> k" "k < 1000" by auto
  from k have small: "k div 100 < 10" "\<not> k div 10 < 10" by auto
  have "show_nat k = [char_of (48 + k div 100), char_of (48 + k div 10 mod 10), char_of (48 + k mod 10)]"
    using k by (simp add: small show_nat.simps [of k] show_nat.simps [of "k div 10"] show_nat.simps [of "k div 100"] div_mult2_eq [symmetric])
  moreover have "set (show_nat k) \<subseteq> set ''0123456789''" using show_nat_digits by blast
  ultimately show ?thesis using that k by (auto simp: show_int_def)
qed

lemma show_int_inject_pos: "0 \<le> m \<Longrightarrow> 0 \<le> n \<Longrightarrow> show_int m = show_int n \<longleftrightarrow> m = n"
  by (auto simp: show_int_def show_nat_inject)

text \<open>A status of three digits followed by a body holds the text of another status at its beginning or in the body.\<close>

lemma contains_non200:
  assumes "100 \<le> s" "s \<le> 999" "100 \<le> code" "code \<le> 999"
  shows "strings_Contains (non200 s @ '': '' @ body) (non200 code) \<longleftrightarrow> s = code \<or> strings_Contains body (non200 code)"
    and "strings_Contains (non200 s) (non200 code) \<longleftrightarrow> s = code"
proof -
  obtain a b c where s: "show_int s = [a, b, c]" "{a, b, c} \<subseteq> set ''0123456789''"
    using show_int_three [OF assms(1,2)] .
  obtain x y z where code: "show_int code = [x, y, z]" using show_int_three [OF assms(3,4)] .
  have same: "s = code \<longleftrightarrow> a = x \<and> b = y \<and> c = z"
    using show_int_inject_pos [of s code] s(1) code assms by simp
  have "a \<noteq> CHR ''n''" "b \<noteq> CHR ''n''" "c \<noteq> CHR ''n''" using s(2) by auto
  then show "strings_Contains (non200 s @ '': '' @ body) (non200 code) \<longleftrightarrow> s = code \<or> strings_Contains body (non200 code)"
    and "strings_Contains (non200 s) (non200 code) \<longleftrightarrow> s = code"
    by (simp_all add: non200_def s(1) code contains_Cons same)
qed

end
