(* ===== verification/Http_Client.thy ===== *)
theory Http_Client
  imports Http_Config
begin

text \<open>
  Package \<^verbatim>\<open>http_client\<close>, second part: request options (\<^verbatim>\<open>options.go\<close>), multipart forms
  (\<^verbatim>\<open>form_data.go\<close>), responses (\<^verbatim>\<open>response.go\<close>, \<^verbatim>\<open>stream_response.go\<close>) and requests
  (\<^verbatim>\<open>http_client.go\<close>).

  The transport \<^verbatim>\<open>fasthttp\<close> is third-party: a request is the list of the calls that build it
  (\<open>request_call\<close>), and \<open>he_send\<close> says what comes back, with an error or not. The context, the wait of
  the retry loop, the orders of ranges over maps and the random boundaries of multipart bodies are parameters of the record \<open>http_env\<close>
  as well. Log lines, time tracking and the pooling of request objects are left out.
\<close>

section \<open>Multipart forms\<close>

record form_file =
  ff_fieldName :: string
  ff_fileName :: string
  ff_contentType :: string
  ff_content :: "byte list"

record form_data =
  fd_fields :: "(string \<times> string) list"
  fd_files :: "form_file list"
  fd_cachedBody :: "byte list"
  fd_cachedContentType :: string
  fd_built :: bool

definition NewFormDataImpl :: form_data where
  "NewFormDataImpl = \<lparr>fd_fields = [], fd_files = [], fd_cachedBody = [], fd_cachedContentType = [], fd_built = False\<rparr>"

definition AddField :: "string \<Rightarrow> string \<Rightarrow> form_data \<Rightarrow> form_data" where
  "AddField name v f = f\<lparr>fd_fields := AList.update name v (fd_fields f)\<rparr>"

definition AddFields :: "(string \<times> string) list \<Rightarrow> form_data \<Rightarrow> form_data" where
  "AddFields kvs f = f\<lparr>fd_fields := fold (\<lambda>(k, v). AList.update k v) kvs (fd_fields f)\<rparr>"

definition AddFile :: "string \<Rightarrow> string \<Rightarrow> string \<Rightarrow> reader \<Rightarrow> form_data \<Rightarrow> go_error option \<times> form_data" where
  "AddFile fieldName fileName contentType body f =
     (case ReadAll body of
        Inl e \<Rightarrow> (Some e, f)
      | Inr content \<Rightarrow>
          (None, f\<lparr>fd_files := fd_files f @
             [\<lparr>ff_fieldName = fieldName, ff_fileName = fileName, ff_contentType = contentType, ff_content = content\<rparr>]\<rparr>))"

text \<open>
  What \<^verbatim>\<open>mime/multipart\<close> writes for a part, with its headers in the order of their names, and at the end.
  Writing into a buffer in memory does not fail.
\<close>

abbreviation CRLF :: string where "CRLF \<equiv> [CHR 0x0D, CHR 0x0A]"

definition part_text :: "string \<Rightarrow> bool \<Rightarrow> (string \<times> string) list \<times> byte list \<Rightarrow> byte list" where
  "part_text boundary first = (\<lambda>(hs, content).
     (if first then [] else CRLF) @ ''--'' @ boundary @ CRLF
     @ concat (map (\<lambda>(k, v). k @ '': '' @ v @ CRLF) hs) @ CRLF @ content)"

definition form_parts :: "(string \<Rightarrow> string) \<Rightarrow> (string \<times> string) list \<Rightarrow> form_data \<Rightarrow> ((string \<times> string) list \<times> byte list) list" where
  "form_parts escape ordered f =
     map (\<lambda>(name, v). ([(''Content-Disposition'', ''form-data; name=\"'' @ escape name @ ''\"'')], v)) ordered
     @ map (\<lambda>file. ([(''Content-Disposition'',
                      ''form-data; name=\"'' @ escape (ff_fieldName file) @ ''\"; filename=\"'' @ escape (ff_fileName file) @ ''\"''),
                    (''Content-Type'', ff_contentType file)], ff_content file)) (fd_files f)"

definition form_text :: "(string \<Rightarrow> string) \<Rightarrow> string \<Rightarrow> (string \<times> string) list \<Rightarrow> form_data \<Rightarrow> byte list" where
  "form_text escape boundary ordered f =
     (case form_parts escape ordered f of
        [] \<Rightarrow> []
      | p # ps \<Rightarrow> part_text boundary True p @ concat (map (part_text boundary False) ps))
     @ CRLF @ ''--'' @ boundary @ ''--'' @ CRLF"

text \<open>\<open>boundary\<close> is what a new writer draws, and \<open>ordered\<close> the fields in the order in which this range over their map
  visits them.\<close>

definition form_build :: "(string \<Rightarrow> string) \<Rightarrow> string \<Rightarrow> (string \<times> string) list \<Rightarrow> form_data \<Rightarrow> (byte list \<times> string) \<times> form_data" where
  "form_build escape boundary ordered f =
     (if fd_built f then ((fd_cachedBody f, fd_cachedContentType f), f)
      else (let body = form_text escape boundary ordered f;
                contentType = ''multipart/form-data; boundary='' @ boundary
            in ((body, contentType),
                f\<lparr>fd_cachedBody := body, fd_cachedContentType := contentType, fd_built := True\<rparr>)))"

text \<open>The interface \<open>FormData\<close> may have other implementations.\<close>

datatype form = FormDataImpl form_data | OtherFormData

section \<open>Request options\<close>

record request_config =
  rc_QueryParams :: "(string \<times> string) list"
  rc_Headers :: headers
  rc_Body :: "byte list"
  rc_FormData :: "form option"

type_synonym request_option = "request_config \<Rightarrow> request_config"

definition WithBody :: "byte list \<Rightarrow> request_option" where
  "WithBody body cfg = cfg\<lparr>rc_Body := body\<rparr>"

text \<open>\<open>data\<close> is what \<open>json.Marshal\<close> makes of the value; its error is only logged.\<close>

definition WithJsonBody :: "go_error + byte list \<Rightarrow> request_option" where
  "WithJsonBody data cfg = (case data of Inl e \<Rightarrow> cfg | Inr d \<Rightarrow> cfg\<lparr>rc_Body := d\<rparr>)"

definition WithFormData :: "form option \<Rightarrow> request_option" where
  "WithFormData data cfg = cfg\<lparr>rc_FormData := data\<rparr>"

text \<open>\<open>headers[key] = append(headers[key], values...)\<close>\<close>

definition add_values :: "string \<Rightarrow> string list \<Rightarrow> headers \<Rightarrow> headers" where
  "add_values key vs hs = AList.update key ((case map_of hs key of Some old \<Rightarrow> old | None \<Rightarrow> []) @ vs) hs"

definition WithHeader :: "string \<Rightarrow> string \<Rightarrow> request_option" where
  "WithHeader key v cfg = cfg\<lparr>rc_Headers := add_values key [v] (rc_Headers cfg)\<rparr>"

definition WithHeaders :: "headers \<Rightarrow> request_option" where
  "WithHeaders hs cfg = cfg\<lparr>rc_Headers := fold (\<lambda>(key, vs). add_values key vs) hs (rc_Headers cfg)\<rparr>"

definition WithQueryParam :: "string \<Rightarrow> string \<Rightarrow> request_option" where
  "WithQueryParam key v cfg = cfg\<lparr>rc_QueryParams := AList.update key v (rc_QueryParams cfg)\<rparr>"

definition WithQueryParams :: "(string \<times> string) list \<Rightarrow> request_option" where
  "WithQueryParams params cfg =
     cfg\<lparr>rc_QueryParams := fold (\<lambda>(key, v). AList.update key v) params (rc_QueryParams cfg)\<rparr>"

definition applyOptions :: "request_option option list \<Rightarrow> request_config" where
  "applyOptions opts = apply_each opts \<lparr>rc_QueryParams = [], rc_Headers = [], rc_Body = [], rc_FormData = None\<rparr>"

section \<open>Requests and responses\<close>

text \<open>The calls on a request of \<^verbatim>\<open>fasthttp\<close> and on its headers.\<close>

datatype request_call =
    SetRequestURI string
  | SetMethod string
  | HeaderSet string string
  | HeaderAdd string string
  | QueryAdd string string
  | SetBody "byte list"
  | SetContentType string
  | SetTimeout int

record reply =
  rp_StatusCode :: int
  rp_Header :: "(string \<times> string) list"
  rp_Body :: "byte list"
  rp_BodyStream :: reader

text \<open>
  A map is the list of its entries, and a range over it visits them in an order of its own each time:
  \<open>he_headerOrder\<close> and \<open>he_paramOrder\<close> draw that order for maps of headers and for maps of strings.
  \<open>he_contentType\<close> is the content type that a request has after some calls, \<open>he_requestId\<close> the request
  id that the context carries, \<open>he_send\<close> the exchange (with redirects followed or not), \<open>he_timeout\<close> and
  \<open>he_opError\<close> the tests of \<open>ShouldRetry\<close> for errors of the package \<^verbatim>\<open>net\<close>.
\<close>

record 'w http_env =
  he_float :: go_float
  he_escape :: "string \<Rightarrow> string"
  he_boundary :: "'w \<Rightarrow> string \<times> 'w"
  he_headerOrder :: "headers \<Rightarrow> 'w \<Rightarrow> headers \<times> 'w"
  he_paramOrder :: "(string \<times> string) list \<Rightarrow> 'w \<Rightarrow> (string \<times> string) list \<times> 'w"
  he_contentType :: "request_call list \<Rightarrow> string"
  he_requestId :: "string option"
  he_send :: "bool \<Rightarrow> request_call list \<Rightarrow> 'w \<Rightarrow> (reply \<times> go_error option) \<times> 'w"
  he_ctx :: "'w \<Rightarrow> go_error option \<times> 'w"
  he_wait :: "int \<Rightarrow> 'w \<Rightarrow> bool \<times> 'w"
  he_timeout :: "go_error \<Rightarrow> bool"
  he_opError :: "go_error \<Rightarrow> bool"

record http_response =
  ht_StatusCode :: int
  ht_Headers :: headers
  ht_Body :: "byte list"

record stream_response =
  sr_StatusCode :: int
  sr_Headers :: headers
  sr_Body :: reader

definition collect_headers :: "(string \<times> string) list \<Rightarrow> headers" where
  "collect_headers kvs = fold (\<lambda>(k, v). add_values k [v]) kvs []"

definition makeUrl :: "http_config \<Rightarrow> string \<Rightarrow> string" where
  "makeUrl c uri = (if hc_BaseUrlValue c = [] then uri else hc_BaseUrlValue c @ uri)"

definition header_calls :: "headers \<Rightarrow> request_call list" where
  "header_calls hs = concat (map (\<lambda>(key, vs). map (HeaderAdd key) vs) hs)"

text \<open>The calls for the request id, the headers and the query, each map in the order of this range over it.\<close>

definition config_calls ::
  "'w http_env \<Rightarrow> http_config \<Rightarrow> request_config \<Rightarrow> 'w \<Rightarrow> request_call list \<times> 'w" where
  "config_calls env c cfg w =
     (let requestId = (if hc_UseRequestIdValue c
                       then (case he_requestId env of
                               Some rid \<Rightarrow> if rid \<noteq> [] then [HeaderSet ''X-Request-Id'' rid] else []
                             | None \<Rightarrow> [])
                       else [])
      in case he_headerOrder env (hc_BaseHeadersValue c) w of (baseHeaders, w1) \<Rightarrow>
         case he_headerOrder env (rc_Headers cfg) w1 of (requestHeaders, w2) \<Rightarrow>
         case he_paramOrder env (rc_QueryParams cfg) w2 of (params, w3) \<Rightarrow>
           (requestId @ header_calls baseHeaders @ header_calls requestHeaders @ map (\<lambda>(key, v). QueryAdd key v) params, w3))"

text \<open>What the build of a form that has not been built draws: the boundary, then the order of the fields.\<close>

definition form_draw ::
  "'w http_env \<Rightarrow> form_data \<Rightarrow> 'w \<Rightarrow> string \<times> (string \<times> string) list \<times> 'w" where
  "form_draw env f w =
     (if fd_built f then ([], [], w)
      else case he_boundary env w of (boundary, w1) \<Rightarrow>
           case he_paramOrder env (fd_fields f) w1 of (ordered, w2) \<Rightarrow> (boundary, ordered, w2))"

text \<open>The form is shared with the caller, so a build of it is a change of the request's configuration.\<close>

definition applyRequestConfig ::
  "'w http_env \<Rightarrow> http_config \<Rightarrow> request_call list \<Rightarrow> request_config \<times> 'w
   \<Rightarrow> (go_error + request_call list) \<times> request_config \<times> 'w" where
  "applyRequestConfig env c req = (\<lambda>(cfg, w).
     case config_calls env c cfg w of (ordered, w1) \<Rightarrow>
     let req1 = req @ ordered
     in if rc_FormData cfg \<noteq> None \<and> rc_Body cfg \<noteq> []
        then (Inl (Atom (InHttpClient ErrBothFormDataAndBody)), cfg, w1)
        else (case rc_FormData cfg of
                Some OtherFormData \<Rightarrow> (Inl (Atom (InHttpClient ErrInvalidFormDataType)), cfg, w1)
              | Some (FormDataImpl f) \<Rightarrow>
                  (case form_draw env f w1 of
                     (boundary, ordered, w2) \<Rightarrow>
                       (case form_build (he_escape env) boundary ordered f of
                          ((body, contentType), f1) \<Rightarrow>
                            (Inr (req1 @ [SetBody body, SetContentType contentType]),
                             cfg\<lparr>rc_FormData := Some (FormDataImpl f1)\<rparr>, w2)))
              | None \<Rightarrow>
                  if rc_Body cfg \<noteq> []
                  then (let req2 = req1 @ [SetBody (rc_Body cfg)]
                        in (Inr (if he_contentType env req2 = [] then req2 @ [SetContentType ''application/json''] else req2),
                            cfg, w1))
                  else (Inr req1, cfg, w1)))"

definition with_body :: "string \<Rightarrow> byte list \<Rightarrow> string" where
  "with_body msg body = (if body \<noteq> [] then msg @ '': '' @ body else msg)"

definition handleStatusCode :: "http_response \<Rightarrow> http_response option \<times> go_error option" where
  "handleStatusCode response =
     (let statusCode = ht_StatusCode response; body = ht_Body response
      in if 200 \<le> statusCode \<and> statusCode \<le> 299 then (Some response, None)
         else if statusCode = 404
         then (Some response, Some (if body \<noteq> [] then Wrap (''not found: '' @ body) [Atom (InHttpClient ErrNotFound)]
                                    else Atom (InHttpClient ErrNotFound)))
         else if statusCode = 400
         then (Some response, Some (if body \<noteq> [] then Wrap (''bad request: '' @ body) [Atom (InHttpClient ErrBadRequest)]
                                    else Atom (InHttpClient ErrBadRequest)))
         else (Some response, Some (Wrap (with_body (non200 statusCode) body) [Atom (InHttpClient ErrNon200HttpCode)])))"

definition performRequest ::
  "'w http_env \<Rightarrow> http_config \<Rightarrow> string \<Rightarrow> string \<Rightarrow> request_config \<times> 'w
   \<Rightarrow> (http_response option \<times> go_error option) \<times> request_config \<times> 'w" where
  "performRequest env c mthd uri s =
     (case applyRequestConfig env c [SetRequestURI (makeUrl c uri), SetMethod mthd] s of
        (Inl e, s1) \<Rightarrow> ((None, Some e), s1)
      | (Inr req, cfg, w1) \<Rightarrow>
          (case he_send env (hc_FollowRedirectsValue c) (req @ [SetTimeout (hc_TimeoutValue c)]) w1 of
             ((resp, err), w2) \<Rightarrow>
               (case he_ctx env w2 of
                  (Some e, w3) \<Rightarrow> ((None, Some e), cfg, w3)
                | (None, w3) \<Rightarrow>
                    (let response = \<lparr>ht_StatusCode = rp_StatusCode resp, ht_Headers = collect_headers (rp_Header resp),
                                     ht_Body = rp_Body resp\<rparr>
                     in (case err of
                           Some e \<Rightarrow> ((Some response, Some e), cfg, w3)
                         | None \<Rightarrow> (handleStatusCode response, cfg, w3))))))"

text \<open>The retry loop works on the request's configuration and the world; the nil response is \<open>None\<close>.\<close>

definition http_retry_env ::
  "'w http_env \<Rightarrow> http_config \<Rightarrow> string \<Rightarrow> string \<Rightarrow> (request_config \<times> 'w, http_response option) retry_env" where
  "http_retry_env env c mthd uri =
     \<lparr>re_op = performRequest env c mthd uri,
      re_ctx = (\<lambda>(cfg, w). case he_ctx env w of (e, w1) \<Rightarrow> (e, cfg, w1)),
      re_wait = (\<lambda>d (cfg, w). case he_wait env d w of (b, w1) \<Rightarrow> (b, cfg, w1))\<rparr>"

definition retry_response :: "'w http_env \<Rightarrow> http_response option \<Rightarrow> go_error option \<Rightarrow> bool" where
  "retry_response env response err =
     (let statusCode = (case response of Some r \<Rightarrow> ht_StatusCode r | None \<Rightarrow> 0)
      in ShouldRetry (he_timeout env) (he_opError env) statusCode err)"

definition executeRequest ::
  "'w http_env \<Rightarrow> http_config \<Rightarrow> string \<Rightarrow> string \<Rightarrow> request_config \<times> 'w
   \<Rightarrow> (http_response option \<times> go_error option) \<times> request_config \<times> 'w" where
  "executeRequest env c mthd uri s =
     (if hc_RetryPolicyValue c \<noteq> None \<and> ShouldRetryMethod mthd (hc_RetryPolicyValue c)
      then DoWithCondition (he_float env) (http_retry_env env c mthd uri) None (hc_RetryPolicyValue c)
             (retry_response env) s
      else performRequest env c mthd uri s)"

text \<open>
  The function given to the breaker assigns its response to a variable of the caller, which is nil when
  the breaker rejects the call. So the breaker guards a world with that variable in it.
\<close>

type_synonym 'w guarded_world = "http_response option \<times> request_config \<times> 'w"

definition http_Do ::
  "'w http_env \<Rightarrow> http_config \<Rightarrow> ('b, 'w guarded_world) circuit_breaker option \<Rightarrow> string \<Rightarrow> string
   \<Rightarrow> request_option option list \<Rightarrow> 'b \<times> 'w
   \<Rightarrow> (http_response option \<times> go_error option) \<times> request_config \<times> 'b \<times> 'w" where
  "http_Do env c cb mthd uri opts = (\<lambda>(b, w).
     let cfg = applyOptions opts
     in case cb of
          Some breaker \<Rightarrow>
            (case cb_Execute (Some breaker)
                    (\<lambda>(response, s). case executeRequest env c mthd uri s of ((r, execErr), s1) \<Rightarrow> (execErr, r, s1))
                    (b, None, cfg, w) of
               (err, b1, response, cfg1, w1) \<Rightarrow> ((response, err), cfg1, b1, w1))
        | None \<Rightarrow> (case executeRequest env c mthd uri (cfg, w) of (r, cfg1, w1) \<Rightarrow> (r, cfg1, b, w1)))"

definition http_Get where
  "http_Get env c cb uri opts = http_Do env c cb ''GET'' uri opts"

definition http_Post where
  "http_Post env c cb uri opts = http_Do env c cb ''POST'' uri opts"

definition http_Put where
  "http_Put env c cb uri opts = http_Do env c cb ''PUT'' uri opts"

definition http_Patch where
  "http_Patch env c cb uri opts = http_Do env c cb ''PATCH'' uri opts"

definition http_Delete where
  "http_Delete env c cb uri opts = http_Do env c cb ''DELETE'' uri opts"

definition http_Head where
  "http_Head env c cb uri opts = http_Do env c cb ''HEAD'' uri opts"

definition http_Options where
  "http_Options env c cb uri opts = http_Do env c cb ''OPTIONS'' uri opts"

definition performStreamRequest ::
  "'w http_env \<Rightarrow> http_config \<Rightarrow> string \<Rightarrow> request_config \<times> 'w
   \<Rightarrow> (stream_response option \<times> go_error option) \<times> request_config \<times> 'w" where
  "performStreamRequest env c uri s =
     (case applyRequestConfig env c [SetRequestURI (makeUrl c uri), SetMethod ''GET''] s of
        (Inl e, s1) \<Rightarrow> ((None, Some e), s1)
      | (Inr req, cfg, w1) \<Rightarrow>
          (case he_send env (hc_FollowRedirectsValue c) req w1 of
             ((resp, err), w2) \<Rightarrow>
               (case he_ctx env w2 of
                  (Some e, w3) \<Rightarrow> ((None, Some e), cfg, w3)
                | (None, w3) \<Rightarrow>
                    (if err \<noteq> None then ((None, err), cfg, w3)
                     else if rp_StatusCode resp < 200 \<or> rp_StatusCode resp > 299
                     then ((None, snd (handleStatusCode \<lparr>ht_StatusCode = rp_StatusCode resp, ht_Headers = [],
                                                          ht_Body = rp_Body resp\<rparr>)), cfg, w3)
                     else ((Some \<lparr>sr_StatusCode = rp_StatusCode resp, sr_Headers = collect_headers (rp_Header resp),
                                   sr_Body = rp_BodyStream resp\<rparr>, None), cfg, w3)))))"

definition GetStream ::
  "'w http_env \<Rightarrow> http_config \<Rightarrow> string \<Rightarrow> request_option option list \<Rightarrow> 'w
   \<Rightarrow> (stream_response option \<times> go_error option) \<times> request_config \<times> 'w" where
  "GetStream env c uri opts w = performStreamRequest env c uri (applyOptions opts, w)"

text \<open>\<open>AsJson\<close>: \<open>decode\<close> is \<open>json.Unmarshal\<close> into the default value.\<close>

record 'v typed_response =
  ty_StatusCode :: int
  ty_Headers :: headers
  ty_Body :: "byte list"
  ty_Entity :: 'v

definition AsJson :: "(byte list \<Rightarrow> 'v \<Rightarrow> go_error + 'v) \<Rightarrow> http_response \<Rightarrow> 'v \<Rightarrow> go_error + 'v typed_response" where
  "AsJson decode response defaultValue =
     (case decode (ht_Body response) defaultValue of
        Inl e \<Rightarrow> Inl e
      | Inr v \<Rightarrow> Inr \<lparr>ty_StatusCode = ht_StatusCode response, ty_Headers = ht_Headers response,
                     ty_Body = ht_Body response, ty_Entity = v\<rparr>)"

section \<open>What one exchange establishes\<close>

text \<open>A transport that writes down every exchange.\<close>

type_synonym exchange = "(bool \<times> request_call list) \<times> reply \<times> go_error option"

definition traced_http :: "'w http_env \<Rightarrow> ('w \<times> exchange list) http_env" where
  "traced_http env =
     \<lparr>he_float = he_float env, he_escape = he_escape env,
      he_boundary = (\<lambda>(w, tr). case he_boundary env w of (b, w1) \<Rightarrow> (b, w1, tr)),
      he_headerOrder = (\<lambda>m (w, tr). case he_headerOrder env m w of (l, w1) \<Rightarrow> (l, w1, tr)),
      he_paramOrder = (\<lambda>m (w, tr). case he_paramOrder env m w of (l, w1) \<Rightarrow> (l, w1, tr)),
      he_contentType = he_contentType env, he_requestId = he_requestId env,
      he_send = (\<lambda>follow req (w, tr). case he_send env follow req w of
                   ((rep, e), w1) \<Rightarrow> ((rep, e), w1, tr @ [((follow, req), rep, e)])),
      he_ctx = (\<lambda>(w, tr). case he_ctx env w of (e, w1) \<Rightarrow> (e, w1, tr)),
      he_wait = (\<lambda>d (w, tr). case he_wait env d w of (b, w1) \<Rightarrow> (b, w1, tr)),
      he_timeout = he_timeout env, he_opError = he_opError env\<rparr>"

lemma traced_http_simps [simp]:
  "he_escape (traced_http env) = he_escape env"
  "he_boundary (traced_http env) (w, tr) = (case he_boundary env w of (b, w1) \<Rightarrow> (b, w1, tr))"
  "he_headerOrder (traced_http env) m (w, tr) = (case he_headerOrder env m w of (l, w1) \<Rightarrow> (l, w1, tr))"
  "he_paramOrder (traced_http env) ps (w, tr) = (case he_paramOrder env ps w of (l, w1) \<Rightarrow> (l, w1, tr))"
  "he_contentType (traced_http env) = he_contentType env"
  "he_requestId (traced_http env) = he_requestId env"
  "he_send (traced_http env) follow req (w, tr) = (case he_send env follow req w of
     ((rep, e), w1) \<Rightarrow> ((rep, e), w1, tr @ [((follow, req), rep, e)]))"
  "he_ctx (traced_http env) (w, tr) = (case he_ctx env w of (e, w1) \<Rightarrow> (e, w1, tr))"
  "he_wait (traced_http env) d (w, tr) = (case he_wait env d w of (b, w1) \<Rightarrow> (b, w1, tr))"
  "he_timeout (traced_http env) = he_timeout env"
  "he_opError (traced_http env) = he_opError env"
  by (simp_all add: traced_http_def)

definition response_of :: "reply \<Rightarrow> http_response" where
  "response_of rep = \<lparr>ht_StatusCode = rp_StatusCode rep, ht_Headers = collect_headers (rp_Header rep),
                      ht_Body = rp_Body rep\<rparr>"

text \<open>What the client makes of an exchange.\<close>

definition outcome_of :: "reply \<Rightarrow> go_error option \<Rightarrow> http_response option \<times> go_error option" where
  "outcome_of rep e = (case e of Some x \<Rightarrow> (Some (response_of rep), Some x) | None \<Rightarrow> handleStatusCode (response_of rep))"

lemma handleStatusCode_response: "fst (handleStatusCode r) = Some r"
  by (simp add: handleStatusCode_def Let_def)

lemma outcome_of_response: "fst (outcome_of rep e) = Some (response_of rep)"
  by (simp add: outcome_of_def handleStatusCode_response split: option.split)

lemma handleStatusCode_ok: "snd (handleStatusCode r) = None \<longleftrightarrow> ht_StatusCode r \<in> {200..299}"
  by (simp add: handleStatusCode_def Let_def)

lemma outcome_of_ok: "outcome_of rep e = (Some r, None) \<Longrightarrow> ht_StatusCode r \<in> {200..299}"
  using handleStatusCode_response [of "response_of rep"] handleStatusCode_ok [of "response_of rep"]
  by (auto simp: outcome_of_def split: option.splits)

text \<open>
  The same request, whatever the order of the ranges: the calls for each header, whose name is compared without its
  case, for each query parameter, and all others are the same, each in the same order.
\<close>

fun call_header :: "request_call \<Rightarrow> string option" where
  "call_header (HeaderSet key v) = Some (ToUpper key)"
| "call_header (HeaderAdd key v) = Some (ToUpper key)"
| "call_header (SetContentType ct) = Some ''CONTENT-TYPE''"
| "call_header _ = None"

fun call_param :: "request_call \<Rightarrow> string option" where
  "call_param (QueryAdd key v) = Some key"
| "call_param _ = None"

definition alike :: "request_call list \<Rightarrow> request_call list \<Rightarrow> bool" where
  "alike a b \<longleftrightarrow>
     (\<forall>name. filter (\<lambda>x. call_header x = Some name) a = filter (\<lambda>x. call_header x = Some name) b)
     \<and> (\<forall>key. filter (\<lambda>x. call_param x = Some key) a = filter (\<lambda>x. call_param x = Some key) b)
     \<and> filter (\<lambda>x. call_header x = None \<and> call_param x = None) a = filter (\<lambda>x. call_header x = None \<and> call_param x = None) b"

lemma alike_refl [simp]: "alike a a"
  by (simp add: alike_def)

lemma alike_sym: "alike a b \<Longrightarrow> alike b a"
  by (simp add: alike_def)

lemma alike_trans: "alike a b \<Longrightarrow> alike b c \<Longrightarrow> alike a c"
  by (simp add: alike_def)

lemma alike_append: "alike a a' \<Longrightarrow> alike b b' \<Longrightarrow> alike (a @ b) (a' @ b')"
  by (simp add: alike_def)

text \<open>
  What is documented: a range visits every entry of a map once, in any order, and the content type of a request, which
  is empty or not, depends on the calls for each header alone; the error of a context is one of two. A configuration is
  well formed if its lists are maps, in which no header is spelled in two ways.
\<close>

definition ranges_documented :: "'w http_env \<Rightarrow> bool" where
  "ranges_documented env \<longleftrightarrow>
     (\<forall>m w l w'. he_headerOrder env m w = (l, w') \<longrightarrow> distinct (map fst m) \<longrightarrow> distinct (map fst l) \<and> set l = set m)
     \<and> (\<forall>m w l w'. he_paramOrder env m w = (l, w') \<longrightarrow> distinct (map fst m) \<longrightarrow> distinct (map fst l) \<and> set l = set m)"

definition content_type_documented :: "'w http_env \<Rightarrow> bool" where
  "content_type_documented env \<longleftrightarrow> (\<forall>a b. alike a b \<longrightarrow> (he_contentType env a = []) = (he_contentType env b = []))"

definition context_error :: "go_error \<Rightarrow> bool" where
  "context_error x \<longleftrightarrow> err_is x ContextCanceled \<or> err_is x ContextDeadlineExceeded"

definition ctx_documented :: "'w http_env \<Rightarrow> bool" where
  "ctx_documented env \<longleftrightarrow> (\<forall>w x w'. he_ctx env w = (Some x, w') \<longrightarrow> context_error x)"

definition http_documented :: "'w http_env \<Rightarrow> bool" where
  "http_documented env \<longleftrightarrow> ranges_documented env \<and> content_type_documented env \<and> ctx_documented env"

definition well_formed_config :: "http_config \<Rightarrow> request_config \<Rightarrow> bool" where
  "well_formed_config c cfg \<longleftrightarrow>
     distinct (map (ToUpper \<circ> fst) (hc_BaseHeadersValue c)) \<and> distinct (map (ToUpper \<circ> fst) (rc_Headers cfg))
     \<and> distinct (map fst (rc_QueryParams cfg))"

lemma traced_documented:
  assumes "http_documented env"
  shows "http_documented (traced_http env)"
proof -
  have "ranges_documented (traced_http env)"
    using assms unfolding http_documented_def ranges_documented_def by (auto split: prod.splits)
  moreover have "ctx_documented (traced_http env)"
    using assms unfolding http_documented_def ctx_documented_def by (auto split: prod.splits)
  ultimately show ?thesis using assms by (simp add: http_documented_def content_type_documented_def)
qed

text \<open>At most one entry of a map has a given key, so that a filter by the key does not depend on the order.\<close>

lemma filter_key_order:
  assumes "distinct (map f xs)" "distinct (map f ys)" "set xs = set ys"
  shows "filter (\<lambda>e. f e = n) xs = filter (\<lambda>e. f e = n) ys"
proof -
  have one: "length (filter (\<lambda>e. f e = n) zs) \<le> 1" if "distinct (map f zs)" for zs
    using that
  proof (induction zs)
    case (Cons z zs)
    then have "filter (\<lambda>e. f e = f z) zs = []" by (auto simp: filter_empty_conv image_iff dest: sym)
    with Cons show ?case by auto
  qed simp
  have "set (filter (\<lambda>e. f e = n) xs) = set (filter (\<lambda>e. f e = n) ys)" using assms(3) by simp
  with one [OF assms(1)] one [OF assms(2)] show ?thesis
    by (cases "filter (\<lambda>e. f e = n) xs"; cases "filter (\<lambda>e. f e = n) ys") auto
qed

lemma header_calls_shape [simp]:
  "filter (\<lambda>x. call_header x = Some name) (header_calls hs) = header_calls (filter (\<lambda>e. ToUpper (fst e) = name) hs)"
  "filter (\<lambda>x. call_param x = Some key) (header_calls hs) = []"
  "filter (\<lambda>x. call_header x = None \<and> call_param x = None) (header_calls hs) = []"
  by (induction hs) (auto simp: header_calls_def filter_empty_conv)

lemma query_calls_shape [simp]:
  "filter (\<lambda>x. call_header x = Some name) (map (\<lambda>(key, v). QueryAdd key v) ps) = []"
  "filter (\<lambda>x. call_param x = Some key) (map (\<lambda>(key, v). QueryAdd key v) ps) = map (\<lambda>(key, v). QueryAdd key v) (filter (\<lambda>e. fst e = key) ps)"
  "filter (\<lambda>x. call_header x = None \<and> call_param x = None) (map (\<lambda>(key, v). QueryAdd key v) ps) = []"
  by (induction ps) auto

lemma header_calls_alike:
  assumes "distinct (map (ToUpper \<circ> fst) hs)" "distinct (map fst l)" "distinct (map fst l')" "set l = set hs" "set l' = set hs"
  shows "alike (header_calls l) (header_calls l')"
proof -
  have "inj_on (\<lambda>e. ToUpper (fst e)) (set hs)" using assms(1) by (simp add: distinct_map comp_def)
  then have "filter (\<lambda>e. (ToUpper \<circ> fst) e = name) l = filter (\<lambda>e. (ToUpper \<circ> fst) e = name) l'" for name
    using assms(2-5) by (intro filter_key_order) (auto simp: distinct_map)
  then show ?thesis by (simp add: alike_def)
qed

lemma query_calls_alike:
  assumes "distinct (map fst l)" "distinct (map fst l')" "set l = set l'"
  shows "alike (map (\<lambda>(key, v). QueryAdd key v) l) (map (\<lambda>(key, v). QueryAdd key v) l')"
  using filter_key_order [OF assms] by (simp add: alike_def)

text \<open>Two ranges over the maps of a configuration give the same calls but for their order.\<close>

lemma config_calls_alike:
  assumes "http_documented env" "well_formed_config c cfg"
    and "config_calls env c cfg w = (ordered, w')" "config_calls env c cfg v = (ordered', v')"
  shows "alike ordered ordered'"
proof -
  have keys: "distinct (map fst m)" if "distinct (map (ToUpper \<circ> fst) m)" for m :: headers
    using that by (auto simp: distinct_map comp_inj_on_iff dest: inj_on_imageI2)
  note maps = assms(2) [unfolded well_formed_config_def]
  note ranges = assms(1) [unfolded http_documented_def, THEN conjunct1, unfolded ranges_documented_def]
  obtain b w1 h w2 q w3 where w: "he_headerOrder env (hc_BaseHeadersValue c) w = (b, w1)"
    "he_headerOrder env (rc_Headers cfg) w1 = (h, w2)" "he_paramOrder env (rc_QueryParams cfg) w2 = (q, w3)"
    by (metis surj_pair)
  obtain b' v1 h' v2 q' v3 where v: "he_headerOrder env (hc_BaseHeadersValue c) v = (b', v1)"
    "he_headerOrder env (rc_Headers cfg) v1 = (h', v2)" "he_paramOrder env (rc_QueryParams cfg) v2 = (q', v3)"
    by (metis surj_pair)
  have "alike (header_calls b) (header_calls b')"
    using maps keys ranges w(1) v(1) by (intro header_calls_alike [of "hc_BaseHeadersValue c"]) blast+
  moreover have "alike (header_calls h) (header_calls h')"
    using maps keys ranges w(2) v(2) by (intro header_calls_alike [of "rc_Headers cfg"]) blast+
  moreover have "alike (map (\<lambda>(key, v). QueryAdd key v) q) (map (\<lambda>(key, v). QueryAdd key v) q')"
    using maps ranges w(3) v(3) by (intro query_calls_alike) metis+
  ultimately show ?thesis
    using assms(3,4) w v by (auto simp: config_calls_def Let_def intro!: alike_append)
qed

text \<open>A request once built is built again in the same way, whatever the world is then.\<close>

lemma form_build_again:
  "form_build escape b ordered f = (r, f') \<Longrightarrow> fd_built f' \<and> form_build escape b' ordered' f' = (r, f')"
  by (auto simp: form_build_def Let_def split: if_splits)

lemma applyRequestConfig_again:
  assumes "http_documented env" "well_formed_config c cfg"
    and "applyRequestConfig env c req0 (cfg, w) = (Inr req, cfg', w')"
  shows "well_formed_config c cfg' \<and> (\<exists>again v'. applyRequestConfig env c req0 (cfg', v) = (Inr again, cfg', v') \<and> alike req again)"
proof -
  obtain calls1 w1 where c1: "config_calls env c cfg w = (calls1, w1)" by fastforce
  obtain calls2 v1 where c2: "config_calls env c cfg v = (calls2, v1)" by fastforce
  have same: "alike calls1 calls2" by (rule config_calls_alike [OF assms(1,2) c1 c2])
  show ?thesis
  proof (cases "rc_FormData cfg")
    case None
    show ?thesis
    proof (cases "rc_Body cfg = []")
      case True
      with assms(2,3) None c1 c2 same show ?thesis by (auto simp: applyRequestConfig_def Let_def alike_append)
    next
      case False
      let ?a = "req0 @ calls1 @ [SetBody (rc_Body cfg)]" and ?b = "req0 @ calls2 @ [SetBody (rc_Body cfg)]"
      have ab: "alike ?a ?b" using same by (simp add: alike_append)
      with assms(1) have "(he_contentType env ?a = []) = (he_contentType env ?b = [])"
        by (auto simp: http_documented_def content_type_documented_def)
      with assms(2,3) None False c1 c2 ab alike_append [OF ab alike_refl [of "[SetContentType ''application/json'']"]]
      show ?thesis by (auto simp: applyRequestConfig_def Let_def split: if_splits)
    qed
  next
    case (Some form)
    with assms(3) c1 obtain f where f: "form = FormDataImpl f" "rc_Body cfg = []"
      by (cases form) (auto simp: applyRequestConfig_def Let_def split: if_splits)
    obtain b ordered w2 where d: "form_draw env f w1 = (b, ordered, w2)" by (metis surj_pair)
    obtain t ct f' where built: "form_build (he_escape env) b ordered f = ((t, ct), f')" by (metis surj_pair)
    with assms(3) Some f c1 d have res: "req = req0 @ calls1 @ [SetBody t, SetContentType ct]"
      "cfg' = cfg\<lparr>rc_FormData := Some (FormDataImpl f')\<rparr>"
      by (auto simp: applyRequestConfig_def Let_def)
    from form_build_again [OF built] have again: "form_draw env f' v1 = ([], [], v1)"
      "form_build (he_escape env) [] [] f' = ((t, ct), f')" by (auto simp: form_draw_def)
    have "config_calls env c cfg' v = (calls2, v1)" using c2 res(2) by (simp add: config_calls_def)
    with again f(2) res(2) have "applyRequestConfig env c req0 (cfg', v)
        = (Inr (req0 @ calls2 @ [SetBody t, SetContentType ct]), cfg', v1)"
      by (simp add: applyRequestConfig_def)
    moreover have "well_formed_config c cfg'" using assms(2) res(2) by (simp add: well_formed_config_def)
    ultimately show ?thesis using same res(1) by (auto simp: alike_append)
  qed
qed

lemma applyRequestConfig_error:
  "applyRequestConfig env c req0 (cfg, w) = (Inl e, cfg', w') \<Longrightarrow>
     cfg' = cfg \<and> e \<in> {Atom (InHttpClient ErrBothFormDataAndBody), Atom (InHttpClient ErrInvalidFormDataType)}"
  by (auto simp: applyRequestConfig_def Let_def split: option.splits form.splits prod.splits if_splits)

lemma applyRequestConfig_traced:
  assumes "applyRequestConfig (traced_http env) c req0 (cfg, w, tr) = (x, cfg', w', tr')"
  shows "tr' = tr"
proof -
  have calls: "snd w2 = tr" if "config_calls (traced_http env) c cfg (w, tr) = (cs, w2)" for cs w2
    using that by (auto simp: config_calls_def Let_def split: prod.splits)
  have draw: "snd w2 = tr2" if "form_draw (traced_http env) f (w1, tr2) = (b, ordered, w2)" for f w1 tr2 b ordered w2
    using that by (auto simp: form_draw_def split: prod.splits if_splits)
  from assms calls draw show ?thesis
    by (fastforce simp: applyRequestConfig_def Let_def split: option.splits form.splits prod.splits if_splits)
qed

definition the_request :: "'w http_env \<Rightarrow> http_config \<Rightarrow> string \<Rightarrow> string \<Rightarrow> request_config \<Rightarrow> request_call list \<Rightarrow> bool" where
  "the_request env c mthd uri cfg req \<longleftrightarrow>
     (\<forall>w. \<exists>again w'. applyRequestConfig env c [SetRequestURI (makeUrl c uri), SetMethod mthd] (cfg, w) = (Inr again, cfg, w')
       \<and> alike req again)"

lemma performRequest_traced:
  assumes "http_documented env" "well_formed_config c cfg"
    and "performRequest (traced_http env) c mthd uri (cfg, w, tr) = ((resp, err), cfg', w', tr')"
  shows "well_formed_config c cfg'
    \<and> (tr' = tr \<and> resp = None \<and> err \<noteq> None \<and> \<not> (\<exists>q. the_request (traced_http env) c mthd uri cfg q)
      \<or> (\<exists>req rep e. tr' = tr @ [((hc_FollowRedirectsValue c, req @ [SetTimeout (hc_TimeoutValue c)]), rep, e)]
           \<and> the_request (traced_http env) c mthd uri cfg' req
           \<and> (\<forall>q. the_request (traced_http env) c mthd uri cfg q \<longrightarrow> alike q req)
           \<and> ((resp, err) = outcome_of rep e \<or> resp = None \<and> (\<exists>x. err = Some x \<and> context_error x))))"
proof -
  obtain x cfg1 w1 tr1 where conf: "applyRequestConfig (traced_http env) c [SetRequestURI (makeUrl c uri), SetMethod mthd]
      (cfg, w, tr) = (x, cfg1, w1, tr1)" by (metis surj_pair)
  from applyRequestConfig_traced [OF conf] have tr1: "tr1 = tr" .
  show ?thesis
  proof (cases x)
    case (Inl e)
    with conf have "\<not> (\<exists>q. the_request (traced_http env) c mthd uri cfg q)"
      by (auto simp: the_request_def intro!: exI [of _ w] exI [of _ tr])
    with assms(2,3) conf tr1 Inl applyRequestConfig_error [OF conf [unfolded Inl]] show ?thesis
      by (auto simp: performRequest_def)
  next
    case (Inr req)
    note again = applyRequestConfig_again [OF traced_documented [OF assms(1)] assms(2) conf [unfolded Inr]]
    then have the: "well_formed_config c cfg1" "the_request (traced_http env) c mthd uri cfg1 req"
      unfolding the_request_def by blast+
    have unique: "alike q req" if "the_request (traced_http env) c mthd uri cfg q" for q
      using that [unfolded the_request_def, rule_format, of "(w, tr)"] conf Inr by simp
    obtain rep e w2 where send: "he_send env (hc_FollowRedirectsValue c) (req @ [SetTimeout (hc_TimeoutValue c)]) w1
        = ((rep, e), w2)" by (metis surj_pair)
    obtain d w3 where ctx: "he_ctx env w2 = (d, w3)" by fastforce
    have run: "cfg' = cfg1"
      "tr' = tr @ [((hc_FollowRedirectsValue c, req @ [SetTimeout (hc_TimeoutValue c)]), rep, e)]"
      "(resp, err) = (case d of Some y \<Rightarrow> (None, Some y) | None \<Rightarrow> outcome_of rep e)"
      using assms(3) conf Inr tr1 send ctx
      by (auto simp: performRequest_def Let_def outcome_of_def response_of_def split: option.splits)
    have "context_error y" if "d = Some y" for y
      using assms(1) ctx that by (auto simp: http_documented_def ctx_documented_def)
    with run(3) have "(resp, err) = outcome_of rep e \<or> resp = None \<and> (\<exists>y. err = Some y \<and> context_error y)"
      by (cases d) auto
    with run(1,2) the unique show ?thesis by blast
  qed
qed

definition worth_retry :: "reply \<Rightarrow> bool" where
  "worth_retry rep \<longleftrightarrow> rp_StatusCode rep \<in> {500..599} \<or> rp_StatusCode rep = 429 \<or> rp_StatusCode rep \<le> 0"

lemma retry_response_worth:
  assumes "retry_response env (fst (outcome_of rep e)) (snd (outcome_of rep e))"
  shows "worth_retry rep"
proof -
  obtain v err where "outcome_of rep e = (v, err)" by fastforce
  with assms outcome_of_response [of rep e] show ?thesis
    by (auto simp: retry_response_def worth_retry_def should_retry_iff response_of_def Let_def)
qed

lemma retry_response_context:
  "context_error x \<Longrightarrow> \<not> retry_response env v (Some x)"
  by (auto simp: retry_response_def context_error_def should_retry_iff Let_def)

text \<open>What holds between two requests of a run, and after a request with the result \<open>r\<close>.\<close>

definition same_request :: "'w http_env \<Rightarrow> http_config \<Rightarrow> string \<Rightarrow> string \<Rightarrow> request_config \<Rightarrow> exchange list \<Rightarrow> bool" where
  "same_request env c mthd uri cfg tr \<longleftrightarrow> tr = [] \<or>
     (\<exists>q. the_request env c mthd uri cfg q
        \<and> (\<forall>x \<in> set tr. \<exists>req. fst x = (hc_FollowRedirectsValue c, req @ [SetTimeout (hc_TimeoutValue c)]) \<and> alike q req))"

definition between_requests where
  "between_requests env c mthd uri n = (\<lambda>(cfg, w, tr).
     length tr \<le> n \<and> well_formed_config c cfg \<and> same_request (traced_http env) c mthd uri cfg tr
     \<and> (\<forall>x \<in> set tr. worth_retry (fst (snd x))))"

definition after_request where
  "after_request env c mthd uri n r = (\<lambda>(cfg, w, tr).
     length tr \<le> n \<and> well_formed_config c cfg \<and> same_request (traced_http env) c mthd uri cfg tr
     \<and> (\<forall>x \<in> set (butlast tr). worth_retry (fst (snd x)))
     \<and> (tr = [] \<and> fst r = None \<and> snd r \<noteq> None
        \<or> tr \<noteq> [] \<and> (r = outcome_of (fst (snd (last tr))) (snd (snd (last tr)))
                     \<or> fst r = None \<and> (\<exists>x. snd r = Some x \<and> context_error x))))"

lemma request_step:
  assumes "http_documented env" "between_requests env c mthd uri n s"
    and "performRequest (traced_http env) c mthd uri s = (r, s')"
  shows "after_request env c mthd uri (Suc n) r s'"
proof -
  obtain cfg w tr resp err cfg' w' tr' where s: "s = (cfg, w, tr)" "r = (resp, err)" "s' = (cfg', w', tr')"
    by (metis surj_pair)
  have wf: "well_formed_config c cfg" using assms(2) s by (simp add: between_requests_def)
  note step = performRequest_traced [OF assms(1) wf, of mthd uri w tr resp err cfg' w' tr'] 
  from step assms(3) s have wf': "well_formed_config c cfg'" by simp
  from step assms(3) s
  consider (refused) "tr' = tr" "resp = None" "err \<noteq> None" "\<And>q. \<not> the_request (traced_http env) c mthd uri cfg q"
    | (sent) req rep e where "tr' = tr @ [((hc_FollowRedirectsValue c, req @ [SetTimeout (hc_TimeoutValue c)]), rep, e)]"
        "the_request (traced_http env) c mthd uri cfg' req"
        "\<And>q. the_request (traced_http env) c mthd uri cfg q \<Longrightarrow> alike q req"
        "(resp, err) = outcome_of rep e \<or> resp = None \<and> (\<exists>x. err = Some x \<and> context_error x)"
    by blast
  then show ?thesis
  proof cases
    case refused
    then have "tr = []" using assms(2) s by (auto simp: between_requests_def same_request_def)
    with refused s wf' assms(2) show ?thesis by (auto simp: after_request_def between_requests_def same_request_def)
  next
    case sent
    have old: "\<exists>req'. fst x = (hc_FollowRedirectsValue c, req' @ [SetTimeout (hc_TimeoutValue c)]) \<and> alike req req'"
      if x: "x \<in> set tr" for x
    proof -
      from x assms(2) s obtain q req' where "the_request (traced_http env) c mthd uri cfg q" "alike q req'"
        and fst: "fst x = (hc_FollowRedirectsValue c, req' @ [SetTimeout (hc_TimeoutValue c)])"
        unfolding between_requests_def same_request_def by auto
      with sent(3) have "alike req req'" by (meson alike_sym alike_trans)
      with fst show ?thesis by blast
    qed
    have "same_request (traced_http env) c mthd uri cfg' tr'"
      unfolding same_request_def using sent(2) old sent(1) by (intro disjI2 exI [of _ req]) auto
    with sent(1,4) assms(2) s wf' show ?thesis by (auto simp: after_request_def between_requests_def)
  qed
qed

lemma retried_step:
  assumes "after_request env c mthd uri n (v, e) s" "retry_response (traced_http env) v e"
  shows "between_requests env c mthd uri n s"
proof -
  obtain cfg w tr where s: "s = (cfg, w, tr)" by (metis surj_pair)
  have "\<forall>x \<in> set tr. worth_retry (fst (snd x))"
  proof (cases "tr = []")
    case False
    with assms s have "(v, e) = outcome_of (fst (snd (last tr))) (snd (snd (last tr)))"
      using retry_response_context by (auto simp: after_request_def)
    with assms(2) have "worth_retry (fst (snd (last tr)))" by (metis fst_conv snd_conv retry_response_worth)
    with assms(1) s set_butlast_last [OF False] show ?thesis by (auto simp: after_request_def)
  qed simp
  with assms(1) s show ?thesis by (simp add: after_request_def between_requests_def)
qed

lemma executeRequest_traced:
  assumes "http_documented env" "well_formed_config c cfg" "executeRequest (traced_http env) c mthd uri (cfg, w, []) = (r, s')"
  shows "\<exists>k. int k \<le> (if hc_RetryPolicyValue c \<noteq> None \<and> ShouldRetryMethod mthd (hc_RetryPolicyValue c)
                       \<and> retries (hc_RetryPolicyValue c)
                    then MaxAttemptsValue (the (hc_RetryPolicyValue c)) else 1)
             \<and> after_request env c mthd uri k r s'"
proof (cases "hc_RetryPolicyValue c \<noteq> None \<and> ShouldRetryMethod mthd (hc_RetryPolicyValue c)")
  case True
  let ?env = "http_retry_env (traced_http env) c mthd uri"
  have "\<exists>k. int k \<le> (if retries (hc_RetryPolicyValue c) then MaxAttemptsValue (the (hc_RetryPolicyValue c)) else 1)
             \<and> after_request env c mthd uri k r s'"
  proof (rule DoWithCondition_rule [where I = "between_requests env c mthd uri" and Q = "after_request env c mthd uri"
        and env = ?env and zero = None and c = "retry_response (traced_http env)"])
    show "DoWithCondition (he_float (traced_http env)) ?env None (hc_RetryPolicyValue c) (retry_response (traced_http env))
        (cfg, w, []) = (r, s')"
      using assms(3) True by (simp add: executeRequest_def)
  next
    fix n s r s' assume "between_requests env c mthd uri n s" "re_op ?env s = (r, s')"
    then show "after_request env c mthd uri (Suc n) r s'"
      using request_step [OF assms(1)] by (simp add: http_retry_env_def)
  next
    fix n s x s' assume "between_requests env c mthd uri n s" "re_ctx ?env s = (Some x, s')"
    then show "after_request env c mthd uri n (None, Some x) s'"
      using assms(1)
      by (auto simp: http_retry_env_def between_requests_def after_request_def http_documented_def ctx_documented_def
          split: prod.splits dest: in_set_butlastD)
  next
    fix n s v e assume "after_request env c mthd uri n (v, e) s" "retry_response (traced_http env) v e"
    then show "between_requests env c mthd uri n s" by (rule retried_step)
  qed (use assms(2) in \<open>auto simp: http_retry_env_def between_requests_def after_request_def same_request_def split: prod.splits\<close>)
  with True show ?thesis by simp
next
  case False
  have "between_requests env c mthd uri 0 (cfg, w, [])"
    using assms(2) by (simp add: between_requests_def same_request_def)
  moreover from assms(3) False have "performRequest (traced_http env) c mthd uri (cfg, w, []) = (r, s')"
    by (auto simp: executeRequest_def)
  ultimately have "after_request env c mthd uri (Suc 0) r s'" by (rule request_step [OF assms(1)])
  with False show ?thesis by (auto intro!: exI [of _ 1])
qed

text \<open>
  A form that has been built once is never built again: fields and files that are added afterwards are not sent.
\<close>

lemma form_changes_after_build_lost:
  assumes "form_build escape b ordered f = (r, f1)"
  shows "fst (form_build escape b' ordered' (AddField name v f1)) = r"
    and "fst (form_build escape b' ordered' (snd (AddFile fieldName fileName contentType body f1))) = r"
proof -
  from form_build_again [OF assms, of b ordered] have "fd_built f1" "r = (fd_cachedBody f1, fd_cachedContentType f1)"
    by (auto simp: form_build_def)
  then show "fst (form_build escape b' ordered' (AddField name v f1)) = r"
    and "fst (form_build escape b' ordered' (snd (AddFile fieldName fileName contentType body f1))) = r"
    by (simp_all add: form_build_def AddField_def AddFile_def split: sum.split)
qed

text \<open>The options of the package keep the lists of a request's configuration maps.\<close>

lemma options_keep_maps:
  fixes cfg :: request_config
  assumes "distinct (map fst (rc_Headers cfg))" "distinct (map fst (rc_QueryParams cfg))"
    and "opt \<in> range WithBody \<union> range WithJsonBody \<union> range WithFormData \<union> range (case_prod WithHeader) \<union> range WithHeaders
      \<union> range (case_prod WithQueryParam) \<union> range WithQueryParams"
  shows "distinct (map fst (rc_Headers (opt cfg))) \<and> distinct (map fst (rc_QueryParams (opt cfg)))"
proof -
  have kept: "distinct (map fst (add_values key vs hs))" if "distinct (map fst hs)" for key vs hs
    using that by (simp add: add_values_def distinct_update)
  have "distinct (map fst (fold (\<lambda>(key, vs). add_values key vs) hs hs'))" if "distinct (map fst hs')" for hs hs'
    using that by (induction hs arbitrary: hs') (auto simp: kept)
  moreover have "distinct (map fst (fold (\<lambda>(key, v). AList.update key v) ps ps'))" if "distinct (map fst ps')"
    for ps ps' :: "(string \<times> string) list"
    using that by (induction ps arbitrary: ps') (auto simp: distinct_update)
  ultimately show ?thesis
    using assms kept
    by (auto simp: WithBody_def WithJsonBody_def WithFormData_def WithHeader_def WithHeaders_def WithQueryParam_def
        WithQueryParams_def distinct_update split: sum.split)
qed

text \<open>A request that can never be built is tried as often as one that failed on the way.\<close>

lemma unbuildable_request_retried:
  "retry_response env None (Some (Atom (InHttpClient ErrBothFormDataAndBody)))"
  "retry_response env None (Some (Atom (InHttpClient ErrInvalidFormDataType)))"
  by (simp_all add: retry_response_def should_retry_iff)

section \<open>Properties\<close>

text \<open>C21: a request through the client, with retries and a circuit breaker or without. It is sent at most as
  often as the retry policy allows, once for a method that is not to be retried; it is sent again only after a status
  5xx or 429 or an exchange without a status. What is sent again is the same request, although the ranges over the maps
  of headers and of parameters take an order of their own at each attempt: every header and every parameter has the
  same values in the same order, and the address, the method, the body and the time limit are the same. The response
  and the error returned are those of the last exchange; without a response there is an error. The error
  is nil only for a status 2xx.\<close>

theorem http_do_exchanges:
  assumes "http_documented env" and "well_formed_config c (applyOptions opts)"
    and "http_Do (traced_http env) c cb mthd uri opts (b, w, []) = ((resp, err), cfg', b', w', tr)"
  shows "int (length tr) \<le> (if ShouldRetryMethod mthd (hc_RetryPolicyValue c) \<and> retries (hc_RetryPolicyValue c)
                            then MaxAttemptsValue (the (hc_RetryPolicyValue c)) else 1)
    \<and> (\<exists>q. \<forall>x \<in> set tr. fst (fst x) = hc_FollowRedirectsValue c \<and> alike q (snd (fst x)))
    \<and> (\<forall>x \<in> set (butlast tr). worth_retry (fst (snd x)))
    \<and> (resp = None \<longrightarrow> err \<noteq> None)
    \<and> (resp \<noteq> None \<longrightarrow> tr \<noteq> [] \<and> (resp, err) = outcome_of (fst (snd (last tr))) (snd (snd (last tr))))
    \<and> (err = None \<longrightarrow> (\<exists>r. resp = Some r \<and> ht_StatusCode r \<in> {200..299}))"
proof -
  let ?limit = "if ShouldRetryMethod mthd (hc_RetryPolicyValue c) \<and> retries (hc_RetryPolicyValue c)
                then MaxAttemptsValue (the (hc_RetryPolicyValue c)) else 1"
  have pos: "0 \<le> ?limit" by (auto simp: retries_def split: option.splits)
  have limit: "?limit = (if hc_RetryPolicyValue c \<noteq> None \<and> ShouldRetryMethod mthd (hc_RetryPolicyValue c)
      \<and> retries (hc_RetryPolicyValue c) then MaxAttemptsValue (the (hc_RetryPolicyValue c)) else 1)"
    by (auto simp: retries_def)
  have run: "\<exists>k. int k \<le> ?limit \<and> after_request env c mthd uri k (resp, err) (cfg', w', tr)"
  proof (cases cb)
    case None
    with assms(3) have "executeRequest (traced_http env) c mthd uri (applyOptions opts, w, [])
        = ((resp, err), cfg', w', tr)" by (auto simp: http_Do_def Let_def split: prod.splits)
    from executeRequest_traced [OF assms(1,2) this] show ?thesis unfolding limit .
  next
    case (Some breaker)
    with assms(3) have "cb_Execute (Some breaker)
        (\<lambda>(response, s). case executeRequest (traced_http env) c mthd uri s of ((r, execErr), s1) \<Rightarrow> (execErr, r, s1))
        (b, None, applyOptions opts, w, []) = (err, b', resp, cfg', w', tr)"
      by (auto simp: http_Do_def Let_def split: prod.splits)
    from guarded_call.exec_law [OF this] show ?thesis
    proof
      assume "err \<noteq> None \<and> (resp, cfg', w', tr) = (None, applyOptions opts, w, [])"
      then have "after_request env c mthd uri 0 (resp, err) (cfg', w', tr)"
        using assms(2) by (auto simp: after_request_def same_request_def)
      with pos show ?thesis by (auto intro!: exI [of _ 0])
    next
      assume "(case (None, applyOptions opts, w, []) of (response, s) \<Rightarrow>
          case executeRequest (traced_http env) c mthd uri s of ((r, execErr), s1) \<Rightarrow> (execErr, r, s1))
        = (err, resp, cfg', w', tr)"
      then have "executeRequest (traced_http env) c mthd uri (applyOptions opts, w, [])
          = ((resp, err), cfg', w', tr)" by (auto split: prod.splits)
      from executeRequest_traced [OF assms(1,2) this] show ?thesis unfolding limit .
    qed
  qed
  then obtain k where k: "int k \<le> ?limit" "after_request env c mthd uri k (resp, err) (cfg', w', tr)" by blast
  from k(2) have outcome: "resp \<noteq> None \<longrightarrow> tr \<noteq> [] \<and> (resp, err) = outcome_of (fst (snd (last tr))) (snd (snd (last tr)))"
    "resp = None \<longrightarrow> err \<noteq> None"
    using outcome_of_response by (auto simp: after_request_def) (metis fst_conv option.distinct(1))
  moreover have "\<exists>r. resp = Some r \<and> ht_StatusCode r \<in> {200..299}" if "err = None"
    using outcome that outcome_of_response [of "fst (snd (last tr))"]
    by (cases resp) (auto dest!: outcome_of_ok [OF sym])
  moreover have "\<exists>q. \<forall>x \<in> set tr. fst (fst x) = hc_FollowRedirectsValue c \<and> alike q (snd (fst x))"
  proof (cases "tr = []")
    case False
    with k(2) obtain q where q: "\<forall>x \<in> set tr. \<exists>req. fst x = (hc_FollowRedirectsValue c, req @ [SetTimeout (hc_TimeoutValue c)]) \<and> alike q req"
      by (auto simp: after_request_def same_request_def)
    then have "\<forall>x \<in> set tr. fst (fst x) = hc_FollowRedirectsValue c \<and> alike (q @ [SetTimeout (hc_TimeoutValue c)]) (snd (fst x))"
      by (metis alike_append alike_refl fst_conv snd_conv)
    then show ?thesis by blast
  qed simp
  ultimately show ?thesis using k by (fastforce simp: after_request_def)
qed

text \<open>A server that is busy for the first request and answers the others; ranges after the first exchange run backwards.\<close>

definition example_http :: "nat http_env" where
  "example_http =
     \<lparr>he_float = plain_float, he_escape = (\<lambda>s. s), he_boundary = (\<lambda>n. (''b'', n)),
      he_headerOrder = (\<lambda>m n. (if n = 0 then m else rev m, n)), he_paramOrder = (\<lambda>m n. (if n = 0 then m else rev m, n)),
      he_contentType = (\<lambda>req. []),
      he_requestId = None,
      he_send = (\<lambda>follow req n.
        ((\<lparr>rp_StatusCode = (if n = 0 then 503 else 200), rp_Header = [], rp_Body = ''ok'',
           rp_BodyStream = \<lparr>rd_bytes = [], rd_fault = None\<rparr>\<rparr>, None), n + 1)),
      he_ctx = (\<lambda>n. (None, n)), he_wait = (\<lambda>d n. (False, n)), he_timeout = (\<lambda>e. False), he_opError = (\<lambda>e. False)\<rparr>"

definition example_http_config :: http_config where
  "example_http_config =
     \<lparr>hc_BaseUrlValue = ''http://h'', hc_InsecureSkipVerifyValue = False, hc_TimeoutValue = 0, hc_BaseHeadersValue = [],
      hc_UseRequestIdValue = False, hc_NameValue = [], hc_MaxConnsPerHostValue = 0, hc_MaxIdleConnDurationValue = 0,
      hc_ReadTimeoutValue = None, hc_WriteTimeoutValue = None, hc_MaxConnWaitTimeoutValue = 0,
      hc_RetryPolicyValue = Some (NewPolicy [WithEnabled True]), hc_ReadBufferSizeValue = 0,
      hc_WriteBufferSizeValue = 0, hc_MaxResponseBodySizeValue = 0, hc_MaxConnDurationValue = 0,
      hc_StreamResponseBodyValue = False, hc_FollowRedirectsValue = False, hc_TLSMinVersionValue = 0,
      hc_TLSMaxVersionValue = 0, hc_TLSServerNameValue = [], hc_TLSRootCAFileValue = [],
      hc_TLSClientCertFileValue = [], hc_TLSClientKeyFileValue = [], hc_CircuitBreakerValue = None\<rparr>"

abbreviation example_headers :: "request_option option list" where
  "example_headers \<equiv> [Some (WithHeader ''A'' ''1''), Some (WithHeader ''B'' ''2'')]"

lemma example_headers_config:
  "applyOptions example_headers
     = \<lparr>rc_QueryParams = [], rc_Headers = [(''A'', [''1'']), (''B'', [''2''])], rc_Body = [], rc_FormData = None\<rparr>"
  by (simp add: applyOptions_def apply_each_def WithHeader_def add_values_def)

lemma example_http_run:
  "\<exists>cfg x y. http_Do (traced_http example_http) example_http_config None ''GET'' ''/x'' example_headers ((), 0, [])
     = ((Some \<lparr>ht_StatusCode = 200, ht_Headers = [], ht_Body = ''ok''\<rparr>, None), cfg, (), 2, [x, y])
     \<and> snd (fst x) = [SetRequestURI ''http://h/x'', SetMethod ''GET'', HeaderAdd ''A'' ''1'', HeaderAdd ''B'' ''2'', SetTimeout 0]
     \<and> snd (fst y) = [SetRequestURI ''http://h/x'', SetMethod ''GET'', HeaderAdd ''B'' ''2'', HeaderAdd ''A'' ''1'', SetTimeout 0]"
proof -
  have get: "ShouldRetryMethod ''GET'' p" for p
    by (simp add: ShouldRetryMethod_def IsIdempotentMethod_def ToUpper_def upper_char_def idempotentMethods_def)
  show ?thesis
    unfolding http_Do_def example_headers_config
    by (simp add: executeRequest_def get DoWithCondition_def http_retry_env_def performRequest_def makeUrl_def
        applyRequestConfig_def config_calls_def handleStatusCode_def retry_response_def ShouldRetry_def
        NewPolicy_def WithEnabled_def collect_headers_def header_calls_def example_http_def
        example_http_config_def Let_def eval_nat_numeral)
qed

lemma example_http_documented: "http_documented example_http"
  by (auto simp: http_documented_def ranges_documented_def content_type_documented_def ctx_documented_def example_http_def
      rev_map [symmetric])

theorem http_do_exchanges_witness:
  "\<exists>resp err cfg w x y. http_Do (traced_http example_http) example_http_config None ''GET'' ''/x'' example_headers ((), 0, [])
     = ((resp, err), cfg, (), w, [x, y]) \<and> snd (fst x) \<noteq> snd (fst y) \<and> (\<exists>q. alike q (snd (fst x)) \<and> alike q (snd (fst y)))
     \<and> worth_retry (fst (snd x))"
proof -
  obtain cfg x y where run: "http_Do (traced_http example_http) example_http_config None ''GET'' ''/x'' example_headers ((), 0, [])
     = ((Some \<lparr>ht_StatusCode = 200, ht_Headers = [], ht_Body = ''ok''\<rparr>, None), cfg, (), 2, [x, y])"
    and sent: "snd (fst x) \<noteq> snd (fst y)"
    using example_http_run by fastforce
  have "well_formed_config example_http_config (applyOptions example_headers)"
    unfolding example_headers_config
    by (simp add: well_formed_config_def example_http_config_def ToUpper_def upper_char_def)
  from http_do_exchanges [OF example_http_documented this run] run sent show ?thesis by auto
qed

text \<open>A breaker with the default filter counts a response of the client as a success exactly for 2xx
  and 4xx statuses, and for any other status whose body happens to hold the text of a 4xx error.\<close>

lemma breaker_counts_statuses:
  assumes "NewHttpCircuitBreaker text mk config None = Gobreaker st gb" "100 \<le> s" "s \<le> 999"
  shows "bs_IsSuccessful st (snd (handleStatusCode \<lparr>ht_StatusCode = s, ht_Headers = hs, ht_Body = body\<rparr>))
    \<longleftrightarrow> s \<in> {200..299} \<or> s \<in> {400..499}
      \<or> (\<exists>code \<in> {400..499}. strings_Contains body (non200 code))"
proof -
  have st: "bs_IsSuccessful st err = (err = None \<or> ShouldIgnoreErrorForCircuitBreaker text err)" for err
    using assms(1)
    by (auto simp: NewHttpCircuitBreaker_def NewBreaker_def newSettings_def ShouldIgnoreErrorForCircuitBreaker_def
        split: if_splits option.splits)
  have found: "(\<exists>code \<in> {400..499}. strings_Contains (with_body (non200 s) body) (non200 code))
      \<longleftrightarrow> s \<in> {400..499} \<or> (\<exists>code \<in> {400..499}. strings_Contains body (non200 code))"
  proof (cases "body = []")
    case True
    then show ?thesis using contains_non200(2) [OF assms(2,3)] by (auto simp: with_body_def non200_def)
  next
    case False
    then show ?thesis using contains_non200(1) [OF assms(2,3), of _ body] by (auto simp: with_body_def)
  qed
  show ?thesis
    unfolding st using found
    by (auto simp: handleStatusCode_def Let_def ignored_iff error_text_def)
qed

definition quiet_gobreaker :: "(unit, unit) gobreaker" where
  "quiet_gobreaker = \<lparr>gb_allow = (\<lambda>b w. (None, b)), gb_done = (\<lambda>ok b w. b)\<rparr>"

definition example_breaker_config :: breaker_config where
  "example_breaker_config =
     \<lparr>bc_EnabledValue = True, bc_NameValue = ''http'', bc_MaxRequestsValue = 1, bc_IntervalValue = 0,
      bc_TimeoutValue = 0, bc_ConsecutiveFailuresValue = 0, bc_BucketPeriodValue = 0\<rparr>"

lemma breaker_counts_statuses_witness:
  "\<exists>st gb. NewHttpCircuitBreaker (\<lambda>a. []) (\<lambda>st. quiet_gobreaker) example_breaker_config None = Gobreaker st gb
     \<and> bs_IsSuccessful st (snd (handleStatusCode \<lparr>ht_StatusCode = 503, ht_Headers = [],
                                   ht_Body = ''upstream: non-200 http status code: 404''\<rparr>))
     \<and> \<not> bs_IsSuccessful st (snd (handleStatusCode \<lparr>ht_StatusCode = 503, ht_Headers = [], ht_Body = []\<rparr>))"
proof -
  obtain st gb where br: "NewHttpCircuitBreaker (\<lambda>a. []) (\<lambda>st. quiet_gobreaker) example_breaker_config None = Gobreaker st gb"
    by (simp add: NewHttpCircuitBreaker_def NewBreaker_def example_breaker_config_def)
  have "strings_Contains ''upstream: non-200 http status code: 404'' (non200 404)" by code_simp
  moreover have "\<not> strings_Contains [] (non200 code)" for code by (simp add: non200_def)
  ultimately show ?thesis
    using br breaker_counts_statuses [OF br, of 503 "[]"] by force
qed

section \<open>No response without an error\<close>

lemma performRequest_answers: "fst (performRequest env c m uri s) \<noteq> (None, None)"
  by (auto simp: performRequest_def handleStatusCode_def Let_def split: result_splits)

lemma do_cond_loop_answers:
  assumes "\<And>w. fst (re_op env w) \<noteq> (None, None)" "prev \<noteq> (None, None) \<or> 0 < left"
  shows "fst (do_cond_loop fl env None pol c left n prev w) \<noteq> (None, None)"
  using assms(2)
proof (induction left arbitrary: n prev w)
  case (Suc left)
  obtain e w1 where ctx: "re_ctx env w = (e, w1)" by fastforce
  obtain res w2 where op: "re_op env w1 = (res, w2)" by fastforce
  with assms(1) [of w1] have "res \<noteq> (None, None)" by simp
  with Suc ctx op show ?case by (auto split: result_splits bool.splits)
qed simp

lemma executeRequest_answers: "fst (executeRequest env c m uri s) \<noteq> (None, None)"
proof -
  have op: "fst (re_op (http_retry_env env c m uri) w) \<noteq> (None, None)" for w
    by (simp add: http_retry_env_def performRequest_answers)
  show ?thesis
    using do_cond_loop_answers [OF op]
    by (auto simp: executeRequest_def DoWithCondition_def performRequest_answers op split: option.split)
qed

text \<open>Under every breaker a request has a response or an error, so that no client dereferences a nil response.\<close>

lemma http_Do_answers: "fst (http_Do env c cb m uri opts (b, w)) \<noteq> (None, None)"
proof (cases cb)
  case (Some breaker)
  let ?fn = "\<lambda>(response, s). case executeRequest env c m uri s of ((r, execErr), s1) \<Rightarrow> (execErr, r, s1)"
  obtain err b1 response cfg1 w1 where
    run: "cb_Execute (Some breaker) ?fn (b, None, applyOptions opts, w) = (err, b1, response, cfg1, w1)"
    by (metis surj_pair)
  have "(response, err) \<noteq> (None, None)"
    using guarded_call.exec_law [OF run] executeRequest_answers [of env c m uri "(applyOptions opts, w)"]
    by (auto split: prod.splits)
  with run Some show ?thesis by (simp add: http_Do_def)
next
  case None
  with executeRequest_answers [of env c m uri "(applyOptions opts, w)"] show ?thesis
    by (auto simp: http_Do_def split: prod.split)
qed

end
