(* ===== verification/Kafka_Client.thy ===== *)
theory Kafka_Client
  imports Retries Breakers
begin

text \<open>
  Package \<^verbatim>\<open>kafka\<close>, first part: configuration and its checks (\<^verbatim>\<open>config.go\<close>), options
  (\<^verbatim>\<open>options.go\<close>, \<^verbatim>\<open>producer_options.go\<close>), the circuit breaker's error filter
  (\<^verbatim>\<open>errors_filter.go\<close>), connecting, and the producer (\<^verbatim>\<open>producer.go\<close>) with its health check
  (\<^verbatim>\<open>healthcheck.go\<close>).

  The client library \<^verbatim>\<open>franz-go\<close> is third-party: the options that configure it are a list of values
  (\<open>kgo_opt\<close>), its calls are functions on the world \<open>'w\<close>. A service keeps one field, its client, which is
  there or not; the state of a service is \<open>(connected, world)\<close>. A method under the mutex is one step.
\<close>

section \<open>Configuration\<close>

record sasl_config =
  sc_Mechanism :: string
  sc_Username :: string
  sc_Password :: string

record kafka_tls =
  kt_Enabled :: bool
  kt_CAFile :: string
  kt_CertFile :: string
  kt_KeyFile :: string

record kafka_config =
  kc_Brokers :: "string list"
  kc_Topic :: string
  kc_RetryPolicy :: "policy option"
  kc_SASL :: "sasl_config option"
  kc_TLS :: "kafka_tls option"
  kc_CircuitBreaker :: "breaker_config option"
  kc_ConnectTimeoutValue :: int

record consumer_config = kafka_config +
  kc_GroupID :: string
  kc_AutoCommit :: bool
  kc_MaxProcessingAttempts :: int

definition kc_ConnectTimeout :: "'a kafka_config_scheme \<Rightarrow> int" where
  "kc_ConnectTimeout c = (if kc_ConnectTimeoutValue c \<le> 0 then 5 * second else kc_ConnectTimeoutValue c)"

definition validateConfig :: "'a kafka_config_scheme \<Rightarrow> go_error option" where
  "validateConfig c =
     (if kc_Brokers c = [] then Some (Atom (InKafka ErrNoBrokers))
      else if kc_Topic c = [] then Some (Atom (InKafka ErrNoTopic))
      else None)"

definition validateConsumerConfig :: "consumer_config \<Rightarrow> go_error option" where
  "validateConsumerConfig c =
     (case validateConfig c of
        Some e \<Rightarrow> Some e
      | None \<Rightarrow> if kc_GroupID c = [] then Some (Atom (InKafka ErrNoGroupID)) else None)"

datatype sasl_mechanism = Plain string string | Sha256 string string | Sha512 string string

definition buildSASLMechanism :: "sasl_config \<Rightarrow> go_error + sasl_mechanism" where
  "buildSASLMechanism c =
     (if sc_Mechanism c = ''PLAIN'' then Inr (Plain (sc_Username c) (sc_Password c))
      else if sc_Mechanism c = ''SCRAM-SHA-256'' then Inr (Sha256 (sc_Username c) (sc_Password c))
      else if sc_Mechanism c = ''SCRAM-SHA-512'' then Inr (Sha512 (sc_Username c) (sc_Password c))
      else Inl (Wrap (''unsupported SASL mechanism: '' @ sc_Mechanism c) [Atom (InKafka ErrSASLConfig)]))"

text \<open>Reading files and parsing certificates; a file that has been read stands for the pool made of it.\<close>

record 'cert kafka_files =
  kf_ReadFile :: "string \<Rightarrow> go_error + byte list"
  kf_IsPEM :: "byte list \<Rightarrow> bool"
  kf_LoadX509KeyPair :: "string \<Rightarrow> string \<Rightarrow> go_error + 'cert"

record 'cert kafka_tls_config =
  kx_MinVersion :: "16 word"
  kx_RootCAs :: "byte list option"
  kx_Certificates :: "'cert list"

abbreviation kafka_tls_failed :: "string \<Rightarrow> go_error list \<Rightarrow> go_error" where
  "kafka_tls_failed msg es \<equiv> Wrap msg (Atom (InKafka ErrKafkaTLSConfig) # es)"

definition buildTLSConfig :: "'cert kafka_files \<Rightarrow> kafka_tls \<Rightarrow> go_error + 'cert kafka_tls_config" where
  "buildTLSConfig kf c =
     (case (if kt_CAFile c = [] then Inr None
            else (case kf_ReadFile kf (kt_CAFile c) of
                    Inl e \<Rightarrow> Inl (kafka_tls_failed ''failed to read CA file'' [e])
                  | Inr caCert \<Rightarrow> if \<not> kf_IsPEM kf caCert then Inl (kafka_tls_failed ''failed to parse CA certificate'' [])
                                 else Inr (Some caCert))) of
        Inl e \<Rightarrow> Inl e
      | Inr roots \<Rightarrow>
          (let hasCert = kt_CertFile c \<noteq> []; hasKey = kt_KeyFile c \<noteq> []
           in if hasCert \<noteq> hasKey
              then Inl (kafka_tls_failed ''both cert_file and key_file must be provided together'' [])
              else if hasCert \<and> hasKey
              then (case kf_LoadX509KeyPair kf (kt_CertFile c) (kt_KeyFile c) of
                      Inl e \<Rightarrow> Inl (kafka_tls_failed ''failed to load client certificate'' [e])
                    | Inr cert \<Rightarrow> Inr \<lparr>kx_MinVersion = 0x0303, kx_RootCAs = roots, kx_Certificates = [cert]\<rparr>)
              else Inr \<lparr>kx_MinVersion = 0x0303, kx_RootCAs = roots, kx_Certificates = []\<rparr>))"

datatype 'cert kgo_opt =
    SeedBrokers "string list"
  | SASL sasl_mechanism
  | DialTLSConfig "'cert kafka_tls_config"
  | ConsumeTopics string
  | ConsumerGroup string
  | DisableAutoCommit
  | DefaultProduceTopic string

definition buildKgoOpts :: "'cert kafka_files \<Rightarrow> 'a kafka_config_scheme \<Rightarrow> go_error + 'cert kgo_opt list" where
  "buildKgoOpts kf c =
     (case (case kc_SASL c of
              None \<Rightarrow> Inr []
            | Some sasl \<Rightarrow> (case buildSASLMechanism sasl of Inl e \<Rightarrow> Inl e | Inr m \<Rightarrow> Inr [SASL m])) of
        Inl e \<Rightarrow> Inl e
      | Inr saslOpts \<Rightarrow>
          (case kc_TLS c of
             None \<Rightarrow> Inr (SeedBrokers (kc_Brokers c) # saslOpts)
           | Some tls \<Rightarrow>
               if kt_Enabled tls
               then (case buildTLSConfig kf tls of
                       Inl e \<Rightarrow> Inl e
                     | Inr t \<Rightarrow> Inr (SeedBrokers (kc_Brokers c) # saslOpts @ [DialTLSConfig t]))
               else Inr (SeedBrokers (kc_Brokers c) # saslOpts)))"

section \<open>The circuit breaker's error filter\<close>

definition kafka_ShouldIgnoreError :: "go_error option \<Rightarrow> bool" where
  "kafka_ShouldIgnoreError err =
     (case err of
        None \<Rightarrow> False
      | Some e \<Rightarrow>
          if err_is e ContextCanceled then True
          else if err_is e (InKafka SaslAuthenticationFailed) then True
          else if err_is e (InKafka TopicAuthorizationFailed) \<or> err_is e (InKafka GroupAuthorizationFailed)
                  \<or> err_is e (InKafka ClusterAuthorizationFailed) then True
          else False)"

definition NewKafkaCircuitBreaker ::
  "(breaker_settings \<Rightarrow> ('b, 'w) gobreaker) \<Rightarrow> breaker_config \<Rightarrow> (go_error \<Rightarrow> bool) option \<Rightarrow> ('b, 'w) circuit_breaker" where
  "NewKafkaCircuitBreaker mk config shouldIgnoreError =
     NewBreaker mk config
       (Some (case shouldIgnoreError of None \<Rightarrow> (\<lambda>e. kafka_ShouldIgnoreError (Some e)) | Some f \<Rightarrow> f))"

section \<open>Connecting\<close>

text \<open>The calls of the client library that consumers and producers share.\<close>

record ('cert, 'w) kgo_env =
  kg_NewClient :: "'cert kgo_opt list \<Rightarrow> 'w \<Rightarrow> go_error option \<times> 'w"
  kg_Ping :: "int option \<Rightarrow> 'w \<Rightarrow> go_error option \<times> 'w"
  kg_Close :: "'w \<Rightarrow> 'w"

type_synonym 'w service = "bool \<times> 'w"

definition connect ::
  "('cert, 'w) kgo_env \<Rightarrow> string \<Rightarrow> 'a kafka_config_scheme \<Rightarrow> go_error + 'cert kgo_opt list
   \<Rightarrow> 'w service \<Rightarrow> go_error option \<times> 'w service" where
  "connect kg what config opts = (\<lambda>(up, w).
     case opts of
       Inl e \<Rightarrow> (Some e, up, w)
     | Inr kgoOpts \<Rightarrow>
         (case kg_NewClient kg kgoOpts w of
            (Some e, w1) \<Rightarrow> (Some (Wrap (''failed to create kafka '' @ what @ '' client'') [e]), up, w1)
          | (None, w1) \<Rightarrow>
              (case kg_Ping kg (Some (kc_ConnectTimeout config)) w1 of
                 (Some e, w2) \<Rightarrow> (Some (Wrap ''failed to ping kafka broker'' [e]), up, kg_Close kg w2)
               | (None, w2) \<Rightarrow> (None, True, w2))))"

definition ensure_connected ::
  "('b, 'w service) circuit_breaker option \<Rightarrow> ('w service \<Rightarrow> go_error option \<times> 'w service)
   \<Rightarrow> 'b \<times> 'w service \<Rightarrow> go_error option \<times> 'b \<times> 'w service" where
  "ensure_connected cb connectFunc = (\<lambda>(b, up, w).
     if up then (None, b, up, w) else cb_Execute cb connectFunc (b, up, w))"

definition IsConnected :: "'w service \<Rightarrow> bool" where
  "IsConnected = fst"

definition kafka_Ping :: "('cert, 'w) kgo_env \<Rightarrow> int option \<Rightarrow> 'w service \<Rightarrow> go_error option \<times> 'w service" where
  "kafka_Ping kg timeout = (\<lambda>(up, w).
     if \<not> up then (Some (Atom (InKafka ErrNotConnected)), up, w)
     else (case kg_Ping kg timeout w of (e, w1) \<Rightarrow> (e, up, w1)))"

definition kafka_Stop :: "('cert, 'w) kgo_env \<Rightarrow> 'w service \<Rightarrow> go_error option \<times> 'w service" where
  "kafka_Stop kg = (\<lambda>(up, w). (None, if up then (False, kg_Close kg w) else (up, w)))"

text \<open>The health check.\<close>

definition kafka_IsOK :: "('cert, 'w) kgo_env \<Rightarrow> int \<Rightarrow> 'w service \<Rightarrow> bool \<times> 'w service" where
  "kafka_IsOK kg timeout s =
     (if \<not> IsConnected s then (True, s)
      else (case kafka_Ping kg (Some timeout) s of (e, s1) \<Rightarrow> (e = None, s1)))"

section \<open>The producer\<close>

record ('b, 'w) common_options =
  co_circuitBreaker :: "('b, 'w service) circuit_breaker option"
  co_retryPolicy :: "policy option"

definition WithProducerCircuitBreaker where
  "WithProducerCircuitBreaker cb cfg = cfg\<lparr>co_circuitBreaker := cb\<rparr>"

definition WithProducerRetryPolicy where
  "WithProducerRetryPolicy p cfg = cfg\<lparr>co_retryPolicy := p\<rparr>"

definition applyProducerOptions :: "(('b, 'w) common_options \<Rightarrow> ('b, 'w) common_options) list \<Rightarrow> ('b, 'w) common_options" where
  "applyProducerOptions opts = fold (\<lambda>opt cfg. opt cfg) opts \<lparr>co_circuitBreaker = None, co_retryPolicy = None\<rparr>"

record ('b, 'w) producer =
  pd_config :: kafka_config
  pd_circuitBreaker :: "('b, 'w service) circuit_breaker option"
  pd_retryPolicy :: "policy option"

definition NewProducer ::
  "(breaker_settings \<Rightarrow> ('b, 'w service) gobreaker) \<Rightarrow> kafka_config
   \<Rightarrow> (('b, 'w) common_options \<Rightarrow> ('b, 'w) common_options) list \<Rightarrow> go_error + ('b, 'w) producer" where
  "NewProducer mk config opts =
     (case validateConfig config of
        Some e \<Rightarrow> Inl e
      | None \<Rightarrow>
          (let options = applyProducerOptions opts
           in Inr \<lparr>pd_config = config,
                   pd_circuitBreaker =
                     (case co_circuitBreaker options of
                        Some cb \<Rightarrow> Some cb
                      | None \<Rightarrow> map_option (\<lambda>bc. NewKafkaCircuitBreaker mk bc None) (kc_CircuitBreaker config)),
                   pd_retryPolicy = (case co_retryPolicy options of Some p \<Rightarrow> Some p | None \<Rightarrow> kc_RetryPolicy config)\<rparr>))"

type_synonym kafka_headers = "(string \<times> byte list) list"

record produce_config =
  pc_Key :: "byte list option"
  pc_Headers :: "kafka_headers option"

definition WithKey :: "byte list option \<Rightarrow> produce_config \<Rightarrow> produce_config" where
  "WithKey key cfg = cfg\<lparr>pc_Key := key\<rparr>"

definition kafka_WithHeaders :: "kafka_headers option \<Rightarrow> produce_config \<Rightarrow> produce_config" where
  "kafka_WithHeaders hs cfg = cfg\<lparr>pc_Headers := hs\<rparr>"

definition applyProduceOptions :: "(produce_config \<Rightarrow> produce_config) list \<Rightarrow> produce_config" where
  "applyProduceOptions opts = fold (\<lambda>opt cfg. opt cfg) opts \<lparr>pc_Key = None, pc_Headers = None\<rparr>"

record kafka_record =
  kr_Key :: "byte list option"
  kr_Topic :: string
  kr_Partition :: int
  kr_Offset :: int
  kr_Timestamp :: int
  kr_Headers :: "kafka_headers option"
  kr_Value :: "byte list"

text \<open>An empty list of headers becomes the nil slice.\<close>

definition convertToKgoHeaders :: "kafka_headers \<Rightarrow> kafka_headers option" where
  "convertToKgoHeaders hs = (if hs = [] then None else Some (map (\<lambda>(k, v). (k, v)) hs))"

definition convertFromKgoHeaders :: "kafka_headers option \<Rightarrow> kafka_headers option" where
  "convertFromKgoHeaders hs =
     (case hs of None \<Rightarrow> None | Some xs \<Rightarrow> if xs = [] then None else Some (map (\<lambda>(k, v). (k, v)) xs))"

definition buildRecord :: "string \<Rightarrow> byte list \<Rightarrow> produce_config \<Rightarrow> kafka_record" where
  "buildRecord topic d cfg =
     \<lparr>kr_Key = pc_Key cfg, kr_Topic = topic, kr_Partition = 0, kr_Offset = 0, kr_Timestamp = 0,
      kr_Headers = (case pc_Headers cfg of None \<Rightarrow> None | Some hs \<Rightarrow> convertToKgoHeaders hs), kr_Value = d\<rparr>"

record ('cert, 'w, 'v) producer_env =
  pe_float :: go_float
  pe_kgo :: "('cert, 'w) kgo_env"
  pe_files :: "'cert kafka_files"
  pe_Encode :: "'v \<Rightarrow> 'w \<Rightarrow> (go_error + byte list) \<times> 'w"
  pe_ProduceSync :: "kafka_record \<Rightarrow> 'w \<Rightarrow> go_error option \<times> 'w"
  pe_ctx :: "'w \<Rightarrow> go_error option \<times> 'w"
  pe_wait :: "int \<Rightarrow> 'w \<Rightarrow> bool \<times> 'w"

definition producer_ensureConnected ::
  "('cert, 'w, 'v) producer_env \<Rightarrow> ('b, 'w) producer \<Rightarrow> 'b \<times> 'w service \<Rightarrow> go_error option \<times> 'b \<times> 'w service" where
  "producer_ensureConnected env pd =
     ensure_connected (pd_circuitBreaker pd)
       (connect (pe_kgo env) ''producer'' (pd_config pd)
          (case buildKgoOpts (pe_files env) (pd_config pd) of
             Inl e \<Rightarrow> Inl e | Inr opts \<Rightarrow> Inr (opts @ [DefaultProduceTopic (kc_Topic (pd_config pd))])))"

text \<open>The client in a local variable of \<open>Produce\<close> is used even when the service has been stopped meanwhile.\<close>

definition produce_env ::
  "('cert, 'w, 'v) producer_env \<Rightarrow> ('b, 'w) producer \<Rightarrow> kafka_record \<Rightarrow> ('b \<times> 'w service, unit) retry_env" where
  "produce_env env pd r =
     \<lparr>re_op = (\<lambda>s. case cb_Execute (pd_circuitBreaker pd)
                         (\<lambda>(up, w). case pe_ProduceSync env r w of (e, w1) \<Rightarrow> (e, up, w1)) s of
                     (e, s1) \<Rightarrow> (((), e), s1)),
      re_ctx = (\<lambda>(b, up, w). case pe_ctx env w of (e, w1) \<Rightarrow> (e, b, up, w1)),
      re_wait = (\<lambda>d (b, up, w). case pe_wait env d w of (x, w1) \<Rightarrow> (x, b, up, w1))\<rparr>"

definition Produce ::
  "('cert, 'w, 'v) producer_env \<Rightarrow> ('b, 'w) producer \<Rightarrow> 'v \<Rightarrow> (produce_config \<Rightarrow> produce_config) list
   \<Rightarrow> 'b \<times> 'w service \<Rightarrow> go_error option \<times> 'b \<times> 'w service" where
  "Produce env pd v opts s =
     (case producer_ensureConnected env pd s of
        (Some e, s1) \<Rightarrow> (Some e, s1)
      | (None, b, up, w1) \<Rightarrow>
          (case pe_Encode env v w1 of
             (Inl e, w2) \<Rightarrow> (Some (Wrap ''failed to encode message'' [e]), b, up, w2)
           | (Inr d, w2) \<Rightarrow>
               (case Do (pe_float env) (produce_env env pd (buildRecord (kc_Topic (pd_config pd)) d (applyProduceOptions opts)))
                       () (pd_retryPolicy pd) (b, up, w2) of
                  ((_, e), s3) \<Rightarrow> (e, s3))))"

end
