(* ===== verification/Kafka_Consumer.thy ===== *)
theory Kafka_Consumer
  imports Kafka_Client
begin

text \<open>
  Package \<^verbatim>\<open>kafka\<close>, second part: messages (\<^verbatim>\<open>message.go\<close>) and the consumer (\<^verbatim>\<open>consumer.go\<close>).

  The handlers, the decoder, the context and the client library are parameters (\<open>consumer_env\<close>). The
  handlers act on the state of the service and so may commit messages themselves or stop the consumer.
  The number of failed attempts per record is the map \<open>attempts\<close>, which only the loop of \<open>Consume\<close> uses.
  The loop around a record runs until the record is settled, which may be never, and the loop of
  \<open>Consume\<close> until its context ends; both are partial functions whose value \<open>None\<close> means that they do not
  return. Log lines are left out.
\<close>

section \<open>The consumer\<close>

record 'v message =
  ms_value :: 'v
  ms_key :: "byte list option"
  ms_topic :: string
  ms_partition :: int
  ms_offset :: int
  ms_timestamp :: int
  ms_headers :: "kafka_headers option"

definition NewMessage ::
  "'v \<Rightarrow> byte list option \<Rightarrow> string \<Rightarrow> int \<Rightarrow> int \<Rightarrow> int \<Rightarrow> kafka_headers option \<Rightarrow> 'v message" where
  "NewMessage v key topic part offset timestamp hs =
     \<lparr>ms_value = v, ms_key = key, ms_topic = topic, ms_partition = part, ms_offset = offset,
      ms_timestamp = timestamp, ms_headers = hs\<rparr>"

type_synonym topicPartitionOffset = "string \<times> int \<times> int"
type_synonym attempts = "topicPartitionOffset \<Rightarrow> nat option"

datatype processAction = ActionRetry | ActionStop | ActionSkip

text \<open>The two handlers of failures get the record and the error.\<close>

type_synonym 'w failure_handler = "kafka_record \<Rightarrow> go_error \<Rightarrow> 'w service \<Rightarrow> go_error option \<times> 'w service"

record ('b, 'w) consumer_options = "('b, 'w) common_options" +
  op_decodeErrorHandler :: "'w failure_handler option"
  op_maxProcessingAttempts :: int
  op_failedMessageHandler :: "'w failure_handler option"

definition WithConsumerCircuitBreaker where
  "WithConsumerCircuitBreaker cb cfg = cfg\<lparr>co_circuitBreaker := cb\<rparr>"

definition WithConsumerRetryPolicy where
  "WithConsumerRetryPolicy p cfg = cfg\<lparr>co_retryPolicy := p\<rparr>"

definition WithDecodeErrorHandler where
  "WithDecodeErrorHandler h cfg = cfg\<lparr>op_decodeErrorHandler := h\<rparr>"

definition WithMaxProcessingAttempts where
  "WithMaxProcessingAttempts n cfg = cfg\<lparr>op_maxProcessingAttempts := n\<rparr>"

definition WithFailedMessageHandler where
  "WithFailedMessageHandler h cfg = cfg\<lparr>op_failedMessageHandler := h\<rparr>"

definition applyConsumerOptions ::
  "(('b, 'w) consumer_options \<Rightarrow> ('b, 'w) consumer_options) list \<Rightarrow> ('b, 'w) consumer_options" where
  "applyConsumerOptions opts =
     fold (\<lambda>opt cfg. opt cfg) opts
       \<lparr>co_circuitBreaker = None, co_retryPolicy = None, op_decodeErrorHandler = None,
        op_maxProcessingAttempts = 0, op_failedMessageHandler = None\<rparr>"

record ('b, 'w) consumer =
  cn_config :: consumer_config
  cn_circuitBreaker :: "('b, 'w service) circuit_breaker option"
  cn_retryPolicy :: "policy option"
  cn_decodeErrorHandler :: "'w failure_handler option"
  cn_maxProcessingAttempts :: int
  cn_failedMessageHandler :: "'w failure_handler option"

definition NewConsumer ::
  "(breaker_settings \<Rightarrow> ('b, 'w service) gobreaker) \<Rightarrow> consumer_config
   \<Rightarrow> (('b, 'w) consumer_options \<Rightarrow> ('b, 'w) consumer_options) list \<Rightarrow> go_error + ('b, 'w) consumer" where
  "NewConsumer mk config opts =
     (case validateConsumerConfig config of
        Some e \<Rightarrow> Inl e
      | None \<Rightarrow>
          (let options = applyConsumerOptions opts
           in Inr \<lparr>cn_config = config,
                   cn_circuitBreaker =
                     (case co_circuitBreaker options of
                        Some cb \<Rightarrow> Some cb
                      | None \<Rightarrow> map_option (\<lambda>bc. NewKafkaCircuitBreaker mk bc None) (kc_CircuitBreaker config)),
                   cn_retryPolicy = (case co_retryPolicy options of Some p \<Rightarrow> Some p | None \<Rightarrow> kc_RetryPolicy config),
                   cn_decodeErrorHandler = op_decodeErrorHandler options,
                   cn_maxProcessingAttempts =
                     (if op_maxProcessingAttempts options > 0 then op_maxProcessingAttempts options
                      else kc_MaxProcessingAttempts config),
                   cn_failedMessageHandler = op_failedMessageHandler options\<rparr>))"

text \<open>\<open>ce_CommitUncommitted\<close> is \<open>CommitUncommittedOffsets\<close>, whose error is only logged.\<close>

record ('cert, 'w, 'v) consumer_env =
  ce_float :: go_float
  ce_kgo :: "('cert, 'w) kgo_env"
  ce_files :: "'cert kafka_files"
  ce_Decode :: "byte list \<Rightarrow> 'w \<Rightarrow> (go_error + 'v) \<times> 'w"
  ce_handler :: "'v message \<Rightarrow> 'w service \<Rightarrow> go_error option \<times> 'w service"
  ce_ctx :: "'w \<Rightarrow> go_error option \<times> 'w"
  ce_wait :: "int \<Rightarrow> 'w \<Rightarrow> bool \<times> 'w"
  ce_CommitRecords :: "kafka_record \<Rightarrow> 'w \<Rightarrow> go_error option \<times> 'w"
  ce_PollFetches :: "'w \<Rightarrow> kafka_record list \<times> 'w"
  ce_CommitUncommitted :: "'w \<Rightarrow> 'w"

definition consumer_ensureConnected ::
  "('cert, 'w, 'v) consumer_env \<Rightarrow> ('b, 'w) consumer \<Rightarrow> 'b \<times> 'w service \<Rightarrow> go_error option \<times> 'b \<times> 'w service" where
  "consumer_ensureConnected env cn =
     ensure_connected (cn_circuitBreaker cn)
       (connect (ce_kgo env) ''consumer'' (cn_config cn)
          (case buildKgoOpts (ce_files env) (cn_config cn) of
             Inl e \<Rightarrow> Inl e
           | Inr opts \<Rightarrow> Inr (opts @ [ConsumeTopics (kc_Topic (cn_config cn)), ConsumerGroup (kc_GroupID (cn_config cn)),
                                    DisableAutoCommit])))"

definition commitRecord ::
  "('cert, 'w, 'v) consumer_env \<Rightarrow> kafka_record \<Rightarrow> 'w service \<Rightarrow> go_error option \<times> 'w service" where
  "commitRecord env r = (\<lambda>(up, w).
     if \<not> up then (Some (Atom (InKafka ErrNotConnected)), up, w)
     else (case ce_CommitRecords env r w of (e, w1) \<Rightarrow> (e, up, w1)))"

text \<open>The commit after a record; its error is only logged.\<close>

definition auto_commit ::
  "('cert, 'w, 'v) consumer_env \<Rightarrow> ('b, 'w) consumer \<Rightarrow> kafka_record \<Rightarrow> 'w service \<Rightarrow> 'w service" where
  "auto_commit env cn r s = (if kc_AutoCommit (cn_config cn) then snd (commitRecord env r s) else s)"

definition tpo_of :: "kafka_record \<Rightarrow> topicPartitionOffset" where
  "tpo_of r = (kr_Topic r, kr_Partition r, kr_Offset r)"

definition handleFailedRecord ::
  "('cert, 'w, 'v) consumer_env \<Rightarrow> ('b, 'w) consumer \<Rightarrow> kafka_record \<Rightarrow> go_error \<Rightarrow> attempts \<Rightarrow> 'w service
   \<Rightarrow> processAction \<times> attempts \<times> 'w service" where
  "handleFailedRecord env cn r handlerErr att s =
     (if cn_maxProcessingAttempts cn \<le> 0 then (ActionRetry, att, s)
      else (let tpo = tpo_of r;
                n = (case att tpo of Some k \<Rightarrow> k | None \<Rightarrow> 0) + 1
            in if int n < cn_maxProcessingAttempts cn then (ActionRetry, att(tpo \<mapsto> n), s)
               else (case cn_failedMessageHandler cn of
                       Some h \<Rightarrow>
                         (case h r handlerErr s of
                            (Some fErr, s1) \<Rightarrow> (ActionStop, att(tpo := None), s1)
                          | (None, s1) \<Rightarrow> (ActionSkip, att(tpo := None), auto_commit env cn r s1))
                     | None \<Rightarrow> (ActionSkip, att(tpo := None), auto_commit env cn r s))))"

definition handler_env :: "('cert, 'w, 'v) consumer_env \<Rightarrow> 'v message \<Rightarrow> ('w service, unit) retry_env" where
  "handler_env env msg =
     \<lparr>re_op = (\<lambda>s. case ce_handler env msg s of (e, s1) \<Rightarrow> (((), e), s1)),
      re_ctx = (\<lambda>(up, w). case ce_ctx env w of (e, w1) \<Rightarrow> (e, up, w1)),
      re_wait = (\<lambda>d (up, w). case ce_wait env d w of (b, w1) \<Rightarrow> (b, up, w1))\<rparr>"

text \<open>
  One round of the loop of \<open>processRecord\<close>: it ends the loop (whether the partition stops, the attempts,
  the state) or goes on.
\<close>

definition process_round ::
  "('cert, 'w, 'v) consumer_env \<Rightarrow> ('b, 'w) consumer \<Rightarrow> kafka_record \<Rightarrow> 'v message \<Rightarrow> attempts \<Rightarrow> 'w service
   \<Rightarrow> (bool \<times> attempts \<times> 'w service) + (attempts \<times> 'w service)" where
  "process_round env cn r msg att s =
     (case Do (ce_float env) (handler_env env msg) () (cn_retryPolicy cn) s of
        ((_, None), s1) \<Rightarrow> Inl (False, att(tpo_of r := None), auto_commit env cn r s1)
      | ((_, Some handlerErr), s1) \<Rightarrow>
          (case handleFailedRecord env cn r handlerErr att s1 of
             (ActionStop, att1, s2) \<Rightarrow> Inl (True, att1, s2)
           | (ActionSkip, att1, s2) \<Rightarrow> Inl (False, att1, s2)
           | (ActionRetry, att1, up, w2) \<Rightarrow>
               (case ce_ctx env w2 of
                  (Some _, w3) \<Rightarrow> Inl (True, att1, up, w3)
                | (None, w3) \<Rightarrow>
                    if cn_retryPolicy cn = None
                    then (case ce_wait env second w3 of
                            (True, w4) \<Rightarrow> Inl (True, att1, up, w4)
                          | (False, w4) \<Rightarrow> Inr (att1, up, w4))
                    else Inr (att1, up, w3))))"

partial_function (option) process_loop ::
  "('cert, 'w, 'v) consumer_env \<Rightarrow> ('b, 'w) consumer \<Rightarrow> kafka_record \<Rightarrow> 'v message \<Rightarrow> attempts \<Rightarrow> 'w service
   \<Rightarrow> (bool \<times> attempts \<times> 'w service) option" where
  "process_loop env cn r msg att s =
     (case process_round env cn r msg att s of
        Inl result \<Rightarrow> Some result
      | Inr (att1, s1) \<Rightarrow> process_loop env cn r msg att1 s1)"

definition processRecord ::
  "('cert, 'w, 'v) consumer_env \<Rightarrow> ('b, 'w) consumer \<Rightarrow> kafka_record \<Rightarrow> attempts \<Rightarrow> 'w service
   \<Rightarrow> (bool \<times> attempts \<times> 'w service) option" where
  "processRecord env cn r att = (\<lambda>(up, w).
     case ce_Decode env (kr_Value r) w of
       (Inl err, w1) \<Rightarrow>
         (case cn_decodeErrorHandler cn of
            Some h \<Rightarrow>
              (case h r err (up, w1) of
                 (Some _, s2) \<Rightarrow> Some (True, att, s2)
               | (None, s2) \<Rightarrow> Some (False, att, auto_commit env cn r s2))
          | None \<Rightarrow> Some (False, att, auto_commit env cn r (up, w1)))
     | (Inr v, w1) \<Rightarrow>
         process_loop env cn r
           (NewMessage v (kr_Key r) (kr_Topic r) (kr_Partition r) (kr_Offset r) (kr_Timestamp r)
              (convertFromKgoHeaders (kr_Headers r)))
           att (up, w1))"

text \<open>The records of one fetch; \<open>failed\<close> holds the partitions that have stopped.\<close>

fun each_record ::
  "('cert, 'w, 'v) consumer_env \<Rightarrow> ('b, 'w) consumer \<Rightarrow> kafka_record list \<Rightarrow> (string \<times> int) set \<Rightarrow> attempts
   \<Rightarrow> 'w service \<Rightarrow> (attempts \<times> 'w service) option" where
  "each_record env cn [] failed att s = Some (att, s)"
| "each_record env cn (r # rs) failed att s =
     (if (kr_Topic r, kr_Partition r) \<in> failed then each_record env cn rs failed att s
      else (case processRecord env cn r att s of
              None \<Rightarrow> None
            | Some (stop, att1, s1) \<Rightarrow>
                each_record env cn rs (if stop then insert (kr_Topic r, kr_Partition r) failed else failed) att1 s1))"

definition flushOffsets :: "('cert, 'w, 'v) consumer_env \<Rightarrow> ('b, 'w) consumer \<Rightarrow> 'w service \<Rightarrow> 'w service" where
  "flushOffsets env cn = (\<lambda>(up, w).
     if \<not> kc_AutoCommit (cn_config cn) then (up, w) else (up, ce_CommitUncommitted env w))"

partial_function (option) consume_loop ::
  "('cert, 'w, 'v) consumer_env \<Rightarrow> ('b, 'w) consumer \<Rightarrow> attempts \<Rightarrow> 'w service
   \<Rightarrow> (go_error \<times> attempts \<times> 'w service) option" where
  "consume_loop env cn att s =
     (case s of (up, w) \<Rightarrow>
        (case ce_ctx env w of
           (Some e, w1) \<Rightarrow> Some (e, att, flushOffsets env cn (up, w1))
         | (None, w1) \<Rightarrow>
             (case ce_PollFetches env w1 of
                (records, w2) \<Rightarrow>
                  (case ce_ctx env w2 of
                     (Some e, w3) \<Rightarrow> Some (e, att, flushOffsets env cn (up, w3))
                   | (None, w3) \<Rightarrow>
                       Option.bind (each_record env cn records {} att (up, w3))
                         (\<lambda>(att1, s1). consume_loop env cn att1 s1)))))"

definition kafka_Consume ::
  "('cert, 'w, 'v) consumer_env \<Rightarrow> ('b, 'w) consumer \<Rightarrow> attempts \<Rightarrow> 'b \<times> 'w service
   \<Rightarrow> (go_error \<times> attempts \<times> 'b \<times> 'w service) option" where
  "kafka_Consume env cn att s =
     (case consumer_ensureConnected env cn s of
        (Some e, b, s1) \<Rightarrow> Some (e, att, b, s1)
      | (None, b, s1) \<Rightarrow> map_option (\<lambda>(e, att1, s2). (e, att1, b, s2)) (consume_loop env cn att s1))"

declare process_loop.simps [code] consume_loop.simps [code]

section \<open>What happens to a record\<close>

text \<open>The calls of the handlers and the commits, with their outcomes, as a log in the world.\<close>

datatype kafka_event =
    KHandled topicPartitionOffset "go_error option"
  | KFailed topicPartitionOffset "go_error option"
  | KUndecodable topicPartitionOffset "go_error option"
  | KCommit topicPartitionOffset "go_error option"
  | KFlush

type_synonym 'w logged = "'w \<times> kafka_event list"

definition logged_call :: "(go_error option \<Rightarrow> kafka_event) \<Rightarrow> ('w service \<Rightarrow> go_error option \<times> 'w service)
    \<Rightarrow> 'w logged service \<Rightarrow> go_error option \<times> 'w logged service" where
  "logged_call ev f = (\<lambda>(up, w, tr). case f (up, w) of (x, up1, w1) \<Rightarrow> (x, up1, w1, tr @ [ev x]))"

definition logged_world :: "('w \<Rightarrow> 'r \<times> 'w) \<Rightarrow> 'w logged \<Rightarrow> 'r \<times> 'w logged" where
  "logged_world f = (\<lambda>(w, tr). case f w of (x, w1) \<Rightarrow> (x, w1, tr))"

definition msg_tpo :: "'v message \<Rightarrow> topicPartitionOffset" where
  "msg_tpo m = (ms_topic m, ms_partition m, ms_offset m)"

definition logged_env :: "('cert, 'w, 'v) consumer_env \<Rightarrow> ('cert, 'w logged, 'v) consumer_env" where
  "logged_env env =
     \<lparr>ce_float = ce_float env,
      ce_kgo = \<lparr>kg_NewClient = (\<lambda>opts. logged_world (kg_NewClient (ce_kgo env) opts)),
                kg_Ping = (\<lambda>t. logged_world (kg_Ping (ce_kgo env) t)),
                kg_Close = (\<lambda>(w, tr). (kg_Close (ce_kgo env) w, tr))\<rparr>,
      ce_files = ce_files env,
      ce_Decode = (\<lambda>b. logged_world (ce_Decode env b)),
      ce_handler = (\<lambda>m. logged_call (KHandled (msg_tpo m)) (ce_handler env m)),
      ce_ctx = logged_world (ce_ctx env),
      ce_wait = (\<lambda>d. logged_world (ce_wait env d)),
      ce_CommitRecords = (\<lambda>r (w, tr). case ce_CommitRecords env r w of
                            (x, w1) \<Rightarrow> (x, w1, tr @ [KCommit (tpo_of r) x])),
      ce_PollFetches = logged_world (ce_PollFetches env),
      ce_CommitUncommitted = (\<lambda>(w, tr). (ce_CommitUncommitted env w, tr @ [KFlush]))\<rparr>"

definition logged_handler ::
  "(topicPartitionOffset \<Rightarrow> go_error option \<Rightarrow> kafka_event) \<Rightarrow> 'w failure_handler \<Rightarrow> 'w logged failure_handler" where
  "logged_handler ev h = (\<lambda>r e. logged_call (ev (tpo_of r)) (h r e))"

text \<open>The breaker matters for connecting only.\<close>

definition logged_consumer :: "('b, 'w) consumer \<Rightarrow> ('b, 'w logged) consumer" where
  "logged_consumer cn =
     \<lparr>cn_config = cn_config cn, cn_circuitBreaker = None, cn_retryPolicy = cn_retryPolicy cn,
      cn_decodeErrorHandler = map_option (logged_handler KUndecodable) (cn_decodeErrorHandler cn),
      cn_maxProcessingAttempts = cn_maxProcessingAttempts cn,
      cn_failedMessageHandler = map_option (logged_handler KFailed) (cn_failedMessageHandler cn)\<rparr>"

lemma logged_simps [simp]:
  "ce_float (logged_env env) = ce_float env"
  "ce_Decode (logged_env env) b (w, tr) = (case ce_Decode env b w of (x, w1) \<Rightarrow> (x, w1, tr))"
  "ce_handler (logged_env env) m (up, w, tr) =
     (case ce_handler env m (up, w) of (x, up1, w1) \<Rightarrow> (x, up1, w1, tr @ [KHandled (msg_tpo m) x]))"
  "ce_ctx (logged_env env) (w, tr) = (case ce_ctx env w of (x, w1) \<Rightarrow> (x, w1, tr))"
  "ce_wait (logged_env env) d (w, tr) = (case ce_wait env d w of (x, w1) \<Rightarrow> (x, w1, tr))"
  "ce_CommitRecords (logged_env env) r (w, tr) =
     (case ce_CommitRecords env r w of (x, w1) \<Rightarrow> (x, w1, tr @ [KCommit (tpo_of r) x]))"
  "ce_PollFetches (logged_env env) (w, tr) = (case ce_PollFetches env w of (x, w1) \<Rightarrow> (x, w1, tr))"
  "ce_CommitUncommitted (logged_env env) (w, tr) = (ce_CommitUncommitted env w, tr @ [KFlush])"
  "logged_handler ev h r e (up, w, tr) =
     (case h r e (up, w) of (x, up1, w1) \<Rightarrow> (x, up1, w1, tr @ [ev (tpo_of r) x]))"
  "cn_config (logged_consumer cn) = cn_config cn"
  "cn_retryPolicy (logged_consumer cn) = cn_retryPolicy cn"
  "cn_maxProcessingAttempts (logged_consumer cn) = cn_maxProcessingAttempts cn"
  "cn_decodeErrorHandler (logged_consumer cn) = map_option (logged_handler KUndecodable) (cn_decodeErrorHandler cn)"
  "cn_failedMessageHandler (logged_consumer cn) = map_option (logged_handler KFailed) (cn_failedMessageHandler cn)"
  by (simp_all add: logged_env_def logged_world_def logged_call_def logged_handler_def logged_consumer_def)

text \<open>
  The ways in which the processing of a record can end, as a language of logs; \<open>stop\<close> says that the
  partition stops.
\<close>

definition failures :: "topicPartitionOffset \<Rightarrow> kafka_event list \<Rightarrow> bool" where
  "failures t hs \<longleftrightarrow> (\<forall>ev \<in> set hs. \<exists>x. ev = KHandled t (Some x))"

definition may_commit :: "('b, 'w) consumer \<Rightarrow> topicPartitionOffset \<Rightarrow> kafka_event list \<Rightarrow> bool" where
  "may_commit cn t cs \<longleftrightarrow> cs = [] \<or> kc_AutoCommit (cn_config cn) \<and> (\<exists>x. cs = [KCommit t x])"

inductive processing_log :: "('b, 'w) consumer \<Rightarrow> topicPartitionOffset \<Rightarrow> bool \<Rightarrow> kafka_event list \<Rightarrow> bool"
  for cn t where
  handled: "failures t hs \<Longrightarrow> may_commit cn t cs \<Longrightarrow> processing_log cn t False (hs @ KHandled t None # cs)"
| exhausted: "failures t hs \<Longrightarrow> may_commit cn t cs \<Longrightarrow> 0 < cn_maxProcessingAttempts cn \<Longrightarrow>
    cn_failedMessageHandler cn = None \<Longrightarrow> processing_log cn t False (hs @ cs)"
| given_up: "failures t hs \<Longrightarrow> may_commit cn t cs \<Longrightarrow> 0 < cn_maxProcessingAttempts cn \<Longrightarrow>
    processing_log cn t False (hs @ KFailed t None # cs)"
| rejected: "failures t hs \<Longrightarrow> 0 < cn_maxProcessingAttempts cn \<Longrightarrow>
    processing_log cn t True (hs @ [KFailed t (Some x)])"
| interrupted: "failures t hs \<Longrightarrow> processing_log cn t True hs"

inductive record_log :: "('b, 'w) consumer \<Rightarrow> topicPartitionOffset \<Rightarrow> bool \<Rightarrow> kafka_event list \<Rightarrow> bool"
  for cn t where
  processed: "processing_log cn t stop evs \<Longrightarrow> record_log cn t stop evs"
| undecodable: "cn_decodeErrorHandler cn = None \<Longrightarrow> may_commit cn t cs \<Longrightarrow> record_log cn t False cs"
| undecodable_skipped: "may_commit cn t cs \<Longrightarrow> record_log cn t False (KUndecodable t None # cs)"
| undecodable_rejected: "record_log cn t True [KUndecodable t (Some x)]"

fun handler_calls :: "kafka_event list \<Rightarrow> nat" where
  "handler_calls [] = 0"
| "handler_calls (KHandled t x # evs) = Suc (handler_calls evs)"
| "handler_calls (ev # evs) = handler_calls evs"

lemma handler_calls_append [simp]: "handler_calls (xs @ ys) = handler_calls xs + handler_calls ys"
  by (induction xs rule: handler_calls.induct) auto

lemma handler_calls_failures: "failures t hs \<Longrightarrow> handler_calls hs = length hs"
  by (induction hs rule: handler_calls.induct) (auto simp: failures_def)

lemma handler_calls_commit [simp]: "may_commit cn t cs \<Longrightarrow> handler_calls cs = 0"
  by (auto simp: may_commit_def)

lemma failures_append [simp]: "failures t (xs @ ys) \<longleftrightarrow> failures t xs \<and> failures t ys"
  by (auto simp: failures_def)

lemma failures_simps [simp]:
  "failures t []" "failures t (KHandled t x # hs) \<longleftrightarrow> x \<noteq> None \<and> failures t hs"
  by (auto simp: failures_def)

lemma processing_log_prepend:
  assumes "processing_log cn t stop evs" "failures t hs"
  shows "processing_log cn t stop (hs @ evs)"
  using assms
proof cases
  case (handled hs' cs)
  with assms(2) show ?thesis using processing_log.handled [of t "hs @ hs'" cn cs] by simp
next
  case (exhausted hs' cs)
  with assms(2) show ?thesis using processing_log.exhausted [of t "hs @ hs'" cn cs] by simp
next
  case (given_up hs' cs)
  with assms(2) show ?thesis using processing_log.given_up [of t "hs @ hs'" cn cs] by simp
next
  case (rejected hs' x)
  with assms(2) show ?thesis using processing_log.rejected [of t "hs @ hs'" cn x] by simp
qed (simp add: processing_log.interrupted)

definition retry_limit :: "policy option \<Rightarrow> int" where
  "retry_limit p = (if retries p then MaxAttemptsValue (the p) else 1)"

lemma auto_commit_logged:
  "\<exists>up' w' cs. auto_commit (logged_env env) (logged_consumer cn) r (up, w, tr) = (up', w', tr @ cs)
     \<and> may_commit cn (tpo_of r) cs"
  by (auto simp: auto_commit_def commitRecord_def may_commit_def split: prod.splits)

text \<open>One run of the retry loop: failures, and a success at the end when it returns no error.\<close>

lemma handler_round:
  fixes env :: "('cert, 'w, 'v) consumer_env"
  assumes "Do fl (handler_env (logged_env env) msg) () p (up, w, tr) = ((u, err), up', w', tr')"
  shows "\<exists>hs. failures (msg_tpo msg) hs
    \<and> tr' = tr @ hs @ (if err = None then [KHandled (msg_tpo msg) None] else [])
    \<and> int (length hs) + (if err = None then 1 else 0) \<le> retry_limit p"
proof -
  let ?t = "msg_tpo msg"
  define I where "I n = (\<lambda>(up :: bool, w :: 'w, tr'). \<exists>hs. failures ?t hs \<and> tr' = tr @ hs \<and> length hs \<le> n)" for n :: nat
  define Q where "Q n r = (\<lambda>(up :: bool, w :: 'w, tr'). \<exists>hs. failures ?t hs
      \<and> tr' = tr @ hs @ (if snd r = None then [KHandled ?t None] else [])
      \<and> length hs + (if snd r = None then 1 else 0) \<le> n)" for n :: nat and r :: "unit \<times> go_error option"
  have "\<exists>k. int k \<le> (if retries p then MaxAttemptsValue (the p) else 1) \<and> Q k (u, err) (up', w', tr')"
  proof (rule DoWithCondition_rule [where I = I and Q = Q and c = "\<lambda>v e. e \<noteq> None"])
    show "DoWithCondition fl (handler_env (logged_env env) msg) () p (\<lambda>v e. e \<noteq> None) (up, w, tr) = ((u, err), up', w', tr')"
      using assms by (simp add: Do_is_DoWithCondition)
  next
    fix n s r s' assume "I n s" "re_op (handler_env (logged_env env) msg) s = (r, s')"
    then show "Q (Suc n) r s'"
      by (auto simp: I_def Q_def handler_env_def split: prod.splits)
  qed (auto simp: I_def Q_def handler_env_def split: prod.splits)
  then obtain k hs where "int k \<le> retry_limit p" "failures ?t hs"
    "tr' = tr @ hs @ (if err = None then [KHandled ?t None] else [])" "length hs + (if err = None then 1 else 0) \<le> k"
    unfolding Q_def retry_limit_def by auto
  then show ?thesis by (auto intro!: exI [of _ hs])
qed

lemma handleFailedRecord_logged:
  assumes "handleFailedRecord (logged_env env) (logged_consumer cn) r e att (up, w, tr) = (act, att', up', w', tr')"
  defines "tries \<equiv> case att (tpo_of r) of Some k \<Rightarrow> k | None \<Rightarrow> 0"
  shows "(\<forall>t. t \<noteq> tpo_of r \<longrightarrow> att' t = att t) \<and>
    (case act of
       ActionRetry \<Rightarrow> tr' = tr \<and> (0 < cn_maxProcessingAttempts cn \<longrightarrow>
         att' (tpo_of r) = Some (tries + 1) \<and> int (tries + 1) < cn_maxProcessingAttempts cn)
     | ActionStop \<Rightarrow> 0 < cn_maxProcessingAttempts cn \<and> (\<exists>x. tr' = tr @ [KFailed (tpo_of r) (Some x)])
     | ActionSkip \<Rightarrow> 0 < cn_maxProcessingAttempts cn \<and> att' (tpo_of r) = None
         \<and> (\<exists>cs. may_commit cn (tpo_of r) cs
              \<and> (cn_failedMessageHandler cn = None \<and> tr' = tr @ cs \<or> tr' = tr @ KFailed (tpo_of r) None # cs)))"
proof -
  consider (endless) "cn_maxProcessingAttempts cn \<le> 0"
    | (again) "0 < cn_maxProcessingAttempts cn" "int (tries + 1) < cn_maxProcessingAttempts cn"
    | (last_try) "0 < cn_maxProcessingAttempts cn" "\<not> int (tries + 1) < cn_maxProcessingAttempts cn" by linarith
  then show ?thesis
  proof cases
    case last_try
    show ?thesis
    proof (cases "cn_failedMessageHandler cn")
      case None
      obtain up2 w2 cs where "auto_commit (logged_env env) (logged_consumer cn) r (up, w, tr) = (up2, w2, tr @ cs)"
        "may_commit cn (tpo_of r) cs" using auto_commit_logged [of env cn r up w tr] by blast
      with assms last_try None show ?thesis by (auto simp: handleFailedRecord_def Let_def)
    next
      case (Some h)
      obtain x up1 w1 where h: "h r e (up, w) = (x, up1, w1)" by (metis surj_pair)
      obtain up2 w2 cs where "auto_commit (logged_env env) (logged_consumer cn) r (up1, w1, tr @ [KFailed (tpo_of r) x])
          = (up2, w2, (tr @ [KFailed (tpo_of r) x]) @ cs)" "may_commit cn (tpo_of r) cs"
        using auto_commit_logged [of env cn r up1 w1 "tr @ [KFailed (tpo_of r) x]"] by blast
      with assms last_try Some h show ?thesis by (cases x) (auto simp: handleFailedRecord_def Let_def)
    qed
  qed (use assms in \<open>auto simp: handleFailedRecord_def Let_def\<close>)
qed

lemma process_round_log:
  fixes env :: "('cert, 'w, 'v) consumer_env"
  assumes "process_round (logged_env env) (logged_consumer cn) r msg att (up, w, tr) = x" "msg_tpo msg = tpo_of r"
  defines "tries \<equiv> case att (tpo_of r) of Some k \<Rightarrow> k | None \<Rightarrow> 0"
  shows "case x of
      Inl (stop, att', up', w', tr') \<Rightarrow>
        \<exists>evs. tr' = tr @ evs \<and> processing_log cn (tpo_of r) stop evs \<and> int (handler_calls evs) \<le> retry_limit (cn_retryPolicy cn)
          \<and> (\<forall>t. t \<noteq> tpo_of r \<longrightarrow> att' t = att t) \<and> (\<not> stop \<longrightarrow> att' (tpo_of r) = None)
    | Inr (att', up', w', tr') \<Rightarrow>
        \<exists>hs. tr' = tr @ hs \<and> failures (tpo_of r) hs \<and> int (length hs) \<le> retry_limit (cn_retryPolicy cn)
          \<and> (\<forall>t. t \<noteq> tpo_of r \<longrightarrow> att' t = att t)
          \<and> (0 < cn_maxProcessingAttempts cn \<longrightarrow>
               att' (tpo_of r) = Some (tries + 1) \<and> int (tries + 1) < cn_maxProcessingAttempts cn)"
proof -
  obtain u err up1 w1 tr1 where run: "Do (ce_float env) (handler_env (logged_env env) msg) () (cn_retryPolicy cn) (up, w, tr)
      = ((u, err), up1, w1, tr1)" by (metis surj_pair)
  from handler_round [OF this] assms(2) obtain hs where hs: "failures (tpo_of r) hs"
    "tr1 = tr @ hs @ (if err = None then [KHandled (tpo_of r) None] else [])"
    "int (length hs) + (if err = None then 1 else 0) \<le> retry_limit (cn_retryPolicy cn)" by auto
  note calls = handler_calls_failures [OF hs(1)]
  show ?thesis
  proof (cases err)
    case None
    obtain up2 w2 cs where commit: "auto_commit (logged_env env) (logged_consumer cn) r (up1, w1, tr1) = (up2, w2, tr1 @ cs)"
      "may_commit cn (tpo_of r) cs" using auto_commit_logged [of env cn r up1 w1 tr1] by blast
    from processing_log.handled [OF hs(1) commit(2)] assms(1) run None hs commit calls show ?thesis
      by (auto simp: process_round_def)
  next
    case (Some e)
    then have hs': "tr1 = tr @ hs" "int (length hs) \<le> retry_limit (cn_retryPolicy cn)" using hs by auto
    obtain act att2 up2 w2 tr2 where failed: "handleFailedRecord (logged_env env) (logged_consumer cn) r e att (up1, w1, tr1)
        = (act, att2, up2, w2, tr2)" by (metis surj_pair)
    note logged = handleFailedRecord_logged [OF failed, folded tries_def]
    show ?thesis
    proof (cases act)
      case ActionRetry
      obtain c w3 where ctx: "ce_ctx env w2 = (c, w3)" by fastforce
      obtain b w4 where wait: "ce_wait env second w3 = (b, w4)" by fastforce
      from processing_log.interrupted [OF hs(1)] assms(1) run Some failed logged ActionRetry ctx wait hs' hs(1) calls
      show ?thesis by (cases c; cases b) (auto simp: process_round_def)
    next
      case ActionStop
      with logged obtain y where "tr2 = tr1 @ [KFailed (tpo_of r) (Some y)]" "0 < cn_maxProcessingAttempts cn" by auto
      with processing_log.rejected [OF hs(1), of cn y] assms(1) run Some failed logged ActionStop hs' calls
      show ?thesis by (auto simp: process_round_def)
    next
      case ActionSkip
      with logged obtain cs where cs: "may_commit cn (tpo_of r) cs" "0 < cn_maxProcessingAttempts cn"
        "cn_failedMessageHandler cn = None \<and> tr2 = tr1 @ cs \<or> tr2 = tr1 @ KFailed (tpo_of r) None # cs" by auto
      with processing_log.exhausted [OF hs(1) cs(1,2)] processing_log.given_up [OF hs(1) cs(1,2)]
        assms(1) run Some failed logged ActionSkip hs' calls
      show ?thesis by (auto simp: process_round_def)
    qed
  qed
qed

section \<open>The loop around a record\<close>

text \<open>How many rounds are left before the attempts are exhausted.\<close>

definition rounds_left :: "('b, 'w) consumer \<Rightarrow> topicPartitionOffset \<Rightarrow> attempts \<Rightarrow> nat" where
  "rounds_left cn t att =
     max 1 (nat (cn_maxProcessingAttempts cn) - (case att t of Some k \<Rightarrow> k | None \<Rightarrow> 0))"

lemma rounds_left_logged [simp]: "rounds_left (logged_consumer cn) t att = rounds_left cn t att"
  by (simp add: rounds_left_def)

lemma retry_limit_pos: "0 < retry_limit p"
  by (auto simp: retry_limit_def retries_def split: option.splits)

lemma rounds_left_step:
  assumes "att' t = Some ((case att t of Some k \<Rightarrow> k | None \<Rightarrow> 0) + 1)"
    and "int ((case att t of Some k \<Rightarrow> k | None \<Rightarrow> 0) + 1) < cn_maxProcessingAttempts cn"
  shows "Suc (rounds_left cn t att') = rounds_left cn t att"
  using assms by (auto simp: rounds_left_def split: option.splits)

lemma process_round_decreases:
  assumes "process_round env cn r msg att s = Inr (att', s')" "0 < cn_maxProcessingAttempts cn"
  shows "Suc (rounds_left cn (tpo_of r) att') = rounds_left cn (tpo_of r) att"
proof (rule rounds_left_step)
  have "\<exists>e s1 s2. handleFailedRecord env cn r e att s1 = (ActionRetry, att', s2)"
    using assms(1)
    by (auto simp: process_round_def split: prod.splits option.splits processAction.splits if_splits bool.splits) blast+
  then show "att' (tpo_of r) = Some ((case att (tpo_of r) of Some k \<Rightarrow> k | None \<Rightarrow> 0) + 1)"
    and "int ((case att (tpo_of r) of Some k \<Rightarrow> k | None \<Rightarrow> 0) + 1) < cn_maxProcessingAttempts cn"
    using assms(2) by (auto simp: handleFailedRecord_def Let_def split: if_splits option.splits prod.splits)
qed

lemma process_loop_log:
  fixes env :: "('cert, 'w, 'v) consumer_env"
  assumes "process_loop (logged_env env) (logged_consumer cn) r msg att (up, w, tr) = Some (stop, att', up', w', tr')"
    and "msg_tpo msg = tpo_of r"
  shows "\<exists>evs. tr' = tr @ evs \<and> processing_log cn (tpo_of r) stop evs
    \<and> (0 < cn_maxProcessingAttempts cn \<longrightarrow>
         int (handler_calls evs) \<le> int (rounds_left cn (tpo_of r) att) * retry_limit (cn_retryPolicy cn))
    \<and> (\<forall>t. t \<noteq> tpo_of r \<longrightarrow> att' t = att t) \<and> (\<not> stop \<longrightarrow> att' (tpo_of r) = None)"
proof -
  let ?good = "\<lambda>att s (stop, att', s'). \<forall>up w tr up' w' tr'. s = (up, w, tr) \<longrightarrow> s' = (up', w', tr') \<longrightarrow>
    (\<exists>evs. tr' = tr @ evs \<and> processing_log cn (tpo_of r) stop evs
    \<and> (0 < cn_maxProcessingAttempts cn \<longrightarrow>
         int (handler_calls evs) \<le> int (rounds_left cn (tpo_of r) att) * retry_limit (cn_retryPolicy cn))
    \<and> (\<forall>t. t \<noteq> tpo_of r \<longrightarrow> att' t = att t) \<and> (\<not> stop \<longrightarrow> att' (tpo_of r) = None))"
  have "env1 = logged_env env \<longrightarrow> cn1 = logged_consumer cn \<longrightarrow> r1 = r \<longrightarrow> msg1 = msg \<longrightarrow> ?good att s x"
    if "process_loop env1 cn1 r1 msg1 att s = Some x" for env1 cn1 r1 msg1 att s x
  proof (rule process_loop.raw_induct [where P = "\<lambda>env1 cn1 r1 msg1 att s x.
        env1 = logged_env env \<longrightarrow> cn1 = logged_consumer cn \<longrightarrow> r1 = r \<longrightarrow> msg1 = msg \<longrightarrow> ?good att s x", OF _ that])
    fix loop env1 cn1 r1 msg1 att s x
    assume IH: "\<And>env1 cn1 r1 msg1 att s x. loop env1 cn1 r1 msg1 att s = Some x \<Longrightarrow>
        env1 = logged_env env \<longrightarrow> cn1 = logged_consumer cn \<longrightarrow> r1 = r \<longrightarrow> msg1 = msg \<longrightarrow> ?good att s x"
      and step: "(case process_round env1 cn1 r1 msg1 att s of Inl result \<Rightarrow> Some result
        | Inr (att1, s1) \<Rightarrow> loop env1 cn1 r1 msg1 att1 s1) = Some x"
    show "env1 = logged_env env \<longrightarrow> cn1 = logged_consumer cn \<longrightarrow> r1 = r \<longrightarrow> msg1 = msg \<longrightarrow> ?good att s x"
    proof (intro impI)
      assume env: "env1 = logged_env env" "cn1 = logged_consumer cn" "r1 = r" "msg1 = msg"
      obtain stop att2 s2 where x: "x = (stop, att2, s2)" by (metis surj_pair)
      show "?good att s x"
        unfolding x prod.case
      proof (intro allI impI)
        fix up w tr up2 w2 tr2 assume s: "s = (up, w, tr)" "s2 = (up2, w2, tr2)"
        show "\<exists>evs. tr2 = tr @ evs \<and> processing_log cn (tpo_of r) stop evs
          \<and> (0 < cn_maxProcessingAttempts cn \<longrightarrow>
               int (handler_calls evs) \<le> int (rounds_left cn (tpo_of r) att) * retry_limit (cn_retryPolicy cn))
          \<and> (\<forall>t. t \<noteq> tpo_of r \<longrightarrow> att2 t = att t) \<and> (\<not> stop \<longrightarrow> att2 (tpo_of r) = None)"
        proof (cases "process_round (logged_env env) (logged_consumer cn) r msg att s")
          case (Inl result)
          have "retry_limit (cn_retryPolicy cn) \<le> int (rounds_left cn (tpo_of r) att) * retry_limit (cn_retryPolicy cn)"
            using retry_limit_pos [of "cn_retryPolicy cn"] by (simp add: rounds_left_def)
          with process_round_log [OF Inl [unfolded s] assms(2)] step env s x Inl show ?thesis by fastforce
        next
          case (Inr p)
          obtain att1 up1 w1 tr1 where p: "p = (att1, up1, w1, tr1)" by (metis surj_pair)
          from process_round_log [OF Inr [unfolded s p] assms(2)] obtain hs where
            hs: "tr1 = tr @ hs" "failures (tpo_of r) hs" "int (length hs) \<le> retry_limit (cn_retryPolicy cn)"
              "\<forall>t. t \<noteq> tpo_of r \<longrightarrow> att1 t = att t" by auto
          from IH [of env1 cn1 r1 msg1 att1 "(up1, w1, tr1)" x] step env Inr p s x obtain evs where
            evs: "tr2 = tr1 @ evs" "processing_log cn (tpo_of r) stop evs"
              "0 < cn_maxProcessingAttempts cn \<longrightarrow>
               int (handler_calls evs) \<le> int (rounds_left cn (tpo_of r) att1) * retry_limit (cn_retryPolicy cn)"
              "\<forall>t. t \<noteq> tpo_of r \<longrightarrow> att2 t = att1 t" "\<not> stop \<longrightarrow> att2 (tpo_of r) = None" by auto
          have "int (handler_calls (hs @ evs)) \<le> int (rounds_left cn (tpo_of r) att) * retry_limit (cn_retryPolicy cn)"
            if pos: "0 < cn_maxProcessingAttempts cn"
          proof -
            have "int (rounds_left cn (tpo_of r) att) = 1 + int (rounds_left cn (tpo_of r) att1)"
              using process_round_decreases [OF Inr [unfolded p]] pos by simp
            then show ?thesis using evs(3) hs(3) handler_calls_failures [OF hs(2)] pos by (simp add: algebra_simps)
          qed
          with processing_log_prepend [OF evs(2) hs(2)] evs hs show ?thesis by auto
        qed
      qed
    qed
  qed
  from this [OF assms(1)] show ?thesis by auto
qed

text \<open>With a bound on the attempts the loop returns.\<close>

lemma process_loop_returns:
  assumes "0 < cn_maxProcessingAttempts cn"
  shows "process_loop env cn r msg att s \<noteq> None"
proof (induction "rounds_left cn (tpo_of r) att" arbitrary: att s rule: less_induct)
  case less
  show ?case
  proof (cases "process_round env cn r msg att s")
    case (Inr p)
    obtain att' s' where p: "p = (att', s')" by (cases p)
    from process_round_decreases [OF Inr [unfolded p] assms] less [of att' s'] Inr p show ?thesis
      by (simp add: process_loop.simps [of env cn r msg att s])
  qed (simp add: process_loop.simps [of env cn r msg att s])
qed

section \<open>A record, a fetch\<close>

lemma may_commit_auto_commit:
  "auto_commit (logged_env env) (logged_consumer cn) r (up, w, tr) = (up', w', tr')
   \<Longrightarrow> \<exists>cs. tr' = tr @ cs \<and> may_commit cn (tpo_of r) cs"
  using auto_commit_logged [of env cn r up w tr] by auto

lemma processRecord_log:
  fixes env :: "('cert, 'w, 'v) consumer_env"
  assumes "processRecord (logged_env env) (logged_consumer cn) r att (up, w, tr) = Some (stop, att', up', w', tr')"
  shows "\<exists>evs. tr' = tr @ evs \<and> record_log cn (tpo_of r) stop evs
    \<and> (0 < cn_maxProcessingAttempts cn \<longrightarrow>
         int (handler_calls evs) \<le> int (rounds_left cn (tpo_of r) att) * retry_limit (cn_retryPolicy cn))
    \<and> (\<forall>t. t \<noteq> tpo_of r \<longrightarrow> att' t = att t)"
proof (cases "ce_Decode env (kr_Value r) w")
  case (Pair d w1)
  show ?thesis
  proof (cases d)
    case (Inr v)
    let ?msg = "NewMessage v (kr_Key r) (kr_Topic r) (kr_Partition r) (kr_Offset r) (kr_Timestamp r)
      (convertFromKgoHeaders (kr_Headers r))"
    have "msg_tpo ?msg = tpo_of r" by (simp add: msg_tpo_def NewMessage_def tpo_of_def)
    from process_loop_log [OF _ this, of env cn att up w1 tr stop att' up' w' tr'] assms Pair Inr
    show ?thesis by (auto simp: processRecord_def intro: record_log.processed)
  next
    case (Inl err)
    have nonneg: "0 \<le> int (rounds_left cn (tpo_of r) att) * retry_limit (cn_retryPolicy cn)"
      using retry_limit_pos [of "cn_retryPolicy cn"] by simp
    show ?thesis
    proof (cases "cn_decodeErrorHandler cn")
      case None
      with assms Pair Inl have "stop = False" "att' = att"
        "auto_commit (logged_env env) (logged_consumer cn) r (up, w1, tr) = (up', w', tr')"
        by (auto simp: processRecord_def)
      with may_commit_auto_commit [OF this(3)] record_log.undecodable [OF None, of "tpo_of r"] nonneg show ?thesis by auto
    next
      case (Some h)
      obtain x up1 w2 where h: "h r err (up, w1) = (x, up1, w2)" by (metis surj_pair)
      show ?thesis
      proof (cases x)
        case None
        with assms Pair Inl Some h have "stop = False" "att' = att"
          "auto_commit (logged_env env) (logged_consumer cn) r (up1, w2, tr @ [KUndecodable (tpo_of r) None]) = (up', w', tr')"
          by (auto simp: processRecord_def)
        with may_commit_auto_commit [OF this(3)] record_log.undecodable_skipped [of cn "tpo_of r"] nonneg
        show ?thesis by auto
      next
        case (Some y)
        with assms Pair Inl \<open>cn_decodeErrorHandler cn = Some h\<close> h
        have "stop = True" "att' = att" "tr' = tr @ [KUndecodable (tpo_of r) (Some y)]" by (auto simp: processRecord_def)
        with record_log.undecodable_rejected [of cn "tpo_of r" y] nonneg show ?thesis by auto
      qed
    qed
  qed
qed

definition partition_of :: "topicPartitionOffset \<Rightarrow> string \<times> int" where
  "partition_of t = (fst t, fst (snd t))"

lemma partition_of_tpo [simp]: "partition_of (tpo_of r) = (kr_Topic r, kr_Partition r)"
  by (simp add: partition_of_def tpo_of_def)

text \<open>Messages that a handler of the user refused to let pass.\<close>

definition refused :: "kafka_event \<Rightarrow> (string \<times> int) option" where
  "refused ev = (case ev of KFailed t (Some x) \<Rightarrow> Some (partition_of t)
                          | KUndecodable t (Some x) \<Rightarrow> Some (partition_of t) | _ \<Rightarrow> None)"

definition committed :: "kafka_event \<Rightarrow> (string \<times> int) option" where
  "committed ev = (case ev of KCommit t x \<Rightarrow> Some (partition_of t) | _ \<Rightarrow> None)"

text \<open>No commit behind a refusal in the same partition.\<close>

fun no_commit_behind :: "kafka_event list \<Rightarrow> bool" where
  "no_commit_behind [] \<longleftrightarrow> True"
| "no_commit_behind (ev # evs) \<longleftrightarrow>
     (refused ev \<noteq> None \<longrightarrow> (\<forall>e \<in> set evs. committed e \<noteq> refused ev)) \<and> no_commit_behind evs"

lemma no_commit_behind_append:
  "no_commit_behind (xs @ ys) \<longleftrightarrow> no_commit_behind xs \<and> no_commit_behind ys
     \<and> (\<forall>x \<in> set xs. refused x \<noteq> None \<longrightarrow> (\<forall>y \<in> set ys. committed y \<noteq> refused x))"
  by (induction xs) auto

lemma no_commit_behind_quiet:
  "(\<forall>ev \<in> set evs. committed ev = None) \<or> (\<forall>ev \<in> set evs. refused ev = None) \<Longrightarrow> no_commit_behind evs"
  by (induction evs) auto

lemma failures_quiet: "failures t hs \<Longrightarrow> ev \<in> set hs \<Longrightarrow> refused ev = None \<and> committed ev = None"
  by (auto simp: failures_def refused_def committed_def)

lemma may_commit_quiet: "may_commit cn t cs \<Longrightarrow> ev \<in> set cs \<Longrightarrow> refused ev = None \<and> committed ev \<in> {None, Some (partition_of t)}"
  by (auto simp: may_commit_def refused_def committed_def)

text \<open>A record commits and refuses in its own partition only, and not both; it refuses only when it stops it.\<close>

lemma record_log_partition:
  assumes "record_log cn t stop evs" "ev \<in> set evs"
  shows "committed ev \<in> {None, Some (partition_of t)} \<and> (stop \<longrightarrow> committed ev = None)
    \<and> refused ev \<in> {None, Some (partition_of t)} \<and> (\<not> stop \<longrightarrow> refused ev = None)"
  using assms
proof cases
  case processed
  then show ?thesis
    using assms(2)
    by cases (auto dest!: failures_quiet may_commit_quiet simp: refused_def committed_def split: option.splits)
qed (use assms(2) in \<open>auto dest!: may_commit_quiet simp: refused_def committed_def\<close>)

lemma each_record_log:
  fixes env :: "('cert, 'w, 'v) consumer_env"
  assumes "each_record (logged_env env) (logged_consumer cn) rs failed att (up, w, tr) = Some (att', up', w', tr')"
  shows "\<exists>evs. tr' = tr @ evs \<and> no_commit_behind evs \<and> (\<forall>ev \<in> set evs. \<forall>p \<in> failed. committed ev \<noteq> Some p)"
  using assms
proof (induction rs arbitrary: failed att up w tr)
  case (Cons r rs)
  let ?p = "(kr_Topic r, kr_Partition r)"
  show ?case
  proof (cases "?p \<in> failed")
    case True
    with Cons.prems have "each_record (logged_env env) (logged_consumer cn) rs failed att (up, w, tr) = Some (att', up', w', tr')"
      by simp
    then show ?thesis by (rule Cons.IH)
  next
    case False
    with Cons.prems obtain stop att1 up1 w1 tr1 where
      one: "processRecord (logged_env env) (logged_consumer cn) r att (up, w, tr) = Some (stop, att1, up1, w1, tr1)" and
      rest: "each_record (logged_env env) (logged_consumer cn) rs (if stop then insert ?p failed else failed) att1 (up1, w1, tr1)
        = Some (att', up', w', tr')"
      by (auto split: option.splits prod.splits)
    from processRecord_log [OF one] obtain evs1 where evs1: "tr1 = tr @ evs1" "record_log cn (tpo_of r) stop evs1" by blast
    from Cons.IH [OF rest] obtain evs2 where evs2: "tr' = tr1 @ evs2" "no_commit_behind evs2"
      "\<forall>ev \<in> set evs2. \<forall>p \<in> (if stop then insert ?p failed else failed). committed ev \<noteq> Some p" by blast
    note own = record_log_partition [OF evs1(2)]
    have "no_commit_behind evs1" by (rule no_commit_behind_quiet) (use own in blast)
    moreover have "\<forall>x \<in> set evs1. refused x \<noteq> None \<longrightarrow> (\<forall>y \<in> set evs2. committed y \<noteq> refused x)"
      using own evs2(3) by (cases stop) fastforce+
    moreover have "\<forall>ev \<in> set evs1. \<forall>p \<in> failed. committed ev \<noteq> Some p"
      using own False by fastforce
    ultimately show ?thesis
      using evs1(1) evs2 by (intro exI [of _ "evs1 @ evs2"]) (auto simp: no_commit_behind_append split: if_splits)
  qed
qed auto

text \<open>
  A context that ends before the first call of the handler uses up an attempt all the same: with one attempt
  and no handler of failed messages the record is committed as exhausted and was never handled.
\<close>

lemma kafka_cancel_skips_unhandled:
  assumes "retries (cn_retryPolicy cn)" "cn_maxProcessingAttempts cn = 1" "cn_failedMessageHandler cn = None"
    and "ce_Decode env (kr_Value r) w = (Inr v, w1)" "ce_ctx env w1 = (Some e, w2)"
    and "kc_AutoCommit (cn_config cn)" "att (tpo_of r) = None"
  shows "processRecord env cn r att (True, w)
    = Some (False, att(tpo_of r := None), True, snd (ce_CommitRecords env r w2))"
proof -
  from assms(1) obtain pol where pol: "cn_retryPolicy cn = Some pol" "EnabledValue pol" "1 < MaxAttemptsValue pol"
    by (auto simp: retries_def split: option.splits)
  obtain left where "nat (MaxAttemptsValue pol) = Suc left" using pol(3) by (cases "nat (MaxAttemptsValue pol)") auto
  with pol assms have "Do (ce_float env) (handler_env env msg) () (cn_retryPolicy cn) (True, w1) = (((), Some e), True, w2)" for msg
    by (simp add: Do_def handler_env_def)
  with assms show ?thesis
    by (simp add: processRecord_def process_loop.simps process_round_def handleFailedRecord_def Let_def
        auto_commit_def commitRecord_def split: prod.split)
qed

section \<open>Properties\<close>

text \<open>A client that fetches the records 0, 1, ... of a partition one by one, until the context ends.\<close>

definition example_record :: "nat \<Rightarrow> kafka_record" where
  "example_record n =
     \<lparr>kr_Key = None, kr_Topic = ''t'', kr_Partition = 0, kr_Offset = int n, kr_Timestamp = 0, kr_Headers = None,
      kr_Value = ''v''\<rparr>"

definition example_kafka_env :: "(unit, nat, byte list) consumer_env" where
  "example_kafka_env =
     \<lparr>ce_float = plain_float,
      ce_kgo = \<lparr>kg_NewClient = (\<lambda>opts n. (None, n)), kg_Ping = (\<lambda>t n. (None, n)), kg_Close = (\<lambda>n. n)\<rparr>,
      ce_files = \<lparr>kf_ReadFile = (\<lambda>f. Inr []), kf_IsPEM = (\<lambda>b. True), kf_LoadX509KeyPair = (\<lambda>c k. Inr ())\<rparr>,
      ce_Decode = (\<lambda>b n. (Inr b, n)),
      ce_handler = (\<lambda>m s. (if ms_offset m = 0 then Some (Atom (ErrExternal 0)) else None, s)),
      ce_ctx = (\<lambda>n. (if 3 \<le> n then Some (Atom ContextCanceled) else None, n)),
      ce_wait = (\<lambda>d n. (False, n)),
      ce_CommitRecords = (\<lambda>r n. (None, n)),
      ce_PollFetches = (\<lambda>n. ([example_record n], n + 1)),
      ce_CommitUncommitted = (\<lambda>n. n)\<rparr>"

definition example_consumer :: "(unit, nat) consumer" where
  "example_consumer =
     \<lparr>cn_config = \<lparr>kc_Brokers = [''b''], kc_Topic = ''t'', kc_RetryPolicy = None, kc_SASL = None, kc_TLS = None,
                   kc_CircuitBreaker = None, kc_ConnectTimeoutValue = 0, kc_GroupID = ''g'', kc_AutoCommit = True,
                   kc_MaxProcessingAttempts = 1\<rparr>,
      cn_circuitBreaker = None, cn_retryPolicy = None, cn_decodeErrorHandler = None, cn_maxProcessingAttempts = 1,
      cn_failedMessageHandler = Some (\<lambda>r e s. (Some e, s))\<rparr>"

text \<open>C22: what the consumer does with one record, whatever the handlers, the decoder, the context and the
  client do. Its log is one of these: failed calls of the handler and then a successful one; as many failed
  attempts as are allowed and then, if there is one, the answer of the handler of failed messages; a record
  that cannot be decoded with the answer of the handler of such records; or an interruption. A commit, if any,
  comes last, only with auto-commit, and only when the partition does not stop. The number of calls of the
  handler is bounded by the attempts that were left times those of the retry policy, and the attempts of other
  records do not change.\<close>

theorem kafka_record_settled:
  assumes "processRecord (logged_env env) (logged_consumer cn) r att (up, w, tr) = Some (stop, att', up', w', tr')"
  shows "\<exists>evs. tr' = tr @ evs \<and> record_log cn (tpo_of r) stop evs
    \<and> (0 < cn_maxProcessingAttempts cn \<longrightarrow>
         int (handler_calls evs) \<le> int (rounds_left cn (tpo_of r) att) * retry_limit (cn_retryPolicy cn))
    \<and> (\<forall>t. t \<noteq> tpo_of r \<longrightarrow> att' t = att t)"
  using assms by (rule processRecord_log)

lemma kafka_record_settled_witness:
  "record_log example_consumer (''t'', 0, 0) True
     [KHandled (''t'', 0, 0) (Some (Atom (ErrExternal 0))), KFailed (''t'', 0, 0) (Some (Atom (ErrExternal 0)))]"
proof -
  have "map_option (\<lambda>(stop, att, s). (stop, s))
      (processRecord (logged_env example_kafka_env) (logged_consumer example_consumer) (example_record 0) (\<lambda>_. None) (True, 0, []))
    = Some (True, True, 0,
        [KHandled (''t'', 0, 0) (Some (Atom (ErrExternal 0))), KFailed (''t'', 0, 0) (Some (Atom (ErrExternal 0)))])"
    by code_simp
  then obtain att where run: "processRecord (logged_env example_kafka_env) (logged_consumer example_consumer) (example_record 0)
      (\<lambda>_. None) (True, 0, []) = Some (True, att, True, 0,
        [KHandled (''t'', 0, 0) (Some (Atom (ErrExternal 0))), KFailed (''t'', 0, 0) (Some (Atom (ErrExternal 0)))])"
    by auto
  have "tpo_of (example_record 0) = (''t'', 0, 0)" by code_simp
  with kafka_record_settled [OF run] show ?thesis by simp
qed

text \<open>C23: with a bound on the attempts the processing of a record returns.\<close>

theorem kafka_record_returns:
  assumes "0 < cn_maxProcessingAttempts cn"
  shows "processRecord env cn r att s \<noteq> None"
proof -
  obtain up w where s: "s = (up, w)" by fastforce
  obtain d w1 where d: "ce_Decode env (kr_Value r) w = (d, w1)" by fastforce
  show ?thesis
  proof (cases d)
    case (Inr v)
    with d s process_loop_returns [OF assms] show ?thesis by (simp add: processRecord_def)
  next
    case (Inl e)
    with d s show ?thesis by (auto simp: processRecord_def split: option.split prod.split)
  qed
qed

lemma kafka_record_returns_witness:
  "processRecord example_kafka_env example_consumer (example_record 0) (\<lambda>_. None) (True, 0) \<noteq> None"
  by (rule kafka_record_returns) (simp add: example_consumer_def)

text \<open>C24: within one fetch nothing is committed in a partition after a message of it was refused by the
  handler of failed or of undecodable messages.\<close>

theorem kafka_fetch_stops_partition:
  assumes "each_record (logged_env env) (logged_consumer cn) rs {} att (up, w, tr) = Some (att', up', w', tr')"
  shows "\<exists>evs. tr' = tr @ evs \<and> no_commit_behind evs"
  using each_record_log [OF assms] by blast

lemma kafka_fetch_stops_partition_witness:
  "\<exists>att evs. each_record (logged_env example_kafka_env) (logged_consumer example_consumer)
       [example_record 0, example_record 1] {} (\<lambda>_. None) (True, 0, []) = Some (att, True, 0, evs)
     \<and> evs \<noteq> [] \<and> no_commit_behind evs"
proof -
  have "map_option snd (each_record (logged_env example_kafka_env) (logged_consumer example_consumer)
       [example_record 0, example_record 1] {} (\<lambda>_. None) (True, 0, []))
    = Some (True, 0,
        [KHandled (''t'', 0, 0) (Some (Atom (ErrExternal 0))), KFailed (''t'', 0, 0) (Some (Atom (ErrExternal 0)))])"
    by code_simp
  then obtain att where "each_record (logged_env example_kafka_env) (logged_consumer example_consumer)
       [example_record 0, example_record 1] {} (\<lambda>_. None) (True, 0, []) = Some (att, True, 0,
        [KHandled (''t'', 0, 0) (Some (Atom (ErrExternal 0))), KFailed (''t'', 0, 0) (Some (Atom (ErrExternal 0)))])"
    by auto
  from kafka_fetch_stops_partition [OF this] this show ?thesis by auto
qed

text \<open>A refused message does not stop its partition beyond the fetch it came in. Here the first message
  of a partition fails and the handler of failed messages refuses to let it pass; the next fetch goes on
  behind it, the second message is handled, and its commit covers the refused one.\<close>

lemma kafka_commits_past_refused:
  "map_option (\<lambda>(e, att, s). (e, s))
     (kafka_Consume (logged_env example_kafka_env) (logged_consumer example_consumer) (\<lambda>_. None) ((), False, 0, []))
   = Some (Atom ContextCanceled, (), True, 3,
       [KHandled (''t'', 0, 0) (Some (Atom (ErrExternal 0))), KFailed (''t'', 0, 0) (Some (Atom (ErrExternal 0))),
        KHandled (''t'', 0, 1) None, KCommit (''t'', 0, 1) None, KFlush])"
  by code_simp

end
