(* ===== verification/Go_Numbers.thy ===== *)
theory Go_Numbers
  imports Go_Url Retries
begin

text \<open>
  What the program uses of Go's package \<^verbatim>\<open>strconv\<close> to read numbers: \<open>ParseUint\<close> and \<open>ParseInt\<close> with base 10
  and 64 bits, and \<open>ParseFloat\<close> with 64 bits, whose rounding is the one of \<open>go_float\<close>.
\<close>

section \<open>Integers\<close>

definition decimal_digit :: "char \<Rightarrow> bool" where
  "decimal_digit c \<longleftrightarrow> 48 \<le> (of_char c :: nat) \<and> (of_char c :: nat) \<le> 57"

abbreviation ErrSyntax :: go_error where
  "ErrSyntax \<equiv> Atom (InPackage ''strconv'' ''ErrSyntax'')"

abbreviation ErrRange :: go_error where
  "ErrRange \<equiv> Atom (InPackage ''strconv'' ''ErrRange'')"

definition ParseUint :: "string \<Rightarrow> go_error + nat" where
  "ParseUint s =
     (if s = [] \<or> \<not> list_all decimal_digit s then Inl ErrSyntax
      else if 2 ^ 64 \<le> read_nat s then Inl ErrRange else Inr (read_nat s))"

definition split_sign :: "string \<Rightarrow> bool \<times> string" where
  "split_sign s = (case s of c # cs \<Rightarrow> if c = CHR ''-'' then (True, cs) else if c = CHR ''+'' then (False, cs) else (False, s)
                           | [] \<Rightarrow> (False, []))"

definition ParseInt :: "string \<Rightarrow> go_error + int" where
  "ParseInt s =
     (case split_sign s of (neg, t) \<Rightarrow>
        (case ParseUint t of
           Inl e \<Rightarrow> Inl e
         | Inr n \<Rightarrow> if neg then (if 2 ^ 63 < n then Inl ErrRange else Inr (- int n))
                    else (if 2 ^ 63 \<le> n then Inl ErrRange else Inr (int n))))"

section \<open>Floats\<close>

definition digit_of :: "bool \<Rightarrow> char \<Rightarrow> nat option" where
  "digit_of hex c =
     (let n = of_char c :: nat
      in if 48 \<le> n \<and> n \<le> 57 then Some (n - 48)
         else if hex \<and> 97 \<le> n \<and> n \<le> 102 then Some (n - 87)
         else if hex \<and> 65 \<le> n \<and> n \<le> 70 then Some (n - 55) else None)"

text \<open>Underscores stand between digits, or between a base prefix and a digit.\<close>

datatype underscore_state = AfterStart | AfterDigit | AfterUnderscore | AfterOther

fun underscores_after :: "bool \<Rightarrow> underscore_state \<Rightarrow> string \<Rightarrow> bool" where
  "underscores_after hex st [] = (st \<noteq> AfterUnderscore)"
| "underscores_after hex st (c # cs) =
     (if digit_of hex c \<noteq> None then underscores_after hex AfterDigit cs
      else if c = CHR ''_'' then st = AfterDigit \<and> underscores_after hex AfterUnderscore cs
      else st \<noteq> AfterUnderscore \<and> underscores_after hex AfterOther cs)"

definition underscoreOK :: "string \<Rightarrow> bool" where
  "underscoreOK s =
     (let t = snd (split_sign s)
      in case t of
           z # b # rest \<Rightarrow>
             if z = CHR ''0'' \<and> ToLower [b] \<in> set [''b'', ''o'', ''x'']
             then underscores_after (ToLower [b] = ''x'') AfterDigit rest else underscores_after False AfterStart t
         | _ \<Rightarrow> underscores_after False AfterStart t)"

text \<open>The mantissa: its digits as a number, how many of them follow the dot, whether there are any, and the rest.\<close>

fun read_mantissa :: "bool \<Rightarrow> bool \<Rightarrow> nat \<Rightarrow> nat \<Rightarrow> bool \<Rightarrow> string \<Rightarrow> nat \<times> nat \<times> bool \<times> string" where
  "read_mantissa hex dot m fraction sawdigits [] = (m, fraction, sawdigits, [])"
| "read_mantissa hex dot m fraction sawdigits (c # cs) =
     (if c = CHR ''_'' then read_mantissa hex dot m fraction sawdigits cs
      else if c = CHR ''.'' then
        (if dot then (m, fraction, sawdigits, c # cs) else read_mantissa hex True m fraction sawdigits cs)
      else (case digit_of hex c of
              None \<Rightarrow> (m, fraction, sawdigits, c # cs)
            | Some d \<Rightarrow> read_mantissa hex dot ((if hex then 16 else 10) * m + d)
                          (if dot then Suc fraction else fraction) True cs))"

definition exponent_char :: "bool \<Rightarrow> string" where
  "exponent_char hex = (if hex then ''p'' else ''e'')"

text \<open>The exponent behind its letter: an optional sign, a digit, then digits and underscores to the end.\<close>

definition read_exponent :: "string \<Rightarrow> int option" where
  "read_exponent s =
     (case split_sign s of (neg, t) \<Rightarrow>
        if t = [] \<or> \<not> decimal_digit (hd t) \<or> \<not> list_all (\<lambda>c. decimal_digit c \<or> c = CHR ''_'') t then None
        else Some ((if neg then -1 else 1) * int (read_nat (filter decimal_digit t))))"

definition scaled :: "bool \<Rightarrow> nat \<Rightarrow> nat \<Rightarrow> int \<Rightarrow> real" where
  "scaled hex m fraction e =
     (if hex then real m / 16 ^ fraction * (if e < 0 then 1 / 2 ^ nat (- e) else 2 ^ nat e)
      else real m / 10 ^ fraction * (if e < 0 then 1 / 10 ^ nat (- e) else 10 ^ nat e))"

definition read_float :: "string \<Rightarrow> real option" where
  "read_float s =
     (case split_sign s of (neg, t) \<Rightarrow>
        let hex = (length t > 2 \<and> t ! 0 = CHR ''0'' \<and> ToLower [t ! 1] = ''x'');
            sign = (if neg then -1 else 1)
        in case read_mantissa hex False 0 0 False (if hex then drop 2 t else t) of (m, fraction, sawdigits, rest) \<Rightarrow>
             if \<not> sawdigits \<or> (CHR ''_'' \<in> set s \<and> \<not> underscoreOK s) then None
             else (case rest of
                     [] \<Rightarrow> if hex then None else Some (sign * scaled hex m fraction 0)
                   | c # cs \<Rightarrow>
                       if ToLower [c] \<noteq> exponent_char hex then None
                       else map_option (\<lambda>e. sign * scaled hex m fraction e) (read_exponent cs)))"

text \<open>
  \<open>None\<close> stands for an error, an infinity or a NaN. A number whose nearest float would be above the greatest
  one is out of range, which is an error.
\<close>

definition ParseFloat :: "go_float \<Rightarrow> string \<Rightarrow> real option" where
  "ParseFloat fl s =
     (case read_float s of
        None \<Rightarrow> None
      | Some x \<Rightarrow> if 2 ^ 1024 - 2 ^ 970 \<le> \<bar>x\<bar> then None else Some (f_round fl x))"

lemma decimal_digitI: "c \<in> set ''0123456789'' \<Longrightarrow> decimal_digit c"
  by (auto simp: decimal_digit_def)

lemma show_nat_not_Nil [simp]: "show_nat n \<noteq> []"
  by (subst show_nat.simps) simp

text \<open>A number that is printed is read back, if it has 64 bits.\<close>

lemma ParseUint_show: "ParseUint (show_nat n) = (if 2 ^ 64 \<le> n then Inl ErrRange else Inr n)"
proof -
  have "list_all decimal_digit (show_nat n)"
    using show_nat_digits by (auto simp: list_all_iff intro: decimal_digitI)
  then show ?thesis by (simp add: ParseUint_def read_show_nat)
qed

lemma split_sign_show: "split_sign (show_nat n) = (False, show_nat n)"
  using show_nat_digits [of _ n] by (cases "show_nat n") (auto simp: split_sign_def)

lemma ParseInt_show:
  assumes "- (2 ^ 63) \<le> i" "i < 2 ^ 63"
  shows "ParseInt (show_int i) = Inr i"
proof (cases "i < 0")
  case True
  with assms show ?thesis
    by (simp add: ParseInt_def show_int_def ParseUint_show split_sign_def nat_le_iff)
next
  case False
  with assms show ?thesis
    by (simp add: ParseInt_def show_int_def ParseUint_show split_sign_show nat_le_iff)
qed

section \<open>Texts without spaces at their ends\<close>

lemma space_rune_ends:
  "r \<in> set space_runes \<Longrightarrow> r \<noteq> [] \<and> (\<forall>c \<in> {hd r, last r}. (of_char c :: nat) \<le> 32 \<or> 128 \<le> (of_char c :: nat))"
  by (auto simp: space_runes_def)

lemma trim_left_printable:
  assumes "\<forall>r \<in> set rs. r \<noteq> [] \<and> ((of_char (hd r) :: nat) \<le> 32 \<or> 128 \<le> (of_char (hd r) :: nat))"
    and "32 < (of_char c :: nat)" "(of_char c :: nat) < 128"
  shows "trim_left rs (c # cs) = c # cs"
proof -
  have "\<not> has_prefix (c # cs) r" if "r \<in> set rs" for r
    using assms that by (cases r) fastforce+
  then have "find (\<lambda>r. r \<noteq> [] \<and> has_prefix (c # cs) r) rs = None"
    unfolding find_None_iff by blast
  then show ?thesis by (subst trim_left.simps) simp
qed

lemma TrimSpace_printable:
  assumes "s \<noteq> []" "\<forall>c \<in> {hd s, last s}. 32 < (of_char c :: nat) \<and> (of_char c :: nat) < 128"
  shows "TrimSpace s = s"
proof -
  have "trim_left space_runes s = s"
    using assms space_rune_ends trim_left_printable [of space_runes "hd s" "tl s"] by auto
  moreover have "trim_left (map rev space_runes) (rev s) = rev s"
    using assms space_rune_ends trim_left_printable [of "map rev space_runes" "last s" "tl (rev s)"]
    by (auto simp: hd_rev simp flip: hd_rev)
  ultimately show ?thesis by (simp add: TrimSpace_def)
qed

end
