(* ===== verification/Http_Server.thy ===== *)
theory Http_Server
  imports Go_Numbers
begin

text \<open>
  Package \<^verbatim>\<open>http\<close>: how a handler's answer becomes a response. A request context of the third-party fasthttp
  (\<open>http_ctx\<close>) holds what the program reads of the request, the user values, and the calls that the program
  makes on the response, in their order; a handler changes a context. Marshalling, the Unicode tables of
  \<open>strings.ToLower\<close> and the reading of a response by fasthttp are parameters (\<open>server_env\<close>).
\<close>

section \<open>Contexts and responses\<close>

text \<open>\<open>ProtocolRenderer\<close>: the messages of an application for success and failure.\<close>

record 'm protocol_renderer =
  pr_Ok :: 'm
  pr_Error :: "int \<Rightarrow> go_error option \<Rightarrow> 'm"

record request_metadata =
  rm_RequestId :: string
  rm_CfIpCountry :: string
  rm_CfRay :: string
  rm_CfConnectingIp :: string

text \<open>The values that the package stores in a context; a logs expander is known by its name.\<close>

datatype 'm user_value =
    UvRenderer "'m protocol_renderer" | UvError go_error | UvMetadata request_metadata | UvText string
  | UvExpanders "string list"

text \<open>The calls on a response.\<close>

datatype response_call =
    SetStatusCode int | HeaderSet string string | HeaderAdd string string | SetBody "byte list" | Redirect string int

datatype log_value = LvBool bool | LvText string | LvInt int | LvError go_error

datatype log_line = LogError string go_error | LogEntry string string "(string \<times> log_value) list"

record 'm http_ctx =
  rq_Peek :: "string \<Rightarrow> string"
  rq_Method :: string
  rq_Path :: string
  rq_URI :: string
  rq_Body :: "byte list"
  cx_values :: "string \<rightharpoonup> 'm user_value"
  cx_response :: "response_call list"
  cx_log :: "log_line list"

type_synonym 'm request_handler = "'m http_ctx \<Rightarrow> 'm http_ctx"

record 'm server_env =
  se_float :: go_float
  se_ToLower :: "string \<Rightarrow> string"
  se_json_Marshal :: "'m \<Rightarrow> go_error + byte list"
  se_proto_Marshal :: "'m \<Rightarrow> go_error + byte list"
  se_json_Unmarshal :: "byte list \<Rightarrow> 'm \<Rightarrow> go_error option \<times> 'm"
  se_proto_Unmarshal :: "byte list \<Rightarrow> 'm \<Rightarrow> go_error option \<times> 'm"
  se_StatusCode :: "response_call list \<Rightarrow> int"
  se_BodyLength :: "response_call list \<Rightarrow> int"
  se_RealIp :: "(string \<Rightarrow> string) \<Rightarrow> string"

abbreviation http_error :: "string \<Rightarrow> sentinel" where
  "http_error \<equiv> InPackage ''http''"

definition respond :: "response_call \<Rightarrow> 'm request_handler" where
  "respond c ctx = ctx\<lparr>cx_response := cx_response ctx @ [c]\<rparr>"

definition SetUserValue :: "string \<Rightarrow> 'm user_value \<Rightarrow> 'm request_handler" where
  "SetUserValue k v ctx = ctx\<lparr>cx_values := (cx_values ctx)(k \<mapsto> v)\<rparr>"

definition log_to :: "log_line \<Rightarrow> 'm request_handler" where
  "log_to l ctx = ctx\<lparr>cx_log := cx_log ctx @ [l]\<rparr>"

text \<open>\<open>errors.Join\<close> drops nil errors.\<close>

definition joined_with :: "go_error \<Rightarrow> go_error option \<Rightarrow> go_error" where
  "joined_with e err = Wrap [] (e # (case err of None \<Rightarrow> [] | Some x \<Rightarrow> [x]))"

section \<open>Content negotiation\<close>

datatype dataFormatType = DataFormatUnknown | DataFormatJson | DataFormatProtobuf | DataFormatXProtobuf

definition mediaTypeJSON :: string where "mediaTypeJSON = ''application/json''"
definition mediaTypeProtobuf :: string where "mediaTypeProtobuf = ''application/protobuf''"
definition mediaTypeXProtobuf :: string where "mediaTypeXProtobuf = ''application/x-protobuf''"
definition mediaTypeAny :: string where "mediaTypeAny = ''*/*''"

lemmas media_types = mediaTypeJSON_def mediaTypeProtobuf_def mediaTypeXProtobuf_def mediaTypeAny_def

record acceptRange =
  ar_mediaType :: string
  ar_q :: real

text \<open>\<open>strings.ToLower\<close> has a case of its own for texts of ASCII bytes.\<close>

definition lower_text :: "'m server_env \<Rightarrow> string \<Rightarrow> string" where
  "lower_text se s = (if list_all (\<lambda>c. (of_char c :: nat) < 128) s then ToLower s else se_ToLower se s)"

text \<open>The loop over the parameters of a range: it stops at the first one that starts with \<open>q=\<close>.\<close>

fun quality_of :: "go_float \<Rightarrow> string list \<Rightarrow> real" where
  "quality_of fl [] = 1"
| "quality_of fl (param # params) =
     (if has_prefix (TrimSpace param) ''q='' then
        (case ParseFloat fl (TrimSpace (drop 2 (TrimSpace param))) of
           None \<Rightarrow> 1
         | Some v \<Rightarrow> if 0 \<le> v \<and> v \<le> 1 then v else 1)
      else quality_of fl params)"

definition parse_range :: "go_float \<Rightarrow> string \<Rightarrow> acceptRange" where
  "parse_range fl part =
     (if CHR '';'' \<in> set part then
        \<lparr>ar_mediaType = TrimSpace (fst (Cut (CHR '';'') part)),
         ar_q = quality_of fl (split_on (CHR '';'') (snd (Cut (CHR '';'') part)))\<rparr>
      else \<lparr>ar_mediaType = part, ar_q = 1\<rparr>)"

definition parseAcceptHeader :: "go_float \<Rightarrow> string \<Rightarrow> acceptRange list" where
  "parseAcceptHeader fl header =
     (if header = [] then [\<lparr>ar_mediaType = [], ar_q = 1\<rparr>]
      else map (parse_range fl) (filter (\<lambda>part. part \<noteq> []) (map TrimSpace (split_on (CHR '','') header))))"

definition mediaTypeToFormat :: "string \<Rightarrow> dataFormatType" where
  "mediaTypeToFormat mediaType =
     (if mediaType = mediaTypeJSON then DataFormatJson
      else if mediaType = mediaTypeProtobuf then DataFormatProtobuf
      else if mediaType = mediaTypeXProtobuf then DataFormatXProtobuf
      else if mediaType = mediaTypeAny then DataFormatJson
      else if mediaType = [] then DataFormatJson
      else DataFormatUnknown)"

fun first_format :: "acceptRange list \<Rightarrow> dataFormatType" where
  "first_format [] = DataFormatUnknown"
| "first_format (r # rs) =
     (if ar_q r = 0 then first_format rs
      else if mediaTypeToFormat (ar_mediaType r) \<noteq> DataFormatUnknown then mediaTypeToFormat (ar_mediaType r)
      else first_format rs)"

abbreviation no_format :: "string \<Rightarrow> go_error" where
  "no_format headerName \<equiv> Wrap (''can't recognize data format (in header '' @ headerName @ '')'') []"

definition getAcceptFormat :: "'m server_env \<Rightarrow> 'm http_ctx \<Rightarrow> string \<Rightarrow> go_error + dataFormatType" where
  "getAcceptFormat se ctx headerName =
     (let raw = lower_text se (TrimSpace (rq_Peek ctx headerName));
          f = first_format (sort_key (\<lambda>r. - ar_q r) (parseAcceptHeader (se_float se) raw))
      in if f \<noteq> DataFormatUnknown then Inr f else Inl (no_format headerName))"

definition getInputFormat :: "'m server_env \<Rightarrow> 'm http_ctx \<Rightarrow> go_error + dataFormatType" where
  "getInputFormat se ctx = getAcceptFormat se ctx ''Content-Type''"

definition getOutputFormat :: "'m server_env \<Rightarrow> 'm http_ctx \<Rightarrow> go_error + dataFormatType" where
  "getOutputFormat se ctx = getAcceptFormat se ctx ''Accept''"

definition ReadBody :: "'m server_env \<Rightarrow> 'm http_ctx \<Rightarrow> 'm \<Rightarrow> go_error option \<times> 'm" where
  "ReadBody se ctx obj =
     (case getInputFormat se ctx of
        Inl e \<Rightarrow> (Some e, obj)
      | Inr f \<Rightarrow>
          (case f of
             DataFormatJson \<Rightarrow> se_json_Unmarshal se (rq_Body ctx) obj
           | DataFormatProtobuf \<Rightarrow> se_proto_Unmarshal se (rq_Body ctx) obj
           | DataFormatXProtobuf \<Rightarrow> se_proto_Unmarshal se (rq_Body ctx) obj
           | DataFormatUnknown \<Rightarrow> (None, obj)))"

section \<open>Rendering\<close>

text \<open>The bytes and the content type of a message in a format.\<close>

definition marshalled :: "'m server_env \<Rightarrow> dataFormatType \<Rightarrow> 'm \<Rightarrow> (go_error + byte list) \<times> string" where
  "marshalled se f m =
     (case f of
        DataFormatJson \<Rightarrow> (se_json_Marshal se m, mediaTypeJSON)
      | DataFormatProtobuf \<Rightarrow> (se_proto_Marshal se m, mediaTypeProtobuf)
      | DataFormatXProtobuf \<Rightarrow> (se_proto_Marshal se m, mediaTypeXProtobuf)
      | DataFormatUnknown \<Rightarrow> (Inr [], []))"

definition renderResponse ::
  "'m server_env \<Rightarrow> 'm http_ctx \<Rightarrow> int \<Rightarrow> 'm \<Rightarrow> go_error option \<times> 'm http_ctx" where
  "renderResponse se ctx statusCode m =
     (case getOutputFormat se ctx of
        Inl e \<Rightarrow> (Some (Wrap ''getting output format'' [e]), ctx)
      | Inr f \<Rightarrow>
          (case marshalled se f m of
             (Inl e, _) \<Rightarrow> (Some e, ctx)
           | (Inr responseBytes, contentType) \<Rightarrow>
               (None, respond (SetBody responseBytes)
                        (respond (HeaderSet ''Content-Type'' contentType) (respond (SetStatusCode statusCode) ctx)))))"

text \<open>The renderer's methods log an error of \<open>renderResponse\<close> and leave it at that.\<close>

definition render_or_log :: "'m server_env \<Rightarrow> int \<Rightarrow> 'm \<Rightarrow> 'm request_handler" where
  "render_or_log se statusCode m ctx =
     (case renderResponse se ctx statusCode m of
        (Some e, ctx') \<Rightarrow> log_to (LogError ''output error'' e) ctx'
      | (None, ctx') \<Rightarrow> ctx')"

definition rr_Ok :: "'m server_env \<Rightarrow> 'm \<Rightarrow> 'm request_handler" where
  "rr_Ok se m = render_or_log se 200 m"

definition rr_EmptyOk :: "'m server_env \<Rightarrow> 'm protocol_renderer \<Rightarrow> 'm request_handler" where
  "rr_EmptyOk se pr = rr_Ok se (pr_Ok pr)"

definition rr_Created :: "'m server_env \<Rightarrow> 'm \<Rightarrow> 'm request_handler" where
  "rr_Created se m = render_or_log se 201 m"

definition error_status :: "go_error option \<Rightarrow> int" where
  "error_status err =
     (if is_err err (http_error ''ErrBadRequest'') then 400
      else if is_err err (http_error ''ErrNotFound'') then 404
      else if is_err err (http_error ''ErrUnauthorized'') then 401
      else if is_err err (http_error ''ErrForbidden'') then 403
      else if is_err err (http_error ''ErrInternalServerError'') then 500
      else 500)"

definition rr_Error :: "'m server_env \<Rightarrow> 'm protocol_renderer \<Rightarrow> go_error option \<Rightarrow> 'm request_handler" where
  "rr_Error se pr err ctx =
     (let ctx1 = (case err of None \<Rightarrow> ctx | Some e \<Rightarrow> SetUserValue ''RequestMetadataError'' (UvError e) ctx);
          statusCode = error_status err
      in render_or_log se statusCode (pr_Error pr statusCode err) ctx1)"

definition rr_InternalServerError ::
  "'m server_env \<Rightarrow> 'm protocol_renderer \<Rightarrow> go_error option \<Rightarrow> 'm request_handler" where
  "rr_InternalServerError se pr err = rr_Error se pr (Some (joined_with (Atom (http_error ''ErrInternalServerError'')) err))"

definition rr_BadRequest :: "'m server_env \<Rightarrow> 'm protocol_renderer \<Rightarrow> go_error option \<Rightarrow> 'm request_handler" where
  "rr_BadRequest se pr err = rr_Error se pr (Some (joined_with (Atom (http_error ''ErrBadRequest'')) err))"

definition rr_NotFound :: "'m server_env \<Rightarrow> 'm protocol_renderer \<Rightarrow> go_error option \<Rightarrow> 'm request_handler" where
  "rr_NotFound se pr err = rr_Error se pr (Some (joined_with (Atom (http_error ''ErrNotFound'')) err))"

definition rr_Unauthorized :: "'m server_env \<Rightarrow> 'm protocol_renderer \<Rightarrow> go_error option \<Rightarrow> 'm request_handler" where
  "rr_Unauthorized se pr err = rr_Error se pr (Some (joined_with (Atom (http_error ''ErrUnauthorized'')) err))"

definition rr_Forbidden :: "'m server_env \<Rightarrow> 'm protocol_renderer \<Rightarrow> go_error option \<Rightarrow> 'm request_handler" where
  "rr_Forbidden se pr err = rr_Error se pr (Some (joined_with (Atom (http_error ''ErrForbidden'')) err))"

text \<open>The functions of the package call the renderer that is stored in the context.\<close>

definition GetResponseRenderer :: "'m http_ctx \<Rightarrow> 'm protocol_renderer option" where
  "GetResponseRenderer ctx = (case cx_values ctx ''response_renderer'' of Some (UvRenderer pr) \<Rightarrow> Some pr | _ \<Rightarrow> None)"

definition withResponseRenderer :: "('m protocol_renderer \<Rightarrow> 'm request_handler) \<Rightarrow> 'm request_handler" where
  "withResponseRenderer fn ctx =
     (case GetResponseRenderer ctx of
        Some pr \<Rightarrow> fn pr ctx
      | None \<Rightarrow> log_to (LogError ''no response renderer'' (Atom (http_error ''ErrNoResponseRenderer''))) ctx)"

definition EmptyOk :: "'m server_env \<Rightarrow> 'm request_handler" where
  "EmptyOk se = withResponseRenderer (rr_EmptyOk se)"

definition http_Ok :: "'m server_env \<Rightarrow> 'm \<Rightarrow> 'm request_handler" where
  "http_Ok se m = withResponseRenderer (\<lambda>_. rr_Ok se m)"

definition http_Created :: "'m server_env \<Rightarrow> 'm \<Rightarrow> 'm request_handler" where
  "http_Created se m = withResponseRenderer (\<lambda>_. rr_Created se m)"

definition http_Error :: "'m server_env \<Rightarrow> go_error option \<Rightarrow> 'm request_handler" where
  "http_Error se err = withResponseRenderer (\<lambda>pr. rr_Error se pr err)"

definition HandleError :: "'m server_env \<Rightarrow> go_error option \<Rightarrow> 'm request_handler" where
  "HandleError se err = http_Error se err"

text \<open>The first of optional errors, each possibly nil.\<close>

definition first_err :: "go_error option list \<Rightarrow> go_error option" where
  "first_err errs = (case errs of [] \<Rightarrow> None | e # _ \<Rightarrow> e)"

definition InternalServerError :: "'m server_env \<Rightarrow> go_error option list \<Rightarrow> 'm request_handler" where
  "InternalServerError se errs = withResponseRenderer (\<lambda>pr. rr_InternalServerError se pr (first_err errs))"

definition BadRequest :: "'m server_env \<Rightarrow> go_error option list \<Rightarrow> 'm request_handler" where
  "BadRequest se errs = withResponseRenderer (\<lambda>pr. rr_BadRequest se pr (first_err errs))"

definition NotFound :: "'m server_env \<Rightarrow> go_error option list \<Rightarrow> 'm request_handler" where
  "NotFound se errs = withResponseRenderer (\<lambda>pr. rr_NotFound se pr (first_err errs))"

definition Unauthorized :: "'m server_env \<Rightarrow> go_error option list \<Rightarrow> 'm request_handler" where
  "Unauthorized se errs = withResponseRenderer (\<lambda>pr. rr_Unauthorized se pr (first_err errs))"

definition Forbidden :: "'m server_env \<Rightarrow> go_error option list \<Rightarrow> 'm request_handler" where
  "Forbidden se errs = withResponseRenderer (\<lambda>pr. rr_Forbidden se pr (first_err errs))"

section \<open>Responses with options\<close>

definition WithRedirect :: "string \<Rightarrow> int \<Rightarrow> 'm request_handler" where
  "WithRedirect url status = respond (Redirect url status)"

definition http_WithHeader :: "string \<Rightarrow> string \<Rightarrow> 'm request_handler" where
  "http_WithHeader key val = respond (HeaderSet key val)"

text \<open>A map is the list of its entries in the order of a \<open>range\<close> over it.\<close>

definition http_WithHeaders :: "(string \<times> string) list \<Rightarrow> 'm request_handler" where
  "http_WithHeaders hs ctx = fold (\<lambda>(key, val). respond (HeaderSet key val)) hs ctx"

definition WithStatusCode :: "int \<Rightarrow> 'm request_handler" where
  "WithStatusCode statusCode = respond (SetStatusCode statusCode)"

definition http_WithBody :: "byte list \<Rightarrow> 'm request_handler" where
  "http_WithBody body = respond (SetBody body)"

record 'm handler_response =
  hr_model :: "'m option"
  hr_options :: "'m request_handler list"

definition NewHttpResponseWithModel :: "'m option \<Rightarrow> 'm request_handler list \<Rightarrow> 'm handler_response" where
  "NewHttpResponseWithModel model options = \<lparr>hr_model = model, hr_options = options\<rparr>"

definition NewHttpResponseWithOptions :: "'m request_handler list \<Rightarrow> 'm handler_response" where
  "NewHttpResponseWithOptions options = \<lparr>hr_model = None, hr_options = options\<rparr>"

definition HandleHttp :: "'m server_env \<Rightarrow> 'm handler_response \<Rightarrow> 'm request_handler" where
  "HandleHttp se response ctx =
     (if hr_model response = None \<and> hr_options response = [] then
        InternalServerError se [Some (Atom (http_error ''ErrNoHttpResponseModelAndOptions''))] ctx
      else fold (\<lambda>option. option) (hr_options response)
             (case hr_model response of Some m \<Rightarrow> http_Ok se m ctx | None \<Rightarrow> ctx))"

section \<open>Middleware\<close>

definition ResponseRendererMiddleware_Handle ::
  "'m protocol_renderer \<Rightarrow> 'm request_handler \<Rightarrow> 'm request_handler" where
  "ResponseRendererMiddleware_Handle pr nxt ctx = nxt (SetUserValue ''response_renderer'' (UvRenderer pr) ctx)"

record cors_middleware =
  cm_origin :: string
  cm_extraHeaders :: "string list"

definition cors_addHeaders :: "cors_middleware \<Rightarrow> 'm request_handler" where
  "cors_addHeaders m ctx =
     (let headersStr = join_with '','' ([''Authorization'', ''Content-Type'', ''Accept'', ''Content-Encoding'',
                         ''Upgrade'', ''User-Agent''] @ cm_extraHeaders m)
      in respond (HeaderAdd ''Access-Control-Allow-Credentials'' ''true'')
         (respond (HeaderAdd ''Access-Control-Allow-Methods'' ''GET,HEAD,POST,PUT,PATCH,OPTIONS,DELETE'')
         (respond (HeaderAdd ''Access-Control-Allow-Headers'' headersStr)
         (respond (HeaderAdd ''Access-Control-Allow-Origin'' (cm_origin m)) ctx))))"

definition CorsMiddleware_Handle :: "'m server_env \<Rightarrow> cors_middleware \<Rightarrow> 'm request_handler \<Rightarrow> 'm request_handler" where
  "CorsMiddleware_Handle se m nxt ctx =
     (if rq_Method ctx = ''OPTIONS'' then EmptyOk se (cors_addHeaders m ctx)
      else nxt (cors_addHeaders m ctx))"

text \<open>The key of the logs expanders has a type of its own, so no other key is equal to it.\<close>

definition AddLogsExpanders :: "string list \<Rightarrow> 'm request_handler" where
  "AddLogsExpanders logsExpanders ctx =
     (let current = (case cx_values ctx ''logs_expanders'' of Some (UvExpanders es) \<Rightarrow> es | _ \<Rightarrow> [])
      in SetUserValue ''logs_expanders'' (UvExpanders (current @ logsExpanders)) ctx)"

text \<open>\<open>new_id\<close> is the text of the fresh UUID that the middleware asks for when the request has no identifier.\<close>

definition RequestMetadataMiddleware_Handle :: "string \<Rightarrow> 'm request_handler \<Rightarrow> 'm request_handler" where
  "RequestMetadataMiddleware_Handle new_id nxt ctx =
     (let requestId = (if rq_Peek ctx ''X-Request-Id'' = [] then new_id else rq_Peek ctx ''X-Request-Id'');
          metadata = \<lparr>rm_RequestId = requestId, rm_CfIpCountry = rq_Peek ctx ''cf-ipcountry'',
                      rm_CfRay = rq_Peek ctx ''cf-ray'', rm_CfConnectingIp = rq_Peek ctx ''cf-connecting-ip''\<rparr>
      in nxt (AddLogsExpanders [''request_metadata'']
               (SetUserValue ''RequestId'' (UvText requestId)
                 (SetUserValue ''RequestMetadata'' (UvMetadata metadata) ctx))))"

definition GetRequestMetadata :: "'m http_ctx \<Rightarrow> request_metadata option" where
  "GetRequestMetadata ctx = (case cx_values ctx ''RequestMetadata'' of Some (UvMetadata m) \<Rightarrow> Some m | _ \<Rightarrow> None)"

definition metadata_Expand :: "'m http_ctx \<Rightarrow> (string \<times> log_value) list \<Rightarrow> (string \<times> log_value) list" where
  "metadata_Expand ctx entry =
     (case GetRequestMetadata ctx of None \<Rightarrow> entry | Some m \<Rightarrow> entry @ [(''request_id'', LvText (rm_RequestId m))])"

definition text_field :: "string \<Rightarrow> string \<Rightarrow> (string \<times> log_value) list" where
  "text_field name s = (if s \<noteq> [] then [(name, LvText s)] else [])"

text \<open>The time in milliseconds comes from the clock of the context.\<close>

definition RequestLogHandler :: "'m server_env \<Rightarrow> int \<Rightarrow> 'm request_handler \<Rightarrow> 'm request_handler" where
  "RequestLogHandler se millis originalHandler ctx0 =
     (let ctx = originalHandler ctx0
      in if has_prefix (rq_Path ctx) ''/healthcheck'' then ctx
         else
           (let statusCode = se_StatusCode se (cx_response ctx);
                err = (case cx_values ctx ''RequestMetadataError'' of Some (UvError e) \<Rightarrow> Some e | _ \<Rightarrow> None);
                entry =
                  [(''success'', LvBool (200 \<le> statusCode \<and> statusCode \<le> 299)),
                   (''http_method'', LvText (rq_Method ctx)),
                   (''http_user_agent'', LvText (rq_Peek ctx ''User-Agent'')),
                   (''client_ip'', LvText (se_RealIp se (rq_Peek ctx))),
                   (''status_code'', LvInt statusCode),
                   (''response_time'', LvInt millis),
                   (''response_bytes'', LvInt (se_BodyLength se (cx_response ctx))),
                   (''logger'', LvText ''router'')]
                  @ (case err of None \<Rightarrow> [] | Some e \<Rightarrow> [(''error'', LvError e)])
                  @ (case GetRequestMetadata ctx of
                       None \<Rightarrow> []
                     | Some m \<Rightarrow> text_field ''request_id'' (rm_RequestId m) @ text_field ''cf_ip_country'' (rm_CfIpCountry m)
                                 @ text_field ''cf_ray'' (rm_CfRay m) @ text_field ''cf_connecting_ip'' (rm_CfConnectingIp m));
                ctx1 = log_to (LogEntry ''debug'' (rq_URI ctx) entry) ctx
            in if err = None then ctx1
               else log_to (LogEntry ''error'' ''Request failed'' (entry @ [(''uri'', LvText (rq_URI ctx))])) ctx1))"

section \<open>Parameters of a request\<close>

text \<open>\<open>strings.Split\<close> at a text that is not empty.\<close>

function split_text :: "string \<Rightarrow> string \<Rightarrow> string list" where
  "split_text sep [] = [[]]"
| "split_text sep (c # cs) =
     (if sep \<noteq> [] \<and> has_prefix (c # cs) sep then [] # split_text sep (drop (length sep) (c # cs))
      else (case split_text sep cs of y # ys \<Rightarrow> (c # y) # ys | [] \<Rightarrow> [[c]]))"
  by pat_completeness auto
termination
proof (relation "measure (\<lambda>(sep, s). length s)")
  fix sep and c :: char and cs
  assume "sep \<noteq> [] \<and> has_prefix (c # cs) sep"
  then have "0 < length sep" by simp
  then show "((sep, drop (length sep) (c # cs)), sep, c # cs) \<in> measure (\<lambda>(sep, s). length s)" by simp
qed simp_all

declare split_text.simps [simp del]

definition GetAuthorizationBearerToken :: "'m http_ctx \<Rightarrow> bool \<Rightarrow> go_error + string" where
  "GetAuthorizationBearerToken ctx optional =
     (let authorizationString = rq_Peek ctx ''Authorization'';
          missing = Wrap ''Authorization'' [Atom (http_error ''ErrNoHeader'')]
      in if authorizationString = [] then (if \<not> optional then Inl missing else Inr [])
         else if authorizationString = ''Bearer 123'' then (if \<not> optional then Inl missing else Inr [])
         else (case split_text ''Bearer '' authorizationString of
                 _ # token # _ \<Rightarrow> Inr token
               | _ \<Rightarrow> Inl (Wrap ''Authorization'' [Atom (http_error ''ErrHeaderIsMalformed'')])))"

definition ParseUint64 :: "string \<Rightarrow> go_error + nat" where
  "ParseUint64 = ParseUint"

definition http_ParseBool :: "'m server_env \<Rightarrow> string \<Rightarrow> go_error + bool" where
  "http_ParseBool se val =
     (let s = lower_text se val
      in if s \<in> set [''true'', ''1'', ''yes''] then Inr True
         else if s \<in> set [''false'', ''0'', ''no''] then Inr False
         else Inl (Wrap val [Atom (http_error ''ErrUnknownValueForBool'')]))"

text \<open>The seconds since 1970 of the resulting time.\<close>

definition ParseUnixTime :: "string \<Rightarrow> go_error + int" where
  "ParseUnixTime val = ParseInt val"

section \<open>Which format is chosen\<close>

text \<open>
  The reference: of the supported ranges whose quality is not zero, the first one with the greatest quality.
\<close>

definition acceptable :: "acceptRange \<Rightarrow> bool" where
  "acceptable r \<longleftrightarrow> ar_q r \<noteq> 0 \<and> mediaTypeToFormat (ar_mediaType r) \<noteq> DataFormatUnknown"

definition best_ranges :: "acceptRange list \<Rightarrow> acceptRange list" where
  "best_ranges rs = filter (\<lambda>r. acceptable r \<and> list_all (\<lambda>r'. acceptable r' \<longrightarrow> ar_q r' \<le> ar_q r) rs) rs"

lemma first_format_filter:
  "first_format rs = (case filter acceptable rs of [] \<Rightarrow> DataFormatUnknown | r # _ \<Rightarrow> mediaTypeToFormat (ar_mediaType r))"
  by (induction rs) (auto simp: acceptable_def)

lemma sorted_hd_least: "sorted (map f xs) \<Longrightarrow> x \<in> set xs \<Longrightarrow> f (hd xs) \<le> f x"
  by (cases xs) auto

text \<open>A stable sort begins with the first of the least elements.\<close>

lemma hd_sort_key:
  assumes "xs \<noteq> []"
  shows "hd (sort_key f xs) = hd (filter (\<lambda>x. \<forall>y \<in> set xs. f x \<le> f y) xs)"
proof -
  let ?h = "hd (sort_key f xs)"
  have ne: "sort_key f xs \<noteq> []" using assms by (metis length_0_conv length_sort)
  then have mem: "?h \<in> set xs" by (metis hd_in_set set_sort)
  have least: "f ?h \<le> f y" if "y \<in> set xs" for y
    using sorted_hd_least [of f "sort_key f xs" y] that by simp
  have "filter (\<lambda>x. f x = f ?h) (sort_key f xs) = filter (\<lambda>x. f x = f ?h) xs"
    by (simp add: sort_key_stable)
  moreover have "hd (filter (\<lambda>x. f x = f ?h) (sort_key f xs)) = ?h"
    using ne by (cases "sort_key f xs") auto
  moreover have "filter (\<lambda>x. f x = f ?h) xs = filter (\<lambda>x. \<forall>y \<in> set xs. f x \<le> f y) xs"
    using mem least by (intro filter_cong) (auto intro: antisym order_trans)
  ultimately show ?thesis by simp
qed

lemma first_format_sorted:
  "first_format (sort_key (\<lambda>r. - ar_q r) rs)
   = (case best_ranges rs of [] \<Rightarrow> DataFormatUnknown | r # _ \<Rightarrow> mediaTypeToFormat (ar_mediaType r))"
proof (cases "filter acceptable rs = []")
  case True
  then have "best_ranges rs = []" by (auto simp: best_ranges_def filter_empty_conv)
  with True show ?thesis by (simp add: first_format_filter filter_sort)
next
  case False
  have best: "filter (\<lambda>r. \<forall>y \<in> set (filter acceptable rs). - ar_q r \<le> - ar_q y) (filter acceptable rs) = best_ranges rs"
    by (auto simp: best_ranges_def list_all_iff filter_filter intro!: filter_cong)
  have "sort_key (\<lambda>r. - ar_q r) (filter acceptable rs) \<noteq> []" using False by (metis length_0_conv length_sort)
  then obtain r rest where r: "sort_key (\<lambda>r. - ar_q r) (filter acceptable rs) = r # rest" by (cases "sort_key (\<lambda>r. - ar_q r) (filter acceptable rs)") auto
  have "\<exists>x \<in> set (filter acceptable rs). \<forall>y \<in> set (filter acceptable rs). - ar_q x \<le> - ar_q y"
    using sorted_hd_least [of "\<lambda>r. - ar_q r" "sort_key (\<lambda>r. - ar_q r) (filter acceptable rs)"] r
    by (metis list.sel(1) list.set_intros(1) set_sort sorted_sort_key)
  then have "best_ranges rs \<noteq> []" unfolding best [symmetric] by (auto simp: filter_empty_conv)
  moreover have "hd (best_ranges rs) = r"
    using hd_sort_key [OF False, of "\<lambda>r. - ar_q r"] r best by simp
  ultimately show ?thesis using r by (cases "best_ranges rs") (simp_all add: first_format_filter filter_sort)
qed

text \<open>C30: The format of an answer is the one of the first media range of greatest quality among the ranges of the
  Accept header that the server supports and that the client does not refuse with quality zero; without such a
  range the negotiation fails. The stable sort and the search of the code compute exactly this reference.\<close>

theorem negotiation_picks_best:
  "getOutputFormat se ctx
   = (case best_ranges (parseAcceptHeader (se_float se) (lower_text se (TrimSpace (rq_Peek ctx ''Accept'')))) of
        [] \<Rightarrow> Inl (no_format ''Accept'')
      | r # _ \<Rightarrow> Inr (mediaTypeToFormat (ar_mediaType r)))"
proof -
  let ?rs = "parseAcceptHeader (se_float se) (lower_text se (TrimSpace (rq_Peek ctx ''Accept'')))"
  have "mediaTypeToFormat (ar_mediaType r) \<noteq> DataFormatUnknown" if "best_ranges ?rs = r # rest" for r rest
  proof -
    have "r \<in> set (best_ranges ?rs)" using that by simp
    then show ?thesis by (simp add: best_ranges_def acceptable_def)
  qed
  then show ?thesis
    by (auto simp: getOutputFormat_def getAcceptFormat_def Let_def first_format_sorted split: list.splits)
qed

section \<open>How errors are answered\<close>

definition status_table :: "(string \<times> int) list" where
  "status_table = [(''ErrBadRequest'', 400), (''ErrNotFound'', 404), (''ErrUnauthorized'', 401), (''ErrForbidden'', 403),
                   (''ErrInternalServerError'', 500)]"

text \<open>The helpers, with the error that each of them stands for.\<close>

definition error_helpers :: "'m server_env \<Rightarrow> (string \<times> (go_error option list \<Rightarrow> 'm request_handler)) list" where
  "error_helpers se = [(''ErrBadRequest'', BadRequest se), (''ErrNotFound'', NotFound se), (''ErrUnauthorized'', Unauthorized se),
                       (''ErrForbidden'', Forbidden se), (''ErrInternalServerError'', InternalServerError se)]"

lemmas helper_defs = BadRequest_def NotFound_def Unauthorized_def Forbidden_def InternalServerError_def
  rr_BadRequest_def rr_NotFound_def rr_Unauthorized_def rr_Forbidden_def rr_InternalServerError_def

lemma context_simps [simp]:
  "rq_Peek (SetUserValue k v ctx) = rq_Peek ctx"
  "cx_response (SetUserValue k v ctx) = cx_response ctx"
  "cx_log (SetUserValue k v ctx) = cx_log ctx"
  "cx_values (SetUserValue k v ctx) = (cx_values ctx)(k \<mapsto> v)"
  "cx_values (respond c ctx) = cx_values ctx"
  "cx_response (respond c ctx) = cx_response ctx @ [c]"
  "cx_log (respond c ctx) = cx_log ctx"
  "rq_Peek (respond c ctx) = rq_Peek ctx"
  "cx_response (log_to l ctx) = cx_response ctx"
  "cx_values (log_to l ctx) = cx_values ctx"
  "cx_log (log_to l ctx) = cx_log ctx @ [l]"
  by (simp_all add: SetUserValue_def respond_def log_to_def)

lemma getOutputFormat_cong: "rq_Peek ctx = rq_Peek ctx' \<Longrightarrow> getOutputFormat se ctx = getOutputFormat se ctx'"
  by (simp add: getOutputFormat_def getAcceptFormat_def)

lemma output_format_simps [simp]:
  "getOutputFormat se (SetUserValue k v ctx) = getOutputFormat se ctx"
  "getOutputFormat se (respond c ctx) = getOutputFormat se ctx"
  by (rule getOutputFormat_cong, simp)+

lemma helper_is_Error:
  assumes "(name, helper) \<in> set (error_helpers se)" "GetResponseRenderer ctx = Some pr"
  shows "helper errs ctx = rr_Error se pr (Some (joined_with (Atom (http_error name)) (first_err errs))) ctx"
  using assms by (auto simp: error_helpers_def helper_defs withResponseRenderer_def)

lemma joined_is [simp]: "err_is (joined_with e err) t \<longleftrightarrow> err_is e t \<or> is_err err t"
  by (cases err) (simp_all add: joined_with_def)

lemma helper_status:
  assumes "(name, helper) \<in> set (error_helpers se)"
  shows "error_status (Some (joined_with (Atom (http_error name)) err))
         = snd (hd (filter (\<lambda>(n, c). n = name \<or> is_err err (http_error n)) status_table))"
  using assms unfolding error_helpers_def error_status_def status_table_def
  by (simp, elim disjE conjE; simp)

text \<open>C31: An error helper of the package (BadRequest, NotFound, Unauthorized, Forbidden, InternalServerError), called
  with an optional error under an installed renderer and an acceptable format, answers exactly once, with the
  renderer's error message in that format. The status is the first of the table 400, 404, 401, 403, 500 whose error
  is the helper's own or is wrapped in the error that was passed. The joined error is left in the context for the
  request log.\<close>

theorem error_helper_answers:
  assumes "(name, helper) \<in> set (error_helpers se)"
    and "GetResponseRenderer ctx = Some pr"
    and "getOutputFormat se ctx = Inr f"
    and "status = snd (hd (filter (\<lambda>(n, c). n = name \<or> is_err (first_err errs) (http_error n)) status_table))"
    and "err = joined_with (Atom (http_error name)) (first_err errs)"
    and "marshalled se f (pr_Error pr status (Some err)) = (Inr bytes, contentType)"
  shows "cx_response (helper errs ctx)
           = cx_response ctx @ [SetStatusCode status, HeaderSet ''Content-Type'' contentType, SetBody bytes]
         \<and> cx_values (helper errs ctx) ''RequestMetadataError'' = Some (UvError err)"
  using assms helper_status [OF assms(1), of "first_err errs"]
  by (simp add: helper_is_Error [OF assms(1,2)] rr_Error_def Let_def render_or_log_def renderResponse_def)

text \<open>When the Accept header names no format that the server knows, no function of the package answers, neither
  with a message nor with an error: the response keeps the status it had, and the failure is only logged.\<close>

lemma unacceptable_never_answered:
  assumes "GetResponseRenderer ctx = Some pr" and "getOutputFormat se ctx = Inl e"
    and "h \<in> set ([http_Ok se m, http_Created se m, EmptyOk se, http_Error se err]
                   @ map (\<lambda>(name, helper). helper errs) (error_helpers se))"
  shows "cx_response (h ctx) = cx_response ctx
         \<and> cx_log (h ctx) = cx_log ctx @ [LogError ''output error'' (Wrap ''getting output format'' [e])]"
proof -
  have render: "cx_response (render_or_log se status msg c) = cx_response c
      \<and> cx_log (render_or_log se status msg c) = cx_log c @ [LogError ''output error'' (Wrap ''getting output format'' [e])]"
    if "getOutputFormat se c = Inl e" for status msg c
    using that by (simp add: render_or_log_def renderResponse_def)
  have rendered: "cx_response (rr_Error se pr err ctx) = cx_response ctx
      \<and> cx_log (rr_Error se pr err ctx) = cx_log ctx @ [LogError ''output error'' (Wrap ''getting output format'' [e])]" for err
    using assms(2) by (simp add: rr_Error_def Let_def render split: option.splits)
  from assms(3) consider "h \<in> set [http_Ok se m, http_Created se m, EmptyOk se, http_Error se err]"
    | name helper where "(name, helper) \<in> set (error_helpers se)" "h = helper errs"
    by auto
  then show ?thesis
  proof cases
    case 1
    with assms(1,2) render rendered show ?thesis
      by (auto simp: http_Ok_def http_Created_def EmptyOk_def http_Error_def withResponseRenderer_def rr_Ok_def rr_Created_def rr_EmptyOk_def)
  next
    case (2 name helper)
    with rendered show ?thesis by (simp add: helper_is_Error [OF 2(1) assms(1)])
  qed
qed

text \<open>An application whose messages are texts, and a request to it.\<close>

definition example_renderer :: "string protocol_renderer" where
  "example_renderer = \<lparr>pr_Ok = ''ok'', pr_Error = (\<lambda>status err. show_int status)\<rparr>"

definition example_server :: "string server_env" where
  "example_server = \<lparr>se_float = plain_float, se_ToLower = (\<lambda>s. s), se_json_Marshal = Inr, se_proto_Marshal = Inr,
     se_json_Unmarshal = (\<lambda>b m. (None, b)), se_proto_Unmarshal = (\<lambda>b m. (None, b)),
     se_StatusCode = (\<lambda>_. 200), se_BodyLength = (\<lambda>_. 0), se_RealIp = (\<lambda>_. [])\<rparr>"

definition example_request :: "string \<Rightarrow> string http_ctx" where
  "example_request accept =
     \<lparr>rq_Peek = (\<lambda>h. if h = ''Accept'' then accept else []), rq_Method = ''GET'', rq_Path = ''/'', rq_URI = ''/'',
      rq_Body = [], cx_values = [''response_renderer'' \<mapsto> UvRenderer example_renderer], cx_response = [], cx_log = []\<rparr>"

lemma example_renderer_found: "GetResponseRenderer (example_request a) = Some example_renderer"
  by (simp add: GetResponseRenderer_def example_request_def)

lemma example_accepts_protobuf:
  "getOutputFormat example_server (example_request ''application/protobuf'') = Inr DataFormatProtobuf"
  by (simp add: getOutputFormat_def getAcceptFormat_def example_request_def TrimSpace_printable lower_text_def ToLower_def
      parseAcceptHeader_def parse_range_def mediaTypeToFormat_def media_types)

lemma example_refuses_text:
  "getOutputFormat example_server (example_request ''text/html'') = Inl (no_format ''Accept'')"
  by (simp add: getOutputFormat_def getAcceptFormat_def example_request_def TrimSpace_printable lower_text_def ToLower_def
      parseAcceptHeader_def parse_range_def mediaTypeToFormat_def media_types)

theorem error_helper_answers_witness:
  "cx_response (NotFound example_server [Some (Atom (http_error ''ErrBadRequest''))] (example_request ''application/protobuf''))
   = [SetStatusCode 400, HeaderSet ''Content-Type'' ''application/protobuf'', SetBody (show_int 400)]"
  using error_helper_answers [of "''ErrNotFound''" "NotFound example_server" example_server
      "example_request ''application/protobuf''" example_renderer DataFormatProtobuf 400
      "[Some (Atom (http_error ''ErrBadRequest''))]"
      "joined_with (Atom (http_error ''ErrNotFound'')) (Some (Atom (http_error ''ErrBadRequest'')))"
      "show_int 400" "''application/protobuf''"] example_renderer_found example_accepts_protobuf
  by (simp add: error_helpers_def status_table_def first_err_def marshalled_def example_server_def example_renderer_def
      mediaTypeProtobuf_def) (simp add: example_request_def)

theorem unacceptable_never_answered_witness:
  "cx_response (http_Error example_server None (example_request ''text/html'')) = []
   \<and> cx_response (NotFound example_server [] (example_request ''text/html'')) = []"
  using unacceptable_never_answered [OF example_renderer_found example_refuses_text,
      of "http_Error example_server None" "[]" None "[]"]
    unacceptable_never_answered [OF example_renderer_found example_refuses_text, of "NotFound example_server []" "[]" None "[]"]
  by (simp add: error_helpers_def) (simp add: example_request_def)

section \<open>What middleware guarantees\<close>

text \<open>Behind the renderer's middleware, a preflight request is answered by the CORS middleware alone: whatever
  the handler would do, the response gets the four CORS headers and, in an acceptable format, status 200 with the
  renderer's message of success; every other request reaches the handler with the same headers added.\<close>

lemma cors_answers_preflight:
  "cx_response (ResponseRendererMiddleware_Handle pr (CorsMiddleware_Handle se m nxt) ctx)
   = (let cors = cors_addHeaders m (SetUserValue ''response_renderer'' (UvRenderer pr) ctx) in
      if rq_Method ctx = ''OPTIONS'' then
        cx_response ctx
        @ [HeaderAdd ''Access-Control-Allow-Origin'' (cm_origin m),
           HeaderAdd ''Access-Control-Allow-Headers''
             (join_with '','' ([''Authorization'', ''Content-Type'', ''Accept'', ''Content-Encoding'', ''Upgrade'', ''User-Agent'']
                              @ cm_extraHeaders m)),
           HeaderAdd ''Access-Control-Allow-Methods'' ''GET,HEAD,POST,PUT,PATCH,OPTIONS,DELETE'',
           HeaderAdd ''Access-Control-Allow-Credentials'' ''true'']
        @ (case getOutputFormat se ctx of
             Inr f \<Rightarrow> (case marshalled se f (pr_Ok pr) of
                        (Inr bytes, contentType) \<Rightarrow> [SetStatusCode 200, HeaderSet ''Content-Type'' contentType, SetBody bytes]
                      | (Inl _, _) \<Rightarrow> [])
           | Inl _ \<Rightarrow> [])
      else cx_response (nxt cors))"
proof -
  let ?c = "cors_addHeaders m (SetUserValue ''response_renderer'' (UvRenderer pr) ctx)"
  have same_method: "rq_Method (SetUserValue k v ctx) = rq_Method ctx" for k v by (simp add: SetUserValue_def)
  have found: "GetResponseRenderer ?c = Some pr" and accept: "getOutputFormat se ?c = getOutputFormat se ctx"
    by (simp_all add: GetResponseRenderer_def cors_addHeaders_def Let_def)
  have "cx_response (EmptyOk se ?c)
        = cx_response ?c @ (case getOutputFormat se ctx of
             Inr f \<Rightarrow> (case marshalled se f (pr_Ok pr) of
                        (Inr bytes, contentType) \<Rightarrow> [SetStatusCode 200, HeaderSet ''Content-Type'' contentType, SetBody bytes]
                      | (Inl _, _) \<Rightarrow> [])
           | Inl _ \<Rightarrow> [])"
    unfolding EmptyOk_def withResponseRenderer_def found rr_EmptyOk_def rr_Ok_def render_or_log_def renderResponse_def accept
    by (simp split: sum.split prod.split)
  then show ?thesis
    by (simp add: Let_def ResponseRendererMiddleware_Handle_def CorsMiddleware_Handle_def same_method cors_addHeaders_def)
qed

text \<open>The handler behind the metadata middleware finds the metadata, and their identifier as a value of its own.\<close>

lemma request_id_known:
  assumes "ctx' = SetUserValue ''RequestId'' (UvText (rm_RequestId md)) (SetUserValue ''RequestMetadata'' (UvMetadata md) ctx)"
  shows "GetRequestMetadata (AddLogsExpanders es ctx') = Some md
         \<and> cx_values (AddLogsExpanders es ctx') ''RequestId'' = Some (UvText (rm_RequestId md))"
  using assms by (simp add: GetRequestMetadata_def AddLogsExpanders_def Let_def)

text \<open>CORS outside of the renderer's middleware: the answer to a preflight request is only its headers.\<close>

lemma preflight_without_renderer:
  assumes "rq_Method ctx = ''OPTIONS''" "cx_values ctx ''response_renderer'' = None"
  shows "cx_response (CorsMiddleware_Handle se m (ResponseRendererMiddleware_Handle pr nxt) ctx)
         = cx_response (cors_addHeaders m ctx)"
  using assms by (simp add: CorsMiddleware_Handle_def EmptyOk_def withResponseRenderer_def GetResponseRenderer_def
      cors_addHeaders_def Let_def)

section \<open>Bearer tokens\<close>

lemma split_text_none:
  assumes "\<forall>i. \<not> has_prefix (drop i t) sep"
  shows "split_text sep t = [t]"
  using assms
proof (induction t)
  case (Cons c t)
  have "\<not> has_prefix (c # t) sep" using Cons.prems [rule_format, of 0] by simp
  moreover have "split_text sep t = [t]"
    using Cons.IH Cons.prems by (metis drop_Suc_Cons)
  ultimately show ?case by (subst split_text.simps) simp
qed (simp add: split_text.simps)

lemma split_text_prefix: "sep \<noteq> [] \<Longrightarrow> split_text sep (sep @ t) = [] # split_text sep t"
  by (cases sep) (simp_all add: split_text.simps)

text \<open>A token that is sent as a bearer token is read back, unless it is \<open>123\<close>.\<close>

lemma bearer_token_read:
  assumes "rq_Peek ctx ''Authorization'' = ''Bearer '' @ t" "t \<noteq> ''123''" "\<forall>i. \<not> has_prefix (drop i t) ''Bearer ''"
  shows "GetAuthorizationBearerToken ctx optional = Inr t"
  using assms(1,2) split_text_prefix [of "''Bearer ''" t] split_text_none [OF assms(3)]
  by (simp add: GetAuthorizationBearerToken_def)

lemma bearer_123_missing:
  assumes "rq_Peek ctx ''Authorization'' = ''Bearer 123''"
  shows "GetAuthorizationBearerToken ctx True = Inr [] \<and> (\<exists>e. GetAuthorizationBearerToken ctx False = Inl e)"
  using assms by (simp add: GetAuthorizationBearerToken_def)

text \<open>The refusal of one type does not count against a wildcard.\<close>

lemma refused_json_chosen:
  "best_ranges [\<lparr>ar_mediaType = mediaTypeJSON, ar_q = 0\<rparr>, \<lparr>ar_mediaType = mediaTypeAny, ar_q = 1\<rparr>]
   = [\<lparr>ar_mediaType = mediaTypeAny, ar_q = 1\<rparr>]"
  by (simp add: best_ranges_def acceptable_def mediaTypeToFormat_def media_types)

end
