(* ===== verification/Services.thy ===== *)
theory Services
  imports Http_Server
begin

text \<open>
  The services around a program's life: registration by name and the concurrent shutdown of services
  (\<^verbatim>\<open>control_flow\<close>), values that are loaded again after a while (\<^verbatim>\<open>preloader\<close>), the scheduler
  (\<^verbatim>\<open>scheduler\<close>), the HTTP server and its routes (\<^verbatim>\<open>http/server.go\<close>, \<^verbatim>\<open>http/router.go\<close>) and the health
  check (\<^verbatim>\<open>http/healthcheck\<close>). Services, loaders, contexts and clocks are parameters. A time is an integer of
  nanoseconds since Go's zero time.
\<close>

section \<open>Control flow\<close>

text \<open>
  A service is what its \<open>Stop\<close> does to the world; a service that can only be closed or stopped without an error is
  adapted by \<open>NewClosable\<close> and \<open>NewStoppable\<close>.
\<close>

type_synonym 'w shutdown = "'w \<Rightarrow> go_error option \<times> 'w"

definition NewClosable :: "('w \<Rightarrow> 'w) \<Rightarrow> 'w shutdown" where
  "NewClosable close_service w = (None, close_service w)"

definition NewClosableWithError :: "'w shutdown \<Rightarrow> 'w shutdown" where
  "NewClosableWithError close_service w = close_service w"

definition NewStoppable :: "('w \<Rightarrow> 'w) \<Rightarrow> 'w shutdown" where
  "NewStoppable stop_service w = (None, stop_service w)"

record 'w control_flow =
  cf_cancelled :: bool
  cf_services :: "string \<rightharpoonup> 'w shutdown"

definition NewControlFlow :: "'w control_flow" where
  "NewControlFlow = \<lparr>cf_cancelled = False, cf_services = Map.empty\<rparr>"

definition RegisterShutdownService :: "string \<Rightarrow> 'w shutdown \<Rightarrow> 'w control_flow \<Rightarrow> 'w control_flow" where
  "RegisterShutdownService name service c = c\<lparr>cf_services := (cf_services c)(name \<mapsto> service)\<rparr>"

definition RegisterClosableService :: "string \<Rightarrow> ('w \<Rightarrow> 'w) \<Rightarrow> 'w control_flow \<Rightarrow> 'w control_flow" where
  "RegisterClosableService name closer = RegisterShutdownService name (NewClosable closer)"

definition RegisterClosableWithErrorService :: "string \<Rightarrow> 'w shutdown \<Rightarrow> 'w control_flow \<Rightarrow> 'w control_flow" where
  "RegisterClosableWithErrorService name closer = RegisterShutdownService name (NewClosableWithError closer)"

definition RegisterStoppableService :: "string \<Rightarrow> ('w \<Rightarrow> 'w) \<Rightarrow> 'w control_flow \<Rightarrow> 'w control_flow" where
  "RegisterStoppableService name stoppable = RegisterShutdownService name (NewStoppable stoppable)"

definition RegisterShutdownServiceWithName :: "string \<times> 'w shutdown \<Rightarrow> 'w control_flow \<Rightarrow> 'w control_flow" where
  "RegisterShutdownServiceWithName service c = c\<lparr>cf_services := (cf_services c)(fst service \<mapsto> snd service)\<rparr>"

text \<open>
  \<open>WaitForInterrupt\<close> on the events of the process, until it returns. It asks for every signal
  (\<open>signal.NotifyContext\<close> without a list) and acts on an interrupt, so no other signal has its usual effect.
\<close>

datatype os_signal = Interrupt | Terminate | OtherSignal nat

datatype process_event = SignalArrives os_signal | ContextDone

fun WaitForInterrupt :: "process_event list \<Rightarrow> 'w control_flow \<Rightarrow> (process_event list \<times> 'w control_flow) option" where
  "WaitForInterrupt [] c = None"
| "WaitForInterrupt (ContextDone # evs) c = Some (evs, c)"
| "WaitForInterrupt (SignalArrives s # evs) c =
     (if s = Interrupt then Some (evs, c\<lparr>cf_cancelled := True\<rparr>) else WaitForInterrupt evs c)"

text \<open>
  \<open>Shutdown\<close> starts a goroutine per registered service and waits for all of them; \<open>order\<close> lists the names in the
  order in which the calls of \<open>Stop\<close> take effect. The result is the outcome of every service.
\<close>

fun stop_each :: "(string \<rightharpoonup> 'w shutdown) \<Rightarrow> string list \<Rightarrow> 'w \<Rightarrow> (string \<times> go_error option) list \<times> 'w" where
  "stop_each services [] w = ([], w)"
| "stop_each services (name # names) w =
     (case services name of
        None \<Rightarrow> stop_each services names w
      | Some stop \<Rightarrow>
          ((name, fst (stop w)) # fst (stop_each services names (snd (stop w))),
           snd (stop_each services names (snd (stop w)))))"

definition cf_Shutdown :: "string list \<Rightarrow> 'w control_flow \<Rightarrow> 'w \<Rightarrow> (string \<times> go_error option) list \<times> 'w" where
  "cf_Shutdown order c w = stop_each (cf_services c) order w"

text \<open>The registrations of a program, in their order.\<close>

definition register_all :: "(string \<times> 'w shutdown) list \<Rightarrow> 'w control_flow \<Rightarrow> 'w control_flow" where
  "register_all rs c = fold (\<lambda>(name, service). RegisterShutdownService name service) rs c"

lemma register_all_services:
  "cf_services (register_all rs c) = cf_services c ++ map_of (rev rs)"
  by (induction rs arbitrary: c) (auto simp: register_all_def RegisterShutdownService_def map_add_def fun_eq_iff split: option.splits)

lemma stop_each_names: "set order \<subseteq> dom services \<Longrightarrow> map fst (fst (stop_each services order w)) = order"
  by (induction order arbitrary: w) auto

text \<open>A world that counts the stops of each service.\<close>

definition counting :: "nat \<Rightarrow> (nat \<Rightarrow> nat) shutdown" where
  "counting s w = (None, w(s := Suc (w s)))"

lemma stop_each_counts:
  assumes "set order \<subseteq> dom services"
  shows "snd (stop_each (map_option counting \<circ> services) order w) s
         = w s + length (filter (\<lambda>name. services name = Some s) order)"
  using assms by (induction order arbitrary: w) (auto simp: counting_def)

lemma map_of_counting: "map_of (rev (map (\<lambda>(name, s). (name, counting s)) rs)) = map_option counting \<circ> map_of (rev rs)"
proof -
  have "map_of (map (\<lambda>(name, s). (name, counting s)) xs) = map_option counting \<circ> map_of xs" for xs :: "('a \<times> nat) list"
    by (induction xs) auto
  then show ?thesis by (simp add: rev_map)
qed

text \<open>Whatever the order in which the goroutines of Shutdown run, and whatever was registered before: for every
  name, the service that was registered last under it is stopped, once, and a service that was registered under an
  earlier use of the name is never stopped. Services are numbered and the world counts their stops.\<close>

lemma shutdown_stops_latest:
  assumes "distinct order" and "set order = fst ` set rs"
    and "c = register_all (map (\<lambda>(name, s). (name, counting s)) rs) NewControlFlow"
  shows "snd (cf_Shutdown order c (\<lambda>_. 0)) s = card {name. map_of (rev rs) name = Some s}
         \<and> map fst (fst (cf_Shutdown order c (\<lambda>_. 0))) = order"
proof -
  let ?m = "map_of (rev rs)"
  have services: "cf_services c = map_option counting \<circ> ?m"
    by (simp add: assms(3) register_all_services NewControlFlow_def map_of_counting)
  have dom: "set order = dom ?m" using assms(2) by (simp add: dom_map_of_conv_image_fst)
  then have "length (filter (\<lambda>name. ?m name = Some s) order) = card {name. ?m name = Some s}"
    using assms(1) by (auto simp flip: distinct_card intro!: arg_cong [where f = card])
  moreover have "dom (map_option counting \<circ> ?m) = dom ?m" by auto
  ultimately show ?thesis
    using dom stop_each_counts [of order ?m "\<lambda>_. 0" s] stop_each_names [of order "cf_services c"]
    by (simp add: cf_Shutdown_def services)
qed

theorem shutdown_stops_latest_witness:
  "snd (cf_Shutdown [''http'', ''db'']
      (register_all (map (\<lambda>(name, s). (name, counting s)) [(''http'', 1), (''db'', 2), (''http'', 3)]) NewControlFlow)
      (\<lambda>_. 0)) 1 = 0"
proof -
  have "{name. map_of (rev [(''http'', 1 :: nat), (''db'', 2), (''http'', 3)]) name = Some 1} = {}"
    by (auto split: if_splits)
  then show ?thesis
    using shutdown_stops_latest [of "[''http'', ''db'']" "[(''http'', 1), (''db'', 2), (''http'', 3)]" _ 1, OF _ _ refl]
    by auto
qed

text \<open>A signal other than the interrupt does not end the wait.\<close>

lemma terminate_is_swallowed: "WaitForInterrupt (replicate n (SignalArrives Terminate)) c = None"
  by (induction n) auto

section \<open>Preloader\<close>

record 'v preloader =
  ld_name :: string
  ld_defaultValue :: 'v
  ld_ttl :: int
  ld_currentValue :: 'v
  ld_lastRefreshAt :: int

record ('w, 'v) preload_env =
  le_loader :: "'w \<Rightarrow> (go_error + 'v) \<times> 'w"
  le_Now :: "'w \<Rightarrow> int \<times> 'w"

abbreviation ErrGetValue :: sentinel where "ErrGetValue \<equiv> InPackage ''preloader'' ''ErrGetValue''"
abbreviation ErrRefreshValue :: sentinel where "ErrRefreshValue \<equiv> InPackage ''preloader'' ''ErrRefreshValue''"

definition NewPreloader :: "string \<Rightarrow> int \<Rightarrow> 'v \<Rightarrow> 'v preloader" where
  "NewPreloader name ttl defaultValue =
     \<lparr>ld_name = name, ld_defaultValue = defaultValue, ld_ttl = ttl, ld_currentValue = defaultValue, ld_lastRefreshAt = 0\<rparr>"

definition isExpired :: "'v preloader \<Rightarrow> int \<Rightarrow> bool" where
  "isExpired p now \<longleftrightarrow> ld_lastRefreshAt p + ld_ttl p < now"

definition preloader_Refresh ::
  "('w, 'v) preload_env \<Rightarrow> 'v preloader \<Rightarrow> 'w \<Rightarrow> ('v \<times> go_error option) \<times> 'v preloader \<times> 'w" where
  "preloader_Refresh le p w =
     (case le_loader le w of
        (Inl e, w1) \<Rightarrow> ((ld_defaultValue p, Some (Wrap [] [Atom ErrRefreshValue, e])), p, w1)
      | (Inr v, w1) \<Rightarrow>
          (case le_Now le w1 of (now, w2) \<Rightarrow>
             ((v, None), p\<lparr>ld_currentValue := v, ld_lastRefreshAt := now\<rparr>, w2)))"

definition preloader_Value ::
  "('w, 'v) preload_env \<Rightarrow> 'v preloader \<Rightarrow> 'w \<Rightarrow> ('v \<times> go_error option) \<times> 'v preloader \<times> 'w" where
  "preloader_Value le p w =
     (case le_Now le w of (now, w1) \<Rightarrow>
        if \<not> isExpired p now then ((ld_currentValue p, None), p, w1)
        else (case preloader_Refresh le p w1 of
                ((_, Some e), p', w2) \<Rightarrow> ((ld_defaultValue p', Some (Wrap [] [Atom ErrGetValue, e])), p', w2)
              | ((v, None), p', w2) \<Rightarrow> ((v, None), p', w2)))"

text \<open>
  A fresh value is served without the loader; when the loader fails, the default value is returned even if an
  older loaded value is at hand, and the state stays as it was, so the next call loads again.
\<close>

lemma preloader_fresh:
  "\<not> isExpired p (fst (le_Now le w)) \<Longrightarrow> preloader_Value le p w = ((ld_currentValue p, None), p, snd (le_Now le w))"
  by (cases "le_Now le w") (simp add: preloader_Value_def)

lemma preloader_outage:
  assumes "isExpired p (fst (le_Now le w))" "le_loader le (snd (le_Now le w)) = (Inl e, w1)"
  shows "preloader_Value le p w = ((ld_defaultValue p, Some (Wrap [] [Atom ErrGetValue, Wrap [] [Atom ErrRefreshValue, e]])), p, w1)"
  using assms by (cases "le_Now le w") (simp add: preloader_Value_def preloader_Refresh_def)

lemma preloader_reload:
  assumes "isExpired p (fst (le_Now le w))" "le_loader le (snd (le_Now le w)) = (Inr v, w1)"
  shows "preloader_Value le p w
         = ((v, None), p\<lparr>ld_currentValue := v, ld_lastRefreshAt := fst (le_Now le w1)\<rparr>, snd (le_Now le w1))"
  using assms by (cases "le_Now le w"; cases "le_Now le w1") (simp add: preloader_Value_def preloader_Refresh_def)

section \<open>Time tracking\<close>

record time_tracker =
  tt_Start :: int
  tt_End :: int

text \<open>The end of a new tracker is Go's zero time.\<close>

definition NewTimeTracker :: "('w \<Rightarrow> int \<times> 'w) \<Rightarrow> 'w \<Rightarrow> time_tracker \<times> 'w" where
  "NewTimeTracker clk w = (\<lparr>tt_Start = fst (clk w), tt_End = 0\<rparr>, snd (clk w))"

text \<open>\<open>Time.Sub\<close> saturates at the least and the greatest duration.\<close>

definition tt_Duration :: "time_tracker \<Rightarrow> int" where
  "tt_Duration t = max (- (2 ^ 63)) (min (2 ^ 63 - 1) (tt_End t - tt_Start t))"

definition tt_Finish :: "('w \<Rightarrow> int \<times> 'w) \<Rightarrow> time_tracker \<Rightarrow> 'w \<Rightarrow> int \<times> time_tracker \<times> 'w" where
  "tt_Finish clk t w =
     (let t1 = t\<lparr>tt_End := fst (clk w)\<rparr> in (tt_Duration t1, t1, snd (clk w)))"

section \<open>Scheduler\<close>

text \<open>
  Where \<open>Start\<close> stands: at its \<open>select\<close>, behind the timer, before a question for more work, before a tick, in the
  inner loop, or returned. The observations are what the context, the clock and the handler answer.
\<close>

datatype scheduler_pc = AtSelect | AfterTimer | AskFirst | TickFirst | InnerCheck | AskInner | TickInner | Returned go_error

datatype scheduler_event = CtxDone go_error | TimerFired | CtxErr "go_error option" | HasNextWas bool | Ticked

abbreviation errContext :: sentinel where "errContext \<equiv> InPackage ''scheduler'' ''errContext''"

inductive scheduler_step :: "scheduler_pc \<Rightarrow> scheduler_event \<Rightarrow> scheduler_pc \<Rightarrow> bool" where
  done_selected: "scheduler_step AtSelect (CtxDone e) (Returned e)"
| timer_selected: "scheduler_step AtSelect TimerFired AfterTimer"
| ended_after_timer: "scheduler_step AfterTimer (CtxErr (Some e)) (Returned (Wrap [] [Atom errContext, e]))"
| alive_after_timer: "scheduler_step AfterTimer (CtxErr None) AskFirst"
| nothing_to_do: "scheduler_step AskFirst (HasNextWas False) AtSelect"
| something_to_do: "scheduler_step AskFirst (HasNextWas True) TickFirst"
| first_tick: "scheduler_step TickFirst Ticked InnerCheck"
| ended_inside: "scheduler_step InnerCheck (CtxErr (Some e)) (Returned (Wrap [] [Atom errContext, e]))"
| alive_inside: "scheduler_step InnerCheck (CtxErr None) AskInner"
| nothing_left: "scheduler_step AskInner (HasNextWas False) AtSelect"
| something_left: "scheduler_step AskInner (HasNextWas True) TickInner"
| next_tick: "scheduler_step TickInner Ticked InnerCheck"

inductive scheduler_run :: "scheduler_event list \<Rightarrow> scheduler_pc \<Rightarrow> bool" where
  started: "scheduler_run [] AtSelect"
| stepped: "scheduler_run tr pc \<Longrightarrow> scheduler_step pc ev pc' \<Longrightarrow> scheduler_run (tr @ [ev]) pc'"

inductive_cases scheduler_stepE: "scheduler_step pc ev pc'"

text \<open>Every tick directly follows a positive answer of the handler, given while the context was alive.\<close>

definition tick_due :: "scheduler_event list \<Rightarrow> scheduler_pc \<Rightarrow> bool" where
  "tick_due tr pc \<longleftrightarrow>
     (pc \<in> {AskFirst, AskInner} \<longrightarrow> (\<exists>ys. tr = ys @ [CtxErr None]))
     \<and> (pc \<in> {TickFirst, TickInner} \<longrightarrow> (\<exists>ys. tr = ys @ [CtxErr None, HasNextWas True]))
     \<and> (\<forall>xs zs. tr = xs @ Ticked # zs \<longrightarrow> (\<exists>ys. xs = ys @ [CtxErr None, HasNextWas True]))
     \<and> length (filter (\<lambda>ev. ev = HasNextWas True) tr)
       = length (filter (\<lambda>ev. ev = Ticked) tr) + (if pc \<in> {TickFirst, TickInner} then 1 else 0)"

lemma snoc_split: "tr @ [ev] = xs @ y # zs \<longleftrightarrow> (zs = [] \<and> tr = xs \<and> ev = y) \<or> (\<exists>zs'. zs = zs' @ [ev] \<and> tr = xs @ y # zs')"
  by (cases zs rule: rev_cases) auto

lemma scheduler_ticks_due: "scheduler_run tr pc \<Longrightarrow> tick_due tr pc"
proof (induction rule: scheduler_run.induct)
  case started
  show ?case by (simp add: tick_due_def)
next
  case (stepped tr pc ev pc')
  then show ?case
    by (auto simp: tick_due_def snoc_split elim!: scheduler_stepE)
qed

section \<open>HTTP server\<close>

record 'm http_server =
  hs_name :: string
  hs_bindingAddress :: string
  hs_handler :: "'m request_handler"
  hs_connected :: bool

text \<open>\<open>net.JoinHostPort\<close> brackets a host with a colon.\<close>

definition JoinHostPort :: "string \<Rightarrow> string \<Rightarrow> string" where
  "JoinHostPort host port =
     (if CHR '':'' \<in> set host then ''['' @ host @ '']:'' @ port else host @ '':'' @ port)"

definition server_Address :: "string \<Rightarrow> int \<Rightarrow> string" where
  "server_Address host port = JoinHostPort host (show_int port)"

definition NewServer :: "string \<Rightarrow> string \<Rightarrow> int \<Rightarrow> 'm request_handler \<Rightarrow> 'm http_server" where
  "NewServer name host port handler =
     \<lparr>hs_name = name, hs_bindingAddress = server_Address host port, hs_handler = handler, hs_connected = False\<rparr>"

text \<open>What \<open>ListenAndServe\<close> receives first: the end of its context, or the return of fasthttp.\<close>

datatype serve_event = ContextEnded go_error | ServeReturned "go_error option"

definition ListenAndServe :: "'m http_server \<Rightarrow> serve_event \<Rightarrow> go_error option \<times> 'm http_server" where
  "ListenAndServe s ev =
     (case ev of
        ContextEnded err \<Rightarrow> if \<not> err_is err ContextCanceled then Some err else None
      | ServeReturned err \<Rightarrow> err,
      s\<lparr>hs_connected := True\<rparr>)"

text \<open>\<open>shutdown\<close> is fasthttp's answer to \<open>ShutdownWithContext\<close>; it is asked only once the server has been started.\<close>

definition server_Stop :: "'m http_server \<Rightarrow> go_error option \<Rightarrow> go_error option" where
  "server_Stop s shutdown = (if \<not> hs_connected s then None else shutdown)"

text \<open>A router is the list of its routes; the third-party router dispatches a request among them.\<close>

datatype route_method = OPTIONS | GET | POST | DELETE

type_synonym 'm router = "(route_method \<times> string \<times> 'm request_handler) list"

definition add_route :: "route_method \<Rightarrow> string \<Rightarrow> 'm request_handler \<Rightarrow> 'm router \<Rightarrow> 'm router" where
  "add_route mthd path handle r = r @ [(mthd, path, handle)]"

section \<open>Health check\<close>

text \<open>A service answers from the state of the world; a named service has a name.\<close>

type_synonym 'w health_service = "string option \<times> ('w \<Rightarrow> bool)"

definition Named :: "string \<Rightarrow> 'w health_service \<Rightarrow> 'w health_service" where
  "Named name service = (Some name, snd service)"

record 'w health_handler =
  hh_ReCheckAfter :: int
  hh_logs :: bool
  hh_services :: "'w health_service list"
  hh_ok :: bool

text \<open>The lines that a check logs.\<close>

definition failed_lines :: "'w health_handler \<Rightarrow> 'w \<Rightarrow> string list" where
  "failed_lines h w =
     (if hh_logs h then
        map (\<lambda>(name, isOK). ''healthcheck failed: '' @ (case name of None \<Rightarrow> ''unknown'' | Some n \<Rightarrow> n))
            (filter (\<lambda>(name, isOK). \<not> isOK w) (hh_services h))
      else [])"

definition performCheck :: "'w health_handler \<Rightarrow> 'w \<Rightarrow> 'w health_handler \<times> string list" where
  "performCheck h w = (h\<lparr>hh_ok := list_all (\<lambda>(name, isOK). isOK w) (hh_services h)\<rparr>, failed_lines h w)"

text \<open>\<open>time.NewTicker\<close> panics for a duration that is not positive, after the first check.\<close>

definition NewHandler :: "int \<Rightarrow> bool \<Rightarrow> 'w health_service list \<Rightarrow> 'w \<Rightarrow> ('w health_handler \<times> string list) option" where
  "NewHandler reCheckAfter logs services w =
     (if reCheckAfter \<le> 0 then None
      else Some (performCheck \<lparr>hh_ReCheckAfter = reCheckAfter, hh_logs = logs, hh_services = services, hh_ok = False\<rparr> w))"

text \<open>The loop of \<open>check\<close>: a check at every tick, in the world of that moment, until the context ends.\<close>

datatype 'w check_event = TickerFired 'w | CheckContextDone

fun check_loop :: "'w health_handler \<Rightarrow> 'w check_event list \<Rightarrow> 'w health_handler \<times> string list" where
  "check_loop h [] = (h, [])"
| "check_loop h (CheckContextDone # evs) = (h, [])"
| "check_loop h (TickerFired w # evs) =
     (fst (check_loop (fst (performCheck h w)) evs),
      snd (performCheck h w) @ snd (check_loop (fst (performCheck h w)) evs))"

definition GetReadiness :: "'w health_handler \<Rightarrow> 'm request_handler" where
  "GetReadiness h = respond (SetStatusCode (if \<not> hh_ok h then 503 else 200))"

definition health_routes :: "'w health_handler \<Rightarrow> 'm request_handler \<Rightarrow> 'm router" where
  "health_routes h about =
     add_route GET ''/about'' about
       (add_route GET ''/healthcheck/readiness'' (GetReadiness h)
         (add_route GET ''/healthcheck'' (GetReadiness h) []))"

text \<open>The world of the last check: the one of the start, or of the last tick before the context ended.\<close>

fun last_checked :: "'w \<Rightarrow> 'w check_event list \<Rightarrow> 'w" where
  "last_checked w [] = w"
| "last_checked w (CheckContextDone # evs) = w"
| "last_checked w (TickerFired w' # evs) = last_checked w' evs"

lemma check_loop_ok:
  "hh_ok h = list_all (\<lambda>(name, isOK). isOK w) (hh_services h) \<Longrightarrow>
   hh_ok (fst (check_loop h evs)) = list_all (\<lambda>(name, isOK). isOK (last_checked w evs)) (hh_services h)"
proof (induction h evs arbitrary: w rule: check_loop.induct)
  case (3 h w' evs)
  then show ?case using "3.IH" [of w'] by (simp add: performCheck_def)
qed simp_all

text \<open>At any time, the readiness handler answers 200 when every service was well at the last check that took
  place, the one of the constructor or one of the ticker before the context ended, and 503 otherwise; nothing else
  of the response is touched.\<close>

lemma readiness_reports_last_check:
  assumes "NewHandler reCheckAfter logs services w = Some (h, lines)"
    and "h' = fst (check_loop h evs)"
  shows "cx_response (GetReadiness h' ctx)
         = cx_response ctx @ [SetStatusCode (if \<forall>(name, isOK) \<in> set services. isOK (last_checked w evs) then 200 else 503)]"
proof -
  have "hh_services h = services" "hh_ok h = list_all (\<lambda>(name, isOK). isOK w) (hh_services h)"
    using assms(1) by (auto simp: NewHandler_def performCheck_def split: if_splits)
  then show ?thesis
    using check_loop_ok [of h w evs] assms(2) by (simp add: GetReadiness_def list_all_iff)
qed

theorem readiness_reports_last_check_witness:
  "cx_response (GetReadiness (fst (check_loop
      (fst (performCheck \<lparr>hh_ReCheckAfter = 5, hh_logs = True, hh_services = [(None, \<lambda>w :: nat. w < 3)], hh_ok = False\<rparr> 1))
      [TickerFired 4, CheckContextDone, TickerFired 2])) (example_request []))
   = [SetStatusCode 503]"
  using readiness_reports_last_check [of 5 True "[(None, \<lambda>w :: nat. w < 3)]" 1 _ _ _ "[TickerFired 4, CheckContextDone, TickerFired 2]" "example_request []", OF _ refl]
  by (simp add: NewHandler_def performCheck_def) (simp add: example_request_def)

end
