(* ===== verification/Net_Servers.thy ===== *)
theory Net_Servers
  imports Services
begin

text \<open>
  Package \<^verbatim>\<open>net\<close>: addresses (\<^verbatim>\<open>address.go\<close>), connections (\<^verbatim>\<open>net_connection.go\<close>, \<^verbatim>\<open>packet_connection.go\<close>), the handler
  and its clients, the lifecycle of a server (\<^verbatim>\<open>internal/server\<close>), the UDP server, and Start and Stop of the servers for
  streams, TCP and Unix sockets. A handler and its clients act on a world (\<open>net_handler\<close>); the reads of the UDP server
  are a list of events, and a server that still waits has no result: \<open>None\<close>. The goroutines of a server for streams
  are a step relation (\<open>server_step\<close>). Sessions of streams and of WebSocket are in \<open>Net_Sessions\<close>.
\<close>

section \<open>Addresses\<close>

record net_address =
  na_host :: string
  na_port :: int

definition NewAddress :: "string \<Rightarrow> int \<Rightarrow> net_address" where
  "NewAddress host port = \<lparr>na_host = host, na_port = port\<rparr>"

abbreviation AddrError :: go_error where
  "AddrError \<equiv> Atom (InPackage ''net'' ''AddrError'')"

text \<open>\<open>net.SplitHostPort\<close>; the port follows the last colon, and a bracketed host ends right before it.\<close>

definition SplitHostPort :: "string \<Rightarrow> go_error + string \<times> string" where
  "SplitHostPort s =
     (case CutLast (CHR '':'') s of
        None \<Rightarrow> Inl AddrError
      | Some (before, port) \<Rightarrow>
          if hd s = CHR ''['' then
            (let end_index = length (takeWhile (\<lambda>c. c \<noteq> CHR '']'') s)
             in if CHR '']'' \<notin> set s \<or> Suc end_index \<noteq> length before then Inl AddrError
                else if CHR ''['' \<in> set (drop 1 s) \<or> CHR '']'' \<in> set (drop (Suc end_index) s) then Inl AddrError
                else Inr (drop 1 (take end_index s), port))
          else if CHR '':'' \<in> set before \<or> CHR ''['' \<in> set s \<or> CHR '']'' \<in> set s then Inl AddrError
          else Inr (before, port))"

definition NewAddressFromString :: "string \<Rightarrow> net_address" where
  "NewAddressFromString address =
     (case SplitHostPort address of
        Inl _ \<Rightarrow> NewAddress address 0
      | Inr (host, portValue) \<Rightarrow>
          (case ParseInt portValue of Inl _ \<Rightarrow> NewAddress host 0 | Inr port \<Rightarrow> NewAddress host port))"

definition NewAddressFromNet :: "string option \<Rightarrow> net_address" where
  "NewAddressFromNet address = (case address of None \<Rightarrow> NewAddress [] 0 | Some s \<Rightarrow> NewAddressFromString s)"

record net_addresses =
  na_local :: net_address
  na_remote :: net_address

definition NewAddressesFromNet :: "string option \<Rightarrow> string option \<Rightarrow> net_addresses" where
  "NewAddressesFromNet loc rem = \<lparr>na_local = NewAddressFromNet loc, na_remote = NewAddressFromNet rem\<rparr>"

section \<open>Connections\<close>

text \<open>A connection knows its identifier and its addresses; a socket reports how many bytes it wrote.\<close>

record net_connection =
  nn_id :: string
  nn_address :: net_addresses

abbreviation ErrNetWrite :: sentinel where "ErrNetWrite \<equiv> InPackage ''net'' ''ErrNetWrite''"
abbreviation ErrNetClosed :: sentinel where "ErrNetClosed \<equiv> InPackage ''net'' ''ErrClosed''"

definition NewNetConnection :: "string \<Rightarrow> string option \<Rightarrow> string option \<Rightarrow> net_connection" where
  "NewNetConnection ident loc rem = \<lparr>nn_id = ident, nn_address = NewAddressesFromNet loc rem\<rparr>"

text \<open>\<open>Write\<close> of a stream and of a packet connection; \<open>write\<close> is the one of the socket.\<close>

definition net_Write ::
  "('m list \<Rightarrow> go_error + byte list) \<Rightarrow> (byte list \<Rightarrow> 'w \<Rightarrow> (int \<times> go_error option) \<times> 'w) \<Rightarrow> 'm list \<Rightarrow> 'w
   \<Rightarrow> go_error option \<times> 'w" where
  "net_Write Marshal write messages w =
     (case Marshal messages of
        Inl e \<Rightarrow> (Some (Wrap ''marshal'' [e]), w)
      | Inr buffer \<Rightarrow>
          (case write buffer w of
             ((num, Some e), w1) \<Rightarrow> (Some e, w1)
           | ((num, None), w1) \<Rightarrow>
               (if num \<noteq> int (length buffer) then Some (Wrap ''wrote'' [Atom ErrNetWrite]) else None, w1)))"

section \<open>Sessions\<close>

record ('w, 'c, 'm) net_handler =
  nh_Handle :: "net_connection \<Rightarrow> 'w \<Rightarrow> (go_error + 'c) \<times> 'w"
  nh_OnConnect :: "'c \<Rightarrow> 'w \<Rightarrow> go_error option \<times> 'w"
  nh_OnWrite :: "'c \<Rightarrow> 'm \<Rightarrow> 'w \<Rightarrow> go_error option \<times> 'w"
  nh_OnClose :: "'c \<Rightarrow> 'w \<Rightarrow> go_error option \<times> 'w"

definition IsClosed :: "bool \<Rightarrow> go_error option \<Rightarrow> bool" where
  "IsClosed ctx_over err =
     (case err of None \<Rightarrow> False | Some e \<Rightarrow> if err_is e ErrNetClosed then True else ctx_over)"

definition OpenClient ::
  "('w, 'c, 'm) net_handler \<Rightarrow> net_connection \<Rightarrow> 'w \<Rightarrow> (go_error + 'c) \<times> 'w" where
  "OpenClient h connection w =
     (case nh_Handle h connection w of
        (Inl e, w1) \<Rightarrow> (Inl (Wrap ''failed to handle connection'' [e]), w1)
      | (Inr client, w1) \<Rightarrow>
          (case nh_OnConnect h client w1 of
             (Some e, w2) \<Rightarrow> (Inl (Wrap ''failed to handle OnConnect'' [e]), w2)
           | (None, w2) \<Rightarrow> (Inr client, w2)))"

text \<open>A nil client is not closed; an error is only logged.\<close>

definition CloseClient :: "('w, 'c, 'm) net_handler \<Rightarrow> 'c option \<Rightarrow> 'w \<Rightarrow> 'w" where
  "CloseClient h client w = (case client of None \<Rightarrow> w | Some c \<Rightarrow> snd (nh_OnClose h c w))"

section \<open>WebSocket\<close>

record websocket_options =
  wo_CheckOrigin :: bool
  wo_Subprotocols :: "string list"
  wo_EnableCompression :: bool
  wo_HandshakeTimeout :: int
  wo_ReadBufferSize :: int
  wo_WriteBufferSize :: int
  wo_writeMessageType :: int

type_synonym websocket_option = "websocket_options \<Rightarrow> websocket_options"

definition WithCheckOrigin :: websocket_option where "WithCheckOrigin o1 = o1\<lparr>wo_CheckOrigin := True\<rparr>"
definition WithSubprotocols :: "string list \<Rightarrow> websocket_option" where "WithSubprotocols ps o1 = o1\<lparr>wo_Subprotocols := ps\<rparr>"
definition WithCompression :: "bool \<Rightarrow> websocket_option" where "WithCompression b o1 = o1\<lparr>wo_EnableCompression := b\<rparr>"
definition WithHandshakeTimeout :: "int \<Rightarrow> websocket_option" where "WithHandshakeTimeout d o1 = o1\<lparr>wo_HandshakeTimeout := d\<rparr>"
definition WithReadBufferSize :: "int \<Rightarrow> websocket_option" where "WithReadBufferSize n o1 = o1\<lparr>wo_ReadBufferSize := n\<rparr>"
definition WithWriteBufferSize :: "int \<Rightarrow> websocket_option" where "WithWriteBufferSize n o1 = o1\<lparr>wo_WriteBufferSize := n\<rparr>"
definition WithWriteMessageType :: "int \<Rightarrow> websocket_option" where "WithWriteMessageType n o1 = o1\<lparr>wo_writeMessageType := n\<rparr>"

text \<open>2 is the type of binary messages.\<close>

definition default_websocket_options :: websocket_options where
  "default_websocket_options = \<lparr>wo_CheckOrigin = False, wo_Subprotocols = [], wo_EnableCompression = False,
     wo_HandshakeTimeout = 0, wo_ReadBufferSize = 0, wo_WriteBufferSize = 0, wo_writeMessageType = 2\<rparr>"

definition NewWebsocket :: "websocket_option list \<Rightarrow> websocket_options" where
  "NewWebsocket opts = fold (\<lambda>f. f) opts default_websocket_options"

text \<open>
  \<open>Write\<close> sets the deadline of the context, if it has one, before it marshals; \<open>closeConnection\<close> closes the network
  connection that is at hand. Both hold the mutex of the connection.
\<close>

definition websocket_Write ::
  "('m list \<Rightarrow> go_error + byte list) \<Rightarrow> ('w \<Rightarrow> go_error option \<times> 'w) option \<Rightarrow> (byte list \<Rightarrow> 'w \<Rightarrow> go_error option \<times> 'w)
   \<Rightarrow> 'm list \<Rightarrow> 'w \<Rightarrow> go_error option \<times> 'w" where
  "websocket_Write Marshal set_deadline write messages w =
     (case (case set_deadline of None \<Rightarrow> (None, w) | Some f \<Rightarrow> f w) of
        (Some e, w1) \<Rightarrow> (Some (Wrap ''set write deadline'' [e]), w1)
      | (None, w1) \<Rightarrow>
          (case Marshal messages of
             Inl e \<Rightarrow> (Some (Wrap ''marshal'' [e]), w1)
           | Inr bytes \<Rightarrow> write bytes w1))"

definition closeConnection ::
  "('w \<Rightarrow> go_error option \<times> 'w) option option \<Rightarrow> ('w \<Rightarrow> go_error option \<times> 'w) option \<Rightarrow> 'w \<Rightarrow> go_error option \<times> 'w" where
  "closeConnection connection netConnection w =
     (case netConnection of
        Some close \<Rightarrow> close w
      | None \<Rightarrow>
          (case connection of
             None \<Rightarrow> (Some (Atom ErrNetClosed), w)
           | Some inner \<Rightarrow> (case inner of Some close \<Rightarrow> close w | None \<Rightarrow> (Some (Atom ErrNetClosed), w))))"

section \<open>Lifecycle\<close>

text \<open>
  The resource of a server, a listener or a socket, and the function that cancels its context. \<open>Shutdown\<close> takes both
  under the mutex and uses them afterwards: \<open>cancel\<close> and \<open>close\<close> act on the world.
\<close>

record ('w, 'r) lifecycle =
  lc_resource :: "'r option"
  lc_cancel :: "('w \<Rightarrow> 'w) option"

definition NewLifecycle :: "('w, 'r) lifecycle" where
  "NewLifecycle = \<lparr>lc_resource = None, lc_cancel = None\<rparr>"

definition lc_Set :: "'r \<Rightarrow> ('w \<Rightarrow> 'w) \<Rightarrow> ('w, 'r) lifecycle \<Rightarrow> ('w, 'r) lifecycle" where
  "lc_Set resource cancel l = l\<lparr>lc_resource := Some resource, lc_cancel := Some cancel\<rparr>"

definition lc_Get :: "('w, 'r) lifecycle \<Rightarrow> 'r option" where
  "lc_Get l = lc_resource l"

definition lc_Shutdown ::
  "('r \<Rightarrow> 'w \<Rightarrow> go_error option \<times> 'w) \<Rightarrow> ('w \<Rightarrow> bool) \<Rightarrow> string \<Rightarrow> ('w, 'r) lifecycle \<Rightarrow> 'w
   \<Rightarrow> go_error option \<times> ('w, 'r) lifecycle \<times> 'w" where
  "lc_Shutdown close ctx_over resourceName l w =
     (let w1 = (case lc_cancel l of None \<Rightarrow> w | Some cancel \<Rightarrow> cancel w)
      in case lc_resource l of
           None \<Rightarrow> (None, NewLifecycle, w1)
         | Some resource \<Rightarrow>
             (case close resource w1 of (err, w2) \<Rightarrow>
                (case err of
                   Some e \<Rightarrow> if \<not> IsClosed (ctx_over w2) (Some e) then Some (Wrap (''close '' @ resourceName) [e]) else None
                 | None \<Rightarrow> None,
                 NewLifecycle, w2)))"

text \<open>A second shutdown does nothing.\<close>

lemma shutdown_twice: "lc_Shutdown close ctx_over name NewLifecycle w = (None, NewLifecycle, w)"
  by (simp add: lc_Shutdown_def NewLifecycle_def)

section \<open>UDP\<close>

text \<open>
  The sessions by the text of the remote address, and the reads: what a look at the context and at the lifecycle says
  before a read, the datagram that arrives, the error that comes with it, and whether the context ends before the loop
  looks at it again. A context that ends while a datagram is handled stops the protocol's \<open>Read\<close> at some point, which
  the number tells apart from other points.
\<close>

datatype read_context = ContextAlive | ContextEnds nat

record udp_read =
  ur_ctx_over :: bool
  ur_has_socket :: bool
  ur_datagram :: "byte list"
  ur_remote :: "string option"
  ur_err :: "go_error option"
  ur_context :: read_context

definition ReadBufferSize :: nat where "ReadBufferSize = 32 * 1024"

type_synonym 'c udp_clients = "(string \<times> 'c) list"

text \<open>\<open>connect\<close> makes a connection to the address, with an identifier of its own each time.\<close>

definition udp_getClient ::
  "('w, 'c, 'm) net_handler \<Rightarrow> (string \<Rightarrow> 'w \<Rightarrow> net_connection \<times> 'w) \<Rightarrow> string \<Rightarrow> 'c udp_clients \<Rightarrow> 'w
   \<Rightarrow> (go_error + 'c) \<times> 'c udp_clients \<times> 'w" where
  "udp_getClient h connect key clients w =
     (case map_of clients key of
        Some client \<Rightarrow> (Inr client, clients, w)
      | None \<Rightarrow>
          (case connect key w of (connection, w1) \<Rightarrow>
             (case OpenClient h connection w1 of
                (Inl e, w2) \<Rightarrow> (Inl e, clients, w2)
              | (Inr client, w2) \<Rightarrow> (Inr client, clients @ [(key, client)], w2))))"

text \<open>
  \<open>Read\<close> is the one of the protocol on a reader over the datagram: an error, or the messages that arrive on its channel
  before it closes. It is given the context, and may hand over less when the context ends.
\<close>

type_synonym 'm udp_protocol = "read_context \<Rightarrow> byte list \<Rightarrow> go_error + 'm list"

definition udp_handleDatagram ::
  "('w, 'c, 'm) net_handler \<Rightarrow> 'm udp_protocol \<Rightarrow> (string \<Rightarrow> 'w \<Rightarrow> net_connection \<times> 'w) \<Rightarrow> string \<Rightarrow> read_context
   \<Rightarrow> byte list \<Rightarrow> 'c udp_clients \<Rightarrow> 'w \<Rightarrow> go_error option \<times> 'c udp_clients \<times> 'w" where
  "udp_handleDatagram h Read connect key ctx datagram clients w =
     (case udp_getClient h connect key clients w of
        (Inl e, clients1, w1) \<Rightarrow> (Some e, clients1, w1)
      | (Inr client, clients1, w1) \<Rightarrow>
          (case Read ctx datagram of
             Inl e \<Rightarrow> (Some (Wrap ''read protocol'' [e]), clients1, w1)
           | Inr messages \<Rightarrow> (None, clients1, fold (\<lambda>m w. snd (nh_OnWrite h client m w)) messages w1)))"

text \<open>The buffer cuts a datagram that is longer.\<close>

definition udp_datagram ::
  "('w, 'c, 'm) net_handler \<Rightarrow> 'm udp_protocol \<Rightarrow> (string \<Rightarrow> 'w \<Rightarrow> net_connection \<times> 'w) \<Rightarrow> udp_read
   \<Rightarrow> 'c udp_clients \<times> 'w \<Rightarrow> 'c udp_clients \<times> 'w" where
  "udp_datagram h Read connect r cw =
     (case ur_remote r of
        Some key \<Rightarrow>
          if ur_datagram r \<noteq> [] then
            snd (udp_handleDatagram h Read connect key (ur_context r) (take ReadBufferSize (ur_datagram r)) (fst cw) (snd cw))
          else cw
      | None \<Rightarrow> cw)"

text \<open>A context that has ended is seen by \<open>IsClosed\<close>, or else by the loop before its next read.\<close>

fun readMessages ::
  "('w, 'c, 'm) net_handler \<Rightarrow> 'm udp_protocol \<Rightarrow> (string \<Rightarrow> 'w \<Rightarrow> net_connection \<times> 'w) \<Rightarrow> udp_read list
   \<Rightarrow> 'c udp_clients \<times> 'w \<Rightarrow> (go_error option \<times> 'c udp_clients \<times> 'w) option" where
  "readMessages h Read connect [] cw = None"
| "readMessages h Read connect (r # rs) cw =
     (if ur_ctx_over r \<or> \<not> ur_has_socket r then Some (None, cw)
      else
        (let cw1 = udp_datagram h Read connect r cw
         in case ur_err r of
              None \<Rightarrow> if ur_context r \<noteq> ContextAlive then Some (None, cw1) else readMessages h Read connect rs cw1
            | Some e \<Rightarrow>
                if IsClosed (ur_context r \<noteq> ContextAlive) (Some e) then Some (None, cw1)
                else Some (Some (Wrap ''read'' [e]), cw1)))"

text \<open>\<open>order\<close> is the order in which the range visits the table.\<close>

definition closeClients ::
  "('w, 'c, 'm) net_handler \<Rightarrow> ('c udp_clients \<Rightarrow> 'c udp_clients) \<Rightarrow> 'c udp_clients \<times> 'w \<Rightarrow> 'c udp_clients \<times> 'w" where
  "closeClients h order cw = ([], fold (\<lambda>(key, client). CloseClient h (Some client)) (order (fst cw)) (snd cw))"

text \<open>
  \<open>Start\<close> from the bound socket on; \<open>shutdown\<close> is the shutdown of the lifecycle, and nothing is waited for.
\<close>

definition udp_Start ::
  "('w, 'c, 'm) net_handler \<Rightarrow> ('w \<Rightarrow> go_error option \<times> 'w) \<Rightarrow> 'm udp_protocol
   \<Rightarrow> (string \<Rightarrow> 'w \<Rightarrow> net_connection \<times> 'w) \<Rightarrow> ('c udp_clients \<Rightarrow> 'c udp_clients)
   \<Rightarrow> ('w \<Rightarrow> go_error option \<times> 'w) \<Rightarrow> udp_read list \<Rightarrow> 'c udp_clients \<times> 'w
   \<Rightarrow> (go_error option \<times> 'c udp_clients \<times> 'w) option" where
  "udp_Start h handler_Close Read connect order shutdown reads cw =
     (case readMessages h Read connect reads cw of
        None \<Rightarrow> None
      | Some (err, clients1, w1) \<Rightarrow>
          (case shutdown w1 of (shutdownErr, w2) \<Rightarrow>
             (case closeClients h order (clients1, w2) of (clients2, w3) \<Rightarrow>
                (case err of
                   Some e \<Rightarrow> Some (Some (Wrap ''read messages'' [e]), clients2, w3)
                 | None \<Rightarrow>
                     (case handler_Close w3 of
                        (Some e, w4) \<Rightarrow> Some (Some (Wrap ''close handler'' [e]), clients2, w4)
                      | (None, w4) \<Rightarrow> Some (map_option (\<lambda>e. Wrap ''shutdown'' [e]) shutdownErr, clients2, w4))))))"

section \<open>Properties of addresses\<close>

lemma show_int_chars: "c \<in> set (show_int i) \<Longrightarrow> c \<in> set ''-0123456789''"
  using show_nat_digits by (fastforce simp: show_int_def split: if_splits)

text \<open>An address that is printed with its port is read back, if its host has no brackets: hosts with colons (IPv6)
  are bracketed by the printer and unwrapped by the reader.\<close>

lemma address_roundtrip:
  assumes "CHR ''['' \<notin> set host" "CHR '']'' \<notin> set host" "- (2 ^ 63) \<le> port" "port < 2 ^ 63"
  shows "NewAddressFromString (JoinHostPort host (show_int port)) = \<lparr>na_host = host, na_port = port\<rparr>"
proof -
  have port: "CHR '':'' \<notin> set (show_int port)" "CHR ''['' \<notin> set (show_int port)" "CHR '']'' \<notin> set (show_int port)"
    using show_int_chars [of _ port] by force+
  have "SplitHostPort (JoinHostPort host (show_int port)) = Inr (host, show_int port)"
  proof (cases "CHR '':'' \<in> set host")
    case True
    have "CutLast (CHR '':'') ((''['' @ host @ '']'') @ CHR '':'' # show_int port) = Some (''['' @ host @ '']'', show_int port)"
      by (rule CutLast_append) (rule port)
    with True assms port show ?thesis
      by (simp add: SplitHostPort_def JoinHostPort_def Let_def takeWhile_append)
  next
    case False
    have "CutLast (CHR '':'') (host @ CHR '':'' # show_int port) = Some (host, show_int port)"
      by (rule CutLast_append) (rule port)
    moreover have "hd (host @ CHR '':'' # show_int port) \<noteq> CHR ''[''"
      using assms by (cases host) auto
    ultimately show ?thesis using False assms port by (simp add: SplitHostPort_def JoinHostPort_def)
  qed
  with assms show ?thesis by (simp add: NewAddressFromString_def ParseInt_show NewAddress_def)
qed

theorem address_roundtrip_witness:
  "NewAddressFromString (JoinHostPort ''::1'' (show_int 8080)) = \<lparr>na_host = ''::1'', na_port = 8080\<rparr>"
  using address_roundtrip [of "''::1''" 8080] by simp

section \<open>Properties of UDP sessions\<close>

text \<open>
  The calls of sessions, each with whether it succeeded, and a handler whose calls are recorded. A connection is closed
  by its session or by the goroutine that watches the context for it.
\<close>

datatype ('c, 'm) session_call =
    Handled net_connection bool | Connected 'c bool | Wrote 'c 'm | ClientClosed 'c | ConnectionClosed | ClosedByWatcher

definition observed :: "('w, 'c, 'm) net_handler \<Rightarrow> ('w \<times> ('c, 'm) session_call list, 'c, 'm) net_handler" where
  "observed h =
     \<lparr>nh_Handle = (\<lambda>conn (w, tr). case nh_Handle h conn w of (r, w1) \<Rightarrow> (r, w1, tr @ [Handled conn (\<exists>c. r = Inr c)])),
      nh_OnConnect = (\<lambda>c (w, tr). case nh_OnConnect h c w of (e, w1) \<Rightarrow> (e, w1, tr @ [Connected c (e = None)])),
      nh_OnWrite = (\<lambda>c m (w, tr). case nh_OnWrite h c m w of (e, w1) \<Rightarrow> (e, w1, tr @ [Wrote c m])),
      nh_OnClose = (\<lambda>c (w, tr). case nh_OnClose h c w of (e, w1) \<Rightarrow> (e, w1, tr @ [ClientClosed c]))\<rparr>"

text \<open>Calls of the rest of the world leave the record of the sessions alone.\<close>

definition unobserved :: "('w \<Rightarrow> 'r \<times> 'w) \<Rightarrow> 'w \<times> 'e \<Rightarrow> 'r \<times> 'w \<times> 'e" where
  "unobserved g = (\<lambda>(w, tr). case g w of (r, w1) \<Rightarrow> (r, w1, tr))"

text \<open>The reads that the loop takes before it ends, those that bring a datagram from an address, and their messages.\<close>

fun taken_reads :: "udp_read list \<Rightarrow> udp_read list" where
  "taken_reads [] = []"
| "taken_reads (r # rs) =
     (if ur_ctx_over r \<or> \<not> ur_has_socket r then []
      else if ur_err r = None \<and> ur_context r = ContextAlive then r # taken_reads rs else [r])"

definition arrived_from :: "string \<Rightarrow> udp_read \<Rightarrow> bool" where
  "arrived_from key r \<longleftrightarrow> ur_remote r = Some key \<and> ur_datagram r \<noteq> []"

definition read_messages :: "'m udp_protocol \<Rightarrow> read_context \<Rightarrow> udp_read \<Rightarrow> 'm list" where
  "read_messages Read ctx r = (case Read ctx (take ReadBufferSize (ur_datagram r)) of Inl e \<Rightarrow> [] | Inr ms \<Rightarrow> ms)"

text \<open>
  To which address a call belongs, when \<open>site\<close> tells the address of a connection and \<open>owner\<close> the one of a client; and
  the calls of an attempt to open a client that failed.
\<close>

fun of_address :: "(net_connection \<Rightarrow> string) \<Rightarrow> ('c \<Rightarrow> string) \<Rightarrow> string \<Rightarrow> ('c, 'm) session_call \<Rightarrow> bool" where
  "of_address site owner key (Handled conn ok) = (site conn = key)"
| "of_address site owner key (Connected c ok) = (owner c = key)"
| "of_address site owner key (Wrote c m) = (owner c = key)"
| "of_address site owner key (ClientClosed c) = (owner c = key)"
| "of_address site owner key _ = False"

definition failed_opening :: "('c, 'm) session_call list \<Rightarrow> bool" where
  "failed_opening f \<longleftrightarrow> (\<exists>conn. f = [Handled conn False]) \<or> (\<exists>conn c. f = [Handled conn True, Connected c False])"

text \<open>Different addresses have different clients: a handler makes the client of a connection for its address.\<close>

definition own_clients ::
  "('w, 'c, 'm) net_handler \<Rightarrow> (string \<Rightarrow> 'w \<Rightarrow> net_connection \<times> 'w) \<Rightarrow> (net_connection \<Rightarrow> string) \<Rightarrow> ('c \<Rightarrow> string) \<Rightarrow> bool" where
  "own_clients h connect site owner \<longleftrightarrow>
     (\<forall>conn w c. fst (nh_Handle h conn w) = Inr c \<longrightarrow> owner c = site conn) \<and> (\<forall>key w. site (fst (connect key w)) = key)"

text \<open>What is promised of a range over the table, and of the protocols when the context ends: they stop early.\<close>

definition table_order :: "('c udp_clients \<Rightarrow> 'c udp_clients) \<Rightarrow> bool" where
  "table_order order \<longleftrightarrow> (\<forall>l. distinct (map fst l) \<longrightarrow> distinct (map fst (order l)) \<and> set (order l) = set l)"

definition stops_early :: "'m udp_protocol \<Rightarrow> bool" where
  "stops_early Read \<longleftrightarrow> (\<forall>ctx r. \<exists>lost. read_messages Read ContextAlive r = read_messages Read ctx r @ lost)"

text \<open>The calls for one address after the reads \<open>pre\<close>, when \<open>client\<close> is what the table holds for it.\<close>

definition address_inv where
  "address_inv Read site owner key pre client tr \<longleftrightarrow>
     (\<exists>dropped served fails. filter (arrived_from key) pre = dropped @ served
        \<and> length fails = length dropped \<and> (\<forall>f \<in> set fails. failed_opening f)
        \<and> (case client of
             None \<Rightarrow> served = [] \<and> filter (of_address site owner key) tr = concat fails
           | Some c \<Rightarrow> served \<noteq> [] \<and> owner c = key
               \<and> (\<exists>conn. filter (of_address site owner key) tr
                    = concat fails @ [Handled conn True, Connected c True]
                      @ map (Wrote c) (concat (map (\<lambda>r. read_messages Read (ur_context r) r) served)))))"

definition udp_inv where
  "udp_inv Read site owner pre clients tr \<longleftrightarrow>
     distinct (map fst clients) \<and> (\<forall>key. address_inv Read site owner key pre (map_of clients key) tr)"

lemma observed_writes:
  "\<exists>w'. fold (\<lambda>m w. snd (nh_OnWrite (observed h) c m w)) ms (w, tr) = (w', tr @ map (Wrote c) ms)"
proof (induction ms arbitrary: w tr)
  case (Cons m ms)
  obtain e w1 where "nh_OnWrite h c m w = (e, w1)" by fastforce
  with Cons [of w1 "tr @ [Wrote c m]"] show ?case by (simp add: observed_def)
qed simp

lemma observed_open:
  assumes "\<And>w c. fst (nh_Handle h conn w) = Inr c \<Longrightarrow> owner c = site conn"
    and "OpenClient (observed h) conn (w, tr) = (res, w', tr')"
  shows "(\<exists>e f. res = Inl e \<and> failed_opening f \<and> (\<forall>x \<in> set f. of_address site owner (site conn) x) \<and> tr' = tr @ f)
    \<or> (\<exists>c. res = Inr c \<and> owner c = site conn \<and> tr' = tr @ [Handled conn True, Connected c True])"
proof (cases "nh_Handle h conn w")
  case (Pair r w1)
  show ?thesis
  proof (cases r)
    case (Inl e)
    with Pair assms(2) show ?thesis
      by (intro disjI1 exI [of _ "[Handled conn False]"]) (auto simp: OpenClient_def observed_def failed_opening_def)
  next
    case (Inr c)
    with Pair assms(1) have own: "owner c = site conn" by (metis fst_conv)
    show ?thesis
    proof (cases "nh_OnConnect h c w1")
      case (Pair e w2)
      with \<open>nh_Handle h conn w = (r, w1)\<close> Inr own assms(2) show ?thesis
        by (cases e) (auto simp: OpenClient_def observed_def failed_opening_def intro: exI [of _ "[Handled conn True, Connected c False]"])
    qed
  qed
qed

abbreviation observed_connect where
  "observed_connect connect \<equiv> \<lambda>key. unobserved (connect key)"

lemma udp_getClient_trace:
  assumes "own_clients h connect site owner"
    and "udp_getClient (observed h) (observed_connect connect) key clients (w, tr) = (res, clients1, w1, tr1)"
  shows "(\<exists>c. map_of clients key = Some c \<and> res = Inr c \<and> clients1 = clients \<and> tr1 = tr)
    \<or> (\<exists>e f. map_of clients key = None \<and> res = Inl e \<and> clients1 = clients \<and> failed_opening f
         \<and> (\<forall>x \<in> set f. of_address site owner key x) \<and> tr1 = tr @ f)
    \<or> (\<exists>c conn. map_of clients key = None \<and> res = Inr c \<and> clients1 = clients @ [(key, c)] \<and> owner c = key \<and> site conn = key
         \<and> tr1 = tr @ [Handled conn True, Connected c True])"
proof (cases "map_of clients key")
  case None
  obtain conn w0 where conn: "connect key w = (conn, w0)" by fastforce
  have site: "site conn = key" using assms(1) conn by (metis own_clients_def fst_conv)
  obtain r w2 tr2 where op: "OpenClient (observed h) conn (w0, tr) = (r, w2, tr2)" by (metis surj_pair)
  have "fst (nh_Handle h conn w) = Inr c \<Longrightarrow> owner c = site conn" for w c using assms(1) by (simp add: own_clients_def)
  note opened = observed_open [of h conn owner site, OF this op]
  from assms(2) None conn op have "res = r" "tr1 = tr2" "clients1 = (case r of Inl e \<Rightarrow> clients | Inr c \<Rightarrow> clients @ [(key, c)])"
    by (auto simp: udp_getClient_def unobserved_def split: sum.splits)
  with opened None show ?thesis unfolding site by (cases r) (auto simp: site)
qed (use assms(2) in \<open>auto simp: udp_getClient_def\<close>)

lemma address_inv_other:
  assumes "address_inv Read site owner key pre client tr" "\<not> arrived_from key r" "\<forall>x \<in> set f. \<not> of_address site owner key x"
  shows "address_inv Read site owner key (pre @ [r]) client (tr @ f)"
proof -
  have "filter (of_address site owner key) (tr @ f) = filter (of_address site owner key) tr"
    "filter (arrived_from key) (pre @ [r]) = filter (arrived_from key) pre"
    using assms(2,3) by (simp_all add: filter_empty_conv)
  with assms(1) show ?thesis by (simp only: address_inv_def)
qed

lemma filter_wrote:
  "filter (of_address site owner key) (map (Wrote c) ms) = (if owner c = key then map (Wrote c) ms else [])"
  by (induction ms) auto

text \<open>What one read adds to the calls of the address that it brings a datagram from.\<close>

lemma udp_datagram_inv:
  assumes own: "own_clients h connect site owner" and inv: "udp_inv Read site owner pre clients tr"
  shows "\<exists>clients1 w1 tr1. udp_datagram (observed h) Read (observed_connect connect) r (clients, w, tr) = (clients1, w1, tr1)
    \<and> udp_inv Read site owner (pre @ [r]) clients1 tr1"
proof (cases "\<exists>key. arrived_from key r")
  case False
  then have "udp_datagram (observed h) Read (observed_connect connect) r (clients, w, tr) = (clients, w, tr)"
    by (auto simp: udp_datagram_def arrived_from_def split: option.splits)
  moreover have "udp_inv Read site owner (pre @ [r]) clients tr"
    using inv False address_inv_other [of Read site owner _ pre _ tr r "[]"] by (auto simp: udp_inv_def)
  ultimately show ?thesis by blast
next
  case True
  then obtain key where key: "arrived_from key r" by blast
  then have only: "arrived_from k r \<longleftrightarrow> k = key" for k by (auto simp: arrived_from_def)
  obtain res clients1 w1 tr1 where
    g: "udp_getClient (observed h) (observed_connect connect) key clients (w, tr) = (res, clients1, w1, tr1)" by (metis surj_pair)
  let ?ms = "read_messages Read (ur_context r) r"
  have run: "udp_datagram (observed h) Read (observed_connect connect) r (clients, w, tr)
      = snd (udp_handleDatagram (observed h) Read (observed_connect connect) key (ur_context r) (take ReadBufferSize (ur_datagram r))
          clients (w, tr))"
    using key by (simp add: udp_datagram_def arrived_from_def)
  have keyinv: "address_inv Read site owner key pre (map_of clients key) tr" and dist: "distinct (map fst clients)"
    using inv by (simp_all add: udp_inv_def)
  have whole: "udp_inv Read site owner (pre @ [r]) clients2 (tr @ f)"
    if "distinct (map fst clients2)" "\<And>k. k \<noteq> key \<Longrightarrow> map_of clients2 k = map_of clients k"
      "\<forall>x \<in> set f. of_address site owner key x" "address_inv Read site owner key (pre @ [r]) (map_of clients2 key) (tr @ f)"
    for clients2 f
    unfolding udp_inv_def
  proof (intro conjI allI)
    fix k
    show "address_inv Read site owner k (pre @ [r]) (map_of clients2 k) (tr @ f)"
    proof (cases "k = key")
      case False
      have "\<not> of_address site owner k x" if "x \<in> set f" for x
        using \<open>\<forall>x \<in> set f. of_address site owner key x\<close> that False by (cases x) auto
      with False that(2) inv only show ?thesis by (auto simp: udp_inv_def intro!: address_inv_other)
    qed (use that(4) in simp)
  qed (rule that(1))
  consider (known) c where "map_of clients key = Some c" "res = Inr c" "clients1 = clients" "tr1 = tr"
    | (refused) e f where "map_of clients key = None" "res = Inl e" "clients1 = clients" "failed_opening f"
        "\<forall>x \<in> set f. of_address site owner key x" "tr1 = tr @ f"
    | (opened) c conn where "map_of clients key = None" "res = Inr c" "clients1 = clients @ [(key, c)]" "owner c = key"
        "site conn = key" "tr1 = tr @ [Handled conn True, Connected c True]"
    using udp_getClient_trace [OF own g] by blast
  then show ?thesis
  proof cases
    case known
    then have c: "owner c = key" using keyinv by (auto simp: address_inv_def)
    obtain w2 where out: "udp_datagram (observed h) Read (observed_connect connect) r (clients, w, tr) = (clients, w2, tr @ map (Wrote c) ?ms)"
      using run g known observed_writes [of h c ?ms w1 tr]
      by (auto simp: udp_handleDatagram_def read_messages_def split: sum.splits)
    have "address_inv Read site owner key (pre @ [r]) (map_of clients key) (tr @ map (Wrote c) ?ms)"
      using keyinv known(1) key c unfolding address_inv_def
      by (elim exE conjE, intro exI conjI) (auto simp: filter_wrote)
    with whole [OF dist, of "map (Wrote c) ?ms"] c have "udp_inv Read site owner (pre @ [r]) clients (tr @ map (Wrote c) ?ms)" by auto
    with out show ?thesis by blast
  next
    case refused
    obtain fails where "length fails = length (filter (arrived_from key) pre)" "\<forall>f \<in> set fails. failed_opening f"
      "filter (of_address site owner key) tr = concat fails"
      using keyinv refused(1) by (auto simp: address_inv_def)
    with refused key have "address_inv Read site owner key (pre @ [r]) None (tr @ f)"
      unfolding address_inv_def
      by (intro exI [of _ "filter (arrived_from key) pre @ [r]"] exI [of _ "[]"] exI [of _ "fails @ [f]"]) auto
    with whole [OF dist, of f] refused have "udp_inv Read site owner (pre @ [r]) clients (tr @ f)" by simp
    moreover have "udp_datagram (observed h) Read (observed_connect connect) r (clients, w, tr) = (clients, w1, tr @ f)"
      using run g refused by (simp add: udp_handleDatagram_def)
    ultimately show ?thesis by blast
  next
    case opened
    let ?f = "[Handled conn True, Connected c True] @ map (Wrote c) ?ms"
    obtain w2 where out: "udp_datagram (observed h) Read (observed_connect connect) r (clients, w, tr) = (clients1, w2, tr @ ?f)"
      using run g opened observed_writes [of h c ?ms w1 tr1]
      by (auto simp: udp_handleDatagram_def read_messages_def split: sum.splits)
    have "distinct (map fst clients1)" using dist opened(1,3) by (auto simp: map_of_eq_None_iff)
    moreover have "map_of clients1 key = Some c" using opened by (simp add: map_add_def)
    moreover obtain fails where "length fails = length (filter (arrived_from key) pre)" "\<forall>f \<in> set fails. failed_opening f"
      "filter (of_address site owner key) tr = concat fails"
      using keyinv opened(1) by (auto simp: address_inv_def)
    with opened key have "address_inv Read site owner key (pre @ [r]) (Some c) (tr @ ?f)"
      unfolding address_inv_def
      by (intro exI [of _ "filter (arrived_from key) pre"] exI [of _ "[r]"] exI [of _ fails]) (auto simp: filter_wrote)
    ultimately have "udp_inv Read site owner (pre @ [r]) clients1 (tr @ ?f)"
      using opened by (intro whole) (auto simp: map_add_def split: option.split)
    with out show ?thesis by blast
  qed
qed

lemma readMessages_inv:
  assumes "own_clients h connect site owner"
  shows "udp_inv Read site owner pre clients tr \<Longrightarrow>
    readMessages (observed h) Read (observed_connect connect) reads (clients, w, tr) = Some (err, clients', w', tr') \<Longrightarrow>
    udp_inv Read site owner (pre @ taken_reads reads) clients' tr'"
proof (induction reads arbitrary: pre clients w tr)
  case (Cons r rs)
  obtain clients1 w1 tr1 where d: "udp_datagram (observed h) Read (observed_connect connect) r (clients, w, tr) = (clients1, w1, tr1)"
    and inv: "udp_inv Read site owner (pre @ [r]) clients1 tr1"
    using udp_datagram_inv [OF assms Cons.prems(1)] by blast
  show ?case
  proof (cases "ur_err r = None \<and> ur_context r = ContextAlive")
    case True
    with Cons.IH [OF inv] Cons.prems d show ?thesis by (auto split: if_splits)
  next
    case False
    with Cons.prems d inv show ?thesis by (auto simp: Let_def split: if_splits option.splits)
  qed
qed simp

lemma closeClients_trace:
  "\<exists>w'. closeClients (observed h) order (clients, w, tr) = ([], w', tr @ map (ClientClosed \<circ> snd) (order clients))"
proof -
  have "\<exists>w'. fold (\<lambda>(key, client). CloseClient (observed h) (Some client)) cs (w, tr) = (w', tr @ map (ClientClosed \<circ> snd) cs)"
    for cs w tr
  proof (induction cs arbitrary: w tr)
    case (Cons kc cs)
    obtain k c where kc: "kc = (k, c)" by fastforce
    obtain e w1 where "nh_OnClose h c w = (e, w1)" by fastforce
    with Cons [of w1 "tr @ [ClientClosed c]"] show ?case by (simp add: kc CloseClient_def observed_def)
  qed simp
  from this [of "order clients" w tr] show ?thesis by (simp add: closeClients_def)
qed

text \<open>In a table of clients by their addresses one client is closed for an address that has one.\<close>

lemma closed_clients:
  assumes "distinct (map fst cs)" "\<forall>(k, c) \<in> set cs. owner c = k"
  shows "filter (of_address site owner key) (map (ClientClosed \<circ> snd) cs)
    = (case map_of cs key of None \<Rightarrow> [] | Some c \<Rightarrow> [ClientClosed c])"
  using assms
proof (induction cs)
  case (Cons kc cs)
  obtain k c where kc: "kc = (k, c)" "owner c = k" using Cons.prems by (cases kc) auto
  have "map_of cs k = None" using Cons.prems kc by (auto simp: map_of_eq_None_iff)
  with Cons kc show ?case by (auto split: option.split)
qed simp

lemma taken_reads_alive: "\<forall>r \<in> set (butlast (taken_reads reads)). ur_context r = ContextAlive"
  by (induction reads) auto

text \<open>Only the last read that was taken may have lost messages.\<close>

lemma messages_lost:
  assumes "stops_early Read" "filter P rs = dropped @ served" "\<forall>r \<in> set (butlast rs). ur_context r = ContextAlive"
  shows "\<exists>lost. concat (map (read_messages Read ContextAlive) served) = concat (map (\<lambda>r. read_messages Read (ur_context r) r) served) @ lost
    \<and> (lost \<noteq> [] \<longrightarrow> rs \<noteq> [] \<and> served \<noteq> [] \<and> last served = last rs \<and> ur_context (last rs) \<noteq> ContextAlive)"
proof (cases rs rule: rev_cases)
  case (snoc ys z)
  have same: "map (\<lambda>r. read_messages Read (ur_context r) r) us = map (read_messages Read ContextAlive) us" if "set us \<subseteq> set ys" for us
    using assms(3) snoc that by auto
  have sub: "set us \<subseteq> set ys" if "filter P ys = dropped @ us" for us
    using that by (metis filter_is_subset le_sup_iff set_append)
  show ?thesis
  proof (cases "P z \<and> served \<noteq> []")
    case True
    then obtain us where us: "served = us @ [z]" "set us \<subseteq> set ys"
      using assms(2) snoc sub by (cases served rule: rev_cases) auto
    from assms(1) obtain lost where lost: "read_messages Read ContextAlive z = read_messages Read (ur_context z) z @ lost"
      by (auto simp: stops_early_def)
    then have "ur_context z \<noteq> ContextAlive" if "lost \<noteq> []" using that by auto
    with us(1) lost snoc show ?thesis by (intro exI [of _ lost]) (simp add: same [OF us(2)])
  next
    case False
    then have "set served \<subseteq> set ys" using assms(2) snoc sub by (cases "P z") auto
    then show ?thesis by (intro exI [of _ "[]"]) (simp add: same [OF \<open>set served \<subseteq> set ys\<close>])
  qed
qed (use assms(2) in simp)

text \<open>C35: UDP has a session per remote address. When Start returns, with or without an error, the calls for an address
  are these: for the first datagrams that arrived from it, attempts to open a client that failed; from the first
  attempt that succeeded on, one client, which was opened once, got the messages of all the datagrams from then on in
  their order, each datagram cut at the size of the buffer, and was closed once at the end. Messages are lost only if
  the context ended while the last datagram of all was handled, and then only last ones of that datagram. An address
  from which nothing arrived has no calls. The handler gives different addresses different clients.\<close>

theorem udp_one_session_per_address:
  assumes "own_clients h connect site owner" and "table_order order" and "stops_early Read"
    and "udp_Start (observed h) (unobserved handler_Close) Read (observed_connect connect) order (unobserved shutdown) reads ([], w, [])
         = Some (err, clients', w', tr)"
  shows "\<exists>dropped served fails.
    filter (arrived_from key) (taken_reads reads) = dropped @ served
    \<and> length fails = length dropped \<and> (\<forall>f \<in> set fails. failed_opening f)
    \<and> (if served = [] then filter (of_address site owner key) tr = concat fails
       else \<exists>conn c got lost. filter (of_address site owner key) tr
              = concat fails @ [Handled conn True, Connected c True] @ map (Wrote c) got @ [ClientClosed c]
            \<and> concat (map (read_messages Read ContextAlive) served) = got @ lost
            \<and> (lost \<noteq> [] \<longrightarrow> last served = last (taken_reads reads) \<and> ur_context (last served) \<noteq> ContextAlive))"
proof -
  obtain err1 clients1 w1 tr1 where run: "readMessages (observed h) Read (observed_connect connect) reads ([], w, []) = Some (err1, clients1, w1, tr1)"
    and tr: "tr = tr1 @ map (ClientClosed \<circ> snd) (order clients1)"
  proof (cases "readMessages (observed h) Read (observed_connect connect) reads ([], w, [])")
    case (Some x)
    obtain err1 clients1 w1 tr1 where x: "x = (err1, clients1, w1, tr1)" by (metis surj_pair)
    obtain e2 w2 where down: "shutdown w1 = (e2, w2)" by fastforce
    obtain w3 where "closeClients (observed h) order (clients1, w2, tr1) = ([], w3, tr1 @ map (ClientClosed \<circ> snd) (order clients1))"
      using closeClients_trace [of h order clients1 w2 tr1] by blast
    with assms(4) Some x down have "tr = tr1 @ map (ClientClosed \<circ> snd) (order clients1)"
      by (auto simp: udp_Start_def unobserved_def split: option.splits prod.splits)
    with that Some x show ?thesis by blast
  qed (use assms(4) in \<open>simp add: udp_Start_def\<close>)
  have "udp_inv Read site owner [] [] []" by (simp add: udp_inv_def address_inv_def)
  from readMessages_inv [OF assms(1) this run]
  have inv: "distinct (map fst clients1)" "\<And>k. address_inv Read site owner k (taken_reads reads) (map_of clients1 k) tr1"
    by (simp_all add: udp_inv_def)
  have owned: "owner c = k" if "(k, c) \<in> set clients1" for k c
    using inv(2) [of k] map_of_is_SomeI [OF inv(1) that] by (auto simp: address_inv_def)
  have ordered: "distinct (map fst (order clients1))" "set (order clients1) = set clients1"
    using assms(2) inv(1) by (auto simp: table_order_def)
  then have "map_of (order clients1) = map_of clients1" using inv(1) by (simp add: map_of_inject_set)
  then have closed: "filter (of_address site owner key) (map (ClientClosed \<circ> snd) (order clients1))
      = (case map_of clients1 key of None \<Rightarrow> [] | Some c \<Rightarrow> [ClientClosed c])"
    using closed_clients [OF ordered(1), of owner site key] ordered(2) owned by auto
  from inv(2) [of key] obtain dropped served fails where
    reads: "filter (arrived_from key) (taken_reads reads) = dropped @ served" "length fails = length dropped"
      "\<forall>f \<in> set fails. failed_opening f"
    and calls: "case map_of clients1 key of
        None \<Rightarrow> served = [] \<and> filter (of_address site owner key) tr1 = concat fails
      | Some c \<Rightarrow> served \<noteq> [] \<and> owner c = key
          \<and> (\<exists>conn. filter (of_address site owner key) tr1 = concat fails @ [Handled conn True, Connected c True]
               @ map (Wrote c) (concat (map (\<lambda>r. read_messages Read (ur_context r) r) served)))"
    unfolding address_inv_def by blast
  from messages_lost [OF assms(3) reads(1) taken_reads_alive] obtain lost where
    "concat (map (read_messages Read ContextAlive) served) = concat (map (\<lambda>r. read_messages Read (ur_context r) r) served) @ lost"
    "lost \<noteq> [] \<longrightarrow> last served = last (taken_reads reads) \<and> ur_context (last (taken_reads reads)) \<noteq> ContextAlive" by blast
  note lost = this
  show ?thesis
  proof (cases "map_of clients1 key")
    case None
    with calls closed have "served = []" "filter (of_address site owner key) tr = concat fails" by (simp_all add: tr)
    with reads show ?thesis by (intro exI [of _ dropped] exI [of _ served] exI [of _ fails]) simp
  next
    case (Some c)
    let ?got = "concat (map (\<lambda>r. read_messages Read (ur_context r) r) served)"
    from Some calls closed obtain conn where "served \<noteq> []" "filter (of_address site owner key) tr
        = concat fails @ [Handled conn True, Connected c True] @ map (Wrote c) ?got @ [ClientClosed c]"
      by (auto simp: tr)
    moreover have "lost \<noteq> [] \<longrightarrow> last served = last (taken_reads reads) \<and> ur_context (last served) \<noteq> ContextAlive"
      using lost(2) by auto
    ultimately have run: "\<exists>conn c got lost. filter (of_address site owner key) tr
              = concat fails @ [Handled conn True, Connected c True] @ map (Wrote c) got @ [ClientClosed c]
            \<and> concat (map (read_messages Read ContextAlive) served) = got @ lost
            \<and> (lost \<noteq> [] \<longrightarrow> last served = last (taken_reads reads) \<and> ur_context (last served) \<noteq> ContextAlive)"
      using lost(1) by blast
    show ?thesis
      by (rule exI [of _ dropped], rule exI [of _ served], rule exI [of _ fails],
          simp only: if_not_P [OF \<open>served \<noteq> []\<close>] reads(1,2), intro conjI refl reads(3) run)
  qed
qed

text \<open>
  Identifiers of connections are drawn from the world, a counter; opening the first connection fails, and the context
  ends after one of the two messages of the last datagram.
\<close>

definition example_udp_handler :: "(nat, string \<times> nat, string) net_handler" where
  "example_udp_handler =
     \<lparr>nh_Handle = (\<lambda>conn w. (if w = 1 then Inl (Atom EOF) else Inr (nn_id conn, w - 1), w)), nh_OnConnect = (\<lambda>c w. (None, w)),
      nh_OnWrite = (\<lambda>c m w. (None, w)), nh_OnClose = (\<lambda>c w. (None, w))\<rparr>"

definition example_udp_connect :: "string \<Rightarrow> nat \<Rightarrow> net_connection \<times> nat" where
  "example_udp_connect key w = (NewNetConnection key (Some (show_nat w)) None, w + 1)"

definition example_udp_protocol :: "string udp_protocol" where
  "example_udp_protocol ctx d =
     Inr (case ctx of ContextAlive \<Rightarrow> map (\<lambda>b. [b]) d | ContextEnds n \<Rightarrow> take n (map (\<lambda>b. [b]) d))"

definition example_udp_reads :: "udp_read list" where
  "example_udp_reads =
     map (\<lambda>(d, ctx). \<lparr>ur_ctx_over = False, ur_has_socket = True, ur_datagram = d, ur_remote = Some ''a'', ur_err = None, ur_context = ctx\<rparr>)
       [(''x'', ContextAlive), (''zu'', ContextEnds 1)]"

definition example_udp_calls :: "(string \<times> nat, string) session_call list" where
  "example_udp_calls =
     [Handled (NewNetConnection ''a'' (Some (show_nat 0)) None) False, Handled (NewNetConnection ''a'' (Some (show_nat 1)) None) True,
      Connected (''a'', 1) True, Wrote (''a'', 1) ''z'', ClientClosed (''a'', 1)]"

lemma example_udp_run:
  "udp_Start (observed example_udp_handler) (unobserved (Pair None)) example_udp_protocol (observed_connect example_udp_connect) rev
     (unobserved (Pair None)) example_udp_reads ([], 0, []) = Some (None, [], 2, example_udp_calls)"
  by (simp add: udp_Start_def Let_def udp_datagram_def udp_handleDatagram_def udp_getClient_def OpenClient_def observed_def
      NewNetConnection_def ReadBufferSize_def closeClients_def CloseClient_def unobserved_def example_udp_handler_def
      example_udp_connect_def example_udp_protocol_def example_udp_reads_def example_udp_calls_def)

theorem udp_one_session_per_address_witness:
  "\<exists>dropped served fails.
    filter (arrived_from ''a'') (taken_reads example_udp_reads) = dropped @ served
    \<and> length fails = length dropped \<and> (\<forall>f \<in> set fails. failed_opening f)
    \<and> (if served = [] then filter (of_address nn_id fst ''a'') example_udp_calls = concat fails
       else \<exists>conn c got lost. filter (of_address nn_id fst ''a'') example_udp_calls
              = concat fails @ [Handled conn True, Connected c True] @ map (Wrote c) got @ [ClientClosed c]
            \<and> concat (map (read_messages example_udp_protocol ContextAlive) served) = got @ lost
            \<and> (lost \<noteq> [] \<longrightarrow> last served = last (taken_reads example_udp_reads) \<and> ur_context (last served) \<noteq> ContextAlive))"
proof (rule udp_one_session_per_address [OF _ _ _ example_udp_run])
  show "own_clients example_udp_handler example_udp_connect nn_id fst"
    by (auto simp: own_clients_def example_udp_handler_def example_udp_connect_def NewNetConnection_def split: if_splits)
  show "table_order rev" by (simp add: table_order_def rev_map [symmetric])
  have "\<exists>lost. l = (case ctx of ContextAlive \<Rightarrow> l | ContextEnds n \<Rightarrow> take n l) @ lost" for ctx and l :: "string list"
  proof (cases ctx)
    case (ContextEnds n)
    then show ?thesis by (intro exI [of _ "drop n l"]) simp
  qed simp
  then show "stops_early example_udp_protocol"
    by (simp add: stops_early_def read_messages_def example_udp_protocol_def)
qed

section \<open>Servers for streams\<close>

text \<open>\<open>removeSocketFile\<close>: what \<open>Lstat\<close> says about the path, and whether the removal fails.\<close>

abbreviation errSocketPathExists :: sentinel where "errSocketPathExists \<equiv> InPackage ''unix'' ''errSocketPathExists''"

definition removeSocketFile :: "(go_error + bool) \<Rightarrow> go_error option \<Rightarrow> go_error option" where
  "removeSocketFile is_socket remove =
     (case is_socket of
        Inl e \<Rightarrow> if err_is e ErrNotExist then None else Some e
      | Inr socket \<Rightarrow>
          if \<not> socket then Some (Wrap [] [Atom errSocketPathExists])
          else map_option (\<lambda>e. Wrap ''remove socket file'' [e]) remove)"

definition unix_shutdown :: "go_error option \<Rightarrow> go_error option \<Rightarrow> go_error option" where
  "unix_shutdown shutdownErr removeErr =
     (case (case shutdownErr of None \<Rightarrow> [] | Some e \<Rightarrow> [e]) @ (case removeErr of None \<Rightarrow> [] | Some e \<Rightarrow> [e]) of
        [] \<Rightarrow> None
      | es \<Rightarrow> Some (Wrap [] es))"

text \<open>
  The goroutines of one \<open>Start\<close> of the TCP or the Unix server: \<open>Start\<close> itself, which stands at \<open>sv_pc\<close>, a session
  per accepted connection, the callers of \<open>Shutdown\<close> (\<open>Stop\<close>, or the goroutine that watches the context), who take the
  listener under the mutex and then cancel the context and close it, and the parent context. A Unix server that
  cannot remove the stale socket file fails like one that cannot listen.
\<close>

datatype start_pc =
    Unstarted | CheckContext | GetListener | AcceptNext | ShutDown "go_error option" | WaitSessions "go_error option"
  | CloseHandler | Finished "go_error option"

record stream_server =
  sv_pc :: start_pc
  sv_resource :: bool
  sv_open :: bool
  sv_ctx_over :: bool
  sv_sessions :: nat
  sv_accepted :: nat
  sv_closing :: nat
  sv_handler_closed :: nat

definition new_server :: stream_server where
  "new_server = \<lparr>sv_pc = Unstarted, sv_resource = False, sv_open = False, sv_ctx_over = False, sv_sessions = 0,
     sv_accepted = 0, sv_closing = 0, sv_handler_closed = 0\<rparr>"

text \<open>The steps of \<open>Start\<close> with the accept loop of \<open>AcceptStreamConnections\<close>.\<close>

inductive start_step :: "stream_server \<Rightarrow> stream_server \<Rightarrow> bool" where
  listen_fails: "sv_pc s = Unstarted \<Longrightarrow> start_step s (s\<lparr>sv_pc := Finished (Some (Wrap ''listen'' [e]))\<rparr>)"
| listening: "sv_pc s = Unstarted \<Longrightarrow> start_step s (s\<lparr>sv_pc := CheckContext, sv_resource := True, sv_open := True\<rparr>)"
| context_over: "sv_pc s = CheckContext \<Longrightarrow> sv_ctx_over s \<Longrightarrow> start_step s (s\<lparr>sv_pc := ShutDown None\<rparr>)"
| context_alive: "sv_pc s = CheckContext \<Longrightarrow> \<not> sv_ctx_over s \<Longrightarrow> start_step s (s\<lparr>sv_pc := GetListener\<rparr>)"
| listener_gone: "sv_pc s = GetListener \<Longrightarrow> \<not> sv_resource s \<Longrightarrow> start_step s (s\<lparr>sv_pc := ShutDown None\<rparr>)"
| listener_there: "sv_pc s = GetListener \<Longrightarrow> sv_resource s \<Longrightarrow> start_step s (s\<lparr>sv_pc := AcceptNext\<rparr>)"
| accepted: "sv_pc s = AcceptNext \<Longrightarrow> sv_open s \<Longrightarrow>
    start_step s (s\<lparr>sv_pc := CheckContext, sv_sessions := Suc (sv_sessions s), sv_accepted := Suc (sv_accepted s)\<rparr>)"
| accept_closed: "sv_pc s = AcceptNext \<Longrightarrow> \<not> sv_open s \<or> sv_ctx_over s \<Longrightarrow> start_step s (s\<lparr>sv_pc := ShutDown None\<rparr>)"
| accept_fails: "sv_pc s = AcceptNext \<Longrightarrow> \<not> IsClosed (sv_ctx_over s) (Some e) \<Longrightarrow> start_step s (s\<lparr>sv_pc := ShutDown (Some e)\<rparr>)"
| shut_down: "sv_pc s = ShutDown err \<Longrightarrow>
    start_step s (if sv_resource s then s\<lparr>sv_pc := WaitSessions err, sv_resource := False, sv_open := False, sv_ctx_over := True\<rparr>
                  else s\<lparr>sv_pc := WaitSessions err\<rparr>)"
| failed: "sv_pc s = WaitSessions (Some e) \<Longrightarrow> sv_sessions s = 0 \<Longrightarrow>
    start_step s (s\<lparr>sv_pc := Finished (Some (Wrap ''accept connections'' [e]))\<rparr>)"
| sessions_ended: "sv_pc s = WaitSessions None \<Longrightarrow> sv_sessions s = 0 \<Longrightarrow> start_step s (s\<lparr>sv_pc := CloseHandler\<rparr>)"
| handler_closed: "sv_pc s = CloseHandler \<Longrightarrow> res \<in> {None, Some (Wrap ''close handler'' [e]), Some (Wrap ''shutdown'' [e])} \<Longrightarrow>
    start_step s (s\<lparr>sv_pc := Finished res, sv_handler_closed := Suc (sv_handler_closed s)\<rparr>)"

inductive server_step :: "stream_server \<Rightarrow> stream_server \<Rightarrow> bool" where
  by_start: "start_step s s' \<Longrightarrow> server_step s s'"
| session_ends: "sv_sessions s > 0 \<Longrightarrow> server_step s (s\<lparr>sv_sessions := sv_sessions s - 1\<rparr>)"
| parent_ends: "server_step s (s\<lparr>sv_ctx_over := True\<rparr>)"
| stop_takes: "sv_resource s \<Longrightarrow> server_step s (s\<lparr>sv_resource := False, sv_closing := Suc (sv_closing s)\<rparr>)"
| stop_too_early: "\<not> sv_resource s \<Longrightarrow> server_step s s"
| stop_closes: "sv_closing s > 0 \<Longrightarrow>
    server_step s (s\<lparr>sv_closing := sv_closing s - 1, sv_open := False, sv_ctx_over := True\<rparr>)"

inductive_cases start_stepE: "start_step s s'"
inductive_cases server_stepE: "server_step s s'"

inductive server_reachable :: "stream_server \<Rightarrow> bool" where
  at_start: "server_reachable new_server"
| next_state: "server_reachable s \<Longrightarrow> server_step s s' \<Longrightarrow> server_reachable s'"

definition server_inv :: "stream_server \<Rightarrow> bool" where
  "server_inv s \<longleftrightarrow>
     (sv_resource s \<longrightarrow> sv_open s) \<and> (sv_open s \<longrightarrow> sv_resource s \<or> sv_closing s > 0)
     \<and> (sv_resource s \<longrightarrow> sv_closing s = 0)
     \<and> (sv_pc s = Unstarted \<longrightarrow> \<not> sv_resource s \<and> \<not> sv_open s \<and> sv_sessions s = 0 \<and> sv_closing s = 0)
     \<and> (\<not> sv_resource s \<longrightarrow> sv_pc s = Unstarted \<or> sv_closing s > 0 \<or> sv_ctx_over s \<or> (\<exists>e. sv_pc s = Finished (Some (Wrap ''listen'' [e]))))
     \<and> ((\<exists>err. sv_pc s = WaitSessions err \<or> sv_pc s = Finished err) \<or> sv_pc s = CloseHandler \<longrightarrow> \<not> sv_resource s)
     \<and> ((\<exists>err. sv_pc s = Finished err) \<or> sv_pc s = CloseHandler \<longrightarrow> sv_sessions s = 0)
     \<and> sv_handler_closed s = (case sv_pc s of Finished (Some (Wrap m es)) \<Rightarrow> if m \<in> set [''listen'', ''accept connections''] then 0 else 1
                                | Finished _ \<Rightarrow> 1 | _ \<Rightarrow> 0)"

lemma start_step_inv: "start_step s s' \<Longrightarrow> server_inv s \<Longrightarrow> server_inv s'"
  by (erule start_stepE) (auto simp: server_inv_def)

lemma server_step_inv: "server_step s s' \<Longrightarrow> server_inv s \<Longrightarrow> server_inv s'"
proof (erule server_stepE)
  assume "start_step s s'" "server_inv s"
  then show ?thesis by (rule start_step_inv)
qed (auto simp: server_inv_def)

lemma server_reachable_inv: "server_reachable s \<Longrightarrow> server_inv s"
proof (induction rule: server_reachable.induct)
  case at_start
  show ?case by (simp add: server_inv_def new_server_def)
next
  case (next_state s s')
  then show ?case using server_step_inv by blast
qed

text \<open>C36: When Start returns, under every interleaving with Stop, the watching goroutine, the parent context and the
  sessions: no session is left, the listener is closed or a caller of Stop is about to close it, and the handler has
  been closed exactly once, unless Start could not listen or accepting failed; then it has not been closed at all.\<close>

theorem server_returns_clean:
  assumes "server_reachable s" and "sv_pc s = Finished res"
  shows "sv_sessions s = 0 \<and> (sv_open s \<longrightarrow> sv_closing s > 0)
    \<and> sv_handler_closed s = (if \<exists>e. res \<in> {Some (Wrap ''listen'' [e]), Some (Wrap ''accept connections'' [e])} then 0 else 1)"
proof -
  have inv: "server_inv s" using server_reachable_inv [OF assms(1)] .
  have shape: "res \<in> {None} \<union> {Some (Wrap m [e]) |m e. m \<in> {''listen'', ''accept connections'', ''close handler'', ''shutdown''}}"
    using assms
  proof (induction arbitrary: res rule: server_reachable.induct)
    case at_start
    then show ?case by (simp add: new_server_def)
  next
    case (next_state s s')
    from next_state.hyps(2) next_state.prems next_state.IH show ?case
      by (elim server_stepE start_stepE) (auto split: if_splits)
  qed
  show ?thesis using inv shape assms(2) by (auto simp: server_inv_def)
qed

theorem server_returns_clean_witness:
  "sv_sessions (new_server\<lparr>sv_pc := Finished None, sv_accepted := 1, sv_ctx_over := True, sv_handler_closed := 1\<rparr>) = 0
   \<and> sv_handler_closed (new_server\<lparr>sv_pc := Finished None, sv_accepted := 1, sv_ctx_over := True, sv_handler_closed := 1\<rparr>) = 1"
proof -
  let ?s = "\<lambda>pc r op over n k. \<lparr>sv_pc = pc, sv_resource = r, sv_open = op, sv_ctx_over = over, sv_sessions = n, sv_accepted = 1,
              sv_closing = k, sv_handler_closed = 0\<rparr>"
  have "server_reachable (new_server\<lparr>sv_pc := CheckContext, sv_resource := True, sv_open := True\<rparr>)"
    by (rule next_state [OF at_start], rule by_start, rule listening) (simp add: new_server_def)
  then have "server_reachable (new_server\<lparr>sv_pc := GetListener, sv_resource := True, sv_open := True\<rparr>)"
    by (rule next_state) (rule by_start, use context_alive [of "new_server\<lparr>sv_pc := CheckContext, sv_resource := True, sv_open := True\<rparr>"] in \<open>simp add: new_server_def\<close>)
  then have "server_reachable (new_server\<lparr>sv_pc := AcceptNext, sv_resource := True, sv_open := True\<rparr>)"
    by (rule next_state) (rule by_start, use listener_there [of "new_server\<lparr>sv_pc := GetListener, sv_resource := True, sv_open := True\<rparr>"] in \<open>simp add: new_server_def\<close>)
  then have "server_reachable (?s CheckContext True True False 1 0)"
    by (rule next_state) (rule by_start, use accepted [of "new_server\<lparr>sv_pc := AcceptNext, sv_resource := True, sv_open := True\<rparr>"] in \<open>simp add: new_server_def\<close>)
  then have "server_reachable (?s CheckContext False True False 1 1)"
    by (rule next_state) (use stop_takes [of "?s CheckContext True True False 1 0"] in simp)
  then have "server_reachable (?s CheckContext False False True 1 0)"
    by (rule next_state) (use stop_closes [of "?s CheckContext False True False 1 1"] in simp)
  then have "server_reachable (?s (ShutDown None) False False True 1 0)"
    by (rule next_state) (rule by_start, use context_over [of "?s CheckContext False False True 1 0"] in simp)
  then have "server_reachable (?s (WaitSessions None) False False True 1 0)"
    by (rule next_state) (rule by_start, use shut_down [of "?s (ShutDown None) False False True 1 0" None] in simp)
  then have "server_reachable (?s (WaitSessions None) False False True 0 0)"
    by (rule next_state) (use session_ends [of "?s (WaitSessions None) False False True 1 0"] in simp)
  then have "server_reachable (?s CloseHandler False False True 0 0)"
    by (rule next_state) (rule by_start, use sessions_ended [of "?s (WaitSessions None) False False True 0 0"] in simp)
  then have "server_reachable (new_server\<lparr>sv_pc := Finished None, sv_accepted := 1, sv_ctx_over := True, sv_handler_closed := 1\<rparr>)"
    by (rule next_state) (rule by_start, use handler_closed [of "?s CloseHandler False False True 0 0" None] in \<open>simp add: new_server_def\<close>)
  from server_returns_clean [OF this, of None] show ?thesis by simp
qed

text \<open>A call of \<open>Stop\<close> before the listener is stored changes nothing: \<open>Start\<close> then serves as if it had not been made.\<close>

lemma early_stop_is_lost:
  assumes "sv_pc s = Unstarted" "server_reachable s"
  shows "\<not> sv_resource s" and "server_step s s" and "\<exists>s'. server_step s s' \<and> sv_pc s' = CheckContext \<and> sv_resource s'"
proof -
  show no: "\<not> sv_resource s" using server_reachable_inv [OF assms(2)] assms(1) by (simp add: server_inv_def)
  then show "server_step s s" by (rule stop_too_early)
  show "\<exists>s'. server_step s s' \<and> sv_pc s' = CheckContext \<and> sv_resource s'"
    using by_start [OF listening [OF assms(1)]] by force
qed

text \<open>
  The steps that the program takes by itself: steps of \<open>Start\<close>, unless it waits for a peer in the \<open>Accept\<close> of an open
  listener; the ends of sessions; and a caller of \<open>Stop\<close> that closes the listener it has taken. The other steps, a peer
  that connects, a network that fails, a parent context that ends and further calls of \<open>Stop\<close>, may or may not happen.
\<close>

definition own_step :: "stream_server \<Rightarrow> stream_server \<Rightarrow> bool" where
  "own_step s s' \<longleftrightarrow>
     start_step s s' \<and> (sv_pc s = AcceptNext \<longrightarrow> \<not> sv_open s)
     \<or> sv_sessions s > 0 \<and> s' = s\<lparr>sv_sessions := sv_sessions s - 1\<rparr>
     \<or> sv_closing s > 0 \<and> s' = s\<lparr>sv_closing := sv_closing s - 1, sv_open := False, sv_ctx_over := True\<rparr>"

lemma own_step_server_step: "own_step s s' \<Longrightarrow> server_step s s'"
  unfolding own_step_def by (blast intro: server_step.intros)

text \<open>A run of the server in which own steps that can be taken are not put off for ever.\<close>

definition fair_run :: "(nat \<Rightarrow> stream_server) \<Rightarrow> bool" where
  "fair_run run \<longleftrightarrow>
     (\<forall>i. server_step (run i) (run (Suc i)))
     \<and> (\<forall>i. (\<exists>s'. own_step (run i) s') \<longrightarrow> (\<exists>j \<ge> i. own_step (run j) (run (Suc j))))"

definition stopping :: "stream_server \<Rightarrow> bool" where
  "stopping s \<longleftrightarrow> server_reachable s \<and> \<not> sv_resource s \<and> sv_pc s \<noteq> Unstarted"

text \<open>What is left to do once the listener is taken.\<close>

fun pc_work :: "start_pc \<Rightarrow> nat" where
  "pc_work AcceptNext = 7"
| "pc_work CheckContext = 5"
| "pc_work GetListener = 4"
| "pc_work (ShutDown err) = 3"
| "pc_work (WaitSessions err) = 2"
| "pc_work CloseHandler = 1"
| "pc_work _ = 0"

definition work_left :: "stream_server \<Rightarrow> nat" where
  "work_left s = pc_work (sv_pc s) + sv_sessions s + sv_closing s"

lemma stopping_step:
  assumes "stopping s" "server_step s s'"
  shows "stopping s'"
  using assms next_state [OF _ assms(2)]
  by (auto simp: stopping_def elim!: server_stepE start_stepE)

text \<open>Every step but the end of the parent context and an idle call of \<open>Stop\<close> does some of that work.\<close>

lemma start_works: "stopping s \<Longrightarrow> start_step s s' \<Longrightarrow> work_left s' < work_left s"
  by (erule start_stepE) (auto simp: stopping_def work_left_def)

lemma steps_work:
  assumes "stopping s" "server_step s s'"
  shows "work_left s' \<le> work_left s"
  using assms(2)
proof (cases rule: server_step.cases)
  case by_start
  with start_works [OF assms(1)] show ?thesis by fastforce
qed (use assms(1) in \<open>auto simp: stopping_def work_left_def\<close>)

lemma own_steps_work: "stopping s \<Longrightarrow> own_step s s' \<Longrightarrow> work_left s' < work_left s"
  using start_works by (auto simp: own_step_def work_left_def)

text \<open>A server that has not returned always has an own step to take: no peer has to connect for it.\<close>

lemma stopping_progress:
  assumes "stopping s" "\<nexists>res. sv_pc s = Finished res"
  shows "\<exists>s'. own_step s s'"
proof (cases "sv_pc s")
  case (WaitSessions err)
  show ?thesis
  proof (cases "sv_sessions s")
    case 0
    with WaitSessions show ?thesis
      by (cases err) (use failed sessions_ended in \<open>fastforce simp: own_step_def\<close>)+
  qed (auto simp: own_step_def)
next
  case AcceptNext
  show ?thesis
  proof (cases "sv_open s")
    case True
    with server_reachable_inv assms(1) have "sv_closing s > 0" by (auto simp: stopping_def server_inv_def)
    then show ?thesis by (auto simp: own_step_def)
  next
    case False
    with AcceptNext accept_closed show ?thesis by (auto simp: own_step_def)
  qed
next
  case CheckContext
  then show ?thesis using context_over context_alive by (cases "sv_ctx_over s") (fastforce simp: own_step_def)+
next
  case GetListener
  then show ?thesis using listener_gone assms(1) by (fastforce simp: own_step_def stopping_def)
next
  case (ShutDown err)
  then show ?thesis using shut_down by (fastforce simp: own_step_def)
next
  case CloseHandler
  then show ?thesis using handler_closed [OF CloseHandler, of None] by (fastforce simp: own_step_def)
qed (use assms in \<open>auto simp: stopping_def\<close>)

lemma fair_run_stopping: "fair_run run \<Longrightarrow> stopping (run i) \<Longrightarrow> stopping (run (i + k))"
  by (induction k) (auto simp: fair_run_def intro: stopping_step)

lemma fair_run_work: "fair_run run \<Longrightarrow> stopping (run i) \<Longrightarrow> work_left (run (i + k)) \<le> work_left (run i)"
proof (induction k)
  case (Suc k)
  have "work_left (run (Suc (i + k))) \<le> work_left (run (i + k))"
    using Suc.prems steps_work fair_run_stopping [OF Suc.prems] by (auto simp: fair_run_def)
  with Suc show ?case by simp
qed simp

lemma fair_run_returns:
  "fair_run run \<Longrightarrow> stopping (run i) \<Longrightarrow> \<exists>j \<ge> i. \<exists>res. sv_pc (run j) = Finished res"
proof (induction "work_left (run i)" arbitrary: i rule: less_induct)
  case less
  show ?case
  proof (cases "\<exists>res. sv_pc (run i) = Finished res")
    case False
    with stopping_progress [OF less.prems(2)] less.prems(1) obtain j where j: "j \<ge> i" "own_step (run j) (run (Suc j))"
      unfolding fair_run_def by blast
    then have st: "stopping (run j)" using fair_run_stopping [OF less.prems, of "j - i"] by simp
    have "work_left (run j) \<le> work_left (run i)" using fair_run_work [OF less.prems, of "j - i"] j(1) by simp
    with own_steps_work [OF st j(2)] have fewer: "work_left (run (Suc j)) < work_left (run i)" by simp
    have "stopping (run (Suc j))" using fair_run_stopping [OF less.prems(1) st, of 1] by simp
    from less.hyps [OF fewer less.prems(1) this] j(1) show ?thesis by (meson Suc_leD le_trans)
  qed auto
qed

text \<open>C37: Once Stop has taken the listener of a running server, Start returns: every run of the server from then on, in
  which own steps that can be taken are not put off for ever, comes to the return of Start. No peer has to connect,
  accepting need not fail and the parent context need not end; sessions do end. Every such run holds at most 7 steps of
  Start, one for each session and one for each caller of Stop, whatever happens in between.\<close>

theorem stopped_server_returns:
  assumes "server_reachable (run 0)" and "\<not> sv_resource (run 0)" and "sv_pc (run 0) \<noteq> Unstarted" and "fair_run run"
  shows "(\<exists>i res. sv_pc (run i) = Finished res)
    \<and> finite {i. own_step (run i) (run (Suc i))} \<and> card {i. own_step (run i) (run (Suc i))} \<le> 7 + sv_sessions (run 0) + sv_closing (run 0)"
proof (intro conjI)
  have stop: "stopping (run 0)" using assms by (simp add: stopping_def)
  from fair_run_returns [OF assms(4) this] show "\<exists>i res. sv_pc (run i) = Finished res" by blast
  have bound: "card {i. i < n \<and> own_step (run i) (run (Suc i))} + work_left (run n) \<le> work_left (run 0)" for n
  proof (induction n)
    case (Suc n)
    let ?S = "{i. i < n \<and> own_step (run i) (run (Suc i))}"
    have st: "stopping (run n)" using fair_run_stopping [OF assms(4) stop, of n] by simp
    have "{i. i < Suc n \<and> own_step (run i) (run (Suc i))} = (if own_step (run n) (run (Suc n)) then insert n ?S else ?S)"
      by (auto simp: less_Suc_eq)
    moreover have "finite ?S" by simp
    ultimately show ?case
      using Suc own_steps_work [OF st] steps_work [OF st] assms(4) by (fastforce simp: fair_run_def)
  qed simp
  have "work_left (run 0) \<le> 7 + sv_sessions (run 0) + sv_closing (run 0)"
    by (cases "sv_pc (run 0)") (auto simp: work_left_def)
  then have few: "card {i. i < n \<and> own_step (run i) (run (Suc i))} \<le> 7 + sv_sessions (run 0) + sv_closing (run 0)" for n
    using bound [of n] by linarith
  have below: "\<exists>n. \<forall>i \<in> N. i < n" if "finite N" for N :: "nat set" using that by (meson finite_nat_set_iff_bounded)
  show fin: "finite {i. own_step (run i) (run (Suc i))}"
  proof (rule ccontr)
    assume "infinite {i. own_step (run i) (run (Suc i))}"
    then obtain N where N: "finite N" "card N = 8 + sv_sessions (run 0) + sv_closing (run 0)"
      "N \<subseteq> {i. own_step (run i) (run (Suc i))}" using infinite_arbitrarily_large by blast
    with below obtain n where "\<forall>i \<in> N. i < n" by blast
    with N(3) have "N \<subseteq> {i. i < n \<and> own_step (run i) (run (Suc i))}" by auto
    then have "card N \<le> card {i. i < n \<and> own_step (run i) (run (Suc i))}" by (intro card_mono) simp_all
    with few [of n] N(2) show False by simp
  qed
  from below [OF this] obtain n where "\<forall>i \<in> {i. own_step (run i) (run (Suc i))}. i < n" by blast
  then have "{i. own_step (run i) (run (Suc i))} = {i. i < n \<and> own_step (run i) (run (Suc i))}" by auto
  with few [of n] show "card {i. own_step (run i) (run (Suc i))} \<le> 7 + sv_sessions (run 0) + sv_closing (run 0)" by simp
qed

text \<open>A run from a server that waits for peers when a caller of \<open>Stop\<close> has just taken the listener.\<close>

definition example_stop :: "start_pc \<Rightarrow> bool \<Rightarrow> nat \<Rightarrow> stream_server" where
  "example_stop pc listening n =
     \<lparr>sv_pc = pc, sv_resource = False, sv_open = listening, sv_ctx_over = \<not> listening, sv_sessions = 0, sv_accepted = 0,
      sv_closing = (if listening then 1 else 0), sv_handler_closed = n\<rparr>"

definition example_run :: "nat \<Rightarrow> stream_server" where
  "example_run i =
     [example_stop AcceptNext True 0, example_stop AcceptNext False 0, example_stop (ShutDown None) False 0,
      example_stop (WaitSessions None) False 0, example_stop CloseHandler False 0, example_stop (Finished None) False 1] ! min i 5"

lemma example_run_moves: "i < 5 \<Longrightarrow> own_step (example_run i) (example_run (Suc i))"
proof -
  have start: "start_step (example_stop AcceptNext False 0) (example_stop (ShutDown None) False 0)"
    "start_step (example_stop (ShutDown None) False 0) (example_stop (WaitSessions None) False 0)"
    "start_step (example_stop (WaitSessions None) False 0) (example_stop CloseHandler False 0)"
    "start_step (example_stop CloseHandler False 0) (example_stop (Finished None) False 1)"
    using accept_closed [of "example_stop AcceptNext False 0"] shut_down [of "example_stop (ShutDown None) False 0" None]
      sessions_ended [of "example_stop (WaitSessions None) False 0"] handler_closed [of "example_stop CloseHandler False 0" None]
    by (simp_all add: example_stop_def)
  assume "i < 5"
  then consider "i = 0" | "i = 1" | "i = 2" | "i = 3" | "i = 4" by linarith
  then show ?thesis
  proof cases
    case 1
    then show ?thesis by (simp add: example_run_def own_step_def example_stop_def)
  qed (use start in \<open>simp_all add: example_run_def own_step_def, simp_all add: example_stop_def\<close>)
qed

lemma example_run_ends: "5 \<le> i \<Longrightarrow> example_run i = example_stop (Finished None) False 1"
  by (simp add: example_run_def)

lemma example_run_fair: "fair_run example_run"
  unfolding fair_run_def
proof (intro conjI allI impI)
  fix i
  show "server_step (example_run i) (example_run (Suc i))"
  proof (cases "i < 5")
    case False
    then show ?thesis using stop_too_early [of "example_stop (Finished None) False 1"]
      by (simp add: example_run_ends example_stop_def)
  qed (rule own_step_server_step [OF example_run_moves])
  assume own: "\<exists>s'. own_step (example_run i) s'"
  have "i < 5"
  proof (rule ccontr)
    assume "\<not> i < 5"
    with own obtain s' where "own_step (example_stop (Finished None) False 1) s'" by (auto simp: example_run_ends)
    then show False by (auto simp: own_step_def example_stop_def elim!: start_stepE)
  qed
  then show "\<exists>j \<ge> i. own_step (example_run j) (example_run (Suc j))" using example_run_moves by blast
qed

lemma example_run_reachable: "server_reachable (example_run 0)"
proof -
  let ?s = "\<lambda>pc. new_server\<lparr>sv_pc := pc, sv_resource := True, sv_open := True\<rparr>"
  have "server_reachable (?s CheckContext)"
    by (rule next_state [OF at_start], rule by_start, rule listening) (simp add: new_server_def)
  then have "server_reachable (?s GetListener)"
    by (rule next_state) (rule by_start, use context_alive [of "?s CheckContext"] in \<open>simp add: new_server_def\<close>)
  then have "server_reachable (?s AcceptNext)"
    by (rule next_state) (rule by_start, use listener_there [of "?s GetListener"] in \<open>simp add: new_server_def\<close>)
  then show ?thesis
    by (rule next_state)
       (use stop_takes [of "?s AcceptNext"] in \<open>simp add: new_server_def example_run_def example_stop_def\<close>)
qed

theorem stopped_server_returns_witness:
  "(\<exists>i res. sv_pc (example_run i) = Finished res)
   \<and> finite {i. own_step (example_run i) (example_run (Suc i))} \<and> card {i. own_step (example_run i) (example_run (Suc i))} \<le> 8"
  using stopped_server_returns [OF example_run_reachable _ _ example_run_fair]
  by (simp add: example_run_def example_stop_def)

end
