(* ===== verification/Net_Sessions.thy ===== *)
theory Net_Sessions
  imports Net_Servers "HOL-Library.Sublist"
begin

text \<open>
  The session of one connection, for streams (\<^verbatim>\<open>net/internal/server/stream.go\<close>, \<^verbatim>\<open>session.go\<close>) and for WebSocket
  (\<^verbatim>\<open>net/websocket/server.go\<close>): the goroutine that calls the handler's client, the goroutine that closes the connection
  when the context ends, and the one of the protocol that sends messages, interleaved freely as a step relation.
\<close>

section \<open>State\<close>

text \<open>
  Where the session stands: before a call of the handler or its client, in the \<open>select\<close> over the context and the
  messages (\<open>Serve\<close>), or in the deferred calls, which carry the error of the session.
\<close>

datatype 'c session_pc =
    CallHandle | CallOnConnect 'c | NextFrame 'c | CallRead 'c | Serve 'c
  | CallOnClose "'c option" "go_error option" | CloseConnection "go_error option" | StopWatching "go_error option"
  | Returned "go_error option"

text \<open>The watching goroutine waits, has seen the end of the request and cancelled the context (WebSocket only), or is gone.\<close>

datatype watcher = Watching | Cancelled | WatcherGone

text \<open>
  \<open>ss_channel\<close> holds what the protocol has sent on the channel of the last \<open>Read\<close> and nobody has received; a session
  that has not called \<open>Read\<close> has a closed, empty channel. \<open>ss_sent\<close> lists all messages ever sent and \<open>ss_calls\<close> the
  calls of the session and of its watcher; both serve the properties only.
\<close>

record ('w, 'c, 'm) session =
  ss_pc :: "'c session_pc"
  ss_ctx_over :: bool
  ss_unwatched :: bool
  ss_watcher :: watcher
  ss_channel :: "'m list"
  ss_channel_closed :: bool
  ss_sent :: "'m list"
  ss_calls :: "('c, 'm) session_call list"
  ss_world :: 'w

definition new_session :: "'w \<Rightarrow> ('w, 'c, 'm) session" where
  "new_session w = \<lparr>ss_pc = CallHandle, ss_ctx_over = False, ss_unwatched = False, ss_watcher = Watching, ss_channel = [],
     ss_channel_closed = True, ss_sent = [], ss_calls = [], ss_world = w\<rparr>"

section \<open>Steps\<close>

text \<open>
  \<open>OpenClient\<close>, after which the session goes on at \<open>first\<close>, and the deferred calls: \<open>CloseClient\<close>, if there is a
  client, then \<open>Close\<close>, then the function that ends the watching. Errors of the two closings are only logged.
\<close>

inductive session_frame_step ::
  "('w, 'c, 'm) net_handler \<Rightarrow> ('w \<Rightarrow> 'w) \<Rightarrow> net_connection \<Rightarrow> ('c \<Rightarrow> 'c session_pc)
   \<Rightarrow> ('w, 'c, 'm) session \<Rightarrow> ('w, 'c, 'm) session \<Rightarrow> bool"
  for h closing conn first where
  handle_fails: "ss_pc s = CallHandle \<Longrightarrow> nh_Handle h conn (ss_world s) = (Inl e, w1) \<Longrightarrow>
    session_frame_step h closing conn first s
      (s\<lparr>ss_pc := CallOnClose None (Some (Wrap ''failed to handle connection'' [e])), ss_world := w1,
         ss_calls := ss_calls s @ [Handled conn False]\<rparr>)"
| handle_succeeds: "ss_pc s = CallHandle \<Longrightarrow> nh_Handle h conn (ss_world s) = (Inr c, w1) \<Longrightarrow>
    session_frame_step h closing conn first s
      (s\<lparr>ss_pc := CallOnConnect c, ss_world := w1, ss_calls := ss_calls s @ [Handled conn True]\<rparr>)"
| connect_fails: "ss_pc s = CallOnConnect c \<Longrightarrow> nh_OnConnect h c (ss_world s) = (Some e, w1) \<Longrightarrow>
    session_frame_step h closing conn first s
      (s\<lparr>ss_pc := CallOnClose None (Some (Wrap ''failed to handle OnConnect'' [e])), ss_world := w1,
         ss_calls := ss_calls s @ [Connected c False]\<rparr>)"
| connect_succeeds: "ss_pc s = CallOnConnect c \<Longrightarrow> nh_OnConnect h c (ss_world s) = (None, w1) \<Longrightarrow>
    session_frame_step h closing conn first s
      (s\<lparr>ss_pc := first c, ss_world := w1, ss_calls := ss_calls s @ [Connected c True]\<rparr>)"
| no_client: "ss_pc s = CallOnClose None err \<Longrightarrow>
    session_frame_step h closing conn first s (s\<lparr>ss_pc := CloseConnection err\<rparr>)"
| client_closed: "ss_pc s = CallOnClose (Some c) err \<Longrightarrow>
    session_frame_step h closing conn first s
      (s\<lparr>ss_pc := CloseConnection err, ss_world := snd (nh_OnClose h c (ss_world s)),
         ss_calls := ss_calls s @ [ClientClosed c]\<rparr>)"
| connection_closed: "ss_pc s = CloseConnection err \<Longrightarrow>
    session_frame_step h closing conn first s
      (s\<lparr>ss_pc := StopWatching err, ss_world := closing (ss_world s), ss_calls := ss_calls s @ [ConnectionClosed]\<rparr>)"
| watching_stops: "ss_pc s = StopWatching err \<Longrightarrow>
    session_frame_step h closing conn first s (s\<lparr>ss_pc := Returned err, ss_unwatched := True\<rparr>)"

text \<open>\<open>protocol.Read\<close> fails with an error, which ends the session as \<open>refused\<close> says, or opens a channel.\<close>

inductive session_read_step ::
  "(go_error \<Rightarrow> go_error option) \<Rightarrow> ('w, 'c, 'm) session \<Rightarrow> ('w, 'c, 'm) session \<Rightarrow> bool" for refused where
  read_fails: "ss_pc s = CallRead c \<Longrightarrow> session_read_step refused s (s\<lparr>ss_pc := CallOnClose (Some c) (refused e)\<rparr>)"
| read_starts: "ss_pc s = CallRead c \<Longrightarrow>
    session_read_step refused s (s\<lparr>ss_pc := Serve c, ss_channel := [], ss_channel_closed := False\<rparr>)"

text \<open>
  The \<open>select\<close>: any ready case may be taken. A message is handed to the client, whose error is only logged; the end of
  the context or of the messages ends the loop, and the session goes on at \<open>ended\<close>.
\<close>

inductive session_serve_step ::
  "('w, 'c, 'm) net_handler \<Rightarrow> ('c \<Rightarrow> 'c session_pc) \<Rightarrow> ('w, 'c, 'm) session \<Rightarrow> ('w, 'c, 'm) session \<Rightarrow> bool"
  for h ended where
  serve_over: "ss_pc s = Serve c \<Longrightarrow> ss_ctx_over s \<Longrightarrow> session_serve_step h ended s (s\<lparr>ss_pc := ended c\<rparr>)"
| serve_message: "ss_pc s = Serve c \<Longrightarrow> ss_channel s = m # ms \<Longrightarrow>
    session_serve_step h ended s
      (s\<lparr>ss_channel := ms, ss_world := snd (nh_OnWrite h c m (ss_world s)), ss_calls := ss_calls s @ [Wrote c m]\<rparr>)"
| serve_closed: "ss_pc s = Serve c \<Longrightarrow> ss_channel s = [] \<Longrightarrow> ss_channel_closed s \<Longrightarrow>
    session_serve_step h ended s (s\<lparr>ss_pc := ended c\<rparr>)"

text \<open>What happens around the session: the protocol sends and closes its channel, and the world changes.\<close>

inductive session_around_step :: "('w, 'c, 'm) session \<Rightarrow> ('w, 'c, 'm) session \<Rightarrow> bool" where
  protocol_sends: "\<not> ss_channel_closed s \<Longrightarrow>
    session_around_step s (s\<lparr>ss_channel := ss_channel s @ [m], ss_sent := ss_sent s @ [m]\<rparr>)"
| protocol_closes: "\<not> ss_channel_closed s \<Longrightarrow> session_around_step s (s\<lparr>ss_channel_closed := True\<rparr>)"
| world_changes: "session_around_step s (s\<lparr>ss_world := w\<rparr>)"

text \<open>
  \<open>WatchContextClose\<close>: the goroutine waits for the end of the context, and then closes the connection, or for the end
  of the watching; when both have come it may take either.
\<close>

inductive WatchContextClose :: "('w \<Rightarrow> 'w) \<Rightarrow> ('w, 'c, 'm) session \<Rightarrow> ('w, 'c, 'm) session \<Rightarrow> bool" for closing where
  watcher_closes: "ss_watcher s = Watching \<Longrightarrow> ss_ctx_over s \<Longrightarrow>
    WatchContextClose closing s
      (s\<lparr>ss_watcher := WatcherGone, ss_world := closing (ss_world s), ss_calls := ss_calls s @ [ClosedByWatcher]\<rparr>)"
| watcher_leaves: "ss_watcher s = Watching \<Longrightarrow> ss_unwatched s \<Longrightarrow>
    WatchContextClose closing s (s\<lparr>ss_watcher := WatcherGone\<rparr>)"

text \<open>\<open>watchDone\<close>: the end of the request, which may come at any time, cancels the context and closes the connection.\<close>

inductive watchDone :: "('w \<Rightarrow> 'w) \<Rightarrow> ('w, 'c, 'm) session \<Rightarrow> ('w, 'c, 'm) session \<Rightarrow> bool" for closing where
  request_over: "ss_watcher s = Watching \<Longrightarrow> watchDone closing s (s\<lparr>ss_watcher := Cancelled, ss_ctx_over := True\<rparr>)"
| cancelled_closes: "ss_watcher s = Cancelled \<Longrightarrow>
    watchDone closing s
      (s\<lparr>ss_watcher := WatcherGone, ss_world := closing (ss_world s), ss_calls := ss_calls s @ [ClosedByWatcher]\<rparr>)"
| request_watched_enough: "ss_watcher s = Watching \<Longrightarrow> ss_unwatched s \<Longrightarrow>
    watchDone closing s (s\<lparr>ss_watcher := WatcherGone\<rparr>)"

text \<open>A session of a stream, whose context may end at any time.\<close>

inductive HandleStreamConnection ::
  "('w, 'c, 'm) net_handler \<Rightarrow> ('w \<Rightarrow> 'w) \<Rightarrow> net_connection \<Rightarrow> ('w, 'c, 'm) session \<Rightarrow> ('w, 'c, 'm) session \<Rightarrow> bool"
  for h closing conn where
  stream_frame: "session_frame_step h closing conn CallRead s s' \<Longrightarrow> HandleStreamConnection h closing conn s s'"
| stream_read: "session_read_step (\<lambda>e. Some (Wrap ''read protocol'' [e])) s s' \<Longrightarrow> HandleStreamConnection h closing conn s s'"
| stream_serve: "session_serve_step h (\<lambda>c. CallOnClose (Some c) None) s s' \<Longrightarrow> HandleStreamConnection h closing conn s s'"
| stream_watch: "WatchContextClose closing s s' \<Longrightarrow> HandleStreamConnection h closing conn s s'"
| stream_around: "session_around_step s s' \<Longrightarrow> HandleStreamConnection h closing conn s s'"
| stream_context: "HandleStreamConnection h closing conn s (s\<lparr>ss_ctx_over := True\<rparr>)"

text \<open>
  A WebSocket session reads frame after frame; an error of the next frame or of \<open>Read\<close> is logged and ends it. The
  context ends by the watcher, and by the deferred \<open>cancel\<close> at the end. A handler without a channel for the end of the
  request starts no watcher.
\<close>

inductive websocket_handleConnection ::
  "('w, 'c, 'm) net_handler \<Rightarrow> ('w \<Rightarrow> 'w) \<Rightarrow> net_connection \<Rightarrow> ('w, 'c, 'm) session \<Rightarrow> ('w, 'c, 'm) session \<Rightarrow> bool"
  for h closing conn where
  websocket_frame: "session_frame_step h closing conn NextFrame s s' \<Longrightarrow> websocket_handleConnection h closing conn s s'"
| frame_arrives: "ss_pc s = NextFrame c \<Longrightarrow> websocket_handleConnection h closing conn s (s\<lparr>ss_pc := CallRead c\<rparr>)"
| no_more_frames: "ss_pc s = NextFrame c \<Longrightarrow> websocket_handleConnection h closing conn s (s\<lparr>ss_pc := CallOnClose (Some c) None\<rparr>)"
| websocket_read: "session_read_step (\<lambda>e. None) s s' \<Longrightarrow> websocket_handleConnection h closing conn s s'"
| websocket_serve: "session_serve_step h NextFrame s s' \<Longrightarrow> websocket_handleConnection h closing conn s s'"
| websocket_watch: "watchDone closing s s' \<Longrightarrow> websocket_handleConnection h closing conn s s'"
| websocket_around: "session_around_step s s' \<Longrightarrow> websocket_handleConnection h closing conn s s'"
| websocket_cancel: "ss_pc s = Returned err \<Longrightarrow> websocket_handleConnection h closing conn s (s\<lparr>ss_ctx_over := True\<rparr>)"

definition new_websocket_session :: "bool \<Rightarrow> 'w \<Rightarrow> ('w, 'c, 'm) session" where
  "new_websocket_session has_done w = (new_session w)\<lparr>ss_watcher := if has_done then Watching else WatcherGone\<rparr>"

inductive_cases session_frame_stepE: "session_frame_step h closing conn first s s'"
inductive_cases session_read_stepE: "session_read_step refused s s'"
inductive_cases session_serve_stepE: "session_serve_step h ended s s'"
inductive_cases session_around_stepE: "session_around_step s s'"
inductive_cases WatchContextCloseE: "WatchContextClose closing s s'"
inductive_cases watchDoneE: "watchDone closing s s'"
inductive_cases HandleStreamConnectionE: "HandleStreamConnection h closing conn s s'"
inductive_cases websocket_handleConnectionE: "websocket_handleConnection h closing conn s s'"

lemmas session_stepE = session_frame_stepE session_read_stepE session_serve_stepE session_around_stepE

section \<open>Invariants\<close>

text \<open>The calls of the session itself, and how often the watcher has closed the connection.\<close>

definition own_calls :: "('w, 'c, 'm) session \<Rightarrow> ('c, 'm) session_call list" where
  "own_calls s = filter (\<lambda>x. x \<noteq> ClosedByWatcher) (ss_calls s)"

definition watcher_closings :: "('w, 'c, 'm) session \<Rightarrow> nat" where
  "watcher_closings s = length (filter (\<lambda>x. x = ClosedByWatcher) (ss_calls s))"

lemma own_calls_simps [simp]:
  "own_calls (s\<lparr>ss_calls := tr @ [x]\<rparr>) = filter (\<lambda>x. x \<noteq> ClosedByWatcher) tr @ (if x = ClosedByWatcher then [] else [x])"
  by (simp add: own_calls_def)

abbreviation session_calls :: "net_connection \<Rightarrow> 'c \<Rightarrow> 'm list \<Rightarrow> ('c, 'm) session_call list" where
  "session_calls conn c ms \<equiv> [Handled conn True, Connected c True] @ map (Wrote c) ms"

text \<open>
  What a session may have written of the messages sent so far: of one channel, a beginning of them (\<open>exact\<close>); of
  several channels, all of them unless the context has ended, which drops what is left on a channel.
\<close>

definition written_of :: "bool \<Rightarrow> ('w, 'c, 'm) session \<Rightarrow> 'm list \<Rightarrow> 'm list \<Rightarrow> bool" where
  "written_of exact s ms sent \<longleftrightarrow> (if exact then prefix ms sent else subseq ms sent) \<and> (\<not> ss_ctx_over s \<longrightarrow> ms = sent)"

definition unread :: "('w, 'c, 'm) session \<Rightarrow> bool" where
  "unread s \<longleftrightarrow> ss_channel s = [] \<and> ss_channel_closed s \<and> ss_sent s = []"

definition delivered :: "bool \<Rightarrow> ('w, 'c, 'm) session \<Rightarrow> 'm list \<Rightarrow> bool" where
  "delivered exact s ms \<longleftrightarrow> written_of exact s ms (ss_sent s) \<and> (\<not> ss_ctx_over s \<longrightarrow> ss_channel_closed s)"

text \<open>A session that is over: its calls up to the closing of the connection.\<close>

definition session_over :: "bool \<Rightarrow> net_connection \<Rightarrow> ('w, 'c, 'm) session \<Rightarrow> go_error option \<Rightarrow> ('c, 'm) session_call list \<Rightarrow> bool" where
  "session_over exact conn s err body \<longleftrightarrow>
     err \<noteq> None \<and> (body = [Handled conn False] \<or> (\<exists>c. body = [Handled conn True, Connected c False]))
     \<or> (\<exists>c ms. body = session_calls conn c ms @ [ClientClosed c] \<and> (if err = None then delivered exact s ms else ms = []))"

text \<open>A session with an open client: between two messages of a channel, and between channels.\<close>

definition serving :: "bool \<Rightarrow> net_connection \<Rightarrow> 'c \<Rightarrow> ('w, 'c, 'm) session \<Rightarrow> bool" where
  "serving exact conn c s \<longleftrightarrow>
     (\<exists>ms old. own_calls s = session_calls conn c ms \<and> ss_sent s = old @ ss_channel s
        \<and> (if exact then ms = old else written_of exact s ms old))"

definition has_delivered :: "bool \<Rightarrow> net_connection \<Rightarrow> 'c \<Rightarrow> ('w, 'c, 'm) session \<Rightarrow> bool" where
  "has_delivered exact conn c s \<longleftrightarrow> (\<exists>ms. own_calls s = session_calls conn c ms \<and> delivered exact s ms)"

definition session_inv :: "bool \<Rightarrow> net_connection \<Rightarrow> ('w, 'c, 'm) session \<Rightarrow> bool" where
  "session_inv exact conn s \<longleftrightarrow>
     (case ss_pc s of
        CallHandle \<Rightarrow> unread s \<and> own_calls s = []
      | CallOnConnect c \<Rightarrow> unread s \<and> own_calls s = [Handled conn True]
      | NextFrame c \<Rightarrow> \<not> exact \<and> has_delivered exact conn c s
      | CallRead c \<Rightarrow> (exact \<longrightarrow> unread s) \<and> has_delivered exact conn c s
      | Serve c \<Rightarrow> serving exact conn c s
      | CallOnClose None err \<Rightarrow> err \<noteq> None
          \<and> (own_calls s = [Handled conn False] \<or> (\<exists>c. own_calls s = [Handled conn True, Connected c False]))
      | CallOnClose (Some c) err \<Rightarrow>
          (if err = None then has_delivered exact conn c s else own_calls s = session_calls conn c [])
      | CloseConnection err \<Rightarrow> session_over exact conn s err (own_calls s)
      | StopWatching err \<Rightarrow> (\<exists>body. own_calls s = body @ [ConnectionClosed] \<and> session_over exact conn s err body)
      | Returned err \<Rightarrow> (\<exists>body. own_calls s = body @ [ConnectionClosed] \<and> session_over exact conn s err body))"

text \<open>These parts of the invariant look at few fields.\<close>

lemma session_fields [simp]:
  "written_of exact (s\<lparr>ss_pc := pc\<rparr>) = written_of exact s" "written_of exact (s\<lparr>ss_world := w\<rparr>) = written_of exact s"
  "written_of exact (s\<lparr>ss_calls := tr\<rparr>) = written_of exact s" "written_of exact (s\<lparr>ss_watcher := x\<rparr>) = written_of exact s"
  "written_of exact (s\<lparr>ss_unwatched := b\<rparr>) = written_of exact s" "written_of exact (s\<lparr>ss_channel := ms\<rparr>) = written_of exact s"
  "written_of exact (s\<lparr>ss_channel_closed := b\<rparr>) = written_of exact s" "written_of exact (s\<lparr>ss_sent := ms\<rparr>) = written_of exact s"
  "delivered exact (s\<lparr>ss_pc := pc\<rparr>) = delivered exact s" "delivered exact (s\<lparr>ss_world := w\<rparr>) = delivered exact s"
  "delivered exact (s\<lparr>ss_calls := tr\<rparr>) = delivered exact s" "delivered exact (s\<lparr>ss_watcher := x\<rparr>) = delivered exact s"
  "delivered exact (s\<lparr>ss_unwatched := b\<rparr>) = delivered exact s" "delivered exact (s\<lparr>ss_channel := ms\<rparr>) = delivered exact s"
  "unread (s\<lparr>ss_pc := pc\<rparr>) = unread s" "unread (s\<lparr>ss_world := w\<rparr>) = unread s" "unread (s\<lparr>ss_calls := tr\<rparr>) = unread s"
  "unread (s\<lparr>ss_watcher := x\<rparr>) = unread s" "unread (s\<lparr>ss_unwatched := b\<rparr>) = unread s"
  "own_calls (s\<lparr>ss_pc := pc\<rparr>) = own_calls s" "own_calls (s\<lparr>ss_world := w\<rparr>) = own_calls s"
  "own_calls (s\<lparr>ss_watcher := x\<rparr>) = own_calls s" "own_calls (s\<lparr>ss_unwatched := b\<rparr>) = own_calls s"
  "own_calls (s\<lparr>ss_channel := ms\<rparr>) = own_calls s" "own_calls (s\<lparr>ss_channel_closed := b\<rparr>) = own_calls s"
  "own_calls (s\<lparr>ss_sent := ms\<rparr>) = own_calls s" "own_calls (s\<lparr>ss_ctx_over := b\<rparr>) = own_calls s"
  "has_delivered exact conn c (s\<lparr>ss_pc := pc\<rparr>) = has_delivered exact conn c s"
  "serving exact conn c (s\<lparr>ss_pc := pc\<rparr>) = serving exact conn c s"
  by (simp_all add: written_of_def delivered_def unread_def own_calls_def has_delivered_def serving_def fun_eq_iff)

lemma session_over_cong:
  "(\<And>ms. delivered exact s ms \<Longrightarrow> delivered exact s' ms) \<Longrightarrow> session_over exact conn s err body \<Longrightarrow> session_over exact conn s' err body"
  unfolding session_over_def by (metis (full_types))

text \<open>What a step elsewhere must respect, for the invariant to hold on.\<close>

lemma session_inv_around:
  assumes "session_inv exact conn s" "ss_pc s' = ss_pc s" "own_calls s' = own_calls s"
    and "unread s \<Longrightarrow> unread s'" "\<And>ms. delivered exact s ms \<Longrightarrow> delivered exact s' ms"
    and "\<exists>new. ss_sent s' = ss_sent s @ new \<and> ss_channel s' = ss_channel s @ new"
    and "\<And>ms old. written_of exact s ms old \<Longrightarrow> written_of exact s' ms old"
  shows "session_inv exact conn s'"
proof -
  have over: "session_over exact conn s err body \<Longrightarrow> session_over exact conn s' err body" for err body
    using session_over_cong assms(5) by blast
  have has: "has_delivered exact conn c s \<Longrightarrow> has_delivered exact conn c s'" for c
    using assms(3,5) by (auto simp: has_delivered_def)
  have serving: "serving exact conn c s'" if "serving exact conn c s" for c
  proof -
    from that obtain ms old where "own_calls s = session_calls conn c ms" "ss_sent s = old @ ss_channel s"
      "if exact then ms = old else written_of exact s ms old" unfolding serving_def by blast
    moreover obtain new where "ss_sent s' = ss_sent s @ new" "ss_channel s' = ss_channel s @ new" using assms(6) by blast
    ultimately have "own_calls s' = session_calls conn c ms \<and> ss_sent s' = old @ ss_channel s'
        \<and> (if exact then ms = old else written_of exact s' ms old)"
      using assms(3) assms(7) [of ms old] by (cases exact) simp_all
    then show ?thesis unfolding serving_def by blast
  qed
  show ?thesis
    using assms(1-4) over has serving
    by (cases "ss_pc s") (auto simp: session_inv_def split: option.splits if_splits)
qed

lemma around_inv:
  assumes "session_inv exact conn s" "session_around_step s s'"
  shows "session_inv exact conn s'"
  using assms(2)
proof cases
  case (protocol_sends m)
  have sends: "delivered exact s ms \<Longrightarrow> delivered exact s' ms" for ms
    using protocol_sends by (auto simp: delivered_def written_of_def intro: prefix_prefix list_emb_prefix)
  show ?thesis
    using protocol_sends by (intro session_inv_around [OF assms(1) _ _ _ sends]) (auto simp: unread_def)
next
  case protocol_closes
  show ?thesis
    using protocol_closes by (intro session_inv_around [OF assms(1)]) (auto simp: unread_def delivered_def)
next
  case (world_changes w)
  show ?thesis using world_changes by (intro session_inv_around [OF assms(1)]) auto
qed

lemma context_inv: "session_inv exact conn s \<Longrightarrow> session_inv exact conn (s\<lparr>ss_ctx_over := True\<rparr>)"
  by (erule session_inv_around) (auto simp: unread_def delivered_def written_of_def)

lemma frame_inv:
  assumes "session_inv exact conn s" "session_frame_step h closing conn first s s'"
    and "first = CallRead \<or> first = NextFrame \<and> \<not> exact"
  shows "session_inv exact conn s'"
proof -
  have start: "delivered exact s []" if "unread s" using that by (simp add: unread_def delivered_def written_of_def)
  have has: "has_delivered exact conn c (s\<lparr>ss_pc := pc, ss_world := w, ss_calls := ss_calls s @ [Connected c True]\<rparr>)"
    if "unread s" "own_calls s = [Handled conn True]" for c pc w
    using that start unfolding has_delivered_def by (intro exI [of _ "[]"]) (simp add: own_calls_def)
  have over: "session_over exact conn (s\<lparr>ss_pc := pc, ss_world := w, ss_calls := tr\<rparr>) err body = session_over exact conn s err body"
    "session_over exact conn (s\<lparr>ss_pc := pc\<rparr>) err body = session_over exact conn s err body"
    "session_over exact conn (s\<lparr>ss_pc := pc, ss_unwatched := b\<rparr>) err body = session_over exact conn s err body" for pc w tr b err body
    by (simp_all add: session_over_def)
  show ?thesis
    using assms(2)
  proof cases
    case (client_closed c err)
    have "session_over exact conn s err (own_calls s @ [ClientClosed c])"
      using client_closed assms(1) by (auto simp: session_inv_def session_over_def has_delivered_def split: if_splits)
    with client_closed show ?thesis by (simp add: session_inv_def over own_calls_def)
  next
    case (no_client err)
    with assms(1) show ?thesis by (auto simp: session_inv_def over session_over_def)
  next
    case (connect_succeeds c w1)
    with assms(1,3) has show ?thesis by (auto simp: session_inv_def)
  qed (use assms(1) in \<open>auto simp: session_inv_def over own_calls_def\<close>)
qed

lemma read_inv:
  assumes "session_inv exact conn s" "session_read_step refused s s'" "exact \<or> (\<forall>e. refused e = None)"
  shows "session_inv exact conn s'"
proof -
  have none: "ms = []" if "unread s" "delivered exact s ms" for ms
    using that by (auto simp: unread_def delivered_def written_of_def split: if_splits)
  from assms(2) obtain c where c: "ss_pc s = CallRead c" by cases auto
  with assms(1) obtain ms where ms: "exact \<longrightarrow> unread s" "own_calls s = session_calls conn c ms" "delivered exact s ms"
    by (auto simp: session_inv_def has_delivered_def)
  have has: "has_delivered exact conn c s" using ms(2,3) by (auto simp: has_delivered_def)
  from assms(2) show ?thesis
  proof cases
    case (read_fails c' e)
    show ?thesis
    proof (cases exact)
      case True
      then have "own_calls s = session_calls conn c []" using ms none by blast
      with read_fails c has show ?thesis by (simp add: session_inv_def)
    next
      case False
      with read_fails c has assms(3) show ?thesis by (auto simp: session_inv_def)
    qed
  next
    case (read_starts c')
    have "exact \<Longrightarrow> ms = ss_sent s" using ms(1) none [OF _ ms(3)] by (metis unread_def)
    moreover have "written_of exact s ms (ss_sent s)" using ms(3) by (simp add: delivered_def)
    ultimately have "own_calls s' = session_calls conn c ms \<and> ss_sent s' = ss_sent s @ ss_channel s'
        \<and> (if exact then ms = ss_sent s else written_of exact s' ms (ss_sent s))"
      using read_starts(1) ms(2) by (cases exact) simp_all
    then have "serving exact conn c s'" unfolding serving_def by blast
    with read_starts c show ?thesis by (auto simp: session_inv_def)
  qed
qed

lemma serve_inv:
  assumes "session_inv exact conn s" "session_serve_step h ended s s'"
    and "ended = (\<lambda>c. CallOnClose (Some c) None) \<or> ended = NextFrame \<and> \<not> exact"
  shows "session_inv exact conn s'"
proof -
  from assms(2) obtain c where c: "ss_pc s = Serve c" by cases auto
  with assms(1) obtain ms old where ms: "own_calls s = session_calls conn c ms" "ss_sent s = old @ ss_channel s"
    "if exact then ms = old else written_of exact s ms old"
    by (auto simp: session_inv_def serving_def)
  have has: "has_delivered exact conn c s" if "delivered exact s ms"
    using ms(1) that by (auto simp: has_delivered_def)
  from assms(2) show ?thesis
  proof cases
    case (serve_over c')
    have "delivered exact s ms"
      using ms(2,3) serve_over by (auto simp: delivered_def written_of_def list_emb_prefix split: if_splits)
    with serve_over c has assms(3) show ?thesis by (auto simp: session_inv_def)
  next
    case (serve_message c' m rest)
    have "own_calls s' = session_calls conn c (ms @ [m])" "ss_sent s' = (old @ [m]) @ ss_channel s'"
      using serve_message c ms by (auto simp: own_calls_def)
    moreover have "if exact then ms @ [m] = old @ [m] else written_of exact s' (ms @ [m]) (old @ [m])"
      using serve_message ms(3) by (auto simp: written_of_def intro: list_emb_append_mono)
    ultimately have "serving exact conn c s'" unfolding serving_def by blast
    moreover have "ss_pc s' = Serve c" using serve_message c by simp
    ultimately show ?thesis by (simp add: session_inv_def)
  next
    case (serve_closed c')
    have "delivered exact s ms"
      using ms(2,3) serve_closed by (auto simp: delivered_def written_of_def split: if_splits)
    with serve_closed c has assms(3) show ?thesis by (auto simp: session_inv_def)
  qed
qed

text \<open>A watcher closes the connection at most once, and only when the context is over.\<close>

definition watcher_inv :: "('w, 'c, 'm) session \<Rightarrow> bool" where
  "watcher_inv s \<longleftrightarrow> watcher_closings s \<le> (if ss_watcher s = WatcherGone \<and> ss_ctx_over s then 1 else 0)
     \<and> (ss_watcher s = Cancelled \<longrightarrow> ss_ctx_over s)"

lemma watch_inv:
  assumes "session_inv exact conn s" "WatchContextClose closing s s' \<or> watchDone closing s s'"
  shows "session_inv exact conn s'"
proof -
  have over: "session_inv exact conn (s\<lparr>ss_watcher := x, ss_ctx_over := True\<rparr>)" for x
    by (rule session_inv_around [OF assms(1)]) (auto simp: unread_def delivered_def written_of_def)
  from assms(2) show ?thesis
  proof (elim disjE WatchContextCloseE watchDoneE)
    show "session_inv exact conn s'" if "s' = s\<lparr>ss_watcher := Cancelled, ss_ctx_over := True\<rparr>" using that over by simp
  qed (auto intro!: session_inv_around [OF assms(1)] simp: unread_def delivered_def own_calls_def)
qed

lemma frame_watch:
  assumes "watcher_inv s" "session_frame_step h closing conn first s s' \<or> session_read_step refused s s'
    \<or> session_serve_step h ended s s' \<or> session_around_step s s'"
  shows "watcher_inv s'"
  using assms(2,1) by (elim disjE session_stepE) (auto simp: watcher_inv_def watcher_closings_def)

lemma watch_once:
  assumes "watcher_inv s" "WatchContextClose closing s s' \<or> watchDone closing s s'"
  shows "watcher_inv s'"
  using assms(2,1) by (elim disjE WatchContextCloseE watchDoneE) (auto simp: watcher_inv_def watcher_closings_def)

lemma context_watch: "watcher_inv s \<Longrightarrow> watcher_inv (s\<lparr>ss_ctx_over := True\<rparr>)"
  by (cases "ss_ctx_over s") (auto simp: watcher_inv_def watcher_closings_def)

lemma stream_step_inv:
  assumes "HandleStreamConnection h closing conn s s'" "session_inv True conn s \<and> watcher_inv s"
  shows "session_inv True conn s' \<and> watcher_inv s'"
  using assms(1)
proof cases
  case stream_frame
  with frame_inv assms(2) show ?thesis by (blast intro: frame_watch)
next
  case stream_read
  with read_inv assms(2) show ?thesis by (blast intro: frame_watch)
next
  case stream_serve
  with serve_inv assms(2) show ?thesis by (blast intro: frame_watch)
next
  case stream_watch
  with watch_inv watch_once assms(2) show ?thesis by blast
next
  case stream_around
  with around_inv assms(2) show ?thesis by (blast intro: frame_watch)
next
  case stream_context
  with context_inv context_watch assms(2) show ?thesis by blast
qed

lemma websocket_step_inv:
  assumes "websocket_handleConnection h closing conn s s'" "session_inv False conn s \<and> watcher_inv s"
  shows "session_inv False conn s' \<and> watcher_inv s'"
  using assms(1)
proof cases
  case websocket_frame
  with frame_inv assms(2) show ?thesis by (blast intro: frame_watch)
next
  case (frame_arrives c)
  with assms(2) show ?thesis by (auto simp: session_inv_def watcher_inv_def watcher_closings_def)
next
  case (no_more_frames c)
  with assms(2) show ?thesis by (auto simp: session_inv_def watcher_inv_def watcher_closings_def)
next
  case websocket_read
  with read_inv assms(2) show ?thesis by (blast intro: frame_watch)
next
  case websocket_serve
  with serve_inv assms(2) show ?thesis by (blast intro: frame_watch)
next
  case websocket_watch
  with watch_inv watch_once assms(2) show ?thesis by blast
next
  case websocket_around
  with around_inv assms(2) show ?thesis by (blast intro: frame_watch)
next
  case websocket_cancel
  with context_inv context_watch assms(2) show ?thesis by blast
qed

lemma new_session_inv: "session_inv exact conn (new_session w) \<and> watcher_inv (new_session w)"
  by (simp add: session_inv_def new_session_def unread_def own_calls_def watcher_inv_def watcher_closings_def)

section \<open>Properties\<close>

text \<open>C34: What a session of a stream may do to its client and its connection, under every interleaving of the session, the
  goroutine that watches the context, the protocol and the end of the context, whatever the handler answers and however
  its calls fail. When the session has returned: Handle and OnConnect came first, then the messages in their order, each
  once, even after a failing one, and without a gap; then OnClose once, exactly when OnConnect has succeeded; then the
  session closed the connection, once. Unless the context has ended, a session without an error has delivered every
  message that the protocol sent. The watcher has closed the connection as well at most once, at any point between
  these calls, and only if the context has ended.\<close>

theorem stream_session_protocol:
  assumes "(HandleStreamConnection h closing conn)\<^sup>*\<^sup>* (new_session w) s" and "ss_pc s = Returned err"
  shows "(err \<noteq> None \<and> own_calls s = [Handled conn False, ConnectionClosed]
      \<or> err \<noteq> None \<and> (\<exists>c. own_calls s = [Handled conn True, Connected c False, ConnectionClosed])
      \<or> (\<exists>c ms. own_calls s = [Handled conn True, Connected c True] @ map (Wrote c) ms @ [ClientClosed c, ConnectionClosed]
           \<and> (if err \<noteq> None then ms = []
              else prefix ms (ss_sent s) \<and> (\<not> ss_ctx_over s \<longrightarrow> ms = ss_sent s \<and> ss_channel_closed s))))
    \<and> watcher_closings s \<le> (if ss_ctx_over s then 1 else 0)"
proof
  have inv: "session_inv True conn s \<and> watcher_inv s"
    using assms(1)
  proof (induction rule: rtranclp_induct)
    case base
    show ?case by (rule new_session_inv)
  next
    case (step s s')
    from stream_step_inv [OF step.hyps(2) step.IH] show ?case .
  qed
  then show "watcher_closings s \<le> (if ss_ctx_over s then 1 else 0)" by (auto simp: watcher_inv_def split: if_splits)
  from inv assms(2) obtain body where "own_calls s = body @ [ConnectionClosed]" "session_over True conn s err body"
    by (auto simp: session_inv_def)
  then show "err \<noteq> None \<and> own_calls s = [Handled conn False, ConnectionClosed]
      \<or> err \<noteq> None \<and> (\<exists>c. own_calls s = [Handled conn True, Connected c False, ConnectionClosed])
      \<or> (\<exists>c ms. own_calls s = [Handled conn True, Connected c True] @ map (Wrote c) ms @ [ClientClosed c, ConnectionClosed]
           \<and> (if err \<noteq> None then ms = []
              else prefix ms (ss_sent s) \<and> (\<not> ss_ctx_over s \<longrightarrow> ms = ss_sent s \<and> ss_channel_closed s)))"
    by (cases err) (auto simp: session_over_def delivered_def written_of_def)
qed

text \<open>The same holds of a WebSocket session, except that the end of the context may leave gaps between frames.\<close>

lemma websocket_session_protocol:
  assumes "(websocket_handleConnection h closing conn)\<^sup>*\<^sup>* (new_websocket_session has_done w) s" and "ss_pc s = Returned err"
  shows "(err \<noteq> None \<and> own_calls s = [Handled conn False, ConnectionClosed]
      \<or> err \<noteq> None \<and> (\<exists>c. own_calls s = [Handled conn True, Connected c False, ConnectionClosed])
      \<or> (\<exists>c ms. own_calls s = [Handled conn True, Connected c True] @ map (Wrote c) ms @ [ClientClosed c, ConnectionClosed]
           \<and> (if err \<noteq> None then ms = []
              else subseq ms (ss_sent s) \<and> (\<not> ss_ctx_over s \<longrightarrow> ms = ss_sent s \<and> ss_channel_closed s))))
    \<and> watcher_closings s \<le> (if ss_ctx_over s then 1 else 0)"
proof
  have start: "session_inv False conn (new_websocket_session has_done w) \<and> watcher_inv (new_websocket_session has_done w)"
    by (simp add: session_inv_def new_websocket_session_def new_session_def unread_def own_calls_def watcher_inv_def watcher_closings_def)
  have inv: "session_inv False conn s \<and> watcher_inv s"
    using assms(1)
  proof (induction rule: rtranclp_induct)
    case (step s s')
    from websocket_step_inv [OF step.hyps(2) step.IH] show ?case .
  qed (rule start)
  then show "watcher_closings s \<le> (if ss_ctx_over s then 1 else 0)" by (auto simp: watcher_inv_def split: if_splits)
  from inv assms(2) obtain body where "own_calls s = body @ [ConnectionClosed]" "session_over False conn s err body"
    by (auto simp: session_inv_def)
  then show "err \<noteq> None \<and> own_calls s = [Handled conn False, ConnectionClosed]
      \<or> err \<noteq> None \<and> (\<exists>c. own_calls s = [Handled conn True, Connected c False, ConnectionClosed])
      \<or> (\<exists>c ms. own_calls s = [Handled conn True, Connected c True] @ map (Wrote c) ms @ [ClientClosed c, ConnectionClosed]
           \<and> (if err \<noteq> None then ms = []
              else subseq ms (ss_sent s) \<and> (\<not> ss_ctx_over s \<longrightarrow> ms = ss_sent s \<and> ss_channel_closed s)))"
    by (cases err) (auto simp: session_over_def delivered_def written_of_def)
qed

text \<open>
  What the watcher is for: however long a call of the client takes, a connection whose context has ended is closed, or
  the watcher is about to close it, or the session has come to its end.
\<close>

lemma watcher_unblocks:
  assumes "(HandleStreamConnection h closing conn)\<^sup>*\<^sup>* (new_session w) s" and "ss_ctx_over s"
  shows "ClosedByWatcher \<in> set (ss_calls s) \<or> (\<exists>err. ss_pc s = Returned err)
    \<or> WatchContextClose closing s (s\<lparr>ss_watcher := WatcherGone, ss_world := closing (ss_world s), ss_calls := ss_calls s @ [ClosedByWatcher]\<rparr>)"
proof -
  have "ss_watcher s \<noteq> Cancelled \<and> (ss_watcher s = WatcherGone \<longrightarrow> ClosedByWatcher \<in> set (ss_calls s) \<or> ss_unwatched s)
      \<and> (ss_unwatched s \<longrightarrow> (\<exists>err. ss_pc s = Returned err))"
    using assms(1)
  proof (induction rule: rtranclp_induct)
    case base
    show ?case by (simp add: new_session_def)
  next
    case (step s s')
    from step.hyps(2) step.IH show ?case
      by (elim HandleStreamConnectionE session_stepE WatchContextCloseE) auto
  qed
  with assms(2) watcher_closes [of s closing] show ?thesis by (cases "ss_watcher s") auto
qed

text \<open>A session that fails on its only message; the context then ends, and the watcher closes the connection first.\<close>

definition example_handler :: "(nat, nat, string) net_handler" where
  "example_handler =
     \<lparr>nh_Handle = (\<lambda>conn w. (Inr w, w + 1)), nh_OnConnect = (\<lambda>c w. (None, w)),
      nh_OnWrite = (\<lambda>c m w. (if m = ''bad'' then Some (Atom EOF) else None, w)), nh_OnClose = (\<lambda>c w. (None, w))\<rparr>"

abbreviation example_connection :: net_connection where
  "example_connection \<equiv> NewNetConnection ''id'' None None"

definition example_session ::
  "nat session_pc \<Rightarrow> bool \<Rightarrow> watcher \<Rightarrow> string list \<Rightarrow> (nat, string) session_call list \<Rightarrow> nat \<Rightarrow> (nat, nat, string) session" where
  "example_session pc over wt queue tr w =
     \<lparr>ss_pc = pc, ss_ctx_over = over, ss_unwatched = (case pc of Returned err \<Rightarrow> True | _ \<Rightarrow> False), ss_watcher = wt, ss_channel = queue,
      ss_channel_closed = (case pc of CallHandle \<Rightarrow> True | CallOnConnect c \<Rightarrow> True | CallRead c \<Rightarrow> True | _ \<Rightarrow> False),
      ss_sent = (if queue = [] \<and> length tr < 3 then [] else [''bad'']), ss_calls = tr, ss_world = w\<rparr>"

definition example_calls :: "(nat, string) session_call list" where
  "example_calls = [Handled example_connection True, Connected 7 True, Wrote 7 ''bad'', ClosedByWatcher, ClientClosed 7, ConnectionClosed]"

lemma example_session_run:
  "(HandleStreamConnection example_handler Suc example_connection)\<^sup>*\<^sup>* (new_session 7)
     (example_session (Returned None) True WatcherGone [] example_calls 10)"
proof -
  let ?R = "HandleStreamConnection example_handler Suc example_connection"
  let ?tr = "\<lambda>n. take n example_calls"
  let ?s0 = "example_session CallHandle False Watching [] (?tr 0) 7"
  let ?s1 = "example_session (CallOnConnect 7) False Watching [] (?tr 1) 8"
  let ?s2 = "example_session (CallRead 7) False Watching [] (?tr 2) 8"
  let ?s3 = "example_session (Serve 7) False Watching [] (?tr 2) 8"
  let ?s4 = "example_session (Serve 7) False Watching [''bad''] (?tr 2) 8"
  let ?s5 = "example_session (Serve 7) False Watching [] (?tr 3) 8"
  let ?s6 = "example_session (Serve 7) True Watching [] (?tr 3) 8"
  let ?s7 = "example_session (Serve 7) True WatcherGone [] (?tr 4) 9"
  let ?s8 = "example_session (CallOnClose (Some 7) None) True WatcherGone [] (?tr 4) 9"
  let ?s9 = "example_session (CloseConnection None) True WatcherGone [] (?tr 5) 9"
  let ?s10 = "example_session (StopWatching None) True WatcherGone [] (?tr 6) 10"
  let ?s11 = "example_session (Returned None) True WatcherGone [] (?tr 6) 10"
  note defs = example_session_def example_calls_def example_handler_def eval_nat_numeral
  have "?R ?s0 ?s1" by (rule stream_frame) (use handle_succeeds [of ?s0 example_handler example_connection 7 8] in \<open>simp add: defs\<close>)
  moreover have "?R ?s1 ?s2" by (rule stream_frame) (use connect_succeeds [of ?s1 7 example_handler 8] in \<open>simp add: defs\<close>)
  moreover have "?R ?s2 ?s3" by (rule stream_read) (use read_starts [of ?s2 7] in \<open>simp add: defs\<close>)
  moreover have "?R ?s3 ?s4" by (rule stream_around) (use protocol_sends [of ?s3 "''bad''"] in \<open>simp add: defs\<close>)
  moreover have "?R ?s4 ?s5" by (rule stream_serve) (use serve_message [of ?s4 7 "''bad''" "[]" example_handler] in \<open>simp add: defs\<close>)
  moreover have "?R ?s5 ?s6" using stream_context [of example_handler Suc example_connection ?s5] by (simp add: defs)
  moreover have "?R ?s6 ?s7" by (rule stream_watch) (use watcher_closes [of ?s6 Suc] in \<open>simp add: defs\<close>)
  moreover have "?R ?s7 ?s8" by (rule stream_serve) (use serve_over [of ?s7 7 example_handler "\<lambda>c. CallOnClose (Some c) None"] in \<open>simp add: defs\<close>)
  moreover have "?R ?s8 ?s9" by (rule stream_frame) (use client_closed [of ?s8 7 None example_handler] in \<open>simp add: defs\<close>)
  moreover have "?R ?s9 ?s10" by (rule stream_frame) (use connection_closed [of ?s9 None example_handler Suc] in \<open>simp add: defs\<close>)
  moreover have "?R ?s10 ?s11" by (rule stream_frame) (use watching_stops [of ?s10 None example_handler] in \<open>simp add: defs\<close>)
  ultimately have "?R\<^sup>*\<^sup>* ?s0 ?s11" by (meson rtranclp.intros)
  moreover have "?s0 = new_session 7" by (simp add: example_session_def new_session_def)
  moreover have "?tr 6 = example_calls" by (simp add: example_calls_def eval_nat_numeral)
  ultimately show ?thesis by simp
qed

theorem stream_session_protocol_witness:
  "\<exists>c ms. filter (\<lambda>x. x \<noteq> ClosedByWatcher) example_calls
      = [Handled example_connection True, Connected c True] @ map (Wrote c) ms @ [ClientClosed c, ConnectionClosed] \<and> prefix ms [''bad'']
    \<and> length (filter (\<lambda>x. x = ClosedByWatcher) example_calls) \<le> 1"
proof -
  have "length example_calls = 6" by (simp add: example_calls_def)
  with stream_session_protocol [OF example_session_run, of None] show ?thesis
    by (auto simp: own_calls_def watcher_closings_def example_session_def)
qed

end
