(* ===== verification/Encoders.thy ===== *)
theory Encoders
  imports Go_Base
begin

unbundle bit_operations_syntax

text \<open>
  Package \<^verbatim>\<open>encoder\<close>: texts are combined with a key by exclusive or and written in base 64. Base 64 is that of
  Go's \<^verbatim>\<open>encoding/base64\<close> with the standard alphabet and padding. A panic is the value \<open>None\<close>.
\<close>

section \<open>Base 64\<close>

definition alphabet :: string where
  "alphabet = ''ABCDEFGHIJKLMNOPQRSTUVWXYZabcdefghijklmnopqrstuvwxyz0123456789+/''"

abbreviation code :: "char \<Rightarrow> nat" where
  "code \<equiv> of_char"

definition symbol :: "nat \<Rightarrow> char" where
  "symbol n = alphabet ! (n mod 64)"

fun symbol_value_in :: "string \<Rightarrow> char \<Rightarrow> nat option" where
  "symbol_value_in [] c = None"
| "symbol_value_in (x # xs) c = (if x = c then Some 0 else map_option Suc (symbol_value_in xs c))"

definition symbol_value :: "char \<Rightarrow> nat option" where
  "symbol_value = symbol_value_in alphabet"

text \<open>Three bytes are one number of 24 bits, read as four symbols.\<close>

fun EncodeToString :: "byte list \<Rightarrow> string" where
  "EncodeToString [] = []"
| "EncodeToString [a] = [symbol (code a div 4), symbol (code a * 16), CHR ''='', CHR ''='']"
| "EncodeToString [a, b] =
     [symbol (code a div 4), symbol (code a * 16 + code b div 16), symbol (code b * 4), CHR ''='']"
| "EncodeToString (a # b # c # rest) =
     [symbol (code a div 4), symbol (code a * 16 + code b div 16), symbol (code b * 4 + code c div 64), symbol (code c)]
     @ EncodeToString rest"

abbreviation CorruptInputError :: go_error where
  "CorruptInputError \<equiv> Atom (InPackage ''base64'' ''CorruptInputError'')"

text \<open>
  The decoder skips line ends. The last group may be padded, and nothing may follow the padding; the bits of a padded
  group that belong to no byte are ignored.
\<close>

fun decode_groups :: "string \<Rightarrow> go_error + byte list" where
  "decode_groups [] = Inr []"
| "decode_groups (a # b # c # d # rest) =
     (case (symbol_value a, symbol_value b) of
        (Some x, Some y) \<Rightarrow>
          if c = CHR ''='' then
            (if d = CHR ''='' \<and> rest = [] then Inr [char_of (x * 4 + y div 16)] else Inl CorruptInputError)
          else
            (case symbol_value c of
               None \<Rightarrow> Inl CorruptInputError
             | Some z \<Rightarrow>
                 if d = CHR ''='' then
                   (if rest = [] then Inr [char_of (x * 4 + y div 16), char_of (y * 16 + z div 4)] else Inl CorruptInputError)
                 else
                   (case symbol_value d of
                      None \<Rightarrow> Inl CorruptInputError
                    | Some u \<Rightarrow>
                        (case decode_groups rest of
                           Inl e \<Rightarrow> Inl e
                         | Inr bs \<Rightarrow> Inr ([char_of (x * 4 + y div 16), char_of (y * 16 + z div 4), char_of (z * 64 + u)] @ bs))))
      | _ \<Rightarrow> Inl CorruptInputError)"
| "decode_groups _ = Inl CorruptInputError"

definition base64_DecodeString :: "string \<Rightarrow> go_error + byte list" where
  "base64_DecodeString s = decode_groups (filter (\<lambda>c. code c \<noteq> 10 \<and> code c \<noteq> 13) s)"

section \<open>The encoder\<close>

record encoder =
  en_key :: "byte list"

definition byte_xor :: "byte \<Rightarrow> byte \<Rightarrow> byte" where
  "byte_xor a b = char_of (code a XOR code b)"

text \<open>The loop over the bytes; a remainder by zero panics.\<close>

definition xorEncrypt :: "byte list \<Rightarrow> byte list \<Rightarrow> byte list option" where
  "xorEncrypt key input =
     (if key = [] \<and> input \<noteq> [] then None
      else Some (map (\<lambda>(index, s). byte_xor s (key ! (index mod length key))) (enumerate 0 input)))"

definition xorDecrypt :: "byte list \<Rightarrow> byte list \<Rightarrow> byte list option" where
  "xorDecrypt key input =
     (if key = [] \<and> input \<noteq> [] then None
      else Some (map (\<lambda>(index, s). byte_xor s (key ! (index mod length key))) (enumerate 0 input)))"

definition en_Encode :: "encoder \<Rightarrow> byte list \<Rightarrow> byte list option" where
  "en_Encode e input = xorEncrypt (en_key e) input"

definition en_Decode :: "encoder \<Rightarrow> byte list \<Rightarrow> (go_error + byte list) option" where
  "en_Decode e input = map_option Inr (xorDecrypt (en_key e) input)"

definition en_EncodeString :: "encoder \<Rightarrow> string \<Rightarrow> string option" where
  "en_EncodeString e input = map_option EncodeToString (en_Encode e input)"

definition en_DecodeString :: "encoder \<Rightarrow> string \<Rightarrow> (go_error + string) option" where
  "en_DecodeString e input =
     (case base64_DecodeString input of
        Inl err \<Rightarrow> Some (Inl (Wrap [] [Atom (InPackage ''encoder'' ''ErrBase64Decode''), err]))
      | Inr bs \<Rightarrow> en_Decode e bs)"

section \<open>Round trips\<close>

lemma alphabet_facts:
  "length alphabet = 64" "distinct alphabet"
  by (simp_all add: alphabet_def)

lemma alphabet_printable: "c \<in> set alphabet \<Longrightarrow> c \<noteq> CHR ''='' \<and> 32 < code c"
  by (auto simp: alphabet_def)

lemma symbol_value_in_nth: "distinct xs \<Longrightarrow> n < length xs \<Longrightarrow> symbol_value_in xs (xs ! n) = Some n"
  by (induction xs arbitrary: n) (auto simp: nth_Cons split: nat.splits)

lemma symbol_value_symbol [simp]: "symbol_value (symbol n) = Some (n mod 64)"
  by (simp add: symbol_value_def symbol_def symbol_value_in_nth alphabet_facts)

lemma symbol_in: "symbol n \<in> set alphabet"
  by (simp add: symbol_def alphabet_facts)

lemma symbol_facts [simp]: "symbol n \<noteq> CHR ''=''" "code (symbol n) \<noteq> 10" "code (symbol n) \<noteq> 13"
  using alphabet_printable [OF symbol_in [of n]] by auto

lemma low_bits:
  fixes x q :: nat
  shows "q < 16 \<Longrightarrow> (x * 16 + q) mod 64 = (x mod 4) * 16 + q"
    and "q < 4 \<Longrightarrow> (x * 4 + q) mod 64 = (x mod 16) * 4 + q"
  using mod_mult2_eq [of "x * 16 + q" 16 4] mod_mult2_eq [of "x * 4 + q" 4 16] by (simp_all add: mult.commute)

lemma first_byte: "a < 256 \<Longrightarrow> q < 16 \<Longrightarrow> a div 4 mod 64 * 4 + (a * 16 + q) mod 64 div 16 = (a :: nat)"
  by (simp add: low_bits)

lemma second_byte:
  assumes "b < 256" "q < 4"
  shows "((a * 16 + b div 16) mod 64 * 16 + (b * 4 + q) mod 64 div 4) mod 256 = (b :: nat)"
proof -
  have "b div 16 < 16" using assms by (simp add: less_mult_imp_div_less)
  then have "(a * 16 + b div 16) mod 64 * 16 + (b * 4 + q) mod 64 div 4 = a mod 4 * 256 + b"
    using assms by (simp add: low_bits)
  with assms show ?thesis by simp
qed

lemma third_byte:
  assumes "c < 256"
  shows "((b * 4 + c div 64) mod 64 * 64 + c mod 64) mod 256 = (c :: nat)"
proof -
  have "c div 64 < 4" using assms by (simp add: less_mult_imp_div_less)
  then have "(b * 4 + c div 64) mod 64 * 64 + c mod 64 = b mod 16 * 256 + c"
    by (simp add: low_bits algebra_simps)
  with assms show ?thesis by simp
qed

lemma code_less: "code c < 256"
  using of_char_mod_256 [of c, where 'a = nat] by (metis mod_less_divisor zero_less_numeral)

lemma code_div_less: "code c div 16 < 16" "code c div 64 < 4"
  using code_less [of c] by (simp_all add: less_mult_imp_div_less)

lemma group_bytes:
  "char_of (code a div 4 mod 64 * 4 + (code a * 16 + code b div 16) mod 64 div 16) = a"
  "char_of ((code a * 16 + code b div 16) mod 64 * 16 + (code b * 4 + code c div 64) mod 64 div 4) = b"
  "char_of ((code b * 4 + code c div 64) mod 64 * 64 + code c mod 64) = c"
  using first_byte [of "code a" "code b div 16", OF code_less code_div_less(1)]
    second_byte [of "code b" "code c div 64" "code a", OF code_less code_div_less(2)] third_byte [of "code c" "code b", OF code_less] by (metis char_of_mod_256 char_of_char)+

lemma last_group_bytes:
  "char_of (code a div 4 mod 64 * 4 + code a * 16 mod 64 div 16) = a"
  "char_of ((code a * 16 + code b div 16) mod 64 * 16 + code b * 4 mod 64 div 4) = b"
  using first_byte [of "code a" 0, OF code_less] second_byte [of "code b" 0 "code a", OF code_less]
  by (simp, metis add_0_right char_of_mod_256 char_of_char zero_less_numeral)

lemma decode_encode_groups: "decode_groups (EncodeToString bs) = Inr bs"
  by (induction bs rule: EncodeToString.induct) (simp_all add: group_bytes last_group_bytes)

lemma EncodeToString_one_line: "filter (\<lambda>c. code c \<noteq> 10 \<and> code c \<noteq> 13) (EncodeToString bs) = EncodeToString bs"
  by (induction bs rule: EncodeToString.induct) simp_all

lemma byte_xor_twice: "byte_xor (byte_xor a k) k = a"
proof -
  have "((code a XOR code k) mod 256 XOR code k) mod 256 = code a mod 256"
    using take_bit_xor [of 8 "take_bit 8 (code a XOR code k)" "code k"] take_bit_xor [of 8 "code a" "code k"]
    by (simp add: take_bit_eq_mod xor.assoc)
  then show ?thesis unfolding byte_xor_def by (metis char_of_mod_256 char_of_char of_char_of)
qed

lemma xor_twice: "xorEncrypt key input = Some encrypted \<Longrightarrow> xorDecrypt key encrypted = Some input"
proof -
  assume "xorEncrypt key input = Some encrypted"
  then have e: "encrypted = map (\<lambda>(index, s). byte_xor s (key ! (index mod length key))) (enumerate 0 input)"
    and key: "key = [] \<Longrightarrow> input = []"
    by (auto simp: xorEncrypt_def split: if_splits)
  have "map (\<lambda>(index, s). byte_xor s (key ! (index mod length key))) (enumerate 0 encrypted) = input"
    by (rule nth_equalityI) (simp_all add: e nth_enumerate_eq byte_xor_twice)
  then show ?thesis using key e by (auto simp: xorDecrypt_def)
qed

text \<open>C32: A text that is encoded with a key is decoded to the same text with that key. Encoding panics only for the
  empty key, and then for every text but the empty one.\<close>

theorem encoder_roundtrip:
  "case en_EncodeString e s of
     Some t \<Rightarrow> en_DecodeString e t = Some (Inr s)
   | None \<Rightarrow> en_key e = [] \<and> s \<noteq> []"
proof (cases "xorEncrypt (en_key e) s")
  case None
  then show ?thesis by (auto simp: en_EncodeString_def en_Encode_def xorEncrypt_def split: if_splits)
next
  case (Some encrypted)
  then show ?thesis
    by (simp add: en_EncodeString_def en_Encode_def en_DecodeString_def base64_DecodeString_def EncodeToString_one_line
        decode_encode_groups en_Decode_def xor_twice)
qed

lemma encoder_text: "en_EncodeString \<lparr>en_key = ''k''\<rparr> ''Hi'' = Some ''IwI=''"
  by (simp add: en_EncodeString_def en_Encode_def xorEncrypt_def byte_xor_def enumerate_eq_zip) (code_simp)

end
