(* ===== verification/Thread_Maps.thy ===== *)
theory Thread_Maps
  imports Iterators "HOL-Library.AList" "HOL-Library.Multiset"
begin

text \<open>
  Package \<^verbatim>\<open>maps\<close>: the map behind a mutex and its iterator. Every method holds the mutex, so it is one step on the
  map inside. That map is the list of its entries with distinct keys; a \<open>range\<close> over it shows them in an order of
  Go's choosing, which is a parameter.
\<close>

section \<open>The map\<close>

record ('k, 'v) map_entry =
  me_Key :: 'k
  me_Value :: 'v

definition NewMapEntry :: "'k \<Rightarrow> 'v \<Rightarrow> ('k, 'v) map_entry" where
  "NewMapEntry k v = \<lparr>me_Key = k, me_Value = v\<rparr>"

record ('k, 'v) thread_safe_map =
  ts_internalMap :: "('k \<times> 'v) list"

text \<open>\<open>maps.Copy\<close> into a map.\<close>

definition copied_into :: "('k \<times> 'v) list \<Rightarrow> ('k \<times> 'v) list \<Rightarrow> ('k \<times> 'v) list" where
  "copied_into dst src = foldl (\<lambda>m (k, v). AList.update k v m) dst src"

text \<open>The initial map may be nil.\<close>

definition NewThreadSafeMap :: "('k \<times> 'v) list option \<Rightarrow> ('k, 'v) thread_safe_map" where
  "NewThreadSafeMap initialValue =
     (case initialValue of
        Some m \<Rightarrow> \<lparr>ts_internalMap = copied_into [] m\<rparr>
      | None \<Rightarrow> \<lparr>ts_internalMap = []\<rparr>)"

definition map_Len :: "('k, 'v) thread_safe_map \<Rightarrow> nat" where
  "map_Len m = length (ts_internalMap m)"

type_synonym ('k, 'v) range_order = "('k \<times> 'v) list \<Rightarrow> ('k \<times> 'v) list"

definition map_Entries :: "('k, 'v) range_order \<Rightarrow> ('k, 'v) thread_safe_map \<Rightarrow> ('k, 'v) map_entry list" where
  "map_Entries order m = map (\<lambda>(k, v). NewMapEntry k v) (order (ts_internalMap m))"

definition map_HasKey :: "('k, 'v) thread_safe_map \<Rightarrow> 'k \<Rightarrow> bool" where
  "map_HasKey m k = (map_of (ts_internalMap m) k \<noteq> None)"

text \<open>\<open>None\<close> stands for the zero value with \<open>false\<close>.\<close>

definition map_Get :: "('k, 'v) thread_safe_map \<Rightarrow> 'k \<Rightarrow> 'v option" where
  "map_Get m k = map_of (ts_internalMap m) k"

definition map_GetEntry :: "('k, 'v) thread_safe_map \<Rightarrow> 'k \<Rightarrow> ('k, 'v) map_entry option" where
  "map_GetEntry m k = map_option (NewMapEntry k) (map_Get m k)"

definition map_AsGoMap :: "('k, 'v) thread_safe_map \<Rightarrow> ('k \<times> 'v) list" where
  "map_AsGoMap m = copied_into [] (ts_internalMap m)"

definition map_Set :: "'k \<Rightarrow> 'v \<Rightarrow> ('k, 'v) thread_safe_map \<Rightarrow> go_error option \<times> ('k, 'v) thread_safe_map" where
  "map_Set k v m = (None, m\<lparr>ts_internalMap := AList.update k v (ts_internalMap m)\<rparr>)"

definition map_Delete :: "'k \<Rightarrow> ('k, 'v) thread_safe_map \<Rightarrow> go_error option \<times> ('k, 'v) thread_safe_map" where
  "map_Delete k m = (None, m\<lparr>ts_internalMap := AList.delete k (ts_internalMap m)\<rparr>)"

section \<open>Its iterator\<close>

record ('k, 'v) map_iterator =
  mi_entries :: "('k, 'v) map_entry list"
  mi_cursor :: nat

definition NewMapIterator :: "('k, 'v) map_entry list \<Rightarrow> ('k, 'v) map_iterator" where
  "NewMapIterator entries = \<lparr>mi_entries = entries, mi_cursor = 0\<rparr>"

definition map_AsIterator :: "('k, 'v) range_order \<Rightarrow> ('k, 'v) thread_safe_map \<Rightarrow> ('k, 'v) map_iterator" where
  "map_AsIterator order m = NewMapIterator (map_Entries order m)"

definition mi_HasNext :: "('k, 'v) map_iterator \<Rightarrow> bool" where
  "mi_HasNext i \<longleftrightarrow> mi_cursor i < length (mi_entries i)"

text \<open>Behind the last entry, \<open>Next\<close> moves the cursor and panics: \<open>None\<close>.\<close>

definition mi_Next :: "('k, 'v) map_iterator \<Rightarrow> ('k, 'v) map_entry option \<times> ('k, 'v) map_iterator" where
  "mi_Next i =
     (let i1 = i\<lparr>mi_cursor := Suc (mi_cursor i)\<rparr>
      in (if mi_cursor i1 - 1 < length (mi_entries i1) then Some (mi_entries i1 ! (mi_cursor i1 - 1)) else None, i1))"

definition mi_Err :: "('k, 'v) map_iterator \<Rightarrow> go_error option" where
  "mi_Err i = None"

definition map_iter :: "(('k, 'v) map_iterator, ('k, 'v) map_entry) iterator" where
  "map_iter = \<lparr>iHasNext = (\<lambda>i. (mi_HasNext i, i)), iNext = (\<lambda>i. (the (fst (mi_Next i)), snd (mi_Next i))), iErr = mi_Err\<rparr>"

definition mi_items :: "('k, 'v) map_iterator \<Rightarrow> ('k, 'v) map_entry list" where
  "mi_items i = drop (mi_cursor i) (mi_entries i)"

interpretation map_entries: finite_iterator map_iter mi_items "\<lambda>_. None" "\<lambda>_. True"
proof
  fix s :: "('k, 'v) map_iterator" and b s'
  assume "iHasNext map_iter s = (b, s')"
  then show "True \<and> (b \<longleftrightarrow> mi_items s \<noteq> []) \<and> mi_items s' = mi_items s \<and> (None :: go_error option) = None
       \<and> iErr map_iter s' = (if mi_items s = [] then None else None)"
    by (auto simp: map_iter_def mi_HasNext_def mi_items_def mi_Err_def)
next
  fix s :: "('k, 'v) map_iterator" and x xs y s'
  assume *: "mi_items s = x # xs" "iNext map_iter s = (y, s')"
  then have "mi_cursor s < length (mi_entries s)" by (metis drop_all list.distinct(1) mi_items_def not_le)
  with * show "y = x \<and> True \<and> mi_items s' = xs \<and> (None :: go_error option) = None \<and> iErr map_iter s' = None"
    by (auto simp: map_iter_def mi_Next_def mi_items_def mi_Err_def Let_def drop_Suc simp flip: Cons_nth_drop_Suc)
qed

section \<open>What the map keeps\<close>

definition map_ok :: "('k, 'v) thread_safe_map \<Rightarrow> bool" where
  "map_ok m \<longleftrightarrow> distinct (map fst (ts_internalMap m))"

lemma copied_into_map: "map_of (copied_into dst src) = map_of dst ++ map_of (rev src)"
  by (induction src arbitrary: dst) (auto simp: copied_into_def update_conv' map_add_def fun_eq_iff split: option.splits)

lemma copied_into_distinct: "distinct (map fst dst) \<Longrightarrow> distinct (map fst (copied_into dst src))"
  by (induction src arbitrary: dst) (auto simp: copied_into_def distinct_update)

lemma map_ok_new: "map_ok (NewThreadSafeMap m)"
  by (simp add: map_ok_def NewThreadSafeMap_def copied_into_distinct split: option.split)

text \<open>The operations of a program on the map.\<close>

datatype ('k, 'v) map_call = CallSet 'k 'v | CallDelete 'k

definition map_call :: "('k, 'v) map_call \<Rightarrow> ('k, 'v) thread_safe_map \<Rightarrow> ('k, 'v) thread_safe_map" where
  "map_call c m = (case c of CallSet k v \<Rightarrow> snd (map_Set k v m) | CallDelete k \<Rightarrow> snd (map_Delete k m))"

definition call_effect :: "('k, 'v) map_call \<Rightarrow> ('k \<rightharpoonup> 'v) \<Rightarrow> ('k \<rightharpoonup> 'v)" where
  "call_effect c f = (case c of CallSet k v \<Rightarrow> f(k \<mapsto> v) | CallDelete k \<Rightarrow> f(k := None))"

lemma map_call_ok: "map_ok m \<Longrightarrow> map_ok (map_call c m)"
  by (cases c) (simp_all add: map_ok_def map_call_def map_Set_def map_Delete_def distinct_update distinct_delete)

lemma map_call_effect: "map_Get (map_call c m) = call_effect c (map_Get m)"
  by (cases c) (simp_all add: map_Get_def [abs_def] map_call_def map_Set_def map_Delete_def call_effect_def update_conv'
      delete_conv')

text \<open>C33: After any sequence of Set and Delete calls on a new map, Get answers like the mathematical map with these
  updates, and Materialize over the map's iterator returns, without an error, exactly its entries: each key once, with
  its value, whatever order Go's range chooses.\<close>

theorem map_refines_function:
  assumes "m = foldl (\<lambda>m c. map_call c m) (NewThreadSafeMap initial) calls"
    and "\<And>xs. mset (order xs) = mset xs"
  shows "map_Get m = foldl (\<lambda>f c. call_effect c f) (map_of (rev (case initial of None \<Rightarrow> [] | Some xs \<Rightarrow> xs))) calls
         \<and> (\<exists>entries i. Materialize map_iter (map_AsIterator order m) = Some ((entries, None), i)
              \<and> distinct (map me_Key entries)
              \<and> (\<forall>k v. NewMapEntry k v \<in> set entries \<longleftrightarrow> map_Get m k = Some v)
              \<and> length entries = map_Len m)"
proof -
  have refines: "map_Get (foldl (\<lambda>m c. map_call c m) m0 calls) = foldl (\<lambda>f c. call_effect c f) (map_Get m0) calls" for m0 :: "('a, 'b) thread_safe_map"
    by (induction calls arbitrary: m0) (simp_all add: map_call_effect)
  have keeps: "map_ok m0 \<Longrightarrow> map_ok (foldl (\<lambda>m c. map_call c m) m0 calls)" for m0 :: "('a, 'b) thread_safe_map"
    by (induction calls arbitrary: m0) (simp_all add: map_call_ok)
  have ok: "map_ok m" using keeps [OF map_ok_new] by (simp add: assms(1))
  have start: "map_Get (NewThreadSafeMap initial) = map_of (rev (case initial of None \<Rightarrow> [] | Some xs \<Rightarrow> xs))"
    by (auto simp: map_Get_def [abs_def] NewThreadSafeMap_def copied_into_map split: option.splits)
  obtain i where run: "Materialize map_iter (map_AsIterator order m) = Some ((map_Entries order m, None), i)"
    using map_entries.materialize_items [of "map_AsIterator order m"]
    by (auto simp: map_AsIterator_def NewMapIterator_def mi_items_def)
  have same: "mset (order (ts_internalMap m)) = mset (ts_internalMap m)" by (rule assms(2))
  then have "distinct (map fst (order (ts_internalMap m)))"
    using ok by (metis map_ok_def mset_map mset_eq_imp_distinct_iff)
  moreover have "map me_Key (map_Entries order m) = map fst (order (ts_internalMap m))"
    by (auto simp: map_Entries_def NewMapEntry_def)
  moreover have "NewMapEntry k v \<in> set (map_Entries order m) \<longleftrightarrow> map_Get m k = Some v" for k v
  proof -
    have "NewMapEntry k v \<in> set (map_Entries order m) \<longleftrightarrow> (k, v) \<in> set (ts_internalMap m)"
      using mset_eq_setD [OF same] by (force simp: map_Entries_def NewMapEntry_def)
    then show ?thesis using ok by (simp add: map_Get_def map_ok_def)
  qed
  moreover have "length (map_Entries order m) = map_Len m"
    using mset_eq_length [OF same] by (simp add: map_Entries_def map_Len_def)
  ultimately show ?thesis using run refines [of "NewThreadSafeMap initial"] start by (auto simp: assms(1))
qed

theorem map_refines_function_witness:
  "\<exists>i. Materialize map_iter (map_AsIterator rev
         (foldl (\<lambda>m c. map_call c m) (NewThreadSafeMap None) [CallSet ''a'' (1 :: nat), CallSet ''b'' 2, CallDelete ''a'']))
       = Some (([NewMapEntry ''b'' 2], None), i)"
proof -
  let ?m = "foldl (\<lambda>m c. map_call c m) (NewThreadSafeMap None) [CallSet ''a'' (1 :: nat), CallSet ''b'' 2, CallDelete ''a'']"
  obtain entries i where run: "Materialize map_iter (map_AsIterator rev ?m) = Some ((entries, None), i)"
    and entries: "\<forall>k v. NewMapEntry k v \<in> set entries \<longleftrightarrow> map_Get ?m k = Some v" and len: "length entries = map_Len ?m"
    using map_refines_function [OF refl, of rev None "[CallSet ''a'' (1 :: nat), CallSet ''b'' 2, CallDelete ''a'']"] by auto
  have m: "?m = \<lparr>ts_internalMap = [(''b'', 2)]\<rparr>"
    by (simp add: NewThreadSafeMap_def map_call_def map_Set_def map_Delete_def)
  then obtain x where x: "entries = [x]" using len by (auto simp: map_Len_def length_Suc_conv)
  have "NewMapEntry ''b'' 2 \<in> set entries" using entries m by (simp add: map_Get_def)
  with x run show ?thesis by auto
qed

end
