(* ===== verification/Lazy_Connections.thy ===== *)
theory Lazy_Connections
  imports Breakers
begin

text \<open>
  What \<^verbatim>\<open>postgres\<close> and \<^verbatim>\<open>redis\<close> share: a connection that is made by the first operation that needs it
  (\<^verbatim>\<open>ensureConnected\<close> of \<^verbatim>\<open>database.go\<close> and \<^verbatim>\<open>redis.go\<close>), under a circuit breaker. The contract is the locale
  \<open>lazy_connection\<close>, of which each package has its interpretation.
\<close>

text \<open>
  A closure that runs under a breaker may also write captured variables. It then runs on the world with these
  variables; the breaker looks at the world alone.
\<close>

fun with_captured :: "('b, 'w) circuit_breaker \<Rightarrow> ('b, 'w \<times> 'c) circuit_breaker" where
  "with_captured Passthrough = Passthrough"
| "with_captured (Gobreaker st gb) =
     Gobreaker st \<lparr>gb_allow = (\<lambda>b (w, c). gb_allow gb b w), gb_done = (\<lambda>ok b (w, c). gb_done gb ok b w)\<rparr>"

locale lazy_connection =
  fixes ensure :: "'d \<Rightarrow> 's \<Rightarrow> go_error option \<times> 'd \<times> 's"
    and linked :: "'d \<Rightarrow> bool"
  assumes ensure_law: "ensure d s = (e, d', s') \<Longrightarrow> (e = None \<longrightarrow> linked d') \<and> (e \<noteq> None \<longrightarrow> d' = d)"
    and ensure_linked: "linked d \<Longrightarrow> ensure d s = (None, d, s)"
begin

lemma linked_after_success: "ensure d s = (None, d', s') \<Longrightarrow> linked d'"
  using ensure_law by blast

text \<open>A second call neither connects again nor touches the world.\<close>

lemma connects_once: "ensure d s = (None, d', s') \<Longrightarrow> ensure d' t = (None, d', t)"
  by (rule ensure_linked) (rule linked_after_success)

text \<open>A failure changes nothing of the client, so that the next operation tries again.\<close>

lemma failure_retries: "ensure d s = (Some e, d', s') \<Longrightarrow> d' = d \<and> \<not> linked d"
  using ensure_law [of d s "Some e" d' s'] ensure_linked [of d s] by auto

lemma linked_stays: "ensure d s = (e, d', s') \<Longrightarrow> linked d \<Longrightarrow> linked d'"
  using ensure_linked by auto

end

end
