(* ===== verification/Databases.thy ===== *)
theory Databases
  imports Lazy_Connections Utils
begin

text \<open>
  Package \<^verbatim>\<open>postgres\<close>: the texts of SQL clauses (\<^verbatim>\<open>util.go\<close>), the rows of batch queries (\<^verbatim>\<open>pairs.go\<close>), the circuit
  breaker's error filter (\<^verbatim>\<open>errors_filter.go\<close>), the connection that is made on first use (\<^verbatim>\<open>database.go\<close>,
  \<^verbatim>\<open>healthcheck.go\<close>), executors (\<^verbatim>\<open>structures.go\<close>), the functions that run queries and transactions
  (\<^verbatim>\<open>repository.go\<close>, \<^verbatim>\<open>carry.go\<close>) and the types of columns (\<^verbatim>\<open>types.go\<close>). The libraries pgx, pgxscan and squirrel are parameters; a query is what its \<open>ToSql\<close> returns.
\<close>

section \<open>SQL texts\<close>

definition TableAlias :: "string \<Rightarrow> string \<Rightarrow> string" where
  "TableAlias tableName alias = tableName @ '' AS '' @ alias"

abbreviation quote :: char where "quote \<equiv> CHR 0x22"

definition quoteIdent :: "string \<Rightarrow> string" where
  "quoteIdent col =
     (let clean = filter (\<lambda>c. c \<noteq> CHR 0x00) col
      in quote # concat (map (\<lambda>c. if c = quote then [quote, quote] else [c]) clean) @ [quote])"

definition quoteIdents :: "string list \<Rightarrow> string" where
  "quoteIdents columns = join_with '', '' (map quoteIdent columns)"

definition OnConflict :: "string list \<Rightarrow> string" where
  "OnConflict columns = (if columns = [] then ''ON CONFLICT'' else ''ON CONFLICT ('' @ quoteIdents columns @ '')'')"

definition OnConflictDoNothing :: "string list \<Rightarrow> string" where
  "OnConflictDoNothing columns = OnConflict columns @ '' DO NOTHING''"

definition OnConflictDoUpdateSet :: "string list \<Rightarrow> string list \<Rightarrow> string" where
  "OnConflictDoUpdateSet conflictColumns assignments =
     OnConflict conflictColumns @ '' DO UPDATE SET '' @ join_with '', '' assignments"

definition SetExcluded :: "string \<Rightarrow> string" where
  "SetExcluded col = quoteIdent col @ '' = EXCLUDED.'' @ quoteIdent col"

definition SetNow :: "string \<Rightarrow> string" where
  "SetNow col = quoteIdent col @ '' = NOW()''"

definition SetGreatestExcluded :: "string \<Rightarrow> string \<Rightarrow> string" where
  "SetGreatestExcluded table col =
     quoteIdent col @ '' = GREATEST('' @ quoteIdent table @ ''.'' @ quoteIdent col @ '', EXCLUDED.'' @ quoteIdent col @ '')''"

text \<open>An expression with one argument, as it is given to squirrel.\<close>

definition Increment :: "string \<Rightarrow> int \<Rightarrow> string \<times> int list" where
  "Increment column inc = (column @ '' + ?'', [inc])"

definition Decrement :: "string \<Rightarrow> int \<Rightarrow> string \<times> int list" where
  "Decrement column dec = (column @ '' - ?'', [dec])"

definition SortAsc :: "string \<Rightarrow> string" where "SortAsc column = column @ '' ASC''"
definition SortDesc :: "string \<Rightarrow> string" where "SortDesc column = column @ '' DESC''"

text \<open>
  How Postgres reads a quoted identifier: up to a quote that no second one follows; two quotes stand for one.
\<close>

fun read_quoted :: "string \<Rightarrow> (string \<times> string) option" where
  "read_quoted [] = None"
| "read_quoted (c # cs) =
     (if c \<noteq> quote then map_option (apfst (Cons c)) (read_quoted cs)
      else (case cs of
              [] \<Rightarrow> Some ([], [])
            | d # ds \<Rightarrow> if d = quote then map_option (apfst (Cons quote)) (read_quoted ds) else Some ([], d # ds)))"

definition read_identifier :: "string \<Rightarrow> (string \<times> string) option" where
  "read_identifier s = (case s of c # cs \<Rightarrow> if c = quote then read_quoted cs else None | [] \<Rightarrow> None)"

text \<open>A list of identifiers in parentheses.\<close>

function read_identifiers :: "string \<Rightarrow> (string list \<times> string) option" where
  "read_identifiers s =
     (case read_identifier s of
        None \<Rightarrow> None
      | Some (name, rest) \<Rightarrow>
          if length s \<le> length rest then None
          else if take 1 rest = '')'' then Some ([name], drop 1 rest)
          else if take 2 rest = '', '' then map_option (apfst (Cons name)) (read_identifiers (drop 2 rest))
          else None)"
  by pat_completeness auto
termination
  by (relation "measure length") auto

declare read_identifiers.simps [simp del]

abbreviation without_nul :: "string \<Rightarrow> string" where
  "without_nul \<equiv> filter (\<lambda>c. c \<noteq> CHR 0x00)"

lemma read_quoted_doubled:
  assumes "take 1 rest \<noteq> [quote]"
  shows "read_quoted (concat (map (\<lambda>c. if c = quote then [quote, quote] else [c]) s) @ quote # rest) = Some (s, rest)"
proof (induction s)
  case Nil
  with assms show ?case by (cases rest) auto
qed (auto split: list.split)

lemma read_quoteIdent:
  assumes "take 1 rest \<noteq> [quote]"
  shows "read_identifier (quoteIdent col @ rest) = Some (without_nul col, rest)"
  using read_quoted_doubled [OF assms, of "without_nul col"] by (simp add: read_identifier_def quoteIdent_def Let_def)

lemma quoteIdent_length: "2 \<le> length (quoteIdent col)"
  by (simp add: quoteIdent_def Let_def)

lemma quoteIdent_not_Nil [simp]: "quoteIdent col \<noteq> []"
  by (simp add: quoteIdent_def Let_def)

text \<open>C38: No column name escapes from an ON CONFLICT clause. Whatever bytes the names consist of, Postgres reads back
  exactly these names, without the NUL bytes that no identifier may have, and then the text that follows the clause.\<close>

theorem on_conflict_reads_back:
  assumes "columns \<noteq> []"
  shows "take 13 (OnConflict columns @ rest) = ''ON CONFLICT (''
         \<and> read_identifiers (drop 13 (OnConflict columns @ rest)) = Some (map without_nul columns, rest)"
proof -
  have "read_identifiers (quoteIdents columns @ '')'' @ rest) = Some (map without_nul columns, rest)"
    using assms
  proof (induction columns)
    case (Cons col columns)
    show ?case
    proof (cases columns)
      case Nil
      have "read_identifier (quoteIdent col @ CHR '')'' # rest) = Some (without_nul col, CHR '')'' # rest)"
        by (rule read_quoteIdent) simp
      with Nil show ?thesis
        using quoteIdent_length [of col] by (subst read_identifiers.simps) (simp add: quoteIdents_def)
    next
      case (Cons col2 more)
      let ?tail = "'', '' @ quoteIdents columns @ '')'' @ rest"
      have "read_identifier (quoteIdent col @ ?tail) = Some (without_nul col, ?tail)"
        by (rule read_quoteIdent) simp
      moreover have "quoteIdents (col # columns) = quoteIdent col @ '', '' @ quoteIdents columns"
        using Cons by (simp add: quoteIdents_def)
      moreover have "read_identifiers (quoteIdents columns @ '')'' @ rest) = Some (map without_nul columns, rest)"
        using Cons.IH Cons by simp
      ultimately show ?thesis
        using quoteIdent_length [of col] by (subst read_identifiers.simps) simp
    qed
  qed simp
  with assms show ?thesis by (simp add: OnConflict_def)
qed

theorem on_conflict_reads_back_witness:
  "read_identifiers (drop 13 (OnConflict [''id'', [CHR ''a'', quote, CHR '')'', CHR '';'']] @ '' DO NOTHING''))
   = Some ([''id'', [CHR ''a'', quote, CHR '')'', CHR '';'']], '' DO NOTHING'')"
  using on_conflict_reads_back [of "[''id'', [CHR ''a'', quote, CHR '')'', CHR '';'']]" "'' DO NOTHING''"] by simp

section \<open>Rows of batch queries\<close>

text \<open>The pairs of the four row types are pairs here; \<open>zero\<close> is the zero value of the type.\<close>

fun pairs_Contains :: "('k \<times> 'v) list \<Rightarrow> 'k \<Rightarrow> bool" where
  "pairs_Contains [] k = False"
| "pairs_Contains (p # ps) k = (if fst p = k then True else pairs_Contains ps k)"

fun pairs_Value :: "'v \<Rightarrow> ('k \<times> 'v) list \<Rightarrow> 'k \<Rightarrow> 'v" where
  "pairs_Value zero [] k = zero"
| "pairs_Value zero (p # ps) k = (if fst p = k then snd p else pairs_Value zero ps k)"

lemma pairs_map_of:
  "pairs_Contains ps k \<longleftrightarrow> map_of ps k \<noteq> None"
  "pairs_Value zero ps k = (case map_of ps k of None \<Rightarrow> zero | Some v \<Rightarrow> v)"
  by (induction ps) auto

section \<open>The circuit breaker's error filter\<close>

text \<open>An error of pgconn with its code; \<open>errors.As\<close> finds the first one in the tree.\<close>

abbreviation PgError :: "string \<Rightarrow> go_error" where
  "PgError c \<equiv> Atom (InPackage ''pgconn'' c)"

fun first_pg_error :: "go_error \<Rightarrow> string option" and first_pg_error_in :: "go_error list \<Rightarrow> string option" where
  "first_pg_error (Atom a) = (case a of InPackage p c \<Rightarrow> if p = ''pgconn'' then Some c else None | _ \<Rightarrow> None)"
| "first_pg_error (Wrap m es) = first_pg_error_in es"
| "first_pg_error_in [] = None"
| "first_pg_error_in (e # es) = (case first_pg_error e of Some c \<Rightarrow> Some c | None \<Rightarrow> first_pg_error_in es)"

definition shouldIgnorePgError :: "string \<Rightarrow> bool" where
  "shouldIgnorePgError pgcode =
     (if length pgcode < 2 then False
      else if take 2 pgcode = ''23'' then True
      else if take 2 pgcode = ''42'' then True
      else if pgcode = ''40001'' \<or> pgcode = ''40P01'' then True
      else if take 2 pgcode = ''22'' then True
      else False)"

abbreviation PgxNoRows :: sentinel where "PgxNoRows \<equiv> InPackage ''pgx'' ''ErrNoRows''"
abbreviation SqlNoRows :: sentinel where "SqlNoRows \<equiv> InPackage ''sql'' ''ErrNoRows''"

definition postgres_ShouldIgnoreError :: "go_error \<Rightarrow> bool" where
  "postgres_ShouldIgnoreError err =
     (if err_is err PgxNoRows \<or> err_is err SqlNoRows then True
      else if err_is err ContextCanceled then True
      else (case first_pg_error err of Some pgcode \<Rightarrow> shouldIgnorePgError pgcode | None \<Rightarrow> False))"

definition NewPostgresCircuitBreaker ::
  "(breaker_settings \<Rightarrow> ('b, 'w) gobreaker) \<Rightarrow> breaker_config \<Rightarrow> (go_error \<Rightarrow> bool) option \<Rightarrow> ('b, 'w) circuit_breaker" where
  "NewPostgresCircuitBreaker mk config shouldIgnoreError =
     NewBreaker mk config (Some (case shouldIgnoreError of None \<Rightarrow> postgres_ShouldIgnoreError | Some f \<Rightarrow> f))"

section \<open>The database\<close>

text \<open>
  \<open>'p\<close> is a pool of pgx. The pool of a database is there exactly when it is connected; \<open>di_pool\<close> stands for both, and
  for the executor over the pool, which \<open>Executor\<close> returns.
\<close>

record ('b, 'w, 'p) database =
  di_name :: string
  di_maxPoolSize :: int
  di_pool :: "'p option"
  di_breaker :: "('b, 'w) circuit_breaker option"

record ('w, 'p) pgx_pool =
  px_ParseConfig :: "string \<Rightarrow> go_error option"
  px_NewWithConfig :: "int \<Rightarrow> 'w \<Rightarrow> (go_error + 'p) \<times> 'w"
  px_Ping :: "'p \<Rightarrow> 'w \<Rightarrow> go_error option \<times> 'w"
  px_Close :: "'p \<Rightarrow> 'w \<Rightarrow> 'w"

type_synonym ('b, 'w, 'p) database_option = "('b, 'w, 'p) database \<Rightarrow> ('b, 'w, 'p) database"

definition MaxPoolSize :: "int \<Rightarrow> ('b, 'w, 'p) database_option" where
  "MaxPoolSize n d = d\<lparr>di_maxPoolSize := n\<rparr>"

definition WithDatabaseBreaker :: "('b, 'w) circuit_breaker option \<Rightarrow> ('b, 'w, 'p) database_option" where
  "WithDatabaseBreaker cb d = d\<lparr>di_breaker := cb\<rparr>"

definition NewDatabase ::
  "('w, 'p) pgx_pool \<Rightarrow> string \<Rightarrow> string \<Rightarrow> ('b, 'w, 'p) database_option list \<Rightarrow> go_error + ('b, 'w, 'p) database" where
  "NewDatabase px name url opts =
     (let d = fold (\<lambda>opt. opt) opts \<lparr>di_name = name, di_maxPoolSize = 1, di_pool = None, di_breaker = None\<rparr>
      in case px_ParseConfig px url of
           Some e \<Rightarrow> Inl e
         | None \<Rightarrow>
             if 2 ^ 31 - 1 < di_maxPoolSize d \<or> di_maxPoolSize d < 0
             then Inl (Wrap ''invalid'' [Atom (InPackage ''postgres'' ''errInvalidMaxPoolSize'')])
             else Inr d)"

text \<open>What connecting stores in the database is captured.\<close>

definition connect_pool ::
  "('w, 'p) pgx_pool \<Rightarrow> int \<Rightarrow> 'w \<times> 'p option \<Rightarrow> go_error option \<times> 'w \<times> 'p option" where
  "connect_pool px n = (\<lambda>(w, old).
     case px_NewWithConfig px n w of
       (Inl e, w1) \<Rightarrow> (Some e, w1, old)
     | (Inr pool, w1) \<Rightarrow>
         (case px_Ping px pool w1 of
            (Some e, w2) \<Rightarrow> (Some e, w2, old)
          | (None, w2) \<Rightarrow> (None, w2, Some pool)))"

definition db_ensureConnected ::
  "('w, 'p) pgx_pool \<Rightarrow> ('b, 'w, 'p) database \<Rightarrow> 'b \<times> 'w \<Rightarrow> go_error option \<times> ('b, 'w, 'p) database \<times> 'b \<times> 'w" where
  "db_ensureConnected px d = (\<lambda>(b, w).
     if di_pool d \<noteq> None then (None, d, b, w)
     else (case cb_Execute (map_option with_captured (di_breaker d)) (connect_pool px (di_maxPoolSize d)) (b, w, di_pool d) of
             (err, b1, w1, pool) \<Rightarrow> (err, d\<lparr>di_pool := pool\<rparr>, b1, w1)))"

definition db_IsConnected :: "('b, 'w, 'p) database \<Rightarrow> bool" where
  "db_IsConnected d \<longleftrightarrow> di_pool d \<noteq> None"

text \<open>\<open>Close\<close> closes the pool and forgets nothing.\<close>

definition db_Close :: "('w, 'p) pgx_pool \<Rightarrow> ('b, 'v, 'p) database \<Rightarrow> 'w \<Rightarrow> 'w" where
  "db_Close px d w = (case di_pool d of None \<Rightarrow> w | Some pool \<Rightarrow> px_Close px pool w)"

text \<open>Success means that there is a pool; a failed connection leaves the database as it was, so that the next call
  tries again.\<close>

lemma failed_connect_keeps:
  assumes "db_ensureConnected px d (b, w) = (err, d', b', w')"
  shows "(err = None \<longrightarrow> di_pool d' \<noteq> None) \<and> (err \<noteq> None \<longrightarrow> d' = d)"
proof (cases "di_pool d")
  case None
  obtain p where run: "cb_Execute (map_option with_captured (di_breaker d)) (connect_pool px (di_maxPoolSize d)) (b, w, None)
      = (err, b', w', p)"
    and d': "d' = d\<lparr>di_pool := p\<rparr>"
    using assms None by (auto simp: db_ensureConnected_def split: prod.splits)
  from guarded_call.exec_law [OF run] None d' show ?thesis
    by (auto simp: connect_pool_def split: result_splits)
qed (use assms in \<open>simp add: db_ensureConnected_def\<close>)


text \<open>A pool whose first ping fails is dropped without being closed.\<close>

lemma failed_ping_leaks:
  assumes "px_NewWithConfig px n w = (Inr pool, w1)" "px_Ping px pool w1 = (Some e, w2)"
  shows "connect_pool px n (w, None) = (Some e, w2, None)"
  using assms by (simp add: connect_pool_def)

section \<open>Executors\<close>

text \<open>
  An executor runs a text with arguments; \<open>'a\<close> are arguments, \<open>'r\<close> the rows that pgx returns and the program scans,
  of which \<open>nil_rows\<close> is the nil interface.
\<close>

record ('w, 'a, 'r) query_executor =
  qe_Exec :: "string \<Rightarrow> 'a list \<Rightarrow> 'w \<Rightarrow> (go_error + int) \<times> 'w"
  qe_Query :: "string \<Rightarrow> 'a list \<Rightarrow> 'w \<Rightarrow> (go_error + 'r) \<times> 'w"

record ('b, 'w, 'a, 'r) executor_impl =
  xi_executor :: "('w, 'a, 'r) query_executor"
  xi_breaker :: "('b, 'w) circuit_breaker option"

definition NewQueryExecutorImpl ::
  "('w, 'a, 'r) query_executor \<Rightarrow> ('b, 'w) circuit_breaker option \<Rightarrow> ('b, 'w, 'a, 'r) executor_impl" where
  "NewQueryExecutorImpl ex cb = \<lparr>xi_executor = ex, xi_breaker = cb\<rparr>"

text \<open>The executor that a \<open>QueryExecutorImpl\<close> yields as a runner is the inner one.\<close>

definition xi_Executor :: "('b, 'w, 'a, 'r) executor_impl \<Rightarrow> go_error + ('w, 'a, 'r) query_executor" where
  "xi_Executor q = Inr (xi_executor q)"

definition xi_Exec ::
  "('b, 'w, 'a, 'r) executor_impl \<Rightarrow> string \<Rightarrow> 'a list \<Rightarrow> 'b \<times> 'w \<Rightarrow> (go_error + int) \<times> 'b \<times> 'w" where
  "xi_Exec q sql args s =
     (case cb_ExecuteWithResult (\<lambda>n. n) Some (xi_breaker q)
        (\<lambda>w. case qe_Exec (xi_executor q) sql args w of
           (Inl e, w1) \<Rightarrow> ((0, Some e), w1)
         | (Inr n, w1) \<Rightarrow> ((n, None), w1)) 0 s of
        ((n, Some e), s1) \<Rightarrow> (Inl e, s1)
      | ((n, None), s1) \<Rightarrow> (Inr n, s1))"

definition xi_Query ::
  "'r \<Rightarrow> ('b, 'w, 'a, 'r) executor_impl \<Rightarrow> string \<Rightarrow> 'a list \<Rightarrow> 'b \<times> 'w \<Rightarrow> (go_error + 'r) \<times> 'b \<times> 'w" where
  "xi_Query nil_rows q sql args s =
     (case cb_ExecuteWithResult (\<lambda>r. r) (\<lambda>r. if r = nil_rows then None else Some r) (xi_breaker q)
        (\<lambda>w. case qe_Query (xi_executor q) sql args w of
           (Inl e, w1) \<Rightarrow> ((nil_rows, Some e), w1)
         | (Inr r, w1) \<Rightarrow> ((r, None), w1)) nil_rows s of
        ((r, Some e), s1) \<Rightarrow> (Inl e, s1)
      | ((r, None), s1) \<Rightarrow> (Inr r, s1))"

text \<open>The implementation is itself an executor, over the world with the breaker's state.\<close>

definition as_executor :: "'r \<Rightarrow> ('b, 'w, 'a, 'r) executor_impl \<Rightarrow> ('b \<times> 'w, 'a, 'r) query_executor" where
  "as_executor nil_rows q = \<lparr>qe_Exec = xi_Exec q, qe_Query = xi_Query nil_rows q\<rparr>"

text \<open>
  The executor of a database is the one over its pool (\<open>over_pool\<close>), which connecting has stored; \<open>None\<close> is the nil
  that the field holds before.
\<close>

definition db_Executor ::
  "('w, 'p) pgx_pool \<Rightarrow> ('p \<Rightarrow> ('w, 'a, 'r) query_executor) \<Rightarrow> ('b, 'w, 'p) database \<Rightarrow> 'b \<times> 'w
   \<Rightarrow> (go_error + ('b, 'w, 'a, 'r) executor_impl option) \<times> ('b, 'w, 'p) database \<times> 'b \<times> 'w" where
  "db_Executor px over_pool d s =
     (case db_ensureConnected px d s of
        (Some e, d1, s1) \<Rightarrow> (Inl e, d1, s1)
      | (None, d1, s1) \<Rightarrow> (Inr (map_option (\<lambda>pool. NewQueryExecutorImpl (over_pool pool) (di_breaker d1)) (di_pool d1)), d1, s1))"

lemma db_Executor_not_nil: "fst (db_Executor px over_pool d (b, w)) \<noteq> Inr None"
  using failed_connect_keeps [of px d b w] by (auto simp: db_Executor_def split: result_splits)

text \<open>The health check: a database that is not connected yet is healthy.\<close>

definition db_IsOK ::
  "('w, 'p) pgx_pool \<Rightarrow> ('p \<Rightarrow> ('w, 'a, 'r) query_executor) \<Rightarrow> 'r \<Rightarrow> ('r \<Rightarrow> 'w \<Rightarrow> bool \<times> 'w) \<Rightarrow> ('r \<Rightarrow> 'w \<Rightarrow> 'w)
   \<Rightarrow> ('b, 'w, 'p) database \<Rightarrow> 'b \<times> 'w \<Rightarrow> bool \<times> ('b, 'w, 'p) database \<times> 'b \<times> 'w" where
  "db_IsOK px over_pool nil_rows rows_Next rows_Close d s =
     (if \<not> db_IsConnected d then (True, d, s)
      else (case db_Executor px over_pool d s of
              (Inl e, d1, s1) \<Rightarrow> (False, d1, s1)
            | (Inr None, d1, s1) \<Rightarrow> (False, d1, s1)
            | (Inr (Some q), d1, s1) \<Rightarrow>
                (case xi_Query nil_rows q ''SELECT 1'' [] s1 of
                   (Inl e, s2) \<Rightarrow> (False, d1, s2)
                 | (Inr rows, b2, w2) \<Rightarrow> (case rows_Next rows w2 of (ok, w3) \<Rightarrow> (ok, d1, b2, rows_Close rows w3)))))"

section \<open>Queries\<close>

type_synonym 'a query = "go_error + string \<times> 'a list"

definition PlainSql :: "string \<Rightarrow> 'a list \<Rightarrow> 'a query" where
  "PlainSql sql params = Inr (sql, params)"

text \<open>The affected rows of a result.\<close>

type_synonym query_result = int

definition NewEmptyQueryResult :: query_result where
  "NewEmptyQueryResult = 0"

definition wrapQueryWithLogger ::
  "'a query \<Rightarrow> (string \<Rightarrow> 'a list \<Rightarrow> 'w \<Rightarrow> (go_error + query_result) \<times> 'w) \<Rightarrow> 'w \<Rightarrow> (go_error + query_result) \<times> 'w" where
  "wrapQueryWithLogger query fn w =
     (case query of
        Inl e \<Rightarrow> (Inl (Wrap ''query failed'' [e]), w)
      | Inr (sql, args) \<Rightarrow>
          (case fn sql args w of
             (Inl e, w1) \<Rightarrow> (Inl (Wrap (''query '' @ sql @ '' failed'') [e]), w1)
           | (Inr result, w1) \<Rightarrow> (Inr result, w1)))"

text \<open>A runner yields its executor, or an error.\<close>

definition ExecuteQuery ::
  "(go_error + ('w, 'a, 'r) query_executor) \<Rightarrow> 'a query \<Rightarrow> 'w \<Rightarrow> (go_error + query_result) \<times> 'w" where
  "ExecuteQuery runner query w =
     (case runner of
        Inl e \<Rightarrow> (Inl e, w)
      | Inr ex \<Rightarrow>
          wrapQueryWithLogger query
            (\<lambda>sql args w. case qe_Exec ex sql args w of
               (Inl e, w1) \<Rightarrow> (Inl (Wrap ''sql exec failed'' [e]), w1)
             | (Inr n, w1) \<Rightarrow> (Inr n, w1)) w)"

text \<open>\<open>scan\<close> is \<open>pgxscan.ScanAll\<close>: an error, and the rows it has stored; that there are none is no error here.\<close>

definition ExecuteQueryRows ::
  "(go_error + ('w, 'a, 'r) query_executor) \<Rightarrow> ('r \<Rightarrow> go_error option \<times> 'x list) \<Rightarrow> 'a query \<Rightarrow> 'w
   \<Rightarrow> (go_error + query_result) \<times> 'x list \<times> 'w" where
  "ExecuteQueryRows runner scan query w =
     (case runner of
        Inl e \<Rightarrow> (Inl e, [], w)
      | Inr ex \<Rightarrow>
          (case wrapQueryWithLogger query
             (\<lambda>sql args (w, xs). case qe_Query ex sql args w of
                (Inl e, w1) \<Rightarrow> (Inl (Wrap ''sql query failed'' [e]), w1, xs)
              | (Inr rows, w1) \<Rightarrow>
                  (case scan rows of
                     (Some e, ys) \<Rightarrow>
                       if \<not> err_is e PgxNoRows then (Inl (Wrap ''sql result scan failed'' [e]), w1, ys)
                       else (Inr NewEmptyQueryResult, w1, ys)
                   | (None, ys) \<Rightarrow> (Inr NewEmptyQueryResult, w1, ys))) (w, []) of
             (res, w1, xs) \<Rightarrow> (res, xs, w1)))"

definition FetchRowsSimple ::
  "(go_error + ('w, 'a, 'r) query_executor) \<Rightarrow> ('r \<Rightarrow> go_error option \<times> 'x list) \<Rightarrow> 'a query \<Rightarrow> 'w \<Rightarrow> (go_error + 'x list) \<times> 'w" where
  "FetchRowsSimple runner scan query w =
     (case ExecuteQueryRows runner scan query w of
        (Inl e, xs, w1) \<Rightarrow> (Inl e, w1)
      | (Inr _, xs, w1) \<Rightarrow> (Inr xs, w1))"

definition FetchRows ::
  "(go_error + ('w, 'a, 'r) query_executor) \<Rightarrow> ('r \<Rightarrow> go_error option \<times> 'x list) \<Rightarrow> 'a query \<Rightarrow> ('x \<Rightarrow> 'm) \<Rightarrow> 'w
   \<Rightarrow> (go_error + 'm list) \<times> 'w" where
  "FetchRows runner scan query convert w =
     (case FetchRowsSimple runner scan query w of
        (Inl e, w1) \<Rightarrow> (Inl e, w1)
      | (Inr rows, w1) \<Rightarrow> (Inr (MapSimple convert rows), w1))"

abbreviation postgres_ErrNoRows :: go_error where
  "postgres_ErrNoRows \<equiv> Wrap [] [Atom SqlNoRows, Atom (InPackage ''postgres'' ''errNoRows'')]"

definition FetchRow ::
  "(go_error + ('w, 'a, 'r) query_executor) \<Rightarrow> ('r \<Rightarrow> go_error option \<times> 'x list) \<Rightarrow> 'a query \<Rightarrow> ('x \<Rightarrow> 'm) \<Rightarrow> 'm \<Rightarrow> 'w
   \<Rightarrow> ('m \<times> go_error option) \<times> 'w" where
  "FetchRow runner scan query convert defaultValue w =
     (case ExecuteQueryRows runner scan query w of
        (Inl e, rows, w1) \<Rightarrow> ((defaultValue, Some e), w1)
      | (Inr _, row # rows, w1) \<Rightarrow> ((convert row, None), w1)
      | (Inr _, [], w1) \<Rightarrow> ((defaultValue, Some postgres_ErrNoRows), w1))"

definition FetchRowSimple ::
  "(go_error + ('w, 'a, 'r) query_executor) \<Rightarrow> ('r \<Rightarrow> go_error option \<times> 'x list) \<Rightarrow> 'a query \<Rightarrow> 'x \<Rightarrow> 'w
   \<Rightarrow> ('x \<times> go_error option) \<times> 'w" where
  "FetchRowSimple runner scan query defaultValue w = FetchRow runner scan query (\<lambda>x. x) defaultValue w"

text \<open>An empty result is an error that the breaker ignores, and not one of the database.\<close>

lemma no_rows_ignored: "postgres_ShouldIgnoreError postgres_ErrNoRows"
  by (simp add: postgres_ShouldIgnoreError_def)

text \<open>The first row of a query that is scanned, and the arguments exactly as the query gives them.\<close>

lemma FetchRow_first:
  assumes "qe_Query ex sql args w = (Inr rows, w1)" "scan rows = (None, xs)"
  shows "FetchRow (Inr ex) scan (Inr (sql, args)) convert defaultValue w
         = ((case xs of [] \<Rightarrow> defaultValue | x # _ \<Rightarrow> convert x, if xs = [] then Some postgres_ErrNoRows else None), w1)"
  using assms by (cases xs) (simp_all add: FetchRow_def ExecuteQueryRows_def wrapQueryWithLogger_def)

section \<open>Transactions\<close>

text \<open>
  \<open>pgx_Begin\<close> is \<open>BeginTx\<close> of a pool. \<open>pgx_BeginTxFunc\<close> is \<open>pgx.BeginTxFunc\<close>, which runs a function on a transaction; the
  pool it gets is the field of the database (\<open>None\<close> is nil), and the function may write a captured variable.
\<close>

definition db_BeginTx ::
  "('w, 'p) pgx_pool \<Rightarrow> ('p option \<Rightarrow> 'w \<Rightarrow> ('x option \<times> go_error option) \<times> 'w) \<Rightarrow> ('b, 'w, 'p) database \<Rightarrow> 'b \<times> 'w
   \<Rightarrow> ('x option \<times> go_error option) \<times> ('b, 'w, 'p) database \<times> 'b \<times> 'w" where
  "db_BeginTx px pgx_Begin d s =
     (case db_ensureConnected px d s of
        (Some e, d1, s1) \<Rightarrow> ((None, Some e), d1, s1)
      | (None, d1, s1) \<Rightarrow>
          (case cb_ExecuteWithResult (\<lambda>tx. tx) (map_option Some) (di_breaker d1) (pgx_Begin (di_pool d1)) None s1 of
             (r, s2) \<Rightarrow> (r, d1, s2)))"

definition db_BeginTxFunc ::
  "('w, 'p) pgx_pool \<Rightarrow> ('p option \<Rightarrow> ('x \<Rightarrow> 'w \<times> 'c \<Rightarrow> go_error option \<times> 'w \<times> 'c) \<Rightarrow> 'w \<times> 'c \<Rightarrow> go_error option \<times> 'w \<times> 'c)
   \<Rightarrow> ('b, 'w, 'p) database \<Rightarrow> ('x \<Rightarrow> 'w \<times> 'c \<Rightarrow> go_error option \<times> 'w \<times> 'c) \<Rightarrow> 'b \<times> 'w \<Rightarrow> 'c
   \<Rightarrow> go_error option \<times> ('b, 'w, 'p) database \<times> ('b \<times> 'w) \<times> 'c" where
  "db_BeginTxFunc px pgx_BeginTxFunc d txFunc s c =
     (case db_ensureConnected px d s of
        (Some e, d1, s1) \<Rightarrow> (Some e, d1, s1, c)
      | (None, d1, b1, w1) \<Rightarrow>
          (case cb_Execute (map_option with_captured (di_breaker d1)) (pgx_BeginTxFunc (di_pool d1) txFunc) (b1, w1, c) of
             (err, b2, w2, c2) \<Rightarrow> (err, d1, (b2, w2), c2)))"

text \<open>The value of the function is kept whatever becomes of the transaction; a function that was not run leaves
  \<open>nullValue\<close>. The function gets a runner whose executor is the transaction.\<close>

definition ExecuteTypedTransaction ::
  "('w, 'p) pgx_pool \<Rightarrow> ('p option \<Rightarrow> (('w, 'a, 'r) query_executor \<Rightarrow> 'w \<times> 't \<Rightarrow> go_error option \<times> 'w \<times> 't) \<Rightarrow> 'w \<times> 't \<Rightarrow> go_error option \<times> 'w \<times> 't)
   \<Rightarrow> ('b, 'w, 'p) database \<Rightarrow> 't \<Rightarrow> (('b, 'w, 'a, 'r) executor_impl \<Rightarrow> 'w \<Rightarrow> ('t \<times> go_error option) \<times> 'w) \<Rightarrow> 'b \<times> 'w
   \<Rightarrow> ('t \<times> go_error option) \<times> ('b, 'w, 'p) database \<times> 'b \<times> 'w" where
  "ExecuteTypedTransaction px pgx_BeginTxFunc d nullValue function s =
     (case db_BeginTxFunc px pgx_BeginTxFunc d
        (\<lambda>tx (w, result). case function (NewQueryExecutorImpl tx (di_breaker d)) w of ((v, err), w1) \<Rightarrow> (err, w1, v))
        s nullValue of
        (err, d1, s1, result) \<Rightarrow> ((result, err), d1, s1))"

definition ExecuteTransaction ::
  "('w, 'p) pgx_pool \<Rightarrow> ('p option \<Rightarrow> (('w, 'a, 'r) query_executor \<Rightarrow> 'w \<times> unit \<Rightarrow> go_error option \<times> 'w \<times> unit) \<Rightarrow> 'w \<times> unit \<Rightarrow> go_error option \<times> 'w \<times> unit)
   \<Rightarrow> ('b, 'w, 'p) database \<Rightarrow> (('b, 'w, 'a, 'r) executor_impl \<Rightarrow> 'w \<Rightarrow> go_error option \<times> 'w) \<Rightarrow> 'b \<times> 'w
   \<Rightarrow> go_error option \<times> ('b, 'w, 'p) database \<times> 'b \<times> 'w" where
  "ExecuteTransaction px pgx_BeginTxFunc d function s =
     (case ExecuteTypedTransaction px pgx_BeginTxFunc d () (\<lambda>runner w. case function runner w of (err, w1) \<Rightarrow> (((), err), w1)) s of
        ((_, err), d1, s1) \<Rightarrow> (err, d1, s1))"







text \<open>Within a transaction the breaker is not asked again: the function's queries go to the transaction.\<close>

lemma transaction_queries_unguarded:
  "xi_Executor (NewQueryExecutorImpl tx cb) = Inr tx"
  by (simp add: xi_Executor_def NewQueryExecutorImpl_def)

section \<open>Carried functions\<close>

text \<open>Data access functions with up to four and transaction functions with up to five more parameters; the parameters
  are a tuple.\<close>

definition CarryTxFunc :: "('q \<Rightarrow> 'w \<Rightarrow> go_error option \<times> 'w) \<Rightarrow> 'q \<Rightarrow> 'w \<Rightarrow> go_error option \<times> 'w" where
  "CarryTxFunc f queryRunner = f queryRunner"

definition CarryDaoFunc ::
  "('q \<Rightarrow> 'ps \<Rightarrow> 'w \<Rightarrow> (go_error + query_result) \<times> 'w) \<Rightarrow> 'ps \<Rightarrow> 'q \<Rightarrow> 'w \<Rightarrow> go_error option \<times> 'w" where
  "CarryDaoFunc f ps queryRunner w =
     (case f queryRunner ps w of (Inl e, w1) \<Rightarrow> (Some e, w1) | (Inr _, w1) \<Rightarrow> (None, w1))"

definition CarryTxParams ::
  "('ps \<Rightarrow> 'q \<Rightarrow> 'w \<Rightarrow> go_error option \<times> 'w) \<Rightarrow> 'ps \<Rightarrow> 'q \<Rightarrow> 'w \<Rightarrow> go_error option \<times> 'w" where
  "CarryTxParams f ps queryRunner = f ps queryRunner"

section \<open>Column types\<close>

text \<open>Values that a driver hands to \<open>Scan\<close>; \<open>OtherValue\<close> stands for the types that no scanner of the package takes.\<close>

datatype 't db_value = TextValue string | BytesValue "byte list" | SliceValue "'t list" | OtherValue

abbreviation pg_error :: "string \<Rightarrow> go_error" where
  "pg_error e \<equiv> Atom (InPackage ''postgres'' e)"

definition ScanTypedIdUuid ::
  "(string \<Rightarrow> go_error + 'u) \<Rightarrow> ('u \<Rightarrow> 'i) \<Rightarrow> 't db_value \<Rightarrow> 'i \<Rightarrow> go_error option \<times> 'i" where
  "ScanTypedIdUuid uuid_Parse constr val out =
     (case val of
        TextValue s \<Rightarrow>
          (case uuid_Parse s of
             Inl e \<Rightarrow> (Some (Wrap s [pg_error ''ErrParseUuid'', e]), out)
           | Inr u \<Rightarrow> (None, constr u))
      | _ \<Rightarrow> (Some (Wrap [] [pg_error ''ErrStringExpected'']), out))"

definition ScanTypedIdStr :: "(string \<Rightarrow> 'i) \<Rightarrow> 't db_value \<Rightarrow> 'i \<Rightarrow> go_error option \<times> 'i" where
  "ScanTypedIdStr constr val out =
     (case val of
        TextValue s \<Rightarrow> (None, constr s)
      | _ \<Rightarrow> (Some (Wrap [] [pg_error ''ErrStringExpected'']), out))"

definition RenderSqlDriverValue :: "('i \<Rightarrow> string) \<Rightarrow> 'i \<Rightarrow> go_error + 't db_value" where
  "RenderSqlDriverValue str val = Inr (TextValue (str val))"

text \<open>\<open>sql.Null\<close> with its zero value; a JSON column is its datum.\<close>

record 'v sql_null =
  sn_V :: 'v
  sn_Valid :: bool

definition NewSqlNull :: "'v \<Rightarrow> 'v option \<Rightarrow> 'v sql_null" where
  "NewSqlNull zero val =
     (case val of None \<Rightarrow> \<lparr>sn_V = zero, sn_Valid = False\<rparr> | Some v \<Rightarrow> \<lparr>sn_V = v, sn_Valid = True\<rparr>)"

definition NewSqlNullNull :: "'v \<Rightarrow> 'v sql_null" where
  "NewSqlNullNull zero = NewSqlNull zero None"

definition NewJsonRef :: "'v option \<Rightarrow> 'v option" where
  "NewJsonRef d = (case d of None \<Rightarrow> None | Some v \<Rightarrow> Some v)"

text \<open>\<open>unmarshal\<close> gets the value it may write into, and may do so before it fails.\<close>

definition json_Scan ::
  "(byte list \<Rightarrow> 'v \<Rightarrow> go_error option \<times> 'v) \<Rightarrow> 't db_value \<Rightarrow> 'v \<Rightarrow> go_error option \<times> 'v" where
  "json_Scan unmarshal val j =
     (case val of
        BytesValue b \<Rightarrow> unmarshal b j
      | TextValue s \<Rightarrow> unmarshal s j
      | _ \<Rightarrow> (Some (Wrap [] [pg_error ''errExpectedBytesToJSON'']), j))"

definition json_Value :: "('v \<Rightarrow> go_error + byte list) \<Rightarrow> 'v \<Rightarrow> go_error + 't db_value" where
  "json_Value marshal j = (case marshal j of Inl e \<Rightarrow> Inl e | Inr b \<Rightarrow> Inr (BytesValue b))"

definition slice_Scan :: "'t db_value \<Rightarrow> 't list \<Rightarrow> go_error option \<times> 't list" where
  "slice_Scan val s =
     (case val of SliceValue xs \<Rightarrow> (None, xs) | _ \<Rightarrow> (Some (Wrap [] [pg_error ''errExpectedSlice'']), s))"

definition slice_Value :: "'t list \<Rightarrow> go_error + 't db_value" where
  "slice_Value s = Inr (SliceValue s)"

text \<open>Geometry is read as hexadecimal WKB and written as WKT, with the packages \<^verbatim>\<open>wkb\<close>, \<^verbatim>\<open>wkt\<close> and \<^verbatim>\<open>hex\<close>.\<close>

definition geometry_Scan ::
  "(string \<Rightarrow> go_error + byte list) \<Rightarrow> (byte list \<Rightarrow> go_error + 'g) \<Rightarrow> 't db_value \<Rightarrow> 'g \<Rightarrow> go_error option \<times> 'g" where
  "geometry_Scan hex_Decode wkb_Unmarshal val g =
     (case val of
        TextValue s \<Rightarrow>
          (case hex_Decode s of
             Inl e \<Rightarrow> (Some e, g)
           | Inr b \<Rightarrow> (case wkb_Unmarshal b of Inl e \<Rightarrow> (Some e, g) | Inr g1 \<Rightarrow> (None, g1)))
      | _ \<Rightarrow> (Some (Wrap [] [pg_error ''errInvalidString'']), g))"

definition geometry_Value :: "('g \<Rightarrow> byte list) \<Rightarrow> 'g \<Rightarrow> go_error + 't db_value" where
  "geometry_Value wkt_Marshal g = Inr (TextValue (wkt_Marshal g))"

text \<open>What these types write, they read back.\<close>

lemma slice_reads_back: "slice_Value s = Inr v \<Longrightarrow> slice_Scan v old = (None, s)"
  by (auto simp: slice_Value_def slice_Scan_def)

lemma json_reads_back:
  assumes "\<And>b. marshal j = Inr b \<Longrightarrow> unmarshal b old = (None, j)" "json_Value marshal j = Inr v"
  shows "json_Scan unmarshal v old = (None, j)"
  using assms by (auto simp: json_Value_def json_Scan_def split: sum.splits)

lemma id_reads_back:
  assumes "constr (str i) = i" "RenderSqlDriverValue str i = Inr v"
  shows "ScanTypedIdStr constr v old = (None, i)"
  using assms by (auto simp: RenderSqlDriverValue_def ScanTypedIdStr_def)

section \<open>Inserts\<close>

text \<open>An insert of squirrel is the list of its columns and the list of its rows of values.\<close>

record 'a insert_builder =
  ib_columns :: "string list"
  ib_values :: "'a list list"

record ('t, 'a) getter_column =
  gc_Name :: string
  gc_Getter :: "'t \<Rightarrow> 'a"

definition BuildSimpleInsertQuery :: "'a insert_builder \<Rightarrow> ('t, 'a) getter_column list \<Rightarrow> 't \<Rightarrow> 'a insert_builder" where
  "BuildSimpleInsertQuery query columns row =
     (let query1 = fold (\<lambda>column q. q\<lparr>ib_columns := ib_columns q @ [gc_Name column]\<rparr>) columns query
      in query1\<lparr>ib_values := ib_values query1 @ [map (\<lambda>column. gc_Getter column row) columns]\<rparr>)"

definition BuildBulkInsertQuery :: "'a insert_builder \<Rightarrow> ('t, 'a) getter_column list \<Rightarrow> 't list \<Rightarrow> 'a insert_builder" where
  "BuildBulkInsertQuery query columns rows =
     fold (\<lambda>row q. q\<lparr>ib_values := ib_values q @ [map (\<lambda>column. gc_Getter column row) columns]\<rparr>) rows
       (fold (\<lambda>column q. q\<lparr>ib_columns := ib_columns q @ [gc_Name column]\<rparr>) columns query)"

lemma insert_columns:
  "fold (\<lambda>column q. q\<lparr>ib_columns := ib_columns q @ [gc_Name column]\<rparr>) columns query
   = query\<lparr>ib_columns := ib_columns query @ map gc_Name columns\<rparr>"
  by (induction columns arbitrary: query) simp_all

lemma insert_rows:
  "fold (\<lambda>row q. q\<lparr>ib_values := ib_values q @ [f row]\<rparr>) rows query = query\<lparr>ib_values := ib_values query @ map f rows\<rparr>"
  by (induction rows arbitrary: query) simp_all

text \<open>Every row of an insert has one value per column, in the order of the columns.\<close>

lemma bulk_insert_shape:
  "BuildBulkInsertQuery \<lparr>ib_columns = [], ib_values = []\<rparr> columns rows
   = \<lparr>ib_columns = map gc_Name columns, ib_values = map (\<lambda>row. map (\<lambda>column. gc_Getter column row) columns) rows\<rparr>"
  by (simp add: BuildBulkInsertQuery_def insert_columns insert_rows)

lemma simple_insert_is_bulk: "BuildSimpleInsertQuery q columns row = BuildBulkInsertQuery q columns [row]"
  by (simp add: BuildSimpleInsertQuery_def BuildBulkInsertQuery_def Let_def)

end
