(* ===== verification/Jwt_Tokens.thy ===== *)
theory Jwt_Tokens
  imports Go_Base
begin

text \<open>
  Package \<^verbatim>\<open>jwt\<close>: tokens (\<^verbatim>\<open>token.go\<close>) and their encoding and decoding (\<^verbatim>\<open>jwt.go\<close>) over the third-party library
  golang-jwt, which is the record \<open>jwt_lib\<close>: signing, parsing with the check of the signing method, and reading a
  date of the claims, which may be absent without an error. A dereference of a nil date panics: \<open>None\<close>. Claims are a
  map; times are seconds since 1970.
\<close>

section \<open>Tokens\<close>

record 'v jwt_token =
  jt_claims :: "string \<rightharpoonup> 'v"
  jt_signed :: string
  jt_issuedAt :: int
  jt_expiresAt :: int

definition defaultTokenExpiration :: int where "defaultTokenExpiration = 3600"

text \<open>Nil claims become an empty map.\<close>

definition NewToken_jwt :: "int \<Rightarrow> (string \<rightharpoonup> 'v) option \<Rightarrow> 'v jwt_token" where
  "NewToken_jwt issuedAt claims =
     \<lparr>jt_claims = (case claims of None \<Rightarrow> Map.empty | Some c \<Rightarrow> c), jt_signed = [], jt_issuedAt = issuedAt,
      jt_expiresAt = issuedAt + defaultTokenExpiration\<rparr>"

definition newSignedToken :: "int \<Rightarrow> (string \<rightharpoonup> 'v) option \<Rightarrow> string \<Rightarrow> 'v jwt_token" where
  "newSignedToken issuedAt claims sgn_tok = (NewToken_jwt issuedAt claims)\<lparr>jt_signed := sgn_tok\<rparr>"

definition SetIssuedAt :: "int \<Rightarrow> 'v jwt_token \<Rightarrow> 'v jwt_token" where
  "SetIssuedAt date t = t\<lparr>jt_issuedAt := date\<rparr>"

definition SetExpiresAt :: "int \<Rightarrow> 'v jwt_token \<Rightarrow> 'v jwt_token" where
  "SetExpiresAt date t = t\<lparr>jt_expiresAt := date\<rparr>"

section \<open>Encoding and decoding\<close>

text \<open>
  \<open>jl_Parse\<close> returns the claims with the validity of the token, after the callback has accepted the signing method and
  returned the secret; claims of another type than the package's are \<open>None\<close>. \<open>jl_number\<close> is a Unix time as a claim and
  \<open>jl_json\<close> what becomes of claims that are written as JSON and read again (an \<^verbatim>\<open>int64\<close> comes back as a \<^verbatim>\<open>float64\<close>).
\<close>

record 'v jwt_lib =
  jl_Sign :: "(string \<rightharpoonup> 'v) \<Rightarrow> string \<Rightarrow> go_error + string"
  jl_Parse :: "string \<Rightarrow> string \<Rightarrow> go_error + (string \<rightharpoonup> 'v) option \<times> bool"
  jl_IssuedAt :: "(string \<rightharpoonup> 'v) \<Rightarrow> go_error + int option"
  jl_ExpirationTime :: "(string \<rightharpoonup> 'v) \<Rightarrow> go_error + int option"
  jl_number :: "int \<Rightarrow> 'v"
  jl_json :: "(string \<rightharpoonup> 'v) \<Rightarrow> (string \<rightharpoonup> 'v)"

definition jwt_Decode :: "'v jwt_lib \<Rightarrow> string \<Rightarrow> int \<Rightarrow> string \<Rightarrow> (go_error + 'v jwt_token) option" where
  "jwt_Decode jl secret now signedString =
     (case jl_Parse jl secret signedString of
        Inl e \<Rightarrow> Some (Inl (Wrap [] [Atom (InPackage ''jwt'' ''ErrParse''), e]))
      | Inr (claims, valid) \<Rightarrow>
          if \<not> valid then Some (Inl (Atom (InPackage ''jwt'' ''ErrTokenIsInvalid'')))
          else (case claims of
                  None \<Rightarrow> Some (Inl (Atom (InPackage ''jwt'' ''ErrExtractClaims'')))
                | Some cs \<Rightarrow>
                    (case (case jl_IssuedAt jl cs of Inl _ \<Rightarrow> Some now | Inr date \<Rightarrow> date) of
                       None \<Rightarrow> None
                     | Some iat \<Rightarrow>
                         (case (case jl_ExpirationTime jl cs of
                                  Inl _ \<Rightarrow> Some (iat + defaultTokenExpiration) | Inr date \<Rightarrow> date) of
                            None \<Rightarrow> None
                          | Some eat \<Rightarrow> Some (Inr (SetExpiresAt eat (newSignedToken iat (Some cs) signedString)))))))"

text \<open>
  \<open>Encode\<close> writes into the claims of the token it is given; the first component is that token afterwards.
\<close>

definition jwt_Encode :: "'v jwt_lib \<Rightarrow> string \<Rightarrow> 'v jwt_token \<Rightarrow> 'v jwt_token \<times> (go_error + 'v jwt_token)" where
  "jwt_Encode jl secret token =
     (let c0 = jt_claims token;
          c1 = (if c0 ''iat'' = None then c0(''iat'' \<mapsto> jl_number jl (jt_issuedAt token)) else c0);
          c2 = (if c1 ''exp'' = None then c1(''exp'' \<mapsto> jl_number jl (jt_expiresAt token)) else c1);
          token1 = token\<lparr>jt_claims := c2\<rparr>
      in case jl_Sign jl c2 secret of
           Inl e \<Rightarrow> (token1, Inl (Wrap [] [Atom (InPackage ''jwt'' ''ErrSign''), e]))
         | Inr sgn_tok \<Rightarrow> (token1, Inr (newSignedToken (jt_issuedAt token) (Some c2) sgn_tok)))"

section \<open>Properties\<close>

text \<open>
  What is documented of the library: a signed text that is accepted (it is not once the token has expired) has the
  claims it was signed with, read back from JSON; a date claim that is absent is no error and no date; a positive number
  that a \<^verbatim>\<open>float64\<close> holds exactly is read as the time it was made of.
\<close>

definition jwt_laws :: "'v jwt_lib \<Rightarrow> bool" where
  "jwt_laws jl \<longleftrightarrow>
     (\<forall>cs secret s r. jl_Sign jl cs secret = Inr s \<longrightarrow> jl_Parse jl secret s = Inr r \<longrightarrow> r = (Some (jl_json jl cs), True))
     \<and> (\<forall>cs k. jl_json jl cs k = None \<longleftrightarrow> cs k = None)
     \<and> (\<forall>cs. cs ''iat'' = None \<longrightarrow> jl_IssuedAt jl cs = Inr None)
     \<and> (\<forall>cs. cs ''exp'' = None \<longrightarrow> jl_ExpirationTime jl cs = Inr None)
     \<and> (\<forall>cs n. cs ''iat'' = Some (jl_number jl n) \<longrightarrow> 0 < n \<longrightarrow> n < 2 ^ 53 \<longrightarrow> jl_IssuedAt jl (jl_json jl cs) = Inr (Some n))
     \<and> (\<forall>cs n. cs ''exp'' = Some (jl_number jl n) \<longrightarrow> 0 < n \<longrightarrow> n < 2 ^ 53
          \<longrightarrow> jl_ExpirationTime jl (jl_json jl cs) = Inr (Some n))"

lemma jwt_lawsD:
  assumes "jwt_laws jl"
  shows "jl_Sign jl cs secret = Inr s \<Longrightarrow> jl_Parse jl secret s = Inr r \<Longrightarrow> r = (Some (jl_json jl cs), True)"
    and "cs ''iat'' = None \<Longrightarrow> jl_IssuedAt jl (jl_json jl cs) = Inr None"
    and "cs ''exp'' = None \<Longrightarrow> jl_ExpirationTime jl (jl_json jl cs) = Inr None"
proof -
  have parse: "\<forall>cs secret s r. jl_Sign jl cs secret = Inr s \<longrightarrow> jl_Parse jl secret s = Inr r \<longrightarrow> r = (Some (jl_json jl cs), True)"
    and absent: "\<forall>cs k. jl_json jl cs k = None \<longleftrightarrow> cs k = None"
    and iat: "\<forall>cs. cs ''iat'' = None \<longrightarrow> jl_IssuedAt jl cs = Inr None"
    and exp: "\<forall>cs. cs ''exp'' = None \<longrightarrow> jl_ExpirationTime jl cs = Inr None"
    using assms unfolding jwt_laws_def by - (elim conjE, assumption)+
  show "jl_Sign jl cs secret = Inr s \<Longrightarrow> jl_Parse jl secret s = Inr r \<Longrightarrow> r = (Some (jl_json jl cs), True)"
    by (rule parse [rule_format])
  show "cs ''iat'' = None \<Longrightarrow> jl_IssuedAt jl (jl_json jl cs) = Inr None"
    by (rule iat [rule_format]) (rule absent [rule_format, THEN iffD2])
  show "cs ''exp'' = None \<Longrightarrow> jl_ExpirationTime jl (jl_json jl cs) = Inr None"
    by (rule exp [rule_format]) (rule absent [rule_format, THEN iffD2])
qed

text \<open>A token without date claims of its own that \<open>Encode\<close> signs is decoded with the same secret, while the library
  accepts it, to the same times and to the claims that \<open>Encode\<close> has completed.\<close>

lemma jwt_roundtrip:
  assumes "jwt_laws jl" and "jt_claims token ''iat'' = None" and "jt_claims token ''exp'' = None"
    and "0 < jt_issuedAt token" "jt_issuedAt token < 2 ^ 53" and "0 < jt_expiresAt token" "jt_expiresAt token < 2 ^ 53"
    and "jwt_Encode jl secret token = (token', Inr sgn_tok)"
    and "jl_Parse jl secret (jt_signed sgn_tok) = Inr r"
  shows "\<exists>t. jwt_Decode jl secret now (jt_signed sgn_tok) = Some (Inr t)
         \<and> jt_issuedAt t = jt_issuedAt token \<and> jt_expiresAt t = jt_expiresAt token \<and> jt_signed t = jt_signed sgn_tok
         \<and> jt_claims t = jl_json jl ((jt_claims token)(''iat'' \<mapsto> jl_number jl (jt_issuedAt token), ''exp'' \<mapsto> jl_number jl (jt_expiresAt token)))"
proof -
  let ?cs = "(jt_claims token)(''iat'' \<mapsto> jl_number jl (jt_issuedAt token), ''exp'' \<mapsto> jl_number jl (jt_expiresAt token))"
  obtain s where s: "jl_Sign jl ?cs secret = Inr s" "jt_signed sgn_tok = s"
    using assms(2,3,8) by (auto simp: jwt_Encode_def newSignedToken_def Let_def split: sum.splits)
  have dates: "jl_IssuedAt jl (jl_json jl ?cs) = Inr (Some (jt_issuedAt token))"
    "jl_ExpirationTime jl (jl_json jl ?cs) = Inr (Some (jt_expiresAt token))"
    using assms(1,4-7) by (simp_all add: jwt_laws_def)
  have "r = (Some (jl_json jl ?cs), True)" 
    using jwt_lawsD(1) [OF assms(1) s(1)] assms(9) s(2) by simp
  with dates s assms(9) show ?thesis
    by (simp add: jwt_Decode_def SetExpiresAt_def newSignedToken_def NewToken_jwt_def)
qed

text \<open>A token that is properly signed but lacks one of the claims \<open>iat\<close> and \<open>exp\<close> makes Decode panic: the library
  reports no error for a claim that is absent, and the defaults are only used after an error.\<close>

lemma jwt_missing_date_panics:
  assumes "jwt_laws jl" and "jl_Sign jl cs secret = Inr s" and "jl_Parse jl secret s = Inr r"
    and "cs ''iat'' = None \<or> cs ''exp'' = None"
  shows "jwt_Decode jl secret now s = None"
proof -
  have parsed: "jl_Parse jl secret s = Inr (Some (jl_json jl cs), True)"
    using jwt_lawsD(1) [OF assms(1-3)] assms(3) by simp
  consider "jl_IssuedAt jl (jl_json jl cs) = Inr None" | "jl_ExpirationTime jl (jl_json jl cs) = Inr None"
    using jwt_lawsD(2,3) [OF assms(1)] assms(4) by auto
  then show ?thesis
    by cases (simp_all add: jwt_Decode_def parsed split: sum.split option.split)
qed

text \<open>The signed token that \<open>Encode\<close> returns forgets when the token expires.\<close>

lemma encode_forgets_expiry:
  assumes "jwt_Encode jl secret token = (token', Inr sgn_tok)"
  shows "jt_expiresAt sgn_tok = jt_issuedAt token + 3600"
  using assms
  by (auto simp: jwt_Encode_def newSignedToken_def NewToken_jwt_def defaultTokenExpiration_def Let_def split: sum.splits)

text \<open>
  A library whose texts are a letter and the secret, for the two claims sets that it signs: none, and two dates. It
  reads the dates of all claims.
\<close>

definition dated_claims :: "string \<rightharpoonup> int" where
  "dated_claims = [''iat'' \<mapsto> 100, ''exp'' \<mapsto> 200]"

definition example_jwt :: "(string \<rightharpoonup> int) \<Rightarrow> int jwt_lib" where
  "example_jwt the_claims =
     \<lparr>jl_Sign = (\<lambda>cs secret. if cs = the_claims then Inr (CHR ''-'' # secret) else Inl (Atom EOF)),
      jl_Parse = (\<lambda>secret s. if s = CHR ''-'' # secret then Inr (Some the_claims, True) else Inl (Atom EOF)),
      jl_IssuedAt = (\<lambda>cs. Inr (cs ''iat'')), jl_ExpirationTime = (\<lambda>cs. Inr (cs ''exp'')), jl_number = (\<lambda>n. n),
      jl_json = (\<lambda>cs. cs)\<rparr>"

lemma example_jwt_laws: "jwt_laws (example_jwt the_claims)"
  by (simp add: jwt_laws_def example_jwt_def)

lemma jwt_missing_date_panics_witness: "jwt_Decode (example_jwt Map.empty) ''key'' 0 ''-key'' = None"
  by (rule jwt_missing_date_panics [OF example_jwt_laws, where cs = Map.empty and r = "(Some Map.empty, True)"])
    (simp_all add: example_jwt_def)

lemma jwt_roundtrip_example:
  "\<exists>t. jwt_Decode (example_jwt dated_claims) ''key'' 0 ''-key'' = Some (Inr t) \<and> jt_issuedAt t = 100 \<and> jt_expiresAt t = 200"
proof -
  let ?t = "SetExpiresAt 200 (NewToken_jwt 100 None) :: int jwt_token"
  have "\<exists>t1. jwt_Encode (example_jwt dated_claims) ''key'' ?t = (t1, Inr (newSignedToken 100 (Some dated_claims) ''-key''))"
    by (simp add: jwt_Encode_def example_jwt_def SetExpiresAt_def NewToken_jwt_def Let_def dated_claims_def fun_upd_twist)
  then obtain t1 where
    encoded: "jwt_Encode (example_jwt dated_claims) ''key'' ?t = (t1, Inr (newSignedToken 100 (Some dated_claims) ''-key''))" ..
  have "jl_Parse (example_jwt dated_claims) ''key'' (jt_signed (newSignedToken 100 (Some dated_claims) ''-key''))
        = Inr (Some dated_claims, True)"
    by (simp add: example_jwt_def newSignedToken_def)
  from jwt_roundtrip [OF example_jwt_laws _ _ _ _ _ _ encoded this, of 0] show ?thesis
    by (auto simp: SetExpiresAt_def NewToken_jwt_def newSignedToken_def)
qed

end
