(* ===== verification/Redis_Client.thy ===== *)
theory Redis_Client
  imports Lazy_Connections Http_Config Caches
begin

text \<open>
  Package \<^verbatim>\<open>redis\<close>: the client that connects on first use (\<^verbatim>\<open>redis.go\<close>), the circuit breaker's error filter
  (\<^verbatim>\<open>errors_filter.go\<close>) and the health check (\<^verbatim>\<open>healthcheck.go\<close>), over the third-party go-redis, which is the record
  \<open>goredis\<close>. The client is what the cache's Redis provider (theory Caches) runs on. Its mutex makes
  \<open>ensureConnected\<close> one step; the other methods read the field \<open>client\<close>, which never changes again once it is set.
\<close>

section \<open>Configuration\<close>

record redis_config =
  rf_SentinelMasterName :: string
  rf_SentinelAddresses :: "string list"
  rf_Network :: string
  rf_Protocol :: int
  rf_Host :: string
  rf_Port :: int
  rf_ClientName :: string
  rf_Username :: string
  rf_Password :: string
  rf_DB :: int

text \<open>Master name or network, sentinel addresses or address, and the fields that both kinds of options have.\<close>

datatype redis_options =
    FailoverOptions string "string list" int string string string int
  | DirectOptions string string int string string string int

definition redis_connect_options :: "redis_config \<Rightarrow> redis_options" where
  "redis_connect_options c =
     (if rf_SentinelMasterName c \<noteq> []
      then FailoverOptions (rf_SentinelMasterName c) (rf_SentinelAddresses c)
             (rf_Protocol c) (rf_ClientName c) (rf_Username c) (rf_Password c) (rf_DB c)
      else DirectOptions (rf_Network c) (rf_Host c @ '':'' @ show_int (rf_Port c))
             (rf_Protocol c) (rf_ClientName c) (rf_Username c) (rf_Password c) (rf_DB c))"

section \<open>The error filter\<close>

text \<open>\<open>text\<close> is the text of an error.\<close>

definition redis_ShouldIgnoreError :: "(go_error \<Rightarrow> string) \<Rightarrow> go_error option \<Rightarrow> bool" where
  "redis_ShouldIgnoreError text err =
     (case err of
        None \<Rightarrow> False
      | Some e \<Rightarrow>
          if err_is e RedisNil then True
          else if err_is e ContextCanceled then True
          else (let errMsg = text e
                in if strings_Contains errMsg ''WRONGTYPE'' then True
                   else if strings_Contains errMsg ''NOAUTH'' \<or> strings_Contains errMsg ''WRONGPASS''
                           \<or> strings_Contains errMsg ''NOPERM'' then True
                   else if err_is e (InPackage ''goredis'' ''ErrClosed'') then False
                   else if has_prefix errMsg ''READONLY '' \<or> has_prefix errMsg ''MASTERDOWN ''
                           \<or> has_prefix errMsg ''CLUSTERDOWN '' \<or> has_prefix errMsg ''LOADING '' then False
                   else if strings_Contains errMsg ''max number of clients reached'' then False
                   else False))"

definition NewRedisCircuitBreaker ::
  "(breaker_settings \<Rightarrow> ('b, 'w) gobreaker) \<Rightarrow> (go_error \<Rightarrow> string) \<Rightarrow> breaker_config \<Rightarrow> (go_error \<Rightarrow> bool) option \<Rightarrow> ('b, 'w) circuit_breaker" where
  "NewRedisCircuitBreaker mk text config shouldIgnoreError =
     NewBreaker mk config
       (Some (case shouldIgnoreError of None \<Rightarrow> (\<lambda>e. redis_ShouldIgnoreError text (Some e)) | Some f \<Rightarrow> f))"

section \<open>The client\<close>

text \<open>
  The commands get the field \<open>client\<close> as it is; \<open>None\<close> is nil. \<open>'s\<close> are subscriptions. Contexts are left out: what a
  cancelled one does is up to the library.
\<close>

record ('w, 'c, 's) goredis =
  gr_New :: "redis_options \<Rightarrow> 'w \<Rightarrow> 'c \<times> 'w"
  gr_Ping :: "'c \<Rightarrow> 'w \<Rightarrow> go_error option \<times> 'w"
  gr_Close :: "'c \<Rightarrow> 'w \<Rightarrow> 'w"
  gr_Set :: "'c option \<Rightarrow> string \<Rightarrow> string \<Rightarrow> int \<Rightarrow> 'w \<Rightarrow> go_error option \<times> 'w"
  gr_Get :: "'c option \<Rightarrow> string \<Rightarrow> 'w \<Rightarrow> (go_error + string) \<times> 'w"
  gr_SetNX :: "'c option \<Rightarrow> string \<Rightarrow> string \<Rightarrow> int \<Rightarrow> 'w \<Rightarrow> (bool \<times> go_error option) \<times> 'w"
  gr_Del :: "'c option \<Rightarrow> string list \<Rightarrow> 'w \<Rightarrow> go_error option \<times> 'w"
  gr_Publish :: "'c option \<Rightarrow> string \<Rightarrow> string \<Rightarrow> 'w \<Rightarrow> go_error option \<times> 'w"
  gr_Subscribe :: "'c option \<Rightarrow> string list \<Rightarrow> 'w \<Rightarrow> 's \<times> 'w"

record ('b, 'w, 'c) redis_impl =
  rd_config :: redis_config
  rd_client :: "'c option"
  rd_breaker :: "('b, 'w) circuit_breaker option"

type_synonym ('b, 'w, 'c) redis_state = "('b, 'w, 'c) redis_impl \<times> 'b \<times> 'w"

definition NewRedisClient :: "redis_config \<Rightarrow> ('b, 'w) circuit_breaker option \<Rightarrow> ('b, 'w, 'c) redis_impl" where
  "NewRedisClient config cb = \<lparr>rd_config = config, rd_client = None, rd_breaker = cb\<rparr>"

definition rd_IsConnected :: "('b, 'w, 'c) redis_impl \<Rightarrow> bool" where
  "rd_IsConnected c \<longleftrightarrow> rd_client c \<noteq> None"

definition rd_Close :: "('w, 'c, 's) goredis \<Rightarrow> ('b, 'w, 'c) redis_state \<Rightarrow> ('b, 'w, 'c) redis_state" where
  "rd_Close gr = (\<lambda>(d, b, w). case rd_client d of None \<Rightarrow> (d, b, w) | Some c \<Rightarrow> (d, b, gr_Close gr c w))"

text \<open>A new client whose ping fails is closed, and the field is nil again.\<close>

definition redis_connect ::
  "('w, 'c, 's) goredis \<Rightarrow> redis_config \<Rightarrow> 'w \<times> 'c option \<Rightarrow> go_error option \<times> 'w \<times> 'c option" where
  "redis_connect gr config = (\<lambda>(w, old).
     case gr_New gr (redis_connect_options config) w of
       (c, w1) \<Rightarrow>
         (case gr_Ping gr c w1 of
            (Some e, w2) \<Rightarrow> (Some e, gr_Close gr c w2, None)
          | (None, w2) \<Rightarrow> (None, w2, Some c)))"

definition rd_ensureConnected ::
  "('w, 'c, 's) goredis \<Rightarrow> ('b, 'w, 'c) redis_impl \<Rightarrow> 'b \<times> 'w \<Rightarrow> go_error option \<times> ('b, 'w, 'c) redis_state" where
  "rd_ensureConnected gr d = (\<lambda>(b, w).
     if rd_client d \<noteq> None then (None, d, b, w)
     else (case cb_Execute (map_option with_captured (rd_breaker d)) (redis_connect gr (rd_config d)) (b, w, rd_client d) of
             (err, b1, w1, c) \<Rightarrow> (err, d\<lparr>rd_client := c\<rparr>, b1, w1)))"

definition rd_SetKey ::
  "('w, 'c, 's) goredis \<Rightarrow> string \<Rightarrow> string \<Rightarrow> int \<Rightarrow> ('b, 'w, 'c) redis_state \<Rightarrow> go_error option \<times> ('b, 'w, 'c) redis_state" where
  "rd_SetKey gr key val ttl = (\<lambda>(d, s).
     case rd_ensureConnected gr d s of
       (Some e, d1, s1) \<Rightarrow> (Some e, d1, s1)
     | (None, d1, s1) \<Rightarrow>
         (case cb_Execute (rd_breaker d1) (gr_Set gr (rd_client d1) key val ttl) s1 of (err, s2) \<Rightarrow> (err, d1, s2)))"

text \<open>A command is its value or error; it is a pointer, so that its type assertion succeeds.\<close>

definition rd_getKey ::
  "('w, 'c, 's) goredis \<Rightarrow> string \<Rightarrow> ('b, 'w, 'c) redis_state
   \<Rightarrow> ((go_error + string) option \<times> go_error option) \<times> ('b, 'w, 'c) redis_state" where
  "rd_getKey gr key = (\<lambda>(d, s).
     case rd_ensureConnected gr d s of
       (Some e, d1, s1) \<Rightarrow> ((None, Some e), d1, s1)
     | (None, d1, s1) \<Rightarrow>
         (case cb_ExecuteWithResult (\<lambda>cmd. cmd) Some (rd_breaker d1)
            (\<lambda>w. case gr_Get gr (rd_client d1) key w of
               (cmd, w1) \<Rightarrow> ((Some cmd, case cmd of Inl e \<Rightarrow> Some e | Inr _ \<Rightarrow> None), w1)) None s1 of
            (r, s2) \<Rightarrow> (r, d1, s2)))"

text \<open>A nil command without an error would be dereferenced; it does not occur (\<open>getKey_command\<close>).\<close>

definition rd_GetString ::
  "('w, 'c, 's) goredis \<Rightarrow> string \<Rightarrow> ('b, 'w, 'c) redis_state \<Rightarrow> (go_error + string) \<times> ('b, 'w, 'c) redis_state" where
  "rd_GetString gr key s =
     (case rd_getKey gr key s of
        ((cmd, err), s1) \<Rightarrow>
          (case err of
             Some e \<Rightarrow> (Inl e, s1)
           | None \<Rightarrow>
               (case cmd of
                  Some c \<Rightarrow> (c, s1)
                | None \<Rightarrow> (Inl (Atom (InPackage ''runtime'' ''nil pointer dereference'')), s1))))"

definition rd_SetNX ::
  "('w, 'c, 's) goredis \<Rightarrow> string \<Rightarrow> string \<Rightarrow> int \<Rightarrow> ('b, 'w, 'c) redis_state \<Rightarrow> (bool \<times> go_error option) \<times> ('b, 'w, 'c) redis_state" where
  "rd_SetNX gr key val expiration = (\<lambda>(d, s).
     case rd_ensureConnected gr d s of
       (Some e, d1, s1) \<Rightarrow> ((False, Some e), d1, s1)
     | (None, d1, s1) \<Rightarrow>
         (case cb_ExecuteWithResult (\<lambda>ok. ok) Some (rd_breaker d1) (gr_SetNX gr (rd_client d1) key val expiration) False s1 of
            (r, s2) \<Rightarrow> (r, d1, s2)))"

definition rd_Del ::
  "('w, 'c, 's) goredis \<Rightarrow> string list \<Rightarrow> ('b, 'w, 'c) redis_state \<Rightarrow> go_error option \<times> ('b, 'w, 'c) redis_state" where
  "rd_Del gr keys = (\<lambda>(d, s).
     case rd_ensureConnected gr d s of
       (Some e, d1, s1) \<Rightarrow> (Some e, d1, s1)
     | (None, d1, s1) \<Rightarrow>
         (case cb_Execute (rd_breaker d1) (gr_Del gr (rd_client d1) keys) s1 of (err, s2) \<Rightarrow> (err, d1, s2)))"

definition rd_Publish ::
  "('w, 'c, 's) goredis \<Rightarrow> string \<Rightarrow> string \<Rightarrow> ('b, 'w, 'c) redis_state \<Rightarrow> go_error option \<times> ('b, 'w, 'c) redis_state" where
  "rd_Publish gr channel message = (\<lambda>(d, s).
     case rd_ensureConnected gr d s of
       (Some e, d1, s1) \<Rightarrow> (Some e, d1, s1)
     | (None, d1, s1) \<Rightarrow>
         (case cb_Execute (rd_breaker d1) (gr_Publish gr (rd_client d1) channel message) s1 of (err, s2) \<Rightarrow> (err, d1, s2)))"

text \<open>\<open>None\<close> is a nil subscription: that connecting failed is all that is told.\<close>

definition rd_Subscribe ::
  "('w, 'c, 's) goredis \<Rightarrow> string list \<Rightarrow> ('b, 'w, 'c) redis_state \<Rightarrow> 's option \<times> ('b, 'w, 'c) redis_state" where
  "rd_Subscribe gr channels = (\<lambda>(d, s).
     case rd_ensureConnected gr d s of
       (Some e, d1, s1) \<Rightarrow> (None, d1, s1)
     | (None, d1, b1, w1) \<Rightarrow> (case gr_Subscribe gr (rd_client d1) channels w1 of (p, w2) \<Rightarrow> (Some p, d1, b1, w2)))"

text \<open>The health check: a client that is not connected yet is healthy.\<close>

definition rd_IsOK :: "('w, 'c, 's) goredis \<Rightarrow> ('b, 'w, 'c) redis_state \<Rightarrow> bool \<times> ('b, 'w, 'c) redis_state" where
  "rd_IsOK gr s =
     (if \<not> rd_IsConnected (fst s) then (True, s)
      else (case rd_SetKey gr ''__healthcheck__'' ''ok'' 10000000000 s of
              (Some e, s1) \<Rightarrow> (False, s1)
            | (None, s1) \<Rightarrow>
                (case rd_GetString gr ''__healthcheck__'' s1 of
                   (Inl e, s2) \<Rightarrow> (False, s2)
                 | (Inr v, s2) \<Rightarrow> (v = ''ok'', s2))))"

section \<open>Typed values\<close>

text \<open>\<open>marshal\<close> and \<open>unmarshal\<close> are those of JSON, the latter into the zero value of the type.\<close>

definition redis_typed_Set ::
  "('w, 'c, 's) goredis \<Rightarrow> ('v \<Rightarrow> go_error + string) \<Rightarrow> string \<Rightarrow> 'v \<Rightarrow> int \<Rightarrow> ('b, 'w, 'c) redis_state
   \<Rightarrow> go_error option \<times> ('b, 'w, 'c) redis_state" where
  "redis_typed_Set gr marshal key val ttl s =
     (case marshal val of Inl e \<Rightarrow> (Some e, s) | Inr strVal \<Rightarrow> rd_SetKey gr key strVal ttl s)"

definition redis_typed_Get ::
  "('w, 'c, 's) goredis \<Rightarrow> (string \<Rightarrow> go_error + 'v) \<Rightarrow> string \<Rightarrow> 'v \<Rightarrow> ('b, 'w, 'c) redis_state
   \<Rightarrow> ('v \<times> go_error option) \<times> ('b, 'w, 'c) redis_state" where
  "redis_typed_Get gr unmarshal key defaultValue s =
     (case rd_GetString gr key s of
        (Inl e, s1) \<Rightarrow> ((defaultValue, Some e), s1)
      | (Inr strValue, s1) \<Rightarrow>
          (case unmarshal strValue of
             Inl e \<Rightarrow> ((defaultValue, Some e), s1)
           | Inr result \<Rightarrow> ((result, None), s1)))"

definition redis_typed_Publish ::
  "('w, 'c, 's) goredis \<Rightarrow> ('v \<Rightarrow> go_error + string) \<Rightarrow> string \<Rightarrow> 'v \<Rightarrow> ('b, 'w, 'c) redis_state
   \<Rightarrow> go_error option \<times> ('b, 'w, 'c) redis_state" where
  "redis_typed_Publish gr marshal channel message s =
     (case marshal message of Inl e \<Rightarrow> (Some e, s) | Inr buf \<Rightarrow> rd_Publish gr channel buf s)"

text \<open>What the goroutine of \<open>Subscribe\<close> forwards of the payloads of a subscription, before it closes its channel.\<close>

fun subscribe_forwards :: "(string \<Rightarrow> go_error + 'v) \<Rightarrow> string list \<Rightarrow> 'v list" where
  "subscribe_forwards unmarshal [] = []"
| "subscribe_forwards unmarshal (payload # msgs) =
     (case unmarshal payload of
        Inl _ \<Rightarrow> subscribe_forwards unmarshal msgs
      | Inr val \<Rightarrow> val # subscribe_forwards unmarshal msgs)"

lemma published_values_arrive:
  assumes "\<And>v. v \<in> set vs \<Longrightarrow> \<exists>b. marshal v = Inr b \<and> unmarshal b = Inr v"
  shows "subscribe_forwards unmarshal (map (\<lambda>v. projr (marshal v)) vs) = vs"
  using assms
proof (induction vs)
  case (Cons v vs)
  from Cons.prems [of v] obtain b where b: "marshal v = Inr b" "unmarshal b = Inr v" by auto
  moreover have "subscribe_forwards unmarshal (map (\<lambda>v. projr (marshal v)) vs) = vs"
    by (rule Cons.IH) (rule Cons.prems, simp)
  ultimately show ?case by simp
qed simp

section \<open>Connecting\<close>

lemma redis_connect_law:
  assumes "rd_ensureConnected gr d (b, w) = (e, d', b', w')"
  shows "(e = None \<longrightarrow> rd_client d' \<noteq> None) \<and> (e \<noteq> None \<longrightarrow> d' = d)"
proof (cases "rd_client d")
  case None
  obtain c where run: "cb_Execute (map_option with_captured (rd_breaker d)) (redis_connect gr (rd_config d)) (b, w, None)
      = (e, b', w', c)"
    and d': "d' = d\<lparr>rd_client := c\<rparr>"
    using assms None by (auto simp: rd_ensureConnected_def split: prod.splits)
  from guarded_call.exec_law [OF run] None d' show ?thesis
    by (auto simp: redis_connect_def split: result_splits)
qed (use assms in \<open>simp add: rd_ensureConnected_def\<close>)

interpretation redis: lazy_connection "rd_ensureConnected gr" rd_IsConnected for gr
proof
  show "(e = None \<longrightarrow> rd_IsConnected d') \<and> (e \<noteq> None \<longrightarrow> d' = d)"
    if "rd_ensureConnected gr d s = (e, d', s')" for d s e d' s'
    using that redis_connect_law [of gr d "fst s" "snd s" e d' "fst s'" "snd s'"] by (simp add: rd_IsConnected_def)
next
  show "rd_ensureConnected gr d s = (None, d, s)" if "rd_IsConnected d" for d s
    using that by (cases s) (simp add: rd_ensureConnected_def rd_IsConnected_def)
qed

text \<open>A client that was closed is still connected: every later operation is sent to the closed client.\<close>

lemma closed_stays_connected: "rd_IsConnected d \<Longrightarrow> rd_IsConnected (fst (rd_Close gr (d, b, w)))"
  by (simp add: rd_Close_def rd_IsConnected_def split: option.split)

text \<open>A call of a value under a breaker fails with the breaker's error, or ran; a value that the type assertion accepts is returned.\<close>

lemma value_call_law:
  assumes "cb_ExecuteWithResult (\<lambda>v. v) Some cb fn fallback (b, w) = ((v, err), b', w')"
  shows "(err \<noteq> None \<and> w' = w \<and> (\<exists>st gb b1. cb = Some (Gobreaker st gb) \<and> gb_allow gb b w = (err, b1)))
         \<or> (\<exists>v1. fn w = ((v1, err), w') \<and> (err = None \<longrightarrow> v = v1))"
proof (cases cb)
  case (Some c)
  with assms show ?thesis
    by (cases c) (auto simp: cb_ExecuteWithResult_def guarded_def split: result_splits)
qed (use assms in \<open>auto simp: cb_ExecuteWithResult_def split: prod.splits\<close>)

lemma getKey_law:
  assumes "rd_ensureConnected gr d (b, w) = (None, d1, b1, w1)" "rd_getKey gr key (d, b, w) = ((v, err), d2, b2, w2)"
    and "gr_Get gr (rd_client d1) key w1 = (cmd, w3)"
  shows "d2 = d1 \<and>
         ((err \<noteq> None \<and> w2 = w1 \<and> (\<exists>st gb b1'. rd_breaker d1 = Some (Gobreaker st gb) \<and> gb_allow gb b1 w1 = (err, b1')))
          \<or> (w2 = w3 \<and> (case cmd of Inl e \<Rightarrow> err = Some e | Inr x \<Rightarrow> err = None \<and> v = Some cmd)))"
proof -
  let ?fn = "\<lambda>w. case gr_Get gr (rd_client d1) key w of
    (cmd, w1) \<Rightarrow> ((Some cmd, case cmd of Inl e \<Rightarrow> Some e | Inr _ \<Rightarrow> None), w1)"
  have run: "cb_ExecuteWithResult (\<lambda>v. v) Some (rd_breaker d1) ?fn None (b1, w1) = ((v, err), b2, w2)" and "d2 = d1"
    using assms(1,2) by (simp_all add: rd_getKey_def split: prod.splits)
  moreover have "?fn w1 = ((Some cmd, case cmd of Inl e \<Rightarrow> Some e | Inr _ \<Rightarrow> None), w3)" using assms(3) by simp
  ultimately show ?thesis using value_call_law [OF run] by (cases cmd) (simp_all, auto)
qed

lemma getKey_command: "fst (rd_getKey gr key (d, b, w)) \<noteq> (None, None)"
proof -
  obtain e d1 b1 w1 where conn: "rd_ensureConnected gr d (b, w) = (e, d1, b1, w1)" by (metis prod_cases4)
  obtain v err d2 b2 w2 where got: "rd_getKey gr key (d, b, w) = ((v, err), d2, b2, w2)" by (metis surj_pair)
  obtain cmd w3 where g: "gr_Get gr (rd_client d1) key w1 = (cmd, w3)" by fastforce
  show ?thesis
  proof (cases e)
    case None
    with getKey_law [OF _ got g] conn got show ?thesis by (cases cmd) auto
  qed (use conn in \<open>simp add: rd_getKey_def\<close>)
qed

section \<open>A cache over Redis\<close>

text \<open>The client as the cache's Redis provider uses it.\<close>

definition redis_client_of :: "('w, 'c, 's) goredis \<Rightarrow> ('b, 'w, 'c) redis_state redis_client" where
  "redis_client_of gr = \<lparr>rc_GetString = rd_GetString gr, rc_SetKey = rd_SetKey gr, rc_Del = rd_Del gr\<rparr>"

text \<open>
  What is documented of the server and of go-redis: \<open>keys\<close> are the strings it holds. \<open>Get\<close> returns the string of the
  key, and an error that says so (\<open>missing_key\<close>) when there is none; no other command used here reports such an error.
  Keys may expire at any time, and nothing appears that is not set.
\<close>

definition missing_key :: "go_error \<Rightarrow> bool" where
  "missing_key e \<longleftrightarrow> err_is e RedisNil \<or> err_is e ErrProviderNoSuchKey"

definition redis_documented :: "('w, 'c, 's) goredis \<Rightarrow> ('w \<Rightarrow> string \<rightharpoonup> string) \<Rightarrow> bool" where
  "redis_documented gr keys \<longleftrightarrow>
     (\<forall>opts w c w'. gr_New gr opts w = (c, w') \<longrightarrow> keys w' \<subseteq>\<^sub>m keys w)
     \<and> (\<forall>c w e w'. gr_Ping gr c w = (e, w') \<longrightarrow> keys w' \<subseteq>\<^sub>m keys w \<and> \<not> (\<exists>x. e = Some x \<and> missing_key x))
     \<and> (\<forall>c w. keys (gr_Close gr c w) \<subseteq>\<^sub>m keys w)
     \<and> (\<forall>c key w r w'. gr_Get gr c key w = (r, w') \<longrightarrow>
          keys w' \<subseteq>\<^sub>m keys w
          \<and> (\<forall>v. r = Inr v \<longrightarrow> keys w key = Some v)
          \<and> (\<forall>e. r = Inl e \<longrightarrow> missing_key e \<longrightarrow> keys w' key = None))"

lemma redis_documentedD:
  assumes "redis_documented gr keys"
  shows "gr_New gr opts w = (c, w') \<Longrightarrow> keys w' \<subseteq>\<^sub>m keys w"
    and "gr_Ping gr c w = (e, w') \<Longrightarrow> keys w' \<subseteq>\<^sub>m keys w"
    and "gr_Ping gr c w = (Some x, w') \<Longrightarrow> \<not> missing_key x"
    and "keys (gr_Close gr c w) \<subseteq>\<^sub>m keys w"
  using assms by (simp_all add: redis_documented_def)

definition rejects_plainly :: "('b, 'w) circuit_breaker option \<Rightarrow> bool" where
  "rejects_plainly cb \<longleftrightarrow> (\<forall>st gb b w e b1. cb = Some (Gobreaker st gb) \<longrightarrow> gb_allow gb b w = (Some e, b1) \<longrightarrow> \<not> missing_key e)"

lemma guarded_rejection:
  assumes "cb_Execute (map_option with_captured cb) fn (b, w, c) = (e, b', w', c')"
  shows "(e \<noteq> None \<and> w' = w \<and> (rejects_plainly cb \<longrightarrow> \<not> (\<exists>x. e = Some x \<and> missing_key x))) \<or> fn (w, c) = (e, w', c')"
proof (cases cb)
  case (Some x)
  with assms show ?thesis
    by (cases x) (simp_all add: cb_Execute_def guarded_def rejects_plainly_def split: result_splits, blast)
qed (use assms in \<open>auto simp: cb_Execute_def split: prod.splits\<close>)

lemma connect_documented:
  assumes "redis_documented gr keys" "rejects_plainly (rd_breaker d)" "rd_ensureConnected gr d (b, w) = (e, d', b', w')"
  shows "keys w' \<subseteq>\<^sub>m keys w \<and> \<not> (\<exists>x. e = Some x \<and> missing_key x) \<and> rd_breaker d' = rd_breaker d"
proof (cases "rd_client d")
  case None
  obtain c where run: "cb_Execute (map_option with_captured (rd_breaker d)) (redis_connect gr (rd_config d)) (b, w, None)
      = (e, b', w', c)"
    and d': "d' = d\<lparr>rd_client := c\<rparr>"
    using assms(3) None by (auto simp: rd_ensureConnected_def split: prod.splits)
  from guarded_rejection [OF run] show ?thesis
  proof
    assume "redis_connect gr (rd_config d) (w, None) = (e, w', c)"
    moreover obtain c1 w1 where n: "gr_New gr (redis_connect_options (rd_config d)) w = (c1, w1)" by fastforce
    moreover obtain e2 w2 where p: "gr_Ping gr c1 w1 = (e2, w2)" by fastforce
    ultimately have e: "e = e2" and w': "w' = w2 \<or> w' = gr_Close gr c1 w2"
      by (auto simp: redis_connect_def split: option.splits)
    have le: "keys w1 \<subseteq>\<^sub>m keys w" "keys w2 \<subseteq>\<^sub>m keys w1" "keys (gr_Close gr c1 w2) \<subseteq>\<^sub>m keys w2"
      using redis_documentedD(1,2,4) [OF assms(1)] n p by simp_all
    have plain: "\<not> (\<exists>x. e2 = Some x \<and> missing_key x)" using redis_documentedD(3) [OF assms(1)] p by auto
    from w' le have "keys w' \<subseteq>\<^sub>m keys w" using map_le_trans by metis
    with e plain d' show ?thesis by simp
  qed (use assms(2) d' in auto)
qed (use assms(3) in \<open>simp add: rd_ensureConnected_def\<close>)

lemma GetString_documented:
  assumes "redis_documented gr keys" "rejects_plainly (rd_breaker d)" "rd_GetString gr key (d, b, w) = (r, d', b', w')"
  shows "(\<forall>v. r = Inr v \<longrightarrow> keys w key = Some v) \<and> (\<forall>e. r = Inl e \<longrightarrow> missing_key e \<longrightarrow> keys w' key = None)"
proof -
  obtain e d1 b1 w1 where conn: "rd_ensureConnected gr d (b, w) = (e, d1, b1, w1)" by (metis prod_cases4)
  note docs = connect_documented [OF assms(1,2) conn]
  show ?thesis
  proof (cases e)
    case (Some err)
    with conn docs assms(3) show ?thesis by (auto simp: rd_GetString_def rd_getKey_def)
  next
    case None
    obtain v err d2 b2 w2 where k: "rd_getKey gr key (d, b, w) = ((v, err), d2, b2, w2)" by (metis surj_pair)
    obtain cmd w3 where g: "gr_Get gr (rd_client d1) key w1 = (cmd, w3)" by fastforce
    have got: "(\<forall>v. cmd = Inr v \<longrightarrow> keys w1 key = Some v) \<and> (\<forall>e. cmd = Inl e \<longrightarrow> missing_key e \<longrightarrow> keys w3 key = None)"
      using assms(1) g unfolding redis_documented_def by blast
    from getKey_law [OF conn [unfolded None] k g] consider
        (rejected) st gb b1' where "err \<noteq> None" "rd_breaker d1 = Some (Gobreaker st gb)" "gb_allow gb b1 w1 = (err, b1')"
      | (ran) "w2 = w3" "case cmd of Inl e \<Rightarrow> err = Some e | Inr x \<Rightarrow> err = None \<and> v = Some cmd" by blast
    then show ?thesis
    proof cases
      case rejected
      then have "\<not> missing_key (the err)"
        using docs assms(2) unfolding rejects_plainly_def by (metis option.collapse)
      with rejected k assms(3) show ?thesis by (auto simp: rd_GetString_def)
    next
      case ran
      then have "r = cmd" "w' = w3" using assms(3) k by (cases cmd; simp add: rd_GetString_def)+
      with got docs show ?thesis by (auto simp: map_le_def dom_def)
    qed
  qed
qed

text \<open>C40: A cache over the Redis client answers without an error only what the server holds: the value of the string
  under its key, or the default when the server has no such string. A failure to connect, a rejection by the breaker and
  every other error of the client come back as errors and are never taken for a missing key.\<close>

theorem redis_cache_answers_server:
  assumes "redis_documented gr keys" and "rejects_plainly (rd_breaker d)"
    and "cache_Get c (redis_ops (redis_client_of gr)) now key (d, b, w) = ((v, None), d', b', w')"
  shows "(case keys w (group_key (cc_group c) (cc_string c key)) of
            None \<Rightarrow> v = cc_default c
          | Some str \<Rightarrow> cc_unmarshal c str = Inr v \<or> v = cc_default c \<and> keys w' (group_key (cc_group c) (cc_string c key)) = None)"
proof -
  let ?key = "group_key (cc_group c) (cc_string c key)"
  obtain r d2 b2 w2 where g: "rd_GetString gr ?key (d, b, w) = (r, d2, b2, w2)" by (metis prod_cases4)
  note docs = GetString_documented [OF assms(1,2) g]
  show ?thesis
  proof (cases r)
    case (Inl e)
    with assms(3) g have "missing_key e" "v = cc_default c" "w' = w2"
      by (auto simp: cache_Get_def redis_ops_def redis_Get_def redis_client_of_def missing_key_def Let_def split: if_splits)
    with docs Inl show ?thesis by (auto split: option.split)
  next
    case (Inr str)
    with assms(3) g have "cc_unmarshal c str = Inr v"
      by (auto simp: cache_Get_def redis_ops_def redis_Get_def redis_client_of_def Let_def split: sum.splits)
    with docs Inr show ?thesis by simp
  qed
qed

text \<open>A server that holds one string.\<close>

definition example_goredis :: "(string \<rightharpoonup> string, unit, unit) goredis" where
  "example_goredis =
     \<lparr>gr_New = (\<lambda>_ w. ((), w)), gr_Ping = (\<lambda>_ w. (None, w)), gr_Close = (\<lambda>_ w. w),
      gr_Set = (\<lambda>_ k v _ w. (None, w(k \<mapsto> v))),
      gr_Get = (\<lambda>_ k w. (case w k of None \<Rightarrow> Inl (Atom RedisNil) | Some v \<Rightarrow> Inr v, w)),
      gr_SetNX = (\<lambda>_ k v _ w. ((w k = None, None), if w k = None then w(k \<mapsto> v) else w)),
      gr_Del = (\<lambda>_ ks w. (None, w |` (- set ks))), gr_Publish = (\<lambda>_ _ _ w. (None, w)), gr_Subscribe = (\<lambda>_ _ w. ((), w))\<rparr>"

lemma example_redis_documented: "redis_documented example_goredis (\<lambda>w. w)"
  by (auto simp: redis_documented_def example_goredis_def missing_key_def split: option.splits)

definition example_redis_config :: redis_config where
  "example_redis_config =
     \<lparr>rf_SentinelMasterName = [], rf_SentinelAddresses = [], rf_Network = ''tcp'', rf_Protocol = 3, rf_Host = ''localhost'',
      rf_Port = 6379, rf_ClientName = [], rf_Username = [], rf_Password = [], rf_DB = 0\<rparr>"

theorem redis_cache_answers_server_witness:
  "\<exists>d' b' w'. cache_Get (NewCache ''users'' (\<lambda>k. k) Inr Inr ''nobody'' 60) (redis_ops (redis_client_of example_goredis)) 0 ''7''
     (NewRedisClient example_redis_config None, (), [''users:7'' \<mapsto> ''Ann'']) = ((''Ann'', None), d', b', w')
   \<and> (Inr ''Ann'' :: go_error + string) = Inr ''Ann''"
proof -
  let ?c = "NewCache ''users'' (\<lambda>k. k) Inr Inr ''nobody'' 60 :: (string, string) cache_config"
  let ?d = "NewRedisClient example_redis_config None :: (unit, string \<rightharpoonup> string, unit) redis_impl"
  have run: "cache_Get ?c (redis_ops (redis_client_of example_goredis)) 0 ''7'' (?d, (), [''users:7'' \<mapsto> ''Ann''])
    = ((''Ann'', None), ?d\<lparr>rd_client := Some ()\<rparr>, (), [''users:7'' \<mapsto> ''Ann''])"
    by (simp add: cache_Get_def redis_ops_def redis_Get_def redis_client_of_def rd_GetString_def rd_getKey_def
        rd_ensureConnected_def redis_connect_def cb_Execute_def cb_ExecuteWithResult_def NewRedisClient_def NewCache_def
        group_key_def example_goredis_def Let_def)
  have "rejects_plainly (rd_breaker ?d)" by (simp add: rejects_plainly_def NewRedisClient_def)
  from redis_cache_answers_server [OF example_redis_documented this run] run show ?thesis by auto
qed

end
