(* ===== verification/Mailers.thy ===== *)
theory Mailers
  imports Go_Base
begin

text \<open>
  Package \<^verbatim>\<open>mailer\<close>: accounts, bodies and messages, the mailer that checks a message before its provider sends it
  (\<^verbatim>\<open>mailer.go\<close>), and the providers over the Resend API and over SMTP. Templates of \<^verbatim>\<open>text/template\<close>, the client of
  Resend and the package go-mail are parameters.
\<close>

section \<open>Messages\<close>

record account =
  ac_email :: string
  ac_name :: string

definition NewAccount :: "string \<Rightarrow> account" where
  "NewAccount email = \<lparr>ac_email = email, ac_name = []\<rparr>"

definition WithName :: "string \<Rightarrow> account \<Rightarrow> account" where
  "WithName name a = a\<lparr>ac_name := name\<rparr>"

definition account_String :: "account \<Rightarrow> string" where
  "account_String a = (if ac_name a \<noteq> [] then ac_name a @ '' <'' @ ac_email a @ ''>'' else ac_email a)"

text \<open>Variables are a map that may be nil.\<close>

datatype 'v mail_body =
    HtmlBody string
  | TextBody string
  | TemplateBody string "(string \<rightharpoonup> 'v) option"
  | GoTemplateBody string string "string \<rightharpoonup> 'v"

definition NewGoTemplateBody :: "string \<Rightarrow> string \<Rightarrow> (string \<rightharpoonup> 'v) option \<Rightarrow> 'v mail_body" where
  "NewGoTemplateBody name template variables =
     GoTemplateBody name template (case variables of None \<Rightarrow> Map.empty | Some m \<Rightarrow> m)"

fun body_Type :: "'v mail_body \<Rightarrow> string" where
  "body_Type (HtmlBody _) = ''html''"
| "body_Type (TextBody _) = ''text''"
| "body_Type (TemplateBody _ _) = ''template''"
| "body_Type (GoTemplateBody _ _ _) = ''go_template''"

record ('v, 't) go_template =
  gt_Parse :: "string \<Rightarrow> string \<Rightarrow> go_error + 't"
  gt_Execute :: "'t \<Rightarrow> (string \<rightharpoonup> 'v) \<Rightarrow> go_error + string"

abbreviation mail_error :: "string \<Rightarrow> go_error" where
  "mail_error e \<equiv> Atom (InPackage ''mailer'' e)"

fun body_Content :: "('v, 't) go_template \<Rightarrow> 'v mail_body \<Rightarrow> go_error + string" where
  "body_Content gt (HtmlBody content) = Inr content"
| "body_Content gt (TextBody content) = Inr content"
| "body_Content gt (TemplateBody name variables) = Inl (Atom (InPackage ''util'' ''ErrNotImplemented''))"
| "body_Content gt (GoTemplateBody name template variables) =
     (case gt_Parse gt name template of
        Inl e \<Rightarrow> Inl (Wrap [] [mail_error ''errTemplateParse'', e])
      | Inr tpl \<Rightarrow>
          (case gt_Execute gt tpl variables of
             Inl e \<Rightarrow> Inl (Wrap [] [mail_error ''errTemplateExecute'', e])
           | Inr text \<Rightarrow> Inr text))"

text \<open>Attachments are their names.\<close>

record 'v mail_message =
  mm_From :: "account option"
  mm_To :: "account list"
  mm_Cc :: "account list"
  mm_Bcc :: "account list"
  mm_Subject :: string
  mm_Body :: "'v mail_body option"
  mm_Attachments :: "string list"

definition NewMailMessage :: "'v mail_message" where
  "NewMailMessage =
     \<lparr>mm_From = None, mm_To = [], mm_Cc = [], mm_Bcc = [], mm_Subject = [], mm_Body = None, mm_Attachments = []\<rparr>"

definition mail_WithFrom :: "account option \<Rightarrow> 'v mail_message \<Rightarrow> 'v mail_message" where
  "mail_WithFrom a m = m\<lparr>mm_From := a\<rparr>"

definition mail_WithTo :: "account list \<Rightarrow> 'v mail_message \<Rightarrow> 'v mail_message" where
  "mail_WithTo accounts m = m\<lparr>mm_To := mm_To m @ accounts\<rparr>"

definition mail_WithCc :: "account list \<Rightarrow> 'v mail_message \<Rightarrow> 'v mail_message" where
  "mail_WithCc accounts m = m\<lparr>mm_Cc := mm_Cc m @ accounts\<rparr>"

definition mail_WithBcc :: "account list \<Rightarrow> 'v mail_message \<Rightarrow> 'v mail_message" where
  "mail_WithBcc accounts m = m\<lparr>mm_Bcc := mm_Bcc m @ accounts\<rparr>"

definition mail_WithSubject :: "string \<Rightarrow> 'v mail_message \<Rightarrow> 'v mail_message" where
  "mail_WithSubject subject m = m\<lparr>mm_Subject := subject\<rparr>"

definition mail_WithBody :: "'v mail_body option \<Rightarrow> 'v mail_message \<Rightarrow> 'v mail_message" where
  "mail_WithBody b m = m\<lparr>mm_Body := b\<rparr>"

definition mail_WithAttachments :: "string list \<Rightarrow> 'v mail_message \<Rightarrow> 'v mail_message" where
  "mail_WithAttachments atts m = m\<lparr>mm_Attachments := mm_Attachments m @ atts\<rparr>"

section \<open>The mailer\<close>

text \<open>A result is the id of the mail; a provider dereferences the sender and the body, so it may panic (\<open>None\<close>).\<close>

type_synonym ('v, 'w) mail_provider = "'v mail_message \<Rightarrow> 'w \<Rightarrow> ((go_error + string) \<times> 'w) option"

definition mailer_Send :: "('v, 'w) mail_provider \<Rightarrow> 'v mail_message \<Rightarrow> 'w \<Rightarrow> ((go_error + string) \<times> 'w) option" where
  "mailer_Send provider message w =
     (if mm_From message = None then Some (Inl (mail_error ''ErrNoFrom''), w)
      else if mm_To message = [] then Some (Inl (mail_error ''ErrNoTo''), w)
      else if mm_Subject message = [] then Some (Inl (mail_error ''ErrNoSubject''), w)
      else if mm_Body message = None then Some (Inl (mail_error ''ErrNoBody''), w)
      else if mm_Attachments message \<noteq> [] then Some (Inl (mail_error ''ErrAttachmentsNotImplemented''), w)
      else (case provider message w of
              None \<Rightarrow> None
            | Some (Inl e, w1) \<Rightarrow> Some (Inl (Wrap [] [mail_error ''ErrSend'', e]), w1)
            | Some (Inr r, w1) \<Rightarrow> Some (Inr r, w1)))"

section \<open>Resend\<close>

record 'v resend_request =
  rr_From :: string
  rr_To :: "string list"
  rr_Subject :: string
  rr_Cc :: "string list"
  rr_Bcc :: "string list"
  rr_Template :: "(string \<times> (string \<rightharpoonup> 'v) option) option"
  rr_Html :: string

definition resend_Send ::
  "('v, 't) go_template \<Rightarrow> ('v resend_request \<Rightarrow> 'w \<Rightarrow> (go_error + string) \<times> 'w) \<Rightarrow> ('v, 'w) mail_provider" where
  "resend_Send gt api message w =
     (case mm_From message of
        None \<Rightarrow> None
      | Some sender \<Rightarrow>
          (let params = \<lparr>rr_From = account_String sender, rr_To = map account_String (mm_To message),
                         rr_Subject = mm_Subject message, rr_Cc = map account_String (mm_Cc message),
                         rr_Bcc = map account_String (mm_Bcc message), rr_Template = None, rr_Html = []\<rparr>
           in case (case mm_Body message of
                      None \<Rightarrow> None
                    | Some (TemplateBody name variables) \<Rightarrow> Some (Inr (params\<lparr>rr_Template := Some (name, variables)\<rparr>))
                    | Some b \<Rightarrow>
                        Some (case body_Content gt b of
                                Inl e \<Rightarrow> Inl (Wrap [] [Atom (InPackage ''resend'' ''errGetContent''), e])
                              | Inr content \<Rightarrow> Inr (params\<lparr>rr_Html := content\<rparr>))) of
                None \<Rightarrow> None
              | Some (Inl e) \<Rightarrow> Some (Inl e, w)
              | Some (Inr params) \<Rightarrow>
                  (case api params w of
                     (Inl e, w1) \<Rightarrow> Some (Inl (Wrap [] [Atom (InPackage ''resend'' ''errSend''), e]), w1)
                   | (Inr mailId, w1) \<Rightarrow> Some (Inr mailId, w1))))"

section \<open>SMTP\<close>

record smtp_config =
  sc_Host :: string
  sc_Port :: int
  sc_Username :: string
  sc_Password :: string

datatype smtp_option = SmtpPort int | AuthPlain | AuthNone | SmtpUsername string | SmtpPassword string

definition smtp_options :: "smtp_config \<Rightarrow> smtp_option list" where
  "smtp_options config =
     SmtpPort (sc_Port config) #
     (if sc_Username config \<noteq> [] \<and> sc_Password config \<noteq> []
      then [AuthPlain, SmtpUsername (sc_Username config), SmtpPassword (sc_Password config)]
      else [AuthNone])"

definition NewSmtp :: "(string \<Rightarrow> smtp_option list \<Rightarrow> go_error + 'c) \<Rightarrow> smtp_config \<Rightarrow> go_error + 'c" where
  "NewSmtp mail_NewClient config =
     (case mail_NewClient (sc_Host config) (smtp_options config) of
        Inl e \<Rightarrow> Inl (Wrap [] [Atom (InPackage ''smtp'' ''errClient''), e])
      | Inr c \<Rightarrow> Inr c)"

text \<open>\<open>'m\<close> are the messages of go-mail; the address methods parse and may refuse.\<close>

record ('m, 'w) gomail =
  gm_NewMsg :: 'm
  gm_From :: "string \<Rightarrow> 'm \<Rightarrow> go_error + 'm"
  gm_To :: "string list \<Rightarrow> 'm \<Rightarrow> go_error + 'm"
  gm_Cc :: "string list \<Rightarrow> 'm \<Rightarrow> go_error + 'm"
  gm_Bcc :: "string list \<Rightarrow> 'm \<Rightarrow> go_error + 'm"
  gm_Subject :: "string \<Rightarrow> 'm \<Rightarrow> 'm"
  gm_SetBodyString :: "string \<Rightarrow> string \<Rightarrow> 'm \<Rightarrow> 'm"
  gm_DialAndSend :: "'m \<Rightarrow> 'w \<Rightarrow> go_error option \<times> 'w"
  gm_uuid :: "'w \<Rightarrow> string \<times> 'w"

definition and_then :: "go_error + 'a \<Rightarrow> ('a \<Rightarrow> go_error + 'b) \<Rightarrow> go_error + 'b" where
  "and_then r f = (case r of Inl e \<Rightarrow> Inl e | Inr x \<Rightarrow> f x)"

definition smtp_message :: "('m, 'w) gomail \<Rightarrow> string \<Rightarrow> 'v mail_message \<Rightarrow> go_error + 'm" where
  "smtp_message gm sender message =
     and_then (gm_From gm sender (gm_NewMsg gm)) (\<lambda>m1.
     and_then (gm_To gm (map account_String (mm_To message)) m1) (\<lambda>m2.
     and_then (gm_Cc gm (map account_String (mm_Cc message)) m2) (\<lambda>m3.
     and_then (gm_Bcc gm (map account_String (mm_Bcc message)) m3) (\<lambda>m4.
     Inr (gm_Subject gm (mm_Subject message) m4)))))"

definition smtp_Send :: "('v, 't) go_template \<Rightarrow> ('m, 'w) gomail \<Rightarrow> ('v, 'w) mail_provider" where
  "smtp_Send gt gm message w =
     (case mm_From message of
        None \<Rightarrow> None
      | Some sender \<Rightarrow>
          (case smtp_message gm (account_String sender) message of
             Inl e \<Rightarrow> Some (Inl e, w)
           | Inr msg \<Rightarrow>
               (case mm_Body message of
                  None \<Rightarrow> None
                | Some (TemplateBody _ _) \<Rightarrow> Some (Inl (Atom (InPackage ''smtp'' ''errTemplateNotSupported'')), w)
                | Some b \<Rightarrow>
                    (case body_Content gt b of
                       Inl e \<Rightarrow> Some (Inl (Wrap [] [Atom (InPackage ''smtp'' ''errGetContent''), e]), w)
                     | Inr content \<Rightarrow>
                         (let contentType = (if body_Type b = ''text'' then ''text/plain'' else ''text/html'')
                          in case gm_DialAndSend gm (gm_SetBodyString gm contentType content msg) w of
                               (Some e, w1) \<Rightarrow> Some (Inl (Wrap [] [Atom (InPackage ''smtp'' ''errSend''), e]), w1)
                             | (None, w1) \<Rightarrow> (case gm_uuid gm w1 of (mailId, w2) \<Rightarrow> Some (Inr mailId, w2)))))))"

section \<open>What a mail needs\<close>

definition complete_mail :: "'v mail_message \<Rightarrow> bool" where
  "complete_mail m \<longleftrightarrow>
     mm_From m \<noteq> None \<and> mm_To m \<noteq> [] \<and> mm_Subject m \<noteq> [] \<and> mm_Body m \<noteq> None \<and> mm_Attachments m = []"

text \<open>The provider is called exactly for complete messages; another one is refused with nothing done.\<close>

lemma mailer_checks_message:
  "mailer_Send provider m w =
     (if complete_mail m then map_option (apfst (map_sum (\<lambda>e. Wrap [] [mail_error ''ErrSend'', e]) (\<lambda>r. r))) (provider m w)
      else Some (Inl (mail_error (if mm_From m = None then ''ErrNoFrom'' else if mm_To m = [] then ''ErrNoTo''
                        else if mm_Subject m = [] then ''ErrNoSubject'' else if mm_Body m = None then ''ErrNoBody''
                        else ''ErrAttachmentsNotImplemented'')), w))"
  by (auto simp: mailer_Send_def complete_mail_def split: option.split sum.split)

text \<open>So neither provider of the package panics under a mailer.\<close>

lemma providers_total:
  assumes "complete_mail m"
  shows "resend_Send gt api m w \<noteq> None" "smtp_Send gt gm m w \<noteq> None"
  using assms
  by (auto simp: complete_mail_def resend_Send_def smtp_Send_def Let_def
      split: option.split sum.split prod.split mail_body.split)

lemma mailer_never_panics:
  "mailer_Send (resend_Send gt api) m w \<noteq> None" "mailer_Send (smtp_Send gt gm) m w \<noteq> None"
  using providers_total [of m] by (cases "complete_mail m"; fastforce simp: mailer_checks_message)+

text \<open>A plain text goes out as \<^verbatim>\<open>text/plain\<close> over SMTP and as HTML over Resend.\<close>

lemma resend_sends_text_as_html:
  assumes "mm_From m = Some a" "mm_Body m = Some (TextBody content)"
    and "resend_Send gt (\<lambda>p ps. (Inr ''1'', p # ps)) m [] = Some (r, sent)"
  shows "\<exists>p. sent = [p] \<and> rr_Html p = content"
  using assms by (auto simp: resend_Send_def Let_def)

end
