(* ===== verification/Downloads.thy ===== *)
theory Downloads
  imports Http_Client
begin

text \<open>
  Package \<^verbatim>\<open>downloader\<close>: a client of \<^verbatim>\<open>http_client\<close> with another default for the size of responses. A response that
  is nil would be dereferenced: \<open>None\<close>; \<open>download_total\<close> shows that there is none.
\<close>

definition downloader_defaultMaxResponseBodySize :: int where
  "downloader_defaultMaxResponseBodySize = 1"

definition configWithDefaults :: "http_config \<Rightarrow> http_config" where
  "configWithDefaults c =
     c\<lparr>hc_MaxResponseBodySizeValue :=
         (if hc_MaxResponseBodySizeValue c \<noteq> 0 then hc_MaxResponseBodySizeValue c else downloader_defaultMaxResponseBodySize)\<rparr>"

definition NewDownloader ::
  "(sentinel \<Rightarrow> string) \<Rightarrow> (breaker_settings \<Rightarrow> ('b, 'w) gobreaker) \<Rightarrow> 'cert tls_env \<Rightarrow> http_config
   \<Rightarrow> go_error + ('cert, 'b, 'w) http_client" where
  "NewDownloader text mk te config = NewClientImpl text mk te (configWithDefaults config) []"

definition dl_Download ::
  "'w http_env \<Rightarrow> ('cert, 'b, 'w guarded_world) http_client \<Rightarrow> string \<Rightarrow> 'b \<times> 'w
   \<Rightarrow> ((go_error + byte list) \<times> 'b \<times> 'w) option" where
  "dl_Download env c url s =
     (case http_Get env (cl_config c) (cl_circuitBreaker c) url [] s of
        ((_, Some e), _, s1) \<Rightarrow> Some (Inl e, s1)
      | ((Some response, None), _, s1) \<Rightarrow> Some (Inr (ht_Body response), s1)
      | ((None, None), _, s1) \<Rightarrow> None)"

definition dl_DownloadStream ::
  "'w http_env \<Rightarrow> ('cert, 'b, 'w guarded_world) http_client \<Rightarrow> string \<Rightarrow> 'w \<Rightarrow> ((go_error + reader) \<times> 'w) option" where
  "dl_DownloadStream env c url w =
     (case GetStream env (cl_config c) url [] w of
        ((_, Some e), _, w1) \<Rightarrow> Some (Inl e, w1)
      | ((Some response, None), _, w1) \<Rightarrow> Some (Inr (sr_Body response), w1)
      | ((None, None), _, w1) \<Rightarrow> None)"

text \<open>The limit of a downloader whose configuration sets none is one byte.\<close>

lemma default_limit_one_byte:
  assumes "NewDownloader text mk te config = Inr c" "hc_MaxResponseBodySizeValue config = 0"
  shows "fc_MaxResponseBodySize (cl_client c) = 1"
  using assms
  by (auto simp: NewDownloader_def NewClientImpl_def configWithDefaults_def downloader_defaultMaxResponseBodySize_def Let_def
      split: sum.splits)

lemma download_total: "dl_Download env c url (b, w) \<noteq> None"
  using http_Do_answers [of env "cl_config c" "cl_circuitBreaker c" "''GET''" url "[]" b w]
  by (auto simp: dl_Download_def http_Get_def split: option.split prod.split)

lemma download_stream_total: "dl_DownloadStream env c url w \<noteq> None"
  by (auto simp: dl_DownloadStream_def GetStream_def performStreamRequest_def handleStatusCode_def Let_def
      split: result_splits)

end
