(* ===== verification/Pushers.thy ===== *)
theory Pushers
  imports Http_Client Utils
begin

text \<open>
  Package \<^verbatim>\<open>pusher\<close>: messages and options (\<^verbatim>\<open>message.go\<close>, \<^verbatim>\<open>register_token_options.go\<close>) and the provider over the
  Pushwoosh API (\<^verbatim>\<open>providers/pushwoosh\<close>): the conversion of tokens and messages and the client that posts requests
  through \<^verbatim>\<open>http_client\<close>. The writing of a request and the reading of a reply as JSON are parameters; a reply that is
  the JSON \<^verbatim>\<open>null\<close> is read as a nil pointer. A dereference of nil panics: \<open>None\<close>. The pusher itself hands every
  call to its provider.
\<close>

section \<open>Messages\<close>

record 'd push_message =
  pm_Title :: "string option"
  pm_Subtitle :: "string option"
  pm_Body :: "string option"
  pm_Badges :: "int option"
  pm_Silent :: "bool option"
  pm_CustomData :: "(string \<rightharpoonup> 'd) option"

definition NewPushMessage :: "'d push_message" where
  "NewPushMessage =
     \<lparr>pm_Title = None, pm_Subtitle = None, pm_Body = None, pm_Badges = None, pm_Silent = None, pm_CustomData = Some Map.empty\<rparr>"

definition push_SetTitle :: "string \<Rightarrow> 'd push_message \<Rightarrow> 'd push_message" where
  "push_SetTitle s m = m\<lparr>pm_Title := Some s\<rparr>"

definition push_SetSubtitle :: "string \<Rightarrow> 'd push_message \<Rightarrow> 'd push_message" where
  "push_SetSubtitle s m = m\<lparr>pm_Subtitle := Some s\<rparr>"

definition push_SetBody :: "string \<Rightarrow> 'd push_message \<Rightarrow> 'd push_message" where
  "push_SetBody s m = m\<lparr>pm_Body := Some s\<rparr>"

definition push_SetBadges :: "int \<Rightarrow> 'd push_message \<Rightarrow> 'd push_message" where
  "push_SetBadges n m = m\<lparr>pm_Badges := Some n\<rparr>"

definition push_SetSilent :: "bool \<Rightarrow> 'd push_message \<Rightarrow> 'd push_message" where
  "push_SetSilent silent m = m\<lparr>pm_Silent := Some silent\<rparr>"

definition AddCustomDataMap :: "(string \<rightharpoonup> 'd) \<Rightarrow> 'd push_message \<Rightarrow> 'd push_message" where
  "AddCustomDataMap vs m =
     m\<lparr>pm_CustomData := Some ((case pm_CustomData m of None \<Rightarrow> Map.empty | Some old \<Rightarrow> old) ++ vs)\<rparr>"

definition AddCustomData :: "string \<Rightarrow> 'd \<Rightarrow> 'd push_message \<Rightarrow> 'd push_message" where
  "AddCustomData key v m =
     m\<lparr>pm_CustomData := Some ((case pm_CustomData m of None \<Rightarrow> Map.empty | Some old \<Rightarrow> old)(key \<mapsto> v))\<rparr>"

definition push_Title :: "'d push_message \<Rightarrow> string" where "push_Title m = OrDefault (pm_Title m) []"
definition push_Subtitle :: "'d push_message \<Rightarrow> string" where "push_Subtitle m = OrDefault (pm_Subtitle m) []"
definition push_Body :: "'d push_message \<Rightarrow> string" where "push_Body m = OrDefault (pm_Body m) []"
definition push_Badges :: "'d push_message \<Rightarrow> int" where "push_Badges m = OrDefault (pm_Badges m) 0"
definition push_Silent :: "'d push_message \<Rightarrow> bool" where "push_Silent m = OrDefault (pm_Silent m) False"

record register_token_options =
  rt_Language :: "string option"
  rt_Locale :: "string option"
  rt_Timezone :: "string option"

definition token_WithLanguage :: "string option \<Rightarrow> register_token_options \<Rightarrow> register_token_options" where
  "token_WithLanguage language opts = opts\<lparr>rt_Language := language\<rparr>"

definition token_WithLocale :: "string option \<Rightarrow> register_token_options \<Rightarrow> register_token_options" where
  "token_WithLocale loc opts = opts\<lparr>rt_Locale := loc\<rparr>"

definition token_WithTimezone :: "string option \<Rightarrow> register_token_options \<Rightarrow> register_token_options" where
  "token_WithTimezone timezone opts = opts\<lparr>rt_Timezone := timezone\<rparr>"

section \<open>The requests of the API\<close>

definition AllPlatformTypes :: "string list" where
  "AllPlatformTypes = [''IOS'', ''ANDROID'', ''HUAWEI_ANDROID'', ''CHROME'', ''SAFARI'', ''FIREFOX'', ''IE'', ''WEB'']"

text \<open>The fields that the program sets; the others are absent from the JSON.\<close>

record localized_content =
  lc_Title :: "string option"
  lc_Subtitle :: "string option"
  lc_Body :: "string option"
  lc_Badges :: "string option"

record 'd message_payload =
  mp_LocalizedContent :: "(string \<times> (string \<times> localized_content) list) list option"
  mp_Silent :: bool
  mp_CustomData :: "(string \<rightharpoonup> 'd) option"

record register_device_options =
  rg_language :: "string option"
  rg_timezone :: "int option"

definition device_WithLanguage :: "string \<Rightarrow> register_device_options \<Rightarrow> register_device_options" where
  "device_WithLanguage language opts = opts\<lparr>rg_language := Some language\<rparr>"

definition device_WithTimezone :: "int \<Rightarrow> register_device_options \<Rightarrow> register_device_options" where
  "device_WithTimezone timezone opts = opts\<lparr>rg_timezone := Some timezone\<rparr>"

text \<open>A slice of ids is nil exactly when it is empty, because it is only appended to. Times are seconds.\<close>

record notify_options =
  no_UsersIds :: "string list"
  no_DevicesIds :: "string list"
  no_PushTokens :: "string list"
  no_SendAt :: "int option"
  no_SendAfter :: "int option"

definition NewNotifyOptions :: notify_options where
  "NewNotifyOptions = \<lparr>no_UsersIds = [], no_DevicesIds = [], no_PushTokens = [], no_SendAt = None, no_SendAfter = None\<rparr>"

definition WithUsersIds :: "string list \<Rightarrow> notify_options \<Rightarrow> notify_options" where
  "WithUsersIds ids opts = opts\<lparr>no_UsersIds := no_UsersIds opts @ ids\<rparr>"

definition WithDevicesIds :: "string list \<Rightarrow> notify_options \<Rightarrow> notify_options" where
  "WithDevicesIds ids opts = opts\<lparr>no_DevicesIds := no_DevicesIds opts @ ids\<rparr>"

definition WithPushTokens :: "string list \<Rightarrow> notify_options \<Rightarrow> notify_options" where
  "WithPushTokens tokens opts = opts\<lparr>no_PushTokens := no_PushTokens opts @ tokens\<rparr>"

definition WithSendAt :: "int \<Rightarrow> notify_options \<Rightarrow> notify_options" where
  "WithSendAt t opts = opts\<lparr>no_SendAt := Some t\<rparr>"

definition WithSendAfter :: "int \<Rightarrow> notify_options \<Rightarrow> notify_options" where
  "WithSendAfter d opts = opts\<lparr>no_SendAfter := Some d\<rparr>"

record register_device_request =
  rq_Application :: string
  rq_PushToken :: string
  rq_HwId :: string
  rq_Timezone :: "int option"
  rq_DeviceType :: int
  rq_Language :: "string option"
  rq_UserId :: string

record 'd notify =
  nt_Application :: string
  nt_Platforms :: "string list"
  nt_Users :: "string list option"
  nt_HwIds :: "string list option"
  nt_PushTokens :: "string list option"
  nt_Payload :: "'d message_payload"
  nt_MessageType :: string
  nt_At :: "string option"
  nt_After :: "string option"

datatype 'd push_request =
    RegisterDeviceRequest register_device_request
  | UnregisterDeviceRequest string string
  | NotifyTransactionalRequest "'d notify"
  | NotifySegmentRequest "'d notify"

section \<open>The client\<close>

text \<open>
  \<open>pw_post\<close> is \<open>Post\<close> of the HTTP client with its options; the response is nil only with an error. \<open>pw_reply\<close> reads
  the status of a reply with its message, \<open>pw_result\<close> the message code of a notification; \<open>pw_utc\<close> and
  \<open>pw_seconds\<close> write a time and a duration.
\<close>

record ('w, 'd) push_client =
  pw_application :: string
  pw_post :: "string \<Rightarrow> request_option option list \<Rightarrow> 'w \<Rightarrow> (http_response option \<times> go_error option) \<times> 'w"
  pw_json :: "'d push_request \<Rightarrow> go_error + byte list"
  pw_reply :: "byte list \<Rightarrow> go_error + (int \<times> string) option"
  pw_result :: "byte list \<Rightarrow> go_error + string option"
  pw_utc :: "int \<Rightarrow> string"
  pw_seconds :: "int \<Rightarrow> string"

abbreviation pw_error :: "string \<Rightarrow> go_error" where
  "pw_error e \<equiv> Atom (InPackage ''pushwoosh'' e)"

text \<open>The configuration of the HTTP client.\<close>

definition push_http_config :: "string \<Rightarrow> string \<Rightarrow> http_config" where
  "push_http_config baseApiUrl apiKey =
     \<lparr>hc_BaseUrlValue = baseApiUrl, hc_InsecureSkipVerifyValue = False, hc_TimeoutValue = 0,
      hc_BaseHeadersValue = [(''Authorization'', [''Token '' @ apiKey])], hc_UseRequestIdValue = False,
      hc_NameValue = ''pushwoosh'', hc_MaxConnsPerHostValue = 0, hc_MaxIdleConnDurationValue = 0,
      hc_ReadTimeoutValue = None, hc_WriteTimeoutValue = None, hc_MaxConnWaitTimeoutValue = 0,
      hc_RetryPolicyValue = None, hc_ReadBufferSizeValue = 0, hc_WriteBufferSizeValue = 0,
      hc_MaxResponseBodySizeValue = 0, hc_MaxConnDurationValue = 0, hc_StreamResponseBodyValue = False,
      hc_FollowRedirectsValue = False, hc_TLSMinVersionValue = 0, hc_TLSMaxVersionValue = 0,
      hc_TLSServerNameValue = [], hc_TLSRootCAFileValue = [], hc_TLSClientCertFileValue = [],
      hc_TLSClientKeyFileValue = [], hc_CircuitBreakerValue = None\<rparr>"

definition push_NewClient ::
  "(sentinel \<Rightarrow> string) \<Rightarrow> (breaker_settings \<Rightarrow> ('b, 'w) gobreaker) \<Rightarrow> 'cert tls_env \<Rightarrow> string \<Rightarrow> string
   \<Rightarrow> go_error + ('cert, 'b, 'w) http_client" where
  "push_NewClient text mk te baseApiUrl apiKey = NewClientImpl text mk te (push_http_config baseApiUrl apiKey) []"

definition push_post ::
  "'w http_env \<Rightarrow> ('cert, 'b, 'w guarded_world) http_client \<Rightarrow> string \<Rightarrow> request_option option list \<Rightarrow> 'b \<times> 'w
   \<Rightarrow> (http_response option \<times> go_error option) \<times> 'b \<times> 'w" where
  "push_post env c uri opts s =
     (case http_Post env (cl_config c) (cl_circuitBreaker c) uri opts s of (r, _, s1) \<Rightarrow> (r, s1))"

lemma push_post_answers: "fst (push_post env c uri opts (b, w)) \<noteq> (None, None)"
  using http_Do_answers [of env "cl_config c" "cl_circuitBreaker c" "''POST''" uri opts b w]
  by (auto simp: push_post_def http_Post_def split: prod.split)

text \<open>What both device calls do with their reply.\<close>

definition device_call ::
  "('w, 'd) push_client \<Rightarrow> string \<Rightarrow> string \<Rightarrow> string \<Rightarrow> 'd push_request \<Rightarrow> 'w \<Rightarrow> (go_error option \<times> 'w) option" where
  "device_call c err what uri req w =
     (case pw_post c uri [Some (WithJsonBody (pw_json c req))] w of
        ((_, Some e), w1) \<Rightarrow> Some (Some (Wrap [] [pw_error err, e]), w1)
      | ((None, None), w1) \<Rightarrow> None
      | ((Some httpResponse, None), w1) \<Rightarrow>
          (case pw_reply c (ht_Body httpResponse) of
             Inl e \<Rightarrow> Some (Some (Wrap [] [pw_error err, e]), w1)
           | Inr None \<Rightarrow> None
           | Inr (Some (statusCode, statusMessage)) \<Rightarrow>
               if statusCode \<noteq> 200
               then Some (Some (Wrap (''failed to '' @ what @ '' device: '' @ statusMessage) [pw_error err]), w1)
               else Some (None, w1)))"

definition RegisterDevice ::
  "('w, 'd) push_client \<Rightarrow> int \<Rightarrow> string \<Rightarrow> string \<Rightarrow> string
   \<Rightarrow> (register_device_options \<Rightarrow> register_device_options) list \<Rightarrow> 'w \<Rightarrow> (go_error option \<times> 'w) option" where
  "RegisterDevice c deviceType userId deviceId token opts w =
     (let requestOptions = fold (\<lambda>opt. opt) opts \<lparr>rg_language = None, rg_timezone = None\<rparr>
      in device_call c ''ErrRegisterDevice'' ''register'' ''/json/1.3/registerDevice''
           (RegisterDeviceRequest
              \<lparr>rq_Application = pw_application c, rq_PushToken = token, rq_HwId = deviceId,
               rq_Timezone = rg_timezone requestOptions, rq_DeviceType = deviceType,
               rq_Language = rg_language requestOptions, rq_UserId = userId\<rparr>) w)"

definition UnregisterDevice :: "('w, 'd) push_client \<Rightarrow> string \<Rightarrow> 'w \<Rightarrow> (go_error option \<times> 'w) option" where
  "UnregisterDevice c deviceId w =
     device_call c ''ErrUnregisterDevice'' ''unregister'' ''/json/1.3/unregisterDevice''
       (UnregisterDeviceRequest (pw_application c) deviceId) w"

definition nonempty_list :: "string list \<Rightarrow> string list option" where
  "nonempty_list xs = (if xs = [] then None else Some xs)"

definition Notify ::
  "('w, 'd) push_client \<Rightarrow> string list \<Rightarrow> string \<Rightarrow> 'd message_payload \<Rightarrow> (notify_options \<Rightarrow> notify_options) list \<Rightarrow> 'w
   \<Rightarrow> ((go_error + string) \<times> 'w) option" where
  "Notify c platforms messageType payload opts w =
     (let o1 = fold (\<lambda>opt. opt) opts NewNotifyOptions
      in if no_SendAt o1 = None \<and> no_SendAfter o1 = None then Some (Inl (pw_error ''ErrScheduleRequired''), w)
         else
           (let n = \<lparr>nt_Application = pw_application c, nt_Platforms = platforms,
                     nt_Users = nonempty_list (no_UsersIds o1), nt_HwIds = nonempty_list (no_DevicesIds o1),
                     nt_PushTokens = nonempty_list (no_PushTokens o1), nt_Payload = payload, nt_MessageType = messageType,
                     nt_At = map_option (pw_utc c) (no_SendAt o1), nt_After = map_option (pw_seconds c) (no_SendAfter o1)\<rparr>
            in case (if messageType = ''MESSAGE_TYPE_TRANSACTIONAL'' then Some (NotifyTransactionalRequest n)
                     else if messageType = ''MESSAGE_TYPE_MARKETING'' then Some (NotifySegmentRequest n) else None) of
                 None \<Rightarrow> Some (Inl (Wrap messageType [pw_error ''ErrUnknownMessageType'']), w)
               | Some req \<Rightarrow>
                   (case pw_post c ''/messaging/v2/notify'' [Some (WithJsonBody (pw_json c req))] w of
                      ((_, Some e), w1) \<Rightarrow> Some (Inl (Wrap [] [pw_error ''ErrNotify'', e]), w1)
                    | ((None, None), w1) \<Rightarrow> None
                    | ((Some httpResponse, None), w1) \<Rightarrow>
                        (case pw_result c (ht_Body httpResponse) of
                           Inl e \<Rightarrow> Some (Inl (Wrap [] [pw_error ''ErrNotify'', e]), w1)
                         | Inr None \<Rightarrow> None
                         | Inr (Some messageCode) \<Rightarrow> Some (Inr messageCode, w1)))))"

section \<open>The provider\<close>

definition convertTokenType :: "string \<Rightarrow> go_error + int" where
  "convertTokenType tokenType =
     (if tokenType = ''ios'' then Inr 1
      else if tokenType = ''android'' then Inr 3
      else if tokenType = ''huawei'' then Inr 17
      else if tokenType = ''chrome'' then Inr 11
      else if tokenType = ''safari'' then Inr 10
      else if tokenType = ''firefox'' then Inr 12
      else Inl (Wrap tokenType [pw_error ''ErrUnknownTokenType'']))"

text \<open>\<open>zone\<close> is the offset of a time zone now.\<close>

definition getTimezoneOffsetSeconds :: "(string \<Rightarrow> go_error + int) \<Rightarrow> string \<Rightarrow> go_error + int" where
  "getTimezoneOffsetSeconds zone timezone =
     (case zone timezone of
        Inl e \<Rightarrow> Inl (Wrap [] [pw_error ''ErrUnknownTimezone'', e])
      | Inr offset \<Rightarrow> Inr offset)"

definition pw_RegisterToken ::
  "(string \<Rightarrow> go_error + int) \<Rightarrow> ('w, 'd) push_client \<Rightarrow> string \<Rightarrow> string \<Rightarrow> string \<Rightarrow> string
   \<Rightarrow> (register_token_options \<Rightarrow> register_token_options) list \<Rightarrow> 'w \<Rightarrow> (go_error option \<times> 'w) option" where
  "pw_RegisterToken zone c userId deviceId tokenType token opts w =
     (case convertTokenType tokenType of
        Inl e \<Rightarrow> Some (Some e, w)
      | Inr deviceType \<Rightarrow>
          (let o1 = fold (\<lambda>opt. opt) opts \<lparr>rt_Language = None, rt_Locale = None, rt_Timezone = None\<rparr>;
               language = (case rt_Language o1 of None \<Rightarrow> [] | Some l \<Rightarrow> [device_WithLanguage l])
           in case (case rt_Timezone o1 of
                      None \<Rightarrow> Inr []
                    | Some tz \<Rightarrow>
                        (case getTimezoneOffsetSeconds zone tz of
                           Inl e \<Rightarrow> Inl e
                         | Inr offset \<Rightarrow> Inr [device_WithTimezone offset])) of
                Inl e \<Rightarrow> Some (Some e, w)
              | Inr timezone \<Rightarrow> RegisterDevice c deviceType userId deviceId token (language @ timezone) w))"

definition pw_UnregisterToken ::
  "('w, 'd) push_client \<Rightarrow> string \<Rightarrow> string \<Rightarrow> string \<Rightarrow> 'w \<Rightarrow> (go_error option \<times> 'w) option" where
  "pw_UnregisterToken c userId deviceId token w = UnregisterDevice c deviceId w"

definition messageToPayload :: "'d push_message \<Rightarrow> 'd message_payload" where
  "messageToPayload m =
     (let nilIfEmpty = (\<lambda>s :: string. if s = [] then None else Some s);
          content = \<lparr>lc_Title = nilIfEmpty (push_Title m), lc_Subtitle = nilIfEmpty (push_Subtitle m),
                     lc_Body = nilIfEmpty (push_Body m),
                     lc_Badges = (if push_Badges m > 0 then Some (show_int (push_Badges m)) else None)\<rparr>
      in \<lparr>mp_LocalizedContent =
            (if push_Silent m then None
             else Some [(''default'',
                         map (\<lambda>p. (p, content))
                           [''ios'', ''android'', ''huawei_android'', ''chrome'', ''safari'', ''firefox'', ''ie''])]),
          mp_Silent = push_Silent m, mp_CustomData = pm_CustomData m\<rparr>)"

definition sendMessage ::
  "('w, 'd) push_client \<Rightarrow> int \<Rightarrow> 'd push_message \<Rightarrow> (notify_options \<Rightarrow> notify_options) list \<Rightarrow> 'w
   \<Rightarrow> ((go_error + string) \<times> 'w) option" where
  "sendMessage c now message opts w =
     Notify c AllPlatformTypes ''MESSAGE_TYPE_TRANSACTIONAL'' (messageToPayload message) (opts @ [WithSendAt now]) w"

definition SendMessageByUserId ::
  "('w, 'd) push_client \<Rightarrow> int \<Rightarrow> string \<Rightarrow> 'd push_message \<Rightarrow> 'w \<Rightarrow> ((go_error + string) \<times> 'w) option" where
  "SendMessageByUserId c now userId message w = sendMessage c now message [WithUsersIds [userId]] w"

definition SendMessageByDeviceId ::
  "('w, 'd) push_client \<Rightarrow> int \<Rightarrow> string \<Rightarrow> 'd push_message \<Rightarrow> 'w \<Rightarrow> ((go_error + string) \<times> 'w) option" where
  "SendMessageByDeviceId c now deviceId message w = sendMessage c now message [WithDevicesIds [deviceId]] w"

section \<open>What a push reaches\<close>

text \<open>
  A message by user id becomes one transactional request for this user alone, due now; one by device id the same for
  the device.
\<close>

lemma message_reaches_one_user:
  "SendMessageByUserId c now userId m w =
     (let n = \<lparr>nt_Application = pw_application c, nt_Platforms = AllPlatformTypes, nt_Users = Some [userId], nt_HwIds = None,
               nt_PushTokens = None, nt_Payload = messageToPayload m, nt_MessageType = ''MESSAGE_TYPE_TRANSACTIONAL'',
               nt_At = Some (pw_utc c now), nt_After = None\<rparr>
      in case pw_post c ''/messaging/v2/notify'' [Some (WithJsonBody (pw_json c (NotifyTransactionalRequest n)))] w of
           ((_, Some e), w1) \<Rightarrow> Some (Inl (Wrap [] [pw_error ''ErrNotify'', e]), w1)
         | ((None, None), w1) \<Rightarrow> None
         | ((Some httpResponse, None), w1) \<Rightarrow>
             (case pw_result c (ht_Body httpResponse) of
                Inl e \<Rightarrow> Some (Inl (Wrap [] [pw_error ''ErrNotify'', e]), w1)
              | Inr None \<Rightarrow> None
              | Inr (Some messageCode) \<Rightarrow> Some (Inr messageCode, w1)))"
  by (simp add: SendMessageByUserId_def sendMessage_def Notify_def WithUsersIds_def WithSendAt_def NewNotifyOptions_def
      nonempty_list_def)

text \<open>A silent message shows nothing, and only a silent one has no content.\<close>

lemma silent_has_no_content: "mp_LocalizedContent (messageToPayload m) = None \<longleftrightarrow> push_Silent m"
  by (simp add: messageToPayload_def Let_def)

text \<open>A token of an unknown type, or with an unknown time zone, is refused before any request.\<close>

lemma unknown_token_no_request:
  assumes "convertTokenType tokenType = Inl e"
  shows "pw_RegisterToken zone c userId deviceId tokenType token opts w = Some (Some e, w)"
  using assms by (simp add: pw_RegisterToken_def)

text \<open>Without an option that names a recipient, \<open>Notify\<close> posts a request without recipients, which is for all.\<close>

lemma notify_without_recipients:
  assumes "pw_post c = (\<lambda>uri opts w. ((None, Some (Atom EOF)), w @ [opts]))"
  shows "\<exists>n. Notify c ps ''MESSAGE_TYPE_MARKETING'' p [WithUsersIds [], WithSendAt t] []
           = Some (Inl (Wrap [] [pw_error ''ErrNotify'', Atom EOF]), [[Some (WithJsonBody (pw_json c (NotifySegmentRequest n)))]])
         \<and> nt_Users n = None \<and> nt_HwIds n = None \<and> nt_PushTokens n = None"
  using assms
  by (auto simp: Notify_def WithUsersIds_def WithSendAt_def NewNotifyOptions_def nonempty_list_def Let_def
      intro!: exI [where x = "\<lparr>nt_Application = pw_application c, nt_Platforms = ps, nt_Users = None, nt_HwIds = None,
        nt_PushTokens = None, nt_Payload = p, nt_MessageType = ''MESSAGE_TYPE_MARKETING'', nt_At = Some (pw_utc c t), nt_After = None\<rparr>"])

text \<open>A reply that is the JSON \<^verbatim>\<open>null\<close> makes the call panic.\<close>

lemma null_reply_panics:
  assumes "pw_post c ''/json/1.3/unregisterDevice'' [Some (WithJsonBody (pw_json c (UnregisterDeviceRequest (pw_application c) deviceId)))] w
             = ((Some response, None), w1)"
    and "pw_reply c (ht_Body response) = Inr None"
  shows "UnregisterDevice c deviceId w = None"
  using assms by (simp add: UnregisterDevice_def device_call_def)

text \<open>The locale of a token is not sent.\<close>

lemma locale_ignored:
  "pw_RegisterToken zone c u d ty tok (opts @ [token_WithLocale l]) w = pw_RegisterToken zone c u d ty tok opts w"
proof -
  have "rt_Language (token_WithLocale l o1) = rt_Language o1" "rt_Timezone (token_WithLocale l o1) = rt_Timezone o1" for o1
    by (simp_all add: token_WithLocale_def)
  moreover have "fold (\<lambda>opt. opt) (opts @ [token_WithLocale l]) z = token_WithLocale l (fold (\<lambda>opt. opt) opts z)" for z
    by simp
  ultimately show ?thesis unfolding pw_RegisterToken_def Let_def by (simp only:)
qed

end
