(* ===== verification/Json_Values.thy ===== *)
theory Json_Values
  imports Go_Text
begin

text \<open>
  Package \<^verbatim>\<open>json\<close>: values that accept two forms of JSON (\<^verbatim>\<open>string_or_string_array.go\<close>, \<^verbatim>\<open>stringified.go\<close>), an
  entity with the text it was read from (\<^verbatim>\<open>entity.go\<close>), and the small helpers; and package \<^verbatim>\<open>errors\<close>: errors with a
  code and parameters. The third-party go-json and jd are parameters: \<open>json_read\<close> is \<open>Unmarshal\<close> into the types
  that the package uses.
\<close>

section \<open>Values of two forms\<close>

text \<open>A nil slice is the empty list. A decoder that fails may leave anything in its own local variable, never in ours.\<close>

record json_read =
  jn_strings :: "byte list \<Rightarrow> go_error + string list"
  jn_string :: "byte list \<Rightarrow> go_error + string"
  jn_int64 :: "byte list \<Rightarrow> go_error + int"

abbreviation json_error :: "string \<Rightarrow> string \<Rightarrow> go_error" where
  "json_error e text \<equiv> Wrap text [Atom (InPackage ''json'' e)]"

text \<open>The value before is kept when both forms fail.\<close>

definition string_or_array_Unmarshal :: "json_read \<Rightarrow> byte list \<Rightarrow> string list \<Rightarrow> go_error option \<times> string list" where
  "string_or_array_Unmarshal jn bytes s =
     (case jn_strings jn bytes of
        Inr arrValue \<Rightarrow> (None, arrValue)
      | Inl _ \<Rightarrow>
          (case jn_string jn bytes of
             Inr strValue \<Rightarrow> (None, [strValue])
           | Inl _ \<Rightarrow> (Some (json_error ''ErrDecodeStringOrStringArray'' bytes), s)))"

definition stringified_Unmarshal :: "json_read \<Rightarrow> byte list \<Rightarrow> string \<Rightarrow> go_error option \<times> string" where
  "stringified_Unmarshal jn bytes s =
     (case jn_string jn bytes of
        Inr stringValue \<Rightarrow> (None, stringValue)
      | Inl _ \<Rightarrow>
          (case jn_int64 jn bytes of
             Inr intValue \<Rightarrow> (None, show_int intValue)
           | Inl _ \<Rightarrow> (Some (json_error ''ErrDecodeStringified'' bytes), s)))"

text \<open>What the library promises of a number or a text in JSON suffices for the number to be read as its decimal text.\<close>

lemma stringified_number:
  assumes "jn_string jn (show_int n) = Inl e" "jn_int64 jn (show_int n) = Inr n"
  shows "stringified_Unmarshal jn (show_int n) s = (None, show_int n)"
  using assms by (simp add: stringified_Unmarshal_def)

lemma two_forms_keep_on_error:
  "fst (string_or_array_Unmarshal jn bytes s) \<noteq> None \<Longrightarrow> snd (string_or_array_Unmarshal jn bytes s) = s"
  "fst (stringified_Unmarshal jn bytes str) \<noteq> None \<Longrightarrow> snd (stringified_Unmarshal jn bytes str) = str"
  by (auto simp: string_or_array_Unmarshal_def stringified_Unmarshal_def split: sum.splits)

section \<open>Entities\<close>

text \<open>\<open>unmarshal\<close> reads into the entity it is given, and may change it before it fails; \<open>zero\<close> is the zero value.\<close>

record 'v entity =
  en_Entity :: 'v
  en_Data :: "byte list"

definition NewEntity :: "('v \<Rightarrow> go_error + byte list) \<Rightarrow> 'v \<Rightarrow> go_error + 'v entity" where
  "NewEntity marshal obj =
     (case marshal obj of Inl e \<Rightarrow> Inl e | Inr data \<Rightarrow> Inr \<lparr>en_Entity = obj, en_Data = data\<rparr>)"

definition entity_Unmarshal ::
  "(byte list \<Rightarrow> 'v \<Rightarrow> go_error option \<times> 'v) \<Rightarrow> byte list \<Rightarrow> 'v entity \<Rightarrow> go_error option \<times> 'v entity" where
  "entity_Unmarshal unmarshal data e =
     (case unmarshal data (en_Entity e) of
        (err, v) \<Rightarrow> (err, \<lparr>en_Entity = v, en_Data = data\<rparr>))"

definition NewEntityFromByteArray ::
  "(byte list \<Rightarrow> 'v \<Rightarrow> go_error option \<times> 'v) \<Rightarrow> 'v \<Rightarrow> byte list \<Rightarrow> go_error + 'v entity" where
  "NewEntityFromByteArray unmarshal zero data =
     (case entity_Unmarshal unmarshal data \<lparr>en_Entity = zero, en_Data = []\<rparr> of
        (Some e, _) \<Rightarrow> Inl e
      | (None, en) \<Rightarrow> Inr en)"

text \<open>An entity is written as the text it holds, whatever has become of its value.\<close>

definition entity_Marshal :: "(byte list \<Rightarrow> go_error + byte list) \<Rightarrow> 'v entity \<Rightarrow> go_error + byte list" where
  "entity_Marshal raw e = raw (en_Data e)"

lemma entity_roundtrip:
  assumes "\<And>v d old. marshal v = Inr d \<Longrightarrow> unmarshal d old = (None, v)" "\<And>v d. marshal v = Inr d \<Longrightarrow> raw d = Inr d"
    and "NewEntity marshal v = Inr en" "entity_Marshal raw en = Inr d"
  shows "NewEntityFromByteArray unmarshal zero d = Inr en"
proof -
  from assms(3) have m: "marshal v = Inr (en_Data en)" "en = \<lparr>en_Entity = v, en_Data = en_Data en\<rparr>"
    by (auto simp: NewEntity_def split: sum.splits)
  with assms(2,4) have "d = en_Data en" by (simp add: entity_Marshal_def)
  with assms(1) m show ?thesis by (simp add: NewEntityFromByteArray_def entity_Unmarshal_def)
qed

section \<open>Helpers\<close>

definition AsJsonArray :: "('a \<Rightarrow> 'any) \<Rightarrow> 'a list \<Rightarrow> 'any list" where
  "AsJsonArray boxed array = fold (\<lambda>element arr. arr @ [boxed element]) array []"

lemma AsJsonArray_map: "AsJsonArray boxed xs = map boxed xs"
proof -
  have "fold (\<lambda>element arr. arr @ [boxed element]) xs acc = acc @ map boxed xs" for acc
    by (induction xs arbitrary: acc) simp_all
  then show ?thesis by (simp add: AsJsonArray_def)
qed

definition AsJsonObject :: "(byte list \<Rightarrow> go_error + (string \<rightharpoonup> 'any)) \<Rightarrow> byte list \<Rightarrow> go_error + (string \<rightharpoonup> 'any)" where
  "AsJsonObject unmarshal raw = (case unmarshal raw of Inl e \<Rightarrow> Inl e | Inr obj \<Rightarrow> Inr obj)"

definition NewDiff ::
  "(string \<Rightarrow> go_error + 'n) \<Rightarrow> ('n \<Rightarrow> 'n \<Rightarrow> 'd list) \<Rightarrow> byte list \<Rightarrow> byte list \<Rightarrow> go_error + 'd list" where
  "NewDiff readJson diff jsonA jsonB =
     (case readJson jsonA of
        Inl e \<Rightarrow> Inl (Wrap ''a'' [Atom (InPackage ''json'' ''ErrUnmarshal''), e])
      | Inr aNode \<Rightarrow>
          (case readJson jsonB of
             Inl e \<Rightarrow> Inl (Wrap ''b'' [Atom (InPackage ''json'' ''ErrUnmarshal''), e])
           | Inr bNode \<Rightarrow> Inr (diff aNode bNode)))"

section \<open>Errors with a code\<close>

record 'any coded_error =
  er_code :: string
  er_message :: string
  er_params :: "string \<rightharpoonup> 'any"
  er_cause :: "go_error option"

datatype 'any error_option = WithCause "go_error option" | WithParam string 'any | WithParams "string \<rightharpoonup> 'any"

fun error_Apply :: "'any error_option \<Rightarrow> 'any coded_error \<Rightarrow> 'any coded_error" where
  "error_Apply (WithCause cause) e = e\<lparr>er_cause := cause\<rparr>"
| "error_Apply (WithParam key v) e = e\<lparr>er_params := (er_params e)(key \<mapsto> v)\<rparr>"
| "error_Apply (WithParams params) e = e\<lparr>er_params := er_params e ++ params\<rparr>"

definition NewCodedError :: "string \<Rightarrow> string \<Rightarrow> 'any error_option list \<Rightarrow> 'any coded_error" where
  "NewCodedError code1 message opts =
     fold error_Apply opts \<lparr>er_code = code1, er_message = message, er_params = Map.empty, er_cause = None\<rparr>"

text \<open>Options change neither the code nor the message, and the last one to name a parameter decides.\<close>

lemma coded_error_fixed:
  "er_code (NewCodedError c m opts) = c \<and> er_message (NewCodedError c m opts) = m"
proof -
  have "er_code (fold error_Apply opts e) = er_code e \<and> er_message (fold error_Apply opts e) = er_message e"
    for e :: "'a coded_error"
  proof (induction opts arbitrary: e)
    case (Cons opt opts)
    then show ?case by (cases opt) simp_all
  qed simp
  then show ?thesis by (simp add: NewCodedError_def)
qed

lemma coded_error_last_param: "er_params (NewCodedError c m (opts @ [WithParam k v])) k = Some v"
  by (simp add: NewCodedError_def)

end
