(* ===== verification/Gen_Models.thy ===== *)
theory Gen_Models
  imports Go_Numbers Go_Files Http_Config
begin

text \<open>
  Package \<^verbatim>\<open>gen\<close>, the part of the code generator that makes enums, fields and models of a data access layer
  (\<^verbatim>\<open>gen.go\<close>, \<^verbatim>\<open>file.go\<close>): names, the type of a column in SQL and in Go, its constraints, the texts of enums and of model
  types, the imports of a generated file and the statements that create a table. The third-party stringy, which turns
  a text into snake and camel case, is a parameter. Texts are ASCII; a \<open>None\<close> is a panic of Go.
\<close>

abbreviation nl :: string where "nl \<equiv> [CHR 0x0A]"
abbreviation tab :: string where "tab \<equiv> [CHR 0x09]"

section \<open>Quoting and names\<close>

text \<open>\<open>strconv.Quote\<close> of an ASCII text.\<close>

definition hex_digit :: "nat \<Rightarrow> char" where
  "hex_digit n = (if n < 10 then char_of (48 + n) else char_of (87 + n))"

definition quote_char :: "char \<Rightarrow> string" where
  "quote_char c =
     (let n = of_char c :: nat; bs = CHR 0x5C
      in if c = CHR 0x22 \<or> c = bs then [bs, c]
         else if n = 7 then [bs, CHR ''a''] else if n = 8 then [bs, CHR ''b''] else if n = 12 then [bs, CHR ''f'']
         else if n = 10 then [bs, CHR ''n''] else if n = 13 then [bs, CHR ''r''] else if n = 9 then [bs, CHR ''t'']
         else if n = 11 then [bs, CHR ''v'']
         else if n < 32 \<or> n = 127 then [bs, CHR ''x'', hex_digit (n div 16), hex_digit (n mod 16)]
         else [c])"

definition Quote :: "string \<Rightarrow> string" where
  "Quote s = [CHR 0x22] @ concat (map quote_char s) @ [CHR 0x22]"

record named =
  nm_original :: string
  nm_snake :: string
  nm_camel :: string
  nm_camelCapitalized :: string
  nm_alias :: string
  nm_idSuffix :: string
  nm_daoSuffix :: string
  nm_columnsSuffix :: string

record stringy =
  sy_SnakeCase :: "string \<Rightarrow> string"
  sy_CamelCase :: "string \<Rightarrow> string"

definition capitalize :: "string \<Rightarrow> string option" where
  "capitalize s = (case s of [] \<Rightarrow> None | c # cs \<Rightarrow> Some (ToUpper [c] @ cs))"

definition asAlias :: "string \<Rightarrow> string option" where
  "asAlias s =
     (let parts = split_on (CHR ''_'') s
      in if [] \<in> set parts then None else Some (map hd parts))"

definition makeNamed :: "stringy \<Rightarrow> string \<Rightarrow> named option" where
  "makeNamed sy str =
     (let snake = sy_SnakeCase sy str; camel = sy_CamelCase sy str
      in Option.bind (capitalize camel) (\<lambda>cap.
         Option.bind (asAlias snake) (\<lambda>alias.
         Some \<lparr>nm_original = str, nm_snake = snake, nm_camel = camel, nm_camelCapitalized = cap, nm_alias = alias,
               nm_idSuffix = cap @ ''Id'', nm_daoSuffix = cap @ ''Dao'', nm_columnsSuffix = cap @ ''Columns''\<rparr>)))"

section \<open>Enums\<close>

text \<open>The SQL and the Go text of an enum.\<close>

definition enum_sql :: "string \<Rightarrow> string list \<Rightarrow> string" where
  "enum_sql name vals =
     ''DROP TYPE IF EXISTS '' @ name @ '';'' @ nl @ nl
     @ ''CREATE TYPE '' @ name @ '' AS ENUM ('' @ join_with '', '' (map (\<lambda>v. [CHR 0x27] @ v @ [CHR 0x27]) vals) @ '');''"

definition enum_go :: "string \<Rightarrow> (string \<times> string) list \<Rightarrow> string" where
  "enum_go cap vals =
     ''type '' @ cap @ '' string'' @ nl @ nl
     @ ''const ('' @ nl
     @ concat (map (\<lambda>(v, vname). tab @ cap @ vname @ '' '' @ cap @ '' = '' @ Quote v @ nl) vals)
     @ '')'' @ nl @ nl
     @ ''var '' @ cap @ ''Values = []'' @ cap @ ''{'' @ nl
     @ concat (map (\<lambda>(v, vname). tab @ cap @ vname @ '','' @ nl) vals)
     @ ''}'' @ nl @ nl
     @ ''var '' @ cap @ ''Map = map[string]'' @ cap @ ''{'' @ nl
     @ concat (map (\<lambda>(v, vname). tab @ Quote v @ '': '' @ cap @ vname @ '','' @ nl) vals)
     @ ''}'' @ nl"

definition capitalized_values :: "stringy \<Rightarrow> string list \<Rightarrow> (string \<times> string) list option" where
  "capitalized_values sy vals =
     those (map (\<lambda>v. map_option (\<lambda>n. (v, nm_camelCapitalized n)) (makeNamed sy v)) vals)"

definition generateEnum :: "stringy \<Rightarrow> string \<Rightarrow> string list \<Rightarrow> (string \<times> string) option" where
  "generateEnum sy name vals =
     Option.bind (makeNamed sy (ToLower name)) (\<lambda>enumName.
     Option.bind (capitalized_values sy vals) (\<lambda>named_vals.
     Some (enum_sql name vals, enum_go (nm_camelCapitalized enumName) named_vals)))"

text \<open>Both files of all enums: the map of enums in the order of its names, which are distinct.\<close>

abbreviation disclaimer :: string where "disclaimer \<equiv> ''Code generated by gen. DO NOT EDIT.''"

definition generateEnums :: "stringy \<Rightarrow> (string \<times> string list) list \<Rightarrow> (string \<times> string) option" where
  "generateEnums sy enumsMap =
     map_option
       (\<lambda>rs. (''-- '' @ disclaimer @ nl @ nl
                @ concat (map (\<lambda>((name, vals), (sql, go)). ''-- '' @ name @ nl @ nl @ sql @ nl @ nl) (zip (sort_key fst enumsMap) rs)),
              ''// '' @ disclaimer @ nl @ nl @ ''package dao'' @ nl @ nl
                @ concat (map (\<lambda>((name, vals), (sql, go)). ''// '' @ name @ nl @ nl @ go @ nl) (zip (sort_key fst enumsMap) rs))))
       (those (map (\<lambda>(name, vals). generateEnum sy name vals) (sort_key fst enumsMap)))"

section \<open>Fields\<close>

record source_field =
  sf_Name :: string
  sf_Type :: string
  sf_Seq :: bool
  sf_Primary :: bool
  sf_Unique :: bool
  sf_Array :: bool
  sf_ArraySize :: int
  sf_Nullable :: bool
  sf_Enum :: string
  sf_DataType :: string
  sf_Default :: string
  sf_References :: "string list"

datatype field_attribute =
  AttrSequence | AttrUnique | AttrUuid | AttrJson | AttrGeometry | AttrTime | AttrNullable

record sql_field =
  sq_name :: string
  sq_dataType :: string
  sq_extras :: string

record model_field =
  mf_name :: string
  mf_dataType :: string
  mf_annotations :: string

text \<open>\<^verbatim>\<open>%-Ns\<close> of \<open>fmt\<close>.\<close>

definition pad_right :: "nat \<Rightarrow> string \<Rightarrow> string" where
  "pad_right n s = s @ replicate (n - length s) (CHR '' '')"

definition sql_render :: "nat \<Rightarrow> nat \<Rightarrow> sql_field \<Rightarrow> string" where
  "sql_render nameWidth dataTypeWidth s =
     (if sq_extras s \<noteq> []
      then pad_right nameWidth (sq_name s) @ '' '' @ pad_right dataTypeWidth (sq_dataType s) @ '' '' @ sq_extras s
      else pad_right nameWidth (sq_name s) @ '' '' @ sq_dataType s)"

definition model_render :: "nat \<Rightarrow> nat \<Rightarrow> model_field \<Rightarrow> string" where
  "model_render nameWidth dataTypeWidth s =
     pad_right nameWidth (mf_name s) @ '' '' @ pad_right dataTypeWidth (mf_dataType s) @ '' '' @ mf_annotations s"

record entity_field =
  ef_name :: named
  ef_sqlField :: sql_field
  ef_modelField :: model_field
  ef_attributes :: "field_attribute list"

abbreviation gen_error :: "string \<Rightarrow> string \<Rightarrow> go_error" where
  "gen_error e text \<equiv> Wrap text [Atom (InPackage ''gen'' e)]"

definition nullableDataTypeOrDefault :: "source_field \<Rightarrow> string \<Rightarrow> string" where
  "nullableDataTypeOrDefault f def = (if sf_DataType f \<noteq> [] then ''*'' @ sf_DataType f else def)"

definition dataTypeOrDefault :: "source_field \<Rightarrow> string \<Rightarrow> string" where
  "dataTypeOrDefault f def = (if sf_DataType f \<noteq> [] then sf_DataType f else def)"

text \<open>The switch on the type of a field: attributes to add, type in SQL, type in Go. Most cases have the form \<open>plain_type\<close>.\<close>

definition plain_type :: "source_field \<Rightarrow> field_attribute list \<Rightarrow> string \<Rightarrow> string \<Rightarrow> field_attribute list \<times> string \<times> string" where
  "plain_type f attrs sql go =
     (attrs, sql,
      if sf_Nullable f then nullableDataTypeOrDefault f (''*'' @ dataTypeOrDefault f go) else dataTypeOrDefault f go)"

definition column_type :: "(string \<rightharpoonup> named) \<Rightarrow> source_field \<Rightarrow> go_error + field_attribute list \<times> string \<times> string" where
  "column_type enumsMap f =
     (let t = sf_Type f
      in if t = ''int64'' then Inr (plain_type f [] ''BIGINT'' ''int64'')
         else if t = ''int32'' then Inr (plain_type f [] ''INT'' ''int'')
         else if t = ''uint64'' then Inr (plain_type f [] ''INT'' ''uint64'')
         else if t = ''uint32'' then Inr (plain_type f [] ''INT'' ''uint32'')
         else if t = ''string'' then Inr (plain_type f [] ''TEXT'' ''string'')
         else if t = ''text'' then Inr (plain_type f [] ''TEXT'' ''string'')
         else if t = ''bool'' then Inr (plain_type f [] ''BOOLEAN'' ''bool'')
         else if t = ''uuid'' then Inr (plain_type f [AttrUuid] ''UUID'' ''uuid.UUID'')
         else if t = ''json'' then
           (if sf_DataType f = [] then Inl (gen_error ''errInvalidJSONField'' (sf_Name f))
            else Inr ([AttrJson], ''JSONB'',
                   let go = ''postgres.Json['' @ sf_DataType f @ '']''
                   in if sf_Nullable f then nullableDataTypeOrDefault f (''*'' @ go) else go))
         else if t = ''date'' then Inr (plain_type f [] ''DATE'' ''time.Time'')
         else if t = ''time'' then Inr (plain_type f [] ''TIME'' ''time.Time'')
         else if t = ''duration'' then Inr (plain_type f [] ''INTERVAL'' ''time.Duration'')
         else if t = ''timestamp'' then Inr (plain_type f [AttrTime] ''TIMESTAMPTZ'' ''time.Time'')
         else if t = ''enum'' then
           (if sf_Enum f = [] then Inl (gen_error ''errInvalidEnumField'' (sf_Name f))
            else (case enumsMap (sf_Enum f) of
                    None \<Rightarrow> Inl (gen_error ''errEnumNotFound'' (sf_Name f))
                  | Some enum \<Rightarrow> Inr (plain_type f [] (ToUpper (nm_snake enum)) (nm_camelCapitalized enum))))
         else if t = ''geometry'' then
           Inr ([AttrGeometry], ''GEOMETRY'',
                let go = dataTypeOrDefault f ''postgres.Geometry''
                in if sf_Nullable f then nullableDataTypeOrDefault f (''sql.Null['' @ go @ '']'') else go)
         else if has_prefix t ''varchar('' then
           (let lengthStr = drop (length ''varchar('') t
            in if lengthStr = [] \<or> last lengthStr \<noteq> CHR '')'' then Inl (gen_error ''errInvalidFieldType'' t)
               else (case ParseInt (butlast lengthStr) of
                       Inl e \<Rightarrow> Inl (Wrap (''invalid field type '' @ t) [e])
                     | Inr len \<Rightarrow> Inr (plain_type f [] (''VARCHAR('' @ show_int len @ '')'') ''string'')))
         else Inl (gen_error ''errUnsupportedFieldType'' t))"

definition array_type :: "source_field \<Rightarrow> string \<times> string \<Rightarrow> string \<times> string" where
  "array_type f = (\<lambda>(sql, go).
     if sf_Array f
     then (if sf_ArraySize f \<noteq> 0
           then (sql @ ''['' @ show_int (sf_ArraySize f) @ '']'', ''['' @ show_int (sf_ArraySize f) @ '']'' @ go)
           else (sql @ ''[]'', ''[]'' @ go))
     else (sql, go))"

definition constraints :: "source_field \<Rightarrow> go_error + string list" where
  "constraints f =
     (let extras = (if sf_Nullable f then [''NULL''] else [''NOT'', ''NULL''])
                   @ (if sf_Unique f then [''UNIQUE''] else [])
                   @ (if sf_Primary f then [''PRIMARY'', ''KEY''] else []);
          defaults = (if sf_Default f \<noteq> [] then [''DEFAULT'', TrimSpace (sf_Default f)] else [])
      in (case sf_References f of
            [] \<Rightarrow> Inr (extras @ defaults)
          | [tbl, col] \<Rightarrow> Inr (extras @ [''REFERENCES'', Quote tbl @ ''('' @ Quote col @ '')''] @ defaults)
          | _ \<Rightarrow> Inl (gen_error ''errReferencesMustContainTwoValues'' (show_nat (length (sf_References f))))))"

definition generateModelField ::
  "stringy \<Rightarrow> (string \<rightharpoonup> named) \<Rightarrow> source_field \<Rightarrow> (go_error + entity_field) option" where
  "generateModelField sy enumsMap f =
     Option.bind (makeNamed sy (sf_Name f)) (\<lambda>fieldName.
     Some (case column_type enumsMap f of
             Inl e \<Rightarrow> Inl e
           | Inr (attrs, sql0, go0) \<Rightarrow>
               (case array_type f (sql0, go0) of (sql, go) \<Rightarrow>
                  (case constraints f of
                     Inl e \<Rightarrow> Inl e
                   | Inr sqlExtras \<Rightarrow>
                       (let quotedName = Quote (nm_snake fieldName); bq = [CHR 0x60]
                        in Inr \<lparr>ef_name = fieldName,
                                ef_sqlField = \<lparr>sq_name = quotedName, sq_dataType = sql, sq_extras = join_with '' '' sqlExtras\<rparr>,
                                ef_modelField =
                                  \<lparr>mf_name = nm_camelCapitalized fieldName, mf_dataType = go,
                                   mf_annotations = bq @ ''json:'' @ quotedName @ '' yaml:'' @ quotedName @ '' sql:'' @ quotedName @ bq\<rparr>,
                                ef_attributes =
                                  (if sf_Seq f then [AttrSequence] else []) @ (if sf_Unique f then [AttrUnique] else [])
                                  @ (if sf_Nullable f then [AttrNullable] else []) @ attrs\<rparr>)))))"

section \<open>Models\<close>

text \<open>The attributes of a model are a set: the program reads them off a map, in no fixed order.\<close>

record entity_model =
  em_modelName :: named
  em_daoName :: named
  em_fields :: "entity_field list"
  em_attributes :: "field_attribute set"

fun generate_fields ::
  "stringy \<Rightarrow> (string \<rightharpoonup> named) \<Rightarrow> source_field list \<Rightarrow> (go_error + entity_field list) option" where
  "generate_fields sy enumsMap [] = Some (Inr [])"
| "generate_fields sy enumsMap (f # fs) =
     (case generateModelField sy enumsMap f of
        None \<Rightarrow> None
      | Some (Inl e) \<Rightarrow> Some (Inl (Wrap (''failed to generate model field '' @ sf_Name f) [e]))
      | Some (Inr ef) \<Rightarrow>
          (case generate_fields sy enumsMap fs of
             None \<Rightarrow> None
           | Some (Inl e) \<Rightarrow> Some (Inl e)
           | Some (Inr efs) \<Rightarrow> Some (Inr (ef # efs))))"

definition generateModel ::
  "stringy \<Rightarrow> (string \<rightharpoonup> named) \<Rightarrow> named \<Rightarrow> named \<Rightarrow> source_field list \<Rightarrow> (go_error + entity_model) option" where
  "generateModel sy enumsMap modelName daoName fs =
     (case generate_fields sy enumsMap fs of
        None \<Rightarrow> None
      | Some (Inl e) \<Rightarrow> Some (Inl e)
      | Some (Inr efs) \<Rightarrow>
          Some (Inr \<lparr>em_modelName = modelName, em_daoName = daoName, em_fields = efs,
                     em_attributes = \<Union> (set ` ef_attributes ` set efs)\<rparr>))"

section \<open>Generated files\<close>

text \<open>The types and methods of a model: getter, setter, implementation, row, constructor, conversion and bindings.\<close>

definition model_text :: "entity_model \<Rightarrow> string" where
  "model_text m =
     (let modelName = nm_camelCapitalized (em_modelName m);
          getterName = modelName @ ''Getter''; setterName = modelName @ ''Setter''; implName = modelName @ ''Impl'';
          rowName = nm_camel (em_modelName m) @ ''Row'';
          each = (\<lambda>g. concat (map (\<lambda>f. g (nm_camel (ef_name f)) (mf_name (ef_modelField f)) (mf_dataType (ef_modelField f))
                                          (mf_annotations (ef_modelField f))) (em_fields m)))
      in ''type '' @ getterName @ '' interface {'' @ nl
         @ each (\<lambda>camel name dt ann. tab @ ''Get'' @ name @ ''() '' @ dt @ nl) @ ''}'' @ nl @ nl
         @ ''type '' @ setterName @ '' interface {'' @ nl
         @ each (\<lambda>camel name dt ann. tab @ ''Set'' @ name @ ''(value '' @ dt @ '')'' @ nl) @ ''}'' @ nl @ nl
         @ ''type '' @ implName @ '' struct {'' @ nl
         @ each (\<lambda>camel name dt ann. tab @ camel @ '' '' @ dt @ '' '' @ ann @ nl) @ ''}'' @ nl @ nl
         @ ''type '' @ rowName @ '' struct {'' @ nl
         @ each (\<lambda>camel name dt ann. tab @ name @ '' '' @ dt @ '' '' @ ann @ nl) @ ''}'' @ nl @ nl
         @ ''func New'' @ modelName @ ''('' @ nl
         @ each (\<lambda>camel name dt ann. tab @ camel @ '' '' @ dt @ '','' @ nl)
         @ '') *'' @ implName @ '' {'' @ nl @ tab @ ''return &'' @ implName @ ''{'' @ nl
         @ each (\<lambda>camel name dt ann. tab @ tab @ camel @ '': '' @ camel @ '','' @ nl)
         @ tab @ ''}'' @ nl @ ''}'' @ nl @ nl
         @ ''func convert'' @ modelName @ ''RowToModel(row '' @ rowName @ '') '' @ modelName @ '' {'' @ nl
         @ tab @ ''return &'' @ implName @ ''{'' @ nl
         @ each (\<lambda>camel name dt ann. tab @ tab @ camel @ '': row.'' @ name @ '','' @ nl)
         @ tab @ ''}'' @ nl @ ''}'' @ nl @ nl
         @ each (\<lambda>camel name dt ann. ''func (m *'' @ implName @ '') Get'' @ name @ ''() '' @ dt @ ''{'' @ nl
                                     @ tab @ ''return m.'' @ camel @ nl @ ''}'' @ nl @ nl)
         @ each (\<lambda>camel name dt ann. ''func (m *'' @ implName @ '') Set'' @ name @ ''(value '' @ dt @ '') {'' @ nl
                                     @ tab @ ''m.'' @ camel @ '' = value'' @ nl @ ''}'' @ nl @ nl))"

text \<open>
  An import is an alias with a path. The order is that of \<open>sort.Slice\<close>, which for imports of the same path is only
  fixed by its implementation (an insertion sort up to twelve elements, and so stable).
\<close>

definition dao_imports :: "string \<Rightarrow> entity_model \<Rightarrow> string list list \<Rightarrow> go_error + (string \<times> string) list" where
  "dao_imports filename m daoImports =
     (if \<exists>imp \<in> set daoImports. length imp \<noteq> 2 then Inl (gen_error ''errFailedToParseImport'' filename)
      else Inr (sort_key snd
             ([([], ''github.com/pixality-inc/squirrel''), ([], ''github.com/pixality-inc/golang-core/postgres'')]
              @ map (\<lambda>imp. (imp ! 0, imp ! 1)) daoImports
              @ (if AttrUuid \<in> em_attributes m \<and> strings_Contains (model_text m) ''uuid.'' then [([], ''github.com/google/uuid'')] else [])
              @ (if AttrTime \<in> em_attributes m \<and> strings_Contains (model_text m) ''time.'' then [([], ''time'')] else [])
              @ (if AttrNullable \<in> em_attributes m \<and> strings_Contains (model_text m) ''sql.'' then [([], ''database/sql'')] else []))))"

definition import_block :: "(string \<times> string) list \<Rightarrow> string" where
  "import_block imports =
     ''import ('' @ nl
     @ concat (map (\<lambda>(alias, p). tab @ (if alias \<noteq> [] then alias @ '' '' @ Quote p else Quote p) @ nl) imports) @ '')''"

text \<open>\<open>generateFile\<close> of \<^verbatim>\<open>file.go\<close>.\<close>

definition gen_file_header :: "string \<Rightarrow> (string \<times> string) list \<Rightarrow> string" where
  "gen_file_header packageName importsToGen =
     ''// '' @ disclaimer @ nl @ nl @ ''package '' @ packageName @ nl @ nl
     @ (if importsToGen \<noteq> [] then import_block (sort_key snd importsToGen) else [])"

text \<open>The statements that create the sequences, the table and the unique indexes of a model.\<close>

definition max_width :: "(sql_field \<Rightarrow> string) \<Rightarrow> entity_model \<Rightarrow> nat" where
  "max_width text m = foldl (\<lambda>w f. if length (text (ef_sqlField f)) > w then length (text (ef_sqlField f)) else w) 0 (em_fields m)"

definition table_sql :: "entity_model \<Rightarrow> string" where
  "table_sql m =
     (let dao = nm_snake (em_daoName m); qt = Quote dao;
          nameWidth = max_width sq_name m; dataTypeWidth = max_width sq_dataType m
      in ''-- '' @ disclaimer @ nl @ nl
         @ concat (map (\<lambda>f. if AttrSequence \<in> set (ef_attributes f)
                           then (let sq = Quote (dao @ ''_'' @ nm_snake (ef_name f) @ ''_seq'')
                                 in ''DROP SEQUENCE IF EXISTS '' @ sq @ '';'' @ nl @ nl
                                    @ ''CREATE SEQUENCE IF NOT EXISTS '' @ sq @ '';'' @ nl @ nl)
                           else []) (em_fields m))
         @ ''DROP TABLE IF EXISTS '' @ qt @ '';'' @ nl @ nl
         @ ''CREATE TABLE IF NOT EXISTS '' @ qt @ '' ('' @ nl
         @ concat (map (\<lambda>(i, f). tab @ sql_render nameWidth dataTypeWidth (ef_sqlField f)
                                 @ (if Suc i \<noteq> length (em_fields m) then '','' else []) @ nl)
                     (enumerate 0 (em_fields m)))
         @ '');'' @ nl @ nl
         @ concat (map (\<lambda>f. if AttrUnique \<in> set (ef_attributes f)
                           then (let ix = Quote (dao @ ''_'' @ nm_snake (ef_name f) @ ''_idx'')
                                 in ''DROP INDEX IF EXISTS '' @ ix @ '';'' @ nl @ nl
                                    @ ''CREATE UNIQUE INDEX IF NOT EXISTS '' @ ix @ '' ON '' @ qt @ '' ('' @ Quote (nm_snake (ef_name f))
                                    @ '');'' @ nl @ nl)
                           else []) (em_fields m)))"

section \<open>Quoted texts\<close>

text \<open>How Go reads an interpreted string literal of ASCII characters, after its first quote.\<close>

definition hex_value :: "char \<Rightarrow> nat" where
  "hex_value c = (let n = of_char c :: nat in if n < 58 then n - 48 else n - 87)"

definition simple_escapes :: "(char \<times> nat) list" where
  "simple_escapes = [(CHR ''a'', 7), (CHR ''b'', 8), (CHR ''f'', 12), (CHR ''n'', 10), (CHR ''r'', 13), (CHR ''t'', 9),
                     (CHR ''v'', 11), (CHR 0x22, 34), (CHR 0x5C, 92)]"

fun read_literal :: "string \<Rightarrow> (string \<times> string) option" where
  "read_literal [] = None"
| "read_literal (c # cs) =
     (if c = CHR 0x22 then Some ([], cs)
      else if c \<noteq> CHR 0x5C then map_option (apfst (Cons c)) (read_literal cs)
      else (case cs of
              [] \<Rightarrow> None
            | e # r \<Rightarrow>
                if e = CHR ''x''
                then (case r of
                        h # l # r1 \<Rightarrow> map_option (apfst (Cons (char_of (16 * hex_value h + hex_value l)))) (read_literal r1)
                      | _ \<Rightarrow> None)
                else (case map_of simple_escapes e of
                        None \<Rightarrow> None
                      | Some n \<Rightarrow> map_option (apfst (Cons (char_of n))) (read_literal r))))"

lemma hex_value_digit: "k < 16 \<Longrightarrow> hex_value (hex_digit k) = k"
  by (auto simp: hex_value_def hex_digit_def Let_def)

lemma char_is:
  "c = CHR 0x22 \<longleftrightarrow> of_char c = (34 :: nat)" "c = CHR 0x5C \<longleftrightarrow> of_char c = (92 :: nat)"
proof -
  have "of_char CHR 0x22 = (34 :: nat)" "of_char CHR 0x5C = (92 :: nat)" by simp_all
  then show "c = CHR 0x22 \<longleftrightarrow> of_char c = (34 :: nat)" "c = CHR 0x5C \<longleftrightarrow> of_char c = (92 :: nat)"
    by (metis of_char_eq_iff)+
qed

lemma read_quote_char: "read_literal (quote_char c @ rest) = map_option (apfst (Cons c)) (read_literal rest)"
proof -
  define n where "n = (of_char c :: nat)"
  have c: "char_of n = c" by (simp add: n_def)
  have which: "c = CHR 0x22 \<longleftrightarrow> n = 34" "c = CHR 0x5C \<longleftrightarrow> n = 92" unfolding n_def by (rule char_is)+
  consider (hex) "n \<notin> {7, 8, 9, 10, 11, 12, 13, 34, 92}" "n < 32 \<or> n = 127"
    | (escape) "n \<in> {7, 8, 9, 10, 11, 12, 13, 34, 92}"
    | (plain) "n \<notin> {7, 8, 9, 10, 11, 12, 13, 34, 92}" "\<not> (n < 32 \<or> n = 127)" by blast
  then show ?thesis
  proof cases
    case hex
    then have "n < 256" by auto
    with hex have "quote_char c = [CHR 0x5C, CHR ''x'', hex_digit (n div 16), hex_digit (n mod 16)]"
      by (auto simp: quote_char_def n_def [symmetric] which Let_def)
    moreover have "16 * hex_value (hex_digit (n div 16)) + hex_value (hex_digit (n mod 16)) = n"
      using \<open>n < 256\<close> by (simp add: hex_value_digit)
    ultimately show ?thesis by (simp add: c)
  next
    case escape
    then have "\<exists>e. quote_char c = [CHR 0x5C, e] \<and> e \<noteq> CHR ''x'' \<and> map_of simple_escapes e = Some n"
    proof (cases "n = 34 \<or> n = 92")
      case True
      then show ?thesis using which by (auto simp: quote_char_def simple_escapes_def Let_def)
    next
      case False
      with escape show ?thesis
        by (auto simp: quote_char_def n_def [symmetric] which simple_escapes_def Let_def)
    qed
    then show ?thesis using c by auto
  next
    case plain
    then have "quote_char c = [c]" "c \<noteq> CHR 0x22" "c \<noteq> CHR 0x5C"
      by (auto simp: quote_char_def n_def [symmetric] which Let_def)
    then show ?thesis by simp
  qed
qed

text \<open>Whatever an enum's value consists of, Go reads the literal that is written for it back as this value.\<close>

lemma Quote_reads_back: "read_literal (drop 1 (Quote s @ rest)) = Some (s, rest)"
proof -
  have "read_literal (concat (map quote_char s) @ CHR 0x22 # rest) = Some (s, rest)"
    by (induction s) (simp_all add: read_quote_char)
  then show ?thesis by (simp add: Quote_def)
qed

text \<open>Not so in SQL: values are written between quotes as they are, and two different enums give the same statement.\<close>

lemma enum_sql_not_injective:
  "enum_sql ''color'' [''red'' @ [CHR 0x27] @ '', '' @ [CHR 0x27] @ ''green''] = enum_sql ''color'' [''red'', ''green'']"
  by (simp add: enum_sql_def)

section \<open>What is generated\<close>

text \<open>A model has the fields of its source, in their order; the first field that fails stops it.\<close>

lemma generated_names:
  assumes "generateModelField sy enumsMap f = Some (Inr ef)"
  shows "nm_original (ef_name ef) = sf_Name f \<and> mf_name (ef_modelField ef) = nm_camelCapitalized (ef_name ef)
         \<and> sq_name (ef_sqlField ef) = Quote (nm_snake (ef_name ef))"
proof -
  obtain n where n: "makeNamed sy (sf_Name f) = Some n"
    using assms by (auto simp: generateModelField_def bind_eq_Some_conv)
  then have original: "nm_original n = sf_Name f"
    by (auto simp: makeNamed_def Let_def bind_eq_Some_conv)
  obtain attrs sql0 go0 where c: "column_type enumsMap f = Inr (attrs, sql0, go0)"
    using assms n by (cases "column_type enumsMap f") (auto simp: generateModelField_def)
  obtain sql go where a: "array_type f (sql0, go0) = (sql, go)" by fastforce
  obtain extras where k: "constraints f = Inr extras"
    using assms n c a by (cases "constraints f") (auto simp: generateModelField_def)
  from assms original show ?thesis by (auto simp: generateModelField_def n c a k Let_def)
qed

lemma model_keeps_fields:
  assumes "generateModel sy enumsMap modelName daoName fs = Some (Inr m)"
  shows "map (\<lambda>ef. nm_original (ef_name ef)) (em_fields m) = map sf_Name fs"
proof -
  have "map (\<lambda>ef. nm_original (ef_name ef)) efs = map sf_Name fs"
    if "generate_fields sy enumsMap fs = Some (Inr efs)" for efs
    using that
  proof (induction fs arbitrary: efs)
    case (Cons f fs)
    then obtain ef rest where "generateModelField sy enumsMap f = Some (Inr ef)"
      "generate_fields sy enumsMap fs = Some (Inr rest)" "efs = ef # rest"
      by (auto split: option.splits sum.splits)
    with Cons.IH generated_names show ?case by auto
  qed simp
  moreover obtain efs where "generate_fields sy enumsMap fs = Some (Inr efs)" "em_fields m = efs"
    using assms by (auto simp: generateModel_def split: option.splits sum.splits)
  ultimately show ?thesis by simp
qed

text \<open>Every column says whether it may be null, first.\<close>

lemma column_nullness:
  assumes "constraints f = Inr extras"
  shows "if sf_Nullable f then hd extras = ''NULL'' else take 2 extras = [''NOT'', ''NULL'']"
  using assms by (auto simp: constraints_def Let_def split: list.splits)

text \<open>A nullable JSON column has the bare type of its data in Go, without the wrapper that can be scanned.\<close>

lemma nullable_json_unwrapped:
  assumes "sf_Type f = ''json''" "sf_DataType f \<noteq> []"
  shows "column_type enumsMap f =
    Inr ([AttrJson], ''JSONB'', if sf_Nullable f then ''*'' @ sf_DataType f else ''postgres.Json['' @ sf_DataType f @ '']'')"
  using assms by (simp add: column_type_def nullableDataTypeOrDefault_def Let_def)

text \<open>An unsigned number of 64 bits gets a signed column of 32.\<close>

lemma uint64_column:
  assumes "sf_Type f = ''uint64''"
  shows "\<exists>go. column_type enumsMap f = Inr ([], ''INT'', go)"
  using assms by (simp add: column_type_def plain_type_def Let_def)

text \<open>A field that is a date, a time of day or a duration has a type of package \<^verbatim>\<open>time\<close>, but does not make the file import
  it; only a timestamp does.\<close>

lemma date_without_import:
  assumes "dao_imports filename m [] = Inr imports" "AttrTime \<notin> em_attributes m"
  shows "([], ''time'') \<notin> set imports"
  using assms by (auto simp: dao_imports_def simp del: sort_key_simps)

lemma date_sets_no_attribute:
  assumes "sf_Type f \<in> {''date'', ''time'', ''duration''}" "column_type enumsMap f = Inr (attrs, r)"
  shows "attrs = []"
  using assms by (auto simp: column_type_def plain_type_def)

text \<open>The cases of the package's own test.\<close>

definition plain_stringy :: stringy where
  "plain_stringy = \<lparr>sy_SnakeCase = (\<lambda>s. s), sy_CamelCase = (\<lambda>s. s)\<rparr>"

definition test_field :: "string \<Rightarrow> string \<Rightarrow> source_field" where
  "test_field name t =
     \<lparr>sf_Name = name, sf_Type = t, sf_Seq = False, sf_Primary = False, sf_Unique = False, sf_Array = False, sf_ArraySize = 0,
      sf_Nullable = False, sf_Enum = [], sf_DataType = [], sf_Default = [], sf_References = []\<rparr>"

definition rendered :: "(go_error + entity_field) option \<Rightarrow> (string \<times> string \<times> field_attribute list) option" where
  "rendered r =
     (case r of
        Some (Inr ef) \<Rightarrow> Some (sql_render 0 0 (ef_sqlField ef), model_render 0 0 (ef_modelField ef), ef_attributes ef)
      | _ \<Rightarrow> None)"

definition annotated :: "string \<Rightarrow> string \<Rightarrow> string" where
  "annotated decl name =
     decl @ '' '' @ [CHR 0x60] @ ''json:'' @ Quote name @ '' yaml:'' @ Quote name @ '' sql:'' @ Quote name @ [CHR 0x60]"

lemma test_names: "capitalize ''number'' = Some ''Number''" "capitalize ''path'' = Some ''Path''" "show_int 1 = ''1''"
  by code_simp+

lemma test_int64:
  "rendered (generateModelField plain_stringy enumsMap (test_field ''number'' ''int64''))
   = Some (Quote ''number'' @ '' BIGINT NOT NULL'', annotated ''Number int64'' ''number'', [])"
  by (simp add: rendered_def generateModelField_def makeNamed_def test_names asAlias_def plain_stringy_def test_field_def
      Let_def column_type_def plain_type_def dataTypeOrDefault_def array_type_def constraints_def
      sql_render_def model_render_def pad_right_def annotated_def)

lemma test_array:
  "rendered (generateModelField plain_stringy enumsMap (test_field ''path'' ''uuid''\<lparr>sf_Array := True, sf_ArraySize := 1\<rparr>))
   = Some (Quote ''path'' @ '' UUID[1] NOT NULL'', annotated ''Path [1]uuid.UUID'' ''path'', [AttrUuid])"
  by (simp add: rendered_def generateModelField_def makeNamed_def test_names asAlias_def plain_stringy_def test_field_def
      Let_def column_type_def plain_type_def dataTypeOrDefault_def array_type_def constraints_def
      sql_render_def model_render_def pad_right_def annotated_def)

end
