(* ===== verification/Spec2Isabelle.thy ===== *)
theory Spec2Isabelle
  imports Tokenizer Retries Promises Lazy_Poll Pools Os_Provider Sync_Storage Gcs_Store Flows Proto_Parser Caches Protocols Http_Client Kafka_Consumer Net_Sessions Encoders Thread_Maps Databases Jwt_Tokens Redis_Client Mailers Downloads Pushers Json_Values Gen_Models
begin

text \<open>
  Verification library for golang-core, a collection of Go packages for services: iterators and a tokenizer,
  promises, pools and polling, retries and circuit breakers, object storage on several back ends, HTTP and Kafka
  clients, an HTTP server, caches, databases, command execution and flows. The packages use each other: storages and clients
  retry through \<^verbatim>\<open>retry\<close>, clients guard their calls with \<^verbatim>\<open>circuit_breaker\<close>, flows run commands of \<^verbatim>\<open>cli\<close> on local
  files, the tokenizer and the map iterators implement \<^verbatim>\<open>iterator\<close>. The theories follow the packages; below,
  each is named with the files under \<^verbatim>\<open>src/\<close> that it models.

  \<^bold>\<open>How Go is modelled.\<close> A struct is a record, its methods are functions that take the record and return it updated;
  methods under a mutex are one step. A Go interface value is a record of functions over a state. An error is a tree
  of what it wraps (\<open>go_error\<close>, prelude \<open>Go_Base\<close>), a nil error is \<open>None\<close>, a result with an error is a sum, and a
  panic or a call that never returns is a value of its own. Strings are lists of bytes. Integers are words where they
  are read as machine integers (offsets, lines and columns of the tokenizer, TLS versions) and \<open>int\<close> or \<open>nat\<close> where the
  code keeps them small; durations are \<open>int\<close> with the bounds of int64 written where the code converts to them, and
  \<open>float64\<close> is the record \<open>go_float\<close> of what it rounds. Goroutines that meet on shared data are step relations with
  every interleaving. Log lines are left out unless they are the only outcome of a call.

  \<^bold>\<open>The standard library\<close> is written out as far as it is used: \<open>Go_Text\<close> (\<^verbatim>\<open>strings\<close>, \<^verbatim>\<open>path\<close>, formatting of numbers),
  \<open>Go_Numbers\<close> (\<^verbatim>\<open>strconv\<close>), \<open>Go_Url\<close> (\<^verbatim>\<open>net/url\<close>), \<open>Go_Files\<close> (\<^verbatim>\<open>os\<close>, \<^verbatim>\<open>io\<close>, with a fault at any system call),
  \<open>Go_Channels\<close> (buffered channels). In the HTTP client, the thread-safe map and the UDP
  server the order of a range over a map is a parameter.
  Third-party code is a parameter: a record of its calls on a world, with laws that
  state documented behaviour where a property needs them (\<open>minio_laws\<close>, \<open>gcs_laws\<close>), each instantiated by a concrete
  function in the witness of the property.

  \<^bold>\<open>Iterators and texts.\<close> \<open>Iterators\<close> (\<^verbatim>\<open>iterator/\<close>): the contract is the locale \<open>finite_iterator\<close>, which the reader
  iterator (\<open>reader\<close>) and the map iterator (\<open>map_entries\<close> in \<open>Thread_Maps\<close>, \<^verbatim>\<open>maps/\<close>) interpret; \<open>lossless_iterator\<close>
  carries the look-ahead buffer. \<open>Tokenizer\<close> (\<^verbatim>\<open>tokenizer/\<close>): a run that reports no error loses no byte, it computes what
  a reference lexer computes, it ends, and the positions of the tokens are those of their bytes. \<open>Proto_Parser\<close>
  (\<^verbatim>\<open>proto_parser/\<close>) models Go slices with shared arrays and is compared with a reference without them. \<open>Encoders\<close>
  (\<^verbatim>\<open>encoder/\<close>) and \<open>Utils\<close> (\<^verbatim>\<open>util/\<close>) hold round trips and small helpers.

  \<^bold>\<open>Concurrency.\<close> \<open>Promises\<close> (\<^verbatim>\<open>either/\<close>, \<^verbatim>\<open>promise/\<close>, \<^verbatim>\<open>future/\<close>): under every interleaving a waiter gets the one outcome
  that was set, nothing panics, and waiters wake. \<open>Pools\<close> (\<^verbatim>\<open>pool/\<close>): at most as many tasks run as the pool has
  workers; tasks are started once and in order, and the next one can be started as long as a worker is left; the
  deadlock without workers is proved as it stands. \<open>Lazy_Poll\<close> (\<^verbatim>\<open>lazy/\<close>,
  \<^verbatim>\<open>poll/\<close>). \<open>Services\<close> (\<^verbatim>\<open>control_flow/\<close>, \<^verbatim>\<open>preloader/\<close>, \<^verbatim>\<open>scheduler/\<close>, \<^verbatim>\<open>timetrack/\<close>, the server, router and health check of
  \<^verbatim>\<open>http/\<close>).

  \<^bold>\<open>Calls that fail.\<close> \<open>Retries\<close> (\<^verbatim>\<open>retry/\<close>): the loops are recursions with \<open>MaxAttempts\<close> as their measure, so they always
  return; \<open>DoWithCondition_rule\<close> and \<open>Do_erase\<close> are the rules that their clients use. \<open>Breakers\<close>
  (\<^verbatim>\<open>circuit_breaker/\<close>): the locale \<open>call_guard\<close> is what clients rely on, interpreted as \<open>guarded_call\<close>. \<open>Http_Config\<close>
  and \<open>Http_Client\<close> (\<^verbatim>\<open>http_client/\<close>): what is sent, how often, and which outcome is reported. \<open>Kafka_Client\<close> and
  \<open>Kafka_Consumer\<close> (\<^verbatim>\<open>kafka/\<close>): a record is settled before the next one, is handled as often as allowed, and is
  committed only afterwards. \<open>Http_Server\<close> (\<^verbatim>\<open>http/\<close>): content negotiation against a reference, and how errors are
  answered.

  \<^bold>\<open>Storage.\<close> \<open>Storages\<close> (\<^verbatim>\<open>storage/\<close>): the locale \<open>object_store\<close> is the contract of the interface, \<open>movable_store\<close> adds
  moves; retrying keeps it. It is interpreted on local files (\<open>os\<close>, \<open>Os_Provider\<close>, \<^verbatim>\<open>storage/providers/os.go\<close>), on a
  storage over them (\<open>os_storage\<close>) and on several storages kept in step (\<open>os_sync\<close>, \<open>Sync_Storage\<close>,
  \<^verbatim>\<open>storage/providers/sync.go\<close>); under the laws of the third-party clients it holds of \<open>S3_Store\<close> (\<^verbatim>\<open>s3/\<close>) and \<open>Gcs_Store\<close>
  (\<^verbatim>\<open>gcs/\<close>), whose listings are compared in \<open>Buckets\<close>. \<open>Storage_Meta\<close> is the rest of \<^verbatim>\<open>storage/\<close>. \<open>Caches\<close> (\<^verbatim>\<open>cache/\<close>):
  the locale \<open>cache_store\<close> is interpreted by the provider in memory (\<open>memory\<close>).

  \<^bold>\<open>Services elsewhere.\<close> \<open>Lazy_Connections\<close>: the locale \<open>lazy_connection\<close> is a connection made on first use under a
  breaker, interpreted by \<open>Databases\<close> (\<open>pg\<close>, \<^verbatim>\<open>postgres/\<close>: what SQL clauses say, queries, and transactions whose value is
  that of a run) and by \<open>Redis_Client\<close> (\<open>redis\<close>, \<^verbatim>\<open>redis/\<close>: a cache over it never takes a failure for a missing key).
  \<open>Jwt_Tokens\<close> (\<^verbatim>\<open>jwt/\<close>), \<open>Mailers\<close> (\<^verbatim>\<open>mailer/\<close>), \<open>Pushers\<close> (\<^verbatim>\<open>pusher/\<close>) and \<open>Downloads\<close> (\<^verbatim>\<open>downloader/\<close>) check and
  convert what they hand to libraries and to the HTTP client; \<open>Json_Values\<close> (\<^verbatim>\<open>json/\<close>, \<^verbatim>\<open>errors/\<close>) holds values with two
  forms and errors with a code. \<open>Gen_Models\<close> (\<^verbatim>\<open>gen/\<close>) is the core of the code generator: names, enums, columns and models.

  \<^bold>\<open>Commands and flows.\<close> \<open>Cli\<close> (\<^verbatim>\<open>cli/\<close>) and \<open>Flows\<close> (\<^verbatim>\<open>flow/\<close>): a validated flow reports its actions in order, and a
  command succeeds exactly as its options say.

  \<^bold>\<open>Network.\<close> \<open>Protocols\<close> (\<^verbatim>\<open>net/protocol/\<close>): lines survive any cutting of the stream. \<open>Net_Servers\<close> (\<^verbatim>\<open>net/\<close>): one
  session per UDP address, and the life of a server for streams under every interleaving of its goroutines: what is left
  when it returns, and that it returns once it is stopped, in every run that does not put off its own steps for ever.
  \<open>Net_Sessions\<close>: what a session of a stream or of WebSocket may do to its client and its connection, interleaved with
  the goroutine that watches the context and with the protocol.

  \<^bold>\<open>Bounds.\<close> Loops that may run forever are \<open>partial_function (option)\<close>: \<open>Materialize\<close>, \<open>poll_loop\<close>, the loop around a
  Kafka record and the loop of \<open>Consume\<close>; that they return is a theorem of its own where it is claimed
  (\<open>tokenize_terminates\<close>, \<open>kafka_record_returns\<close>, \<open>map_refines_function\<close>). No other fuel is used.

  \<^bold>\<open>Not modelled.\<close> \<^verbatim>\<open>logger/\<close>, \<^verbatim>\<open>metrics/\<close>, \<^verbatim>\<open>temporal/\<close>, \<^verbatim>\<open>flow_goja/\<close> and \<^verbatim>\<open>flow_gotemplate/\<close> hand values on to
  third-party libraries whose code is elsewhere, so a model of them would consist of parameters; of \<^verbatim>\<open>net/\<close>,
  identifiers, TLS and the upgrade to WebSocket are left out. Of the code generator, the OpenAPI description, the web
  layer and the templates of the data access methods are left out. So are generated mocks.
\<close>

end
